(* ===== verification/Prelude.thy ===== *)
theory Prelude
  imports Main
begin

text \<open>
  Shared vocabulary of the development: the collections of proof hints, results that are
  either an error or a value, and the lemmas on lists and options that several components
  use.
\<close>

named_theorems eff_simps "how the effect combinators run"
named_theorems wp_simps "weakest preconditions of the effect combinators and primitives"
named_theorems text_simps "facts about Python text functions"
named_theorems table_simps "facts about rows of a table"
named_theorems fs_simps "facts about the file system model"

section \<open>Results\<close>

text \<open>
  A pure Python function that may raise returns \<open>Inl error\<close> or \<open>Inr value\<close>.
  \<open>rbind\<close> is sequencing: the first error wins, as a raise would.
\<close>

definition rbind :: "'e + 'a \<Rightarrow> ('a \<Rightarrow> 'e + 'b) \<Rightarrow> 'e + 'b" where
  "rbind r f = (case r of Inl e \<Rightarrow> Inl e | Inr x \<Rightarrow> f x)"

lemma rbind_simps [simp]:
  "rbind (Inl e) f = Inl e"
  "rbind (Inr x) f = f x"
  by (simp_all add: rbind_def)

lemma rbind_eq_Inr: "rbind r f = Inr y \<longleftrightarrow> (\<exists>x. r = Inr x \<and> f x = Inr y)"
  by (cases r) auto

lemma rbind_eq_Inl: "rbind r f = Inl e \<longleftrightarrow> r = Inl e \<or> (\<exists>x. r = Inr x \<and> f x = Inl e)"
  by (cases r) auto

definition require :: "bool \<Rightarrow> 'e \<Rightarrow> 'e + unit" where
  "require b e = (if b then Inr () else Inl e)"

lemma require_simps [simp]:
  "require True e = Inr ()"
  "require False e = Inl e"
  "require b e = Inr u \<longleftrightarrow> b"
  "require b e = Inl e' \<longleftrightarrow> \<not> b \<and> e' = e"
  by (auto simp: require_def)

definition is_ok :: "'e + 'a \<Rightarrow> bool" where
  "is_ok r = (case r of Inl _ \<Rightarrow> False | Inr _ \<Rightarrow> True)"

lemma is_ok_simps [simp]: "is_ok (Inr x)" "\<not> is_ok (Inl e)"
  by (simp_all add: is_ok_def)

section \<open>Lists\<close>

fun starts_with :: "'a list \<Rightarrow> 'a list \<Rightarrow> bool" where
  "starts_with [] ys = True"
| "starts_with (x # xs) [] = False"
| "starts_with (x # xs) (y # ys) = (x = y \<and> starts_with xs ys)"

lemma starts_with_iff: "starts_with xs ys \<longleftrightarrow> (\<exists>zs. ys = xs @ zs)"
  by (induction xs ys rule: starts_with.induct) auto

lemma starts_with_append [simp]: "starts_with xs (xs @ ys)"
  by (auto simp: starts_with_iff)

lemma starts_with_take: "starts_with xs ys \<longleftrightarrow> take (length xs) ys = xs"
  by (induction xs ys rule: starts_with.induct) auto

definition ends_with :: "'a list \<Rightarrow> 'a list \<Rightarrow> bool" where
  "ends_with xs ys = starts_with (rev xs) (rev ys)"

lemma ends_with_iff: "ends_with xs ys \<longleftrightarrow> (\<exists>zs. ys = zs @ xs)"
proof
  assume "ends_with xs ys"
  then obtain zs where "rev ys = rev xs @ zs"
    by (auto simp: ends_with_def starts_with_iff)
  then have "ys = rev zs @ xs"
    by (metis rev_append rev_rev_ident)
  then show "\<exists>zs. ys = zs @ xs" ..
next
  assume "\<exists>zs. ys = zs @ xs"
  then show "ends_with xs ys"
    by (auto simp: ends_with_def starts_with_iff)
qed

lemma ends_with_last: "ends_with [x] ys \<longleftrightarrow> ys \<noteq> [] \<and> last ys = x"
  by (auto simp: ends_with_iff) (metis append_butlast_last_id)

text \<open>The proper non-empty prefixes of a path, shortest first.\<close>

fun prefixes_from :: "'a list \<Rightarrow> 'a list \<Rightarrow> 'a list list" where
  "prefixes_from done [] = []"
| "prefixes_from done (x # xs) = (done @ [x]) # prefixes_from (done @ [x]) xs"

lemma prefixes_from_iff:
  "p \<in> set (prefixes_from d xs) \<longleftrightarrow> (\<exists>ys zs. ys \<noteq> [] \<and> xs = ys @ zs \<and> p = d @ ys)"
proof (induction xs arbitrary: d)
  case Nil
  then show ?case by simp
next
  case (Cons x xs)
  show ?case
  proof
    assume "p \<in> set (prefixes_from d (x # xs))"
    then consider "p = d @ [x]" | "p \<in> set (prefixes_from (d @ [x]) xs)" by auto
    then show "\<exists>ys zs. ys \<noteq> [] \<and> x # xs = ys @ zs \<and> p = d @ ys"
    proof cases
      case 1
      then show ?thesis by (intro exI [of _ "[x]"] exI [of _ xs]) simp
    next
      case 2
      then obtain ys zs where "xs = ys @ zs" "p = (d @ [x]) @ ys"
        using Cons.IH by blast
      then show ?thesis by (intro exI [of _ "x # ys"] exI [of _ zs]) simp
    qed
  next
    assume "\<exists>ys zs. ys \<noteq> [] \<and> x # xs = ys @ zs \<and> p = d @ ys"
    then obtain ys zs where *: "ys \<noteq> []" "x # xs = ys @ zs" "p = d @ ys" by blast
    then obtain ys' where ys: "ys = x # ys'" "xs = ys' @ zs" by (cases ys) auto
    show "p \<in> set (prefixes_from d (x # xs))"
    proof (cases "ys' = []")
      case True
      with * ys show ?thesis by simp
    next
      case False
      with * ys Cons.IH have "p \<in> set (prefixes_from (d @ [x]) xs)" by auto
      then show ?thesis by simp
    qed
  qed
qed

lemma find_Some_iff_in: "find P xs = Some x \<Longrightarrow> x \<in> set xs \<and> P x"
  by (induction xs) (auto split: if_splits)

lemma find_None_iff_all: "find P xs = None \<longleftrightarrow> (\<forall>x \<in> set xs. \<not> P x)"
  by (induction xs) auto

end
