(* ===== verification/Errors.thy ===== *)
theory Errors
  imports Prelude
begin

text \<open>
  The exceptions of \<open>app/core/exceptions.py\<close> and the built-in and library exceptions the
  services catch by class. An exception is its class; the message shown to the operator is
  not modelled. The two classes whose instances are told apart by data keep it: a
  \<open>CSRFError\<close> carries the \<open>reason\<close> of its safe metadata.
\<close>

datatype error_code =
    BAD_REQUEST | AUTHENTICATION_REQUIRED | PERMISSION_DENIED | NOT_FOUND | CONFLICT
  | PAYLOAD_TOO_LARGE | VALIDATION_ERROR | RATE_LIMITED | INTERNAL_ERROR
  | SERVICE_UNAVAILABLE | INVALID_STATE_TRANSITION | FILE_VALIDATION_ERROR | STORAGE_ERROR
  | DUPLICATE_FILE | AUTHENTICATION_ERROR | CSRF_ERROR

text \<open>Reasons of \<open>CSRFError\<close>, \<open>app/core/csrf.py\<close>.\<close>

datatype csrf_reason =
    CsrfMissing | CsrfOversized | CsrfMalformed | CsrfIssuedInFuture | CsrfExpired
  | CsrfContextMismatch | CsrfSignatureMismatch | CsrfLoginCookieMissing
  | CsrfInvalidSessionContext

datatype exn =
    EntityNotFound | PermissionDenied | EntityConflict | PayloadTooLarge | ValidationError
  | InvalidStateTransition | FileValidationError | StorageError | DuplicateFileError
  | AuthenticationError | CSRFError csrf_reason | ServiceUnavailable | RateLimitError
  | ValueError | TypeError | KeyError | AttributeError | RuntimeError
  | OSError | FileNotFoundError | FileExistsError
  | SQLAlchemyError | IntegrityError

text \<open>Subclasses of \<open>ApplicationError\<close>.\<close>

fun is_application_error :: "exn \<Rightarrow> bool" where
  "is_application_error ValueError = False"
| "is_application_error TypeError = False"
| "is_application_error KeyError = False"
| "is_application_error AttributeError = False"
| "is_application_error RuntimeError = False"
| "is_application_error OSError = False"
| "is_application_error FileNotFoundError = False"
| "is_application_error FileExistsError = False"
| "is_application_error SQLAlchemyError = False"
| "is_application_error IntegrityError = False"
| "is_application_error _ = True"

definition is_os_error :: "exn \<Rightarrow> bool" where
  "is_os_error e = (e \<in> {OSError, FileNotFoundError, FileExistsError})"

definition is_sqlalchemy_error :: "exn \<Rightarrow> bool" where
  "is_sqlalchemy_error e = (e \<in> {SQLAlchemyError, IntegrityError})"

lemma is_os_error_simps [simp]:
  "is_os_error OSError" "is_os_error FileNotFoundError" "is_os_error FileExistsError"
  "\<not> is_os_error StorageError" "\<not> is_os_error FileValidationError"
  "\<not> is_os_error PayloadTooLarge"
  by (simp_all add: is_os_error_def)

text \<open>The class attributes \<open>status_code\<close> and \<open>code\<close>; \<open>None\<close> for foreign exceptions.\<close>

fun error_code_of :: "exn \<Rightarrow> error_code option" where
  "error_code_of EntityNotFound = Some NOT_FOUND"
| "error_code_of PermissionDenied = Some PERMISSION_DENIED"
| "error_code_of EntityConflict = Some CONFLICT"
| "error_code_of PayloadTooLarge = Some PAYLOAD_TOO_LARGE"
| "error_code_of ValidationError = Some VALIDATION_ERROR"
| "error_code_of InvalidStateTransition = Some INVALID_STATE_TRANSITION"
| "error_code_of FileValidationError = Some FILE_VALIDATION_ERROR"
| "error_code_of StorageError = Some STORAGE_ERROR"
| "error_code_of DuplicateFileError = Some DUPLICATE_FILE"
| "error_code_of AuthenticationError = Some AUTHENTICATION_ERROR"
| "error_code_of (CSRFError _) = Some CSRF_ERROR"
| "error_code_of ServiceUnavailable = Some SERVICE_UNAVAILABLE"
| "error_code_of RateLimitError = Some RATE_LIMITED"
| "error_code_of _ = None"

fun status_code :: "exn \<Rightarrow> nat option" where
  "status_code EntityNotFound = Some 404"
| "status_code PermissionDenied = Some 403"
| "status_code EntityConflict = Some 409"
| "status_code PayloadTooLarge = Some 413"
| "status_code ValidationError = Some 422"
| "status_code InvalidStateTransition = Some 409"
| "status_code FileValidationError = Some 422"
| "status_code StorageError = Some 503"
| "status_code DuplicateFileError = Some 409"
| "status_code AuthenticationError = Some 401"
| "status_code (CSRFError _) = Some 403"
| "status_code ServiceUnavailable = Some 503"
| "status_code RateLimitError = Some 429"
| "status_code _ = None"

lemma status_code_application: "status_code e \<noteq> None \<longleftrightarrow> is_application_error e"
  by (cases e) simp_all

lemma error_code_application: "error_code_of e \<noteq> None \<longleftrightarrow> is_application_error e"
  by (cases e) simp_all

end
