(* ===== verification/PyText.thy ===== *)
theory PyText
  imports Errors "HOL-Library.Word" "HOL-Library.Code_Target_Nat"
begin

text \<open>
  Python's \<open>str\<close> as the list of its code points, with the string methods the services
  use: \<open>strip\<close>, \<open>split\<close>, \<open>join\<close>, \<open>replace\<close>, \<open>casefold\<close>, UTF-8 encoding and decimal
  and hexadecimal notation. ASCII is treated exactly; what depends on the Unicode
  character database beyond ASCII (case folding, normalisation forms, the \<open>C\<close>
  categories) is read from a record of tables, a parameter of the model.
\<close>

type_synonym str = "nat list"
type_synonym byte = "8 word"
type_synonym bytes = "byte list"

text \<open>A string literal of the source.\<close>

definition py :: "string \<Rightarrow> str" where
  "py s = map of_char s"

record unicode =
  fold_of :: "nat \<Rightarrow> str"
  nfkc_of :: "str \<Rightarrow> str"
  nfkd_of :: "str \<Rightarrow> str"
  other_category :: "nat \<Rightarrow> bool"
  lower_of :: "str \<Rightarrow> str"

definition ascii_only :: unicode where
  "ascii_only = \<lparr>fold_of = (\<lambda>c. [c]), nfkc_of = (\<lambda>s. s), nfkd_of = (\<lambda>s. s),
     other_category = (\<lambda>c. False), lower_of = (\<lambda>s. s)\<rparr>"

section \<open>Characters\<close>

definition is_lower :: "nat \<Rightarrow> bool" where
  "is_lower c = (97 \<le> c \<and> c \<le> 122)"

definition is_upper :: "nat \<Rightarrow> bool" where
  "is_upper c = (65 \<le> c \<and> c \<le> 90)"

definition is_digit :: "nat \<Rightarrow> bool" where
  "is_digit c = (48 \<le> c \<and> c \<le> 57)"

definition is_lower_alnum :: "nat \<Rightarrow> bool" where
  "is_lower_alnum c = (is_lower c \<or> is_digit c)"

definition is_hex :: "nat \<Rightarrow> bool" where
  "is_hex c = (is_digit c \<or> (97 \<le> c \<and> c \<le> 102))"

text \<open>The code points \<open>str.split()\<close> and \<open>str.strip()\<close> treat as white space.\<close>

definition is_space :: "nat \<Rightarrow> bool" where
  "is_space c = ((9 \<le> c \<and> c \<le> 13) \<or> (28 \<le> c \<and> c \<le> 32) \<or> c = 133 \<or> c = 160 \<or> c = 5760
     \<or> (8192 \<le> c \<and> c \<le> 8202) \<or> c = 8232 \<or> c = 8233 \<or> c = 8239 \<or> c = 8287 \<or> c = 12288)"

lemma lower_alnum_not_space: "is_lower_alnum c \<Longrightarrow> \<not> is_space c"
  by (auto simp: is_lower_alnum_def is_lower_def is_digit_def is_space_def)

section \<open>Stripping\<close>

definition strip_set :: "(nat \<Rightarrow> bool) \<Rightarrow> str \<Rightarrow> str" where
  "strip_set P s = rev (dropWhile P (rev (dropWhile P s)))"

definition strip :: "str \<Rightarrow> str" where
  "strip s = strip_set is_space s"

lemma strip_set_Nil [simp]: "strip_set P [] = []"
  by (simp add: strip_set_def)

lemma set_strip_set: "set (strip_set P s) \<subseteq> set s"
  unfolding strip_set_def by (auto dest!: set_dropWhileD)

lemma length_strip_set: "length (strip_set P s) \<le> length s"
  unfolding strip_set_def
  using length_dropWhile_le [of P "rev (dropWhile P s)"] length_dropWhile_le [of P s] by simp

lemma last_dropWhile_rev_dropWhile:
  assumes "dropWhile P xs \<noteq> []"
  shows "\<not> P (last (dropWhile P (rev (dropWhile P xs))))"
proof -
  obtain y ys where d: "dropWhile P xs = y # ys"
    using assms by (cases "dropWhile P xs") auto
  then have "\<not> P y" using hd_dropWhile [OF assms] by simp
  with d show ?thesis by (simp add: dropWhile_append3)
qed

lemma strip_set_ends:
  assumes "strip_set P s \<noteq> []"
  shows "\<not> P (hd (strip_set P s))" and "\<not> P (last (strip_set P s))"
proof -
  have ne: "dropWhile P (rev (dropWhile P s)) \<noteq> []"
    using assms by (simp add: strip_set_def)
  then have "dropWhile P s \<noteq> []" by (cases "dropWhile P s") simp_all
  then show "\<not> P (hd (strip_set P s))"
    using last_dropWhile_rev_dropWhile [of P s] ne
    unfolding strip_set_def by (subst hd_rev)
  show "\<not> P (last (strip_set P s))"
    using hd_dropWhile [OF ne] ne
    unfolding strip_set_def by (subst last_rev)
qed

lemma strip_set_id:
  assumes "s = [] \<or> (\<not> P (hd s) \<and> \<not> P (last s))"
  shows "strip_set P s = s"
proof (cases s)
  case Nil
  then show ?thesis by simp
next
  case (Cons x xs)
  with assms have "\<not> P x" "\<not> P (last s)" by auto
  then have "dropWhile P s = s" "dropWhile P (rev s) = rev s"
    using Cons by (auto simp: dropWhile_eq_self_iff hd_rev simp del: rev.simps)
  then show ?thesis by (simp add: strip_set_def)
qed

lemma strip_set_idem: "strip_set P (strip_set P s) = strip_set P s"
  by (rule strip_set_id) (use strip_set_ends in blast)

lemma strip_strip [simp]: "strip (strip s) = strip s"
  by (simp add: strip_def strip_set_idem)

section \<open>Words: \<open>str.split()\<close> and \<open>" ".join\<close>\<close>

fun words_from :: "str \<Rightarrow> str \<Rightarrow> str list" where
  "words_from w [] = (if w = [] then [] else [w])"
| "words_from w (c # cs) =
     (if is_space c then (if w = [] then words_from [] cs else w # words_from [] cs)
      else words_from (w @ [c]) cs)"

definition split_words :: "str \<Rightarrow> str list" where
  "split_words s = words_from [] s"

fun join_str :: "str \<Rightarrow> str list \<Rightarrow> str" where
  "join_str sep [] = []"
| "join_str sep [w] = w"
| "join_str sep (w # ws) = w @ sep @ join_str sep ws"

definition collapse_spaces :: "str \<Rightarrow> str" where
  "collapse_spaces s = join_str [32] (split_words s)"

definition is_word :: "str \<Rightarrow> bool" where
  "is_word w = (w \<noteq> [] \<and> list_all (\<lambda>c. \<not> is_space c) w)"

lemma words_from_words:
  "list_all (\<lambda>c. \<not> is_space c) w \<Longrightarrow> list_all is_word (words_from w s)"
  by (induction w s rule: words_from.induct) (simp_all add: is_word_def)

lemma split_words_words: "list_all is_word (split_words s)"
  by (simp add: split_words_def words_from_words)

lemma words_from_append:
  "list_all (\<lambda>c. \<not> is_space c) v \<Longrightarrow> words_from w (v @ s) = words_from (w @ v) s"
  by (induction v arbitrary: w) auto

lemma space_is_space [simp]: "is_space 32"
  by (simp add: is_space_def)

lemma split_words_join: "list_all is_word ws \<Longrightarrow> split_words (join_str [32] ws) = ws"
proof (induction "[32::nat]" ws rule: join_str.induct)
  case 1
  then show ?case by (simp add: split_words_def)
next
  case (2 w)
  then show ?case
    using words_from_append [of w "[]" "[]"] by (simp add: split_words_def is_word_def)
next
  case (3 w v ws)
  then have w: "w \<noteq> []" "list_all (\<lambda>c. \<not> is_space c) w" by (auto simp: is_word_def)
  have "words_from [] (w @ 32 # join_str [32] (v # ws))
      = w # words_from [] (join_str [32] (v # ws))"
    using words_from_append [OF w(2), of "[]"] w(1) by simp
  with 3 show ?case by (simp add: split_words_def)
qed

lemma collapse_spaces_idem: "collapse_spaces (collapse_spaces s) = collapse_spaces s"
  by (simp add: collapse_spaces_def split_words_join split_words_words)

lemma join_str_eq_Nil: "list_all is_word ws \<Longrightarrow> join_str sep ws = [] \<longleftrightarrow> ws = []"
  by (cases "(sep, ws)" rule: join_str.cases) (auto simp: is_word_def)

section \<open>Splitting on one character, and joining back\<close>

fun split_on :: "'a \<Rightarrow> 'a list \<Rightarrow> 'a list list" where
  "split_on d [] = [[]]"
| "split_on d (c # cs) =
     (if c = d then [] # split_on d cs
      else (case split_on d cs of [] \<Rightarrow> [[c]] | w # ws \<Rightarrow> (c # w) # ws))"

fun join_on :: "'a \<Rightarrow> 'a list list \<Rightarrow> 'a list" where
  "join_on d [] = []"
| "join_on d [w] = w"
| "join_on d (w # ws) = w @ d # join_on d ws"

lemma split_on_not_Nil [simp]: "split_on d s \<noteq> []"
  by (induction d s rule: split_on.induct) (auto split: list.splits)

lemma join_on_Cons: "ws \<noteq> [] \<Longrightarrow> join_on d (w # ws) = w @ d # join_on d ws"
  by (cases ws) auto

lemma join_split_on [simp]: "join_on d (split_on d s) = s"
proof (induction d s rule: split_on.induct)
  case (1 d)
  then show ?case by simp
next
  case (2 d c cs)
  show ?case
  proof (cases "c = d")
    case True
    with 2 show ?thesis by (simp add: join_on_Cons)
  next
    case False
    obtain w ws where s: "split_on d cs = w # ws"
      by (metis split_on_not_Nil list.exhaust)
    with False 2 have "join_on d (w # ws) = cs" by simp
    with False s show ?thesis by (cases ws) auto
  qed
qed

lemma split_on_free: "d \<notin> set w \<Longrightarrow> split_on d w = [w]"
  by (induction w) auto

lemma split_on_append: "d \<notin> set w \<Longrightarrow> split_on d (w @ d # s) = w # split_on d s"
  by (induction w) auto

lemma split_join_on:
  "ws \<noteq> [] \<Longrightarrow> (\<And>w. w \<in> set ws \<Longrightarrow> d \<notin> set w) \<Longrightarrow> split_on d (join_on d ws) = ws"
  by (induction d ws rule: join_on.induct) (auto simp: split_on_free split_on_append)

lemma split_on_parts: "w \<in> set (split_on d s) \<Longrightarrow> d \<notin> set w"
  by (induction d s arbitrary: w rule: split_on.induct) (auto split: list.splits if_splits)

lemma split_on_chars: "w \<in> set (split_on d s) \<Longrightarrow> set w \<subseteq> set s"
proof (induction d s arbitrary: w rule: split_on.induct)
  case (1 d)
  then show ?case by simp
next
  case (2 d c cs)
  obtain v vs where s: "split_on d cs = v # vs"
    by (metis split_on_not_Nil list.exhaust)
  with 2 show ?case by (fastforce split: if_splits)
qed

section \<open>Replacing\<close>

definition replace_char :: "nat \<Rightarrow> str \<Rightarrow> str \<Rightarrow> str" where
  "replace_char a r s = concat (map (\<lambda>c. if c = a then r else [c]) s)"

text \<open>\<open>re.sub(r"-+", "-", s)\<close>\<close>

fun collapse_dashes :: "str \<Rightarrow> str" where
  "collapse_dashes (c # d # cs) =
     (if c = 45 \<and> d = 45 then collapse_dashes (d # cs) else c # collapse_dashes (d # cs))"
| "collapse_dashes s = s"

section \<open>Case folding, normalisation, encodings\<close>

definition is_ascii :: "str \<Rightarrow> bool" where
  "is_ascii s = list_all (\<lambda>c. c < 128) s"

definition fold_char :: "unicode \<Rightarrow> nat \<Rightarrow> str" where
  "fold_char u c = (if c < 128 then [if is_upper c then c + 32 else c] else fold_of u c)"

definition casefold :: "unicode \<Rightarrow> str \<Rightarrow> str" where
  "casefold u s = concat (map (fold_char u) s)"

definition nfkc :: "unicode \<Rightarrow> str \<Rightarrow> str" where
  "nfkc u s = (if is_ascii s then s else nfkc_of u s)"

definition nfkd :: "unicode \<Rightarrow> str \<Rightarrow> str" where
  "nfkd u s = (if is_ascii s then s else nfkd_of u s)"

text \<open>\<open>str.lower\<close>\<close>

definition lower :: "unicode \<Rightarrow> str \<Rightarrow> str" where
  "lower u s = (if is_ascii s then map (\<lambda>c. if is_upper c then c + 32 else c) s else lower_of u s)"

text \<open>\<open>fragment in text\<close>\<close>

fun contains_text :: "str \<Rightarrow> str \<Rightarrow> bool" where
  "contains_text w [] = (w = [])"
| "contains_text w (c # cs) = (starts_with w (c # cs) \<or> contains_text w cs)"

text \<open>\<open>unicodedata.category(c).startswith("C")\<close>: the control characters and the surrogates
  are fixed, the rest is the table's.\<close>

definition is_category_C :: "unicode \<Rightarrow> nat \<Rightarrow> bool" where
  "is_category_C u c =
     (if c < 128 then c < 32 \<or> c = 127
      else (55296 \<le> c \<and> c \<le> 57343) \<or> other_category u c)"

text \<open>\<open>s.encode("ascii", "ignore")\<close>\<close>

definition ascii_ignore :: "str \<Rightarrow> str" where
  "ascii_ignore s = filter (\<lambda>c. c < 128) s"

text \<open>UTF-8; a surrogate has no encoding (\<open>UnicodeEncodeError\<close>, a \<open>ValueError\<close>).\<close>

definition utf8_char :: "nat \<Rightarrow> nat list option" where
  "utf8_char c =
     (if c < 128 then Some [c]
      else if c < 2048 then Some [192 + c div 64, 128 + c mod 64]
      else if 55296 \<le> c \<and> c \<le> 57343 then None
      else if c < 65536 then Some [224 + c div 4096, 128 + (c div 64) mod 64, 128 + c mod 64]
      else Some [240 + c div 262144, 128 + (c div 4096) mod 64, 128 + (c div 64) mod 64,
                 128 + c mod 64])"

fun utf8_encode :: "str \<Rightarrow> nat list option" where
  "utf8_encode [] = Some []"
| "utf8_encode (c # cs) =
     (case utf8_char c of None \<Rightarrow> None
      | Some b \<Rightarrow> (case utf8_encode cs of None \<Rightarrow> None | Some bs \<Rightarrow> Some (b @ bs)))"

lemma casefold_Nil [simp]: "casefold u [] = []"
  by (simp add: casefold_def)

lemma casefold_append: "casefold u (s @ t) = casefold u s @ casefold u t"
  by (simp add: casefold_def)

lemma fold_char_lower_alnum: "is_lower_alnum c \<Longrightarrow> fold_char u c = [c]"
  by (auto simp: fold_char_def is_lower_alnum_def is_lower_def is_digit_def is_upper_def)

lemma casefold_id: "list_all (\<lambda>c. c < 128 \<and> \<not> is_upper c) s \<Longrightarrow> casefold u s = s"
  by (induction s) (auto simp: casefold_def fold_char_def)

lemma casefold_ascii_no_upper:
  "is_ascii s \<Longrightarrow> list_all (\<lambda>c. c < 128 \<and> \<not> is_upper c) (casefold u s)"
  by (induction s) (auto simp: casefold_def fold_char_def is_ascii_def is_upper_def)

lemma casefold_ascii_idem: "is_ascii s \<Longrightarrow> casefold u (casefold u s) = casefold u s"
  by (rule casefold_id) (rule casefold_ascii_no_upper)

lemma casefold_ascii_length: "is_ascii s \<Longrightarrow> length (casefold u s) = length s"
  by (induction s) (auto simp: casefold_def fold_char_def is_ascii_def)

lemma utf8_encode_total:
  "list_all (\<lambda>c. \<not> (55296 \<le> c \<and> c \<le> 57343)) s \<Longrightarrow> utf8_encode s \<noteq> None"
  by (induction s) (auto simp: utf8_char_def split: option.splits if_splits)

lemma utf8_encode_ascii: "is_ascii s \<Longrightarrow> utf8_encode s = Some s"
  by (induction s) (auto simp: utf8_char_def is_ascii_def)

lemma utf8_char_bytes: "utf8_char c = Some bs \<Longrightarrow> c < 1114112 \<Longrightarrow> list_all (\<lambda>b. b < 256) bs"
  by (auto simp: utf8_char_def split: if_splits)

section \<open>Numbers in text\<close>

fun digits_of :: "nat \<Rightarrow> str" where
  "digits_of n = (if n < 10 then [48 + n] else digits_of (n div 10) @ [48 + n mod 10])"

declare digits_of.simps [simp del]

definition number_of_digits :: "str \<Rightarrow> nat" where
  "number_of_digits s = foldl (\<lambda>n c. 10 * n + (c - 48)) 0 s"

lemma digits_of_not_Nil [simp]: "digits_of n \<noteq> []"
  by (subst digits_of.simps) simp

lemma digits_of_digits: "list_all is_digit (digits_of n)"
proof (induction n rule: digits_of.induct)
  case (1 n)
  show ?case
  proof (cases "n < 10")
    case True
    then show ?thesis by (subst digits_of.simps) (simp add: is_digit_def)
  next
    case False
    with 1 have "list_all is_digit (digits_of (n div 10))" by simp
    with False show ?thesis by (subst digits_of.simps) (simp add: is_digit_def)
  qed
qed

lemma number_of_digits_of [simp]: "number_of_digits (digits_of n) = n"
proof (induction n rule: digits_of.induct)
  case (1 n)
  then show ?case
    by (subst digits_of.simps) (auto simp: number_of_digits_def)
qed

lemma digits_of_inj: "digits_of m = digits_of n \<longleftrightarrow> m = n"
  by (metis number_of_digits_of)

lemma digits_of_length: "n < 10 ^ k \<Longrightarrow> 0 < k \<Longrightarrow> length (digits_of n) \<le> k"
proof (induction k arbitrary: n)
  case 0
  then show ?case by simp
next
  case (Suc k)
  show ?case
  proof (cases "n < 10")
    case True
    then show ?thesis by (subst digits_of.simps) simp
  next
    case False
    then have "0 < k" using Suc.prems by (cases k) auto
    moreover have "n div 10 < 10 ^ k" using Suc.prems(1) by (auto simp: less_mult_imp_div_less mult.commute)
    ultimately have "length (digits_of (n div 10)) \<le> k" by (rule Suc.IH [rotated])
    with False show ?thesis by (subst digits_of.simps) simp
  qed
qed

end
