(* ===== verification/Table.thy ===== *)
theory Table
  imports Prelude
begin

text \<open>
  Rows of one table as the list in primary-key order of insertion, with the repository
  primitives of \<open>app/repositories/base.py\<close>: lookup, insertion with a fresh integer key,
  change of one row, deletion. The locale \<open>repository\<close> states what the services rely on;
  every table of the model interprets it.
\<close>

definition row_get :: "('r \<Rightarrow> nat) \<Rightarrow> nat \<Rightarrow> 'r list \<Rightarrow> 'r option" where
  "row_get key i rows = find (\<lambda>r. key r = i) rows"

definition row_update :: "('r \<Rightarrow> nat) \<Rightarrow> nat \<Rightarrow> ('r \<Rightarrow> 'r) \<Rightarrow> 'r list \<Rightarrow> 'r list" where
  "row_update key i f rows = map (\<lambda>r. if key r = i then f r else r) rows"

definition row_delete :: "('r \<Rightarrow> nat) \<Rightarrow> nat \<Rightarrow> 'r list \<Rightarrow> 'r list" where
  "row_delete key i rows = filter (\<lambda>r. key r \<noteq> i) rows"

text \<open>SQLite's key for a new row of an \<open>INTEGER PRIMARY KEY\<close> table: one more than the
  largest key present.\<close>

definition next_id :: "('r \<Rightarrow> nat) \<Rightarrow> 'r list \<Rightarrow> nat" where
  "next_id key rows = Suc (foldr max (map key rows) 0)"

definition row_add :: "('r \<Rightarrow> nat) \<Rightarrow> (nat \<Rightarrow> 'r \<Rightarrow> 'r) \<Rightarrow> 'r \<Rightarrow> 'r list \<Rightarrow> 'r list" where
  "row_add key with_key r rows = rows @ [with_key (next_id key rows) r]"

definition distinct_keys :: "('r \<Rightarrow> nat) \<Rightarrow> 'r list \<Rightarrow> bool" where
  "distinct_keys key rows = distinct (map key rows)"

definition unique_by :: "('r \<Rightarrow> 'k) \<Rightarrow> 'r list \<Rightarrow> bool" where
  "unique_by f rows = distinct (map f rows)"

lemma unique_byD: "unique_by f rows \<Longrightarrow> x \<in> set rows \<Longrightarrow> y \<in> set rows \<Longrightarrow> f x = f y \<Longrightarrow> x = y"
  by (auto simp: unique_by_def distinct_map dest: inj_onD)

lemma foldr_max_ge: "x \<in> set xs \<Longrightarrow> x \<le> foldr max xs (0::nat)"
  by (induction xs) (auto simp: le_max_iff_disj)

lemma next_id_fresh: "r \<in> set rows \<Longrightarrow> key r \<noteq> next_id key rows"
  using foldr_max_ge [of "key r" "map key rows"] by (auto simp: next_id_def)

lemma row_get_Some: "row_get key i rows = Some r \<Longrightarrow> r \<in> set rows \<and> key r = i"
  using find_Some_iff_in [of "\<lambda>r. key r = i" rows r] by (simp add: row_get_def)

lemma row_get_None: "row_get key i rows = None \<longleftrightarrow> (\<forall>r \<in> set rows. key r \<noteq> i)"
  by (simp add: row_get_def find_None_iff_all)

lemma row_get_unique:
  "distinct_keys key rows \<Longrightarrow> r \<in> set rows \<Longrightarrow> row_get key (key r) rows = Some r"
  by (induction rows) (auto simp: row_get_def distinct_keys_def)

lemma row_get_update [table_simps]:
  "(\<And>r. key (f r) = key r) \<Longrightarrow>
   row_get key j (row_update key i f rows) =
     (if i = j then map_option f (row_get key j rows) else row_get key j rows)"
  by (induction rows) (auto simp: row_get_def row_update_def)

lemma row_get_delete [table_simps]:
  "row_get key j (row_delete key i rows) = (if i = j then None else row_get key j rows)"
  by (induction rows) (auto simp: row_get_def row_delete_def)

lemma set_row_update_distinct:
  assumes "distinct_keys key rows" and "row_get key i rows = Some r"
  shows "set (row_update key i f rows) = insert (f r) (set rows - {r})"
  using assms
proof (induction rows)
  case Nil
  then show ?case by (simp add: row_get_def)
next
  case (Cons a rows)
  show ?case
  proof (cases "key a = i")
    case True
    with Cons.prems have r: "r = a" by (simp add: row_get_def)
    have "key x \<noteq> i" if "x \<in> set rows" for x
      using Cons.prems(1) True that by (force simp: distinct_keys_def image_iff)
    then have "row_update key i f rows = rows"
      by (auto simp: row_update_def intro: map_idI)
    moreover have "a \<notin> set rows"
      using Cons.prems(1) by (auto simp: distinct_keys_def)
    ultimately show ?thesis using True r by (simp add: row_update_def)
  next
    case False
    with Cons.prems have "row_get key i rows = Some r" "distinct_keys key rows"
      by (auto simp: row_get_def distinct_keys_def)
    with Cons.IH have "set (row_update key i f rows) = insert (f r) (set rows - {r})" by simp
    moreover have "r \<noteq> a" using \<open>row_get key i rows = Some r\<close> False row_get_Some by metis
    ultimately show ?thesis using False by (auto simp: row_update_def)
  qed
qed

lemma distinct_keys_update [table_simps]:
  "(\<And>r. key (f r) = key r) \<Longrightarrow> distinct_keys key (row_update key i f rows) = distinct_keys key rows"
  by (simp add: distinct_keys_def row_update_def comp_def if_distrib cong: if_cong)

lemma distinct_keys_delete [table_simps]:
  "distinct_keys key rows \<Longrightarrow> distinct_keys key (row_delete key i rows)"
  by (simp add: distinct_keys_def row_delete_def distinct_map_filter)

lemma set_row_delete: "set (row_delete key i rows) = {r \<in> set rows. key r \<noteq> i}"
  by (auto simp: row_delete_def)

lemma row_update_id: "(\<And>r. r \<in> set rows \<Longrightarrow> key r = i \<Longrightarrow> f r = r) \<Longrightarrow> row_update key i f rows = rows"
  by (auto simp: row_update_def intro: map_idI)

section \<open>The contract of a repository\<close>

locale repository =
  fixes key :: "'r \<Rightarrow> nat"
    and with_key :: "nat \<Rightarrow> 'r \<Rightarrow> 'r"
  assumes key_with_key [simp]: "key (with_key i r) = i"
begin

lemma get_added: "row_get key (next_id key rows) (row_add key with_key r rows) = Some (with_key (next_id key rows) r)"
proof -
  have "find (\<lambda>x. key x = next_id key rows) (xs @ [with_key (next_id key rows) r])
      = Some (with_key (next_id key rows) r)" if "set xs \<subseteq> set rows" for xs
    using that by (induction xs) (auto simp: next_id_fresh)
  then show ?thesis by (simp add: row_get_def row_add_def)
qed

lemma get_other_added:
  assumes "row_get key i rows = Some x"
  shows "row_get key i (row_add key with_key r rows) = Some x"
proof -
  have "find (\<lambda>y. key y = i) (xs @ ys) = Some x" if "find (\<lambda>y. key y = i) xs = Some x" for xs ys
    using that by (induction xs) (auto split: if_splits)
  then show ?thesis using assms by (simp add: row_get_def row_add_def)
qed

lemma distinct_added: "distinct_keys key rows \<Longrightarrow> distinct_keys key (row_add key with_key r rows)"
  by (auto simp: distinct_keys_def row_add_def dest: next_id_fresh [of _ rows key])

lemma set_added: "set (row_add key with_key r rows) = insert (with_key (next_id key rows) r) (set rows)"
  by (auto simp: row_add_def)

lemma length_added: "length (row_add key with_key r rows) = Suc (length rows)"
  by (simp add: row_add_def)

end

section \<open>A natural key\<close>

text \<open>
  A second, natural key of the rows that the services keep unique by looking it up before
  they write: a slug, the identity of a release, a username. When the look-up found nothing,
  or only the row being changed, the write keeps the key unique.
\<close>

locale natural_key = repository key with_key
  for key :: "'r \<Rightarrow> nat" and with_key :: "nat \<Rightarrow> 'r \<Rightarrow> 'r" +
  fixes ident :: "'r \<Rightarrow> 'k"
  assumes ident_with_key [simp]: "ident (with_key i r) = ident r"
begin

lemma unique_added:
  assumes "unique_by ident rows" and "find (\<lambda>x. ident x = ident r) rows = None"
  shows "unique_by ident (row_add key with_key r rows)"
  using assms by (auto simp: unique_by_def row_add_def find_None_iff)

lemma unique_updated:
  assumes keys: "distinct_keys key rows" and uniq: "unique_by ident rows"
    and free: "\<And>x. find (\<lambda>x. ident x = ident r) rows = Some x \<Longrightarrow> key x = i"
  shows "unique_by ident (row_update key i (\<lambda>_. r) rows)"
proof -
  have other: "ident x \<noteq> ident r" if x: "x \<in> set rows" "key x \<noteq> i" for x
  proof
    assume eq: "ident x = ident r"
    then obtain y where y: "find (\<lambda>x. ident x = ident r) rows = Some y"
      using x(1) by (cases "find (\<lambda>x. ident x = ident r) rows") (auto simp: find_None_iff)
    then have "y \<in> set rows" "ident y = ident r" "key y = i"
      using find_Some_iff_in [of _ rows y] free by auto
    then have "y = x" using unique_byD [OF uniq _ x(1)] eq by metis
    then show False using \<open>key y = i\<close> x(2) by simp
  qed
  show ?thesis
    using keys uniq other
  proof (induction rows)
    case (Cons a rows)
    have "unique_by ident (row_update key i (\<lambda>_. r) rows)"
      using Cons by (simp add: distinct_keys_def unique_by_def)
    moreover have "ident r \<notin> ident ` set (row_update key i (\<lambda>_. r) rows)" if "key a = i"
    proof -
      have "key x \<noteq> i \<and> ident x \<noteq> ident r" if "x \<in> set rows" for x
        using Cons.prems(1) Cons.prems(3) [of x] \<open>key a = i\<close> that
        by (auto simp: distinct_keys_def image_iff)
      then show ?thesis by (force simp: row_update_def)
    qed
    moreover have "ident a \<notin> ident ` set (row_update key i (\<lambda>_. r) rows)" if "key a \<noteq> i"
      using Cons.prems(2) Cons.prems(3) [of a] that by (auto simp: unique_by_def row_update_def)
    ultimately show ?case by (auto simp: unique_by_def row_update_def)
  qed (simp add: unique_by_def row_update_def)
qed

lemma unique_deleted: "unique_by ident rows \<Longrightarrow> unique_by ident (row_delete key i rows)"
  by (simp add: unique_by_def row_delete_def distinct_map_filter)

end

end
