(* ===== verification/Models.thy ===== *)
theory Models
  imports PyText Table
begin

text \<open>
  The persisted domain of \<open>app/models/\<close>: one datatype per enumeration of
  \<open>enums.py\<close> with the string each member is stored as, one record per ORM class with its
  columns. Foreign keys are the integer columns; a relationship is followed by a lookup in
  the database (theory \<open>Database\<close>). A datetime is a number of microseconds since the
  epoch in UTC, a date a number of days.
\<close>

type_synonym datetime = int
type_synonym date = int

definition seconds :: "int \<Rightarrow> int" where
  "seconds n = n * 1000000"

definition date_of :: "datetime \<Rightarrow> date" where
  "date_of t = t div (86400 * 1000000)"

section \<open>Enumerations\<close>

datatype software_status =
  SoftwareDraft | SoftwarePublished | SoftwareHidden | SoftwareArchived | SoftwareDisabled

datatype visibility = VisPublic | VisUnlisted | VisPrivate

datatype release_channel =
  ChannelStable | ChannelBeta | ChannelAlpha | ChannelNightly | ChannelLegacy

datatype release_status = ReleaseDraft | ReleasePublished | ReleaseArchived | ReleaseDisabled

datatype file_status =
  FileQuarantine | FileReady | FilePublished | FileDisabled | FileArchived | FileRejected

datatype architecture = ArchX64 | ArchX86 | ArchArm64 | ArchUniversal | ArchOther

datatype package_type = PkgInstaller | PkgPortable | PkgArchive | PkgMsi | PkgOther

datatype signature_status = SigUnknown | SigValid | SigInvalid | SigUnsigned | SigNotChecked

datatype scanner_status = ScanNotScanned | ScanClean | ScanInfected | ScanError | ScanUnavailable

fun software_status_value :: "software_status \<Rightarrow> str" where
  "software_status_value SoftwareDraft = py ''draft''"
| "software_status_value SoftwarePublished = py ''published''"
| "software_status_value SoftwareHidden = py ''hidden''"
| "software_status_value SoftwareArchived = py ''archived''"
| "software_status_value SoftwareDisabled = py ''disabled''"

fun visibility_value :: "visibility \<Rightarrow> str" where
  "visibility_value VisPublic = py ''public''"
| "visibility_value VisUnlisted = py ''unlisted''"
| "visibility_value VisPrivate = py ''private''"

fun release_status_value :: "release_status \<Rightarrow> str" where
  "release_status_value ReleaseDraft = py ''draft''"
| "release_status_value ReleasePublished = py ''published''"
| "release_status_value ReleaseArchived = py ''archived''"
| "release_status_value ReleaseDisabled = py ''disabled''"

fun file_status_value :: "file_status \<Rightarrow> str" where
  "file_status_value FileQuarantine = py ''quarantine''"
| "file_status_value FileReady = py ''ready''"
| "file_status_value FilePublished = py ''published''"
| "file_status_value FileDisabled = py ''disabled''"
| "file_status_value FileArchived = py ''archived''"
| "file_status_value FileRejected = py ''rejected''"

fun scanner_status_value :: "scanner_status \<Rightarrow> str" where
  "scanner_status_value ScanNotScanned = py ''not_scanned''"
| "scanner_status_value ScanClean = py ''clean''"
| "scanner_status_value ScanInfected = py ''infected''"
| "scanner_status_value ScanError = py ''error''"
| "scanner_status_value ScanUnavailable = py ''unavailable''"

section \<open>Rows\<close>

record user =
  user_id :: nat
  user_username :: str
  user_password_hash :: str
  user_is_active :: bool
  user_is_superuser :: bool
  user_failed_login_attempts :: int
  user_locked_until :: "datetime option"
  user_password_changed_at :: "datetime option"
  user_last_login_at :: "datetime option"

record user_session =
  ses_id :: nat
  ses_token_hash :: str
  ses_user_id :: nat
  ses_created_at :: datetime
  ses_last_activity_at :: datetime
  ses_expires_at :: datetime
  ses_absolute_expires_at :: datetime
  ses_revoked_at :: "datetime option"
  ses_user_agent_hash :: "str option"
  ses_ip_hash :: "str option"
  ses_csrf_secret_hash :: str

record category =
  cat_id :: nat
  cat_name :: str
  cat_slug :: str
  cat_description :: "str option"
  cat_sort_order :: int
  cat_is_visible :: bool

record tag =
  tag_id :: nat
  tag_name :: str
  tag_slug :: str

record software =
  sw_id :: nat
  sw_name :: str
  sw_slug :: str
  sw_short_description :: str
  sw_full_description :: "str option"
  sw_developer_name :: "str option"
  sw_official_website_url :: "str option"
  sw_source_url :: "str option"
  sw_license_name :: "str option"
  sw_category_id :: "nat option"
  sw_supported_os :: "str option"
  sw_system_requirements :: "str option"
  sw_status :: software_status
  sw_visibility :: visibility
  sw_is_featured :: bool
  sw_published_at :: "datetime option"
  sw_archived_at :: "datetime option"

record release =
  rel_id :: nat
  rel_software_id :: nat
  rel_version :: str
  rel_channel :: release_channel
  rel_release_date :: "date option"
  rel_changelog :: "str option"
  rel_is_current :: bool
  rel_status :: release_status
  rel_published_at :: "datetime option"

record release_file =
  rf_id :: nat
  rf_public_uuid :: nat
  rf_release_id :: nat
  rf_original_filename :: str
  rf_display_filename :: str
  rf_storage_filename :: str
  rf_relative_storage_path :: str
  rf_file_extension :: str
  rf_detected_mime_type :: str
  rf_file_size_bytes :: int
  rf_sha256 :: str
  rf_architecture :: architecture
  rf_package_type :: package_type
  rf_platform :: str
  rf_edition :: "str option"
  rf_download_count :: int
  rf_status :: file_status
  rf_visibility :: visibility
  rf_uploaded_at :: datetime
  rf_published_at :: "datetime option"
  rf_disabled_at :: "datetime option"
  rf_source_url :: "str option"
  rf_signature_status :: signature_status
  rf_scanner_status :: scanner_status
  rf_scanner_details :: "str option"
  rf_admin_note :: "str option"

record download_stat =
  ds_id :: nat
  ds_release_file_id :: nat
  ds_date :: date
  ds_download_count :: int
  ds_successful_count :: int
  ds_blocked_count :: int

text \<open>Values of the audit log's JSON column; a float is its IEEE 754 double.\<close>

datatype json = JNull | JBool bool | JInt int | JFloat "64 word" | JStr str | JList "json list"

datatype audit_action =
    ADMIN_CREATED | ADMIN_LOGIN_SUCCESS | ADMIN_LOGIN_FAILED | ADMIN_LOGOUT
  | ADMIN_PASSWORD_CHANGED | ADMIN_SESSIONS_REVOKED | EXPIRED_SESSIONS_CLEANED
  | CATEGORY_CREATED | CATEGORY_UPDATED | CATEGORY_DELETED
  | TAG_CREATED | TAG_UPDATED | TAG_DELETED
  | SOFTWARE_CREATED | SOFTWARE_UPDATED | SOFTWARE_STATUS_CHANGED | SOFTWARE_VISIBILITY_CHANGED
  | RELEASE_CREATED | RELEASE_UPDATED | RELEASE_STATUS_CHANGED | RELEASE_CURRENT_CHANGED
  | FILE_UPLOADED | FILE_UPLOAD_FAILED | FILE_REVIEWED | FILE_PUBLISHED | FILE_DISABLED
  | FILE_ARCHIVED | FILE_RESTORED | FILE_VERIFIED | FILE_CHECKSUM_RECALCULATED
  | FILE_METADATA_DELETED | FILE_PERMANENTLY_DELETED
  | BACKUP_CREATED | BACKUP_FAILED | BACKUP_RESTORED

datatype audit_result = AuditSuccess | AuditFailure

record audit_log =
  aud_id :: nat
  aud_user_id :: "nat option"
  aud_action :: audit_action
  aud_entity_type :: "str option"
  aud_entity_id :: "str option"
  aud_result :: audit_result
  aud_timestamp :: datetime
  aud_safe_metadata :: "(str \<times> json) list"
  aud_request_id :: "str option"
  aud_ip_hash :: "str option"

section \<open>Every table is a repository\<close>

definition with_user_id :: "nat \<Rightarrow> user \<Rightarrow> user" where
  "with_user_id i r = r\<lparr>user_id := i\<rparr>"
definition with_ses_id :: "nat \<Rightarrow> user_session \<Rightarrow> user_session" where
  "with_ses_id i r = r\<lparr>ses_id := i\<rparr>"
definition with_cat_id :: "nat \<Rightarrow> category \<Rightarrow> category" where
  "with_cat_id i r = r\<lparr>cat_id := i\<rparr>"
definition with_tag_id :: "nat \<Rightarrow> tag \<Rightarrow> tag" where
  "with_tag_id i r = r\<lparr>tag_id := i\<rparr>"
definition with_sw_id :: "nat \<Rightarrow> software \<Rightarrow> software" where
  "with_sw_id i r = r\<lparr>sw_id := i\<rparr>"
definition with_rel_id :: "nat \<Rightarrow> release \<Rightarrow> release" where
  "with_rel_id i r = r\<lparr>rel_id := i\<rparr>"
definition with_rf_id :: "nat \<Rightarrow> release_file \<Rightarrow> release_file" where
  "with_rf_id i r = r\<lparr>rf_id := i\<rparr>"
definition with_ds_id :: "nat \<Rightarrow> download_stat \<Rightarrow> download_stat" where
  "with_ds_id i r = r\<lparr>ds_id := i\<rparr>"
definition with_aud_id :: "nat \<Rightarrow> audit_log \<Rightarrow> audit_log" where
  "with_aud_id i r = r\<lparr>aud_id := i\<rparr>"

interpretation users_table: repository user_id with_user_id
  by unfold_locales (simp add: with_user_id_def)
interpretation sessions_table: repository ses_id with_ses_id
  by unfold_locales (simp add: with_ses_id_def)
interpretation categories_table: repository cat_id with_cat_id
  by unfold_locales (simp add: with_cat_id_def)
interpretation tags_table: repository tag_id with_tag_id
  by unfold_locales (simp add: with_tag_id_def)
interpretation software_table: repository sw_id with_sw_id
  by unfold_locales (simp add: with_sw_id_def)
interpretation releases_table: repository rel_id with_rel_id
  by unfold_locales (simp add: with_rel_id_def)
interpretation files_table: repository rf_id with_rf_id
  by unfold_locales (simp add: with_rf_id_def)
interpretation stats_table: repository ds_id with_ds_id
  by unfold_locales (simp add: with_ds_id_def)
interpretation audit_table: repository aud_id with_aud_id
  by unfold_locales (simp add: with_aud_id_def)

end
