(* ===== verification/Policies.thy ===== *)
theory Policies
  imports Models
begin

text \<open>
  \<open>app/services/policies.py\<close>: the transition tables of the three lifecycles, the
  functions that apply one transition, and the visibility rules. A row's parents are passed
  beside it, as the loaded relationships are in the code. The locale \<open>lifecycle\<close> is what
  the services use of a table: the same guard for the three entities.
\<close>

section \<open>Transition tables\<close>

fun software_transitions :: "software_status \<Rightarrow> software_status list" where
  "software_transitions SoftwareDraft = [SoftwarePublished, SoftwareHidden, SoftwareDisabled]"
| "software_transitions SoftwarePublished = [SoftwareHidden, SoftwareArchived, SoftwareDisabled]"
| "software_transitions SoftwareHidden =
     [SoftwareDraft, SoftwarePublished, SoftwareArchived, SoftwareDisabled]"
| "software_transitions SoftwareArchived = [SoftwarePublished, SoftwareHidden, SoftwareDisabled]"
| "software_transitions SoftwareDisabled = [SoftwareDraft]"

fun release_transitions :: "release_status \<Rightarrow> release_status list" where
  "release_transitions ReleaseDraft = [ReleasePublished, ReleaseArchived, ReleaseDisabled]"
| "release_transitions ReleasePublished = [ReleaseArchived, ReleaseDisabled]"
| "release_transitions ReleaseArchived = [ReleasePublished, ReleaseDisabled]"
| "release_transitions ReleaseDisabled = [ReleaseDraft]"

fun file_transitions :: "file_status \<Rightarrow> file_status list" where
  "file_transitions FileQuarantine = [FileReady, FileRejected, FileDisabled]"
| "file_transitions FileReady = [FilePublished, FileRejected, FileDisabled, FileArchived]"
| "file_transitions FilePublished = [FileDisabled, FileArchived]"
| "file_transitions FileDisabled = [FileReady, FileArchived]"
| "file_transitions FileArchived = [FileReady, FileDisabled]"
| "file_transitions FileRejected = [FileQuarantine]"

text \<open>\<open>_ensure_transition\<close>: staying is always allowed, moving only along the table.\<close>

definition ensure_transition :: "('a \<Rightarrow> 'a list) \<Rightarrow> 'a \<Rightarrow> 'a \<Rightarrow> exn + unit" where
  "ensure_transition transitions current target =
     (if target = current then Inr ()
      else if target \<notin> set (transitions current) then Inl InvalidStateTransition
      else Inr ())"

section \<open>Applying a transition\<close>

definition apply_software_transition ::
  "software \<Rightarrow> software_status \<Rightarrow> datetime \<Rightarrow> exn + software" where
  "apply_software_transition software target now =
     rbind (ensure_transition software_transitions (sw_status software) target) (\<lambda>_.
       if target = sw_status software then Inr software
       else
         let software = software\<lparr>sw_status := target\<rparr> in
         if target = SoftwarePublished then
           Inr (software\<lparr>
             sw_published_at :=
               (case sw_published_at software of None \<Rightarrow> Some now | Some t \<Rightarrow> Some t),
             sw_archived_at := None\<rparr>)
         else if target = SoftwareArchived then Inr (software\<lparr>sw_archived_at := Some now\<rparr>)
         else Inr (software\<lparr>sw_archived_at := None\<rparr>))"

definition software_accepts_releases :: "software_status \<Rightarrow> bool" where
  "software_accepts_releases s = (s \<in> {SoftwarePublished, SoftwareHidden})"

definition apply_release_transition ::
  "release \<Rightarrow> software \<Rightarrow> release_status \<Rightarrow> datetime \<Rightarrow> exn + release" where
  "apply_release_transition release software target now =
     rbind (ensure_transition release_transitions (rel_status release) target) (\<lambda>_.
       if target = rel_status release then Inr release
       else if target = ReleasePublished \<and> \<not> software_accepts_releases (sw_status software)
       then Inl InvalidStateTransition
       else
         let release = release\<lparr>rel_status := target\<rparr> in
         if target = ReleasePublished then
           Inr (release\<lparr>
             rel_published_at :=
               (case rel_published_at release of None \<Rightarrow> Some now | Some t \<Rightarrow> Some t)\<rparr>)
         else Inr (release\<lparr>rel_is_current := False\<rparr>))"

definition ensure_current_stable_candidate :: "release \<Rightarrow> software \<Rightarrow> exn + unit" where
  "ensure_current_stable_candidate release software =
     (if rel_channel release \<noteq> ChannelStable then Inl InvalidStateTransition
      else if rel_status release \<noteq> ReleasePublished then Inl InvalidStateTransition
      else if \<not> software_accepts_releases (sw_status software) then Inl InvalidStateTransition
      else Inr ())"

definition apply_file_transition ::
  "release_file \<Rightarrow> release \<Rightarrow> software \<Rightarrow> file_status \<Rightarrow> datetime \<Rightarrow> exn + release_file" where
  "apply_file_transition file release software target now =
     rbind (ensure_transition file_transitions (rf_status file) target) (\<lambda>_.
       if target = rf_status file then Inr file
       else if target = FileReady \<and> rf_scanner_status file = ScanInfected
       then Inl InvalidStateTransition
       else if target = FilePublished then
         (if rel_status release \<noteq> ReleasePublished then Inl InvalidStateTransition
          else if \<not> software_accepts_releases (sw_status software) then Inl InvalidStateTransition
          else if rf_scanner_status file = ScanInfected then Inl InvalidStateTransition
          else Inr (file\<lparr>
            rf_published_at :=
              (case rf_published_at file of None \<Rightarrow> Some now | Some t \<Rightarrow> Some t),
            rf_disabled_at := None,
            rf_status := target\<rparr>))
       else if target = FileDisabled then
         Inr (file\<lparr>rf_disabled_at := Some now, rf_status := target\<rparr>)
       else Inr (file\<lparr>rf_disabled_at := None, rf_status := target\<rparr>))"

section \<open>Visibility\<close>

definition is_software_publicly_listed :: "software \<Rightarrow> bool" where
  "is_software_publicly_listed software =
     (sw_status software = SoftwarePublished \<and> sw_visibility software = VisPublic)"

definition can_view_software :: "software \<Rightarrow> bool \<Rightarrow> bool" where
  "can_view_software software is_admin =
     (if is_admin then sw_status software \<noteq> SoftwareDisabled
      else sw_status software \<in> {SoftwarePublished, SoftwareArchived}
        \<and> sw_visibility software \<in> {VisPublic, VisUnlisted})"

definition can_download_file :: "release_file \<Rightarrow> release \<Rightarrow> software \<Rightarrow> bool \<Rightarrow> bool" where
  "can_download_file file release software is_admin =
     (if rf_status file \<noteq> FilePublished then False
      else if rel_status release \<notin> {ReleasePublished, ReleaseArchived} then False
      else if sw_status software \<notin> {SoftwarePublished, SoftwareArchived} then False
      else if is_admin then True
      else sw_visibility software \<in> {VisPublic, VisUnlisted}
        \<and> rf_visibility file \<in> {VisPublic, VisUnlisted})"

section \<open>The contract of a lifecycle\<close>

text \<open>
  A lifecycle is a status field of an entity, a transition table and a function that applies
  one step. The laws: a successful step sets exactly the requested status, only along the
  table, and staying changes nothing. The lemmas lift them to any sequence of requests.
\<close>

locale lifecycle =
  fixes status :: "'e \<Rightarrow> 's"
    and transitions :: "'s \<Rightarrow> 's list"
    and step :: "'e \<Rightarrow> 's \<Rightarrow> exn + 'e"
  assumes step_status: "step e t = Inr e' \<Longrightarrow> status e' = t"
    and step_allowed: "step e t = Inr e' \<Longrightarrow> t = status e \<or> t \<in> set (transitions (status e))"
    and step_stay: "step e (status e) = Inr e"
begin

lemma step_refused: "t \<noteq> status e \<Longrightarrow> t \<notin> set (transitions (status e)) \<Longrightarrow> \<exists>x. step e t = Inl x"
  using step_allowed by (cases "step e t") auto

lemma steps_reach:
  assumes "foldl (\<lambda>r t. rbind r (\<lambda>e. step e t)) (Inr e) ts = Inr e'"
  shows "(\<lambda>s t. t \<in> set (transitions s))\<^sup>*\<^sup>* (status e) (status e')"
  using assms
proof (induction ts arbitrary: e' rule: rev_induct)
  case Nil
  then show ?case by simp
next
  case (snoc t ts)
  then obtain d where d: "foldl (\<lambda>r t. rbind r (\<lambda>e. step e t)) (Inr e) ts = Inr d"
    and s: "step d t = Inr e'"
    by (auto simp: rbind_eq_Inr)
  from s have "status e' = status d \<or> status e' \<in> set (transitions (status d))"
    using step_status step_allowed by metis
  with snoc.IH [OF d] show ?case
    by (metis (no_types, lifting) rtranclp.rtrancl_into_rtrancl)
qed

end

lemma ensure_transition_Inr [simp]:
  "ensure_transition tr c t = Inr u \<longleftrightarrow> t = c \<or> t \<in> set (tr c)"
  by (auto simp: ensure_transition_def)

lemma ensure_transition_Inl [simp]:
  "ensure_transition tr c t = Inl e \<longleftrightarrow> t \<noteq> c \<and> t \<notin> set (tr c) \<and> e = InvalidStateTransition"
  by (auto simp: ensure_transition_def)

interpretation software_lifecycle:
  lifecycle sw_status software_transitions "\<lambda>s t. apply_software_transition s t now" for now
  by unfold_locales
    (auto simp: apply_software_transition_def rbind_eq_Inr Let_def split: if_splits)

interpretation release_lifecycle:
  lifecycle rel_status release_transitions "\<lambda>r t. apply_release_transition r sw t now" for sw now
  by unfold_locales
    (auto simp: apply_release_transition_def rbind_eq_Inr Let_def split: if_splits)

interpretation file_lifecycle:
  lifecycle rf_status file_transitions "\<lambda>f t. apply_file_transition f rel sw t now" for rel sw now
  by unfold_locales
    (auto simp: apply_file_transition_def rbind_eq_Inr split: if_splits)

section \<open>What a file transition changes\<close>

text \<open>The columns of a file that no transition writes.\<close>

definition same_file_content :: "release_file \<Rightarrow> release_file \<Rightarrow> bool" where
  "same_file_content f g \<longleftrightarrow>
     rf_id g = rf_id f \<and> rf_relative_storage_path g = rf_relative_storage_path f
     \<and> rf_sha256 g = rf_sha256 f \<and> rf_file_size_bytes g = rf_file_size_bytes f
     \<and> rf_release_id g = rf_release_id f \<and> rf_visibility g = rf_visibility f
     \<and> rf_scanner_status g = rf_scanner_status f
     \<and> rf_file_extension g = rf_file_extension f
     \<and> rf_detected_mime_type g = rf_detected_mime_type f"

lemma apply_file_transition_same:
  "apply_file_transition f rel sw t now = Inr g \<Longrightarrow> same_file_content f g"
  by (auto simp: apply_file_transition_def rbind_eq_Inr same_file_content_def split: if_splits)

lemma apply_file_transition_eq:
  "apply_file_transition f rel sw t now = Inr g \<Longrightarrow>
   g = f\<lparr>rf_status := t, rf_published_at := rf_published_at g, rf_disabled_at := rf_disabled_at g\<rparr>"
  by (auto simp: apply_file_transition_def rbind_eq_Inr split: if_splits)

lemma apply_file_transition_published:
  "apply_file_transition f rel sw FilePublished now = Inr g \<Longrightarrow> rf_status f \<noteq> FilePublished \<Longrightarrow>
   rf_status f = FileReady \<and> rel_status rel = ReleasePublished
   \<and> sw_status sw \<in> {SoftwarePublished, SoftwareHidden} \<and> rf_scanner_status f \<noteq> ScanInfected
   \<and> rf_published_at g \<noteq> None \<and> rf_disabled_at g = None"
  by (cases "rf_status f")
    (auto simp: apply_file_transition_def rbind_eq_Inr software_accepts_releases_def
      split: if_splits option.splits)

lemma apply_file_transition_error:
  "apply_file_transition f rel sw t now = Inl e \<Longrightarrow> e = InvalidStateTransition"
  by (auto simp: apply_file_transition_def rbind_eq_Inl split: if_splits)

lemma apply_release_transition_current:
  "apply_release_transition r sw t now = Inr r' \<Longrightarrow> rel_is_current r' \<Longrightarrow>
   rel_is_current r \<and> (rel_status r = ReleasePublished \<longrightarrow> rel_status r' = ReleasePublished)"
  by (auto simp: apply_release_transition_def rbind_eq_Inr Let_def split: if_splits)

end
