(* ===== verification/Effects.thy ===== *)
theory Effects
  imports Errors
begin

text \<open>
  Stateful Python code as explicit state passing: a statement takes the state and returns
  an exception or a value together with the new state. A raise keeps the state changes made
  before it, as in Python. The weakest precondition \<open>wp m Q E\<close> says that running \<open>m\<close>
  either returns into \<open>Q\<close> or raises into \<open>E\<close>; its equations, in the collection
  \<open>wp_simps\<close>, walk through a definition without unfolding the states.
\<close>

type_synonym ('s, 'a) eff = "'s \<Rightarrow> (exn + 'a) \<times> 's"

definition ret :: "'a \<Rightarrow> ('s, 'a) eff" where
  "ret x s = (Inr x, s)"

definition throw :: "exn \<Rightarrow> ('s, 'a) eff" where
  "throw e s = (Inl e, s)"

definition bind :: "('s, 'a) eff \<Rightarrow> ('a \<Rightarrow> ('s, 'b) eff) \<Rightarrow> ('s, 'b) eff" where
  "bind m f s = (case m s of (Inl e, t) \<Rightarrow> (Inl e, t) | (Inr x, t) \<Rightarrow> f x t)"

text \<open>\<open>try: m / except e: h e\<close>; a handler re-raises what its class test lets through.\<close>

definition try_catch :: "('s, 'a) eff \<Rightarrow> (exn \<Rightarrow> ('s, 'a) eff) \<Rightarrow> ('s, 'a) eff" where
  "try_catch m h s = (case m s of (Inl e, t) \<Rightarrow> h e t | (Inr x, t) \<Rightarrow> (Inr x, t))"

text \<open>\<open>try: m / finally: f\<close>; an exception of \<open>f\<close> replaces the outcome of \<open>m\<close>.\<close>

definition finally_do :: "('s, 'a) eff \<Rightarrow> ('s, unit) eff \<Rightarrow> ('s, 'a) eff" where
  "finally_do m f s =
     (case m s of (r, t) \<Rightarrow> (case f t of (Inl e, u) \<Rightarrow> (Inl e, u) | (Inr _, u) \<Rightarrow> (r, u)))"

definition lift_result :: "exn + 'a \<Rightarrow> ('s, 'a) eff" where
  "lift_result r s = (r, s)"

definition gets :: "('s \<Rightarrow> 'a) \<Rightarrow> ('s, 'a) eff" where
  "gets f s = (Inr (f s), s)"

definition modify :: "('s \<Rightarrow> 's) \<Rightarrow> ('s, unit) eff" where
  "modify f s = (Inr (), f s)"

text \<open>\<open>if b: raise e\<close>\<close>

definition raise_if :: "bool \<Rightarrow> exn \<Rightarrow> ('s, unit) eff" where
  "raise_if b e = (if b then throw e else ret ())"

text \<open>\<open>for x in xs: f x\<close>, and the same collecting the values.\<close>

fun for_each :: "'a list \<Rightarrow> ('a \<Rightarrow> ('s, unit) eff) \<Rightarrow> ('s, unit) eff" where
  "for_each [] f = ret ()"
| "for_each (x # xs) f = bind (f x) (\<lambda>_. for_each xs f)"

fun map_eff :: "('a \<Rightarrow> ('s, 'b) eff) \<Rightarrow> 'a list \<Rightarrow> ('s, 'b list) eff" where
  "map_eff f [] = ret []"
| "map_eff f (x # xs) = bind (f x) (\<lambda>y. bind (map_eff f xs) (\<lambda>ys. ret (y # ys)))"

text \<open>A call whose value is not used.\<close>

definition discard :: "('s, 'a) eff \<Rightarrow> ('s, unit) eff" where
  "discard m = bind m (\<lambda>_. ret ())"

text \<open>A fold whose step has effects: the loop carries an accumulator.\<close>

fun fold_eff :: "('a \<Rightarrow> 'b \<Rightarrow> ('s, 'b) eff) \<Rightarrow> 'a list \<Rightarrow> 'b \<Rightarrow> ('s, 'b) eff" where
  "fold_eff f [] acc = ret acc"
| "fold_eff f (x # xs) acc = bind (f x acc) (fold_eff f xs)"

section \<open>Running the combinators\<close>

lemma run_simps [eff_simps]:
  "ret x s = (Inr x, s)"
  "throw e s = (Inl e, s)"
  "lift_result r s = (r, s)"
  "gets f s = (Inr (f s), s)"
  "modify g s = (Inr (), g s)"
  "raise_if True e s = (Inl e, s)"
  "raise_if False e s = (Inr (), s)"
  by (simp_all add: ret_def throw_def lift_result_def gets_def modify_def raise_if_def)

lemma run_bind [eff_simps]:
  "bind m f s = (case m s of (Inl e, t) \<Rightarrow> (Inl e, t) | (Inr x, t) \<Rightarrow> f x t)"
  by (simp add: bind_def)

lemma run_try_catch [eff_simps]:
  "try_catch m h s = (case m s of (Inl e, t) \<Rightarrow> h e t | (Inr x, t) \<Rightarrow> (Inr x, t))"
  by (simp add: try_catch_def)

lemma run_finally_do [eff_simps]:
  "finally_do m f s =
     (case m s of (r, t) \<Rightarrow> (case f t of (Inl e, u) \<Rightarrow> (Inl e, u) | (Inr _, u) \<Rightarrow> (r, u)))"
  by (simp add: finally_do_def)

lemma bind_ret [simp]: "bind (ret x) f = f x"
  by (rule ext) (simp add: eff_simps)

lemma bind_throw [simp]: "bind (throw e) f = throw e"
  by (rule ext) (simp add: eff_simps)

lemma bind_assoc: "bind (bind m f) g = bind m (\<lambda>x. bind (f x) g)"
  by (rule ext) (simp add: eff_simps split: prod.splits sum.splits)

section \<open>Weakest preconditions\<close>

definition wp ::
  "('s, 'a) eff \<Rightarrow> ('a \<Rightarrow> 's \<Rightarrow> bool) \<Rightarrow> (exn \<Rightarrow> 's \<Rightarrow> bool) \<Rightarrow> 's \<Rightarrow> bool" where
  "wp m Q E s = (case m s of (Inl e, t) \<Rightarrow> E e t | (Inr x, t) \<Rightarrow> Q x t)"

lemma wp_basic [wp_simps]:
  "wp (ret x) Q E s = Q x s"
  "wp (throw e) Qt E s = E e s"
  "wp (gets f) Qg E s = Qg (f s) s"
  "wp (modify g) Qm E s = Qm () (g s)"
  by (simp_all add: wp_def eff_simps)

lemma wp_bind [wp_simps]: "wp (bind m f) Q E s = wp m (\<lambda>x. wp (f x) Q E) E s"
  by (simp add: wp_def eff_simps split: prod.splits sum.splits)

lemma wp_try_catch [wp_simps]: "wp (try_catch m h) Q E s = wp m Q (\<lambda>e. wp (h e) Q E) s"
  by (simp add: wp_def eff_simps split: prod.splits sum.splits)

lemma wp_finally_do [wp_simps]:
  "wp (finally_do m f) Q E s = wp m (\<lambda>x. wp f (\<lambda>_. Q x) E) (\<lambda>e. wp f (\<lambda>_. E e) E) s"
  by (simp add: wp_def eff_simps split: prod.splits sum.splits)

lemma wp_lift_result [wp_simps]:
  "wp (lift_result r) Q E s = (case r of Inl e \<Rightarrow> E e s | Inr x \<Rightarrow> Q x s)"
  by (simp add: wp_def eff_simps split: sum.splits)

lemma wp_raise_if [wp_simps]: "wp (raise_if b e) Q E s = (if b then E e s else Q () s)"
  by (simp add: raise_if_def wp_simps)

lemma wp_discard [wp_simps]: "wp (discard m) Q E s = wp m (\<lambda>_. Q ()) E s"
  by (simp add: discard_def wp_def eff_simps split: prod.splits sum.splits)

lemma wp_if [wp_simps]: "wp (if b then m else n) Q E s = (if b then wp m Q E s else wp n Q E s)"
  by simp

lemma wp_option [wp_simps]:
  "wp (case x of None \<Rightarrow> m | Some y \<Rightarrow> f y) Q E s =
     (case x of None \<Rightarrow> wp m Q E s | Some y \<Rightarrow> wp (f y) Q E s)"
  by (simp split: option.splits)

lemma wp_mono:
  assumes "wp m Q E s"
    and "\<And>x t. Q x t \<Longrightarrow> Q' x t" and "\<And>e t. E e t \<Longrightarrow> E' e t"
  shows "wp m Q' E' s"
  using assms by (auto simp: wp_def split: prod.splits sum.splits)

lemma wp_conj:
  assumes "wp m Q E s" and "wp m Q' E' s"
  shows "wp m (\<lambda>x t. Q x t \<and> Q' x t) (\<lambda>e t. E e t \<and> E' e t) s"
  using assms by (auto simp: wp_def split: prod.splits sum.splits)

text \<open>The rules the component proofs step with: a specification of the first statement,
  then the rest of the block.\<close>

lemma wp_bind_spec:
  assumes "wp m Q0 E0 s"
    and "\<And>x t. Q0 x t \<Longrightarrow> wp (f x) Q E t" and "\<And>e t. E0 e t \<Longrightarrow> E e t"
  shows "wp (bind m f) Q E s"
  unfolding wp_bind using assms by (rule wp_mono)

lemma wp_bind_gets: "wp (f (g s)) Q E s \<Longrightarrow> wp (bind (gets g) f) Q E s"
  by (simp add: wp_simps)

lemma wp_bind_raise_if:
  assumes "b \<Longrightarrow> E e s" and "\<not> b \<Longrightarrow> wp (f ()) Q E s"
  shows "wp (bind (raise_if b e) f) Q E s"
  using assms by (simp add: wp_simps)

lemma wp_bind_lift:
  assumes "\<And>x. r = Inr x \<Longrightarrow> wp (f x) Q E s" and "\<And>e. r = Inl e \<Longrightarrow> E e s"
  shows "wp (bind (lift_result r) f) Q E s"
  using assms by (simp add: wp_simps split: sum.splits)

lemma wp_try_spec:
  assumes "wp m Q0 E0 s"
    and "\<And>x t. Q0 x t \<Longrightarrow> Q x t" and "\<And>e t. E0 e t \<Longrightarrow> wp (h e) Q E t"
  shows "wp (try_catch m h) Q E s"
  unfolding wp_try_catch using assms by (rule wp_mono)

lemma wp_run_Inr: "wp m Q E s \<Longrightarrow> m s = (Inr x, t) \<Longrightarrow> Q x t"
  by (simp add: wp_def)

lemma wp_run_Inl: "wp m Q E s \<Longrightarrow> m s = (Inl e, t) \<Longrightarrow> E e t"
  by (simp add: wp_def)

lemma wp_iff_run:
  "wp m Q E s \<longleftrightarrow>
     (\<forall>x t. m s = (Inr x, t) \<longrightarrow> Q x t) \<and> (\<forall>e t. m s = (Inl e, t) \<longrightarrow> E e t)"
  by (auto simp: wp_def split: prod.splits sum.splits)

lemma wp_trivial [simp]: "wp m (\<lambda>_ _. True) (\<lambda>_ _. True) s"
  by (simp add: wp_def split: prod.splits sum.splits)

text \<open>A state predicate that both outcomes keep.\<close>

definition keeps :: "('s \<Rightarrow> bool) \<Rightarrow> ('s, 'a) eff \<Rightarrow> bool" where
  "keeps P m \<longleftrightarrow> (\<forall>s. P s \<longrightarrow> wp m (\<lambda>_. P) (\<lambda>_. P) s)"

lemma keepsI: "(\<And>s. P s \<Longrightarrow> wp m (\<lambda>_. P) (\<lambda>_. P) s) \<Longrightarrow> keeps P m"
  by (simp add: keeps_def)

lemma keepsD: "keeps P m \<Longrightarrow> P s \<Longrightarrow> wp m (\<lambda>_. P) (\<lambda>_. P) s"
  by (simp add: keeps_def)

lemma keeps_run: "keeps P m \<Longrightarrow> P s \<Longrightarrow> m s = (r, t) \<Longrightarrow> P t"
  by (cases r) (auto dest!: keepsD simp: wp_iff_run)

lemma keeps_basic [intro, simp]:
  "keeps P (ret x)" "keeps P (throw e)" "keeps P (gets f)" "keeps P (lift_result r)"
  "keeps P (raise_if b e)"
  by (auto simp: keeps_def wp_simps split: sum.splits)

lemma keeps_bind [intro]:
  assumes "keeps P m" and "\<And>x. keeps P (f x)"
  shows "keeps P (bind m f)"
proof (rule keepsI)
  fix s assume "P s"
  with assms(1) have "wp m (\<lambda>_. P) (\<lambda>_. P) s" by (rule keepsD)
  then show "wp (bind m f) (\<lambda>_. P) (\<lambda>_. P) s"
    unfolding wp_bind by (rule wp_mono) (auto intro: keepsD [OF assms(2)])
qed

lemma keeps_try_catch [intro]:
  assumes "keeps P m" and "\<And>e. keeps P (h e)"
  shows "keeps P (try_catch m h)"
proof (rule keepsI)
  fix s assume "P s"
  with assms(1) have "wp m (\<lambda>_. P) (\<lambda>_. P) s" by (rule keepsD)
  then show "wp (try_catch m h) (\<lambda>_. P) (\<lambda>_. P) s"
    unfolding wp_try_catch by (rule wp_mono) (auto intro: keepsD [OF assms(2)])
qed

lemma keeps_for_each [intro]: "(\<And>x. x \<in> set xs \<Longrightarrow> keeps P (f x)) \<Longrightarrow> keeps P (for_each xs f)"
  by (induction xs) (auto intro!: keeps_bind)

lemma keeps_fold_eff [intro]:
  "(\<And>x acc. x \<in> set xs \<Longrightarrow> keeps P (f x acc)) \<Longrightarrow> keeps P (fold_eff f xs acc)"
  by (induction xs arbitrary: acc) (auto intro!: keeps_bind)

end
