(* ===== verification/FileSystem.thy ===== *)
theory FileSystem
  imports Effects PyText
begin

text \<open>
  The operating system as the storage code sees it: a tree of directories, regular files
  and symbolic links indexed by absolute path, the device of each directory, disk usage,
  the clock and the source of random identifiers. Every system call may fail: the oracle
  \<open>os_fault\<close> decides for the n-th call, so a statement about all oracles covers every
  \<open>OSError\<close> the code handles, at every place. The record is extensible; the database joins
  it in theory \<open>Database\<close>.
\<close>

type_synonym path = "str list"

datatype node =
    Dir (dir_mode: nat)
  | File (file_bytes: bytes) (file_mode: nat) (file_mtime: int)
  | Link bool path

type_synonym fs = "path \<rightharpoonup> node"

record disk_space =
  disk_total :: int
  disk_used :: int
  disk_free :: int

record os =
  os_fs :: fs
  os_device :: "path \<Rightarrow> nat"
  os_disk :: disk_space
  os_fault :: "nat \<Rightarrow> bool"
  os_tick :: nat
  os_uuid :: "nat \<Rightarrow> str"
  os_uuid_next :: nat
  os_now :: int

definition dot :: str where "dot = [46]"
definition dotdot :: str where "dotdot = [46, 46]"

section \<open>Path resolution\<close>

text \<open>
  \<open>Path.resolve\<close>: the components are followed from the left, a link is replaced by its
  target (from the root when absolute), \<open>..\<close> goes up. \<open>links\<close> bounds the number of links
  followed, as the kernel does: beyond it a strict resolution fails, a lenient one returns
  the rest of the path as it stands. A strict resolution fails on a missing component.
\<close>

fun real_from :: "bool \<Rightarrow> fs \<Rightarrow> nat \<Rightarrow> path \<Rightarrow> path \<Rightarrow> path option" where
  "real_from strict f links d [] = Some d"
| "real_from strict f links d (c # cs) =
     (if c = dot then real_from strict f links d cs
      else if c = dotdot then real_from strict f links (butlast d) cs
      else
        (case f (d @ [c]) of
           None \<Rightarrow> if strict then None else real_from strict f links (d @ [c]) cs
         | Some (Link absolute t) \<Rightarrow>
             (case links of
                0 \<Rightarrow> if strict then None else Some (d @ c # cs)
              | Suc n \<Rightarrow> real_from strict f n (if absolute then [] else d) (t @ cs))
         | Some _ \<Rightarrow> real_from strict f links (d @ [c]) cs))"

definition max_links :: nat where
  "max_links = 40"

definition resolve :: "bool \<Rightarrow> fs \<Rightarrow> path \<Rightarrow> path option" where
  "resolve strict f p = real_from strict f max_links [] p"

text \<open>\<open>Path.exists\<close>, \<open>Path.is_symlink\<close>, \<open>Path.is_dir\<close>.\<close>

definition path_exists :: "fs \<Rightarrow> path \<Rightarrow> bool" where
  "path_exists f p = (case resolve True f p of None \<Rightarrow> False | Some q \<Rightarrow> f q \<noteq> None)"

definition is_symlink :: "fs \<Rightarrow> path \<Rightarrow> bool" where
  "is_symlink f p = (case f p of Some (Link _ _) \<Rightarrow> True | _ \<Rightarrow> False)"

definition is_dir :: "fs \<Rightarrow> path \<Rightarrow> bool" where
  "is_dir f p =
     (case resolve True f p of None \<Rightarrow> False
      | Some q \<Rightarrow> (case f q of Some (Dir _) \<Rightarrow> True | _ \<Rightarrow> False))"

fun is_regular :: "node \<Rightarrow> bool" where
  "is_regular (File _ _ _) = True"
| "is_regular _ = False"

fun node_size :: "node \<Rightarrow> int" where
  "node_size (File b _ _) = int (length b)"
| "node_size _ = 0"

section \<open>System calls\<close>

text \<open>One call to the kernel that may fail.\<close>

definition syscall :: "('z os_scheme, unit) eff" where
  "syscall s =
     (if os_fault s (os_tick s) then Inl OSError else Inr (), s\<lparr>os_tick := Suc (os_tick s)\<rparr>)"

definition sys_resolve :: "bool \<Rightarrow> path \<Rightarrow> ('z os_scheme, path) eff" where
  "sys_resolve strict p =
     bind syscall (\<lambda>_. bind (gets os_fs) (\<lambda>f.
       case resolve strict f p of None \<Rightarrow> throw OSError | Some q \<Rightarrow> ret q))"

definition sys_lstat :: "path \<Rightarrow> ('z os_scheme, node) eff" where
  "sys_lstat p =
     bind syscall (\<lambda>_. bind (gets os_fs) (\<lambda>f.
       case f p of None \<Rightarrow> throw FileNotFoundError | Some n \<Rightarrow> ret n))"

fun set_mode :: "nat \<Rightarrow> node \<Rightarrow> node" where
  "set_mode m (Dir _) = Dir m"
| "set_mode m (File b _ t) = File b m t"
| "set_mode m (Link a t) = Link a t"

definition sys_chmod :: "path \<Rightarrow> nat \<Rightarrow> ('z os_scheme, unit) eff" where
  "sys_chmod p m =
     bind syscall (\<lambda>_. bind (gets os_fs) (\<lambda>f.
       case f p of None \<Rightarrow> throw FileNotFoundError
       | Some n \<Rightarrow> modify (\<lambda>s. s\<lparr>os_fs := (os_fs s)(p \<mapsto> set_mode m n)\<rparr>)))"

text \<open>\<open>mkdir(exist_ok=True)\<close>\<close>

definition sys_mkdir :: "path \<Rightarrow> nat \<Rightarrow> ('z os_scheme, unit) eff" where
  "sys_mkdir p m =
     bind syscall (\<lambda>_. bind (gets os_fs) (\<lambda>f.
       case f p of
         Some (Dir _) \<Rightarrow> ret ()
       | Some _ \<Rightarrow> throw FileExistsError
       | None \<Rightarrow>
           (case f (butlast p) of
              Some (Dir _) \<Rightarrow> modify (\<lambda>s. s\<lparr>os_fs := (os_fs s)(p \<mapsto> Dir m)\<rparr>)
            | _ \<Rightarrow> throw FileNotFoundError)))"

text \<open>\<open>Path.replace\<close>, the atomic rename of a regular file.\<close>

definition sys_replace :: "path \<Rightarrow> path \<Rightarrow> ('z os_scheme, unit) eff" where
  "sys_replace src dst =
     bind syscall (\<lambda>_. bind (gets os_fs) (\<lambda>f.
       case f src of None \<Rightarrow> throw FileNotFoundError
       | Some n \<Rightarrow> modify (\<lambda>s. s\<lparr>os_fs := (os_fs s)(src := None, dst \<mapsto> n)\<rparr>)))"

definition sys_unlink :: "path \<Rightarrow> ('z os_scheme, unit) eff" where
  "sys_unlink p =
     bind syscall (\<lambda>_. bind (gets os_fs) (\<lambda>f.
       case f p of None \<Rightarrow> throw FileNotFoundError
       | Some (Dir _) \<Rightarrow> throw OSError
       | Some _ \<Rightarrow> modify (\<lambda>s. s\<lparr>os_fs := (os_fs s)(p := None)\<rparr>)))"

text \<open>Opening for reading and \<open>fsync\<close>; both only fail or succeed.\<close>

definition sys_fsync :: "path \<Rightarrow> ('z os_scheme, unit) eff" where
  "sys_fsync p =
     bind syscall (\<lambda>_. bind (gets os_fs) (\<lambda>f.
       if f p = None then throw FileNotFoundError else syscall))"

definition sys_read :: "path \<Rightarrow> ('z os_scheme, bytes) eff" where
  "sys_read p =
     bind syscall (\<lambda>_. bind (gets os_fs) (\<lambda>f.
       case f p of Some (File b _ _) \<Rightarrow> ret b | _ \<Rightarrow> throw OSError))"

definition sys_device :: "path \<Rightarrow> ('z os_scheme, nat) eff" where
  "sys_device p = bind syscall (\<lambda>_. gets (\<lambda>s. os_device s p))"

definition fresh_uuid_hex :: "('z os_scheme, str) eff" where
  "fresh_uuid_hex s = (Inr (os_uuid s (os_uuid_next s)), s\<lparr>os_uuid_next := Suc (os_uuid_next s)\<rparr>)"

definition utc_now :: "('z os_scheme, int) eff" where
  "utc_now = gets os_now"

text \<open>\<open>try: m / except OSError: raise e\<close>\<close>

definition os_error_as :: "exn \<Rightarrow> ('s, 'a) eff \<Rightarrow> ('s, 'a) eff" where
  "os_error_as e m = try_catch m (\<lambda>x. if is_os_error x then throw e else throw x)"

section \<open>What a call can change\<close>

text \<open>
  \<open>fs_frame s t\<close>: only the tree, the call counter and the identifier counter differ. The
  bytes of the regular files, \<open>files\<close>, are the abstraction the services are stated over.
\<close>

definition fs_frame :: "'z os_scheme \<Rightarrow> 'z os_scheme \<Rightarrow> bool" where
  "fs_frame s t \<longleftrightarrow>
     t = s\<lparr>os_fs := os_fs t, os_tick := os_tick t, os_uuid_next := os_uuid_next t\<rparr>"

lemma fs_frame_refl [simp, intro]: "fs_frame s s"
  by (simp add: fs_frame_def)

lemma fs_frame_eqs:
  assumes "fs_frame s t"
  shows "os_device t = os_device s" "os_disk t = os_disk s" "os_fault t = os_fault s"
    "os_uuid t = os_uuid s" "os_now t = os_now s" "os.more t = os.more s"
  using assms by (cases s; cases t; simp add: fs_frame_def)+

lemma fs_frame_iff:
  "fs_frame s t \<longleftrightarrow> os_device t = os_device s \<and> os_disk t = os_disk s \<and> os_fault t = os_fault s
     \<and> os_uuid t = os_uuid s \<and> os_now t = os_now s \<and> os.more t = os.more s"
  by (cases s; cases t; auto simp: fs_frame_def)

lemma fs_frame_trans: "fs_frame s t \<Longrightarrow> fs_frame t u \<Longrightarrow> fs_frame s u"
  by (simp add: fs_frame_iff)

lemma fs_frame_updates [simp]:
  "fs_frame s (s\<lparr>os_fs := f\<rparr>)" "fs_frame s (s\<lparr>os_tick := n\<rparr>)" "fs_frame s (s\<lparr>os_uuid_next := k\<rparr>)"
  "fs_frame s (t\<lparr>os_fs := f\<rparr>) = fs_frame s t" "fs_frame s (t\<lparr>os_tick := n\<rparr>) = fs_frame s t"
  "fs_frame s (t\<lparr>os_uuid_next := k\<rparr>) = fs_frame s t"
  by (auto simp: fs_frame_iff)

definition file_at :: "fs \<Rightarrow> path \<Rightarrow> bytes option" where
  "file_at f p = (case f p of Some (File b _ _) \<Rightarrow> Some b | _ \<Rightarrow> None)"

definition files :: "'z os_scheme \<Rightarrow> path \<Rightarrow> bytes option" where
  "files s = file_at (os_fs s)"

lemma files_updates [simp]:
  "files (s\<lparr>os_tick := n\<rparr>) = files s" "files (s\<lparr>os_uuid_next := k\<rparr>) = files s"
  by (simp_all add: files_def)

lemma file_at_upd [fs_simps]:
  "file_at (f(p \<mapsto> File b m t)) = (file_at f)(p \<mapsto> b)"
  "file_at (f(p := None)) = (file_at f)(p := None)"
  "file_at (f(p \<mapsto> Dir m)) = (file_at f)(p := None)"
  by (auto simp: file_at_def)

lemma file_at_same: "file_at (f(p \<mapsto> set_mode m n)) = file_at f" if "f p = Some n"
  using that by (cases n) (auto simp: file_at_def)

text \<open>No call of the operating system fails.\<close>

definition no_os_faults :: "'z os_scheme \<Rightarrow> bool" where
  "no_os_faults s \<longleftrightarrow> (\<forall>n. \<not> os_fault s n)"

lemma no_os_faults_frame: "fs_frame s t \<Longrightarrow> no_os_faults t = no_os_faults s"
  by (simp add: no_os_faults_def fs_frame_eqs)

section \<open>Weakest preconditions of the calls\<close>

lemma wp_syscall [wp_simps]:
  "wp syscall Q E s =
     (if os_fault s (os_tick s) then E OSError (s\<lparr>os_tick := Suc (os_tick s)\<rparr>)
      else Q () (s\<lparr>os_tick := Suc (os_tick s)\<rparr>))"
  by (simp add: wp_def syscall_def)

lemma wp_os_error_as [wp_simps]:
  "wp (os_error_as e m) Q E s = wp m Q (\<lambda>x. E (if is_os_error x then e else x)) s"
  unfolding os_error_as_def wp_try_catch
  by (rule arg_cong [where f = "\<lambda>h. wp m Q h s"], rule ext) (simp add: wp_simps fun_eq_iff)

lemma wp_fresh_uuid_hex [wp_simps]:
  "wp fresh_uuid_hex Q E s =
     Q (os_uuid s (os_uuid_next s)) (s\<lparr>os_uuid_next := Suc (os_uuid_next s)\<rparr>)"
  by (simp add: wp_def fresh_uuid_hex_def)

lemma wp_utc_now [wp_simps]: "wp utc_now Q E s = Q (os_now s) s"
  by (simp add: utc_now_def wp_simps)

lemma wp_os_error_asI:
  "wp m Q (\<lambda>e t. is_os_error e \<and> E t) s \<Longrightarrow> wp (os_error_as x m) Q (\<lambda>e t. e = x \<and> E t) s"
  by (simp add: wp_os_error_as) (erule wp_mono, auto)

text \<open>
  The calls that only look raise an \<open>OSError\<close> or return what they read, and change no more
  than the call counter.
\<close>

definition looked :: "'z os_scheme \<Rightarrow> 'z os_scheme \<Rightarrow> bool" where
  "looked s t \<longleftrightarrow> t = s\<lparr>os_tick := os_tick t\<rparr>"

lemma looked_eqs:
  assumes "looked s t"
  shows "os_fs t = os_fs s" "files t = files s" "fs_frame s t" "os_uuid_next t = os_uuid_next s"
    "os_fault t = os_fault s" "os_device t = os_device s" "os.more t = os.more s"
    "os_uuid t = os_uuid s" "os_disk t = os_disk s" "os_now t = os_now s"
  using assms unfolding looked_def files_def fs_frame_iff by (cases s; cases t; simp)+

lemma looked_refl [simp, intro]: "looked s s"
  by (simp add: looked_def)

lemma looked_trans: "looked s t \<Longrightarrow> looked t u \<Longrightarrow> looked s u"
  by (cases s; cases t; cases u) (simp add: looked_def)

lemma looked_tick [simp]: "looked s (s\<lparr>os_tick := n\<rparr>)" "looked s (t\<lparr>os_tick := n\<rparr>) = looked s t"
  by (cases s; cases t; simp add: looked_def)+

lemma wp_sys_resolve:
  "wp (sys_resolve strict p) (\<lambda>q t. looked s t \<and> resolve strict (os_fs s) p = Some q)
     (\<lambda>e t. is_os_error e \<and> looked s t
        \<and> (no_os_faults s \<longrightarrow> resolve strict (os_fs s) p = None)) s"
  unfolding sys_resolve_def by (auto simp: wp_simps no_os_faults_def split: option.splits)

lemma wp_sys_lstat:
  "wp (sys_lstat p) (\<lambda>n t. looked s t \<and> os_fs s p = Some n)
     (\<lambda>e t. is_os_error e \<and> looked s t \<and> (no_os_faults s \<longrightarrow> os_fs s p = None)) s"
  unfolding sys_lstat_def by (auto simp: wp_simps no_os_faults_def split: option.splits)

lemma wp_sys_read:
  "wp (sys_read p) (\<lambda>b t. looked s t \<and> files s p = Some b)
     (\<lambda>e t. is_os_error e \<and> looked s t \<and> (no_os_faults s \<longrightarrow> files s p = None)) s"
  unfolding sys_read_def
  by (auto simp: wp_simps no_os_faults_def files_def file_at_def split: option.splits node.splits)

lemma wp_sys_device:
  "wp (sys_device p) (\<lambda>d t. looked s t \<and> d = os_device s p)
     (\<lambda>e t. is_os_error e \<and> looked s t \<and> \<not> no_os_faults s) s"
  unfolding sys_device_def by (auto simp: wp_simps no_os_faults_def)

lemma wp_sys_fsync:
  "wp (sys_fsync p) (\<lambda>_ t. looked s t)
     (\<lambda>e t. is_os_error e \<and> looked s t \<and> (no_os_faults s \<longrightarrow> os_fs s p = None)) s"
  unfolding sys_fsync_def by (auto simp: wp_simps no_os_faults_def)

lemma wp_sys_chmod:
  "wp (sys_chmod p m)
     (\<lambda>_ t. \<exists>n. os_fs s p = Some n \<and> os_fs t = (os_fs s)(p \<mapsto> set_mode m n) \<and> fs_frame s t
        \<and> os_uuid_next t = os_uuid_next s)
     (\<lambda>e t. is_os_error e \<and> looked s t \<and> (no_os_faults s \<longrightarrow> os_fs s p = None)) s"
  unfolding sys_chmod_def by (auto simp: wp_simps no_os_faults_def split: option.splits)

lemma wp_sys_replace:
  "wp (sys_replace src dst)
     (\<lambda>_ t. \<exists>n. os_fs s src = Some n \<and> os_fs t = (os_fs s)(src := None, dst \<mapsto> n) \<and> fs_frame s t
        \<and> os_uuid_next t = os_uuid_next s)
     (\<lambda>e t. is_os_error e \<and> looked s t \<and> (no_os_faults s \<longrightarrow> os_fs s src = None)) s"
  unfolding sys_replace_def by (auto simp: wp_simps no_os_faults_def split: option.splits)

lemma wp_sys_unlink:
  "wp (sys_unlink p)
     (\<lambda>_ t. \<exists>n. os_fs s p = Some n \<and> (\<forall>m. n \<noteq> Dir m) \<and> os_fs t = (os_fs s)(p := None)
        \<and> fs_frame s t \<and> os_uuid_next t = os_uuid_next s)
     (\<lambda>e t. is_os_error e \<and> looked s t
        \<and> (no_os_faults s \<longrightarrow> os_fs s p = None \<or> (\<exists>m. os_fs s p = Some (Dir m)))) s"
  unfolding sys_unlink_def
  by (auto simp: wp_simps no_os_faults_def split: option.splits node.splits)

lemma wp_sys_mkdir:
  "wp (sys_mkdir p m)
     (\<lambda>_ t. fs_frame s t \<and> os_uuid_next t = os_uuid_next s
        \<and> ((\<exists>k. os_fs s p = Some (Dir k)) \<and> os_fs t = os_fs s
           \<or> os_fs s p = None \<and> (\<exists>k. os_fs s (butlast p) = Some (Dir k))
              \<and> os_fs t = (os_fs s)(p \<mapsto> Dir m)))
     (\<lambda>e t. is_os_error e \<and> looked s t
        \<and> (no_os_faults s \<longrightarrow> (\<exists>n. os_fs s p = Some n \<and> (\<forall>k. n \<noteq> Dir k))
              \<or> os_fs s p = None \<and> (\<forall>k. os_fs s (butlast p) \<noteq> Some (Dir k)))) s"
  unfolding sys_mkdir_def
  by (auto simp: wp_simps no_os_faults_def split: option.splits node.splits)

end
