(* ===== verification/Database.thy ===== *)
theory Database
  imports Models Policies FileSystem
begin

text \<open>
  The relational store behind the services: one list of rows per table, the constraints the
  tables declare, and the session boundary of \<open>app/database/session.py\<close>. A statement may
  fail with \<open>SQLAlchemyError\<close> (an oracle decides for the n-th one), a flush checks the
  constraints, a transaction that raises leaves the tables as they were. Other processes
  may commit between two sessions of one operation: \<open>w_env\<close> is what they do, applied when
  a session starts, so a statement for every \<open>w_env\<close> covers every interleaving of whole
  transactions.
\<close>

record database =
  db_users :: "user list"
  db_sessions :: "user_session list"
  db_categories :: "category list"
  db_tags :: "tag list"
  db_software_tags :: "(nat \<times> nat) list"
  db_softwares :: "software list"
  db_releases :: "release list"
  db_files :: "release_file list"
  db_stats :: "download_stat list"
  db_audits :: "audit_log list"

definition empty_database :: database where
  "empty_database = \<lparr>db_users = [], db_sessions = [], db_categories = [], db_tags = [],
     db_software_tags = [], db_softwares = [], db_releases = [], db_files = [], db_stats = [],
     db_audits = []\<rparr>"

section \<open>Declared constraints\<close>

definition refers :: "nat list \<Rightarrow> nat \<Rightarrow> bool" where
  "refers keys i = (i \<in> set keys)"

fun refers_opt :: "nat list \<Rightarrow> nat option \<Rightarrow> bool" where
  "refers_opt keys None = True"
| "refers_opt keys (Some i) = refers keys i"

definition users_ok :: "database \<Rightarrow> bool" where
  "users_ok d = (distinct_keys user_id (db_users d) \<and> unique_by user_username (db_users d)
     \<and> list_all (\<lambda>u. 0 \<le> user_failed_login_attempts u) (db_users d))"

definition sessions_ok :: "database \<Rightarrow> bool" where
  "sessions_ok d = (distinct_keys ses_id (db_sessions d) \<and> unique_by ses_token_hash (db_sessions d)
     \<and> list_all (\<lambda>x. refers (map user_id (db_users d)) (ses_user_id x)) (db_sessions d))"

definition categories_ok :: "database \<Rightarrow> bool" where
  "categories_ok d = (distinct_keys cat_id (db_categories d) \<and> unique_by cat_slug (db_categories d)
     \<and> list_all (\<lambda>c. 0 \<le> cat_sort_order c) (db_categories d))"

definition tags_ok :: "database \<Rightarrow> bool" where
  "tags_ok d = (distinct_keys tag_id (db_tags d) \<and> unique_by tag_slug (db_tags d))"

definition software_tags_ok :: "database \<Rightarrow> bool" where
  "software_tags_ok d = (distinct (db_software_tags d)
     \<and> list_all (\<lambda>(s, t). refers (map sw_id (db_softwares d)) s \<and> refers (map tag_id (db_tags d)) t)
         (db_software_tags d))"

definition softwares_ok :: "database \<Rightarrow> bool" where
  "softwares_ok d = (distinct_keys sw_id (db_softwares d) \<and> unique_by sw_slug (db_softwares d)
     \<and> list_all (\<lambda>s. refers_opt (map cat_id (db_categories d)) (sw_category_id s)) (db_softwares d))"

definition is_current_stable :: "release \<Rightarrow> bool" where
  "is_current_stable r = (rel_is_current r \<and> rel_channel r = ChannelStable)"

definition releases_ok :: "database \<Rightarrow> bool" where
  "releases_ok d = (distinct_keys rel_id (db_releases d)
     \<and> unique_by (\<lambda>r. (rel_software_id r, rel_version r, rel_channel r)) (db_releases d)
     \<and> unique_by rel_software_id (filter is_current_stable (db_releases d))
     \<and> list_all (\<lambda>r. refers (map sw_id (db_softwares d)) (rel_software_id r)) (db_releases d))"

definition files_ok :: "database \<Rightarrow> bool" where
  "files_ok d = (distinct_keys rf_id (db_files d) \<and> unique_by rf_public_uuid (db_files d)
     \<and> unique_by rf_storage_filename (db_files d)
     \<and> unique_by rf_relative_storage_path (db_files d)
     \<and> list_all (\<lambda>f. 0 \<le> rf_file_size_bytes f \<and> 0 \<le> rf_download_count f
          \<and> length (rf_sha256 f) = 64
          \<and> refers (map rel_id (db_releases d)) (rf_release_id f)) (db_files d))"

definition stats_ok :: "database \<Rightarrow> bool" where
  "stats_ok d = (distinct_keys ds_id (db_stats d)
     \<and> unique_by (\<lambda>x. (ds_release_file_id x, ds_date x)) (db_stats d)
     \<and> list_all (\<lambda>x. 0 \<le> ds_download_count x \<and> 0 \<le> ds_successful_count x
          \<and> 0 \<le> ds_blocked_count x
          \<and> refers (map rf_id (db_files d)) (ds_release_file_id x)) (db_stats d))"

definition audits_ok :: "database \<Rightarrow> bool" where
  "audits_ok d = (distinct_keys aud_id (db_audits d)
     \<and> list_all (\<lambda>a. refers_opt (map user_id (db_users d)) (aud_user_id a)) (db_audits d))"

definition db_constraints :: "database \<Rightarrow> bool" where
  "db_constraints d = (users_ok d \<and> sessions_ok d \<and> categories_ok d \<and> tags_ok d
     \<and> software_tags_ok d \<and> softwares_ok d \<and> releases_ok d \<and> files_ok d \<and> stats_ok d
     \<and> audits_ok d)"

lemma db_constraints_empty [simp]: "db_constraints empty_database"
  by (simp add: db_constraints_def empty_database_def users_ok_def sessions_ok_def
    categories_ok_def tags_ok_def software_tags_ok_def softwares_ok_def releases_ok_def
    files_ok_def stats_ok_def audits_ok_def distinct_keys_def unique_by_def)

lemma db_constraints_files:
  "db_constraints d \<Longrightarrow> distinct_keys rf_id (db_files d)"
  "db_constraints d \<Longrightarrow> unique_by rf_relative_storage_path (db_files d)"
  by (simp_all add: db_constraints_def files_ok_def)

section \<open>The process state\<close>

record world = os +
  w_db :: database
  w_db_fault :: "nat \<Rightarrow> bool"
  w_db_tick :: nat
  w_env :: "nat \<Rightarrow> database \<Rightarrow> database"

type_synonym 'a svc = "(world, 'a) eff"

text \<open>One SQL statement sent to the engine.\<close>

definition sql_call :: "unit svc" where
  "sql_call s =
     (if w_db_fault s (w_db_tick s) then Inl SQLAlchemyError else Inr (),
      s\<lparr>w_db_tick := Suc (w_db_tick s)\<rparr>)"

definition query :: "(database \<Rightarrow> 'a) \<Rightarrow> 'a svc" where
  "query f = bind sql_call (\<lambda>_. gets (\<lambda>s. f (w_db s)))"

text \<open>Attribute assignment on loaded entities: nothing is sent before the next flush.\<close>

definition change :: "(database \<Rightarrow> database) \<Rightarrow> unit svc" where
  "change f = modify (\<lambda>s. s\<lparr>w_db := f (w_db s)\<rparr>)"

definition flush :: "unit svc" where
  "flush = bind sql_call (\<lambda>_. bind (gets w_db) (\<lambda>d. raise_if (\<not> db_constraints d) IntegrityError))"

text \<open>What other processes committed before this session began.\<close>

definition interfere :: "world \<Rightarrow> world" where
  "interfere s = s\<lparr>w_db := w_env s (w_db_tick s) (w_db s), w_db_tick := Suc (w_db_tick s)\<rparr>"

text \<open>\<open>Database.session\<close>: a session that is closed without a commit.\<close>

definition read_session :: "'a svc \<Rightarrow> 'a svc" where
  "read_session m s =
     (case m (interfere s) of (r, t) \<Rightarrow> (r, t\<lparr>w_db := w_db (interfere s)\<rparr>))"

text \<open>\<open>Database.transaction\<close>: commit on return, roll back on any exception.\<close>

definition transaction :: "'a svc \<Rightarrow> 'a svc" where
  "transaction m s =
     (case bind m (\<lambda>x. bind flush (\<lambda>_. bind sql_call (\<lambda>_. ret x))) (interfere s) of
        (Inr x, t) \<Rightarrow> (Inr x, t)
      | (Inl e, t) \<Rightarrow> (Inl e, t\<lparr>w_db := w_db (interfere s)\<rparr>))"

section \<open>Reading a file with its parents\<close>

type_synonym file_graph = "release_file \<times> release \<times> software"

definition graph_of :: "database \<Rightarrow> release_file \<Rightarrow> file_graph option" where
  "graph_of d f =
     (case row_get rel_id (rf_release_id f) (db_releases d) of
        None \<Rightarrow> None
      | Some r \<Rightarrow>
          (case row_get sw_id (rel_software_id r) (db_softwares d) of
             None \<Rightarrow> None
           | Some w \<Rightarrow> Some (f, r, w)))"

text \<open>\<open>get_with_graph\<close>. The foreign keys are not null; a dangling one would fail on the first
  attribute access of the missing parent.\<close>

definition file_with_graph :: "nat \<Rightarrow> file_graph option svc" where
  "file_with_graph i =
     bind (query (\<lambda>d. d)) (\<lambda>d.
       case row_get rf_id i (db_files d) of
         None \<Rightarrow> ret None
       | Some f \<Rightarrow> (case graph_of d f of None \<Rightarrow> throw AttributeError | Some g \<Rightarrow> ret (Some g)))"

definition update_file :: "nat \<Rightarrow> (release_file \<Rightarrow> release_file) \<Rightarrow> unit svc" where
  "update_file i f = change (\<lambda>d. d\<lparr>db_files := row_update rf_id i f (db_files d)\<rparr>)"

text \<open>Deleting a file row; its statistics go with it.\<close>

definition drop_file :: "nat \<Rightarrow> database \<Rightarrow> database" where
  "drop_file i d = d\<lparr>db_files := row_delete rf_id i (db_files d),
     db_stats := filter (\<lambda>x. ds_release_file_id x \<noteq> i) (db_stats d)\<rparr>"

definition delete_file :: "nat \<Rightarrow> unit svc" where
  "delete_file i = bind (change (drop_file i)) (\<lambda>_. flush)"

section \<open>Frames\<close>

text \<open>Code that only talks to the database.\<close>

definition db_only :: "world \<Rightarrow> world \<Rightarrow> bool" where
  "db_only s t \<longleftrightarrow> t = s\<lparr>w_db := w_db t, w_db_tick := w_db_tick t\<rparr>"

lemma db_onlyD:
  assumes "db_only s t"
  shows "os_fs t = os_fs s" "files t = files s" "os_fault t = os_fault s"
    "os_device t = os_device s" "os_uuid_next t = os_uuid_next s" "os_uuid t = os_uuid s"
    "os_now t = os_now s" "os_tick t = os_tick s" "w_env t = w_env s"
    "w_db_fault t = w_db_fault s" "no_os_faults t = no_os_faults s" "os_disk t = os_disk s"
  using assms unfolding db_only_def files_def no_os_faults_def by (cases s; cases t; simp)+

lemma db_only_refl [simp, intro]: "db_only s s"
  by (simp add: db_only_def)

lemma db_only_trans: "db_only s t \<Longrightarrow> db_only t u \<Longrightarrow> db_only s u"
  by (cases s; cases t; cases u) (simp add: db_only_def)

lemma db_only_updates [simp]:
  "db_only s (s\<lparr>w_db := d\<rparr>)" "db_only s (s\<lparr>w_db_tick := n\<rparr>)"
  "db_only s (t\<lparr>w_db := d\<rparr>) = db_only s t" "db_only s (t\<lparr>w_db_tick := n\<rparr>) = db_only s t"
  by (cases s; cases t; simp add: db_only_def)+

lemma db_only_interfere [simp]: "db_only s (interfere s)"
  by (simp add: interfere_def)

lemma wp_sql_call [wp_simps]:
  "wp sql_call Q E s =
     (if w_db_fault s (w_db_tick s) then E SQLAlchemyError (s\<lparr>w_db_tick := Suc (w_db_tick s)\<rparr>)
      else Q () (s\<lparr>w_db_tick := Suc (w_db_tick s)\<rparr>))"
  by (simp add: wp_def sql_call_def)

text \<open>Tables as other processes may have left them, from tables \<open>d\<close>.\<close>

definition drifted :: "world \<Rightarrow> database \<Rightarrow> database \<Rightarrow> bool" where
  "drifted s d d' \<longleftrightarrow> (\<exists>ns. d' = fold (w_env s) ns d)"

lemma drifted_refl [simp, intro]: "drifted s d d"
  unfolding drifted_def by (rule exI [of _ "[]"]) simp

lemma drifted_trans: "drifted s d d' \<Longrightarrow> drifted s d' d'' \<Longrightarrow> drifted s d d''"
  unfolding drifted_def by (metis comp_apply fold_append)

lemma drifted_interfere [simp, intro]: "drifted s (w_db s) (w_db (interfere s))"
  unfolding drifted_def by (rule exI [of _ "[w_db_tick s]"]) (simp add: interfere_def)

lemma drifted_env: "w_env t = w_env s \<Longrightarrow> drifted t d d' = drifted s d d'"
  by (simp add: drifted_def)

definition quiet :: "world \<Rightarrow> bool" where
  "quiet s \<longleftrightarrow> (\<forall>n d. w_env s n d = d)"

lemma quiet_drifted: "quiet s \<Longrightarrow> drifted s d d' \<longleftrightarrow> d' = d"
proof -
  assume q: "quiet s"
  have "fold (w_env s) ns d = d" for ns
    using q by (induction ns) (auto simp: quiet_def)
  then show ?thesis by (auto simp: drifted_def)
qed

text \<open>No statement fails.\<close>

definition no_db_faults :: "world \<Rightarrow> bool" where
  "no_db_faults s \<longleftrightarrow> (\<forall>n. \<not> w_db_fault s n)"

section \<open>Session rules\<close>

lemma wp_query:
  "wp (query f) (\<lambda>x t. db_only s t \<and> w_db t = w_db s \<and> x = f (w_db s))
     (\<lambda>e t. e = SQLAlchemyError \<and> db_only s t) s"
  by (simp add: query_def wp_simps)

lemma wp_query_simp [wp_simps]:
  "wp (query f) Q E s =
     (if w_db_fault s (w_db_tick s) then E SQLAlchemyError (s\<lparr>w_db_tick := Suc (w_db_tick s)\<rparr>)
      else Q (f (w_db s)) (s\<lparr>w_db_tick := Suc (w_db_tick s)\<rparr>))"
  by (simp add: query_def wp_simps)

lemma wp_change [wp_simps]: "wp (change f) Q E s = Q () (s\<lparr>w_db := f (w_db s)\<rparr>)"
  by (simp add: change_def wp_simps)

lemma wp_flush [wp_simps]:
  "wp flush Q E s =
     (if w_db_fault s (w_db_tick s) then E SQLAlchemyError (s\<lparr>w_db_tick := Suc (w_db_tick s)\<rparr>)
      else if db_constraints (w_db s) then Q () (s\<lparr>w_db_tick := Suc (w_db_tick s)\<rparr>)
      else E IntegrityError (s\<lparr>w_db_tick := Suc (w_db_tick s)\<rparr>))"
  by (simp add: flush_def wp_simps)

lemma wp_transaction_iff:
  "wp (transaction m) Q E s =
     wp (bind m (\<lambda>x. bind flush (\<lambda>_. bind sql_call (\<lambda>_. ret x)))) Q
       (\<lambda>e t. E e (t\<lparr>w_db := w_db (interfere s)\<rparr>)) (interfere s)"
  by (simp add: wp_def transaction_def split: prod.splits sum.splits)

lemma wp_read_session_iff:
  "wp (read_session m) Q E s =
     wp m (\<lambda>x t. Q x (t\<lparr>w_db := w_db (interfere s)\<rparr>))
       (\<lambda>e t. E e (t\<lparr>w_db := w_db (interfere s)\<rparr>)) (interfere s)"
  by (simp add: wp_def read_session_def split: prod.splits sum.splits)

text \<open>
  The rule for a service's unit of work: from a specification of its body as a relation
  between the tables before and after, the transaction either commits such a change with
  all constraints satisfied, or leaves the tables as it found them.
\<close>

lemma wp_transaction:
  assumes body: "\<And>s'. db_only s s' \<Longrightarrow>
      wp m (\<lambda>x t. db_only s' t \<and> P x (w_db s') (w_db t)) (\<lambda>e t. X e (w_db s') \<and> db_only s' t) s'"
    and sql: "\<And>d e. is_sqlalchemy_error e \<Longrightarrow> X e d"
  shows "wp (transaction m)
     (\<lambda>x t. db_only s t \<and> (\<exists>d. drifted s (w_db s) d \<and> P x d (w_db t)) \<and> db_constraints (w_db t))
     (\<lambda>e t. db_only s t \<and> drifted s (w_db s) (w_db t) \<and> X e (w_db t)) s"
  unfolding wp_transaction_iff
proof (rule wp_bind_spec [OF body [OF db_only_interfere]], goal_cases)
  case (1 x t)
  then have *: "db_only s t" "P x (w_db (interfere s)) (w_db t)"
    using db_only_trans [OF db_only_interfere] by auto
  then show ?case
    using drifted_interfere [of s] by (auto simp: wp_simps is_sqlalchemy_error_def intro!: sql)
next
  case (2 e t)
  then show ?case using db_only_trans [OF db_only_interfere] by auto
qed

lemma wp_read_session:
  assumes body: "\<And>s'. db_only s s' \<Longrightarrow>
      wp m (\<lambda>x t. db_only s' t \<and> P x (w_db s')) (\<lambda>e t. X e (w_db s') \<and> db_only s' t) s'"
  shows "wp (read_session m)
     (\<lambda>x t. db_only s t \<and> drifted s (w_db s) (w_db t) \<and> P x (w_db t))
     (\<lambda>e t. db_only s t \<and> drifted s (w_db s) (w_db t) \<and> X e (w_db t)) s"
  unfolding wp_read_session_iff
  by (rule wp_mono [OF body [OF db_only_interfere]])
    (auto intro: db_only_trans [OF db_only_interfere])

text \<open>
  The same rule for an operation whose checks make it safe: from tables that satisfy \<open>I\<close>, the
  body ends with the constraints satisfied, so the commit raises no \<open>IntegrityError\<close>.
\<close>

lemma wp_transaction_safe:
  assumes I: "\<And>d. drifted s (w_db s) d \<Longrightarrow> I d"
    and body: "\<And>s'. db_only s s' \<Longrightarrow> I (w_db s') \<Longrightarrow>
      wp m (\<lambda>x t. db_only s' t \<and> P x (w_db s') (w_db t) \<and> db_constraints (w_db t))
         (\<lambda>e t. X e \<and> db_only s' t) s'"
    and sql: "X SQLAlchemyError"
  shows "wp (transaction m)
     (\<lambda>x t. db_only s t \<and> (\<exists>d. drifted s (w_db s) d \<and> P x d (w_db t)) \<and> db_constraints (w_db t))
     (\<lambda>e t. db_only s t \<and> drifted s (w_db s) (w_db t) \<and> X e) s"
  unfolding wp_transaction_iff
proof (rule wp_bind_spec [OF body [OF db_only_interfere I [OF drifted_interfere]]], goal_cases)
  case (1 x t)
  then have *: "db_only s t" "P x (w_db (interfere s)) (w_db t)" "db_constraints (w_db t)"
    using db_only_trans [OF db_only_interfere] by auto
  then show ?case
    using drifted_interfere [of s] sql by (auto simp: wp_simps)
next
  case (2 e t)
  then show ?case using db_only_trans [OF db_only_interfere] by auto
qed

definition graph_at :: "database \<Rightarrow> nat \<Rightarrow> release_file \<Rightarrow> release \<Rightarrow> software \<Rightarrow> bool" where
  "graph_at d i f r w \<longleftrightarrow> row_get rf_id i (db_files d) = Some f
     \<and> row_get rel_id (rf_release_id f) (db_releases d) = Some r
     \<and> row_get sw_id (rel_software_id r) (db_softwares d) = Some w"

lemma graph_of_Some: "graph_of d f = Some g \<longleftrightarrow> (\<exists>r w. g = (f, r, w)
    \<and> row_get rel_id (rf_release_id f) (db_releases d) = Some r
    \<and> row_get sw_id (rel_software_id r) (db_softwares d) = Some w)"
  by (auto simp: graph_of_def split: option.splits)

lemma wp_file_with_graph:
  "wp (file_with_graph i)
     (\<lambda>g t. db_only s t \<and> w_db t = w_db s
        \<and> (case g of None \<Rightarrow> row_get rf_id i (db_files (w_db s)) = None
           | Some (f, r, w) \<Rightarrow> graph_at (w_db s) i f r w))
     (\<lambda>e t. db_only s t \<and> \<not> is_application_error e) s"
  by (auto simp: file_with_graph_def wp_simps graph_at_def graph_of_Some split: option.splits)

end
