(* ===== verification/AuditTrail.thy ===== *)
theory AuditTrail
  imports Database
begin

text \<open>
  \<open>app/services/audit_service.py\<close> and the key test of \<open>app/core/logging.py\<close>: what a
  service may write into the audit log, and appending a row inside the caller's transaction.
\<close>

section \<open>Sanitizing metadata\<close>

text \<open>A Python value offered as metadata.\<close>

datatype py_value =
    PNone | PBool bool | PInt int | PFloat "64 word" | PStr str
  | PSequence "py_value list" | PMapping | PBytes | PObject

definition allowed_metadata_keys :: "str list" where
  "allowed_metadata_keys = map py
     [''backup_id'', ''changed'', ''checksum_verified'', ''cleared_count'', ''current'',
      ''deleted_count'', ''duplicate_count'', ''file_count'', ''total_bytes'',
      ''retention_deleted_count'', ''orphan_count'', ''mismatch_count'', ''verified_count'',
      ''dry_run'', ''file_extension'', ''file_size_bytes'', ''from'', ''initial_status'',
      ''physical_file_preserved'', ''reason'', ''release_id'', ''revoked_count'',
      ''scanner_status'', ''signature_assessment'', ''slug'', ''software_id'',
      ''storage_area'', ''to'', ''username_hash'', ''version'']"

definition max_metadata_items :: nat where "max_metadata_items = 24"
definition max_metadata_string_length :: nat where "max_metadata_string_length = 256"
definition max_metadata_sequence_length :: nat where "max_metadata_sequence_length = 20"

definition sensitive_key_fragments :: "str list" where
  "sensitive_key_fragments = map py
     [''authorization'', ''cookie'', ''csrf'', ''password'', ''secret'', ''session'', ''token'']"

definition is_sensitive_key :: "unicode \<Rightarrow> str \<Rightarrow> bool" where
  "is_sensitive_key u key =
     (let normalized = map (\<lambda>c. if c = 45 then 95 else c) (lower u key) in
      list_ex (\<lambda>fragment. contains_text fragment normalized) sensitive_key_fragments)"

text \<open>\<open>math.isfinite\<close>: the exponent bits are not all ones.\<close>

definition is_finite_double :: "64 word \<Rightarrow> bool" where
  "is_finite_double x = (take_bit 11 (drop_bit 52 x) \<noteq> 2047)"

text \<open>\<open>None\<close> stands for \<open>_UNSUPPORTED\<close>.\<close>

fun safe_scalar :: "py_value \<Rightarrow> json option" where
  "safe_scalar PNone = Some JNull"
| "safe_scalar (PBool b) = Some (JBool b)"
| "safe_scalar (PInt i) = Some (JInt i)"
| "safe_scalar (PFloat x) = (if is_finite_double x then Some (JFloat x) else None)"
| "safe_scalar (PStr s) = Some (JStr (take max_metadata_string_length s))"
| "safe_scalar _ = None"

fun safe_value :: "py_value \<Rightarrow> json option" where
  "safe_value PMapping = None"
| "safe_value PBytes = None"
| "safe_value (PSequence xs) =
     Some (JList (List.map_filter safe_scalar (take max_metadata_sequence_length xs)))"
| "safe_value v = safe_scalar v"

text \<open>\<open>d[k] = v\<close> on a dict in insertion order.\<close>

fun dict_set :: "'k \<Rightarrow> 'v \<Rightarrow> ('k \<times> 'v) list \<Rightarrow> ('k \<times> 'v) list" where
  "dict_set k v [] = [(k, v)]"
| "dict_set k v ((k', v') # d) = (if k' = k then (k, v) # d else (k', v') # dict_set k v d)"

fun sanitize_items ::
  "unicode \<Rightarrow> (str \<times> py_value) list \<Rightarrow> (str \<times> json) list \<Rightarrow> (str \<times> json) list" where
  "sanitize_items u [] cleaned = cleaned"
| "sanitize_items u ((key, v) # rest) cleaned =
     (let normalized = casefold u (strip key) in
      if length cleaned \<ge> max_metadata_items then cleaned
      else if normalized \<notin> set allowed_metadata_keys \<or> is_sensitive_key u normalized
      then sanitize_items u rest cleaned
      else
        case safe_value v of
          None \<Rightarrow> sanitize_items u rest cleaned
        | Some j \<Rightarrow> sanitize_items u rest (dict_set normalized j cleaned))"

definition sanitize_audit_metadata :: "unicode \<Rightarrow> (str \<times> py_value) list \<Rightarrow> (str \<times> json) list" where
  "sanitize_audit_metadata u metadata = sanitize_items u metadata []"

section \<open>Appending\<close>

record audit_context =
  ctx_user_id :: nat
  ctx_request_id :: "str option"
  ctx_ip_hash :: "str option"

text \<open>\<open>BaseRepository.add\<close> on the audit table: the row, then a flush.\<close>

definition append_audit_event ::
  "unicode \<Rightarrow> audit_action \<Rightarrow> audit_result \<Rightarrow> nat option \<Rightarrow> str option \<Rightarrow> str option \<Rightarrow>
   str option \<Rightarrow> str option \<Rightarrow> (str \<times> py_value) list \<Rightarrow> unit svc" where
  "append_audit_event u action result uid entity_type entity_id request_id ip_hash metadata =
     bind utc_now (\<lambda>now.
     bind (change (\<lambda>d. d\<lparr>db_audits := row_add aud_id with_aud_id
       \<lparr>aud_id = 0, aud_user_id = uid, aud_action = action, aud_entity_type = entity_type,
        aud_entity_id = entity_id, aud_result = result, aud_timestamp = now,
        aud_safe_metadata = sanitize_audit_metadata u metadata,
        aud_request_id = request_id, aud_ip_hash = ip_hash\<rparr> (db_audits d)\<rparr>)) (\<lambda>_.
     flush))"

definition append_context_audit_event ::
  "unicode \<Rightarrow> audit_context option \<Rightarrow> audit_action \<Rightarrow> str \<Rightarrow> str \<Rightarrow> (str \<times> py_value) list \<Rightarrow> unit svc" where
  "append_context_audit_event u context action entity_type entity_id metadata =
     (case context of
        None \<Rightarrow> ret ()
      | Some c \<Rightarrow> append_audit_event u action AuditSuccess (Some (ctx_user_id c)) (Some entity_type)
          (Some entity_id) (ctx_request_id c) (ctx_ip_hash c) metadata)"

text \<open>\<open>str(entity_id)\<close>\<close>

definition entity_id :: "nat \<Rightarrow> str" where
  "entity_id i = digits_of i"

section \<open>What is stored\<close>

text \<open>A value bounded as the log requires.\<close>

fun bounded_scalar :: "json \<Rightarrow> bool" where
  "bounded_scalar (JStr s) = (length s \<le> max_metadata_string_length)"
| "bounded_scalar (JFloat x) = is_finite_double x"
| "bounded_scalar (JList _) = False"
| "bounded_scalar _ = True"

fun bounded_value :: "json \<Rightarrow> bool" where
  "bounded_value (JList xs) = (length xs \<le> max_metadata_sequence_length \<and> list_all bounded_scalar xs)"
| "bounded_value v = bounded_scalar v"

definition clean_metadata :: "unicode \<Rightarrow> (str \<times> json) list \<Rightarrow> bool" where
  "clean_metadata u m \<longleftrightarrow> distinct (map fst m) \<and> length m \<le> max_metadata_items
     \<and> list_all (\<lambda>(k, v). k \<in> set allowed_metadata_keys \<and> \<not> is_sensitive_key u k
          \<and> bounded_value v) m"

lemma safe_scalar_bounded: "safe_scalar v = Some j \<Longrightarrow> bounded_scalar j"
  by (induction v rule: safe_scalar.induct) (auto split: if_splits)

lemma bounded_scalar_value: "bounded_scalar j \<Longrightarrow> bounded_value j"
  by (cases j) auto

lemma length_map_filter: "length (List.map_filter f xs) \<le> length xs"
  by (induction xs) (auto simp: List.map_filter_simps split: option.splits)

lemma safe_value_bounded: "safe_value v = Some j \<Longrightarrow> bounded_value j"
proof (cases v)
  case (PSequence xs)
  assume "safe_value v = Some j"
  then have j: "j = JList (List.map_filter safe_scalar (take max_metadata_sequence_length xs))"
    using PSequence by simp
  have "length (List.map_filter safe_scalar (take max_metadata_sequence_length xs))
      \<le> max_metadata_sequence_length"
    using length_map_filter [of safe_scalar "take max_metadata_sequence_length xs"] by simp
  then show ?thesis
    by (auto simp: j list_all_iff List.map_filter_def dest: safe_scalar_bounded)
qed (auto intro!: bounded_scalar_value split: if_splits)

lemma dict_set_keys: "fst ` set (dict_set k v d) = insert k (fst ` set d)"
  by (induction k v d rule: dict_set.induct) (simp_all add: insert_commute)

lemma dict_set_set: "set (dict_set k v d) \<subseteq> insert (k, v) (set d)"
  by (induction k v d rule: dict_set.induct) (simp_all, blast)

lemma dict_set_distinct: "distinct (map fst d) \<Longrightarrow> distinct (map fst (dict_set k v d))"
  by (induction k v d rule: dict_set.induct) (auto simp: dict_set_keys simp flip: image_set)

lemma dict_set_length: "length (dict_set k v d) \<le> Suc (length d)"
  by (induction d) auto

lemma sanitize_items_clean: "clean_metadata u cleaned \<Longrightarrow> clean_metadata u (sanitize_items u ms cleaned)"
proof (induction u ms cleaned rule: sanitize_items.induct)
  case (1 u cleaned)
  then show ?case by simp
next
  case (2 u key v rest cleaned)
  let ?k = "casefold u (strip key)"
  have step: "clean_metadata u (dict_set ?k j cleaned)"
    if "\<not> length cleaned \<ge> max_metadata_items" "?k \<in> set allowed_metadata_keys"
      "\<not> is_sensitive_key u ?k" "safe_value v = Some j" for j
    using that 2(4) dict_set_distinct [of cleaned ?k j] dict_set_length [of ?k j cleaned]
      dict_set_set [of ?k j cleaned] safe_value_bounded [of v j]
    by (fastforce simp: clean_metadata_def list_all_iff)
  show ?case
    using 2 step by (auto simp: Let_def split: option.splits)
qed

lemma sanitize_clean: "clean_metadata u (sanitize_audit_metadata u m)"
  unfolding sanitize_audit_metadata_def
  by (rule sanitize_items_clean) (simp add: clean_metadata_def)

text \<open>What appending does to the tables: at most one more audit row.\<close>

definition audited :: "unicode \<Rightarrow> audit_context option \<Rightarrow> audit_action \<Rightarrow> database \<Rightarrow> database \<Rightarrow> bool" where
  "audited u context action d d' \<longleftrightarrow>
     (case context of
        None \<Rightarrow> d' = d
      | Some c \<Rightarrow> (\<exists>a. d' = d\<lparr>db_audits := db_audits d @ [a]\<rparr> \<and> aud_action a = action
          \<and> aud_user_id a = Some (ctx_user_id c) \<and> clean_metadata u (aud_safe_metadata a)))"

lemma auditedD:
  assumes "audited u context action d d'"
  shows "db_users d' = db_users d" "db_sessions d' = db_sessions d"
    "db_categories d' = db_categories d" "db_tags d' = db_tags d"
    "db_software_tags d' = db_software_tags d" "db_softwares d' = db_softwares d"
    "db_releases d' = db_releases d" "db_files d' = db_files d" "db_stats d' = db_stats d"
    "set (db_audits d) \<subseteq> set (db_audits d')"
  using assms by (auto simp: audited_def split: option.splits)

lemma wp_append_context_audit_event:
  "wp (append_context_audit_event u context action et ei m)
     (\<lambda>_ t. db_only s t \<and> audited u context action (w_db s) (w_db t))
     (\<lambda>e t. is_sqlalchemy_error e \<and> db_only s t) s"
  by (auto simp: append_context_audit_event_def append_audit_event_def wp_simps audited_def
    row_add_def with_aud_id_def sanitize_clean is_sqlalchemy_error_def split: option.splits)

lemma wp_append_audit_event:
  "wp (append_audit_event u action result user et ei rid ip m)
     (\<lambda>_ t. db_only s t \<and> (\<exists>a. w_db t = (w_db s)\<lparr>db_audits := db_audits (w_db s) @ [a]\<rparr>
        \<and> aud_action a = action \<and> aud_result a = result \<and> aud_user_id a = user
        \<and> clean_metadata u (aud_safe_metadata a)))
     (\<lambda>e t. is_sqlalchemy_error e \<and> db_only s t) s"
  by (auto simp: append_audit_event_def wp_simps
    row_add_def with_aud_id_def sanitize_clean is_sqlalchemy_error_def)

text \<open>
  When the acting user exists, appending cannot violate a constraint: the only error left is
  a statement that fails.
\<close>

definition audit_user_ok :: "audit_context option \<Rightarrow> database \<Rightarrow> bool" where
  "audit_user_ok context d \<longleftrightarrow>
     (case context of None \<Rightarrow> True | Some c \<Rightarrow> ctx_user_id c \<in> set (map user_id (db_users d)))"

lemma constraints_add_audit:
  assumes "db_constraints d" and "refers_opt (map user_id (db_users d)) (aud_user_id a)"
  shows "db_constraints (d\<lparr>db_audits := row_add aud_id with_aud_id a (db_audits d)\<rparr>)"
  using assms audit_table.distinct_added [of "db_audits d" a]
  by (auto simp: db_constraints_def users_ok_def sessions_ok_def categories_ok_def tags_ok_def
      software_tags_ok_def softwares_ok_def releases_ok_def files_ok_def stats_ok_def
      audits_ok_def audit_table.set_added list_all_iff with_aud_id_def)

lemma wp_append_context_safe:
  assumes "db_constraints (w_db s)" and "audit_user_ok ctx (w_db s)"
  shows "wp (append_context_audit_event u ctx action et ei m)
     (\<lambda>_ t. db_only s t \<and> audited u ctx action (w_db s) (w_db t) \<and> db_constraints (w_db t))
     (\<lambda>e t. e = SQLAlchemyError \<and> db_only s t) s"
proof (cases ctx)
  case None
  then show ?thesis using assms by (simp add: append_context_audit_event_def wp_simps audited_def)
next
  case (Some c)
  then have "refers (map user_id (db_users (w_db s))) (ctx_user_id c)"
    using assms(2) by (simp add: audit_user_ok_def refers_def)
  then show ?thesis
    using Some assms(1)
    by (auto simp: append_context_audit_event_def append_audit_event_def wp_simps audited_def
        sanitize_clean constraints_add_audit)
      (auto simp: row_add_def with_aud_id_def sanitize_clean)
qed

end
