(* ===== verification/Paths.thy ===== *)
theory Paths
  imports FileSystem
begin

text \<open>
  \<open>app/storage/paths.py\<close>: the storage layout, the check of relative paths, containment
  below a root, and the creation of private parent directories. A relative path is kept as
  the string the code holds; \<open>pure_parts\<close> is \<open>PurePosixPath(raw).parts\<close>.
\<close>

definition slash :: nat where "slash = 47"
definition backslash :: nat where "backslash = 92"

definition storage_directory_mode :: nat where "storage_directory_mode = 488"
definition storage_file_mode :: nat where "storage_file_mode = 416"

record storage_paths =
  sp_root :: path
  sp_software :: path
  sp_icons :: path
  sp_imports :: path
  sp_temporary :: path
  sp_quarantine :: path
  sp_backups :: path

definition pure_parts :: "str \<Rightarrow> path" where
  "pure_parts raw = filter (\<lambda>p. p \<noteq> [] \<and> p \<noteq> dot) (split_on slash raw)"

definition is_absolute :: "str \<Rightarrow> bool" where
  "is_absolute raw = starts_with [slash] raw"

text \<open>\<open>PurePosixPath(raw).as_posix()\<close>; exactly two leading slashes are kept.\<close>

definition as_posix :: "str \<Rightarrow> str" where
  "as_posix raw =
     (let anchor =
        (if starts_with [slash, slash] raw \<and> \<not> starts_with [slash, slash, slash] raw
         then [slash, slash]
         else if is_absolute raw then [slash] else []);
        s = anchor @ join_on slash (pure_parts raw)
      in if s = [] then dot else s)"

definition unsafe_part :: "str \<Rightarrow> bool" where
  "unsafe_part p = (p = [] \<or> p = dot \<or> p = dotdot)"

definition reject_unsafe_relative_path :: "str \<Rightarrow> exn + path" where
  "reject_unsafe_relative_path raw =
     (if raw = [] \<or> 0 \<in> set raw \<or> backslash \<in> set raw then Inl StorageError
      else if list_ex unsafe_part (split_on slash raw) then Inl StorageError
      else if is_absolute raw \<or> list_ex unsafe_part (pure_parts raw) then Inl StorageError
      else Inr (pure_parts raw))"

definition reject_symlinks_below :: "path \<Rightarrow> path \<Rightarrow> ('z os_scheme, unit) eff" where
  "reject_symlinks_below root parts =
     for_each (prefixes_from root parts) (\<lambda>current.
       bind (gets os_fs) (\<lambda>f. raise_if (is_symlink f current) StorageError))"

definition safe_resolve :: "path \<Rightarrow> str \<Rightarrow> bool \<Rightarrow> bool \<Rightarrow> ('z os_scheme, path) eff" where
  "safe_resolve root raw require_exists reject_symlinks =
     bind (os_error_as StorageError (sys_resolve True root)) (\<lambda>resolved_root.
     bind (lift_result (reject_unsafe_relative_path raw)) (\<lambda>relative.
     bind (if reject_symlinks then reject_symlinks_below resolved_root relative else ret ()) (\<lambda>_.
     bind (os_error_as StorageError (sys_resolve require_exists (resolved_root @ relative)))
       (\<lambda>resolved.
        if resolved = resolved_root \<or> \<not> starts_with resolved_root resolved
        then throw StorageError
        else ret resolved))))"

definition relative_to_root :: "path \<Rightarrow> path \<Rightarrow> ('z os_scheme, path) eff" where
  "relative_to_root p root =
     bind (os_error_as StorageError (sys_resolve True root)) (\<lambda>resolved_root.
     bind (os_error_as StorageError (sys_resolve False p)) (\<lambda>resolved.
        if resolved = resolved_root \<or> \<not> starts_with resolved_root resolved
        then throw StorageError
        else ret (drop (length resolved_root) resolved)))"

text \<open>
  \<open>ensure_private_parent\<close>: the loop over the parent's components, each resolved below the
  root without links, created and made private.
\<close>

definition private_parent_step :: "path \<Rightarrow> path \<Rightarrow> path \<Rightarrow> ('z os_scheme, path) eff" where
  "private_parent_step root current_relative _ =
     bind (safe_resolve root (join_on slash current_relative) False True) (\<lambda>current.
     bind (gets os_fs) (\<lambda>f.
     bind (raise_if (path_exists f current \<and> is_symlink f current) StorageError) (\<lambda>_.
     bind (os_error_as StorageError
             (bind (sys_mkdir current storage_directory_mode) (\<lambda>_.
              sys_chmod current storage_directory_mode))) (\<lambda>_.
     bind (gets os_fs) (\<lambda>g.
       if \<not> is_dir g current \<or> is_symlink g current then throw StorageError
       else ret current)))))"

definition ensure_private_parent :: "path \<Rightarrow> str \<Rightarrow> ('z os_scheme, path) eff" where
  "ensure_private_parent root raw =
     bind (lift_result (reject_unsafe_relative_path raw)) (\<lambda>relative.
       if butlast relative = [] then sys_resolve True root
       else
         bind (sys_resolve True root) (\<lambda>start.
           fold_eff (private_parent_step root) (prefixes_from [] (butlast relative)) start))"

section \<open>Relative paths\<close>

definition safe_relative :: "str \<Rightarrow> path \<Rightarrow> bool" where
  "safe_relative raw parts \<longleftrightarrow> reject_unsafe_relative_path raw = Inr parts"

lemma pure_parts_safe:
  "\<not> list_ex unsafe_part (split_on slash raw) \<Longrightarrow> pure_parts raw = split_on slash raw"
  by (auto simp: pure_parts_def list_ex_iff unsafe_part_def intro: filter_True)

lemma safe_relativeD:
  assumes "safe_relative raw parts"
  shows "parts = split_on slash raw" "parts \<noteq> []" "\<not> list_ex unsafe_part parts"
    "join_on slash parts = raw" "raw \<noteq> []" "0 \<notin> set raw" "backslash \<notin> set raw"
  using assms unfolding safe_relative_def reject_unsafe_relative_path_def
  by (auto simp: pure_parts_safe split: if_splits)

lemma reject_unsafe_error: "reject_unsafe_relative_path raw = Inl e \<Longrightarrow> e = StorageError"
  by (auto simp: reject_unsafe_relative_path_def split: if_splits)

lemma safe_relative_prefix:
  assumes "safe_relative raw (ys @ zs)" and "ys \<noteq> []"
  shows "safe_relative (join_on slash ys) ys"
proof -
  note p = safe_relativeD [OF assms(1)]
  have sub: "set ys \<subseteq> set (split_on slash raw)" using p(1) by (metis Un_upper1 set_append)
  then have free: "slash \<notin> set y" if "y \<in> set ys" for y
    using that split_on_parts by (metis subsetD)
  have s: "split_on slash (join_on slash ys) = ys"
    using assms(2) free by (rule split_join_on)
  have ok: "\<not> list_ex unsafe_part ys" using p(3) by simp
  have chars: "set (join_on slash ws) \<subseteq> insert slash (\<Union> (set ` set ws))" for ws :: "str list"
    by (induction "slash" ws rule: join_on.induct) auto
  have "set y \<subseteq> set raw" if "y \<in> set ys" for y
    using that sub split_on_chars by (metis subsetD)
  with chars [of ys] have "set (join_on slash ys) \<subseteq> insert slash (set raw)" by blast
  with p(6,7) have "0 \<notin> set (join_on slash ys)" "backslash \<notin> set (join_on slash ys)"
    by (auto simp: slash_def backslash_def)
  moreover have "join_on slash ys \<noteq> []"
  proof
    assume "join_on slash ys = []"
    with s have "ys = [[]]" by simp
    with ok show False by (simp add: unsafe_part_def)
  qed
  moreover have "\<not> is_absolute (join_on slash ys)"
  proof
    assume "is_absolute (join_on slash ys)"
    then obtain t where "join_on slash ys = slash # t"
      by (auto simp: is_absolute_def starts_with_iff)
    with s have "[] \<in> set ys" by auto
    with ok show False by (auto simp: list_ex_iff unsafe_part_def)
  qed
  ultimately show ?thesis
    using s ok unfolding safe_relative_def reject_unsafe_relative_path_def
    by (simp add: pure_parts_safe)
qed

section \<open>Resolution without links\<close>

definition clean_part :: "str \<Rightarrow> bool" where
  "clean_part c = (c \<noteq> dot \<and> c \<noteq> dotdot)"

text \<open>No component of \<open>cs\<close> below \<open>d\<close> is a link.\<close>

definition link_free :: "fs \<Rightarrow> path \<Rightarrow> path \<Rightarrow> bool" where
  "link_free f d cs \<longleftrightarrow> list_all (\<lambda>p. \<not> is_symlink f p) (prefixes_from d cs)"

definition all_present :: "fs \<Rightarrow> path \<Rightarrow> path \<Rightarrow> bool" where
  "all_present f d cs \<longleftrightarrow> list_all (\<lambda>p. f p \<noteq> None) (prefixes_from d cs)"

lemma not_symlink_cases:
  "\<not> is_symlink f p \<Longrightarrow> f p = Some n \<Longrightarrow> (case n of Link a t \<Rightarrow> False | _ \<Rightarrow> True)"
  by (cases n) (auto simp: is_symlink_def)

lemma real_from_link_free:
  assumes "link_free f d cs" and "list_all clean_part cs"
  shows "real_from strict f n d cs =
    (if strict \<and> \<not> all_present f d cs then None else Some (d @ cs))"
  using assms
proof (induction cs arbitrary: d)
  case Nil
  then show ?case by (simp add: all_present_def)
next
  case (Cons c cs)
  have "\<not> is_symlink f (d @ [c])" and lf: "link_free f (d @ [c]) cs"
    using Cons.prems(1) by (simp_all add: link_free_def)
  moreover have "c \<noteq> dot" "c \<noteq> dotdot" "list_all clean_part cs"
    using Cons.prems(2) by (simp_all add: clean_part_def list_all_iff)
  moreover have "real_from strict f n (d @ [c]) cs =
      (if strict \<and> \<not> all_present f (d @ [c]) cs then None else Some ((d @ [c]) @ cs))"
    using lf \<open>list_all clean_part cs\<close> by (rule Cons.IH)
  ultimately show ?case
    by (auto simp: all_present_def is_symlink_def split: option.splits node.splits)
qed

lemma link_free_append: "link_free f d (xs @ ys) \<longleftrightarrow> link_free f d xs \<and> link_free f (d @ xs) ys"
  by (induction xs arbitrary: d) (auto simp: link_free_def)

lemma all_present_append:
  "all_present f d (xs @ ys) \<longleftrightarrow> all_present f d xs \<and> all_present f (d @ xs) ys"
  by (induction xs arbitrary: d) (auto simp: all_present_def)

section \<open>Sound roots\<close>

text \<open>
  A configured root is sound in a tree when it and everything above it are real
  directories and no link lies below it; start-up establishes this
  (\<open>ensure_private_directory\<close>) and every storage operation keeps it.
\<close>

definition no_links_under :: "fs \<Rightarrow> path \<Rightarrow> bool" where
  "no_links_under f r \<longleftrightarrow> (\<forall>p. is_symlink f p \<longrightarrow> \<not> starts_with r p)"

definition real_dirs :: "fs \<Rightarrow> path \<Rightarrow> bool" where
  "real_dirs f r \<longleftrightarrow> list_all (\<lambda>p. \<exists>m. f p = Some (Dir m)) ([] # prefixes_from [] r)"

definition root_ok :: "fs \<Rightarrow> path \<Rightarrow> bool" where
  "root_ok f r \<longleftrightarrow> real_dirs f r \<and> list_all clean_part r \<and> no_links_under f r"

text \<open>Every entry lies in a directory.\<close>

definition tree_ok :: "fs \<Rightarrow> bool" where
  "tree_ok f \<longleftrightarrow> (\<forall>p c. f (p @ [c]) \<noteq> None \<longrightarrow> (\<exists>m. f p = Some (Dir m)))"

text \<open>What the storage operations do to the tree: links are not made, directories stay.\<close>

definition tree_grows :: "fs \<Rightarrow> fs \<Rightarrow> bool" where
  "tree_grows f g \<longleftrightarrow> (\<forall>p. is_symlink g p \<longrightarrow> is_symlink f p)
     \<and> (\<forall>p m. f p = Some (Dir m) \<longrightarrow> (\<exists>k. g p = Some (Dir k)))"

lemma tree_grows_refl [simp, intro]: "tree_grows f f"
  by (auto simp: tree_grows_def)

lemma tree_grows_trans: "tree_grows f g \<Longrightarrow> tree_grows g h \<Longrightarrow> tree_grows f h"
  unfolding tree_grows_def by blast

lemma root_ok_grows: "root_ok f r \<Longrightarrow> tree_grows f g \<Longrightarrow> root_ok g r"
  unfolding root_ok_def tree_grows_def real_dirs_def no_links_under_def list_all_iff by blast

lemma tree_grows_chmod: "f p = Some n \<Longrightarrow> tree_grows f (f(p \<mapsto> set_mode m n))"
  by (cases n) (auto simp: tree_grows_def is_symlink_def)

lemma tree_grows_mkdir: "f p = None \<Longrightarrow> tree_grows f (f(p \<mapsto> Dir m))"
  by (auto simp: tree_grows_def is_symlink_def)

lemma tree_grows_remove: "f p = Some (File b m t) \<Longrightarrow> tree_grows f (f(p := None))"
  by (auto simp: tree_grows_def is_symlink_def)

lemma tree_grows_rename:
  "f p = Some (File b m t) \<Longrightarrow> f q = None \<Longrightarrow> tree_grows f (f(p := None, q \<mapsto> File b m t))"
  by (auto simp: tree_grows_def is_symlink_def)

lemma tree_ok_chmod:
  assumes "tree_ok f" and "f p = Some n"
  shows "tree_ok (f(p \<mapsto> set_mode m n))"
  unfolding tree_ok_def
proof (intro allI impI)
  fix q c assume "(f(p \<mapsto> set_mode m n)) (q @ [c]) \<noteq> None"
  then have "f (q @ [c]) \<noteq> None" using assms(2) by (auto split: if_splits)
  then obtain k where "f q = Some (Dir k)" using assms(1) unfolding tree_ok_def by blast
  then show "\<exists>k. (f(p \<mapsto> set_mode m n)) q = Some (Dir k)" using assms(2) by auto
qed

lemma tree_ok_mkdir:
  assumes "tree_ok f" and "f p = None" and "f (butlast p) = Some (Dir k)"
  shows "tree_ok (f(p \<mapsto> Dir m))"
  unfolding tree_ok_def
proof (intro allI impI)
  fix q c assume "(f(p \<mapsto> Dir m)) (q @ [c]) \<noteq> None"
  then consider "q @ [c] = p" | "f (q @ [c]) \<noteq> None" by (auto split: if_splits)
  then show "\<exists>k. (f(p \<mapsto> Dir m)) q = Some (Dir k)"
  proof cases
    case 1
    then have "butlast p = q" "p \<noteq> q" by auto
    with assms(3) show ?thesis by simp
  next
    case 2
    with assms(1) show ?thesis unfolding tree_ok_def by auto
  qed
qed

lemma tree_ok_remove:
  "tree_ok f \<Longrightarrow> f p = Some (File b m t) \<Longrightarrow> tree_ok (f(p := None))"
  unfolding tree_ok_def by (metis fun_upd_apply node.distinct(1) option.inject)

lemma tree_ok_create:
  assumes "tree_ok f" and "f p = None" and "f (butlast p) = Some (Dir k)" and "p \<noteq> []"
  shows "tree_ok (f(p \<mapsto> File b m t))"
  unfolding tree_ok_def
proof (intro allI impI)
  fix q c assume q: "(f(p \<mapsto> File b m t)) (q @ [c]) \<noteq> None"
  show "\<exists>k. (f(p \<mapsto> File b m t)) q = Some (Dir k)"
  proof (cases "q @ [c] = p")
    case True
    then have "butlast p = q" "p \<noteq> q" by auto
    with assms(3) show ?thesis by simp
  next
    case False
    with q have "f (q @ [c]) \<noteq> None" by (auto split: if_splits)
    then obtain k where "f q = Some (Dir k)" using assms(1) unfolding tree_ok_def by blast
    with assms(2) show ?thesis by auto
  qed
qed

lemma tree_ok_rename:
  assumes "tree_ok f" and "f p = Some (File b m t)" and "f q = None"
    and "f (butlast q) = Some (Dir k)" and "q \<noteq> []"
  shows "tree_ok (f(p := None, q \<mapsto> File b m t))"
proof -
  have "tree_ok (f(p := None))" using assms(1,2) by (rule tree_ok_remove)
  moreover have "butlast q \<noteq> p" using assms(2,4) by auto
  ultimately show ?thesis
    using tree_ok_create [of "f(p := None)" q k b m t] assms(3,4,5) by simp
qed

lemma tree_ok_prefix_present:
  assumes "tree_ok f" and "f (d @ cs) \<noteq> None"
  shows "all_present f d cs"
  using assms(2)
proof (induction cs arbitrary: d)
  case Nil
  then show ?case by (simp add: all_present_def)
next
  case (Cons c cs)
  then have "all_present f (d @ [c]) cs" by simp
  moreover have "f (d @ [c]) \<noteq> None"
  proof (cases cs)
    case Nil
    with Cons.prems show ?thesis by simp
  next
    case (Cons x xs)
    have up: "f (p @ zs) \<noteq> None \<Longrightarrow> f p \<noteq> None" for p zs
    proof (induction zs rule: rev_induct)
      case (snoc z zs)
      then show ?case
        using assms(1) unfolding tree_ok_def by (metis append_assoc option.distinct(1))
    qed simp
    show ?thesis using up [of "d @ [c]" cs] Cons.prems by simp
  qed
  ultimately show ?case by (simp add: all_present_def)
qed

section \<open>Resolution below a sound root\<close>

lemma root_ok_self:
  assumes "root_ok f r"
  shows "resolve strict f r = Some r"
proof -
  have "link_free f [] r" "all_present f [] r" "list_all clean_part r"
    using assms unfolding root_ok_def real_dirs_def link_free_def all_present_def
    by (auto simp: list_all_iff is_symlink_def)
  then show ?thesis by (simp add: resolve_def real_from_link_free)
qed

lemma clean_part_safe: "\<not> unsafe_part p \<Longrightarrow> clean_part p"
  by (auto simp: unsafe_part_def clean_part_def)

lemma root_ok_below:
  assumes "root_ok f r" and "list_all clean_part cs"
  shows "link_free f r cs"
    and "resolve strict f (r @ cs) =
      (if strict \<and> \<not> all_present f r cs then None else Some (r @ cs))"
proof -
  have "\<not> is_symlink f (r @ ys)" for ys
    using assms(1) starts_with_append unfolding root_ok_def no_links_under_def by blast
  then show lf: "link_free f r cs"
    unfolding link_free_def by (auto simp: list_all_iff prefixes_from_iff)
  have "link_free f [] r" "all_present f [] r" "list_all clean_part r"
    using assms(1) unfolding root_ok_def real_dirs_def link_free_def all_present_def
    by (auto simp: list_all_iff is_symlink_def)
  with lf assms(2) show "resolve strict f (r @ cs) =
      (if strict \<and> \<not> all_present f r cs then None else Some (r @ cs))"
    by (simp add: resolve_def real_from_link_free link_free_append all_present_append)
qed

lemma wp_reject_symlinks_below:
  "wp (reject_symlinks_below r cs) (\<lambda>_ t. t = s \<and> link_free (os_fs s) r cs)
     (\<lambda>e t. t = s \<and> e = StorageError \<and> \<not> link_free (os_fs s) r cs) s"
  unfolding reject_symlinks_below_def link_free_def
  by (induction cs arbitrary: r) (auto simp: wp_simps)

text \<open>
  In any tree and whatever fails: a path that \<open>safe_resolve\<close> accepts lies strictly below
  the resolved root, and with links rejected it is the root followed by the given
  components, none of them a link.
\<close>

lemma wp_safe_resolve_confined:
  "wp (safe_resolve root raw must rej)
     (\<lambda>q t. looked s t \<and> (\<exists>r parts. resolve True (os_fs s) root = Some r
        \<and> safe_relative raw parts \<and> starts_with r q \<and> q \<noteq> r
        \<and> resolve must (os_fs s) (r @ parts) = Some q
        \<and> (rej \<longrightarrow> link_free (os_fs s) r parts)))
     (\<lambda>e t. e = StorageError \<and> looked s t) s"
  unfolding safe_resolve_def
proof (rule wp_bind_spec [OF wp_os_error_asI [OF wp_sys_resolve]], elim conjE)
  fix r t assume t: "looked s t" and r: "resolve True (os_fs s) root = Some r"
  note fs = looked_eqs(1) [OF t]
  show "wp (bind (lift_result (reject_unsafe_relative_path raw)) (\<lambda>relative.
      bind (if rej then reject_symlinks_below r relative else ret ()) (\<lambda>_.
      bind (os_error_as StorageError (sys_resolve must (r @ relative))) (\<lambda>q.
        if q = r \<or> \<not> starts_with r q then throw StorageError else ret q))))
      (\<lambda>q t. looked s t \<and> (\<exists>r parts. resolve True (os_fs s) root = Some r
        \<and> safe_relative raw parts \<and> starts_with r q \<and> q \<noteq> r
        \<and> resolve must (os_fs s) (r @ parts) = Some q
        \<and> (rej \<longrightarrow> link_free (os_fs s) r parts)))
      (\<lambda>e t. e = StorageError \<and> looked s t) t"
  proof (rule wp_bind_lift)
    fix parts assume parts: "reject_unsafe_relative_path raw = Inr parts"
    have "wp (if rej then reject_symlinks_below r parts else ret ())
        (\<lambda>_ u. u = t \<and> (rej \<longrightarrow> link_free (os_fs s) r parts))
        (\<lambda>e u. e = StorageError \<and> u = t) t"
      by (simp add: wp_simps) (intro impI wp_mono [OF wp_reject_symlinks_below], auto simp: fs)
    then show "wp (bind (if rej then reject_symlinks_below r parts else ret ()) (\<lambda>_.
      bind (os_error_as StorageError (sys_resolve must (r @ parts))) (\<lambda>q.
        if q = r \<or> \<not> starts_with r q then throw StorageError else ret q)))
      (\<lambda>q t. looked s t \<and> (\<exists>r parts. resolve True (os_fs s) root = Some r
        \<and> safe_relative raw parts \<and> starts_with r q \<and> q \<noteq> r
        \<and> resolve must (os_fs s) (r @ parts) = Some q
        \<and> (rej \<longrightarrow> link_free (os_fs s) r parts)))
      (\<lambda>e t. e = StorageError \<and> looked s t) t"
      by (rule wp_bind_spec) (rule wp_bind_spec [OF wp_os_error_asI [OF wp_sys_resolve]],
        use t r parts in \<open>auto simp: wp_simps fs safe_relative_def intro: looked_trans\<close>)
  qed (use t in \<open>simp add: reject_unsafe_error\<close>)
qed auto

section \<open>The path operations below a sound root\<close>

lemma list_all_clean: "\<not> list_ex unsafe_part ps \<Longrightarrow> list_all clean_part ps"
  by (auto simp: list_ex_iff list_all_iff clean_part_safe)

lemma wp_safe_resolve:
  assumes ok: "root_ok (os_fs s) r"
  shows "wp (safe_resolve r raw must rej)
     (\<lambda>q t. looked s t \<and> (\<exists>parts. safe_relative raw parts \<and> q = r @ parts
        \<and> (must \<longrightarrow> all_present (os_fs s) r parts)))
     (\<lambda>e t. e = StorageError \<and> looked s t
        \<and> \<not> (no_os_faults s \<and> (\<exists>parts. safe_relative raw parts
              \<and> (must \<longrightarrow> all_present (os_fs s) r parts)))) s"
  unfolding safe_resolve_def
proof (rule wp_bind_spec [OF wp_os_error_asI [OF wp_sys_resolve]], elim conjE, goal_cases)
  case (1 x t)
  then have x: "x = r" and fs: "os_fs t = os_fs s" and nf: "no_os_faults t = no_os_faults s"
    using root_ok_self [OF ok] by (auto simp: looked_eqs no_os_faults_def)
  show ?case
    unfolding x
  proof (rule wp_bind_lift, goal_cases)
    case (1 parts)
    then have safe: "safe_relative raw parts" by (simp add: safe_relative_def)
    note p = safe_relativeD [OF safe]
    have cl: "list_all clean_part parts" using p(3) by (rule list_all_clean)
    note below = root_ok_below [OF ok cl]
    have "wp (if rej then reject_symlinks_below r parts else ret ())
        (\<lambda>_ u. u = t) (\<lambda>e u. False) t"
      by (simp add: wp_simps)
        (intro impI wp_mono [OF wp_reject_symlinks_below], auto simp: fs below(1))
    then show ?case
      by (rule wp_bind_spec) (rule wp_bind_spec [OF wp_os_error_asI [OF wp_sys_resolve]],
        use \<open>looked s t\<close> safe p(2) in
          \<open>auto simp: wp_simps fs below(2) nf looked_eqs split: if_splits
            intro: looked_trans dest: safe_relativeD(1)\<close>)
  next
    case (2 e)
    then show ?case using \<open>looked s t\<close> reject_unsafe_error [OF 2] by (auto simp: safe_relative_def)
  qed
next
  case (2 e t)
  then show ?case using root_ok_self [OF ok] by auto
qed

text \<open>
  Creating directories: entries that were there stay as they are up to the mode of a
  directory, and what appears is a directory.
\<close>

fun is_dir_node :: "node option \<Rightarrow> bool" where
  "is_dir_node (Some (Dir _)) = True"
| "is_dir_node _ = False"

lemma is_dir_node_iff: "is_dir_node n \<longleftrightarrow> (\<exists>m. n = Some (Dir m))"
  by (cases n rule: is_dir_node.cases) auto

fun entry_made :: "node option \<Rightarrow> node option \<Rightarrow> bool" where
  "entry_made None n = (n = None \<or> is_dir_node n)"
| "entry_made (Some (Dir _)) n = is_dir_node n"
| "entry_made (Some e) n = (n = Some e)"

lemma entry_made_refl [simp]: "entry_made n n"
  by (cases n rule: is_dir_node.cases) auto

lemma entry_made_trans: "entry_made a b \<Longrightarrow> entry_made b c \<Longrightarrow> entry_made a c"
  by (cases a rule: is_dir_node.cases) (auto simp: is_dir_node_iff)

lemma entry_made_file: "entry_made a b \<Longrightarrow> a = Some (File c m t) \<longleftrightarrow> b = Some (File c m t)"
  by (cases a rule: is_dir_node.cases) (auto simp: is_dir_node_iff)

lemma entry_made_link: "entry_made a b \<Longrightarrow> a = Some (Link x l) \<longleftrightarrow> b = Some (Link x l)"
  by (cases a rule: is_dir_node.cases) (auto simp: is_dir_node_iff)

lemma entry_made_dir: "entry_made a b \<Longrightarrow> a = Some (Dir m) \<Longrightarrow> \<exists>k. b = Some (Dir k)"
  by (simp add: is_dir_node_iff)

lemma entry_made_None: "entry_made a None \<longleftrightarrow> a = None"
  by (cases a rule: is_dir_node.cases) auto

definition dirs_made :: "fs \<Rightarrow> fs \<Rightarrow> bool" where
  "dirs_made f g \<longleftrightarrow> (tree_ok f \<longrightarrow> tree_ok g) \<and> (\<forall>p. entry_made (f p) (g p))"

lemma dirs_madeD:
  assumes "dirs_made f g"
  shows "tree_ok f \<Longrightarrow> tree_ok g" and "entry_made (f p) (g p)"
  using assms by (simp_all add: dirs_made_def)

lemma dirs_made_refl [simp, intro]: "dirs_made f f"
  by (simp add: dirs_made_def)

lemma dirs_made_trans: "dirs_made f g \<Longrightarrow> dirs_made g h \<Longrightarrow> dirs_made f h"
  unfolding dirs_made_def by (blast intro: entry_made_trans)

lemma is_symlink_iff: "is_symlink f p \<longleftrightarrow> (\<exists>a l. f p = Some (Link a l))"
  by (auto simp: is_symlink_def split: option.splits node.splits)

lemma file_at_iff: "file_at f p = Some b \<longleftrightarrow> (\<exists>m t. f p = Some (File b m t))"
  by (auto simp: file_at_def split: option.splits node.splits)

lemma dirs_made_grows:
  assumes "dirs_made f g"
  shows "tree_grows f g"
  unfolding tree_grows_def
proof (intro conjI allI impI)
  fix p
  have e: "entry_made (f p) (g p)" using assms by (rule dirs_madeD(2))
  show "is_symlink g p \<Longrightarrow> is_symlink f p"
    using entry_made_link [OF e] unfolding is_symlink_iff by blast
  show "f p = Some (Dir m) \<Longrightarrow> \<exists>k. g p = Some (Dir k)" for m
    by (rule entry_made_dir [OF e])
qed

lemma dirs_made_file_at: "dirs_made f g \<Longrightarrow> file_at g = file_at f"
proof (rule ext)
  fix p assume "dirs_made f g"
  then have "entry_made (f p) (g p)" by (rule dirs_madeD(2))
  then have "file_at g p = Some b \<longleftrightarrow> file_at f p = Some b" for b
    unfolding file_at_iff by (simp add: entry_made_file)
  then show "file_at g p = file_at f p" by (metis option.exhaust)
qed

lemma dirs_made_chmod: "f p = Some (Dir k) \<Longrightarrow> dirs_made f (f(p \<mapsto> Dir m))"
  using tree_ok_chmod [of f p "Dir k" m]
  by (simp add: dirs_made_def)

lemma dirs_made_mkdir:
  "f p = None \<Longrightarrow> f (butlast p) = Some (Dir k) \<Longrightarrow> dirs_made f (f(p \<mapsto> Dir m))"
  using tree_ok_mkdir [of f p k m]
  by (simp add: dirs_made_def)

definition dir_step :: "path \<Rightarrow> 'z os_scheme \<Rightarrow> 'z os_scheme \<Rightarrow> bool" where
  "dir_step q s t \<longleftrightarrow> fs_frame s t \<and> os_uuid_next t = os_uuid_next s
     \<and> dirs_made (os_fs s) (os_fs t) \<and> (\<forall>p. p \<noteq> q \<longrightarrow> os_fs t p = os_fs s p)"

lemma looked_dir_step: "looked s t \<Longrightarrow> dir_step q s t"
  by (simp add: dir_step_def looked_eqs)

lemma dir_step_trans: "dir_step q s t \<Longrightarrow> dir_step q t u \<Longrightarrow> dir_step q s u"
  unfolding dir_step_def by (metis dirs_made_trans fs_frame_trans)

definition free_or_dir :: "fs \<Rightarrow> path \<Rightarrow> bool" where
  "free_or_dir f q \<longleftrightarrow> (case f q of None \<Rightarrow> True | Some (Dir _) \<Rightarrow> True | _ \<Rightarrow> False)"

text \<open>\<open>mkdir\<close> and \<open>chmod\<close> of one directory.\<close>

lemma wp_make_private:
  assumes up: "os_fs s (butlast q) = Some (Dir k)"
  shows "wp (bind (sys_mkdir q m) (\<lambda>_. sys_chmod q m))
     (\<lambda>_ t. dir_step q s t \<and> (\<exists>j. os_fs t q = Some (Dir j)))
     (\<lambda>e t. is_os_error e \<and> dir_step q s t \<and> \<not> (no_os_faults s \<and> free_or_dir (os_fs s) q)) s"
proof (rule wp_bind_spec [OF wp_sys_mkdir], goal_cases)
  case (1 x t)
  then have st: "dir_step q s t" and d: "\<exists>j. os_fs t q = Some (Dir j)"
    using up by (auto simp: dir_step_def intro: dirs_made_mkdir)
  from d obtain j where j: "os_fs t q = Some (Dir j)" ..
  show ?case
  proof (rule wp_mono [OF wp_sys_chmod], goal_cases)
    case (1 y u)
    then have "dir_step q t u" "os_fs u q = Some (Dir m)"
      using j by (auto simp: dir_step_def intro: dirs_made_chmod)
    with st show ?case by (blast intro: dir_step_trans)
  next
    case (2 e u)
    then have "\<not> no_os_faults t" using j by auto
    then have "\<not> no_os_faults s" using st no_os_faults_frame by (auto simp: dir_step_def)
    with 2 st show ?case by (blast intro: looked_dir_step dir_step_trans)
  qed
next
  case (2 e t)
  then show ?case
    using up by (auto simp: looked_dir_step free_or_dir_def split: option.splits node.splits)
qed

lemma wp_private_parent_step:
  assumes ok: "root_ok (os_fs s) r" and safe: "safe_relative raw (ys @ [c] @ zs)"
    and pres: "all_present (os_fs s) r ys" and up: "os_fs s (r @ ys) = Some (Dir k)"
  shows "wp (private_parent_step r (ys @ [c]) x)
     (\<lambda>q t. q = r @ ys @ [c] \<and> dir_step q s t \<and> (\<exists>j. os_fs t q = Some (Dir j)))
     (\<lambda>e t. e = StorageError \<and> dir_step (r @ ys @ [c]) s t
        \<and> \<not> (no_os_faults s \<and> free_or_dir (os_fs s) (r @ ys @ [c]))) s"
proof -
  let ?q = "r @ ys @ [c]"
  have sp: "safe_relative (join_on slash (ys @ [c])) (ys @ [c])"
    using safe_relative_prefix [of raw "ys @ [c]" zs] safe by simp
  have parts: "safe_relative (join_on slash (ys @ [c])) ps \<Longrightarrow> ps = ys @ [c]" for ps
    using sp by (simp add: safe_relative_def)
  show ?thesis
    unfolding private_parent_step_def
  proof (rule wp_bind_spec [OF wp_safe_resolve [OF ok]], elim conjE exE, goal_cases)
    case (1 q t ps)
    then have q: "q = ?q" and fs: "os_fs t = os_fs s" using parts by (auto simp: looked_eqs)
    have ok': "root_ok (os_fs t) r" using ok fs by simp
    have nolink: "\<not> is_symlink (os_fs u) q" if "tree_grows (os_fs s) (os_fs u)" for u :: "'a os_scheme"
      using root_ok_grows [OF ok that] starts_with_append [of r "ys @ [c]"]
      unfolding root_ok_def no_links_under_def q by blast
    have up': "os_fs t (butlast q) = Some (Dir k)"
      using up fs q by (simp add: butlast_append)
    show ?case
    proof (rule wp_bind_gets, rule wp_bind_raise_if)
      show "wp (bind (os_error_as StorageError (bind (sys_mkdir q storage_directory_mode)
            (\<lambda>_. sys_chmod q storage_directory_mode))) (\<lambda>_. bind (gets os_fs) (\<lambda>g.
            if \<not> is_dir g q \<or> is_symlink g q then throw StorageError else ret q)))
         (\<lambda>q t. q = ?q \<and> dir_step q s t \<and> (\<exists>j. os_fs t q = Some (Dir j)))
         (\<lambda>e t. e = StorageError \<and> dir_step ?q s t
            \<and> \<not> (no_os_faults s \<and> free_or_dir (os_fs s) ?q)) t"
      proof (rule wp_bind_spec [OF wp_os_error_asI [OF wp_make_private [OF up']]], goal_cases)
        case (1 y u)
        then obtain j where st: "dir_step q t u" and j: "os_fs u q = Some (Dir j)" by blast
        have gr: "tree_grows (os_fs s) (os_fs u)"
          using st fs by (simp add: dir_step_def dirs_made_grows)
        have oku: "root_ok (os_fs u) r" using ok gr by (rule root_ok_grows)
        have "os_fs s p \<noteq> None \<Longrightarrow> os_fs u p \<noteq> None" for p
          using st fs by (metis dir_step_def dirs_madeD(2) entry_made_None)
        then have "all_present (os_fs u) r (ys @ [c])"
          using pres j q unfolding all_present_append
          by (auto simp: all_present_def list_all_iff)
        moreover have "list_all clean_part (ys @ [c])"
          using safe_relativeD(3) [OF sp] by (rule list_all_clean)
        ultimately have "resolve True (os_fs u) q = Some q"
          using root_ok_below(2) [OF oku, of "ys @ [c]" True] by (simp add: q)
        then have "is_dir (os_fs u) q" by (simp add: is_dir_def j)
        then show ?case
          using nolink [OF gr] st j q \<open>looked s t\<close>
          by (auto simp: wp_simps intro: looked_dir_step dir_step_trans)
      next
        case (2 e u)
        then show ?case
          using q fs \<open>looked s t\<close>
          by (auto simp: looked_eqs no_os_faults_def intro: looked_dir_step dir_step_trans)
      qed
    qed (use nolink [of t] fs in simp)
  next
    case (2 e t)
    then show ?case
      using sp by (auto intro: looked_dir_step)
  qed
qed

text \<open>The loop: what \<open>ensure_private_parent\<close> leaves behind.\<close>

definition dirs_step :: "path list \<Rightarrow> 'z os_scheme \<Rightarrow> 'z os_scheme \<Rightarrow> bool" where
  "dirs_step qs s t \<longleftrightarrow> fs_frame s t \<and> os_uuid_next t = os_uuid_next s
     \<and> dirs_made (os_fs s) (os_fs t) \<and> (\<forall>p. p \<notin> set qs \<longrightarrow> os_fs t p = os_fs s p)"

lemma dirs_step_Cons: "dir_step q s t \<Longrightarrow> dirs_step qs t u \<Longrightarrow> dirs_step (q # qs) s u"
  unfolding dirs_step_def dir_step_def
  by (metis dirs_made_trans fs_frame_trans list.set_intros(1,2))

lemma dir_step_dirs_step: "dir_step q s t \<Longrightarrow> dirs_step (q # qs) s t"
  by (simp add: dirs_step_def dir_step_def)

lemma looked_dirs_step: "looked s t \<Longrightarrow> dirs_step qs s t"
  by (simp add: dirs_step_def looked_eqs)

lemma dirs_stepD:
  assumes "dirs_step qs s t"
  shows "fs_frame s t" "os_uuid_next t = os_uuid_next s" "dirs_made (os_fs s) (os_fs t)"
    "p \<notin> set qs \<Longrightarrow> os_fs t p = os_fs s p" "files t = files s"
    "tree_grows (os_fs s) (os_fs t)"
  using assms by (simp_all add: dirs_step_def files_def dirs_made_file_at dirs_made_grows)

lemma looked_then_dirs_step: "looked s t \<Longrightarrow> dirs_step qs t u \<Longrightarrow> dirs_step qs s u"
  unfolding dirs_step_def by (metis fs_frame_trans looked_eqs(1,3,4))

lemma prefixes_from_not_self: "p \<in> set (prefixes_from d xs) \<Longrightarrow> p \<noteq> d"
  by (auto simp: prefixes_from_iff)

lemma wp_private_parent_loop:
  assumes "root_ok (os_fs s) r" and "safe_relative raw (ys @ xs @ zs)"
    and "all_present (os_fs s) r ys" and "os_fs s (r @ ys) = Some (Dir k)" and "x = r @ ys"
  shows "wp (fold_eff (private_parent_step r) (prefixes_from ys xs) x)
     (\<lambda>q t. q = r @ ys @ xs \<and> dirs_step (prefixes_from (r @ ys) xs) s t
        \<and> all_present (os_fs t) r (ys @ xs) \<and> (\<exists>j. os_fs t (r @ ys @ xs) = Some (Dir j)))
     (\<lambda>e t. e = StorageError \<and> dirs_step (prefixes_from (r @ ys) xs) s t
        \<and> \<not> (no_os_faults s
             \<and> list_all (free_or_dir (os_fs s)) (prefixes_from (r @ ys) xs))) s"
  using assms
proof (induction xs arbitrary: ys s x k)
  case Nil
  then show ?case by (simp add: wp_simps looked_dirs_step)
next
  case (Cons c xs)
  let ?q = "r @ ys @ [c]"
  have sr: "safe_relative raw (ys @ [c] @ (xs @ zs))" using Cons.prems(2) by simp
  have step: "wp (private_parent_step r (ys @ [c]) x)
     (\<lambda>q t. q = ?q \<and> dir_step q s t \<and> (\<exists>j. os_fs t q = Some (Dir j)))
     (\<lambda>e t. e = StorageError \<and> dir_step ?q s t
        \<and> \<not> (no_os_faults s \<and> free_or_dir (os_fs s) ?q)) s"
    by (rule wp_private_parent_step [OF Cons.prems(1) sr Cons.prems(3,4)])
  show ?case
    unfolding prefixes_from.simps fold_eff.simps
  proof (rule wp_bind_spec [OF step], goal_cases)
    case (1 q t)
    then obtain j where q: "q = ?q" and st: "dir_step ?q s t" and j: "os_fs t ?q = Some (Dir j)"
      by auto
    have made: "dirs_made (os_fs s) (os_fs t)" and fr: "fs_frame s t"
      using st by (simp_all add: dir_step_def)
    have ok: "root_ok (os_fs t) r"
      using Cons.prems(1) dirs_made_grows [OF made] by (rule root_ok_grows)
    have "os_fs s p \<noteq> None \<Longrightarrow> os_fs t p \<noteq> None" for p
      using dirs_madeD(2) [OF made] by (metis entry_made_None)
    then have pres: "all_present (os_fs t) r (ys @ [c])"
      using Cons.prems(3) j unfolding all_present_append
      by (auto simp: all_present_def list_all_iff)
    have IH: "wp (fold_eff (private_parent_step r) (prefixes_from (ys @ [c]) xs) q)
       (\<lambda>q u. q = r @ (ys @ [c]) @ xs \<and> dirs_step (prefixes_from (r @ ys @ [c]) xs) t u
          \<and> all_present (os_fs u) r ((ys @ [c]) @ xs)
          \<and> (\<exists>j. os_fs u (r @ (ys @ [c]) @ xs) = Some (Dir j)))
       (\<lambda>e u. e = StorageError \<and> dirs_step (prefixes_from (r @ ys @ [c]) xs) t u
          \<and> \<not> (no_os_faults t
               \<and> list_all (free_or_dir (os_fs t)) (prefixes_from (r @ ys @ [c]) xs))) t"
      using Cons.prems(2) pres j q by (intro Cons.IH [OF ok]) auto
    have same: "os_fs t p = os_fs s p" if "p \<in> set (prefixes_from (r @ ys @ [c]) xs)" for p
      using st prefixes_from_not_self [OF that] by (simp add: dir_step_def)
    have nf: "no_os_faults t = no_os_faults s" using fr by (rule no_os_faults_frame)
    have fod: "list_all (free_or_dir (os_fs t)) (prefixes_from (r @ ys @ [c]) xs)
        = list_all (free_or_dir (os_fs s)) (prefixes_from (r @ ys @ [c]) xs)"
      by (rule list.pred_cong) (simp_all add: free_or_dir_def same)
    show ?case
      by (rule wp_mono [OF IH]) (use st nf fod in \<open>auto intro: dirs_step_Cons\<close>)
  next
    case (2 e t)
    then show ?case by (auto intro: dir_step_dirs_step)
  qed
qed

lemma safe_relative_split:
  assumes "safe_relative raw parts"
  obtains ys c where "parts = ys @ [c]"
  using safe_relativeD(2) [OF assms] by (metis rev_exhaust)

lemma wp_ensure_private_parent:
  assumes ok: "root_ok (os_fs s) r" and safe: "safe_relative raw parts"
  shows "wp (ensure_private_parent r raw)
     (\<lambda>q t. q = r @ butlast parts \<and> dirs_step (prefixes_from r (butlast parts)) s t
        \<and> all_present (os_fs t) r (butlast parts) \<and> (\<exists>j. os_fs t q = Some (Dir j)))
     (\<lambda>e t. (e = StorageError \<or> is_os_error e \<and> \<not> no_os_faults s)
        \<and> dirs_step (prefixes_from r (butlast parts)) s t
        \<and> \<not> (no_os_faults s
             \<and> list_all (free_or_dir (os_fs s)) (prefixes_from r (butlast parts)))) s"
proof -
  have rdir: "\<exists>k. os_fs s r = Some (Dir k)"
  proof (cases "r = []")
    case True
    then show ?thesis using ok by (simp add: root_ok_def real_dirs_def)
  next
    case False
    then have "r \<in> set (prefixes_from [] r)" by (auto simp: prefixes_from_iff)
    then show ?thesis using ok by (auto simp: root_ok_def real_dirs_def list_all_iff)
  qed
  have self: "wp (sys_resolve True r) (\<lambda>q t. q = r \<and> looked s t)
      (\<lambda>e t. is_os_error e \<and> looked s t \<and> \<not> no_os_faults s) s"
    by (rule wp_mono [OF wp_sys_resolve]) (use root_ok_self [OF ok] in auto)
  show ?thesis
  proof (cases "butlast parts = []")
    case True
    have "wp (sys_resolve True r)
       (\<lambda>q t. q = r @ butlast parts \<and> dirs_step (prefixes_from r (butlast parts)) s t
          \<and> all_present (os_fs t) r (butlast parts) \<and> (\<exists>j. os_fs t q = Some (Dir j)))
       (\<lambda>e t. (e = StorageError \<or> is_os_error e \<and> \<not> no_os_faults s)
          \<and> dirs_step (prefixes_from r (butlast parts)) s t
          \<and> \<not> (no_os_faults s
               \<and> list_all (free_or_dir (os_fs s)) (prefixes_from r (butlast parts)))) s"
      by (rule wp_mono [OF self])
        (use True rdir in \<open>auto simp: looked_dirs_step looked_eqs all_present_def\<close>)
    with True safe show ?thesis
      by (simp add: ensure_private_parent_def safe_relative_def wp_simps)
  next
    case False
    obtain ys c where parts: "parts = ys @ [c]" using safe by (rule safe_relative_split)
    have "wp (bind (sys_resolve True r)
        (\<lambda>start. fold_eff (private_parent_step r) (prefixes_from [] (butlast parts)) start))
       (\<lambda>q t. q = r @ butlast parts \<and> dirs_step (prefixes_from r (butlast parts)) s t
          \<and> all_present (os_fs t) r (butlast parts) \<and> (\<exists>j. os_fs t q = Some (Dir j)))
       (\<lambda>e t. (e = StorageError \<or> is_os_error e \<and> \<not> no_os_faults s)
          \<and> dirs_step (prefixes_from r (butlast parts)) s t
          \<and> \<not> (no_os_faults s
               \<and> list_all (free_or_dir (os_fs s)) (prefixes_from r (butlast parts)))) s"
    proof (rule wp_bind_spec [OF self], goal_cases)
      case (1 x t)
      then have l: "looked s t" and x: "x = r" by auto
      then have fs: "os_fs t = os_fs s" and nf: "no_os_faults t = no_os_faults s"
        by (auto simp: looked_eqs no_os_faults_def)
      have "all_present (os_fs t) r []" by (simp add: all_present_def)
      moreover obtain k where "os_fs t r = Some (Dir k)" using rdir fs by auto
      ultimately have loop:
        "wp (fold_eff (private_parent_step r) (prefixes_from [] ys) x)
         (\<lambda>q u. q = r @ [] @ ys \<and> dirs_step (prefixes_from (r @ []) ys) t u
            \<and> all_present (os_fs u) r ([] @ ys) \<and> (\<exists>j. os_fs u (r @ [] @ ys) = Some (Dir j)))
         (\<lambda>e u. e = StorageError \<and> dirs_step (prefixes_from (r @ []) ys) t u
            \<and> \<not> (no_os_faults t
                 \<and> list_all (free_or_dir (os_fs t)) (prefixes_from (r @ []) ys))) t"
        using ok fs safe parts x
        by (intro wp_private_parent_loop [of t r raw "[]" ys "[c]"]) auto
      have b: "butlast parts = ys" using parts by simp
      show ?case
        unfolding b
        by (rule wp_mono [OF loop], use l fs nf in \<open>auto intro: looked_then_dirs_step\<close>)
    next
      case (2 e t)
      then show ?case by (auto simp: looked_dirs_step)
    qed
    with False safe show ?thesis
      by (simp add: ensure_private_parent_def safe_relative_def wp_simps)
  qed
qed

end
