(* ===== verification/Moves.thy ===== *)
theory Moves
  imports Paths
begin

text \<open>
  \<open>app/storage/move.py\<close>: the atomic move of a regular file between two roots. The
  specification \<open>wp_atomic_move\<close> says what any run leaves behind, whatever call fails:
  success is a rename of the bytes, failure leaves the bytes where they were, except that a
  fault after the rename (the directory synchronisation) reports a failure for a file that
  has moved.
\<close>

record move_result =
  mv_destination :: path
  mv_size_bytes :: int

definition harden_file_permissions :: "path \<Rightarrow> ('z os_scheme, unit) eff" where
  "harden_file_permissions p =
     os_error_as StorageError
       (bind (sys_lstat p) (\<lambda>metadata.
          if \<not> is_regular metadata then throw StorageError
          else sys_chmod p storage_file_mode))"

definition fsync_file :: "path \<Rightarrow> ('z os_scheme, unit) eff" where
  "fsync_file p = os_error_as StorageError (sys_fsync p)"

definition fsync_directory :: "path \<Rightarrow> ('z os_scheme, unit) eff" where
  "fsync_directory p = os_error_as StorageError (sys_fsync p)"

definition atomic_move :: "path \<Rightarrow> str \<Rightarrow> path \<Rightarrow> str \<Rightarrow> ('z os_scheme, move_result) eff" where
  "atomic_move source_root source_relative destination_root destination_relative =
     bind (safe_resolve source_root source_relative True True) (\<lambda>source.
     bind (safe_resolve destination_root destination_relative False False) (\<lambda>destination.
     bind (ensure_private_parent destination_root destination_relative) (\<lambda>destination_parent.
     bind (os_error_as StorageError (sys_lstat source)) (\<lambda>source_metadata.
     bind (raise_if (\<not> is_regular source_metadata) StorageError) (\<lambda>_.
     bind (gets os_fs) (\<lambda>f.
     bind (raise_if (path_exists f destination \<or> is_symlink f destination) StorageError) (\<lambda>_.
     bind (os_error_as StorageError (sys_device destination_parent)) (\<lambda>destination_device.
     bind (gets (\<lambda>s. os_device s (butlast source))) (\<lambda>source_device.
     bind (raise_if (source_device \<noteq> destination_device) StorageError) (\<lambda>_.
     bind (harden_file_permissions source) (\<lambda>_.
     bind (fsync_file source) (\<lambda>_.
     bind (os_error_as StorageError
             (bind (sys_replace source destination) (\<lambda>_. fsync_directory destination_parent)))
       (\<lambda>_. ret \<lparr>mv_destination = destination, mv_size_bytes = node_size source_metadata\<rparr>)))))))))))))"

section \<open>What one move does\<close>

text \<open>Everything a storage operation may change besides file contents.\<close>

definition store_step :: "'z os_scheme \<Rightarrow> 'z os_scheme \<Rightarrow> bool" where
  "store_step s t \<longleftrightarrow> fs_frame s t \<and> tree_grows (os_fs s) (os_fs t)
     \<and> (tree_ok (os_fs s) \<longrightarrow> tree_ok (os_fs t))"

lemma store_step_refl [simp, intro]: "store_step s s"
  by (simp add: store_step_def)

lemma store_step_trans: "store_step s t \<Longrightarrow> store_step t u \<Longrightarrow> store_step s u"
  unfolding store_step_def by (meson fs_frame_trans tree_grows_trans)

lemma looked_store_step: "looked s t \<Longrightarrow> store_step s t"
  by (simp add: store_step_def looked_eqs)

lemma dirs_store_step: "dirs_step qs s t \<Longrightarrow> store_step s t"
  using dirs_stepD(1,3,6) dirs_madeD(1) by (fastforce simp: store_step_def)

lemma store_step_root_ok: "store_step s t \<Longrightarrow> root_ok (os_fs s) r \<Longrightarrow> root_ok (os_fs t) r"
  using root_ok_grows by (auto simp: store_step_def)

definition moved :: "('p \<Rightarrow> bytes option) \<Rightarrow> 'p \<Rightarrow> 'p \<Rightarrow> ('p \<Rightarrow> bytes option) \<Rightarrow> bool" where
  "moved f src dst g \<longleftrightarrow> f src \<noteq> None \<and> f dst = None \<and> g = f(src := None, dst := f src)"

lemma moved_back: "moved f src dst g \<Longrightarrow> moved g dst src h \<Longrightarrow> h = f"
  by (auto simp: moved_def)

lemma moved_neq: "moved f src dst g \<Longrightarrow> src \<noteq> dst"
  by (auto simp: moved_def)

text \<open>When nothing can stand in the way of a move.\<close>

definition move_free :: "'z os_scheme \<Rightarrow> path \<Rightarrow> path \<Rightarrow> path \<Rightarrow> path \<Rightarrow> bool" where
  "move_free s sr sparts dr dparts \<longleftrightarrow> no_os_faults s \<and> tree_ok (os_fs s)
     \<and> files s (sr @ sparts) \<noteq> None \<and> os_fs s (dr @ dparts) = None
     \<and> list_all (free_or_dir (os_fs s)) (prefixes_from dr (butlast dparts))
     \<and> os_device s (sr @ butlast sparts) = os_device s (dr @ butlast dparts)"

lemma chmod_file_step:
  assumes "os_fs s p = Some (File b m t)" and "os_fs u = (os_fs s)(p \<mapsto> File b k t)"
    and "fs_frame s u"
  shows "store_step s u" and "files u = files s"
proof -
  have "tree_grows (os_fs s) (os_fs u)"
    using tree_grows_chmod [of "os_fs s" p _ k] assms(1,2) by simp
  moreover have "tree_ok (os_fs s) \<Longrightarrow> tree_ok (os_fs u)"
    using tree_ok_chmod [of "os_fs s" p _ k] assms(1,2) by simp
  ultimately show "store_step s u" using assms(3) by (simp add: store_step_def)
  show "files u = files s" using assms(1,2) by (auto simp: files_def file_at_def)
qed

lemma rename_step:
  assumes "os_fs s p = Some (File b m t)" and "os_fs s q = None"
    and "os_fs s (butlast q) = Some (Dir k)" and "q \<noteq> []"
    and "os_fs u = (os_fs s)(p := None, q \<mapsto> File b m t)" and "fs_frame s u"
  shows "store_step s u" and "moved (files s) p q (files u)"
proof -
  show "store_step s u"
    using tree_grows_rename [OF assms(1,2)] tree_ok_rename [OF _ assms(1-4)] assms(5,6)
    by (simp add: store_step_def)
  show "moved (files s) p q (files u)"
    using assms(1,2,5) by (auto simp: moved_def files_def file_at_def)
qed

lemma wp_harden_file_permissions:
  "wp (harden_file_permissions p)
     (\<lambda>_ t. \<exists>b m u. os_fs s p = Some (File b m u) \<and> os_fs t = (os_fs s)(p \<mapsto> File b storage_file_mode u)
        \<and> fs_frame s t \<and> os_uuid_next t = os_uuid_next s)
     (\<lambda>e t. e = StorageError \<and> looked s t
        \<and> (no_os_faults s \<longrightarrow> (\<forall>b m u. os_fs s p \<noteq> Some (File b m u)))) s"
  unfolding harden_file_permissions_def wp_os_error_as
proof (rule wp_bind_spec [OF wp_sys_lstat], goal_cases)
  case (1 n t)
  then have l: "looked s t" and n: "os_fs s p = Some n" by auto
  show ?case
  proof (cases n)
    case (File b m u)
    have nf: "no_os_faults t = no_os_faults s" using l by (simp add: no_os_faults_def looked_eqs)
    show ?thesis
      unfolding File
      by (simp, rule wp_mono [OF wp_sys_chmod])
        (use l n File nf in \<open>auto simp: looked_eqs
          intro: looked_trans fs_frame_trans [OF looked_eqs(3)]\<close>)
  qed (use l n in \<open>simp_all add: wp_simps\<close>)
qed (auto simp: looked_eqs)

text \<open>The last statements of the move: from the permissions on, with the way checked.\<close>

lemma wp_move_tail:
  assumes f: "os_fs s src = Some (File b m u)" and free: "os_fs s dst = None"
    and up: "os_fs s (butlast dst) = Some (Dir k)" and ne: "dst \<noteq> []"
  shows "wp (bind (harden_file_permissions src) (\<lambda>_. bind (fsync_file src) (\<lambda>_.
      bind (os_error_as StorageError
        (bind (sys_replace src dst) (\<lambda>_. fsync_directory (butlast dst)))) (\<lambda>_. ret r))))
     (\<lambda>x t. x = r \<and> store_step s t \<and> os_uuid_next t = os_uuid_next s
        \<and> moved (files s) src dst (files t) \<and> os_fs t src = None)
     (\<lambda>e t. e = StorageError \<and> store_step s t \<and> os_uuid_next t = os_uuid_next s \<and> \<not> no_os_faults s
        \<and> (files t = files s \<or> moved (files s) src dst (files t))) s"
proof (rule wp_bind_spec [OF wp_harden_file_permissions], goal_cases)
  case (1 x t1)
  then have fs1: "os_fs t1 = (os_fs s)(src \<mapsto> File b storage_file_mode u)"
    and fr1: "fs_frame s t1" and id1: "os_uuid_next t1 = os_uuid_next s"
    using f by auto
  note st1 = chmod_file_step [OF f fs1 fr1]
  have nf1: "no_os_faults t1 = no_os_faults s" using fr1 by (rule no_os_faults_frame)
  show ?case
    unfolding fsync_file_def
  proof (rule wp_bind_spec [OF wp_os_error_asI [OF wp_sys_fsync]], goal_cases)
    case (1 y t2)
    note l2 = looked_eqs [OF 1]
    have src2: "os_fs t2 src = Some (File b storage_file_mode u)" using l2(1) fs1 by simp
    have dst2: "os_fs t2 dst = None" using l2(1) fs1 free f by auto
    have up2: "os_fs t2 (butlast dst) = Some (Dir k)" using l2(1) fs1 up f by auto
    have st2: "store_step s t2" using st1(1) looked_store_step [OF 1] by (rule store_step_trans)
    have nf2: "no_os_faults t2 = no_os_faults s" using l2(3) nf1 no_os_faults_frame by blast
    have "wp (bind (sys_replace src dst) (\<lambda>_. fsync_directory (butlast dst)))
       (\<lambda>_ t. store_step s t \<and> os_uuid_next t = os_uuid_next s \<and> moved (files s) src dst (files t)
          \<and> os_fs t src = None)
       (\<lambda>e t. (e = StorageError \<or> is_os_error e) \<and> store_step s t
          \<and> os_uuid_next t = os_uuid_next s \<and> \<not> no_os_faults s
          \<and> (files t = files s \<or> moved (files s) src dst (files t))) t2"
    proof (rule wp_bind_spec [OF wp_sys_replace], goal_cases)
      case (1 z t3)
      then have fs3: "os_fs t3 = (os_fs t2)(src := None, dst \<mapsto> File b storage_file_mode u)"
        and fr3: "fs_frame t2 t3" and id3: "os_uuid_next t3 = os_uuid_next t2"
        using src2 by auto
      note mv = rename_step [OF src2 dst2 up2 ne fs3 fr3]
      have st3: "store_step s t3" using st2 mv(1) by (rule store_step_trans)
      have mv3: "moved (files s) src dst (files t3)" using mv(2) l2(2) st1(2) by simp
      have dir3: "os_fs t3 (butlast dst) \<noteq> None"
      proof -
        have "butlast dst \<noteq> src" using up2 src2 by auto
        then show ?thesis using fs3 up2 by simp
      qed
      have gone3: "os_fs t3 src = None" using fs3 moved_neq [OF mv3] by simp
      have nf3: "no_os_faults t3 = no_os_faults s" using fr3 nf2 no_os_faults_frame by blast
      show ?case
        unfolding fsync_directory_def
        by (rule wp_mono [OF wp_os_error_asI [OF wp_sys_fsync]])
          (use st3 mv3 gone3 id3 dir3 nf3 l2(4) id1 in
            \<open>auto simp: looked_eqs intro: store_step_trans looked_store_step\<close>)
    next
      case (2 e t3)
      then show ?case
        using st2 src2 nf2 l2(2,4) st1(2) id1
        by (auto simp: looked_eqs intro: store_step_trans looked_store_step)
    qed
    then have "wp (os_error_as StorageError (bind (sys_replace src dst) (\<lambda>_. fsync_directory (butlast dst))))
       (\<lambda>_ t. store_step s t \<and> os_uuid_next t = os_uuid_next s \<and> moved (files s) src dst (files t)
          \<and> os_fs t src = None)
       (\<lambda>e t. e = StorageError \<and> store_step s t
          \<and> os_uuid_next t = os_uuid_next s \<and> \<not> no_os_faults s
          \<and> (files t = files s \<or> moved (files s) src dst (files t))) t2"
      unfolding wp_os_error_as by (rule wp_mono) auto
    then show ?case by (rule wp_bind_spec) (simp_all add: wp_simps)
  next
    case (2 e t2)
    then show ?case
      using st1 nf1 fs1 id1
      by (auto simp: looked_eqs intro: store_step_trans looked_store_step)
  qed
next
  case (2 e t)
  then show ?case using f by (auto simp: looked_eqs looked_store_step)
qed

lemma path_exists_below:
  assumes "root_ok f r" and "list_all clean_part (ys @ [c])" and "all_present f r ys"
  shows "path_exists f (r @ ys @ [c]) \<longleftrightarrow> f (r @ ys @ [c]) \<noteq> None"
proof -
  have "all_present f r (ys @ [c]) \<longleftrightarrow> f (r @ ys @ [c]) \<noteq> None"
    using assms(3) by (simp add: all_present_append) (simp add: all_present_def)
  with root_ok_below(2) [OF assms(1,2), of True] show ?thesis
    by (simp add: path_exists_def)
qed

text \<open>From the metadata of the source on: the checks and the rename.\<close>

lemma wp_move_checked:
  assumes dp: "dst = dr @ ys @ [c]" and ok: "root_ok (os_fs s) dr"
    and cl: "list_all clean_part (ys @ [c])" and pres: "all_present (os_fs s) dr ys"
    and up: "os_fs s (dr @ ys) = Some (Dir k)"
  shows "wp (
     bind (os_error_as StorageError (sys_lstat src)) (\<lambda>source_metadata.
     bind (raise_if (\<not> is_regular source_metadata) StorageError) (\<lambda>_.
     bind (gets os_fs) (\<lambda>f.
     bind (raise_if (path_exists f dst \<or> is_symlink f dst) StorageError) (\<lambda>_.
     bind (os_error_as StorageError (sys_device (dr @ ys))) (\<lambda>destination_device.
     bind (gets (\<lambda>s. os_device s (butlast src))) (\<lambda>source_device.
     bind (raise_if (source_device \<noteq> destination_device) StorageError) (\<lambda>_.
     bind (harden_file_permissions src) (\<lambda>_.
     bind (fsync_file src) (\<lambda>_.
     bind (os_error_as StorageError
             (bind (sys_replace src dst) (\<lambda>_. fsync_directory (dr @ ys))))
       (\<lambda>_. ret \<lparr>mv_destination = dst, mv_size_bytes = node_size source_metadata\<rparr>)))))))))))
     (\<lambda>x t. store_step s t \<and> os_uuid_next t = os_uuid_next s
        \<and> moved (files s) src dst (files t) \<and> mv_destination x = dst
        \<and> (\<exists>b. files s src = Some b \<and> mv_size_bytes x = int (length b))
        \<and> os_fs t src = None \<and> os_device s (butlast src) = os_device s (dr @ ys))
     (\<lambda>e t. e = StorageError \<and> store_step s t \<and> os_uuid_next t = os_uuid_next s
        \<and> (files t = files s \<or> \<not> no_os_faults s \<and> moved (files s) src dst (files t))
        \<and> \<not> (no_os_faults s \<and> files s src \<noteq> None \<and> os_fs s dst = None
             \<and> os_device s (butlast src) = os_device s (dr @ ys))) s"
proof (rule wp_bind_spec [OF wp_os_error_asI [OF wp_sys_lstat]], goal_cases)
  case (1 n t)
  then have l: "looked s t" and n: "os_fs s src = Some n" by auto
  note lt = looked_eqs [OF l]
  have nf: "no_os_faults t = no_os_faults s" using lt(5) by (simp add: no_os_faults_def)
  have st: "store_step s t" using l by (rule looked_store_step)
  show ?case
  proof (rule wp_bind_raise_if, goal_cases)
    case 1
    then have "files s src = None" using n by (cases n) (auto simp: files_def file_at_def)
    then show ?case using st lt by simp
  next
    case 2
    then obtain b m u where nfile: "n = File b m u" by (cases n) auto
    have ex: "path_exists (os_fs t) dst \<longleftrightarrow> os_fs s dst \<noteq> None"
      using path_exists_below [OF ok cl pres] lt(1) by (simp add: dp)
    show ?case
    proof (rule wp_bind_gets, rule wp_bind_raise_if, goal_cases)
      case 1
      then have "os_fs s dst \<noteq> None" using ex lt(1) by (auto simp: is_symlink_iff)
      then show ?case using st lt by simp
    next
      case 2
      then have free: "os_fs s dst = None" using ex by simp
      show ?case
      proof (rule wp_bind_spec [OF wp_os_error_asI [OF wp_sys_device]], goal_cases)
        case (1 d v)
        note lv = looked_eqs [OF conjunct1 [OF 1]]
        have d: "d = os_device s (dr @ ys)" using 1 lt by simp
        have sv: "store_step s v"
          using st looked_store_step [OF conjunct1 [OF 1]] by (rule store_step_trans)
        have fv: "files v = files s" and nv: "no_os_faults v = no_os_faults s"
          and iv: "os_uuid_next v = os_uuid_next s" and fsv: "os_fs v = os_fs s"
          using lv lt by (simp_all add: no_os_faults_def)
        have bl: "butlast dst = dr @ ys" by (simp add: dp butlast_append)
        show ?case
        proof (rule wp_bind_gets, rule wp_bind_raise_if, goal_cases)
          case 1
          then show ?case using sv fv iv d lv lt by simp
        next
          case 2
          have tail: "wp (bind (harden_file_permissions src) (\<lambda>_. bind (fsync_file src) (\<lambda>_.
              bind (os_error_as StorageError
                (bind (sys_replace src dst) (\<lambda>_. fsync_directory (butlast dst))))
              (\<lambda>_. ret \<lparr>mv_destination = dst, mv_size_bytes = node_size n\<rparr>))))
            (\<lambda>x t. x = \<lparr>mv_destination = dst, mv_size_bytes = node_size n\<rparr>
               \<and> store_step v t \<and> os_uuid_next t = os_uuid_next v
               \<and> moved (files v) src dst (files t) \<and> os_fs t src = None)
            (\<lambda>e t. e = StorageError \<and> store_step v t \<and> os_uuid_next t = os_uuid_next v
               \<and> \<not> no_os_faults v \<and> (files t = files v \<or> moved (files v) src dst (files t))) v"
            using n nfile free up bl dp
            by (intro wp_move_tail [where b = b and m = m and u = u and k = k]) (simp_all add: fsv)
          have "files s src = Some b" using n nfile by (simp add: files_def file_at_def)
          moreover have "os_device s (butlast src) = os_device s (dr @ ys)" using 2 d lv lt by simp
          ultimately show ?case
            using sv fv nv iv nfile
            by (intro wp_mono [OF tail [unfolded bl]]) (auto intro: store_step_trans)
        qed
      next
        case (2 e v)
        then show ?case using st lt nf looked_store_step [of t v]
          by (auto simp: looked_eqs intro: store_step_trans)
      qed
    qed
  qed
next
  case (2 e t)
  then show ?case
    by (auto simp: looked_eqs looked_store_step files_def file_at_def)
qed

lemma move_free_after_parents:
  assumes "dirs_step (prefixes_from dr ys) s t" and "dp = ys @ [c]"
    and "move_free s sr sp dr dp"
  shows "no_os_faults t \<and> files t (sr @ sp) \<noteq> None \<and> os_fs t (dr @ dp) = None
    \<and> os_device t (sr @ butlast sp) = os_device t (dr @ ys)"
proof -
  have "dr @ dp \<notin> set (prefixes_from dr ys)"
    using assms(2) by (auto simp: prefixes_from_iff)
  then show ?thesis
    using assms dirs_stepD [OF assms(1)]
    by (auto simp: move_free_def no_os_faults_frame fs_frame_eqs)
qed

lemma wp_atomic_move:
  assumes sok: "root_ok (os_fs s) sr" and dok: "root_ok (os_fs s) dr"
  shows "wp (atomic_move sr sraw dr draw)
     (\<lambda>x t. store_step s t \<and> os_uuid_next t = os_uuid_next s
        \<and> (\<exists>sp dp b. safe_relative sraw sp \<and> safe_relative draw dp
             \<and> moved (files s) (sr @ sp) (dr @ dp) (files t)
             \<and> mv_destination x = dr @ dp
             \<and> files s (sr @ sp) = Some b \<and> mv_size_bytes x = int (length b)
             \<and> os_fs t (sr @ sp) = None
             \<and> os_device s (sr @ butlast sp) = os_device s (dr @ butlast dp)))
     (\<lambda>e t. (e = StorageError \<or> is_os_error e \<and> \<not> no_os_faults s)
        \<and> store_step s t \<and> os_uuid_next t = os_uuid_next s
        \<and> (files t = files s \<or> \<not> no_os_faults s \<and> (\<exists>sp dp. safe_relative sraw sp
             \<and> safe_relative draw dp \<and> moved (files s) (sr @ sp) (dr @ dp) (files t)))
        \<and> \<not> (\<exists>sp dp. safe_relative sraw sp \<and> safe_relative draw dp
             \<and> move_free s sr sp dr dp)) s"
  unfolding atomic_move_def
proof (rule wp_bind_spec [OF wp_safe_resolve [OF sok]], goal_cases)
  case (1 src t)
  then obtain sp where l: "looked s t" and sp: "safe_relative sraw sp" and src: "src = sr @ sp"
    by auto
  note lt = looked_eqs [OF l]
  have dok': "root_ok (os_fs t) dr" using dok lt(1) by simp
  show ?case
  proof (rule wp_bind_spec [OF wp_safe_resolve [OF dok']], goal_cases)
    case (1 dst t2)
    then obtain dp where l2: "looked t t2" and dp: "safe_relative draw dp" and dst: "dst = dr @ dp"
      by auto
    note lt2 = looked_eqs [OF l2]
    obtain ys c where yc: "dp = ys @ [c]" using dp by (rule safe_relative_split)
    have bl: "butlast dp = ys" using yc by simp
    have dok2: "root_ok (os_fs t2) dr" using dok' lt2(1) by simp
    have l02: "looked s t2" using l l2 by (rule looked_trans)
    have nf2: "no_os_faults t2 = no_os_faults s" using lt lt2 by (simp add: no_os_faults_def)
    have bsrc: "butlast src = sr @ butlast sp"
      using src safe_relativeD(2) [OF sp] by (simp add: butlast_append)
    have frees: "move_free s sr sp dr dp \<longleftrightarrow> move_free t2 sr sp dr dp"
      using lt lt2 nf2 by (simp add: move_free_def)
    have uniq: "sp' = sp \<and> dp' = dp" if "safe_relative sraw sp'" "safe_relative draw dp'" for sp' dp'
      using that sp dp by (simp add: safe_relative_def)
    show ?case
    proof (rule wp_bind_spec [OF wp_ensure_private_parent [OF dok2 dp]], goal_cases)
      case (1 par t3)
      then have par: "par = dr @ ys" and d3: "dirs_step (prefixes_from dr ys) t2 t3"
        and pres: "all_present (os_fs t3) dr ys" and up: "\<exists>k. os_fs t3 (dr @ ys) = Some (Dir k)"
        by (auto simp: bl)
      obtain k where k: "os_fs t3 (dr @ ys) = Some (Dir k)" using up ..
      note D = dirs_stepD [OF d3]
      have d03: "dirs_step (prefixes_from dr ys) s t3" using l02 d3 by (rule looked_then_dirs_step)
      have ok3: "root_ok (os_fs t3) dr" using dok2 D(6) by (rule root_ok_grows)
      have cl: "list_all clean_part (ys @ [c])"
        using list_all_clean [OF safe_relativeD(3) [OF dp]] by (simp only: yc)
      have files3: "files t3 = files s" using dirs_stepD(5) [OF d03] .
      have st3: "store_step s t3" using d03 by (rule dirs_store_step)
      have id3: "os_uuid_next t3 = os_uuid_next s" using dirs_stepD(2) [OF d03] .
      have nf3: "no_os_faults t3 = no_os_faults s"
        using dirs_stepD(1) [OF d03] by (rule no_os_faults_frame)
      have notfree: "\<not> (no_os_faults t3 \<and> files t3 src \<noteq> None \<and> os_fs t3 dst = None
             \<and> os_device t3 (butlast src) = os_device t3 (dr @ ys)) \<Longrightarrow>
          \<not> move_free s sr sp dr dp"
        using move_free_after_parents [OF d03 yc, of sr sp] src dst bsrc by auto
      have dst': "dst = dr @ ys @ [c]" using dst yc by simp
      show ?case
        unfolding par
      proof (rule wp_mono [OF wp_move_checked [OF dst' ok3 cl pres k]], goal_cases)
        case (1 x t4)
        have dev3: "os_device t3 = os_device s"
          using dirs_stepD(1) [OF d03] by (rule fs_frame_eqs(1))
        have "store_step s t4" using st3 1 store_step_trans by blast
        moreover have "moved (files s) (sr @ sp) (dr @ dp) (files t4)" "mv_destination x = dr @ dp"
          "os_fs t4 (sr @ sp) = None" "os_uuid_next t4 = os_uuid_next s"
          using 1 files3 src dst id3 by auto
        moreover have "os_device s (sr @ butlast sp) = os_device s (dr @ butlast dp)"
          using 1 dev3 bsrc bl by simp
        moreover obtain b where "files s (sr @ sp) = Some b" "mv_size_bytes x = int (length b)"
          using 1 files3 src by auto
        ultimately show ?case using sp dp by blast
      next
        case (2 e t4)
        have "\<not> move_free s sr sp dr dp" using 2 by (intro notfree) simp
        then have no: "\<not> (\<exists>sp dp. safe_relative sraw sp \<and> safe_relative draw dp
             \<and> move_free s sr sp dr dp)"
          using uniq by blast
        have "store_step s t4" using st3 2 store_step_trans by blast
        moreover have "os_uuid_next t4 = os_uuid_next s" "e = StorageError"
          using 2 id3 by simp_all
        moreover have "files t4 = files s \<or> \<not> no_os_faults s
            \<and> moved (files s) (sr @ sp) (dr @ dp) (files t4)"
          using 2 files3 nf3 src dst by simp
        ultimately show ?case using no sp dp by blast
      qed
    next
      case (2 e t3)
      then have d03: "dirs_step (prefixes_from dr ys) s t3"
        using looked_then_dirs_step [OF l02] by (simp add: bl)
      have "\<not> move_free s sr sp dr dp"
        using 2 frees bl by (auto simp: move_free_def)
      then show ?case
        using 2 d03 nf2 uniq dirs_stepD(2,5) [OF d03] dirs_store_step [OF d03] by auto
    qed
  next
    case (2 e t2)
    have "looked s t2" using l 2 looked_trans by blast
    moreover have "no_os_faults t = no_os_faults s" using lt by (simp add: no_os_faults_def)
    ultimately show ?case
      using 2 by (auto simp: looked_eqs looked_store_step move_free_def)
  qed
next
  case (2 e t)
  have "all_present (os_fs s) sr sp" if "move_free s sr sp dr dp" for sp dp
    using that tree_ok_prefix_present [of "os_fs s" sr sp]
    by (auto simp: move_free_def files_def file_at_def split: option.splits)
  with 2 show ?case by (auto simp: looked_eqs looked_store_step move_free_def)
qed

end
