(* ===== verification/Hashing.thy ===== *)
theory Hashing
  imports FileSystem
begin

text \<open>
  \<open>app/storage/hashing.py\<close>: incremental SHA-256. The digest function of \<open>hashlib\<close> is the
  parameter \<open>sha\<close>; as documented there, the digest after several updates is the digest of
  the concatenated chunks, so the hasher's state is what it has consumed.
\<close>

record streaming_sha256 =
  consumed :: bytes
  bytes_processed :: int

definition new_sha256 :: streaming_sha256 where
  "new_sha256 = \<lparr>consumed = [], bytes_processed = 0\<rparr>"

definition sha256_update :: "streaming_sha256 \<Rightarrow> bytes \<Rightarrow> streaming_sha256" where
  "sha256_update d chunk =
     (if chunk = [] then d
      else d\<lparr>consumed := consumed d @ chunk,
             bytes_processed := bytes_processed d + int (length chunk)\<rparr>)"

definition hexdigest :: "(bytes \<Rightarrow> str) \<Rightarrow> streaming_sha256 \<Rightarrow> str" where
  "hexdigest sha d = sha (consumed d)"

text \<open>\<open>while chunk := stream.read(chunk_size): digest.update(chunk)\<close>\<close>

function sha256_loop :: "nat \<Rightarrow> bytes \<Rightarrow> streaming_sha256 \<Rightarrow> streaming_sha256" where
  "sha256_loop n stream d =
     (let chunk = take n stream in
      if chunk = [] then d else sha256_loop n (drop n stream) (sha256_update d chunk))"
  by pat_completeness auto
termination
  by (relation "measure (\<lambda>(n, stream, d). length stream)") (auto simp: Let_def)

declare sha256_loop.simps [simp del]

definition sha256_stream :: "(bytes \<Rightarrow> str) \<Rightarrow> bytes \<Rightarrow> int \<Rightarrow> exn + (str \<times> int)" where
  "sha256_stream sha stream chunk_size =
     (if chunk_size \<le> 0 then Inl ValueError
      else let d = sha256_loop (nat chunk_size) stream new_sha256
           in Inr (hexdigest sha d, bytes_processed d))"

definition default_chunk :: int where
  "default_chunk = 1024 * 1024"

definition sha256_file :: "(bytes \<Rightarrow> str) \<Rightarrow> path \<Rightarrow> ('z os_scheme, str \<times> int) eff" where
  "sha256_file sha p =
     bind (sys_read p) (\<lambda>stream. lift_result (sha256_stream sha stream default_chunk))"

lemma sha256_loop_all:
  "0 < n \<Longrightarrow> sha256_loop n stream d =
     d\<lparr>consumed := consumed d @ stream, bytes_processed := bytes_processed d + int (length stream)\<rparr>"
proof (induction n stream d rule: sha256_loop.induct)
  case (1 n stream d)
  show ?case
  proof (cases "take n stream = []")
    case True
    with "1.prems" have "stream = []" by simp
    with True show ?thesis by (subst sha256_loop.simps) simp
  next
    case False
    have "sha256_loop n stream d = sha256_loop n (drop n stream) (sha256_update d (take n stream))"
      using False by (subst sha256_loop.simps) simp
    also have "\<dots> = d\<lparr>consumed := consumed d @ take n stream @ drop n stream,
        bytes_processed := bytes_processed d + int (length (take n stream) + length (drop n stream))\<rparr>"
      using False "1.prems"
      by (subst "1.IH") (simp_all add: sha256_update_def Let_def del: append_take_drop_id)
    also have "length (take n stream) + length (drop n stream) = length stream"
      by simp
    finally show ?thesis by simp
  qed
qed

lemma sha256_stream_eq:
  "sha256_stream sha stream n =
     (if n \<le> 0 then Inl ValueError else Inr (sha stream, int (length stream)))"
  by (simp add: sha256_stream_def sha256_loop_all new_sha256_def hexdigest_def)

declare sha256_stream_eq [code]

lemma wp_sha256_file:
  "wp (sha256_file sha p)
     (\<lambda>r t. looked s t \<and> (\<exists>b. files s p = Some b \<and> r = (sha b, int (length b))))
     (\<lambda>e t. is_os_error e \<and> looked s t \<and> (no_os_faults s \<longrightarrow> files s p = None)) s"
  unfolding sha256_file_def
  by (rule wp_bind_spec [OF wp_sys_read])
    (auto simp: wp_simps sha256_stream_eq default_chunk_def)

end
