(* ===== verification/StoredFiles.thy ===== *)
theory StoredFiles
  imports Moves Hashing
begin

text \<open>
  \<open>app/storage/lifecycle.py\<close>: finding the physical file of a metadata path in the two
  storage areas, and staging a deletion in temporary storage.
\<close>

datatype storage_area = AreaQuarantine | AreaSoftware

fun storage_area_value :: "storage_area \<Rightarrow> str" where
  "storage_area_value AreaQuarantine = py ''quarantine''"
| "storage_area_value AreaSoftware = py ''software''"

record stored_file =
  st_area :: storage_area
  st_root :: path
  st_relative_path :: str
  st_path :: path
  st_size_bytes :: int

record staged_deletion =
  sd_original :: stored_file
  sd_relative_path :: str
  sd_path :: path

fun area_root :: "storage_paths \<Rightarrow> storage_area \<Rightarrow> path" where
  "area_root paths AreaQuarantine = sp_quarantine paths"
| "area_root paths AreaSoftware = sp_software paths"

definition inspect_area ::
  "storage_paths \<Rightarrow> str \<Rightarrow> storage_area \<Rightarrow> stored_file list \<Rightarrow> ('z os_scheme, stored_file list) eff" where
  "inspect_area paths relative area matches =
     bind (safe_resolve (area_root paths area) relative False True) (\<lambda>candidate.
     bind (gets os_fs) (\<lambda>f.
       if \<not> path_exists f candidate then ret matches
       else
         bind (os_error_as StorageError (sys_lstat candidate)) (\<lambda>metadata.
         bind (raise_if (\<not> is_regular metadata) StorageError) (\<lambda>_.
           ret (matches @ [\<lparr>st_area = area, st_root = area_root paths area,
             st_relative_path = relative, st_path = candidate,
             st_size_bytes = node_size metadata\<rparr>])))))"

definition inspect_stored_files ::
  "storage_paths \<Rightarrow> str \<Rightarrow> ('z os_scheme, stored_file list) eff" where
  "inspect_stored_files paths relative_path =
     fold_eff (inspect_area paths (as_posix relative_path)) [AreaQuarantine, AreaSoftware] []"

definition locate_stored_file :: "storage_paths \<Rightarrow> str \<Rightarrow> ('z os_scheme, stored_file) eff" where
  "locate_stored_file paths relative_path =
     bind (inspect_stored_files paths relative_path) (\<lambda>matches.
       case matches of
         [] \<Rightarrow> throw StorageError
       | [m] \<Rightarrow> ret m
       | _ \<Rightarrow> throw StorageError)"

definition staged_name :: "str \<Rightarrow> str" where
  "staged_name hex = py ''deletions/'' @ hex @ py ''.delete''"

definition stage_for_permanent_deletion ::
  "storage_paths \<Rightarrow> stored_file \<Rightarrow> ('z os_scheme, staged_deletion) eff" where
  "stage_for_permanent_deletion paths stored =
     bind fresh_uuid_hex (\<lambda>hex.
     bind (atomic_move (st_root stored) (st_relative_path stored)
             (sp_temporary paths) (staged_name hex)) (\<lambda>result.
       ret \<lparr>sd_original = stored, sd_relative_path = staged_name hex,
            sd_path = mv_destination result\<rparr>))"

definition restore_staged_deletion ::
  "storage_paths \<Rightarrow> staged_deletion \<Rightarrow> ('z os_scheme, stored_file) eff" where
  "restore_staged_deletion paths staged =
     bind (atomic_move (sp_temporary paths) (sd_relative_path staged)
             (st_root (sd_original staged)) (st_relative_path (sd_original staged))) (\<lambda>_.
       locate_stored_file paths (st_relative_path (sd_original staged)))"

definition unlink_staged_deletion ::
  "storage_paths \<Rightarrow> staged_deletion \<Rightarrow> ('z os_scheme, unit) eff" where
  "unlink_staged_deletion paths staged =
     bind (safe_resolve (sp_temporary paths) (sd_relative_path staged) True True) (\<lambda>p.
     bind (os_error_as StorageError (sys_lstat p)) (\<lambda>metadata.
     bind (raise_if (\<not> is_regular metadata) StorageError) (\<lambda>_.
       os_error_as StorageError (bind (sys_unlink p) (\<lambda>_. sys_fsync (butlast p))))))"

section \<open>A sound storage layout\<close>

definition separate :: "path \<Rightarrow> path \<Rightarrow> bool" where
  "separate p q \<longleftrightarrow> \<not> starts_with p q \<and> \<not> starts_with q p"

definition store_ok :: "storage_paths \<Rightarrow> 'z os_scheme \<Rightarrow> bool" where
  "store_ok paths s \<longleftrightarrow> tree_ok (os_fs s)
     \<and> root_ok (os_fs s) (sp_temporary paths) \<and> root_ok (os_fs s) (sp_quarantine paths)
     \<and> root_ok (os_fs s) (sp_software paths)
     \<and> separate (sp_temporary paths) (sp_quarantine paths)
     \<and> separate (sp_temporary paths) (sp_software paths)
     \<and> separate (sp_quarantine paths) (sp_software paths)"

lemma store_okD:
  assumes "store_ok paths s"
  shows "tree_ok (os_fs s)" "root_ok (os_fs s) (sp_temporary paths)"
    "root_ok (os_fs s) (area_root paths a)"
    "separate (sp_quarantine paths) (sp_software paths)"
    "separate (sp_temporary paths) (area_root paths a)"
  using assms by (cases a; simp add: store_ok_def)+

lemma store_ok_step: "store_ok paths s \<Longrightarrow> store_step s t \<Longrightarrow> store_ok paths t"
  by (auto simp: store_ok_def store_step_def intro: root_ok_grows)

lemma separate_neq: "separate p q \<Longrightarrow> p @ x \<noteq> q @ y"
  unfolding separate_def starts_with_iff
  by (metis append_eq_append_conv2)

lemma separate_sym: "separate p q \<longleftrightarrow> separate q p"
  by (auto simp: separate_def)

fun other_area :: "storage_area \<Rightarrow> storage_area" where
  "other_area AreaQuarantine = AreaSoftware"
| "other_area AreaSoftware = AreaQuarantine"

lemma other_area_other [simp]: "other_area (other_area a) = a"
  by (cases a) auto

lemma areas_differ: "store_ok paths s \<Longrightarrow> area_root paths (other_area a) @ x \<noteq> area_root paths a @ y"
  using separate_neq separate_sym by (cases a) (auto simp: store_ok_def)

lemma path_exists_ok:
  assumes "root_ok f r" and "tree_ok f" and "list_all clean_part parts"
  shows "path_exists f (r @ parts) \<longleftrightarrow> f (r @ parts) \<noteq> None"
proof (cases "all_present f r parts")
  case True
  then show ?thesis
    using root_ok_below(2) [OF assms(1,3), of True] by (simp add: path_exists_def)
next
  case False
  then have "f (r @ parts) = None" using tree_ok_prefix_present [OF assms(2)] by blast
  with False show ?thesis
    using root_ok_below(2) [OF assms(1,3), of True] by (simp add: path_exists_def)
qed

section \<open>Finding the file\<close>

definition stored_of :: "storage_paths \<Rightarrow> str \<Rightarrow> path \<Rightarrow> storage_area \<Rightarrow> bytes \<Rightarrow> stored_file" where
  "stored_of paths rel parts area b =
     \<lparr>st_area = area, st_root = area_root paths area, st_relative_path = rel,
      st_path = area_root paths area @ parts, st_size_bytes = int (length b)\<rparr>"

definition area_match ::
  "'z os_scheme \<Rightarrow> storage_paths \<Rightarrow> str \<Rightarrow> path \<Rightarrow> storage_area \<Rightarrow> stored_file list" where
  "area_match s paths rel parts area =
     (case files s (area_root paths area @ parts) of
        None \<Rightarrow> [] | Some b \<Rightarrow> [stored_of paths rel parts area b])"

text \<open>The entry is a regular file or nothing.\<close>

definition clear_entry :: "'z os_scheme \<Rightarrow> path \<Rightarrow> bool" where
  "clear_entry s p \<longleftrightarrow> os_fs s p = None \<or> files s p \<noteq> None"

lemma wp_inspect_found:
  assumes n: "os_fs s q = Some n"
  shows "wp (bind (os_error_as StorageError (sys_lstat q)) (\<lambda>metadata.
         bind (raise_if (\<not> is_regular metadata) StorageError) (\<lambda>_.
           ret (ms @ [\<lparr>st_area = area, st_root = r,
             st_relative_path = rel, st_path = q, st_size_bytes = node_size metadata\<rparr>]))))
     (\<lambda>x t. looked s t \<and> (\<exists>b. files s q = Some b \<and> x = ms @ [\<lparr>st_area = area, st_root = r,
             st_relative_path = rel, st_path = q, st_size_bytes = int (length b)\<rparr>]))
     (\<lambda>e t. e = StorageError \<and> looked s t \<and> \<not> (no_os_faults s \<and> files s q \<noteq> None)) s"
proof (rule wp_bind_spec [OF wp_os_error_asI [OF wp_sys_lstat]], goal_cases)
  case (1 m t)
  then have "m = n" "looked s t" using n by auto
  then show ?case by (cases n) (auto simp: wp_simps files_def file_at_def n)
next
  case (2 e t)
  then show ?case using n by auto
qed

lemma wp_inspect_area:
  assumes ok: "store_ok paths s"
  shows "wp (inspect_area paths rel area ms)
     (\<lambda>r t. looked s t \<and> (\<exists>parts. safe_relative rel parts
        \<and> clear_entry s (area_root paths area @ parts)
        \<and> r = ms @ area_match s paths rel parts area))
     (\<lambda>e t. e = StorageError \<and> looked s t \<and> \<not> (no_os_faults s \<and> (\<exists>parts. safe_relative rel parts
        \<and> clear_entry s (area_root paths area @ parts)))) s"
  unfolding inspect_area_def
proof (rule wp_bind_spec [OF wp_safe_resolve [OF store_okD(3) [OF ok]]], goal_cases)
  case (1 q t)
  then obtain parts where l: "looked s t" and sp: "safe_relative rel parts"
    and q: "q = area_root paths area @ parts" by auto
  note lt = looked_eqs [OF l]
  have nf: "no_os_faults t = no_os_faults s" using lt by (simp add: no_os_faults_def)
  have uniq: "safe_relative rel p \<Longrightarrow> p = parts" for p using sp by (simp add: safe_relative_def)
  have ex: "path_exists (os_fs t) q \<longleftrightarrow> os_fs s q \<noteq> None"
    using path_exists_ok [OF store_okD(3,1) [OF ok] list_all_clean [OF safe_relativeD(3) [OF sp]]]
    by (simp add: q lt)
  show ?case
  proof (rule wp_bind_gets, cases "os_fs s q")
    case None
    then have "clear_entry s q" "area_match s paths rel parts area = []"
      by (simp_all add: clear_entry_def area_match_def files_def file_at_def flip: q)
    with None ex l sp q show "wp (if \<not> path_exists (os_fs t) q then ret ms else
         bind (os_error_as StorageError (sys_lstat q)) (\<lambda>metadata.
         bind (raise_if (\<not> is_regular metadata) StorageError) (\<lambda>_.
           ret (ms @ [\<lparr>st_area = area, st_root = area_root paths area,
             st_relative_path = rel, st_path = q, st_size_bytes = node_size metadata\<rparr>]))))
       (\<lambda>r t. looked s t \<and> (\<exists>parts. safe_relative rel parts
          \<and> clear_entry s (area_root paths area @ parts)
          \<and> r = ms @ area_match s paths rel parts area))
       (\<lambda>e t. e = StorageError \<and> looked s t \<and> \<not> (no_os_faults s \<and> (\<exists>parts. safe_relative rel parts
          \<and> clear_entry s (area_root paths area @ parts)))) t"
      by (simp add: wp_simps) blast
  next
    case (Some n)
    have nt: "os_fs t q = Some n" using Some lt by simp
    have ft: "files t q = files s q" using lt by simp
    have "wp (bind (os_error_as StorageError (sys_lstat q)) (\<lambda>metadata.
         bind (raise_if (\<not> is_regular metadata) StorageError) (\<lambda>_.
           ret (ms @ [\<lparr>st_area = area, st_root = area_root paths area,
             st_relative_path = rel, st_path = q, st_size_bytes = node_size metadata\<rparr>]))))
       (\<lambda>r t. looked s t \<and> (\<exists>parts. safe_relative rel parts
          \<and> clear_entry s (area_root paths area @ parts)
          \<and> r = ms @ area_match s paths rel parts area))
       (\<lambda>e t. e = StorageError \<and> looked s t \<and> \<not> (no_os_faults s \<and> (\<exists>parts. safe_relative rel parts
          \<and> clear_entry s (area_root paths area @ parts)))) t"
    proof (rule wp_mono [OF wp_inspect_found [OF nt]], goal_cases)
      case (1 x u)
      then obtain b where b: "files s q = Some b" and x: "x = ms @ [\<lparr>st_area = area,
          st_root = area_root paths area, st_relative_path = rel, st_path = q,
          st_size_bytes = int (length b)\<rparr>]" and u: "looked t u"
        using ft by auto
      have "clear_entry s q" using b by (simp add: clear_entry_def)
      moreover have "x = ms @ area_match s paths rel parts area"
        using b x by (simp add: area_match_def stored_of_def q)
      ultimately show ?case using l u sp q looked_trans by blast
    next
      case (2 e u)
      have "looked s u" using l 2 looked_trans by blast
      moreover have "\<not> (no_os_faults s \<and> clear_entry s q)"
        using 2 nf ft Some by (simp add: clear_entry_def)
      ultimately show ?case using 2 uniq q by blast
    qed
    with ex Some show "wp (if \<not> path_exists (os_fs t) q then ret ms else
         bind (os_error_as StorageError (sys_lstat q)) (\<lambda>metadata.
         bind (raise_if (\<not> is_regular metadata) StorageError) (\<lambda>_.
           ret (ms @ [\<lparr>st_area = area, st_root = area_root paths area,
             st_relative_path = rel, st_path = q, st_size_bytes = node_size metadata\<rparr>]))))
       (\<lambda>r t. looked s t \<and> (\<exists>parts. safe_relative rel parts
          \<and> clear_entry s (area_root paths area @ parts)
          \<and> r = ms @ area_match s paths rel parts area))
       (\<lambda>e t. e = StorageError \<and> looked s t \<and> \<not> (no_os_faults s \<and> (\<exists>parts. safe_relative rel parts
          \<and> clear_entry s (area_root paths area @ parts)))) t"
      by simp
  qed
next
  case (2 e t)
  then show ?case by blast
qed

lemma clear_entry_looked [simp]: "looked s t \<Longrightarrow> clear_entry t p = clear_entry s p"
  by (simp add: clear_entry_def looked_eqs)

lemma area_match_looked [simp]: "looked s t \<Longrightarrow> area_match t paths rel parts a = area_match s paths rel parts a"
  by (simp add: area_match_def looked_eqs)

lemma no_os_faults_looked [simp]: "looked s t \<Longrightarrow> no_os_faults t = no_os_faults s"
  by (simp add: no_os_faults_def looked_eqs)

lemma store_ok_looked: "looked s t \<Longrightarrow> store_ok paths s \<Longrightarrow> store_ok paths t"
  by (simp add: store_ok_def looked_eqs)

definition both_clear :: "'z os_scheme \<Rightarrow> storage_paths \<Rightarrow> path \<Rightarrow> bool" where
  "both_clear s paths parts \<longleftrightarrow> clear_entry s (sp_quarantine paths @ parts)
     \<and> clear_entry s (sp_software paths @ parts)"

lemma wp_inspect_stored_files:
  assumes ok: "store_ok paths s"
  shows "wp (inspect_stored_files paths raw)
     (\<lambda>r t. looked s t \<and> (\<exists>parts. safe_relative (as_posix raw) parts \<and> both_clear s paths parts
        \<and> r = area_match s paths (as_posix raw) parts AreaQuarantine
              @ area_match s paths (as_posix raw) parts AreaSoftware))
     (\<lambda>e t. e = StorageError \<and> looked s t
        \<and> \<not> (no_os_faults s \<and> (\<exists>parts. safe_relative (as_posix raw) parts
              \<and> both_clear s paths parts))) s"
  unfolding inspect_stored_files_def fold_eff.simps
proof (rule wp_bind_spec [OF wp_inspect_area [OF ok]], goal_cases)
  case (1 ms t)
  then obtain parts where l: "looked s t" and sp: "safe_relative (as_posix raw) parts"
    and c: "clear_entry s (sp_quarantine paths @ parts)"
    and ms: "ms = area_match s paths (as_posix raw) parts AreaQuarantine" by auto
  have uniq: "safe_relative (as_posix raw) p \<Longrightarrow> p = parts" for p
    using sp by (simp add: safe_relative_def)
  show ?case
  proof (rule wp_bind_spec [OF wp_inspect_area [OF store_ok_looked [OF l ok]]], goal_cases)
    case (1 r u)
    then obtain p where u: "looked t u" and p: "safe_relative (as_posix raw) p"
      and cp: "clear_entry s (sp_software paths @ p)"
      and r: "r = ms @ area_match s paths (as_posix raw) p AreaSoftware"
      using l by auto
    have pp: "p = parts" using p by (rule uniq)
    have lu: "looked s u" using l u by (rule looked_trans)
    have "both_clear s paths parts" using c cp pp by (simp add: both_clear_def)
    then show ?case using lu sp r ms pp by (simp add: wp_simps) blast
  next
    case (2 e u)
    have lu: "looked s u" using l 2 looked_trans by blast
    have "\<not> (no_os_faults s \<and> clear_entry s (sp_software paths @ parts))" using 2 l sp by auto
    then have "\<not> (no_os_faults s \<and> both_clear s paths parts)" by (simp add: both_clear_def)
    then show ?case using 2 lu uniq by blast
  qed
next
  case (2 e t)
  then show ?case by (simp add: both_clear_def) blast
qed

text \<open>
  \<open>located s paths raw st\<close>: the stored file \<open>st\<close> is the one physical file of the metadata
  path \<open>raw\<close>, in its area and absent from the other.
\<close>

definition located :: "'z os_scheme \<Rightarrow> storage_paths \<Rightarrow> str \<Rightarrow> stored_file \<Rightarrow> bool" where
  "located s paths raw st \<longleftrightarrow> (\<exists>parts b. safe_relative (as_posix raw) parts
     \<and> files s (area_root paths (st_area st) @ parts) = Some b
     \<and> os_fs s (area_root paths (other_area (st_area st)) @ parts) = None
     \<and> st = stored_of paths (as_posix raw) parts (st_area st) b)"

lemma located_looked [simp]: "looked s t \<Longrightarrow> located t paths raw st = located s paths raw st"
  by (simp add: located_def looked_eqs)

lemma wp_locate_stored_file:
  assumes ok: "store_ok paths s"
  shows "wp (locate_stored_file paths raw)
     (\<lambda>st t. looked s t \<and> located s paths raw st)
     (\<lambda>e t. e = StorageError \<and> looked s t
        \<and> \<not> (no_os_faults s \<and> (\<exists>st. located s paths raw st))) s"
  unfolding locate_stored_file_def
proof (rule wp_bind_spec [OF wp_inspect_stored_files [OF ok]], goal_cases)
  case (1 ms t)
  then obtain parts where l: "looked s t" and sp: "safe_relative (as_posix raw) parts"
    and bc: "both_clear s paths parts"
    and ms: "ms = area_match s paths (as_posix raw) parts AreaQuarantine
              @ area_match s paths (as_posix raw) parts AreaSoftware" by auto
  have uniq: "safe_relative (as_posix raw) p \<Longrightarrow> p = parts" for p
    using sp by (simp add: safe_relative_def)
  have free: "files s p = None \<Longrightarrow> clear_entry s p \<Longrightarrow> os_fs s p = None" for p
    by (simp add: clear_entry_def)
  have nofile: "os_fs s p = None \<Longrightarrow> files s p = None" for p
    by (simp add: files_def file_at_def)
  show ?case
  proof (cases "files s (sp_quarantine paths @ parts)")
    case q: None
    show ?thesis
    proof (cases "files s (sp_software paths @ parts)")
      case None
      have "\<not> located s paths raw st" for st
        using q None uniq by (cases "st_area st") (auto simp: located_def)
      then show ?thesis using q None ms l by (simp add: wp_simps area_match_def)
    next
      case (Some b)
      have "located s paths raw (stored_of paths (as_posix raw) parts AreaSoftware b)"
        using Some q free bc sp by (auto simp: located_def stored_of_def both_clear_def)
      then show ?thesis using q Some ms l by (simp add: wp_simps area_match_def)
    qed
  next
    case q: (Some b)
    show ?thesis
    proof (cases "files s (sp_software paths @ parts)")
      case None
      have "located s paths raw (stored_of paths (as_posix raw) parts AreaQuarantine b)"
        using None q free bc sp by (auto simp: located_def stored_of_def both_clear_def)
      then show ?thesis using q None ms l by (simp add: wp_simps area_match_def)
    next
      case (Some c)
      have "\<not> located s paths raw st" for st
        using q Some uniq nofile by (cases "st_area st") (auto simp: located_def dest!: nofile)
      then show ?thesis using q Some ms l by (simp add: wp_simps area_match_def)
    qed
  qed
next
  case (2 e t)
  have "\<exists>parts. safe_relative (as_posix raw) parts \<and> both_clear s paths parts"
    if "located s paths raw st" for st
    using that by (cases "st_area st") (auto simp: located_def both_clear_def clear_entry_def)
  with 2 show ?case by blast
qed

end
