(* ===== verification/Staging.thy ===== *)
theory Staging
  imports StoredFiles
begin

text \<open>
  What the physical moves of \<open>app/storage/lifecycle.py\<close> guarantee to the services: a
  transfer of one file between two roots can always be taken back while the operating system
  works, and a staged deletion ends with the bytes gone.
\<close>

section \<open>A transfer and its way back\<close>

definition transfer ::
  "'z os_scheme \<Rightarrow> path \<Rightarrow> path \<Rightarrow> path \<Rightarrow> path \<Rightarrow> 'z os_scheme \<Rightarrow> bool" where
  "transfer s r p r' p' t \<longleftrightarrow> store_step s t \<and> moved (files s) (r @ p) (r' @ p') (files t)
     \<and> os_fs t (r @ p) = None \<and> os_device s (r @ butlast p) = os_device s (r' @ butlast p')"

text \<open>Two states of the operating system that look alike to a move.\<close>

definition same_store :: "'z os_scheme \<Rightarrow> 'z os_scheme \<Rightarrow> bool" where
  "same_store s t \<longleftrightarrow> os_fs t = os_fs s \<and> os_device t = os_device s \<and> os_fault t = os_fault s"

lemma same_storeD:
  assumes "same_store s t"
  shows "os_fs t = os_fs s" "files t = files s" "no_os_faults t = no_os_faults s"
    "store_ok paths t = store_ok paths s" "move_free t r p r' p' = move_free s r p r' p'"
  using assms by (auto simp: same_store_def files_def no_os_faults_def store_ok_def move_free_def)

lemma same_store_refl [simp, intro]: "same_store s s"
  by (simp add: same_store_def)

lemma parents_are_dirs:
  assumes "tree_ok f" and "f (d @ p) \<noteq> None" and "q \<in> set (prefixes_from d (butlast p))"
  shows "\<exists>m. f q = Some (Dir m)"
proof -
  obtain ys zs where q: "ys \<noteq> []" "butlast p = ys @ zs" "q = d @ ys"
    using assms(3) by (auto simp: prefixes_from_iff)
  then have "p \<noteq> []" by auto
  then obtain xs where xs: "p = ys @ xs" "xs \<noteq> []"
    using q(2) by (metis append.assoc append_butlast_last_id snoc_eq_iff_butlast)
  have "f (q @ xs) \<noteq> None" using assms(2) xs(1) q(3) by simp
  then show ?thesis using xs(2)
  proof (induction xs rule: rev_induct)
    case Nil
    then show ?case by simp
  next
    case (snoc x xs)
    then have "f ((q @ xs) @ [x]) \<noteq> None" by simp
    then have "\<exists>m. f (q @ xs) = Some (Dir m)" using assms(1) unfolding tree_ok_def by blast
    then show ?case using snoc.IH by (cases "xs = []") auto
  qed
qed

lemma transfer_reversible:
  assumes tr: "transfer s r p r' p' t" and ok: "tree_ok (os_fs s)" and nf: "no_os_faults s"
  shows "move_free t r' p' r p"
proof -
  have st: "store_step s t" and mv: "moved (files s) (r @ p) (r' @ p') (files t)"
    using tr by (auto simp: transfer_def)
  have fr: "fs_frame s t" and gr: "tree_grows (os_fs s) (os_fs t)" and okt: "tree_ok (os_fs t)"
    using st ok by (auto simp: store_step_def)
  have "files s (r @ p) \<noteq> None" using mv by (simp add: moved_def)
  then have there: "os_fs s (r @ p) \<noteq> None"
    by (cases "os_fs s (r @ p)") (auto simp: files_def file_at_def)
  have "free_or_dir (os_fs t) q" if "q \<in> set (prefixes_from r (butlast p))" for q
    using parents_are_dirs [OF ok there that] gr by (auto simp: tree_grows_def free_or_dir_def)
  then have "list_all (free_or_dir (os_fs t)) (prefixes_from r (butlast p))"
    by (simp add: list_all_iff)
  moreover have "files t (r' @ p') \<noteq> None" using mv by (auto simp: moved_def)
  moreover have "os_device t (r' @ butlast p') = os_device t (r @ butlast p)"
    using tr fr by (simp add: transfer_def fs_frame_eqs)
  moreover have "no_os_faults t" using nf fr by (simp add: no_os_faults_frame)
  ultimately show ?thesis using tr okt by (simp add: move_free_def transfer_def)
qed

text \<open>A move, in these words.\<close>

lemma wp_move:
  assumes sok: "root_ok (os_fs s) r" and dok: "root_ok (os_fs s) r'"
  shows "wp (atomic_move r raw r' raw')
     (\<lambda>x t. os_uuid_next t = os_uuid_next s \<and> (\<exists>p p'. safe_relative raw p
        \<and> safe_relative raw' p' \<and> transfer s r p r' p' t \<and> mv_destination x = r' @ p'))
     (\<lambda>e t. store_step s t \<and> os_uuid_next t = os_uuid_next s
        \<and> (no_os_faults s \<longrightarrow> e = StorageError \<and> files t = files s)
        \<and> \<not> (\<exists>p p'. safe_relative raw p \<and> safe_relative raw' p' \<and> move_free s r p r' p')) s"
proof (rule wp_mono [OF wp_atomic_move [OF sok dok]], goal_cases)
  case (1 x t)
  then show ?case unfolding transfer_def by blast
next
  case (2 e t)
  then show ?case by blast
qed

lemma wp_move_back:
  assumes tr: "transfer s r p r' p' t" and ok: "tree_ok (os_fs s)" and nf: "no_os_faults s"
    and rok: "root_ok (os_fs s) r" "root_ok (os_fs s) r'"
    and rel: "safe_relative raw p" "safe_relative raw' p'" and u: "same_store t u"
  shows "wp (atomic_move r' raw' r raw) (\<lambda>_ v. store_step u v \<and> files v = files s)
     (\<lambda>_ _. False) u"
proof -
  have st: "store_step s t" using tr by (simp add: transfer_def)
  have oks: "root_ok (os_fs u) r'" "root_ok (os_fs u) r"
    using store_step_root_ok [OF st] rok same_storeD(1) [OF u] by auto
  have free: "move_free u r' p' r p"
    using transfer_reversible [OF tr ok nf] same_storeD(5) [OF u] by blast
  have fu: "files u = files t" using u by (rule same_storeD(2))
  show ?thesis
  proof (rule wp_mono [OF wp_move [OF oks]], goal_cases)
    case (1 x v)
    then obtain q q' where q: "safe_relative raw' q" "safe_relative raw q'"
      and b: "transfer u r' q r q' v" by blast
    have "q = p'" "q' = p" using q rel by (simp_all add: safe_relative_def)
    then have "moved (files t) (r' @ p') (r @ p) (files v)" "store_step u v"
      using b fu by (auto simp: transfer_def)
    moreover have "moved (files s) (r @ p) (r' @ p') (files t)" using tr by (simp add: transfer_def)
    ultimately show ?case by (intro conjI moved_back)
  next
    case (2 e v)
    then show ?case using free rel by blast
  qed
qed

lemma as_posix_safe: "safe_relative raw p \<Longrightarrow> as_posix raw = raw"
proof -
  assume sp: "safe_relative raw p"
  note d = safe_relativeD [OF sp]
  have "\<not> is_absolute raw"
    using sp by (auto simp: safe_relative_def reject_unsafe_relative_path_def split: if_splits)
  then have "\<not> starts_with [slash, slash] raw"
    by (auto simp: is_absolute_def starts_with_iff)
  moreover have "join_on slash (pure_parts raw) = raw"
    using d pure_parts_safe [of raw] by simp
  ultimately show ?thesis
    using \<open>\<not> is_absolute raw\<close> d(5) by (simp add: as_posix_def Let_def)
qed

section \<open>Staged deletions\<close>

lemma locatedD:
  assumes "located s paths raw st"
  obtains parts b where "safe_relative (st_relative_path st) parts"
    "st_relative_path st = as_posix raw" "st_root st = area_root paths (st_area st)"
    "st_path st = area_root paths (st_area st) @ parts"
    "files s (area_root paths (st_area st) @ parts) = Some b"
    "st_size_bytes st = int (length b)"
    "os_fs s (area_root paths (other_area (st_area st)) @ parts) = None"
proof -
  obtain parts b where *: "safe_relative (as_posix raw) parts"
    "files s (area_root paths (st_area st) @ parts) = Some b"
    "os_fs s (area_root paths (other_area (st_area st)) @ parts) = None"
    "st = stored_of paths (as_posix raw) parts (st_area st) b"
    using assms by (auto simp: located_def)
  have "st_relative_path st = as_posix raw" "st_root st = area_root paths (st_area st)"
    "st_path st = area_root paths (st_area st) @ parts" "st_size_bytes st = int (length b)"
    using *(4) by (simp_all add: stored_of_def) (metis stored_file.select_convs)+
  then show ?thesis using * by (intro that [of parts b]) auto
qed

text \<open>\<open>staged_at s st t\<close>: from \<open>s\<close> to \<open>t\<close> the stored file went to the staging name.\<close>

definition staged_at ::
  "'z os_scheme \<Rightarrow> storage_paths \<Rightarrow> staged_deletion \<Rightarrow> 'z os_scheme \<Rightarrow> bool" where
  "staged_at s paths sd t \<longleftrightarrow> (\<exists>p p'. safe_relative (st_relative_path (sd_original sd)) p
     \<and> safe_relative (sd_relative_path sd) p'
     \<and> transfer s (st_root (sd_original sd)) p (sp_temporary paths) p' t)"

lemma staged_at_step: "staged_at s paths sd t \<Longrightarrow> store_step s t"
  by (auto simp: staged_at_def transfer_def)

lemma wp_stage_for_permanent_deletion:
  assumes ok: "store_ok paths s" and root: "st_root st = area_root paths a"
  shows "wp (stage_for_permanent_deletion paths st)
     (\<lambda>sd t. staged_at (s\<lparr>os_uuid_next := Suc (os_uuid_next s)\<rparr>) paths sd t \<and> sd_original sd = st)
     (\<lambda>e t. store_step s t \<and> (no_os_faults s \<longrightarrow> e = StorageError \<and> files t = files s)) s"
proof -
  let ?s = "s\<lparr>os_uuid_next := Suc (os_uuid_next s)\<rparr>"
  have f: "os_fs ?s = os_fs s" "no_os_faults ?s = no_os_faults s" "store_step s ?s"
    by (simp_all add: no_os_faults_def store_step_def)
  have oks: "root_ok (os_fs ?s) (st_root st)" "root_ok (os_fs ?s) (sp_temporary paths)"
    using store_okD [OF ok] root by simp_all
  show ?thesis
    unfolding stage_for_permanent_deletion_def wp_bind wp_fresh_uuid_hex wp_basic
  proof (rule wp_mono [OF wp_move [OF oks]], goal_cases)
    case (1 x t)
    then show ?case by (auto simp: staged_at_def)
  next
    case (2 e t)
    then show ?case using f store_step_trans [OF f(3)] by auto
  qed
qed

lemma wp_restore_staged_deletion:
  assumes ok: "store_ok paths s" and st: "staged_at s paths sd t" and nf: "no_os_faults s"
    and u: "same_store t u" and root: "st_root (sd_original sd) = area_root paths a"
  shows "wp (restore_staged_deletion paths sd)
     (\<lambda>_ v. store_step u v \<and> files v = files s)
     (\<lambda>e v. e = StorageError \<and> store_step u v \<and> files v = files s) u"
proof -
  obtain p p' where rel: "safe_relative (st_relative_path (sd_original sd)) p"
      "safe_relative (sd_relative_path sd) p'"
    and tr: "transfer s (st_root (sd_original sd)) p (sp_temporary paths) p' t"
    using st by (auto simp: staged_at_def)
  have tok: "tree_ok (os_fs s)" and rok: "root_ok (os_fs s) (st_root (sd_original sd))"
    "root_ok (os_fs s) (sp_temporary paths)"
    using store_okD [OF ok] root by simp_all
  have oku: "store_ok paths u"
    using store_ok_step [OF ok] tr same_storeD(4) [OF u] by (simp add: transfer_def)
  show ?thesis
    unfolding restore_staged_deletion_def
  proof (rule wp_bind_spec [OF wp_move_back [OF tr tok nf rok rel u]], goal_cases)
    case (1 x v)
    then have okv: "store_ok paths v" using oku store_ok_step by blast
    show ?case
      by (rule wp_mono [OF wp_locate_stored_file [OF okv]])
        (use 1 in \<open>auto simp: looked_eqs intro: store_step_trans looked_store_step\<close>)
  qed simp
qed

lemma remove_step:
  assumes "os_fs s p = Some (File b m u)" and "os_fs t = (os_fs s)(p := None)" and "fs_frame s t"
  shows "store_step s t" and "files t = (files s)(p := None)"
  using assms tree_grows_remove [of "os_fs s" p b m u] tree_ok_remove [of "os_fs s" p b m u]
  by (auto simp: store_step_def files_def file_at_def)

text \<open>The removal of a staged file that is there.\<close>

lemma wp_unlink_regular:
  assumes f: "os_fs s q = Some (File b m u)" and up: "os_fs s (butlast q) \<noteq> None"
    and ne: "q \<noteq> []"
  shows "wp (os_error_as StorageError (bind (sys_unlink q) (\<lambda>_. sys_fsync (butlast q))))
     (\<lambda>_ t. store_step s t \<and> files t = (files s)(q := None))
     (\<lambda>e t. e = StorageError \<and> store_step s t \<and> \<not> no_os_faults s
        \<and> (files t = files s \<or> files t = (files s)(q := None))) s"
proof -
  have "wp (bind (sys_unlink q) (\<lambda>_. sys_fsync (butlast q)))
     (\<lambda>_ t. store_step s t \<and> files t = (files s)(q := None))
     (\<lambda>e t. is_os_error e \<and> store_step s t \<and> \<not> no_os_faults s
        \<and> (files t = files s \<or> files t = (files s)(q := None))) s"
  proof (rule wp_bind_spec [OF wp_sys_unlink], goal_cases)
    case (1 x t)
    then have fs: "os_fs t = (os_fs s)(q := None)" and fr: "fs_frame s t" by auto
    note st = remove_step [OF f fs fr]
    have "butlast q \<noteq> q" using ne by (metis append_butlast_last_id not_Cons_self2 self_append_conv)
    then have up': "os_fs t (butlast q) \<noteq> None" using up fs by simp
    have nf: "no_os_faults t = no_os_faults s" using fr by (rule no_os_faults_frame)
    show ?case
      by (rule wp_mono [OF wp_sys_fsync])
        (use st up' nf in \<open>auto simp: looked_eqs intro: store_step_trans looked_store_step\<close>)
  next
    case (2 e t)
    then show ?case using f by (auto simp: looked_eqs looked_store_step)
  qed
  then show ?thesis unfolding wp_os_error_as by (rule wp_mono) auto
qed

lemma wp_unlink_staged_deletion:
  assumes ok: "store_ok paths s"
  shows "wp (unlink_staged_deletion paths sd)
     (\<lambda>_ t. store_step s t \<and> (\<exists>p. safe_relative (sd_relative_path sd) p
        \<and> files t = (files s)(sp_temporary paths @ p := None)))
     (\<lambda>e t. e = StorageError \<and> store_step s t
        \<and> (files t = files s \<or> (\<exists>p. safe_relative (sd_relative_path sd) p
             \<and> files t = (files s)(sp_temporary paths @ p := None)))
        \<and> \<not> (no_os_faults s \<and> (\<exists>p. safe_relative (sd_relative_path sd) p
             \<and> files s (sp_temporary paths @ p) \<noteq> None))) s"
  unfolding unlink_staged_deletion_def
proof (rule wp_bind_spec [OF wp_safe_resolve [OF store_okD(2) [OF ok]]], goal_cases)
  case (1 q t)
  then obtain p where l: "looked s t" and sp: "safe_relative (sd_relative_path sd) p"
    and q: "q = sp_temporary paths @ p" by auto
  have uniq: "safe_relative (sd_relative_path sd) p' \<Longrightarrow> p' = p" for p'
    using sp by (simp add: safe_relative_def)
  note lt = looked_eqs [OF l]
  show ?case
  proof (rule wp_bind_spec [OF wp_os_error_asI [OF wp_sys_lstat]], goal_cases)
    case (1 n v)
    then have lv: "looked s v" and n: "os_fs s q = Some n" using l looked_trans lt by auto
    note le = looked_eqs [OF lv]
    show ?case
    proof (rule wp_bind_raise_if, goal_cases)
      case 1
      then have "files s q = None" using n by (cases n) (auto simp: files_def file_at_def)
      then have no: "\<not> (no_os_faults s \<and> (\<exists>p. safe_relative (sd_relative_path sd) p
             \<and> files s (sp_temporary paths @ p) \<noteq> None))" unfolding q by (auto dest!: uniq)
      then show ?case using le(2) looked_store_step [OF lv] by simp
    next
      case 2
      then obtain b m u where nf: "n = File b m u" by (cases n) auto
      have ne: "q \<noteq> []" using safe_relativeD(2) [OF sp] q by simp
      have "butlast q @ [last q] = q" using ne by simp
      then have "\<exists>k. os_fs s (butlast q) = Some (Dir k)"
        using store_okD(1) [OF ok] n unfolding tree_ok_def by (metis option.distinct(1))
      then have up: "os_fs v (butlast q) \<noteq> None" using le by auto
      have fv: "os_fs v q = Some (File b m u)" using n nf le by simp
      have sv: "store_step s v" using lv by (rule looked_store_step)
      have nv: "no_os_faults v = no_os_faults s" using lv by simp
      show ?case
      proof (rule wp_mono [OF wp_unlink_regular [OF fv up ne]], goal_cases)
        case (1 x w)
        then have "store_step s w" using sv store_step_trans by blast
        moreover have "files w = (files s)(q := None)" using 1 le by simp
        ultimately show ?case using sp q by blast
      next
        case (2 e w)
        have "store_step s w" using sv 2 store_step_trans by blast
        moreover have "files w = files s \<or> files w = (files s)(q := None)" using 2 le by simp
        moreover have "\<not> no_os_faults s" "e = StorageError" using 2 nv by simp_all
        ultimately show ?case using sp q by blast
      qed
    qed
  next
    case (2 e v)
    then have lv: "looked s v" using l looked_trans by blast
    have "\<not> (no_os_faults s \<and> files s q \<noteq> None)"
      using 2 l lt by (auto simp: files_def file_at_def)
    then have "\<not> (no_os_faults s \<and> (\<exists>p. safe_relative (sd_relative_path sd) p
             \<and> files s (sp_temporary paths @ p) \<noteq> None))" unfolding q by (auto dest!: uniq)
    moreover have "e = StorageError" using 2 by simp
    ultimately show ?case using looked_store_step [OF lv] looked_eqs(2) [OF lv] by simp
  qed
next
  case (2 e t)
  have "all_present (os_fs s) (sp_temporary paths) p"
    if "files s (sp_temporary paths @ p) \<noteq> None" for p
    using that tree_ok_prefix_present [OF store_okD(1) [OF ok], of "sp_temporary paths" p]
    by (auto simp: files_def file_at_def split: option.splits)
  then have "\<not> (no_os_faults s \<and> (\<exists>p. safe_relative (sd_relative_path sd) p
             \<and> files s (sp_temporary paths @ p) \<noteq> None))"
    using 2 by blast
  moreover have l: "looked s t" "e = StorageError" using 2 by simp_all
  ultimately show ?case using looked_store_step [OF l(1)] looked_eqs(2) [OF l(1)] by simp
qed

end
