(* ===== verification/Signatures.thy ===== *)
theory Signatures
  imports PyText
begin

text \<open>
  \<open>app/storage/signatures.py\<close>: detection of the four supported containers from the first
  bytes of a file, and the comparison with the file name extension and the stored MIME type.
\<close>

datatype signature_assessment = SigMatch | SigMismatch | SigUnidentified

record detected_file_type =
  det_extension :: str
  det_mime_type :: str

definition PE_type :: detected_file_type where
  "PE_type = \<lparr>det_extension = py ''.exe'',
     det_mime_type = py ''application/vnd.microsoft.portable-executable''\<rparr>"

definition MSI_type :: detected_file_type where
  "MSI_type = \<lparr>det_extension = py ''.msi'', det_mime_type = py ''application/x-msi''\<rparr>"

definition ZIP_type :: detected_file_type where
  "ZIP_type = \<lparr>det_extension = py ''.zip'', det_mime_type = py ''application/zip''\<rparr>"

definition SEVEN_ZIP_type :: detected_file_type where
  "SEVEN_ZIP_type = \<lparr>det_extension = py ''.7z'', det_mime_type = py ''application/x-7z-compressed''\<rparr>"

definition compound_file_signature :: bytes where
  "compound_file_signature = [0xD0, 0xCF, 0x11, 0xE0, 0xA1, 0xB1, 0x1A, 0xE1]"

definition seven_zip_signature :: bytes where
  "seven_zip_signature = [0x37, 0x7A, 0xBC, 0xAF, 0x27, 0x1C]"

definition zip_signatures :: "bytes list" where
  "zip_signatures = [[0x50, 0x4B, 0x03, 0x04], [0x50, 0x4B, 0x05, 0x06], [0x50, 0x4B, 0x07, 0x08]]"

text \<open>\<open>int.from_bytes(b, "little")\<close>\<close>

fun little_endian :: "bytes \<Rightarrow> nat" where
  "little_endian [] = 0"
| "little_endian (b # bs) = unat b + 256 * little_endian bs"

definition slice :: "nat \<Rightarrow> nat \<Rightarrow> 'a list \<Rightarrow> 'a list" where
  "slice i j xs = take (j - i) (drop i xs)"

definition looks_like_pe :: "bytes \<Rightarrow> bool" where
  "looks_like_pe sample =
     (if length sample < 64 \<or> slice 0 2 sample \<noteq> [0x4D, 0x5A] then False
      else
        let pe_offset = little_endian (slice 0x3C 0x40 sample) in
        if pe_offset < 64 \<or> pe_offset + 4 > length sample then False
        else slice pe_offset (pe_offset + 4) sample = [0x50, 0x45, 0, 0])"

definition detect_file_type :: "bytes \<Rightarrow> detected_file_type option" where
  "detect_file_type sample =
     (if looks_like_pe sample then Some PE_type
      else if starts_with compound_file_signature sample then Some MSI_type
      else if starts_with seven_zip_signature sample then Some SEVEN_ZIP_type
      else if list_ex (\<lambda>signature. starts_with signature sample) zip_signatures then Some ZIP_type
      else None)"

record signature_validation =
  sv_assessment :: signature_assessment
  sv_expected_extension :: str
  sv_detected :: "detected_file_type option"

definition validate_file_signature :: "unicode \<Rightarrow> str \<Rightarrow> bytes \<Rightarrow> signature_validation" where
  "validate_file_signature u extension sample =
     (let expected = casefold u (strip extension);
          detected = detect_file_type sample in
      case detected of
        None \<Rightarrow> \<lparr>sv_assessment = SigUnidentified, sv_expected_extension = expected, sv_detected = None\<rparr>
      | Some d \<Rightarrow>
          if det_extension d \<noteq> expected
          then \<lparr>sv_assessment = SigMismatch, sv_expected_extension = expected, sv_detected = Some d\<rparr>
          else \<lparr>sv_assessment = SigMatch, sv_expected_extension = expected, sv_detected = Some d\<rparr>)"

definition expected_mimes :: "(str \<times> str) list" where
  "expected_mimes = map (\<lambda>d. (det_extension d, det_mime_type d))
     [PE_type, MSI_type, ZIP_type, SEVEN_ZIP_type]"

definition octet_stream :: str where
  "octet_stream = py ''application/octet-stream''"

definition assess_stored_signature :: "unicode \<Rightarrow> str \<Rightarrow> str \<Rightarrow> signature_assessment" where
  "assess_stored_signature u extension mime_type =
     (let expected = casefold u (strip extension);
          normalized_mime = casefold u (strip mime_type) in
      if normalized_mime = octet_stream then SigUnidentified
      else
        case map_of expected_mimes expected of
          None \<Rightarrow> SigMismatch
        | Some m \<Rightarrow> if normalized_mime \<noteq> m then SigMismatch else SigMatch)"

section \<open>Facts\<close>

text \<open>The strings of this module are written in ASCII without upper case or blanks.\<close>

definition plain_text :: "str \<Rightarrow> bool" where
  "plain_text s = list_all (\<lambda>c. c < 128 \<and> \<not> is_upper c \<and> \<not> is_space c) s"

lemma plain_text_fixed: "plain_text s \<Longrightarrow> casefold u (strip s) = s"
proof -
  assume p: "plain_text s"
  have "strip s = s"
    unfolding strip_def using p
    by (intro strip_set_id) (cases s rule: rev_cases; auto simp: plain_text_def hd_append list_all_iff)
  moreover have "casefold u s = s"
    using p by (intro casefold_id) (auto simp: plain_text_def list_all_iff)
  ultimately show ?thesis by simp
qed

definition all_types :: "detected_file_type list" where
  "all_types = [PE_type, MSI_type, ZIP_type, SEVEN_ZIP_type]"

lemmas type_defs = PE_type_def MSI_type_def ZIP_type_def SEVEN_ZIP_type_def

lemma plain_types:
  "list_all (\<lambda>d. plain_text (det_extension d) \<and> plain_text (det_mime_type d)) all_types"
  by (simp add: all_types_def type_defs plain_text_def py_def is_upper_def is_space_def)

lemma detect_file_type_cases: "detect_file_type sample = Some d \<Longrightarrow> d \<in> set all_types"
  by (auto simp: detect_file_type_def all_types_def split: if_splits)

lemma expected_mimes_all:
  "list_all (\<lambda>d. map_of expected_mimes (det_extension d) = Some (det_mime_type d)
     \<and> det_mime_type d \<noteq> octet_stream) all_types"
  by (simp add: all_types_def expected_mimes_def type_defs octet_stream_def py_def)

lemma all_typesD:
  assumes "d \<in> set all_types"
  shows "plain_text (det_extension d)" "plain_text (det_mime_type d)"
    "map_of expected_mimes (det_extension d) = Some (det_mime_type d)"
    "det_mime_type d \<noteq> octet_stream"
  using assms plain_types expected_mimes_all by (auto simp: list_all_iff)

lemma assess_of_detected:
  assumes "detect_file_type sample = Some d"
  shows "assess_stored_signature u (det_extension d) (det_mime_type d) = SigMatch"
  using all_typesD [OF detect_file_type_cases [OF assms]]
  by (simp add: assess_stored_signature_def Let_def plain_text_fixed)

end
