(* ===== verification/FileService.thy ===== *)
theory FileService
  imports AuditTrail Staging Signatures
begin

text \<open>
  \<open>app/services/file_service.py\<close>: the lifecycle of a release file across the database and
  the two storage areas. Parameters: the Unicode tables \<open>u\<close>, the SHA-256 function \<open>sha\<close>
  (of the standard library) and the storage layout \<open>paths\<close>.
\<close>

section \<open>Guards\<close>

definition ensure_publish_ready :: "unicode \<Rightarrow> release_file \<Rightarrow> release \<Rightarrow> software \<Rightarrow> exn + unit" where
  "ensure_publish_ready u file release software =
     (if rf_status file \<noteq> FileReady then Inl InvalidStateTransition
      else if assess_stored_signature u (rf_file_extension file) (rf_detected_mime_type file) \<noteq> SigMatch
      then Inl FileValidationError
      else if rel_status release \<noteq> ReleasePublished then Inl InvalidStateTransition
      else if sw_status software \<notin> {SoftwarePublished, SoftwareHidden} then Inl InvalidStateTransition
      else if rf_scanner_status file \<notin> {ScanClean, ScanUnavailable} then Inl InvalidStateTransition
      else Inr ())"

definition ensure_deletable :: "release_file \<Rightarrow> exn + unit" where
  "ensure_deletable file =
     (if rf_status file = FilePublished then Inl InvalidStateTransition else Inr ())"

definition verified_physical_file ::
  "(bytes \<Rightarrow> str) \<Rightarrow> storage_paths \<Rightarrow> release_file \<Rightarrow> bool \<Rightarrow> stored_file svc" where
  "verified_physical_file sha paths file verify_hash =
     bind (locate_stored_file paths (rf_relative_storage_path file)) (\<lambda>stored.
     bind (raise_if (st_size_bytes stored \<noteq> rf_file_size_bytes file) FileValidationError) (\<lambda>_.
     if verify_hash then
       bind (sha256_file sha (st_path stored)) (\<lambda>(digest, size_bytes).
       bind (raise_if (size_bytes \<noteq> rf_file_size_bytes file \<or> digest \<noteq> rf_sha256 file)
               FileValidationError) (\<lambda>_. ret stored))
     else ret stored))"

definition restore_move_after_failure ::
  "storage_paths \<Rightarrow> storage_area \<Rightarrow> storage_area \<Rightarrow> str \<Rightarrow> unit svc" where
  "restore_move_after_failure paths source_area destination_area relative_path =
     try_catch
       (bind (atomic_move (area_root paths source_area) relative_path
                (area_root paths destination_area) relative_path) (\<lambda>_. ret ()))
       (\<lambda>e. if e = StorageError then throw StorageError else throw e)"

text \<open>The tail of every \<open>except Exception\<close> block: application errors pass, others become a
  storage error.\<close>

definition reraise_application :: "exn \<Rightarrow> 'a svc" where
  "reraise_application e = (if is_application_error e then throw e else throw StorageError)"

definition release_file_type :: str where
  "release_file_type = py ''release_file''"

definition area_item :: "storage_area \<Rightarrow> str \<times> py_value" where
  "area_item a = (py ''storage_area'', PStr (storage_area_value a))"

definition from_to :: "file_status \<Rightarrow> file_status \<Rightarrow> (str \<times> py_value) list" where
  "from_to previous target = [(py ''from'', PStr (file_status_value previous)),
     (py ''to'', PStr (file_status_value target))]"

section \<open>Reading\<close>

definition require_graph :: "nat \<Rightarrow> file_graph svc" where
  "require_graph i =
     bind (file_with_graph i) (\<lambda>g. case g of None \<Rightarrow> throw EntityNotFound | Some x \<Rightarrow> ret x)"

definition get_file :: "nat \<Rightarrow> file_graph svc" where
  "get_file i = read_session (require_graph i)"

definition files_with_sha256 :: "unicode \<Rightarrow> str \<Rightarrow> nat option \<Rightarrow> database \<Rightarrow> release_file list" where
  "files_with_sha256 u sha256 exclude d =
     sort_key rf_id (filter (\<lambda>f. rf_sha256 f = casefold u (strip sha256)
       \<and> (case exclude of None \<Rightarrow> True | Some i \<Rightarrow> rf_id f \<noteq> i)) (db_files d))"

definition find_duplicates :: "unicode \<Rightarrow> str \<Rightarrow> nat option \<Rightarrow> release_file list svc" where
  "find_duplicates u sha256 exclude_file_id =
     (let normalized = casefold u (strip sha256) in
      bind (raise_if (length normalized \<noteq> 64 \<or> \<not> list_all is_hex normalized) ValidationError) (\<lambda>_.
        read_session (query (files_with_sha256 u normalized exclude_file_id))))"

record file_storage_state =
  fss_exists :: bool
  fss_area :: "storage_area option"
  fss_size_bytes :: "int option"
  fss_size_matches :: bool

definition storage_state :: "storage_paths \<Rightarrow> nat \<Rightarrow> file_storage_state svc" where
  "storage_state paths file_id =
     bind (get_file file_id) (\<lambda>(file, _, _).
     bind (inspect_stored_files paths (rf_relative_storage_path file)) (\<lambda>matches.
       case matches of
         [] \<Rightarrow> ret \<lparr>fss_exists = False, fss_area = None, fss_size_bytes = None, fss_size_matches = False\<rparr>
       | [stored] \<Rightarrow> ret \<lparr>fss_exists = True, fss_area = Some (st_area stored),
           fss_size_bytes = Some (st_size_bytes stored),
           fss_size_matches = (st_size_bytes stored = rf_file_size_bytes file)\<rparr>
       | _ \<Rightarrow> throw StorageError))"

section \<open>Units of work\<close>

text \<open>The body of each \<open>with self.database.transaction()\<close> block.\<close>

definition verify_body :: "unicode \<Rightarrow> nat \<Rightarrow> stored_file \<Rightarrow> audit_context option \<Rightarrow> unit svc" where
  "verify_body u file_id stored audit =
     bind (require_graph file_id) (\<lambda>(current, _, _).
       append_context_audit_event u audit FILE_VERIFIED release_file_type (entity_id (rf_id current))
         [area_item (st_area stored)])"

definition transition_body ::
  "unicode \<Rightarrow> nat \<Rightarrow> file_status \<Rightarrow> audit_action \<Rightarrow> (str \<times> py_value) list \<Rightarrow>
   audit_context option \<Rightarrow> unit svc" where
  "transition_body u file_id target action extra audit =
     bind (require_graph file_id) (\<lambda>(current, release, software).
     bind utc_now (\<lambda>now.
     bind (lift_result (apply_file_transition current release software target now)) (\<lambda>updated.
     bind (update_file file_id (\<lambda>_. updated)) (\<lambda>_.
     bind (append_context_audit_event u audit action release_file_type (entity_id (rf_id current))
             (from_to (rf_status current) target @ extra)) (\<lambda>_.
       flush)))))"

definition publish_body :: "unicode \<Rightarrow> nat \<Rightarrow> stored_file \<Rightarrow> audit_context option \<Rightarrow> unit svc" where
  "publish_body u file_id stored audit =
     bind (require_graph file_id) (\<lambda>(current, release, software).
     bind (lift_result (ensure_publish_ready u current release software)) (\<lambda>_.
     bind (raise_if (rf_relative_storage_path current \<noteq> st_relative_path stored) StorageError) (\<lambda>_.
     bind utc_now (\<lambda>now.
     bind (lift_result (apply_file_transition current release software FilePublished now)) (\<lambda>updated.
     bind (update_file file_id
             (\<lambda>_. updated\<lparr>rf_relative_storage_path := st_relative_path stored\<rparr>)) (\<lambda>_.
     bind (append_context_audit_event u audit FILE_PUBLISHED release_file_type
             (entity_id (rf_id current))
             [(py ''release_id'', PInt (int (rf_release_id current))), area_item AreaSoftware]) (\<lambda>_.
       flush)))))))"

definition delete_metadata_body ::
  "unicode \<Rightarrow> nat \<Rightarrow> stored_file option \<Rightarrow> audit_context option \<Rightarrow> nat svc" where
  "delete_metadata_body u file_id stored audit =
     bind (require_graph file_id) (\<lambda>(current, _, _).
     bind (lift_result (ensure_deletable current)) (\<lambda>_.
     bind (delete_file file_id) (\<lambda>_.
     bind (append_context_audit_event u audit FILE_METADATA_DELETED release_file_type
             (entity_id file_id)
             [(py ''release_id'', PInt (int (rf_release_id current))),
              (py ''physical_file_preserved'', PBool (stored \<noteq> None)),
              (py ''storage_area'',
               case stored of None \<Rightarrow> PNone | Some st \<Rightarrow> PStr (storage_area_value (st_area st)))]) (\<lambda>_.
       ret (rf_release_id current)))))"

definition permanently_delete_body ::
  "unicode \<Rightarrow> nat \<Rightarrow> stored_file \<Rightarrow> audit_context option \<Rightarrow> nat svc" where
  "permanently_delete_body u file_id stored audit =
     bind (require_graph file_id) (\<lambda>(current, _, _).
     bind (lift_result (ensure_deletable current)) (\<lambda>_.
     bind (raise_if (rf_relative_storage_path current \<noteq> st_relative_path stored) StorageError) (\<lambda>_.
     bind (delete_file file_id) (\<lambda>_.
     bind (append_context_audit_event u audit FILE_PERMANENTLY_DELETED release_file_type
             (entity_id file_id)
             [(py ''release_id'', PInt (int (rf_release_id current))), area_item (st_area stored),
              (py ''file_size_bytes'', PInt (st_size_bytes stored))]) (\<lambda>_.
       ret (rf_release_id current))))))"

section \<open>Operations\<close>

definition verify_integrity ::
  "unicode \<Rightarrow> (bytes \<Rightarrow> str) \<Rightarrow> storage_paths \<Rightarrow> nat \<Rightarrow> audit_context option \<Rightarrow> release_file svc" where
  "verify_integrity u sha paths file_id audit =
     bind (get_file file_id) (\<lambda>(file, _, _).
     bind (verified_physical_file sha paths file True) (\<lambda>stored.
     bind (transaction (verify_body u file_id stored audit)) (\<lambda>_.
       ret file)))"

definition review_status ::
  "unicode \<Rightarrow> (bytes \<Rightarrow> str) \<Rightarrow> storage_paths \<Rightarrow> nat \<Rightarrow> file_status \<Rightarrow> audit_context option \<Rightarrow>
   file_graph svc" where
  "review_status u sha paths file_id target audit =
     bind (raise_if (target \<notin> {FileReady, FileRejected, FileQuarantine}) InvalidStateTransition) (\<lambda>_.
     bind (get_file file_id) (\<lambda>(file, _, _).
     bind (verified_physical_file sha paths file False) (\<lambda>stored.
     bind (raise_if (st_area stored \<noteq> AreaQuarantine) StorageError) (\<lambda>_.
     bind (transaction (transition_body u file_id target FILE_REVIEWED [] audit)) (\<lambda>_.
       get_file file_id)))))"

definition publish ::
  "unicode \<Rightarrow> (bytes \<Rightarrow> str) \<Rightarrow> storage_paths \<Rightarrow> nat \<Rightarrow> audit_context option \<Rightarrow> file_graph svc" where
  "publish u sha paths file_id audit =
     bind (get_file file_id) (\<lambda>(file, release, software).
     bind (lift_result (ensure_publish_ready u file release software)) (\<lambda>_.
     bind (verified_physical_file sha paths file True) (\<lambda>stored.
     bind (raise_if (st_area stored \<noteq> AreaQuarantine) StorageError) (\<lambda>_.
     bind (atomic_move (sp_quarantine paths) (st_relative_path stored)
             (sp_software paths) (st_relative_path stored)) (\<lambda>_.
     bind (try_catch (transaction (publish_body u file_id stored audit))
             (\<lambda>exc. bind (restore_move_after_failure paths AreaSoftware AreaQuarantine
                            (st_relative_path stored)) (\<lambda>_. reraise_application exc))) (\<lambda>_.
       get_file file_id))))))"

definition transition_with_storage_check ::
  "unicode \<Rightarrow> (bytes \<Rightarrow> str) \<Rightarrow> storage_paths \<Rightarrow> nat \<Rightarrow> file_status \<Rightarrow> audit_action \<Rightarrow>
   audit_context option \<Rightarrow> file_graph svc" where
  "transition_with_storage_check u sha paths file_id target action audit =
     bind (get_file file_id) (\<lambda>(file, _, _).
     bind (verified_physical_file sha paths file False) (\<lambda>stored.
     bind (transaction (transition_body u file_id target action [area_item (st_area stored)] audit)) (\<lambda>_.
       get_file file_id)))"

definition disable ::
  "unicode \<Rightarrow> (bytes \<Rightarrow> str) \<Rightarrow> storage_paths \<Rightarrow> nat \<Rightarrow> audit_context option \<Rightarrow> file_graph svc" where
  "disable u sha paths file_id audit =
     transition_with_storage_check u sha paths file_id FileDisabled FILE_DISABLED audit"

definition archive ::
  "unicode \<Rightarrow> (bytes \<Rightarrow> str) \<Rightarrow> storage_paths \<Rightarrow> nat \<Rightarrow> audit_context option \<Rightarrow> file_graph svc" where
  "archive u sha paths file_id audit =
     transition_with_storage_check u sha paths file_id FileArchived FILE_ARCHIVED audit"

definition restore_ready ::
  "unicode \<Rightarrow> (bytes \<Rightarrow> str) \<Rightarrow> storage_paths \<Rightarrow> nat \<Rightarrow> audit_context option \<Rightarrow> file_graph svc" where
  "restore_ready u sha paths file_id audit =
     bind (get_file file_id) (\<lambda>(file, _, _).
     bind (verified_physical_file sha paths file False) (\<lambda>stored.
     let moved_from_software = (st_area stored = AreaSoftware) in
     bind (if moved_from_software
           then bind (atomic_move (sp_software paths) (st_relative_path stored)
                        (sp_quarantine paths) (st_relative_path stored)) (\<lambda>_. ret ())
           else ret ()) (\<lambda>_.
     bind (try_catch (transaction (transition_body u file_id FileReady FILE_RESTORED [] audit))
             (\<lambda>exc. bind (if moved_from_software
                          then restore_move_after_failure paths AreaQuarantine AreaSoftware
                                 (st_relative_path stored)
                          else ret ()) (\<lambda>_. reraise_application exc))) (\<lambda>_.
       get_file file_id))))"

record file_deletion_result =
  fdr_file_id :: nat
  fdr_release_id :: nat
  fdr_physical_file_preserved :: bool
  fdr_storage_area :: "storage_area option"

definition delete_metadata ::
  "unicode \<Rightarrow> storage_paths \<Rightarrow> nat \<Rightarrow> audit_context option \<Rightarrow> file_deletion_result svc" where
  "delete_metadata u paths file_id audit =
     bind (get_file file_id) (\<lambda>(file, _, _).
     bind (lift_result (ensure_deletable file)) (\<lambda>_.
     bind (inspect_stored_files paths (rf_relative_storage_path file)) (\<lambda>matches.
     bind (raise_if (1 < length matches) StorageError) (\<lambda>_.
     let stored = (case matches of [] \<Rightarrow> None | m # _ \<Rightarrow> Some m) in
     bind (transaction (delete_metadata_body u file_id stored audit)) (\<lambda>release_id.
       ret \<lparr>fdr_file_id = file_id, fdr_release_id = release_id,
            fdr_physical_file_preserved = (stored \<noteq> None),
            fdr_storage_area = map_option st_area stored\<rparr>)))))"

definition permanently_delete ::
  "unicode \<Rightarrow> (bytes \<Rightarrow> str) \<Rightarrow> storage_paths \<Rightarrow> nat \<Rightarrow> audit_context option \<Rightarrow>
   file_deletion_result svc" where
  "permanently_delete u sha paths file_id audit =
     bind (get_file file_id) (\<lambda>(file, _, _).
     bind (lift_result (ensure_deletable file)) (\<lambda>_.
     bind (verified_physical_file sha paths file False) (\<lambda>stored.
     bind (stage_for_permanent_deletion paths stored) (\<lambda>staged.
     bind (try_catch (transaction (permanently_delete_body u file_id stored audit))
             (\<lambda>exc. bind (try_catch (bind (restore_staged_deletion paths staged) (\<lambda>_. ret ()))
                          (\<lambda>e. if e = StorageError then throw StorageError else throw e))
                     (\<lambda>_. reraise_application exc))) (\<lambda>release_id.
     bind (try_catch (unlink_staged_deletion paths staged)
             (\<lambda>e. if e = StorageError then throw StorageError else throw e)) (\<lambda>_.
       ret \<lparr>fdr_file_id = file_id, fdr_release_id = release_id,
            fdr_physical_file_preserved = False,
            fdr_storage_area = Some (st_area stored)\<rparr>))))))"

definition transition_file_status :: "nat \<Rightarrow> file_status \<Rightarrow> release_file svc" where
  "transition_file_status file_id target =
     transaction
       (bind (require_graph file_id) (\<lambda>(file, release, software).
        bind utc_now (\<lambda>now.
        bind (lift_result (apply_file_transition file release software target now)) (\<lambda>updated.
        bind (update_file file_id (\<lambda>_. updated)) (\<lambda>_.
        bind flush (\<lambda>_. ret updated))))))"

definition set_file_visibility :: "nat \<Rightarrow> visibility \<Rightarrow> release_file svc" where
  "set_file_visibility file_id visibility =
     transaction
       (bind (query (\<lambda>d. row_get rf_id file_id (db_files d))) (\<lambda>found.
        case found of
          None \<Rightarrow> throw EntityNotFound
        | Some file \<Rightarrow>
            bind (update_file file_id (\<lambda>f. f\<lparr>rf_visibility := visibility\<rparr>)) (\<lambda>_.
            bind flush (\<lambda>_. ret (file\<lparr>rf_visibility := visibility\<rparr>)))))"

end
