(* ===== verification/FileLifecycle.thy ===== *)
theory FileLifecycle
  imports FileService
begin

text \<open>
  Specifications of the file service: what each unit of work does to the tables, and what an
  operation as a whole leaves on disk and in the tables. The two outcomes of an operation
  that moves bytes are tied to the two outcomes of its transaction.
\<close>

section \<open>States that differ only in ways the storage does not see\<close>

definition calm :: "world \<Rightarrow> world \<Rightarrow> bool" where
  "calm s t \<longleftrightarrow> same_store s t \<and> w_env t = w_env s"

lemma calmD:
  assumes "calm s t"
  shows "os_fs t = os_fs s" "files t = files s" "no_os_faults t = no_os_faults s"
    "store_ok paths t = store_ok paths s" "w_env t = w_env s"
    "located t paths raw st = located s paths raw st"
  using assms same_storeD [of s t] by (auto simp: calm_def located_def)

lemma calm_refl [simp, intro]: "calm s s"
  by (simp add: calm_def)

lemma calm_trans: "calm s t \<Longrightarrow> calm t u \<Longrightarrow> calm s u"
  by (simp add: calm_def same_store_def)

lemma calm_db_only: "db_only s t \<Longrightarrow> calm s t"
  by (simp add: calm_def same_store_def db_onlyD)

lemma looked_db:
  fixes s t :: world
  assumes "looked s t"
  shows "w_db t = w_db s" "w_env t = w_env s" "w_db_fault t = w_db_fault s" "w_db_tick t = w_db_tick s"
  using assms unfolding looked_def by (cases s; cases t; simp)+

lemma calm_looked: "looked s t \<Longrightarrow> calm s t"
  by (simp add: calm_def same_store_def looked_eqs looked_db)

lemma store_step_db:
  fixes s t :: world
  assumes "store_step s t"
  shows "w_db t = w_db s" "w_env t = w_env s"
  using assms unfolding store_step_def fs_frame_def by (cases s; cases t; simp)+

lemma calm_drifted: "calm s t \<Longrightarrow> drifted t d d' = drifted s d d'"
  by (rule drifted_env) (rule calmD)

lemma calm_same_store: "calm s t \<Longrightarrow> same_store s t"
  by (simp add: calm_def)

section \<open>Units of work on the tables\<close>

text \<open>
  \<open>file_changed u audit action i P d d'\<close>: the row \<open>i\<close> was replaced by one that \<open>P\<close> relates to
  the row before and its parents, and the action was logged.
\<close>

definition file_changed ::
  "unicode \<Rightarrow> audit_context option \<Rightarrow> audit_action \<Rightarrow> nat \<Rightarrow>
   (release_file \<Rightarrow> release \<Rightarrow> software \<Rightarrow> release_file \<Rightarrow> bool) \<Rightarrow> database \<Rightarrow> database \<Rightarrow> bool" where
  "file_changed u audit action i P d d' \<longleftrightarrow> (\<exists>f r w g. graph_at d i f r w \<and> P f r w g
     \<and> audited u audit action (d\<lparr>db_files := row_update rf_id i (\<lambda>_. g) (db_files d)\<rparr>) d')"

lemma wp_require_graph:
  "wp (require_graph i)
     (\<lambda>(f, r, w) t. db_only s t \<and> w_db t = w_db s \<and> graph_at (w_db s) i f r w)
     (\<lambda>e t. db_only s t \<and> (e = EntityNotFound \<or> \<not> is_application_error e)
        \<and> (e = EntityNotFound \<longrightarrow> row_get rf_id i (db_files (w_db s)) = None)) s"
  unfolding require_graph_def
  by (rule wp_bind_spec [OF wp_file_with_graph]) (auto simp: wp_simps split: option.splits prod.splits)

lemma wp_change_file:
  assumes g: "graph_at (w_db s) i f r w" and p: "P f r w g"
  shows "wp (bind (update_file i (\<lambda>_. g)) (\<lambda>_.
       bind (append_context_audit_event u audit action et ei m) (\<lambda>_. flush)))
     (\<lambda>_ t. db_only s t \<and> file_changed u audit action i P (w_db s) (w_db t))
     (\<lambda>e t. is_sqlalchemy_error e \<and> db_only s t) s"
proof -
  let ?s = "s\<lparr>w_db := (w_db s)\<lparr>db_files := row_update rf_id i (\<lambda>_. g) (db_files (w_db s))\<rparr>\<rparr>"
  have "wp (bind (append_context_audit_event u audit action et ei m) (\<lambda>_. flush))
     (\<lambda>_ t. db_only s t \<and> file_changed u audit action i P (w_db s) (w_db t))
     (\<lambda>e t. is_sqlalchemy_error e \<and> db_only s t) ?s"
  proof (rule wp_bind_spec [OF wp_append_context_audit_event], goal_cases)
    case (1 x t)
    then have "db_only s t" using db_only_trans [of s ?s t] by simp
    moreover have "file_changed u audit action i P (w_db s) (w_db t)"
      unfolding file_changed_def using g p 1 by (intro exI [of _ f] exI [of _ r] exI [of _ w] exI [of _ g]) simp
    ultimately show ?case by (simp add: wp_simps is_sqlalchemy_error_def)
  next
    case (2 e t)
    then show ?case using db_only_trans [of s ?s t] by simp
  qed
  then show ?thesis by (simp add: wp_simps update_file_def)
qed

lemma wp_bind_now: "wp (f (os_now s)) Q E s \<Longrightarrow> wp (bind utc_now f) Q E s"
  by (simp add: wp_simps)

text \<open>The rest of a unit of work from the loaded row on, when that load sees the tables \<open>d\<close>.\<close>

lemma wp_then_change_file:
  assumes t: "db_only s t" "w_db t = w_db s" and g: "graph_at (w_db t) i f r w" and p: "P f r w g"
  shows "wp (bind (update_file i (\<lambda>_. g)) (\<lambda>_.
       bind (append_context_audit_event u audit action et ei m) (\<lambda>_. flush)))
     (\<lambda>_ t. db_only s t \<and> file_changed u audit action i P (w_db s) (w_db t))
     (\<lambda>e t. True \<and> db_only s t) t"
  by (rule wp_mono [OF wp_change_file [OF g, where P = P, OF p]]) (use t db_only_trans in auto)

abbreviation moved_to :: "file_status \<Rightarrow> release_file \<Rightarrow> release \<Rightarrow> software \<Rightarrow> release_file \<Rightarrow> bool" where
  "moved_to target f r w g \<equiv> \<exists>now. apply_file_transition f r w target now = Inr g"

lemma wp_transition_body:
  "wp (transition_body u i target action extra audit)
     (\<lambda>_ t. db_only s t \<and> file_changed u audit action i (moved_to target) (w_db s) (w_db t))
     (\<lambda>e t. True \<and> db_only s t) s"
  unfolding transition_body_def
proof (rule wp_bind_spec [OF wp_require_graph], goal_cases)
  case (1 x t)
  obtain f r w where x: "x = (f, r, w)" by (cases x)
  have t: "db_only s t" "w_db t = w_db s" "graph_at (w_db t) i f r w" using 1 x by auto
  show ?case
    unfolding x prod.case
    by (rule wp_bind_now, rule wp_bind_lift) (rule wp_then_change_file [OF t], blast, use t in simp)
next
  case (2 e t)
  then show ?case by simp
qed

definition publish_ready :: "unicode \<Rightarrow> release_file \<Rightarrow> release \<Rightarrow> software \<Rightarrow> bool" where
  "publish_ready u f r w \<longleftrightarrow> rf_status f = FileReady
     \<and> assess_stored_signature u (rf_file_extension f) (rf_detected_mime_type f) = SigMatch
     \<and> rel_status r = ReleasePublished \<and> sw_status w \<in> {SoftwarePublished, SoftwareHidden}
     \<and> rf_scanner_status f \<in> {ScanClean, ScanUnavailable}"

lemma ensure_publish_ready_Inr [simp]:
  "ensure_publish_ready u f r w = Inr x \<longleftrightarrow> publish_ready u f r w"
  by (auto simp: ensure_publish_ready_def publish_ready_def)

definition published_row ::
  "unicode \<Rightarrow> str \<Rightarrow> release_file \<Rightarrow> release \<Rightarrow> software \<Rightarrow> release_file \<Rightarrow> bool" where
  "published_row u path f r w g \<longleftrightarrow> publish_ready u f r w \<and> rf_relative_storage_path f = path
     \<and> rf_status g = FilePublished \<and> rf_published_at g \<noteq> None \<and> same_file_content f g"

lemma wp_publish_body:
  "wp (publish_body u i stored audit)
     (\<lambda>_ t. db_only s t \<and> file_changed u audit FILE_PUBLISHED i
        (published_row u (st_relative_path stored)) (w_db s) (w_db t))
     (\<lambda>e t. True \<and> db_only s t) s"
  unfolding publish_body_def
proof (rule wp_bind_spec [OF wp_require_graph], goal_cases)
  case (1 x t)
  obtain f r w where x: "x = (f, r, w)" by (cases x)
  have t: "db_only s t" "w_db t = w_db s" "graph_at (w_db t) i f r w" using 1 x by auto
  show ?case
    unfolding x prod.case
  proof (rule wp_bind_lift, rule wp_bind_raise_if)
    fix y
    assume ready: "ensure_publish_ready u f r w = Inr y"
      and path: "\<not> rf_relative_storage_path f \<noteq> st_relative_path stored"
    show "wp (bind utc_now (\<lambda>now.
       bind (lift_result (apply_file_transition f r w FilePublished now)) (\<lambda>updated.
       bind (update_file i (\<lambda>_. updated\<lparr>rf_relative_storage_path := st_relative_path stored\<rparr>)) (\<lambda>_.
       bind (append_context_audit_event u audit FILE_PUBLISHED release_file_type (entity_id (rf_id f))
               [(py ''release_id'', PInt (int (rf_release_id f))), area_item AreaSoftware]) (\<lambda>_.
         flush)))))
      (\<lambda>_ t. db_only s t \<and> file_changed u audit FILE_PUBLISHED i
        (published_row u (st_relative_path stored)) (w_db s) (w_db t))
      (\<lambda>e t. True \<and> db_only s t) t"
    proof (rule wp_bind_now, rule wp_bind_lift, rule wp_then_change_file [OF t])
      fix g assume g: "apply_file_transition f r w FilePublished (os_now t) = Inr g"
      then show "published_row u (st_relative_path stored) f r w
          (g\<lparr>rf_relative_storage_path := st_relative_path stored\<rparr>)"
        using ready path apply_file_transition_same [OF g] apply_file_transition_published [OF g]
          file_lifecycle.step_status [OF g]
        by (auto simp: published_row_def publish_ready_def same_file_content_def)
    qed (use t in simp)
  qed (use t in simp_all)
next
  case (2 e t)
  then show ?case by simp
qed

text \<open>A row was deleted, with its statistics, and the action logged.\<close>

definition file_dropped ::
  "unicode \<Rightarrow> audit_context option \<Rightarrow> audit_action \<Rightarrow> nat \<Rightarrow> (release_file \<Rightarrow> bool) \<Rightarrow>
   nat \<Rightarrow> database \<Rightarrow> database \<Rightarrow> bool" where
  "file_dropped u audit action i P rel d d' \<longleftrightarrow> (\<exists>f r w. graph_at d i f r w \<and> P f
     \<and> rf_status f \<noteq> FilePublished \<and> rel = rf_release_id f \<and> audited u audit action (drop_file i d) d')"

lemma ensure_deletable_Inr [simp]: "ensure_deletable f = Inr x \<longleftrightarrow> rf_status f \<noteq> FilePublished"
  by (simp add: ensure_deletable_def)

lemma wp_drop_file:
  assumes t: "db_only s t" "w_db t = w_db s" and g: "graph_at (w_db t) i f r w" and p: "P f"
    and st: "rf_status f \<noteq> FilePublished"
  shows "wp (bind (delete_file i) (\<lambda>_.
       bind (append_context_audit_event u audit action et ei m) (\<lambda>_. ret (rf_release_id f))))
     (\<lambda>x t. db_only s t \<and> file_dropped u audit action i P x (w_db s) (w_db t))
     (\<lambda>e t. True \<and> db_only s t) t"
proof -
  have "wp (delete_file i) (\<lambda>_ v. db_only s v \<and> w_db v = drop_file i (w_db s)) (\<lambda>e v. db_only s v) t"
    using t by (simp add: delete_file_def wp_simps)
  then show ?thesis
  proof (rule wp_bind_spec, goal_cases)
    case (1 x v)
    show ?case
    proof (rule wp_bind_spec [OF wp_append_context_audit_event], goal_cases)
      case (1 y z)
      then show ?case
        using \<open>db_only s v \<and> w_db v = drop_file i (w_db s)\<close> t g p st db_only_trans
        by (auto simp: wp_simps file_dropped_def)
    next
      case (2 e z)
      then show ?case using \<open>db_only s v \<and> w_db v = drop_file i (w_db s)\<close> db_only_trans by auto
    qed
  qed simp
qed

lemma wp_delete_metadata_body:
  "wp (delete_metadata_body u i stored audit)
     (\<lambda>x t. db_only s t \<and> file_dropped u audit FILE_METADATA_DELETED i (\<lambda>_. True) x (w_db s) (w_db t))
     (\<lambda>e t. True \<and> db_only s t) s"
  unfolding delete_metadata_body_def
proof (rule wp_bind_spec [OF wp_require_graph], goal_cases)
  case (1 x t)
  obtain f r w where x: "x = (f, r, w)" by (cases x)
  have t: "db_only s t" "w_db t = w_db s" "graph_at (w_db t) i f r w" using 1 x by auto
  show ?case
    unfolding x prod.case
    by (rule wp_bind_lift) (rule wp_drop_file [OF t], use t in simp_all)
qed simp

lemma wp_permanently_delete_body:
  "wp (permanently_delete_body u i stored audit)
     (\<lambda>x t. db_only s t \<and> file_dropped u audit FILE_PERMANENTLY_DELETED i
        (\<lambda>f. rf_relative_storage_path f = st_relative_path stored) x (w_db s) (w_db t))
     (\<lambda>e t. True \<and> db_only s t) s"
  unfolding permanently_delete_body_def
proof (rule wp_bind_spec [OF wp_require_graph], goal_cases)
  case (1 x t)
  obtain f r w where x: "x = (f, r, w)" by (cases x)
  have t: "db_only s t" "w_db t = w_db s" "graph_at (w_db t) i f r w" using 1 x by auto
  show ?case
    unfolding x prod.case
    by (rule wp_bind_lift, rule wp_bind_raise_if)
      (use t in simp, rule wp_drop_file [OF t], use t in simp_all)
qed simp

section \<open>Looking a file up\<close>

lemma wp_get_file:
  "wp (get_file i)
     (\<lambda>(f, r, w) t. db_only s t \<and> drifted s (w_db s) (w_db t) \<and> graph_at (w_db t) i f r w)
     (\<lambda>e t. db_only s t \<and> drifted s (w_db s) (w_db t)) s"
proof -
  have body: "wp (require_graph i)
     (\<lambda>x t. db_only s' t \<and> (\<lambda>x d. case x of (f, r, w) \<Rightarrow> graph_at d i f r w) x (w_db s'))
     (\<lambda>e t. (\<lambda>e d. True) e (w_db s') \<and> db_only s' t) s'" for s'
    by (rule wp_mono [OF wp_require_graph]) auto
  show ?thesis
    unfolding get_file_def
    by (rule wp_mono [OF wp_read_session [OF body]]) auto
qed

lemma wp_verified_physical_file:
  assumes ok: "store_ok paths s"
  shows "wp (verified_physical_file sha paths f hash)
     (\<lambda>st t. looked s t \<and> located s paths (rf_relative_storage_path f) st
        \<and> st_size_bytes st = rf_file_size_bytes f
        \<and> (hash \<longrightarrow> map_option sha (files s (st_path st)) = Some (rf_sha256 f)))
     (\<lambda>e t. looked s t) s"
  unfolding verified_physical_file_def
proof (rule wp_bind_spec [OF wp_locate_stored_file [OF ok]], goal_cases)
  case (1 st t)
  then have l: "looked s t" by simp
  show ?case
  proof (rule wp_bind_raise_if, goal_cases)
    case 2
    show ?case
    proof (cases hash)
      case True
      show ?thesis
        using True
        by simp (rule wp_bind_spec [OF wp_sha256_file],
          use 1 2 in \<open>auto simp: wp_simps looked_eqs intro: looked_trans\<close>)
    qed (use 1 2 in \<open>simp add: wp_simps\<close>)
  qed (use l in simp)
qed simp

section \<open>Moving between the areas\<close>

lemma area_root_simps:
  "sp_quarantine paths = area_root paths AreaQuarantine" "sp_software paths = area_root paths AreaSoftware"
  by simp_all

declare area_root.simps [simp del]

lemma wp_move_area:
  assumes ok: "store_ok paths s"
  shows "wp (atomic_move (area_root paths a) raw (area_root paths (other_area a)) raw)
     (\<lambda>x t. \<exists>p. safe_relative raw p \<and> transfer s (area_root paths a) p (area_root paths (other_area a)) p t)
     (\<lambda>e t. store_step s t \<and> (no_os_faults s \<longrightarrow> e = StorageError \<and> files t = files s)) s"
proof (rule wp_mono [OF wp_move [OF store_okD(3) [OF ok] store_okD(3) [OF ok]]], goal_cases)
  case (1 x t)
  then show ?case by (auto simp: safe_relative_def)
next
  case (2 e t)
  then show ?case by simp
qed

lemma wp_restore_move_after_failure:
  assumes ok: "store_ok paths s" and nf: "no_os_faults s" and rel: "safe_relative raw p"
    and tr: "transfer s (area_root paths a) p (area_root paths (other_area a)) p t" and u: "same_store t v"
  shows "wp (restore_move_after_failure paths (other_area a) a raw)
     (\<lambda>_ x. store_step v x \<and> files x = files s) (\<lambda>_ _. False) v"
proof -
  note way = wp_move_back [OF tr store_okD(1) [OF ok] nf store_okD(3) [OF ok] store_okD(3) [OF ok] rel rel u]
  show ?thesis
    unfolding restore_move_after_failure_def
    by (rule wp_try_spec, rule wp_bind_spec [OF way]) (simp_all add: wp_simps)
qed

lemma wp_reraise [wp_simps]:
  "wp (reraise_application e) Q E s = E (if is_application_error e then e else StorageError) s"
  by (simp add: reraise_application_def wp_simps)

text \<open>
  The pattern of the operations that move bytes: a transaction guarded by a compensation.
  Its two outcomes: committed, or everything on disk as before the move.
\<close>

lemma wp_compensated:
  assumes tx: "wp (transaction body)
      (\<lambda>x t. db_only u t \<and> (\<exists>d. drifted u (w_db u) d \<and> P x d (w_db t)) \<and> db_constraints (w_db t))
      (\<lambda>e t. db_only u t \<and> drifted u (w_db u) (w_db t) \<and> X e (w_db t)) u"
    and comp: "N \<longrightarrow> (\<forall>v. same_store u v \<longrightarrow>
      wp undo (\<lambda>_ x. store_step v x \<and> files x = F) (\<lambda>_ x. store_step v x \<and> files x = F) v)"
  shows "wp (try_catch (transaction body) (\<lambda>exc. bind undo (\<lambda>_. reraise_application exc)))
      (\<lambda>x t. db_only u t \<and> (\<exists>d. drifted u (w_db u) d \<and> P x d (w_db t)) \<and> db_constraints (w_db t))
      (\<lambda>e t. N \<longrightarrow> files t = F \<and> drifted u (w_db u) (w_db t)) u"
proof (rule wp_try_spec [OF tx])
  fix e v assume v: "db_only u v \<and> drifted u (w_db u) (w_db v) \<and> X e (w_db v)"
  then have same: "same_store u v" using calm_db_only calm_same_store by blast
  show "wp (bind undo (\<lambda>_. reraise_application e))
      (\<lambda>x t. db_only u t \<and> (\<exists>d. drifted u (w_db u) d \<and> P x d (w_db t)) \<and> db_constraints (w_db t))
      (\<lambda>e t. N \<longrightarrow> files t = F \<and> drifted u (w_db u) (w_db t)) v"
  proof (cases N)
    case True
    have "wp undo (\<lambda>_ x. store_step v x \<and> files x = F) (\<lambda>_ x. store_step v x \<and> files x = F) v"
      using comp True same by blast
    then show ?thesis
      by (rule wp_bind_spec)
        (use v store_step_db(1) in \<open>auto simp: wp_simps\<close>)
  next
    case False
    show ?thesis
      unfolding wp_bind by (rule wp_mono [OF wp_trivial]) (simp_all add: wp_reraise False)
  qed
qed

section \<open>Publication\<close>

definition publish_effect ::
  "unicode \<Rightarrow> (bytes \<Rightarrow> str) \<Rightarrow> storage_paths \<Rightarrow> nat \<Rightarrow> audit_context option \<Rightarrow> world \<Rightarrow>
   (path \<Rightarrow> bytes option) \<Rightarrow> database \<Rightarrow> bool" where
  "publish_effect u sha paths i audit s F d' \<longleftrightarrow> (\<exists>d0 f r w d p b.
     drifted s (w_db s) d0 \<and> graph_at d0 i f r w \<and> publish_ready u f r w
     \<and> safe_relative (as_posix (rf_relative_storage_path f)) p
     \<and> files s (sp_quarantine paths @ p) = Some b
     \<and> sha b = rf_sha256 f \<and> int (length b) = rf_file_size_bytes f
     \<and> moved (files s) (sp_quarantine paths @ p) (sp_software paths @ p) F
     \<and> drifted s d0 d
     \<and> file_changed u audit FILE_PUBLISHED i
         (published_row u (as_posix (rf_relative_storage_path f))) d d'
     \<and> db_constraints d')"

definition publish_done ::
  "unicode \<Rightarrow> (bytes \<Rightarrow> str) \<Rightarrow> storage_paths \<Rightarrow> nat \<Rightarrow> audit_context option \<Rightarrow> world \<Rightarrow> world \<Rightarrow> bool" where
  "publish_done u sha paths i audit s t \<longleftrightarrow>
     (\<exists>d'. publish_effect u sha paths i audit s (files t) d' \<and> drifted s d' (w_db t))"

lemma publish_done_later:
  assumes "publish_done u sha paths i audit s t" and "db_only t t'" and "drifted s (w_db t) (w_db t')"
  shows "publish_done u sha paths i audit s t'"
  using assms(1,3) drifted_trans unfolding publish_done_def db_onlyD(2) [OF assms(2)] by blast

lemma wp_publish:
  assumes ok: "store_ok paths s"
  shows "wp (publish u sha paths i audit)
     (\<lambda>(f, r, w) t. publish_done u sha paths i audit s t \<and> graph_at (w_db t) i f r w)
     (\<lambda>e t. no_os_faults s \<longrightarrow>
        files t = files s \<and> drifted s (w_db s) (w_db t) \<or> publish_done u sha paths i audit s t) s"
  unfolding publish_def
proof (rule wp_bind_spec [OF wp_get_file], goal_cases)
  case (1 x s1)
  obtain f r w where x: "x = (f, r, w)" by (cases x)
  have s1: "db_only s s1" "drifted s (w_db s) (w_db s1)" "graph_at (w_db s1) i f r w"
    using 1 x by auto
  note c1 = calm_db_only [OF s1(1)]
  have ok1: "store_ok paths s1" using ok calmD(4) [OF c1] by simp
  show ?case
    unfolding x prod.case
  proof (rule wp_bind_lift, rule wp_bind_spec [OF wp_verified_physical_file [OF ok1]], goal_cases)
    case (1 y st s2)
    then have ready: "publish_ready u f r w" by simp
    have s2: "looked s1 s2" "located s1 paths (rf_relative_storage_path f) st"
      "st_size_bytes st = rf_file_size_bytes f"
      "map_option sha (files s1 (st_path st)) = Some (rf_sha256 f)" using 1 by auto
    note c2 = calm_trans [OF c1 calm_looked [OF s2(1)]]
    have db2: "w_db s2 = w_db s1" using s2(1) by (rule looked_db)
    show ?case
    proof (rule wp_bind_raise_if, goal_cases)
      case 1
      then show ?case using calmD(2) [OF c2] s1(2) db2 by simp
    next
      case 2
      then have area: "st_area st = AreaQuarantine" by simp
      obtain p b where p: "safe_relative (st_relative_path st) p"
        and raw: "st_relative_path st = as_posix (rf_relative_storage_path f)"
        and path: "st_path st = area_root paths AreaQuarantine @ p"
        and b: "files s1 (area_root paths AreaQuarantine @ p) = Some b"
        and size: "st_size_bytes st = int (length b)"
        using s2(2) area by (rule_tac locatedD [OF s2(2)]) simp_all
      have sha: "sha b = rf_sha256 f" using s2(4) b path by simp
      have ok2: "store_ok paths s2" using ok calmD(4) [OF c2] by simp
      have nf2: "no_os_faults s2 = no_os_faults s" using c2 by (rule calmD)
      show ?case
        unfolding area_root_simps
      proof (rule wp_bind_spec [OF wp_move_area [OF ok2, of AreaQuarantine, simplified other_area.simps]], goal_cases)
        case (1 z s3)
        then obtain p' where "safe_relative (st_relative_path st) p'"
          and tr': "transfer s2 (area_root paths AreaQuarantine) p' (area_root paths AreaSoftware) p' s3"
          by blast
        then have tr: "transfer s2 (area_root paths AreaQuarantine) p (area_root paths AreaSoftware) p s3"
          using p by (simp add: safe_relative_def)
        then have st3: "store_step s2 s3" by (simp add: transfer_def)
        have db3: "w_db s3 = w_db s1" "w_env s3 = w_env s"
          using store_step_db [OF st3] db2 calmD(5) [OF c2] by simp_all
        have dr: "drifted s3 = drifted s" using drifted_env [OF db3(2)] by (intro ext)
        have mv: "moved (files s) (area_root paths AreaQuarantine @ p)
            (area_root paths AreaSoftware @ p) (files s3)"
          using tr calmD(2) [OF c2] by (simp add: transfer_def)
        have undo: "no_os_faults s \<longrightarrow> (\<forall>v. same_store s3 v \<longrightarrow>
          wp (restore_move_after_failure paths AreaSoftware AreaQuarantine (st_relative_path st))
           (\<lambda>_ x. store_step v x \<and> files x = files s) (\<lambda>_ x. store_step v x \<and> files x = files s) v)"
        proof (intro impI allI)
          fix v assume nf: "no_os_faults s" and v: "same_store s3 v"
          have "wp (restore_move_after_failure paths AreaSoftware AreaQuarantine (st_relative_path st))
              (\<lambda>_ x. store_step v x \<and> files x = files s2) (\<lambda>_ _. False) v"
            using wp_restore_move_after_failure [OF ok2 _ p, of AreaQuarantine s3 v] tr v nf nf2 by simp
          then show "wp (restore_move_after_failure paths AreaSoftware AreaQuarantine (st_relative_path st))
              (\<lambda>_ x. store_step v x \<and> files x = files s) (\<lambda>_ x. store_step v x \<and> files x = files s) v"
            by (rule wp_mono) (simp_all add: calmD(2) [OF c2])
        qed
        have tx: "wp (transaction (publish_body u i st audit))
          (\<lambda>x t. db_only s3 t \<and> (\<exists>d. drifted s3 (w_db s3) d \<and> (\<lambda>_. file_changed u audit FILE_PUBLISHED i
             (published_row u (st_relative_path st))) x d (w_db t)) \<and> db_constraints (w_db t))
          (\<lambda>e t. db_only s3 t \<and> drifted s3 (w_db s3) (w_db t) \<and> (\<lambda>_ _. True) e (w_db t)) s3"
          by (rule wp_transaction) (use wp_publish_body in simp_all)
        show ?case
        proof (rule wp_bind_spec [OF wp_compensated [OF tx undo]], goal_cases)
          case (1 z s4)
          then obtain d where s4: "db_only s3 s4" "drifted s (w_db s1) d"
            "file_changed u audit FILE_PUBLISHED i (published_row u (st_relative_path st)) d (w_db s4)"
            "db_constraints (w_db s4)" using dr db3 by auto
          have "w_env s4 = w_env s" using db_onlyD(9) [OF s4(1)] db3(2) by simp
          then have env4: "drifted s4 = drifted s" using drifted_env by (intro ext)
          have "publish_effect u sha paths i audit s (files s4) (w_db s4)"
            unfolding publish_effect_def area_root_simps
            using s1 ready p raw b sha size s2(3) mv s4 db_onlyD(2) [OF s4(1)] calmD(2) [OF c1]
            by - (rule exI [of _ "w_db s1"], rule exI [of _ f], rule exI [of _ r],
              rule exI [of _ w], rule exI [of _ d], rule exI [of _ p], rule exI [of _ b], simp)
          then have done4: "publish_done u sha paths i audit s s4" unfolding publish_done_def by blast
          show ?case
            by (rule wp_mono [OF wp_get_file])
              (use publish_done_later [OF done4] env4 in auto)
        next
          case (2 e s4)
          then show ?case using s1(2) dr db3 drifted_trans by auto
        qed
      next
        case (2 e s3)
        then show ?case
          using nf2 calmD(2) [OF c2] store_step_db [of s2 s3] db2 s1(2) by auto
      qed
    qed
  next
    case (2 y e s2)
    then have "w_db s2 = w_db s1" "files s2 = files s1" by (simp_all add: looked_db looked_eqs)
    then show ?case using s1(2) calmD(2) [OF c1] by simp
  next
    case (3 e)
    then show ?case using s1(2) calmD(2) [OF c1] by simp
  qed
next
  case (2 e t)
  then show ?case using db_onlyD(2) by blast
qed

section \<open>Return to quarantine\<close>

text \<open>The bytes of the row's path are in quarantine only, where \<open>F\<close> is what the disk holds.\<close>

definition restore_effect ::
  "unicode \<Rightarrow> storage_paths \<Rightarrow> nat \<Rightarrow> audit_context option \<Rightarrow> world \<Rightarrow>
   (path \<Rightarrow> bytes option) \<Rightarrow> database \<Rightarrow> bool" where
  "restore_effect u paths i audit s F d' \<longleftrightarrow> (\<exists>d0 f r w d p b a.
     drifted s (w_db s) d0 \<and> graph_at d0 i f r w
     \<and> safe_relative (as_posix (rf_relative_storage_path f)) p
     \<and> files s (area_root paths a @ p) = Some b \<and> int (length b) = rf_file_size_bytes f
     \<and> files s (area_root paths (other_area a) @ p) = None
     \<and> (if a = AreaSoftware
        then moved (files s) (sp_software paths @ p) (sp_quarantine paths @ p) F
        else F = files s)
     \<and> drifted s d0 d \<and> file_changed u audit FILE_RESTORED i (moved_to FileReady) d d'
     \<and> db_constraints d')"

definition restore_done ::
  "unicode \<Rightarrow> storage_paths \<Rightarrow> nat \<Rightarrow> audit_context option \<Rightarrow> world \<Rightarrow> world \<Rightarrow> bool" where
  "restore_done u paths i audit s t \<longleftrightarrow>
     (\<exists>d'. restore_effect u paths i audit s (files t) d' \<and> drifted s d' (w_db t))"

lemma restore_done_later:
  assumes "restore_done u paths i audit s t" and "db_only t t'" and "drifted s (w_db t) (w_db t')"
  shows "restore_done u paths i audit s t'"
  using assms(1,3) drifted_trans unfolding restore_done_def db_onlyD(2) [OF assms(2)] by blast

text \<open>The optional move of the two branches, with its compensation.\<close>

lemma wp_maybe_move:
  assumes ok: "store_ok paths s" and rel: "safe_relative raw p"
  shows "wp (if b then bind (atomic_move (sp_software paths) raw (sp_quarantine paths) raw) (\<lambda>_. ret ())
       else ret ())
     (\<lambda>x t. store_step s t
        \<and> (if b then moved (files s) (sp_software paths @ p) (sp_quarantine paths @ p) (files t)
           else files t = files s)
        \<and> (no_os_faults s \<longrightarrow> (\<forall>v. same_store t v \<longrightarrow>
             wp (if b then restore_move_after_failure paths AreaQuarantine AreaSoftware raw else ret ())
               (\<lambda>_ x. store_step v x \<and> files x = files s)
               (\<lambda>_ x. store_step v x \<and> files x = files s) v)))
     (\<lambda>e t. store_step s t \<and> (no_os_faults s \<longrightarrow> files t = files s)) s"
proof (cases b)
  case True
  have "wp (atomic_move (area_root paths AreaSoftware) raw (area_root paths AreaQuarantine) raw)
     (\<lambda>x t. transfer s (area_root paths AreaSoftware) p (area_root paths AreaQuarantine) p t)
     (\<lambda>e t. store_step s t \<and> (no_os_faults s \<longrightarrow> files t = files s)) s"
    using rel
    by (intro wp_mono [OF wp_move_area [OF ok, of AreaSoftware, simplified other_area.simps]])
      (auto simp: safe_relative_def)
  moreover have "wp (restore_move_after_failure paths AreaQuarantine AreaSoftware raw)
      (\<lambda>_ x. store_step v x \<and> files x = files s) (\<lambda>_ x. store_step v x \<and> files x = files s) v"
    if "transfer s (area_root paths AreaSoftware) p (area_root paths AreaQuarantine) p t"
      "no_os_faults s" "same_store t v" for t v
    using wp_restore_move_after_failure [OF ok that(2) rel, of AreaSoftware t v] that
    by (auto intro: wp_mono)
  ultimately show ?thesis
    using True
    by (simp add: wp_bind wp_basic area_root_simps) (erule wp_mono, auto simp: transfer_def wp_basic)
next
  case False
  then show ?thesis using same_storeD(2) by (auto simp: wp_basic)
qed

lemma wp_restore_ready:
  assumes ok: "store_ok paths s"
  shows "wp (restore_ready u sha paths i audit)
     (\<lambda>(f, r, w) t. restore_done u paths i audit s t \<and> graph_at (w_db t) i f r w)
     (\<lambda>e t. no_os_faults s \<longrightarrow>
        files t = files s \<and> drifted s (w_db s) (w_db t) \<or> restore_done u paths i audit s t) s"
  unfolding restore_ready_def Let_def
proof (rule wp_bind_spec [OF wp_get_file], goal_cases)
  case (1 x s1)
  obtain f r w where x: "x = (f, r, w)" by (cases x)
  have s1: "db_only s s1" "drifted s (w_db s) (w_db s1)" "graph_at (w_db s1) i f r w"
    using 1 x by auto
  note c1 = calm_db_only [OF s1(1)]
  have ok1: "store_ok paths s1" using ok calmD(4) [OF c1] by simp
  show ?case
    unfolding x prod.case
  proof (rule wp_bind_spec [OF wp_verified_physical_file [OF ok1]], goal_cases)
    case (1 st s2)
    have s2: "looked s1 s2" "located s1 paths (rf_relative_storage_path f) st"
      "st_size_bytes st = rf_file_size_bytes f" using 1 by auto
    note c2 = calm_trans [OF c1 calm_looked [OF s2(1)]]
    have db2: "w_db s2 = w_db s1" using s2(1) by (rule looked_db)
    obtain p b where p: "safe_relative (st_relative_path st) p"
      and raw: "st_relative_path st = as_posix (rf_relative_storage_path f)"
      and b: "files s1 (area_root paths (st_area st) @ p) = Some b"
      and size: "st_size_bytes st = int (length b)"
      and other: "files s1 (area_root paths (other_area (st_area st)) @ p) = None"
      by (rule locatedD [OF s2(2)]) (simp add: files_def file_at_def)
    have ok2: "store_ok paths s2" using ok calmD(4) [OF c2] by simp
    have nf2: "no_os_faults s2 = no_os_faults s" using c2 by (rule calmD)
    have f2: "files s2 = files s" using c2 by (rule calmD)
    show ?case
    proof (rule wp_bind_spec [OF wp_maybe_move [OF ok2 p]], goal_cases)
      case (1 z s3)
      then have st3: "store_step s2 s3"
        and mv: "if st_area st = AreaSoftware
          then moved (files s) (sp_software paths @ p) (sp_quarantine paths @ p) (files s3)
          else files s3 = files s"
        and undo: "no_os_faults s \<longrightarrow> (\<forall>v. same_store s3 v \<longrightarrow>
             wp (if st_area st = AreaSoftware
                 then restore_move_after_failure paths AreaQuarantine AreaSoftware (st_relative_path st)
                 else ret ())
               (\<lambda>_ x. store_step v x \<and> files x = files s)
               (\<lambda>_ x. store_step v x \<and> files x = files s) v)"
        using nf2 f2 unfolding area_root_simps by auto
      have db3: "w_db s3 = w_db s1" "w_env s3 = w_env s"
        using store_step_db [OF st3] db2 calmD(5) [OF c2] by simp_all
      have dr: "drifted s3 = drifted s" using drifted_env [OF db3(2)] by (intro ext)
      have tx: "wp (transaction (transition_body u i FileReady FILE_RESTORED [] audit))
        (\<lambda>x t. db_only s3 t \<and> (\<exists>d. drifted s3 (w_db s3) d \<and>
           (\<lambda>_. file_changed u audit FILE_RESTORED i (moved_to FileReady)) x d (w_db t))
           \<and> db_constraints (w_db t))
        (\<lambda>e t. db_only s3 t \<and> drifted s3 (w_db s3) (w_db t) \<and> (\<lambda>_ _. True) e (w_db t)) s3"
        by (rule wp_transaction) (use wp_transition_body in simp_all)
      show ?case
      proof (rule wp_bind_spec [OF wp_compensated [OF tx undo]], goal_cases)
        case (1 z s4)
        then obtain d where s4: "db_only s3 s4" "drifted s (w_db s1) d"
          "file_changed u audit FILE_RESTORED i (moved_to FileReady) d (w_db s4)"
          "db_constraints (w_db s4)" using dr db3 by auto
        have "w_env s4 = w_env s" using db_onlyD(9) [OF s4(1)] db3(2) by simp
        then have env4: "drifted s4 = drifted s" using drifted_env by (intro ext)
        have "restore_effect u paths i audit s (files s4) (w_db s4)"
          unfolding restore_effect_def
          using s1 p raw b size other s2(3) mv s4 db_onlyD(2) [OF s4(1)] calmD(2) [OF c1] f2 unfolding area_root_simps
          by - (rule exI [of _ "w_db s1"], rule exI [of _ f], rule exI [of _ r],
            rule exI [of _ w], rule exI [of _ d], rule exI [of _ p], rule exI [of _ b],
            rule exI [of _ "st_area st"], simp)
        then have done4: "restore_done u paths i audit s s4" unfolding restore_done_def by blast
        show ?case
          by (rule wp_mono [OF wp_get_file])
            (use restore_done_later [OF done4] env4 in auto)
      next
        case (2 e s4)
        then show ?case using s1(2) dr db3 drifted_trans by auto
      qed
    next
      case (2 e s3)
      then show ?case
        using nf2 f2 store_step_db [of s2 s3] db2 s1(2) by auto
    qed
  next
    case (2 e s2)
    then have "w_db s2 = w_db s1" "files s2 = files s1" by (simp_all add: looked_db looked_eqs)
    then show ?case using s1(2) calmD(2) [OF c1] by simp
  qed
next
  case (2 e t)
  then show ?case using db_onlyD(2) by blast
qed

section \<open>Permanent deletion\<close>

definition delete_effect ::
  "unicode \<Rightarrow> storage_paths \<Rightarrow> nat \<Rightarrow> audit_context option \<Rightarrow> world \<Rightarrow> world \<Rightarrow> bool" where
  "delete_effect u paths i audit s t \<longleftrightarrow> (\<exists>d0 f r w d p b a rel.
     drifted s (w_db s) d0 \<and> graph_at d0 i f r w
     \<and> safe_relative (as_posix (rf_relative_storage_path f)) p
     \<and> files s (area_root paths a @ p) = Some b \<and> int (length b) = rf_file_size_bytes f
     \<and> files t = (files s)(area_root paths a @ p := None)
     \<and> drifted s d0 d \<and> file_dropped u audit FILE_PERMANENTLY_DELETED i
         (\<lambda>f'. rf_relative_storage_path f' = as_posix (rf_relative_storage_path f)) rel d (w_db t)
     \<and> db_constraints (w_db t))"

lemma wp_restore_or_fail:
  assumes "wp (restore_staged_deletion paths staged) (\<lambda>_. Q) (\<lambda>e t. e = StorageError \<and> Q t) s"
  shows "wp (try_catch (bind (restore_staged_deletion paths staged) (\<lambda>_. ret ()))
       (\<lambda>e. if e = StorageError then throw StorageError else throw e)) (\<lambda>_. Q) (\<lambda>_. Q) s"
  unfolding wp_try_catch wp_bind by (rule wp_mono [OF assms]) (simp_all add: wp_basic)

lemma wp_permanently_delete:
  assumes ok: "store_ok paths s"
  shows "wp (permanently_delete u sha paths i audit)
     (\<lambda>r t. delete_effect u paths i audit s t)
     (\<lambda>e t. no_os_faults s \<longrightarrow> files t = files s \<and> drifted s (w_db s) (w_db t)) s"
  unfolding permanently_delete_def
proof (rule wp_bind_spec [OF wp_get_file], goal_cases)
  case (1 x s1)
  obtain f r w where x: "x = (f, r, w)" by (cases x)
  have s1: "db_only s s1" "drifted s (w_db s) (w_db s1)" "graph_at (w_db s1) i f r w"
    using 1 x by auto
  note c1 = calm_db_only [OF s1(1)]
  have ok1: "store_ok paths s1" using ok calmD(4) [OF c1] by simp
  show ?case
    unfolding x prod.case
  proof (rule wp_bind_lift, rule wp_bind_spec [OF wp_verified_physical_file [OF ok1]], goal_cases)
    case (1 y st s2)
    have s2: "looked s1 s2" "located s1 paths (rf_relative_storage_path f) st"
      "st_size_bytes st = rf_file_size_bytes f" using 1 by auto
    note c2 = calm_trans [OF c1 calm_looked [OF s2(1)]]
    have db2: "w_db s2 = w_db s1" using s2(1) by (rule looked_db)
    obtain p b where p: "safe_relative (st_relative_path st) p"
      and raw: "st_relative_path st = as_posix (rf_relative_storage_path f)"
      and root: "st_root st = area_root paths (st_area st)"
      and b: "files s1 (area_root paths (st_area st) @ p) = Some b"
      and size: "st_size_bytes st = int (length b)"
      by (rule locatedD [OF s2(2)])
    have ok2: "store_ok paths s2" using ok calmD(4) [OF c2] by simp
    have nf2: "no_os_faults s2 = no_os_faults s" using c2 by (rule calmD)
    have f2: "files s2 = files s" using c2 by (rule calmD)
    let ?s2 = "s2\<lparr>os_uuid_next := Suc (os_uuid_next s2)\<rparr>"
    have ok2': "store_ok paths ?s2" and nf2': "no_os_faults ?s2 = no_os_faults s"
      and f2': "files ?s2 = files s" and step2: "store_step s2 ?s2"
      using ok2 nf2 f2 by (simp_all add: store_ok_def no_os_faults_def store_step_def)
    show ?case
    proof (rule wp_bind_spec [OF wp_stage_for_permanent_deletion [OF ok2 root]], goal_cases)
      case (1 sd s3)
      then have sg: "staged_at ?s2 paths sd s3" and orig: "sd_original sd = st" by auto
      then obtain q q' where q: "safe_relative (st_relative_path st) q"
          "safe_relative (sd_relative_path sd) q'"
        and tr': "transfer ?s2 (st_root st) q (sp_temporary paths) q' s3"
        by (auto simp: staged_at_def)
      have "q = p" using q(1) p by (simp add: safe_relative_def)
      then have mv: "moved (files s) (area_root paths (st_area st) @ p) (sp_temporary paths @ q') (files s3)"
        using tr' root f2' by (simp add: transfer_def)
      have st3: "store_step s2 s3" using step2 staged_at_step [OF sg] by (rule store_step_trans)
      have db3: "w_db s3 = w_db s1" "w_env s3 = w_env s"
        using store_step_db [OF st3] db2 calmD(5) [OF c2] by simp_all
      have dr: "drifted s3 = drifted s" using drifted_env [OF db3(2)] by (intro ext)
      have nf3: "no_os_faults s3 = no_os_faults s"
        using st3 nf2 no_os_faults_frame by (auto simp: store_step_def)
      let ?undo = "try_catch (bind (restore_staged_deletion paths sd) (\<lambda>_. ret ()))
                          (\<lambda>e. if e = StorageError then throw StorageError else throw e)"
      have undo: "no_os_faults s \<longrightarrow> (\<forall>v. same_store s3 v \<longrightarrow>
          wp ?undo (\<lambda>_ x. store_step v x \<and> files x = files s)
            (\<lambda>_ x. store_step v x \<and> files x = files s) v)"
      proof (intro impI allI)
        fix v assume nf: "no_os_faults s" and v: "same_store s3 v"
        have "wp (restore_staged_deletion paths sd) (\<lambda>_ x. store_step v x \<and> files x = files s)
            (\<lambda>e x. e = StorageError \<and> store_step v x \<and> files x = files s) v"
          using wp_restore_staged_deletion [OF ok2' sg _ v, of "st_area st"] nf nf2' f2' orig root by simp
        then show "wp ?undo (\<lambda>_ x. store_step v x \<and> files x = files s)
            (\<lambda>_ x. store_step v x \<and> files x = files s) v"
          by (rule wp_restore_or_fail)
      qed
      have tx: "wp (transaction (permanently_delete_body u i st audit))
        (\<lambda>x t. db_only s3 t \<and> (\<exists>d. drifted s3 (w_db s3) d \<and>
           file_dropped u audit FILE_PERMANENTLY_DELETED i
             (\<lambda>f. rf_relative_storage_path f = st_relative_path st) x d (w_db t))
           \<and> db_constraints (w_db t))
        (\<lambda>e t. db_only s3 t \<and> drifted s3 (w_db s3) (w_db t) \<and> (\<lambda>_ _. True) e (w_db t)) s3"
        by (rule wp_transaction) (use wp_permanently_delete_body in simp_all)
      show ?case
      proof (rule wp_bind_spec [OF wp_compensated [OF tx undo]], goal_cases)
        case (1 rel s4)
        then obtain d where s4: "db_only s3 s4" "drifted s (w_db s1) d"
          "file_dropped u audit FILE_PERMANENTLY_DELETED i
             (\<lambda>f. rf_relative_storage_path f = st_relative_path st) rel d (w_db s4)"
          "db_constraints (w_db s4)" using dr db3 by auto
        have ok4: "store_ok paths s4"
          using store_ok_step [OF ok2 st3] calmD(4) [OF calm_db_only [OF s4(1)]] by simp
        have f4: "files s4 = files s3" using s4(1) by (rule db_onlyD)
        have "wp (unlink_staged_deletion paths sd)
           (\<lambda>_ t. store_step s4 t \<and> files t = (files s)(area_root paths (st_area st) @ p := None))
           (\<lambda>e t. e = StorageError \<and> \<not> no_os_faults s) s4"
        proof (rule wp_mono [OF wp_unlink_staged_deletion [OF ok4]], goal_cases)
          case (1 z t)
          then have "store_step s4 t" "files t = (files s4)(sp_temporary paths @ q' := None)"
            using q(2) by (auto simp: safe_relative_def)
          then show ?case using mv f4 by (auto simp: moved_def)
        next
          case (2 e t)
          have "files s4 (sp_temporary paths @ q') \<noteq> None" using mv f4 by (auto simp: moved_def)
          then show ?case using 2 q(2) nf3 db_onlyD(11) [OF s4(1)] by blast
        qed
        then have "wp (try_catch (unlink_staged_deletion paths sd)
             (\<lambda>e. if e = StorageError then throw StorageError else throw e))
           (\<lambda>_ t. store_step s4 t \<and> files t = (files s)(area_root paths (st_area st) @ p := None))
           (\<lambda>e t. \<not> no_os_faults s) s4"
          unfolding wp_try_catch by (rule wp_mono) (simp_all add: wp_basic)
        then show ?case
        proof (rule wp_bind_spec, goal_cases)
          case (1 z s5)
          then have "w_db s5 = w_db s4" using store_step_db by blast
          then have "delete_effect u paths i audit s s5"
            unfolding delete_effect_def
            using s1 p raw b size s2(3) s4 1 db_onlyD(2) [OF s1(1)]
            by - (rule exI [of _ "w_db s1"], rule exI [of _ f], rule exI [of _ r],
              rule exI [of _ w], rule exI [of _ d], rule exI [of _ p], rule exI [of _ b],
              rule exI [of _ "st_area st"], rule exI [of _ rel], simp)
          then show ?case by (simp add: wp_basic)
        qed simp
      next
        case (2 e s4)
        then show ?case using s1(2) dr db3 drifted_trans by auto
      qed
    next
      case (2 e s3)
      then show ?case
        using nf2 f2 store_step_db [of s2 s3] db2 s1(2) by auto
    qed
  next
    case (2 y e s2)
    then have "w_db s2 = w_db s1" "files s2 = files s1" by (simp_all add: looked_db looked_eqs)
    then show ?case using s1(2) calmD(2) [OF c1] by simp
  next
    case (3 e)
    then show ?case using s1(2) calmD(2) [OF c1] by simp
  qed
next
  case (2 e t)
  then show ?case using db_onlyD(2) by blast
qed

section \<open>Operations that move nothing\<close>

text \<open>The row \<open>i\<close> took one transition while its bytes lay in one area with \<open>A\<close>.\<close>

definition transition_effect ::
  "unicode \<Rightarrow> storage_paths \<Rightarrow> nat \<Rightarrow> audit_context option \<Rightarrow> audit_action \<Rightarrow> file_status \<Rightarrow>
   (storage_area \<Rightarrow> bool) \<Rightarrow> world \<Rightarrow> database \<Rightarrow> bool" where
  "transition_effect u paths i audit action target A s d' \<longleftrightarrow> (\<exists>d0 f r w d p a.
     drifted s (w_db s) d0 \<and> graph_at d0 i f r w
     \<and> safe_relative (as_posix (rf_relative_storage_path f)) p
     \<and> files s (area_root paths a @ p) \<noteq> None
     \<and> files s (area_root paths (other_area a) @ p) = None \<and> A a
     \<and> drifted s d0 d \<and> file_changed u audit action i (moved_to target) d d'
     \<and> db_constraints d')"

definition transition_done ::
  "unicode \<Rightarrow> storage_paths \<Rightarrow> nat \<Rightarrow> audit_context option \<Rightarrow> audit_action \<Rightarrow> file_status \<Rightarrow>
   (storage_area \<Rightarrow> bool) \<Rightarrow> world \<Rightarrow> world \<Rightarrow> bool" where
  "transition_done u paths i audit action target A s t \<longleftrightarrow> files t = files s
     \<and> (\<exists>d'. transition_effect u paths i audit action target A s d' \<and> drifted s d' (w_db t))"

text \<open>Loading and checking the file, as every operation begins.\<close>

definition checked_file ::
  "storage_paths \<Rightarrow> nat \<Rightarrow> world \<Rightarrow> world \<Rightarrow> release_file \<Rightarrow> release \<Rightarrow> software \<Rightarrow> stored_file \<Rightarrow> bool" where
  "checked_file paths i s t f r w st \<longleftrightarrow> calm s t \<and> drifted s (w_db s) (w_db t)
     \<and> graph_at (w_db t) i f r w \<and> located s paths (rf_relative_storage_path f) st"

lemma wp_checked_file:
  assumes ok: "store_ok paths s"
    and rest: "\<And>f r w st t. checked_file paths i s t f r w st \<Longrightarrow> wp (k f st) Q E t"
    and fail: "\<And>e t. files t = files s \<Longrightarrow> drifted s (w_db s) (w_db t) \<Longrightarrow> E e t"
  shows "wp (bind (get_file i) (\<lambda>(f, _, _).
       bind (verified_physical_file sha paths f False) (\<lambda>st. k f st))) Q E s"
proof (rule wp_bind_spec [OF wp_get_file], goal_cases)
  case (1 x s1)
  obtain f r w where x: "x = (f, r, w)" by (cases x)
  have s1: "db_only s s1" "drifted s (w_db s) (w_db s1)" "graph_at (w_db s1) i f r w"
    using 1 x by auto
  note c1 = calm_db_only [OF s1(1)]
  have ok1: "store_ok paths s1" using ok calmD(4) [OF c1] by simp
  show ?case
    unfolding x prod.case
  proof (rule wp_bind_spec [OF wp_verified_physical_file [OF ok1]], goal_cases)
    case (1 st s2)
    then have "checked_file paths i s s2 f r w st"
      using s1 c1 calm_trans [OF c1 calm_looked] calmD(6) [OF c1] looked_db
      unfolding checked_file_def by auto
    then show ?case by (rule rest)
  next
    case (2 e s2)
    then show ?case using s1(2) calmD(2) [OF c1] by (intro fail) (simp_all add: looked_db looked_eqs)
  qed
next
  case (2 e t)
  then show ?case using fail db_onlyD(2) by blast
qed

lemma wp_transition_tail:
  assumes c: "checked_file paths i s t f r w st" and a: "A (st_area st)"
  shows "wp (bind (transaction (transition_body u i target action extra audit)) (\<lambda>_. get_file i))
     (\<lambda>(f, r, w) v. transition_done u paths i audit action target A s v \<and> graph_at (w_db v) i f r w)
     (\<lambda>e v. files v = files s \<and> drifted s (w_db s) (w_db v)
        \<or> transition_done u paths i audit action target A s v) t"
proof -
  have cs: "calm s t" and d: "drifted s (w_db s) (w_db t)" and g: "graph_at (w_db t) i f r w"
    and loc: "located s paths (rf_relative_storage_path f) st"
    using c by (auto simp: checked_file_def)
  have dr: "drifted t = drifted s" using drifted_env [OF calmD(5) [OF cs]] by (intro ext)
  obtain p b where p: "safe_relative (st_relative_path st) p"
    and raw: "st_relative_path st = as_posix (rf_relative_storage_path f)"
    and b: "files s (area_root paths (st_area st) @ p) = Some b"
    and other: "files s (area_root paths (other_area (st_area st)) @ p) = None"
    by (rule locatedD [OF loc]) (simp add: files_def file_at_def)
  have tx: "wp (transaction (transition_body u i target action extra audit))
    (\<lambda>x v. db_only t v \<and> (\<exists>d. drifted t (w_db t) d \<and>
       (\<lambda>_. file_changed u audit action i (moved_to target)) x d (w_db v)) \<and> db_constraints (w_db v))
    (\<lambda>e v. db_only t v \<and> drifted t (w_db t) (w_db v) \<and> (\<lambda>_ _. True) e (w_db v)) t"
    by (rule wp_transaction) (use wp_transition_body in simp_all)
  show ?thesis
  proof (rule wp_bind_spec [OF tx], goal_cases)
    case (1 z v)
    then obtain d' where v: "db_only t v" "drifted s (w_db t) d'"
      "file_changed u audit action i (moved_to target) d' (w_db v)" "db_constraints (w_db v)"
      using dr by auto
    have "w_env v = w_env s" using db_onlyD(9) [OF v(1)] calmD(5) [OF cs] by simp
    then have env: "drifted v = drifted s" using drifted_env by (intro ext)
    have "transition_effect u paths i audit action target A s (w_db v)"
      unfolding transition_effect_def
      using d g p raw b other a v
      by - (rule exI [of _ "w_db t"], rule exI [of _ f], rule exI [of _ r], rule exI [of _ w],
        rule exI [of _ d'], rule exI [of _ p], rule exI [of _ "st_area st"], simp)
    moreover have "files v = files s" using db_onlyD(2) [OF v(1)] calmD(2) [OF cs] by simp
    ultimately have fin: "transition_done u paths i audit action target A s v'"
      if "db_only v v'" "drifted s (w_db v) (w_db v')" for v'
      using that db_onlyD(2) unfolding transition_done_def by metis
    show ?case
      by (rule wp_mono [OF wp_get_file]) (use fin env in auto)
  next
    case (2 e v)
    then have "files v = files s" using db_onlyD(2) [of t v] calmD(2) [OF cs] by simp
    then show ?case using 2 d dr drifted_trans by auto
  qed
qed

lemma wp_transition_with_storage_check:
  assumes ok: "store_ok paths s"
  shows "wp (transition_with_storage_check u sha paths i target action audit)
     (\<lambda>(f, r, w) t. transition_done u paths i audit action target (\<lambda>_. True) s t
        \<and> graph_at (w_db t) i f r w)
     (\<lambda>e t. files t = files s \<and> drifted s (w_db s) (w_db t)
        \<or> transition_done u paths i audit action target (\<lambda>_. True) s t) s"
  unfolding transition_with_storage_check_def
  by (rule wp_checked_file [OF ok]) (rule wp_transition_tail, auto)

lemma wp_review_status:
  assumes ok: "store_ok paths s"
  shows "wp (review_status u sha paths i target audit)
     (\<lambda>(f, r, w) t. target \<in> {FileReady, FileRejected, FileQuarantine}
        \<and> transition_done u paths i audit FILE_REVIEWED target (\<lambda>a. a = AreaQuarantine) s t
        \<and> graph_at (w_db t) i f r w)
     (\<lambda>e t. files t = files s \<and> drifted s (w_db s) (w_db t)
        \<or> target \<in> {FileReady, FileRejected, FileQuarantine}
          \<and> transition_done u paths i audit FILE_REVIEWED target (\<lambda>a. a = AreaQuarantine) s t) s"
  unfolding review_status_def
proof (rule wp_bind_raise_if)
  assume t: "\<not> target \<notin> {FileReady, FileRejected, FileQuarantine}"
  show "wp (bind (get_file i) (\<lambda>(file, _, _).
     bind (verified_physical_file sha paths file False) (\<lambda>stored.
     bind (raise_if (st_area stored \<noteq> AreaQuarantine) StorageError) (\<lambda>_.
     bind (transaction (transition_body u i target FILE_REVIEWED [] audit)) (\<lambda>_.
       get_file i)))))
     (\<lambda>(f, r, w) t. target \<in> {FileReady, FileRejected, FileQuarantine}
        \<and> transition_done u paths i audit FILE_REVIEWED target (\<lambda>a. a = AreaQuarantine) s t
        \<and> graph_at (w_db t) i f r w)
     (\<lambda>e t. files t = files s \<and> drifted s (w_db s) (w_db t)
        \<or> target \<in> {FileReady, FileRejected, FileQuarantine}
          \<and> transition_done u paths i audit FILE_REVIEWED target (\<lambda>a. a = AreaQuarantine) s t) s"
  proof (rule wp_checked_file [OF ok], rule wp_bind_raise_if, goal_cases)
    case (1 f r w st v)
    then show ?case by (auto simp: checked_file_def calmD)
  next
    case (2 f r w st v)
    then show ?case
      using t by (intro wp_mono [OF wp_transition_tail [where A = "\<lambda>a. a = AreaQuarantine"]]) auto
  qed auto
qed auto

text \<open>Deleting metadata keeps the bytes.\<close>

definition drop_effect ::
  "unicode \<Rightarrow> nat \<Rightarrow> audit_context option \<Rightarrow> world \<Rightarrow> database \<Rightarrow> bool" where
  "drop_effect u i audit s d' \<longleftrightarrow> (\<exists>d rel. drifted s (w_db s) d
     \<and> file_dropped u audit FILE_METADATA_DELETED i (\<lambda>_. True) rel d d' \<and> db_constraints d')"

lemma wp_delete_metadata:
  assumes ok: "store_ok paths s"
  shows "wp (delete_metadata u paths i audit)
     (\<lambda>r t. files t = files s \<and> drop_effect u i audit s (w_db t)
        \<and> fdr_physical_file_preserved r = (fdr_storage_area r \<noteq> None))
     (\<lambda>e t. files t = files s \<and> drifted s (w_db s) (w_db t)) s"
  unfolding delete_metadata_def Let_def
proof (rule wp_bind_spec [OF wp_get_file], goal_cases)
  case (1 x s1)
  obtain f r w where x: "x = (f, r, w)" by (cases x)
  have s1: "db_only s s1" "drifted s (w_db s) (w_db s1)" using 1 x by auto
  note c1 = calm_db_only [OF s1(1)]
  have ok1: "store_ok paths s1" using ok calmD(4) [OF c1] by simp
  show ?case
    unfolding x prod.case
  proof (rule wp_bind_lift, rule wp_bind_spec [OF wp_inspect_stored_files [OF ok1]],
      rule_tac [1] wp_bind_raise_if, goal_cases)
    case (1 y ms s2)
    then show ?case using s1(2) calmD(2) [OF c1] by (auto simp: looked_db looked_eqs)
  next
    case (2 y ms s2)
    let ?st = "case ms of [] \<Rightarrow> None | m # _ \<Rightarrow> Some m"
    have s2: "w_db s2 = w_db s1" "files s2 = files s" "w_env s2 = w_env s"
      using 2 calmD(2,5) [OF c1] by (auto simp: looked_db looked_eqs)
    have dr: "drifted s2 = drifted s" using drifted_env [OF s2(3)] by (intro ext)
    have tx: "wp (transaction (delete_metadata_body u i ?st audit))
      (\<lambda>x v. db_only s2 v \<and> (\<exists>d. drifted s2 (w_db s2) d \<and>
         file_dropped u audit FILE_METADATA_DELETED i (\<lambda>_. True) x d (w_db v)) \<and> db_constraints (w_db v))
      (\<lambda>e v. db_only s2 v \<and> drifted s2 (w_db s2) (w_db v) \<and> (\<lambda>_ _. True) e (w_db v)) s2"
      by (rule wp_transaction) (use wp_delete_metadata_body in simp_all)
    show ?case
    proof (rule wp_bind_spec [OF tx], goal_cases)
      case (1 rel v)
      have "files v = files s" using 1 db_onlyD(2) s2(2) by auto
      moreover have "drop_effect u i audit s (w_db v)"
        using 1 dr s2(1) s1(2) drifted_trans unfolding drop_effect_def by metis
      ultimately show ?case by (simp add: wp_basic)
    next
      case (2 e v)
      then show ?case using dr s2 s1(2) drifted_trans db_onlyD(2) by auto
    qed
  next
    case (3 y e s2)
    then show ?case using s1(2) calmD(2) [OF c1] by (auto simp: looked_db looked_eqs)
  next
    case (4 e)
    then show ?case using s1(2) calmD(2) [OF c1] by simp
  qed
next
  case (2 e t)
  then show ?case using db_onlyD(2) by blast
qed

end
