(* ===== verification/Reconciliation.thy ===== *)
theory Reconciliation
  imports AuditTrail Staging "HOL-Library.List_Lexorder" "HOL-Library.Product_Lexorder"
begin

text \<open>
  \<open>app/services/reconciliation_service.py\<close>: comparing the metadata with the two storage
  areas, recalculating checksums, deleting unreferenced files. The directory listing of the
  operating system, \<open>ls\<close>, is a parameter; \<open>fuel\<close> bounds the depth of a directory walk.
\<close>

section \<open>Issues\<close>

datatype issue_kind =
    MetadataWithoutFile | DuplicateStorageLocation | UnexpectedStorageArea | SizeMismatch
  | ChecksumMismatch | OrphanFile | UnsafeStorageEntry

fun issue_kind_value :: "issue_kind \<Rightarrow> str" where
  "issue_kind_value MetadataWithoutFile = py ''metadata_without_file''"
| "issue_kind_value DuplicateStorageLocation = py ''duplicate_storage_location''"
| "issue_kind_value UnexpectedStorageArea = py ''unexpected_storage_area''"
| "issue_kind_value SizeMismatch = py ''size_mismatch''"
| "issue_kind_value ChecksumMismatch = py ''checksum_mismatch''"
| "issue_kind_value OrphanFile = py ''orphan_file''"
| "issue_kind_value UnsafeStorageEntry = py ''unsafe_storage_entry''"

lemma issue_kind_value_inj: "issue_kind_value a = issue_kind_value b \<Longrightarrow> a = b"
  by (cases a; cases b) (simp_all add: py_def)

text \<open>Kinds are ordered as their stored strings.\<close>

instantiation issue_kind :: linorder
begin

definition less_eq_issue_kind :: "issue_kind \<Rightarrow> issue_kind \<Rightarrow> bool" where
  "a \<le> b \<longleftrightarrow> issue_kind_value a \<le> issue_kind_value b"

definition less_issue_kind :: "issue_kind \<Rightarrow> issue_kind \<Rightarrow> bool" where
  "a < b \<longleftrightarrow> issue_kind_value a < issue_kind_value b"

instance
  by standard (auto simp: less_eq_issue_kind_def less_issue_kind_def dest: issue_kind_value_inj)

end

datatype issue_value = NoValue | StrValue str | IntValue int

record issue =
  iss_kind :: issue_kind
  iss_relative_path :: str
  iss_file_id :: "nat option"
  iss_storage_area :: "storage_area option"
  iss_expected :: issue_value
  iss_actual :: issue_value

definition issue_sort_key :: "issue \<Rightarrow> issue_kind \<times> str \<times> nat" where
  "issue_sort_key i = (iss_kind i, iss_relative_path i,
     case iss_file_id i of None \<Rightarrow> 0 | Some n \<Rightarrow> n)"

record reconciliation_report =
  rep_metadata_count :: nat
  rep_physical_file_count :: nat
  rep_verified_count :: nat
  rep_issues :: "issue list"

definition orphan_count :: "reconciliation_report \<Rightarrow> nat" where
  "orphan_count r = length (filter (\<lambda>i. iss_kind i = OrphanFile) (rep_issues r))"

definition mismatch_count :: "reconciliation_report \<Rightarrow> int" where
  "mismatch_count r = int (length (rep_issues r)) - int (orphan_count r)"

definition healthy :: "reconciliation_report \<Rightarrow> bool" where
  "healthy r = (rep_issues r = [])"

record file_metadata =
  fm_file_id :: nat
  fm_relative_path :: str
  fm_sha256 :: str
  fm_size_bytes :: int
  fm_status :: file_status

definition metadata_of :: "release_file \<Rightarrow> file_metadata" where
  "metadata_of f = \<lparr>fm_file_id = rf_id f, fm_relative_path = rf_relative_storage_path f,
     fm_sha256 = rf_sha256 f, fm_size_bytes = rf_file_size_bytes f, fm_status = rf_status f\<rparr>"

definition metadata_snapshot :: "file_metadata list svc" where
  "metadata_snapshot =
     read_session (query (\<lambda>d. map metadata_of (sort_key rf_id (db_files d))))"

definition area_allowed :: "file_status \<Rightarrow> storage_area \<Rightarrow> bool" where
  "area_allowed status area =
     (if status = FilePublished then area = AreaSoftware
      else if status \<in> {FileQuarantine, FileReady, FileRejected} then area = AreaQuarantine
      else area \<in> {AreaQuarantine, AreaSoftware})"

definition expected_area_label :: "file_status \<Rightarrow> str" where
  "expected_area_label status =
     (if status = FilePublished then storage_area_value AreaSoftware
      else if status \<in> {FileQuarantine, FileReady, FileRejected}
      then storage_area_value AreaQuarantine
      else py ''quarantine_or_software'')"

section \<open>Walking the storage areas\<close>

type_synonym listing = "fs \<Rightarrow> path \<Rightarrow> str list"

definition is_real_dir :: "fs \<Rightarrow> path \<Rightarrow> bool" where
  "is_real_dir f p = (case f p of Some (Dir _) \<Rightarrow> True | _ \<Rightarrow> False)"

text \<open>
  \<open>Path.walk(follow_symlinks=False)\<close> from \<open>current\<close>: the directories visited with their
  directory and file names; a link, also one to a directory, is a file name. A directory that
  cannot be listed is skipped. The caller's loop drops directory names that are links before
  the walk descends.
\<close>

record visited =
  vis_current :: path
  vis_unsafe :: "str list"
  vis_file_names :: "str list"

definition list_directory :: "listing \<Rightarrow> path \<Rightarrow> ((str list \<times> fs) option) svc" where
  "list_directory ls current =
     try_catch (bind syscall (\<lambda>_. bind (gets os_fs) (\<lambda>f. ret (Some (ls f current, f)))))
       (\<lambda>e. ret None)"

fun walk :: "listing \<Rightarrow> nat \<Rightarrow> path \<Rightarrow> visited list svc" where
  "walk ls 0 current = ret []"
| "walk ls (Suc fuel) current =
     bind (list_directory ls current) (\<lambda>listed.
       case listed of
         None \<Rightarrow> ret []
       | Some (names, f) \<Rightarrow>
           let directory_names = filter (\<lambda>n. is_real_dir f (current @ [n])) names;
               file_names = filter (\<lambda>n. \<not> is_real_dir f (current @ [n])) names;
               unsafe_directories = filter (\<lambda>n. is_symlink f (current @ [n])) directory_names in
           bind (map_eff (\<lambda>n. walk ls fuel (current @ [n]))
                   (filter (\<lambda>n. n \<notin> set unsafe_directories) directory_names)) (\<lambda>below.
             ret (\<lparr>vis_current = current, vis_unsafe = unsafe_directories,
                   vis_file_names = file_names\<rparr> # concat below)))"

definition relative_posix :: "path \<Rightarrow> path \<Rightarrow> str" where
  "relative_posix root p = join_on slash (drop (length root) p)"

definition unsafe_issue :: "str \<Rightarrow> nat option \<Rightarrow> storage_area option \<Rightarrow> issue" where
  "unsafe_issue rel i area = \<lparr>iss_kind = UnsafeStorageEntry, iss_relative_path = rel,
     iss_file_id = i, iss_storage_area = area, iss_expected = NoValue, iss_actual = NoValue\<rparr>"

definition orphan_issue :: "str \<Rightarrow> storage_area \<Rightarrow> int \<Rightarrow> issue" where
  "orphan_issue rel area n = \<lparr>iss_kind = OrphanFile, iss_relative_path = rel,
     iss_file_id = None, iss_storage_area = Some area, iss_expected = NoValue,
     iss_actual = IntValue n\<rparr>"

text \<open>One file name of the walk.\<close>

definition inspect_entry ::
  "str set \<Rightarrow> storage_area \<Rightarrow> path \<Rightarrow> path \<Rightarrow> issue list \<Rightarrow> issue list svc" where
  "inspect_entry known area root p issues =
     bind (try_catch (bind (sys_lstat p) (\<lambda>n. ret (Some n)))
             (\<lambda>e. if is_os_error e then ret None else throw e)) (\<lambda>metadata.
       case metadata of
         None \<Rightarrow> ret (issues @ [unsafe_issue (relative_posix root p) None (Some area)])
       | Some n \<Rightarrow>
           if \<not> is_regular n
           then ret (issues @ [unsafe_issue (relative_posix root p) None (Some area)])
           else if relative_posix root p \<notin> known
           then ret (issues @ [orphan_issue (relative_posix root p) area (node_size n)])
           else ret issues)"

definition inspect_directory ::
  "str set \<Rightarrow> storage_area \<Rightarrow> path \<Rightarrow> visited \<Rightarrow> issue list \<Rightarrow> issue list svc" where
  "inspect_directory known area root v issues =
     fold_eff (\<lambda>name. inspect_entry known area root (vis_current v @ [name])) (vis_file_names v)
       (issues @ map (\<lambda>n. unsafe_issue (relative_posix root (vis_current v @ [n])) None (Some area))
          (vis_unsafe v))"

definition area_orphans ::
  "listing \<Rightarrow> nat \<Rightarrow> storage_paths \<Rightarrow> str set \<Rightarrow> storage_area \<Rightarrow> issue list \<Rightarrow> issue list svc" where
  "area_orphans ls fuel paths known area issues =
     bind (gets os_fs) (\<lambda>f.
       if is_symlink f (area_root paths area) \<or> \<not> is_dir f (area_root paths area)
       then ret (issues @ [unsafe_issue dot None (Some area)])
       else bind (walk ls fuel (area_root paths area)) (\<lambda>visits.
         fold_eff (inspect_directory known area (area_root paths area)) visits issues))"

definition orphan_issues ::
  "listing \<Rightarrow> nat \<Rightarrow> storage_paths \<Rightarrow> str set \<Rightarrow> issue list svc" where
  "orphan_issues ls fuel paths known =
     bind (fold_eff (area_orphans ls fuel paths known) [AreaQuarantine, AreaSoftware] []) (\<lambda>issues.
       ret (sort_key issue_sort_key issues))"

section \<open>Verification\<close>

definition row_issue ::
  "issue_kind \<Rightarrow> file_metadata \<Rightarrow> storage_area option \<Rightarrow> issue_value \<Rightarrow> issue_value \<Rightarrow> issue" where
  "row_issue kind item area expected actual = \<lparr>iss_kind = kind,
     iss_relative_path = fm_relative_path item, iss_file_id = Some (fm_file_id item),
     iss_storage_area = area, iss_expected = expected, iss_actual = actual\<rparr>"

record verify_state =
  vs_issues :: "issue list"
  vs_physical :: nat
  vs_verified :: nat

definition area_check :: "file_metadata \<Rightarrow> stored_file \<Rightarrow> issue list" where
  "area_check item stored =
     (if \<not> area_allowed (fm_status item) (st_area stored)
      then [row_issue UnexpectedStorageArea item (Some (st_area stored))
              (StrValue (expected_area_label (fm_status item)))
              (StrValue (storage_area_value (st_area stored)))]
      else [])"

definition size_check :: "file_metadata \<Rightarrow> stored_file \<Rightarrow> issue list" where
  "size_check item stored =
     (if st_size_bytes stored \<noteq> fm_size_bytes item
      then [row_issue SizeMismatch item (Some (st_area stored)) (IntValue (fm_size_bytes item))
              (IntValue (st_size_bytes stored))]
      else [])"

definition checksum_check ::
  "(bytes \<Rightarrow> str) \<Rightarrow> bool \<Rightarrow> file_metadata \<Rightarrow> stored_file \<Rightarrow> (bool \<times> issue list) svc" where
  "checksum_check sha verify_checksums item stored =
     (if \<not> verify_checksums then ret (True, [])
      else
        bind (sha256_file sha (st_path stored)) (\<lambda>(digest, size).
          if size \<noteq> fm_size_bytes item \<or> digest \<noteq> fm_sha256 item
          then ret (False, [row_issue ChecksumMismatch item (Some (st_area stored))
                              (StrValue (fm_sha256 item)) (StrValue digest)])
          else ret (True, [])))"

definition verify_matches ::
  "(bytes \<Rightarrow> str) \<Rightarrow> bool \<Rightarrow> file_metadata \<Rightarrow> stored_file list \<Rightarrow> verify_state \<Rightarrow> verify_state svc" where
  "verify_matches sha verify_checksums item matches st =
     (let st = st\<lparr>vs_physical := vs_physical st + length matches\<rparr> in
      case matches of
        [] \<Rightarrow> ret (st\<lparr>vs_issues := vs_issues st
                @ [row_issue MetadataWithoutFile item None NoValue NoValue]\<rparr>)
      | [stored] \<Rightarrow>
          bind (checksum_check sha verify_checksums item stored) (\<lambda>(checksum_matches, sums).
            ret (st\<lparr>vs_issues := vs_issues st @ area_check item stored @ size_check item stored @ sums,
                    vs_verified := vs_verified st
                      + (if st_size_bytes stored = fm_size_bytes item \<and> checksum_matches
                         then 1 else 0)\<rparr>))
      | _ \<Rightarrow> ret (st\<lparr>vs_issues := vs_issues st
                @ [row_issue DuplicateStorageLocation item None (IntValue 1)
                     (IntValue (int (length matches)))]\<rparr>))"

definition verify_item ::
  "(bytes \<Rightarrow> str) \<Rightarrow> storage_paths \<Rightarrow> bool \<Rightarrow> file_metadata \<Rightarrow> verify_state \<Rightarrow> verify_state svc" where
  "verify_item sha paths verify_checksums item st =
     bind (try_catch (bind (inspect_stored_files paths (fm_relative_path item)) (\<lambda>ms. ret (Some ms)))
             (\<lambda>e. if e = StorageError then ret None else throw e)) (\<lambda>found.
       case found of
         None \<Rightarrow> ret (st\<lparr>vs_issues := vs_issues st
                   @ [unsafe_issue (fm_relative_path item) (Some (fm_file_id item)) None]\<rparr>)
       | Some matches \<Rightarrow> verify_matches sha verify_checksums item matches st)"

definition verify_storage ::
  "listing \<Rightarrow> nat \<Rightarrow> (bytes \<Rightarrow> str) \<Rightarrow> storage_paths \<Rightarrow> bool \<Rightarrow> reconciliation_report svc" where
  "verify_storage ls fuel sha paths verify_checksums =
     bind metadata_snapshot (\<lambda>metadata.
     bind (fold_eff (verify_item sha paths verify_checksums) metadata
             \<lparr>vs_issues = [], vs_physical = 0, vs_verified = 0\<rparr>) (\<lambda>st.
     bind (orphan_issues ls fuel paths (fm_relative_path ` set metadata)) (\<lambda>orphans.
       ret \<lparr>rep_metadata_count = length metadata,
            rep_physical_file_count = vs_physical st + length orphans,
            rep_verified_count = vs_verified st,
            rep_issues = sort_key issue_sort_key (vs_issues st @ orphans)\<rparr>)))"

section \<open>Recalculation\<close>

record checksum_change =
  cc_file_id :: nat
  cc_relative_path :: str
  cc_old_sha256 :: str
  cc_new_sha256 :: str
  cc_old_size_bytes :: int
  cc_new_size_bytes :: int
  cc_published :: bool

record recalculation =
  rc_changes :: "checksum_change list"
  rc_state :: "(nat \<times> (str \<times> int \<times> int)) list"
  rc_skipped :: nat
  rc_errors :: nat

text \<open>The physical identity of the single stored copy: digest, size, modification time.\<close>

definition physical_identity ::
  "(bytes \<Rightarrow> str) \<Rightarrow> storage_paths \<Rightarrow> str \<Rightarrow> ((storage_area \<times> str \<times> int \<times> int) option) svc" where
  "physical_identity sha paths relative_path =
     try_catch
       (bind (inspect_stored_files paths relative_path) (\<lambda>matches.
          case matches of
            [stored] \<Rightarrow>
              bind (sha256_file sha (st_path stored)) (\<lambda>(digest, size).
              bind (sys_lstat (st_path stored)) (\<lambda>metadata.
                ret (Some (st_area stored, digest, size,
                  case metadata of File _ _ t \<Rightarrow> t | _ \<Rightarrow> 0))))
          | _ \<Rightarrow> ret None))
       (\<lambda>e. if is_os_error e \<or> e = StorageError then ret None else throw e)"

definition recalculate_item ::
  "(bytes \<Rightarrow> str) \<Rightarrow> storage_paths \<Rightarrow> bool \<Rightarrow> file_metadata \<Rightarrow> recalculation \<Rightarrow> recalculation svc" where
  "recalculate_item sha paths include_published item r =
     bind (physical_identity sha paths (fm_relative_path item)) (\<lambda>found.
       case found of
         None \<Rightarrow> ret (r\<lparr>rc_errors := rc_errors r + 1\<rparr>)
       | Some (_, digest, sz, mtime) \<Rightarrow>
           if digest = fm_sha256 item \<and> sz = fm_size_bytes item then ret r
           else if fm_status item = FilePublished \<and> \<not> include_published
           then ret (r\<lparr>rc_skipped := rc_skipped r + 1\<rparr>)
           else ret (r\<lparr>
             rc_changes := rc_changes r @ [\<lparr>cc_file_id = fm_file_id item,
               cc_relative_path = fm_relative_path item, cc_old_sha256 = fm_sha256 item,
               cc_new_sha256 = digest, cc_old_size_bytes = fm_size_bytes item,
               cc_new_size_bytes = sz, cc_published = (fm_status item = FilePublished)\<rparr>],
             rc_state := (fm_file_id item, (digest, sz, mtime)) # rc_state r\<rparr>))"

definition apply_change ::
  "unicode \<Rightarrow> (bytes \<Rightarrow> str) \<Rightarrow> storage_paths \<Rightarrow> (nat \<times> (str \<times> int \<times> int)) list \<Rightarrow>
   checksum_change \<Rightarrow> nat \<times> nat \<Rightarrow> (nat \<times> nat) svc" where
  "apply_change u sha paths state chg counts = (case counts of (updated, errors) \<Rightarrow>
     bind (query (\<lambda>d. row_get rf_id (cc_file_id chg) (db_files d))) (\<lambda>entity.
       case entity of
         None \<Rightarrow> ret (updated, errors + 1)
       | Some row \<Rightarrow>
           bind (physical_identity sha paths (rf_relative_storage_path row)) (\<lambda>found.
             case found of
               None \<Rightarrow> ret (updated, errors + 1)
             | Some (area, digest, sz, mtime) \<Rightarrow>
                 if map_of state (cc_file_id chg) \<noteq> Some (digest, sz, mtime)
                 then ret (updated, errors + 1)
                 else
                   bind (update_file (rf_id row)
                           (\<lambda>f. f\<lparr>rf_sha256 := digest, rf_file_size_bytes := sz\<rparr>)) (\<lambda>_.
                   bind (append_audit_event u FILE_CHECKSUM_RECALCULATED AuditSuccess None
                           (Some (py ''release_file'')) (Some (digits_of (rf_id row)))
                           (Some (py ''cli'')) None
                           [(py ''changed'', PBool True), (py ''file_size_bytes'', PInt sz),
                            (py ''storage_area'', PStr (storage_area_value area))]) (\<lambda>_.
                     ret (updated + 1, errors))))))"

record recalculation_report =
  rr_examined :: nat
  rr_changes :: "checksum_change list"
  rr_updated_count :: nat
  rr_skipped_published_count :: nat
  rr_errors :: nat
  rr_dry_run :: bool

definition recalculate_checksums ::
  "unicode \<Rightarrow> (bytes \<Rightarrow> str) \<Rightarrow> storage_paths \<Rightarrow> bool \<Rightarrow> bool \<Rightarrow> recalculation_report svc" where
  "recalculate_checksums u sha paths dry_run include_published =
     bind metadata_snapshot (\<lambda>metadata.
     bind (fold_eff (recalculate_item sha paths include_published) metadata
             \<lparr>rc_changes = [], rc_state = [], rc_skipped = 0, rc_errors = 0\<rparr>) (\<lambda>r.
     bind (if \<not> dry_run \<and> rc_changes r \<noteq> []
           then transaction (fold_eff (apply_change u sha paths (rc_state r)) (rc_changes r)
                  (0, rc_errors r))
           else ret (0, rc_errors r)) (\<lambda>(updated, errors).
       ret \<lparr>rr_examined = length metadata, rr_changes = rc_changes r, rr_updated_count = updated,
            rr_skipped_published_count = rc_skipped r, rr_errors = errors, rr_dry_run = dry_run\<rparr>)))"

section \<open>Deleting orphans\<close>

record orphan_cleanup_report =
  oc_discovered :: "issue list"
  oc_deleted_count :: nat
  oc_errors :: nat
  oc_dry_run :: bool

definition delete_orphan :: "storage_paths \<Rightarrow> issue \<Rightarrow> nat \<times> nat \<Rightarrow> (nat \<times> nat) svc" where
  "delete_orphan paths i counts =
     (case counts of (deleted, errors) \<Rightarrow>
        (case iss_storage_area i of
           None \<Rightarrow> ret (deleted, errors + 1)
         | Some area \<Rightarrow>
             let root = area_root paths area; relative = as_posix (iss_relative_path i) in
             try_catch
               (bind (safe_resolve root relative True True) (\<lambda>p.
                bind (sys_lstat p) (\<lambda>metadata.
                  if \<not> is_regular metadata then ret (deleted, errors + 1)
                  else
                    bind (stage_for_permanent_deletion paths
                            \<lparr>st_area = area, st_root = root, st_relative_path = relative,
                             st_path = p, st_size_bytes = node_size metadata\<rparr>) (\<lambda>staged.
                    bind (unlink_staged_deletion paths staged) (\<lambda>_.
                      ret (deleted + 1, errors))))))
               (\<lambda>e. if is_os_error e \<or> e = StorageError then ret (deleted, errors + 1) else throw e)))"

definition cleanup_orphans ::
  "listing \<Rightarrow> nat \<Rightarrow> storage_paths \<Rightarrow> bool \<Rightarrow> orphan_cleanup_report svc" where
  "cleanup_orphans ls fuel paths dry_run =
     bind metadata_snapshot (\<lambda>metadata.
     bind (orphan_issues ls fuel paths (fm_relative_path ` set metadata)) (\<lambda>orphans.
     bind (if dry_run then ret (0, 0) else fold_eff (delete_orphan paths) orphans (0, 0))
       (\<lambda>(deleted, errors).
         ret \<lparr>oc_discovered = orphans, oc_deleted_count = deleted, oc_errors = errors,
              oc_dry_run = dry_run\<rparr>)))"

end
