(* ===== verification/AreaInvariant.thy ===== *)
theory AreaInvariant
  imports FileLifecycle Reconciliation
begin

text \<open>
  The invariant that ties the two stores together: the bytes of a row lie only in an area its
  status allows, in the sense of the reconciliation service. It is kept by every action of
  the administration interface on files, hence holds in every reachable state.
\<close>

declare area_root.simps [simp del]

definition canonical :: "release_file \<Rightarrow> bool" where
  "canonical f \<longleftrightarrow> as_posix (rf_relative_storage_path f) = rf_relative_storage_path f"

definition area_sound :: "storage_paths \<Rightarrow> database \<Rightarrow> (path \<Rightarrow> bytes option) \<Rightarrow> bool" where
  "area_sound paths d F \<longleftrightarrow> (\<forall>f \<in> set (db_files d). canonical f
     \<and> (\<forall>p a. safe_relative (rf_relative_storage_path f) p \<longrightarrow> F (area_root paths a @ p) \<noteq> None
          \<longrightarrow> area_allowed (rf_status f) a))"

lemma area_soundD:
  "area_sound paths d F \<Longrightarrow> f \<in> set (db_files d) \<Longrightarrow> canonical f"
  "area_sound paths d F \<Longrightarrow> f \<in> set (db_files d) \<Longrightarrow> safe_relative (rf_relative_storage_path f) p \<Longrightarrow>
   F (area_root paths a @ p) \<noteq> None \<Longrightarrow> area_allowed (rf_status f) a"
  by (auto simp: area_sound_def)

lemma areas_apart:
  assumes ok: "store_ok paths s" and eq: "area_root paths a @ p = area_root paths b @ q"
  shows "a = b \<and> p = q"
proof (cases "a = b")
  case True
  then show ?thesis using eq by simp
next
  case False
  then have "a = other_area b" by (cases a; cases b) auto
  then show ?thesis using areas_differ [OF ok] eq by blast
qed

lemma safe_relative_inj: "safe_relative r p \<Longrightarrow> safe_relative r' p \<Longrightarrow> r = r'"
  using safe_relativeD(4) by metis

text \<open>Changing one row and at most the entries of its own path keeps the invariant.\<close>

lemma area_sound_change:
  assumes ok: "store_ok paths s" and cons: "db_constraints d" and sound: "area_sound paths d F"
    and f: "row_get rf_id i (db_files d) = Some f"
    and d': "db_files d' = row_update rf_id i (\<lambda>_. g) (db_files d)"
    and path: "rf_relative_storage_path g = rf_relative_storage_path f"
    and rel: "safe_relative (rf_relative_storage_path f) p"
    and frame: "\<And>q. (\<And>a. q \<noteq> area_root paths a @ p) \<Longrightarrow> G q = F q"
    and mine: "\<And>a. G (area_root paths a @ p) \<noteq> None \<Longrightarrow> area_allowed (rf_status g) a"
  shows "area_sound paths d' G"
  unfolding area_sound_def
proof (intro ballI conjI allI impI)
  fix h assume "h \<in> set (db_files d')"
  then have h: "h = g \<or> h \<in> set (db_files d) \<and> h \<noteq> f"
    using set_row_update_distinct [OF db_constraints_files(1) [OF cons] f] d' by auto
  have fin: "f \<in> set (db_files d)" using row_get_Some [OF f] by simp
  show "canonical h"
    using h area_soundD(1) [OF sound] fin path by (auto simp: canonical_def)
  fix q a
  assume q: "safe_relative (rf_relative_storage_path h) q" and ne: "G (area_root paths a @ q) \<noteq> None"
  from h show "area_allowed (rf_status h) a"
  proof
    assume "h = g"
    moreover have "q = p" using q rel path \<open>h = g\<close> by (simp add: safe_relative_def)
    ultimately show ?thesis using mine ne by simp
  next
    assume other: "h \<in> set (db_files d) \<and> h \<noteq> f"
    have "rf_relative_storage_path h \<noteq> rf_relative_storage_path f"
      using unique_byD [OF db_constraints_files(2) [OF cons]] other fin by blast
    then have "q \<noteq> p" using q rel safe_relative_inj by blast
    then have "G (area_root paths a @ q) = F (area_root paths a @ q)"
      using areas_apart [OF ok] by (intro frame) blast
    then show ?thesis using area_soundD(2) [OF sound] other q ne by simp
  qed
qed

lemma area_sound_drop:
  assumes sound: "area_sound paths d F" and "set (db_files d') \<subseteq> set (db_files d)"
    and "\<And>q. G q \<noteq> None \<Longrightarrow> F q \<noteq> None"
  shows "area_sound paths d' G"
  using assms unfolding area_sound_def by blast

section \<open>One transition\<close>

lemma movedD:
  assumes "moved f a b g"
  shows "g a = None" "g b = f a" "q \<noteq> a \<Longrightarrow> q \<noteq> b \<Longrightarrow> g q = f q"
  using assms moved_neq [OF assms] by (auto simp: moved_def)

lemma file_changed_files:
  assumes "file_changed u audit action i P d d'"
  obtains f r w g where "graph_at d i f r w" "P f r w g"
    "db_files d' = row_update rf_id i (\<lambda>_. g) (db_files d)"
  using assms auditedD(8) unfolding file_changed_def by fastforce

lemma area_sound_publish:
  assumes ok: "store_ok paths s" and q: "quiet s" and cons: "db_constraints (w_db s)"
    and sound: "area_sound paths (w_db s) (files s)"
    and eff: "publish_effect u sha paths i audit s F d'"
  shows "area_sound paths d' F"
proof -
  from eff obtain f r w p b where g0: "graph_at (w_db s) i f r w"
    and p: "safe_relative (as_posix (rf_relative_storage_path f)) p"
    and mv: "moved (files s) (sp_quarantine paths @ p) (sp_software paths @ p) F"
    and ch: "file_changed u audit FILE_PUBLISHED i
         (published_row u (as_posix (rf_relative_storage_path f))) (w_db s) d'"
    unfolding publish_effect_def quiet_drifted [OF q] by blast
  obtain f1 r1 w1 g where g1: "graph_at (w_db s) i f1 r1 w1"
    and pr: "published_row u (as_posix (rf_relative_storage_path f)) f1 r1 w1 g"
    and files': "db_files d' = row_update rf_id i (\<lambda>_. g) (db_files (w_db s))"
    using ch by (rule file_changed_files)
  have f: "row_get rf_id i (db_files (w_db s)) = Some f" "f1 = f"
    using g0 g1 by (auto simp: graph_at_def)
  have canon: "as_posix (rf_relative_storage_path f) = rf_relative_storage_path f"
    using area_soundD(1) [OF sound] row_get_Some [OF f(1)] by (simp add: canonical_def)
  show ?thesis
  proof (rule area_sound_change [OF ok cons sound f(1) files'])
    show "rf_relative_storage_path g = rf_relative_storage_path f"
      using pr f(2) by (simp add: published_row_def same_file_content_def)
    show "safe_relative (rf_relative_storage_path f) p" using p canon by simp
    show "F q = files s q" if "\<And>a. q \<noteq> area_root paths a @ p" for q
      by (rule movedD(3) [OF mv [unfolded area_root_simps] that that])
    show "area_allowed (rf_status g) a" if "F (area_root paths a @ p) \<noteq> None" for a
    proof (cases a)
      case AreaQuarantine
      then have "F (area_root paths a @ p) = None"
        using movedD(1) [OF mv] by (simp add: area_root_simps)
      with that show ?thesis by simp
    qed (use pr in \<open>simp add: published_row_def area_allowed_def\<close>)
  qed
qed

lemma area_sound_restore:
  assumes ok: "store_ok paths s" and q: "quiet s" and cons: "db_constraints (w_db s)"
    and sound: "area_sound paths (w_db s) (files s)"
    and eff: "restore_effect u paths i audit s F d'"
  shows "area_sound paths d' F"
proof -
  from eff obtain f r w p b a where g0: "graph_at (w_db s) i f r w"
    and p: "safe_relative (as_posix (rf_relative_storage_path f)) p"
    and other: "files s (area_root paths (other_area a) @ p) = None"
    and mv: "if a = AreaSoftware
        then moved (files s) (sp_software paths @ p) (sp_quarantine paths @ p) F else F = files s"
    and ch: "file_changed u audit FILE_RESTORED i (moved_to FileReady) (w_db s) d'"
    unfolding restore_effect_def quiet_drifted [OF q] by blast
  obtain f1 r1 w1 g where g1: "graph_at (w_db s) i f1 r1 w1" and pr: "moved_to FileReady f1 r1 w1 g"
    and files': "db_files d' = row_update rf_id i (\<lambda>_. g) (db_files (w_db s))"
    using ch by (rule file_changed_files)
  have f: "row_get rf_id i (db_files (w_db s)) = Some f" "f1 = f"
    using g0 g1 by (auto simp: graph_at_def)
  have canon: "as_posix (rf_relative_storage_path f) = rf_relative_storage_path f"
    using area_soundD(1) [OF sound] row_get_Some [OF f(1)] by (simp add: canonical_def)
  have soft: "F (area_root paths AreaSoftware @ p) = None"
  proof (cases a)
    case AreaQuarantine
    then show ?thesis using other mv by simp
  next
    case AreaSoftware
    then have mv': "moved (files s) (sp_software paths @ p) (sp_quarantine paths @ p) F" using mv by simp
    show ?thesis using movedD(1) [OF mv'] by (simp add: area_root_simps)
  qed
  show ?thesis
  proof (rule area_sound_change [OF ok cons sound f(1) files'])
    show "rf_relative_storage_path g = rf_relative_storage_path f"
      using pr apply_file_transition_same f(2) by (fastforce simp: same_file_content_def)
    show "safe_relative (rf_relative_storage_path f) p" using p canon by simp
    show "F q = files s q" if "\<And>a. q \<noteq> area_root paths a @ p" for q
    proof (cases "a = AreaSoftware")
      case True
      then have mv': "moved (files s) (area_root paths AreaSoftware @ p) (area_root paths AreaQuarantine @ p) F"
        using mv unfolding area_root_simps by simp
      show ?thesis by (rule movedD(3) [OF mv' that that])
    qed (use mv in simp)
    show "area_allowed (rf_status g) b" if "F (area_root paths b @ p) \<noteq> None" for b
    proof -
      have "rf_status g = FileReady" using pr file_lifecycle.step_status by blast
      then show ?thesis using that soft by (cases b) (simp_all add: area_allowed_def)
    qed
  qed
qed

text \<open>A transition without a move is safe when the target status allows the area.\<close>

lemma area_sound_transition:
  assumes ok: "store_ok paths s" and q: "quiet s" and cons: "db_constraints (w_db s)"
    and sound: "area_sound paths (w_db s) (files s)"
    and eff: "transition_effect u paths i audit action target A s d'"
    and allowed: "\<And>a. A a \<Longrightarrow> area_allowed target a"
  shows "area_sound paths d' (files s)"
proof -
  from eff obtain f r w p a where g0: "graph_at (w_db s) i f r w"
    and p: "safe_relative (as_posix (rf_relative_storage_path f)) p"
    and other: "files s (area_root paths (other_area a) @ p) = None" and a: "A a"
    and ch: "file_changed u audit action i (moved_to target) (w_db s) d'"
    unfolding transition_effect_def quiet_drifted [OF q] by blast
  obtain f1 r1 w1 g where g1: "graph_at (w_db s) i f1 r1 w1" and pr: "moved_to target f1 r1 w1 g"
    and files': "db_files d' = row_update rf_id i (\<lambda>_. g) (db_files (w_db s))"
    using ch by (rule file_changed_files)
  have f: "row_get rf_id i (db_files (w_db s)) = Some f" "f1 = f"
    using g0 g1 by (auto simp: graph_at_def)
  have canon: "as_posix (rf_relative_storage_path f) = rf_relative_storage_path f"
    using area_soundD(1) [OF sound] row_get_Some [OF f(1)] by (simp add: canonical_def)
  have st: "rf_status g = target" using pr file_lifecycle.step_status by blast
  show ?thesis
  proof (rule area_sound_change [OF ok cons sound f(1) files'])
    show "rf_relative_storage_path g = rf_relative_storage_path f"
      using pr apply_file_transition_same f(2) by (fastforce simp: same_file_content_def)
    show "safe_relative (rf_relative_storage_path f) p" using p canon by simp
    show "files s q = files s q" for q ..
    show "area_allowed (rf_status g) b" if "files s (area_root paths b @ p) \<noteq> None" for b
    proof -
      have "b \<noteq> other_area a" using that other by auto
      then have "b = a" by (cases a; cases b) auto
      then show ?thesis using allowed [OF a] st by simp
    qed
  qed
qed

lemma file_dropped_files:
  assumes "file_dropped u audit action i P rel d d'"
  shows "set (db_files d') \<subseteq> set (db_files d)"
  using assms auditedD(8) unfolding file_dropped_def drop_file_def
  by (fastforce simp: row_delete_def)

section \<open>The administration interface as a state machine\<close>

datatype file_action =
    Verify nat | Review nat file_status | Publish nat | Disable nat | Archive nat
  | RestoreReady nat | DeleteMetadata nat | PermanentlyDelete nat

text \<open>What one request of \<open>app/routers/admin/files.py\<close> runs; the answer is not used.\<close>

definition run_action ::
  "unicode \<Rightarrow> (bytes \<Rightarrow> str) \<Rightarrow> storage_paths \<Rightarrow> audit_context option \<Rightarrow> file_action \<Rightarrow> unit svc" where
  "run_action u sha paths audit act =
     (case act of
        Verify i \<Rightarrow> bind (verify_integrity u sha paths i audit) (\<lambda>_. ret ())
      | Review i target \<Rightarrow> bind (review_status u sha paths i target audit) (\<lambda>_. ret ())
      | Publish i \<Rightarrow> bind (publish u sha paths i audit) (\<lambda>_. ret ())
      | Disable i \<Rightarrow> bind (disable u sha paths i audit) (\<lambda>_. ret ())
      | Archive i \<Rightarrow> bind (archive u sha paths i audit) (\<lambda>_. ret ())
      | RestoreReady i \<Rightarrow> bind (restore_ready u sha paths i audit) (\<lambda>_. ret ())
      | DeleteMetadata i \<Rightarrow> bind (delete_metadata u paths i audit) (\<lambda>_. ret ())
      | PermanentlyDelete i \<Rightarrow> bind (permanently_delete u sha paths i audit) (\<lambda>_. ret ()))"

text \<open>A request may fail anywhere in the database; the operating system works.\<close>

definition sound_world :: "storage_paths \<Rightarrow> world \<Rightarrow> bool" where
  "sound_world paths s \<longleftrightarrow> store_ok paths s \<and> no_os_faults s \<and> quiet s \<and> db_constraints (w_db s)
     \<and> area_sound paths (w_db s) (files s)"


section \<open>What every operation keeps\<close>

definition steady :: "storage_paths \<Rightarrow> (nat \<Rightarrow> bool) \<Rightarrow> (nat \<Rightarrow> database \<Rightarrow> database) \<Rightarrow> world \<Rightarrow> bool" where
  "steady paths faults env t \<longleftrightarrow> store_ok paths t \<and> os_fault t = faults \<and> w_env t = env"

lemma steady_store_step: "steady paths faults env s \<Longrightarrow> store_step s t \<Longrightarrow> steady paths faults env t"
  using store_ok_step store_step_db(2)
  by (auto simp: steady_def store_step_def fs_frame_eqs)

lemma steady_calm: "steady paths faults env s \<Longrightarrow> calm s t \<Longrightarrow> steady paths faults env t"
  by (simp add: steady_def calmD) (simp add: calm_def same_store_def)

lemma keeps_wp:
  assumes "\<And>s. steady paths faults env s \<Longrightarrow> wp m Q E s"
    and "\<And>s x t. steady paths faults env s \<Longrightarrow> Q x t \<Longrightarrow> steady paths faults env t"
    and "\<And>s e t. steady paths faults env s \<Longrightarrow> E e t \<Longrightarrow> steady paths faults env t"
  shows "keeps (steady paths faults env) m"
  using assms by (intro keepsI) (blast intro: wp_mono)

lemma keeps_from:
  assumes spec: "\<And>s. steady paths faults env s \<Longrightarrow>
      wp m (\<lambda>_ t. calm s t \<or> store_step s t) (\<lambda>_ t. calm s t \<or> store_step s t) s"
  shows "keeps (steady paths faults env) m"
  by (rule keepsI, rule wp_mono [OF spec]) (auto intro: steady_calm steady_store_step)

named_theorems keeps_intros "operations that keep the storage sound"

lemma steady_ok: "steady paths faults env s \<Longrightarrow> store_ok paths s"
  by (simp add: steady_def)

lemma keeps_db:
  assumes "\<And>s. wp m (\<lambda>_ t. db_only s t) (\<lambda>_ t. db_only s t) s"
  shows "keeps (steady paths faults env) m"
  by (rule keeps_from, rule wp_mono [OF assms]) (auto intro: calm_db_only)

lemma keeps_get_file [keeps_intros]: "keeps (steady paths faults env) (get_file i)"
  by (rule keeps_db, rule wp_mono [OF wp_get_file]) auto

lemma keeps_transaction:
  assumes "\<And>s. wp m (\<lambda>_ t. db_only s t) (\<lambda>_ t. db_only s t) s"
  shows "keeps (steady paths faults env) (transaction m)"
proof (rule keeps_db)
  fix s
  have "wp (transaction m)
     (\<lambda>x t. db_only s t \<and> (\<exists>d. drifted s (w_db s) d \<and> (\<lambda>_ _ _. True) x d (w_db t)) \<and> db_constraints (w_db t))
     (\<lambda>e t. db_only s t \<and> drifted s (w_db s) (w_db t) \<and> (\<lambda>_ _. True) e (w_db t)) s"
    by (rule wp_transaction) (use assms in simp_all)
  then show "wp (transaction m) (\<lambda>_ t. db_only s t) (\<lambda>_ t. db_only s t) s"
    by (rule wp_mono) auto
qed

lemma wp_verify_body:
  "wp (verify_body u i st audit)
     (\<lambda>_ t. db_only s t \<and> audited u audit FILE_VERIFIED (w_db s) (w_db t))
     (\<lambda>e t. True \<and> db_only s t) s"
  unfolding verify_body_def
proof (rule wp_bind_spec [OF wp_require_graph], goal_cases)
  case (1 x t)
  obtain f r w where x: "x = (f, r, w)" by (cases x)
  have t: "db_only s t" "w_db t = w_db s" using 1 x by auto
  show ?case
    unfolding x prod.case
    by (rule wp_mono [OF wp_append_context_audit_event]) (use t db_only_trans in auto)
qed simp

lemma keeps_bodies [keeps_intros]:
  "keeps (steady paths faults env) (transaction (verify_body u i st audit))"
  "keeps (steady paths faults env) (transaction (transition_body u i target act extra audit))"
  "keeps (steady paths faults env) (transaction (publish_body u i st audit))"
  "keeps (steady paths faults env) (transaction (delete_metadata_body u i ost audit))"
  "keeps (steady paths faults env) (transaction (permanently_delete_body u i st audit))"
  by (intro keeps_transaction; rule wp_mono [OF wp_verify_body] wp_mono [OF wp_transition_body]
      wp_mono [OF wp_publish_body] wp_mono [OF wp_delete_metadata_body]
      wp_mono [OF wp_permanently_delete_body]; simp)+

lemma keeps_verified [keeps_intros]:
  "keeps (steady paths faults env) (verified_physical_file sha paths f h)"
  by (rule keeps_from, rule wp_mono [OF wp_verified_physical_file]) (auto intro: calm_looked steady_ok)

lemma keeps_inspect [keeps_intros]:
  "keeps (steady paths faults env) (inspect_stored_files paths raw)"
  by (rule keeps_from, rule wp_mono [OF wp_inspect_stored_files]) (auto intro: calm_looked steady_ok)

lemma keeps_locate [keeps_intros]:
  "keeps (steady paths faults env) (locate_stored_file paths raw)"
  by (rule keeps_from, rule wp_mono [OF wp_locate_stored_file]) (auto intro: calm_looked steady_ok)

lemma keeps_move:
  assumes "\<And>s. steady paths faults env s \<Longrightarrow> root_ok (os_fs s) r \<and> root_ok (os_fs s) r'"
  shows "keeps (steady paths faults env) (atomic_move r raw r' raw')"
  by (rule keeps_from, rule wp_mono [OF wp_move]) (use assms in \<open>auto simp: transfer_def\<close>)

lemma keeps_moves [keeps_intros]:
  "keeps (steady paths faults env) (atomic_move (area_root paths a) raw (area_root paths b) raw')"
  "keeps (steady paths faults env) (atomic_move (area_root paths a) raw (sp_temporary paths) raw')"
  "keeps (steady paths faults env) (atomic_move (sp_temporary paths) raw (area_root paths a) raw')"
  by (rule keeps_move, use store_okD steady_ok in blast)+

lemma keeps_fresh [keeps_intros]: "keeps (steady paths faults env) fresh_uuid_hex"
  by (rule keeps_from) (simp add: wp_simps store_step_def)

lemma keeps_unlink [keeps_intros]:
  "keeps (steady paths faults env) (unlink_staged_deletion paths sd)"
  by (rule keeps_from, rule wp_mono [OF wp_unlink_staged_deletion]) (auto intro: steady_ok)

lemma keeps_reraise [keeps_intros]: "keeps (steady paths faults env) (reraise_application e)"
  by (simp add: reraise_application_def)

lemma keeps_restore_move [keeps_intros]:
  "keeps (steady paths faults env) (restore_move_after_failure paths a b raw)"
  unfolding restore_move_after_failure_def
  by (intro keeps_try_catch keeps_bind keeps_intros) auto

lemma store_step_uuid: "store_step (s\<lparr>os_uuid_next := n\<rparr>) t \<Longrightarrow> store_step s t"
  by (rule store_step_trans [of s "s\<lparr>os_uuid_next := n\<rparr>"]) (simp_all add: store_step_def)

lemma wp_stage_keeps:
  assumes st: "steady paths faults env s" and root: "st_root st = area_root paths a"
  shows "wp (stage_for_permanent_deletion paths st)
     (\<lambda>sd t. steady paths faults env t \<and> st_root (sd_original sd) = area_root paths a)
     (\<lambda>_. steady paths faults env) s"
proof (rule wp_mono [OF wp_stage_for_permanent_deletion [OF steady_ok [OF st] root]], goal_cases)
  case (1 sd t)
  then have "store_step s t" using staged_at_step store_step_uuid by blast
  then show ?case using 1 root steady_store_step [OF st] by simp
next
  case (2 e t)
  then show ?case using steady_store_step [OF st] by blast
qed

lemma keeps_bind_value:
  assumes "\<And>s. I s \<Longrightarrow> wp m (\<lambda>x t. I t \<and> V x) (\<lambda>_. I) s" and "\<And>x. V x \<Longrightarrow> keeps I (f x)"
  shows "keeps I (bind m f)"
proof (rule keepsI)
  fix s assume "I s"
  show "wp (bind m f) (\<lambda>_. I) (\<lambda>_. I) s"
  proof (rule wp_bind_spec [OF assms(1) [OF \<open>I s\<close>]])
    fix x t assume "I t \<and> V x"
    then show "wp (f x) (\<lambda>_. I) (\<lambda>_. I) t" using keepsD [OF assms(2)] by blast
  qed
qed

lemma keeps_restore_staged:
  assumes "st_root (sd_original sd) = area_root paths a"
  shows "keeps (steady paths faults env) (restore_staged_deletion paths sd)"
  unfolding restore_staged_deletion_def assms
  by (intro keeps_bind keeps_intros)

lemma keeps_if: "keeps I m \<Longrightarrow> keeps I n \<Longrightarrow> keeps I (if b then m else n)"
  by simp

lemma keeps_prod: "(\<And>x y. keeps I (f x y)) \<Longrightarrow> keeps I (case z of (x, y) \<Rightarrow> f x y)"
  by (cases z) simp

lemmas keeps_rules = keeps_bind keeps_try_catch keeps_if keeps_prod keeps_intros keeps_basic

lemma keeps_simple_actions:
  "keeps (steady paths faults env) (verify_integrity u sha paths i audit)"
  "keeps (steady paths faults env) (review_status u sha paths i target audit)"
  "keeps (steady paths faults env) (publish u sha paths i audit)"
  "keeps (steady paths faults env) (disable u sha paths i audit)"
  "keeps (steady paths faults env) (archive u sha paths i audit)"
  "keeps (steady paths faults env) (restore_ready u sha paths i audit)"
  "keeps (steady paths faults env) (delete_metadata u paths i audit)"
  unfolding verify_integrity_def review_status_def publish_def disable_def archive_def
    transition_with_storage_check_def restore_ready_def delete_metadata_def Let_def area_root_simps
  by (intro keeps_rules)+

lemma wp_verified_keeps:
  assumes st: "steady paths faults env s"
  shows "wp (verified_physical_file sha paths f h)
     (\<lambda>x t. steady paths faults env t \<and> st_root x = area_root paths (st_area x))
     (\<lambda>_. steady paths faults env) s"
proof (rule wp_mono [OF wp_verified_physical_file [OF steady_ok [OF st]]], goal_cases)
  case (1 y t)
  then have "st_root y = area_root paths (st_area y)" by (auto elim: locatedD)
  then show ?case using 1 steady_calm [OF st calm_looked] by blast
next
  case (2 e t)
  then show ?case using steady_calm [OF st calm_looked] by blast
qed

lemma keeps_permanently_delete:
  "keeps (steady paths faults env) (permanently_delete u sha paths i audit)"
  unfolding permanently_delete_def
  apply (rule keeps_bind, rule keeps_get_file, rule keeps_prod, rule keeps_prod)
  apply (rule keeps_bind, rule keeps_basic)
  apply (rule keeps_bind_value [where V = "\<lambda>x. st_root x = area_root paths (st_area x)"])
   apply (erule wp_verified_keeps)
  apply (rule keeps_bind_value, erule wp_stage_keeps, assumption)
  apply (intro keeps_bind keeps_try_catch keeps_if keeps_intros keeps_basic keeps_restore_staged)
  apply assumption
  done

lemma keeps_run_action: "keeps (steady paths faults env) (run_action u sha paths audit act)"
  unfolding run_action_def
  by (cases act) (simp_all add: keeps_bind keeps_simple_actions keeps_permanently_delete)

section \<open>Every action keeps the invariant\<close>

definition content_sound :: "storage_paths \<Rightarrow> world \<Rightarrow> bool" where
  "content_sound paths t \<longleftrightarrow> db_constraints (w_db t) \<and> area_sound paths (w_db t) (files t)"

lemma sound_world_iff:
  "sound_world paths s \<longleftrightarrow> steady paths (os_fault s) (w_env s) s \<and> no_os_faults s \<and> quiet s
     \<and> content_sound paths s"
  by (auto simp: sound_world_def steady_def content_sound_def)

lemma content_same:
  "content_sound paths s \<Longrightarrow> quiet s \<Longrightarrow> files t = files s \<Longrightarrow> drifted s (w_db s) (w_db t) \<Longrightarrow>
   content_sound paths t"
  by (simp add: content_sound_def quiet_drifted)

lemma content_publish:
  assumes "store_ok paths s" "quiet s" "content_sound paths s" "publish_done u sha paths i audit s t"
  shows "content_sound paths t"
proof -
  have eff: "publish_effect u sha paths i audit s (files t) (w_db t)"
    using assms(4) quiet_drifted [OF assms(2)] by (auto simp: publish_done_def)
  then have "db_constraints (w_db t)" by (auto simp: publish_effect_def)
  then show ?thesis
    using area_sound_publish [OF assms(1,2) _ _ eff] assms(3) by (simp add: content_sound_def)
qed

lemma content_restore:
  assumes "store_ok paths s" "quiet s" "content_sound paths s" "restore_done u paths i audit s t"
  shows "content_sound paths t"
proof -
  have eff: "restore_effect u paths i audit s (files t) (w_db t)"
    using assms(4) quiet_drifted [OF assms(2)] by (auto simp: restore_done_def)
  then have "db_constraints (w_db t)" by (auto simp: restore_effect_def)
  then show ?thesis
    using area_sound_restore [OF assms(1,2) _ _ eff] assms(3) by (simp add: content_sound_def)
qed

lemma content_transition:
  assumes "store_ok paths s" "quiet s" "content_sound paths s"
    "transition_done u paths i audit action target A s t" "\<And>a. A a \<Longrightarrow> area_allowed target a"
  shows "content_sound paths t"
proof -
  obtain d' where d': "transition_effect u paths i audit action target A s d'" "w_db t = d'"
    and F: "files t = files s"
    using assms(2,4) quiet_drifted by (auto simp: transition_done_def)
  have "area_sound paths d' (files s)"
    using area_sound_transition [OF assms(1,2) _ _ d'(1) assms(5)] assms(3)
    by (simp add: content_sound_def)
  moreover have "db_constraints d'" using d'(1) by (auto simp: transition_effect_def)
  ultimately show ?thesis using d'(2) F by (simp add: content_sound_def)
qed

lemma content_delete:
  assumes "quiet s" "content_sound paths s" "delete_effect u paths i audit s t"
  shows "content_sound paths t"
proof -
  from assms(3) obtain p a rel P where F: "files t = (files s)(area_root paths a @ p := None)"
    and dr: "file_dropped u audit FILE_PERMANENTLY_DELETED i P rel (w_db s) (w_db t)"
    and c: "db_constraints (w_db t)"
    unfolding delete_effect_def quiet_drifted [OF assms(1)] by blast
  have "files s q \<noteq> None" if "files t q \<noteq> None" for q
    using that F by (auto split: if_splits)
  then have "area_sound paths (w_db t) (files t)"
    using area_sound_drop [OF conjunct2 [OF assms(2) [unfolded content_sound_def]]
        file_dropped_files [OF dr]] by blast
  then show ?thesis using c by (simp add: content_sound_def)
qed

lemma content_drop:
  assumes "quiet s" "content_sound paths s" "drop_effect u i audit s (w_db t)" "files t = files s"
  shows "content_sound paths t"
proof -
  from assms(3) obtain rel where
    dr: "file_dropped u audit FILE_METADATA_DELETED i (\<lambda>_. True) rel (w_db s) (w_db t)"
    and c: "db_constraints (w_db t)"
    unfolding drop_effect_def quiet_drifted [OF assms(1)] by blast
  have "area_sound paths (w_db t) (files t)"
    using area_sound_drop [OF conjunct2 [OF assms(2) [unfolded content_sound_def]]
        file_dropped_files [OF dr]] assms(4) by simp
  then show ?thesis using c by (simp add: content_sound_def)
qed

text \<open>Verification writes at most an audit row, after the bytes were hashed.\<close>

definition verify_effect ::
  "unicode \<Rightarrow> (bytes \<Rightarrow> str) \<Rightarrow> storage_paths \<Rightarrow> nat \<Rightarrow> audit_context option \<Rightarrow> world \<Rightarrow> world \<Rightarrow>
   release_file \<Rightarrow> bool" where
  "verify_effect u sha paths i audit s t f \<longleftrightarrow> (\<exists>d0 d r w st b.
     drifted s (w_db s) d0 \<and> graph_at d0 i f r w
     \<and> located s paths (rf_relative_storage_path f) st \<and> files s (st_path st) = Some b
     \<and> sha b = rf_sha256 f \<and> int (length b) = rf_file_size_bytes f
     \<and> drifted s d0 d \<and> audited u audit FILE_VERIFIED d (w_db t) \<and> db_constraints (w_db t))"

lemma wp_verify_integrity:
  assumes ok: "store_ok paths s"
  shows "wp (verify_integrity u sha paths i audit)
     (\<lambda>f t. files t = files s \<and> verify_effect u sha paths i audit s t f)
     (\<lambda>e t. files t = files s \<and> drifted s (w_db s) (w_db t)) s"
  unfolding verify_integrity_def
proof (rule wp_bind_spec [OF wp_get_file], goal_cases)
  case (1 x s1)
  obtain f r w where x: "x = (f, r, w)" by (cases x)
  have s1: "db_only s s1" "drifted s (w_db s) (w_db s1)" "graph_at (w_db s1) i f r w"
    using 1 x by auto
  note c1 = calm_db_only [OF s1(1)]
  have ok1: "store_ok paths s1" using ok calmD(4) [OF c1] by simp
  show ?case
    unfolding x prod.case
  proof (rule wp_bind_spec [OF wp_verified_physical_file [OF ok1]], goal_cases)
    case (1 st s2)
    have s2: "w_db s2 = w_db s1" "files s2 = files s" "w_env s2 = w_env s"
      using 1 calmD(2,5) [OF c1] by (auto simp: looked_db looked_eqs)
    have dr: "drifted s2 = drifted s" using drifted_env [OF s2(3)] by (intro ext)
    have loc: "located s paths (rf_relative_storage_path f) st" using 1 calmD(6) [OF c1] by simp
    obtain b where b: "files s (st_path st) = Some b" "st_size_bytes st = int (length b)"
      by (rule locatedD [OF loc]) simp
    have sha: "sha b = rf_sha256 f" "int (length b) = rf_file_size_bytes f"
      using 1 b calmD(2) [OF c1] by auto
    have tx: "wp (transaction (verify_body u i st audit))
      (\<lambda>x v. db_only s2 v \<and> (\<exists>d. drifted s2 (w_db s2) d \<and>
         (\<lambda>_. audited u audit FILE_VERIFIED) x d (w_db v)) \<and> db_constraints (w_db v))
      (\<lambda>e v. db_only s2 v \<and> drifted s2 (w_db s2) (w_db v) \<and> (\<lambda>_ _. True) e (w_db v)) s2"
      by (rule wp_transaction) (use wp_verify_body in simp_all)
    show ?case
    proof (rule wp_bind_spec [OF tx], goal_cases)
      case (1 z v)
      then obtain d where v: "db_only s2 v" "drifted s (w_db s1) d"
        "audited u audit FILE_VERIFIED d (w_db v)" "db_constraints (w_db v)"
        using dr s2 by auto
      have "verify_effect u sha paths i audit s v f"
        unfolding verify_effect_def using s1 loc b(1) sha v by blast
      then show ?case using db_onlyD(2) [OF v(1)] s2(2) by (simp add: wp_basic)
    next
      case (2 e v)
      then show ?case using dr s2 s1(2) drifted_trans db_onlyD(2) [of s2 v] by auto
    qed
  next
    case (2 e s2)
    then show ?case using s1(2) calmD(2) [OF c1] by (simp add: looked_db looked_eqs)
  qed
next
  case (2 e t)
  then show ?case using db_onlyD(2) by blast
qed

lemma content_verify:
  assumes "quiet s" "content_sound paths s" "files t = files s" "verify_effect u sha paths i audit s t f"
  shows "content_sound paths t"
proof -
  have "db_files (w_db t) = db_files (w_db s)" "db_constraints (w_db t)"
    using assms(4) auditedD(8) unfolding verify_effect_def quiet_drifted [OF assms(1)] by blast+
  then show ?thesis using assms(2,3) by (simp add: content_sound_def area_sound_def)
qed

lemma wp_ignore_result: "wp m (\<lambda>_. Q) E s \<Longrightarrow> wp (bind m (\<lambda>_. ret ())) (\<lambda>_. Q) E s"
  unfolding wp_bind by (erule wp_mono) (simp_all add: wp_basic)

lemma run_action_content:
  assumes "sound_world paths s"
  shows "wp (run_action u sha paths audit act) (\<lambda>_. content_sound paths) (\<lambda>_. content_sound paths) s"
proof -
  have ok: "store_ok paths s" and nf: "no_os_faults s" and q: "quiet s" and c: "content_sound paths s"
    using assms by (auto simp: sound_world_def content_sound_def)
  note same = content_same [OF c q]
  note trans = content_transition [OF ok q c]
  have any: "area_allowed FileDisabled a" "area_allowed FileArchived a" for a
    by (cases a; simp add: area_allowed_def)+
  have rev: "target \<in> {FileReady, FileRejected, FileQuarantine} \<Longrightarrow> area_allowed target AreaQuarantine" for target
    by (auto simp: area_allowed_def)
  have review: "content_sound paths t"
    if "target \<in> {FileReady, FileRejected, FileQuarantine}"
      "transition_done u paths i audit FILE_REVIEWED target (\<lambda>a. a = AreaQuarantine) s t" for i target t
    using trans [OF that(2)] rev [OF that(1)] by simp
  show ?thesis
    unfolding run_action_def
  proof (cases act; simp only: file_action.case; rule wp_ignore_result)
    fix i
    show "wp (verify_integrity u sha paths i audit) (\<lambda>_. content_sound paths) (\<lambda>_. content_sound paths) s"
      by (rule wp_mono [OF wp_verify_integrity [OF ok]]) (use content_verify [OF q c] same in blast)+
    show "wp (review_status u sha paths i target audit) (\<lambda>_. content_sound paths) (\<lambda>_. content_sound paths) s" for target
      by (rule wp_mono [OF wp_review_status [OF ok]]) (use review same in \<open>blast | clarsimp\<close>)+
    show "wp (publish u sha paths i audit) (\<lambda>_. content_sound paths) (\<lambda>_. content_sound paths) s"
      by (rule wp_mono [OF wp_publish [OF ok]])
        (use content_publish [OF ok q c] same nf in \<open>blast | clarsimp\<close>)+
    show "wp (disable u sha paths i audit) (\<lambda>_. content_sound paths) (\<lambda>_. content_sound paths) s"
      unfolding disable_def
      by (rule wp_mono [OF wp_transition_with_storage_check [OF ok]])
        (use trans any same in \<open>blast | clarsimp\<close>)+
    show "wp (archive u sha paths i audit) (\<lambda>_. content_sound paths) (\<lambda>_. content_sound paths) s"
      unfolding archive_def
      by (rule wp_mono [OF wp_transition_with_storage_check [OF ok]])
        (use trans any same in \<open>blast | clarsimp\<close>)+
    show "wp (restore_ready u sha paths i audit) (\<lambda>_. content_sound paths) (\<lambda>_. content_sound paths) s"
      by (rule wp_mono [OF wp_restore_ready [OF ok]])
        (use content_restore [OF ok q c] same nf in \<open>blast | clarsimp\<close>)+
    show "wp (delete_metadata u paths i audit) (\<lambda>_. content_sound paths) (\<lambda>_. content_sound paths) s"
      by (rule wp_mono [OF wp_delete_metadata [OF ok]]) (use content_drop [OF q c] same in blast)+
    show "wp (permanently_delete u sha paths i audit) (\<lambda>_. content_sound paths) (\<lambda>_. content_sound paths) s"
      by (rule wp_mono [OF wp_permanently_delete [OF ok]])
        (use content_delete [OF q c] same nf in blast)+
  qed
qed

lemma run_action_sound:
  assumes s: "sound_world paths s" and run: "run_action u sha paths audit act s = (r, t)"
  shows "sound_world paths t"
proof -
  have "steady paths (os_fault s) (w_env s) s" using s by (simp add: sound_world_iff)
  then have t: "steady paths (os_fault s) (w_env s) t"
    using keeps_run [OF keeps_run_action] run by blast
  have "wp (run_action u sha paths audit act) (\<lambda>_. content_sound paths) (\<lambda>_. content_sound paths) s"
    using s by (rule run_action_content)
  then have "content_sound paths t" using run by (cases r) (auto simp: wp_iff_run)
  moreover have "no_os_faults t" "quiet t"
    using s t by (auto simp: sound_world_def steady_def no_os_faults_def quiet_def)
  moreover have "steady paths (os_fault t) (w_env t) t" using t by (simp add: steady_def)
  ultimately show ?thesis by (simp add: sound_world_iff)
qed

text \<open>The states that any sequence of requests, by any administrators, can reach.\<close>

inductive reachable ::
  "unicode \<Rightarrow> (bytes \<Rightarrow> str) \<Rightarrow> storage_paths \<Rightarrow> world \<Rightarrow> world \<Rightarrow> bool"
  for u sha paths s where
  start: "reachable u sha paths s s"
| request: "reachable u sha paths s t \<Longrightarrow> run_action u sha paths audit act t = (r, t') \<Longrightarrow>
    reachable u sha paths s t'"

lemma reachable_sound: "reachable u sha paths s t \<Longrightarrow> sound_world paths s \<Longrightarrow> sound_world paths t"
  by (induction rule: reachable.induct) (auto intro: run_action_sound)

end
