(* ===== verification/Demo.thy ===== *)
theory Demo
  imports AreaInvariant
begin

text \<open>
  A small concrete installation the witnesses run on: four directories, one file in
  quarantine whose row is ready, its published release and software, one administrator.
\<close>

definition demo_paths :: storage_paths where
  "demo_paths = \<lparr>sp_root = [[115]], sp_software = [[115], [119]], sp_icons = [[115], [105]],
     sp_imports = [[115], [109]], sp_temporary = [[115], [116]], sp_quarantine = [[115], [113]],
     sp_backups = [[115], [98]]\<rparr>"

definition demo_bytes :: bytes where
  "demo_bytes = [0x50, 0x4B, 0x03, 0x04]"

definition demo_sha :: "bytes \<Rightarrow> str" where
  "demo_sha b = replicate 64 (48 + length b mod 10)"

definition demo_fs :: fs where
  "demo_fs = [[] \<mapsto> Dir 493, [[115]] \<mapsto> Dir 488, [[115], [119]] \<mapsto> Dir 488,
     [[115], [116]] \<mapsto> Dir 488, [[115], [113]] \<mapsto> Dir 488,
     [[115], [113], [102]] \<mapsto> File demo_bytes 416 0]"

definition demo_user :: user where
  "demo_user = \<lparr>user_id = 1, user_username = [97], user_password_hash = [112],
     user_is_active = True, user_is_superuser = True, user_failed_login_attempts = 0,
     user_locked_until = None, user_password_changed_at = None, user_last_login_at = None\<rparr>"

definition demo_software :: software where
  "demo_software = \<lparr>sw_id = 1, sw_name = [65], sw_slug = [97], sw_short_description = [97],
     sw_full_description = None, sw_developer_name = None, sw_official_website_url = None,
     sw_source_url = None, sw_license_name = None, sw_category_id = None, sw_supported_os = None,
     sw_system_requirements = None, sw_status = SoftwarePublished, sw_visibility = VisPublic,
     sw_is_featured = False, sw_published_at = Some 0, sw_archived_at = None\<rparr>"

definition demo_release :: release where
  "demo_release = \<lparr>rel_id = 1, rel_software_id = 1, rel_version = [49], rel_channel = ChannelStable,
     rel_release_date = None, rel_changelog = None, rel_is_current = False,
     rel_status = ReleasePublished, rel_published_at = Some 0\<rparr>"

definition demo_file :: release_file where
  "demo_file = \<lparr>rf_id = 1, rf_public_uuid = 7, rf_release_id = 1, rf_original_filename = [102],
     rf_display_filename = [102], rf_storage_filename = [102], rf_relative_storage_path = [102],
     rf_file_extension = [46, 122, 105, 112],
     rf_detected_mime_type = [97, 112, 112, 108, 105, 99, 97, 116, 105, 111, 110, 47, 122, 105, 112],
     rf_file_size_bytes = 4, rf_sha256 = demo_sha demo_bytes, rf_architecture = ArchX64,
     rf_package_type = PkgArchive, rf_platform = [119], rf_edition = None, rf_download_count = 0,
     rf_status = FileReady, rf_visibility = VisPublic, rf_uploaded_at = 0, rf_published_at = None,
     rf_disabled_at = None, rf_source_url = None, rf_signature_status = SigUnknown,
     rf_scanner_status = ScanClean, rf_scanner_details = None, rf_admin_note = None\<rparr>"

definition demo_database :: database where
  "demo_database = empty_database\<lparr>db_users := [demo_user], db_softwares := [demo_software],
     db_releases := [demo_release], db_files := [demo_file]\<rparr>"

definition demo_world :: world where
  "demo_world = \<lparr>os_fs = demo_fs, os_device = (\<lambda>_. 1),
     os_disk = \<lparr>disk_total = 100, disk_used = 0, disk_free = 100\<rparr>, os_fault = (\<lambda>_. False),
     os_tick = 0, os_uuid = (\<lambda>n. replicate 32 (48 + n mod 10)), os_uuid_next = 0, os_now = 1000000,
     w_db = demo_database, w_db_fault = (\<lambda>_. False), w_db_tick = 0, w_env = (\<lambda>_ d. d)\<rparr>"

section \<open>The installation is sound\<close>

lemma demo_fs_entries:
  "demo_fs q = Some n \<Longrightarrow> (q, n) \<in> {([], Dir 493), ([[115]], Dir 488), ([[115], [119]], Dir 488),
     ([[115], [116]], Dir 488), ([[115], [113]], Dir 488),
     ([[115], [113], [102]], File demo_bytes 416 0)}"
  by (auto simp: demo_fs_def split: if_splits)

lemma demo_tree_ok: "tree_ok demo_fs"
  unfolding tree_ok_def
proof (intro allI impI)
  fix p c assume "demo_fs (p @ [c]) \<noteq> None"
  then obtain n where "demo_fs (p @ [c]) = Some n" by blast
  then have "p \<in> {[], [[115]], [[115], [113]]}"
    by (auto dest!: demo_fs_entries simp: append_eq_Cons_conv)
  then show "\<exists>m. demo_fs p = Some (Dir m)" by (auto simp: demo_fs_def)
qed

lemma demo_no_links: "\<not> is_symlink demo_fs p"
  by (auto simp: is_symlink_def split: option.splits node.splits dest!: demo_fs_entries)

lemma demo_roots:
  "root_ok demo_fs (sp_temporary demo_paths)" "root_ok demo_fs (sp_quarantine demo_paths)"
  "root_ok demo_fs (sp_software demo_paths)"
  using demo_no_links
  by (simp_all add: root_ok_def real_dirs_def no_links_under_def demo_paths_def demo_fs_def
    clean_part_def dot_def dotdot_def)

lemma demo_world_simps [simp]:
  "os_fs demo_world = demo_fs" "w_db demo_world = demo_database" "no_os_faults demo_world"
  "quiet demo_world"
  by (simp_all add: demo_world_def no_os_faults_def quiet_def)

lemma demo_store_ok: "store_ok demo_paths demo_world"
  using demo_roots demo_tree_ok by (simp add: store_ok_def separate_def demo_paths_def)

lemma demo_constraints: "db_constraints demo_database"
  by code_simp

lemma demo_row:
  "set (db_files demo_database) = {demo_file}" "rf_status demo_file = FileReady"
  "rf_relative_storage_path demo_file = [102]"
  by (simp_all add: demo_database_def demo_file_def)

lemma demo_area_sound: "area_sound demo_paths demo_database (files demo_world)"
proof -
  have canon: "as_posix [102] = [102]" by code_simp
  have "area_allowed FileReady a" if "files demo_world (area_root demo_paths a @ p) \<noteq> None"
    "safe_relative [102] p" for a p
  proof (cases a)
    case AreaSoftware
    have "safe_relative [102] [[102]]" unfolding safe_relative_def by code_simp
    then have "p = [[102]]" using that(2) by (simp add: safe_relative_def)
    then have "files demo_world (area_root demo_paths a @ p) = None"
      by (simp add: AreaSoftware area_root.simps demo_world_def demo_paths_def files_def file_at_def demo_fs_def)
    with that show ?thesis by simp
  qed (simp add: area_allowed_def)
  then show ?thesis
    using canon
    unfolding area_sound_def by (simp add: demo_row canonical_def)
qed

lemma demo_sound: "sound_world demo_paths demo_world"
  using demo_store_ok demo_constraints demo_area_sound by (simp add: sound_world_def)

end
