(* ===== verification/FileProperties.thy ===== *)
theory FileProperties
  imports Demo
begin

text \<open>
  The properties of the file service. The hypotheses on the start state: the storage layout
  is sound; where an operation must be able to compensate, the operating system works. The
  database may fail at any statement, and other processes may commit between the sessions of
  one operation unless the state is called quiet.
\<close>

lemma published_row_status:
  "published_row u path f r w g \<Longrightarrow> graph_at d i f r w \<Longrightarrow> rf_id g = i"
  using row_get_Some [of rf_id i "db_files d" f]
  by (auto simp: published_row_def same_file_content_def graph_at_def)

lemma row_get_replaced:
  assumes "row_get key i rows = Some f" and "key g = i"
  shows "row_get key i (row_update key i (\<lambda>_. g) rows) = Some g"
  using assms by (induction rows) (auto simp: row_get_def row_update_def split: if_splits)

lemma publish_effect_row:
  assumes q: "quiet s" and e: "publish_effect u sha paths i audit s F d'"
  obtains g p b where "row_get rf_id i (db_files d') = Some g" "rf_status g = FilePublished"
    "rf_published_at g \<noteq> None" "safe_relative (as_posix (rf_relative_storage_path g)) p"
    "F (sp_software paths @ p) = Some b" "F (sp_quarantine paths @ p) = None"
    "sha b = rf_sha256 g" "int (length b) = rf_file_size_bytes g" "db_constraints d'"
proof -
  from e obtain f r w p b where g0: "graph_at (w_db s) i f r w"
    and p: "safe_relative (as_posix (rf_relative_storage_path f)) p"
    and b: "files s (sp_quarantine paths @ p) = Some b"
    and h: "sha b = rf_sha256 f" "int (length b) = rf_file_size_bytes f"
    and mv: "moved (files s) (sp_quarantine paths @ p) (sp_software paths @ p) F"
    and ch: "file_changed u audit FILE_PUBLISHED i
         (published_row u (as_posix (rf_relative_storage_path f))) (w_db s) d'"
    and c: "db_constraints d'"
    unfolding publish_effect_def quiet_drifted [OF q] by blast
  obtain f1 r1 w1 g where g1: "graph_at (w_db s) i f1 r1 w1"
    and pr: "published_row u (as_posix (rf_relative_storage_path f)) f1 r1 w1 g"
    and files': "db_files d' = row_update rf_id i (\<lambda>_. g) (db_files (w_db s))"
    using ch by (rule file_changed_files)
  have ff: "f1 = f" and row: "row_get rf_id i (db_files (w_db s)) = Some f"
    using g0 g1 by (auto simp: graph_at_def)
  have "row_get rf_id i (db_files d') = Some g"
    using row_get_replaced [OF row] published_row_status [OF pr g1] files' by simp
  then show thesis
    using that [of g p b] pr ff p b h movedD(1,2) [OF mv] c
    by (simp add: published_row_def same_file_content_def)
qed

text \<open>
  C16: a file becomes published only from ready, under a published release of published or
  hidden software and never with an infected scan; the transition then stamps the
  publication and clears the disabled mark, and leaves the content columns alone.
\<close>

theorem publish_transition_guard:
  assumes "apply_file_transition f rel sw FilePublished now = Inr g"
    and "rf_status f \<noteq> FilePublished"
  shows "rf_status f = FileReady \<and> rel_status rel = ReleasePublished
    \<and> sw_status sw \<in> {SoftwarePublished, SoftwareHidden} \<and> rf_scanner_status f \<noteq> ScanInfected
    \<and> rf_status g = FilePublished \<and> rf_published_at g \<noteq> None \<and> rf_disabled_at g = None
    \<and> same_file_content f g"
  using apply_file_transition_published [OF assms] file_lifecycle.step_status [OF assms(1)]
    apply_file_transition_same [OF assms(1)] by simp

theorem publish_transition_guard_witness:
  "same_file_content demo_file
     (demo_file\<lparr>rf_status := FilePublished, rf_published_at := Some 5, rf_disabled_at := None\<rparr>)"
  using publish_transition_guard [of demo_file demo_release demo_software 5
      "demo_file\<lparr>rf_status := FilePublished, rf_published_at := Some 5, rf_disabled_at := None\<rparr>"]
  by (simp add: apply_file_transition_def ensure_transition_def demo_file_def demo_release_def
      demo_software_def software_accepts_releases_def)

text \<open>
  C2: publication is all or nothing. Whatever statement of the database fails and whatever
  other processes commit in between, when the operation ends either the bytes are where they
  were and the tables are only what others made of them, or the whole effect took place: a
  ready file with a matching signature, whose bytes in quarantine had the recorded size and
  digest, was moved to the software area and its row committed as published.
\<close>

theorem publish_all_or_nothing:
  assumes "store_ok paths s" and "no_os_faults s"
  shows "case publish u sha paths i audit s of
      (Inr (f, r, w), t) \<Rightarrow> publish_done u sha paths i audit s t \<and> graph_at (w_db t) i f r w
    | (Inl e, t) \<Rightarrow> files t = files s \<and> drifted s (w_db s) (w_db t)
        \<or> publish_done u sha paths i audit s t"
  using wp_publish [OF assms(1), of u sha i audit] assms(2)
  by (auto simp: wp_def split: prod.splits sum.splits)

theorem publish_all_or_nothing_witness:
  "case publish ascii_only demo_sha demo_paths 1 None demo_world of
      (Inr (f, r, w), t) \<Rightarrow> publish_done ascii_only demo_sha demo_paths 1 None demo_world t
        \<and> graph_at (w_db t) 1 f r w
    | (Inl e, t) \<Rightarrow> files t = files demo_world \<and> drifted demo_world (w_db demo_world) (w_db t)
        \<or> publish_done ascii_only demo_sha demo_paths 1 None demo_world t"
  by (rule publish_all_or_nothing) (simp_all add: demo_store_ok)

text \<open>
  C1: what a successful publication means, with any fault of the operating system or the
  database on the way: the row is published in the tables, its bytes are in the software
  area and not in quarantine, and they have the size and SHA-256 digest the row records.
\<close>

theorem published_bytes_match_row:
  assumes ok: "store_ok paths s" and q: "quiet s"
    and run: "publish u sha paths i audit s = (Inr (f, r, w), t)"
  shows "row_get rf_id i (db_files (w_db t)) = Some f \<and> rf_status f = FilePublished
    \<and> (\<exists>p b. safe_relative (as_posix (rf_relative_storage_path f)) p
         \<and> files t (sp_software paths @ p) = Some b \<and> files t (sp_quarantine paths @ p) = None
         \<and> sha b = rf_sha256 f \<and> int (length b) = rf_file_size_bytes f)"
proof -
  have "publish_done u sha paths i audit s t" "graph_at (w_db t) i f r w"
    using wp_run_Inr [OF wp_publish [OF ok] run] by auto
  then have e: "publish_effect u sha paths i audit s (files t) (w_db t)"
    and row: "row_get rf_id i (db_files (w_db t)) = Some f"
    using quiet_drifted [OF q] by (auto simp: publish_done_def graph_at_def)
  from publish_effect_row [OF q e] row show ?thesis by (metis option.inject)
qed

definition demo_published :: release_file where
  "demo_published = demo_file\<lparr>rf_status := FilePublished, rf_published_at := Some 1000000\<rparr>"

definition run_result :: "(exn + 'a) \<times> 's \<Rightarrow> 'a option" where
  "run_result z = (case fst z of Inl _ \<Rightarrow> None | Inr x \<Rightarrow> Some x)"

lemma run_resultD: "run_result z = Some x \<Longrightarrow> z = (Inr x, snd z)"
  by (cases z) (auto simp: run_result_def split: sum.splits)

lemma demo_publish_run:
  "run_result (publish ascii_only demo_sha demo_paths 1 None demo_world)
    = Some (demo_published, demo_release, demo_software)"
  by code_simp

theorem published_bytes_match_row_witness:
  "\<exists>t::world. rf_status demo_published = FilePublished
    \<and> (\<exists>p b. safe_relative (as_posix (rf_relative_storage_path demo_published)) p
         \<and> files t (sp_software demo_paths @ p) = Some b
         \<and> files t (sp_quarantine demo_paths @ p) = None
         \<and> demo_sha b = rf_sha256 demo_published \<and> int (length b) = rf_file_size_bytes demo_published)"
  using published_bytes_match_row [OF demo_store_ok demo_world_simps(4) run_resultD [OF demo_publish_run]]
  by blast

text \<open>
  Content that no longer matches its metadata is never published: with a working
  operating system the operation raises, and neither the bytes nor the row change.
\<close>

theorem corrupt_file_not_published:
  assumes ok: "store_ok paths s" and nf: "no_os_faults s" and q: "quiet s"
    and row: "row_get rf_id i (db_files (w_db s)) = Some f"
    and path: "safe_relative (as_posix (rf_relative_storage_path f)) p"
    and bytes: "files s (sp_quarantine paths @ p) = Some b"
    and bad: "sha b \<noteq> rf_sha256 f \<or> int (length b) \<noteq> rf_file_size_bytes f"
  shows "\<exists>e t. publish u sha paths i audit s = (Inl e, t) \<and> files t = files s \<and> w_db t = w_db s"
proof -
  have no: "\<not> publish_done u sha paths i audit s t" for t
  proof
    assume "publish_done u sha paths i audit s t"
    then obtain d' where "publish_effect u sha paths i audit s (files t) d'"
      by (auto simp: publish_done_def)
    then obtain g r w p' b' where g: "graph_at (w_db s) i g r w"
      and *: "safe_relative (as_posix (rf_relative_storage_path g)) p'"
      "files s (sp_quarantine paths @ p') = Some b'" "sha b' = rf_sha256 g"
      "int (length b') = rf_file_size_bytes g"
      unfolding publish_effect_def quiet_drifted [OF q] by blast
    have "g = f" using g row by (simp add: graph_at_def)
    moreover have "p' = p" using * path \<open>g = f\<close> by (simp add: safe_relative_def)
    ultimately show False using * bytes bad by simp
  qed
  obtain x t where run: "publish u sha paths i audit s = (x, t)" by fastforce
  then show ?thesis
    using wp_publish [OF ok, of u sha i audit] no nf quiet_drifted [OF q]
    by (cases x) (auto simp: wp_def)
qed

definition demo_corrupt :: world where
  "demo_corrupt = demo_world\<lparr>os_fs := demo_fs([[115], [113], [102]] \<mapsto> File [0] 416 0)\<rparr>"

lemma corrupt_fs_tree_ok: "tree_ok (os_fs demo_corrupt)"
  unfolding tree_ok_def
proof (intro allI impI)
  fix p c assume "os_fs demo_corrupt (p @ [c]) \<noteq> None"
  then have "demo_fs (p @ [c]) \<noteq> None" by (auto simp: demo_corrupt_def demo_fs_def split: if_splits)
  then obtain m where "demo_fs p = Some (Dir m)" using demo_tree_ok by (auto simp: tree_ok_def)
  then show "\<exists>m. os_fs demo_corrupt p = Some (Dir m)"
    by (auto simp: demo_corrupt_def demo_fs_def split: if_splits)
qed

lemma demo_corrupt_ok: "store_ok demo_paths demo_corrupt"
proof -
  have "tree_grows demo_fs (os_fs demo_corrupt)"
    by (auto simp: tree_grows_def is_symlink_def demo_corrupt_def demo_fs_def split: if_splits)
  then show ?thesis
    using demo_store_ok corrupt_fs_tree_ok root_ok_grows by (auto simp: store_ok_def)
qed

theorem corrupt_file_not_published_witness:
  "\<exists>e t. publish ascii_only demo_sha demo_paths 1 None demo_corrupt = (Inl e, t)
     \<and> files t = files demo_corrupt \<and> w_db t = w_db demo_corrupt"
proof (rule corrupt_file_not_published [OF demo_corrupt_ok])
  show "row_get rf_id 1 (db_files (w_db demo_corrupt)) = Some demo_file"
    by (simp add: demo_corrupt_def demo_database_def row_get_def demo_file_def)
  show "safe_relative (as_posix (rf_relative_storage_path demo_file)) [[102]]"
    unfolding safe_relative_def by code_simp
  show "files demo_corrupt (sp_quarantine demo_paths @ [[102]]) = Some [0]"
    by (simp add: demo_corrupt_def files_def file_at_def demo_paths_def)
qed (simp_all add: demo_corrupt_def demo_world_def no_os_faults_def quiet_def demo_file_def)

text \<open>
  C14: returning a file to quarantine is all or nothing in the same sense: its bytes end in
  quarantine with the row committed as ready, or nothing changed but by others.
\<close>

theorem restore_all_or_nothing:
  assumes "store_ok paths s" and "no_os_faults s"
  shows "case restore_ready u sha paths i audit s of
      (Inr (f, r, w), t) \<Rightarrow> restore_done u paths i audit s t \<and> graph_at (w_db t) i f r w
    | (Inl e, t) \<Rightarrow> files t = files s \<and> drifted s (w_db s) (w_db t) \<or> restore_done u paths i audit s t"
  using wp_restore_ready [OF assms(1), of u sha i audit] assms(2)
  by (auto simp: wp_def split: prod.splits sum.splits)

theorem restore_all_or_nothing_witness:
  "case restore_ready ascii_only demo_sha demo_paths 1 None demo_world of
      (Inr (f, r, w), t) \<Rightarrow> restore_done ascii_only demo_paths 1 None demo_world t
        \<and> graph_at (w_db t) 1 f r w
    | (Inl e, t) \<Rightarrow> files t = files demo_world \<and> drifted demo_world (w_db demo_world) (w_db t)
        \<or> restore_done ascii_only demo_paths 1 None demo_world t"
  by (rule restore_all_or_nothing) (simp_all add: demo_store_ok)








end
