(* ===== verification/Normalization.thy ===== *)
theory Normalization
  imports PyText
begin

text \<open>
  \<open>app/services/normalization.py\<close>: display names, slugs with Ukrainian transliteration,
  optional text and HTTP addresses. The checks of the standard library on bracketed and
  non-ASCII network locations are the parameter \<open>netloc_ok\<close>.
\<close>

definition dash :: nat where "dash = 45"

definition is_dash :: "nat \<Rightarrow> bool" where
  "is_dash c = (c = 45)"

definition normalize_name :: "str \<Rightarrow> nat \<Rightarrow> exn + str" where
  "normalize_name value max_length =
     (let normalized = collapse_spaces value in
      if normalized = [] then Inl ValueError
      else if length normalized > max_length then Inl ValueError
      else Inr normalized)"

section \<open>Slugs\<close>

definition transliteration :: "(nat \<times> str) list" where
  "transliteration = map (\<lambda>(c, s). (c, py s))
     [(1072, ''a''), (1073, ''b''), (1074, ''v''), (1075, ''h''), (1169, ''g''), (1076,
      ''d''), (1077, ''e''), (1108, ''ie''), (1078, ''zh''), (1079, ''z''), (1080, ''y''),
      (1110, ''i''), (1111, ''i''), (1081, ''i''), (1082, ''k''), (1083, ''l''), (1084,
      ''m''), (1085, ''n''), (1086, ''o''), (1087, ''p''), (1088, ''r''), (1089, ''s''),
      (1090, ''t''), (1091, ''u''), (1092, ''f''), (1093, ''kh''), (1094, ''ts''), (1095,
      ''ch''), (1096, ''sh''), (1097, ''shch''), (1100, ''''), (1102, ''iu''), (1103, ''ia''),
      (1098, ''''), (1099, ''y''), (1101, ''e''), (1105, ''yo'')]"

text \<open>\<open>str.translate\<close>\<close>

definition translate :: "(nat \<times> str) list \<Rightarrow> str \<Rightarrow> str" where
  "translate table s = concat (map (\<lambda>c. case map_of table c of None \<Rightarrow> [c] | Some r \<Rightarrow> r) s)"

text \<open>\<open>re.sub(r"[^a-z0-9]+", "-", s)\<close>: each maximal run of other characters becomes a dash.\<close>

definition sub_non_slug :: "str \<Rightarrow> str" where
  "sub_non_slug s = collapse_dashes (map (\<lambda>c. if is_lower_alnum c then c else dash) s)"

definition generate_slug :: "unicode \<Rightarrow> str \<Rightarrow> nat \<Rightarrow> exn + str" where
  "generate_slug u value max_length =
     (let lowered = translate transliteration (casefold u (strip value));
          decomposed = nfkd u lowered;
          ascii_value = ascii_ignore decomposed;
          generated = strip_set is_dash (sub_non_slug ascii_value);
          generated = strip_set is_dash (take max_length (collapse_dashes generated)) in
      if generated = [] then Inl ValueError else Inr generated)"

text \<open>\<open>^[a-z0-9]+(?:-[a-z0-9]+)*$\<close>\<close>

definition is_slug :: "str \<Rightarrow> bool" where
  "is_slug s = list_all (\<lambda>w. w \<noteq> [] \<and> list_all is_lower_alnum w) (split_on dash s)"

definition normalize_slug :: "unicode \<Rightarrow> str \<Rightarrow> nat \<Rightarrow> str option \<Rightarrow> exn + str" where
  "normalize_slug u value max_length fallback =
     (let candidate = strip value in
      rbind (case fallback of
               Some f \<Rightarrow> if candidate = [] then generate_slug u f max_length else Inr candidate
             | None \<Rightarrow> Inr candidate) (\<lambda>candidate.
        let normalized = replace_char 95 [dash] (casefold u candidate);
            normalized = strip_set is_dash (collapse_dashes normalized) in
        if normalized = [] \<or> \<not> is_slug normalized then Inl ValueError
        else if length normalized > max_length then Inl ValueError
        else Inr normalized))"

section \<open>Text and addresses\<close>

definition normalize_optional_text :: "str option \<Rightarrow> nat \<Rightarrow> exn + str option" where
  "normalize_optional_text value max_length =
     (case value of
        None \<Rightarrow> Inr None
      | Some v \<Rightarrow>
          let normalized = strip v in
          if normalized = [] then Inr None
          else if length normalized > max_length then Inl ValueError
          else Inr (Some normalized))"

text \<open>\<open>urllib.parse.urlsplit\<close> on the components the validation reads.\<close>

record split_url =
  url_scheme :: str
  url_netloc :: str
  url_path :: str
  url_query :: str
  url_fragment :: str

fun span_before :: "(nat \<Rightarrow> bool) \<Rightarrow> str \<Rightarrow> str \<times> str" where
  "span_before P [] = ([], [])"
| "span_before P (c # cs) = (if P c then ([], c # cs) else (case span_before P cs of (a, b) \<Rightarrow> (c # a, b)))"

definition is_letter :: "nat \<Rightarrow> bool" where
  "is_letter c = (is_lower c \<or> is_upper c)"

definition is_scheme_char :: "nat \<Rightarrow> bool" where
  "is_scheme_char c = (is_letter c \<or> is_digit c \<or> c \<in> {43, 45, 46})"

definition split_scheme :: "str \<Rightarrow> str \<times> str" where
  "split_scheme url =
     (let (before, rest) = span_before (\<lambda>c. c = 58) url in
      if before \<noteq> [] \<and> rest \<noteq> [] \<and> is_letter (hd before) \<and> list_all is_scheme_char before
      then (map (\<lambda>c. if is_upper c then c + 32 else c) before, tl rest)
      else ([], url))"

definition urlsplit :: "(str \<Rightarrow> bool) \<Rightarrow> str \<Rightarrow> exn + split_url" where
  "urlsplit netloc_ok url =
     (let cleaned = filter (\<lambda>c. c \<notin> {9, 10, 13}) (dropWhile (\<lambda>c. c \<le> 32) url);
          (scheme, rest) = split_scheme cleaned;
          (netloc, rest) = (if starts_with [47, 47] rest
                            then span_before (\<lambda>c. c \<in> {47, 63, 35}) (drop 2 rest) else ([], rest));
          (rest, fragment) = span_before (\<lambda>c. c = 35) rest;
          (path, query) = span_before (\<lambda>c. c = 63) rest in
      if \<not> netloc_ok netloc then Inl ValueError
      else Inr \<lparr>url_scheme = scheme, url_netloc = netloc, url_path = path,
        url_query = drop 1 query, url_fragment = drop 1 fragment\<rparr>)"

text \<open>\<open>hostname\<close>: after the last \<open>@\<close>, inside brackets or before the port.\<close>

definition url_hostname :: "split_url \<Rightarrow> str" where
  "url_hostname p =
     (let hostinfo = last (split_on 64 (url_netloc p));
          (_, bracketed) = span_before (\<lambda>c. c = 91) hostinfo in
      if bracketed \<noteq> [] then fst (span_before (\<lambda>c. c = 93) (tl bracketed))
      else fst (span_before (\<lambda>c. c = 58) hostinfo))"

definition url_has_userinfo :: "split_url \<Rightarrow> bool" where
  "url_has_userinfo p = (64 \<in> set (url_netloc p))"

definition urlunsplit :: "split_url \<Rightarrow> str" where
  "urlunsplit p =
     url_scheme p @ [58]
     @ (if url_netloc p \<noteq> []
        then [47, 47] @ url_netloc p
          @ (if url_path p \<noteq> [] \<and> hd (url_path p) \<noteq> 47 then [47] else []) @ url_path p
        else url_path p)
     @ (if url_query p \<noteq> [] then 63 # url_query p else [])
     @ (if url_fragment p \<noteq> [] then 35 # url_fragment p else [])"

definition normalize_http_url :: "(str \<Rightarrow> bool) \<Rightarrow> str option \<Rightarrow> nat \<Rightarrow> exn + str option" where
  "normalize_http_url netloc_ok value max_length =
     rbind (normalize_optional_text value max_length) (\<lambda>normalized.
       case normalized of
         None \<Rightarrow> Inr None
       | Some url \<Rightarrow>
           rbind (urlsplit netloc_ok url) (\<lambda>parsed.
             if url_scheme parsed \<notin> {py ''http'', py ''https''} \<or> url_hostname parsed = []
             then Inl ValueError
             else if url_has_userinfo parsed then Inl ValueError
             else if list_ex (\<lambda>c. c \<in> {13, 10, 0}) url then Inl ValueError
             else Inr (Some (urlunsplit parsed))))"

definition url_max_length :: nat where "url_max_length = 2048"

section \<open>Slug grammar\<close>

definition no_double_dash :: "str \<Rightarrow> bool" where
  "no_double_dash s = successively (\<lambda>a b. \<not> (a = dash \<and> b = dash)) s"

definition slug_chars :: "str \<Rightarrow> bool" where
  "slug_chars s = list_all (\<lambda>c. is_lower_alnum c \<or> c = dash) s"

lemma collapse_no_double: "no_double_dash (collapse_dashes s)"
proof -
  have "collapse_dashes s = [] \<longleftrightarrow> s = []" "s \<noteq> [] \<Longrightarrow> hd (collapse_dashes s) = hd s" for s
    by (induction s rule: collapse_dashes.induct) auto
  then show ?thesis
    unfolding no_double_dash_def
    by (induction s rule: collapse_dashes.induct)
      (auto simp: successively_Cons dash_def)
qed

lemma collapse_id: "no_double_dash s \<Longrightarrow> collapse_dashes s = s"
  unfolding no_double_dash_def
  by (induction s rule: collapse_dashes.induct) (auto simp: successively_Cons dash_def)

lemma set_collapse: "set (collapse_dashes s) \<subseteq> set s"
  by (induction s rule: collapse_dashes.induct) auto

lemma no_double_append: "no_double_dash (xs @ ys) \<Longrightarrow> no_double_dash xs \<and> no_double_dash ys"
  by (auto simp: no_double_dash_def successively_append_iff)

lemma no_double_dropWhile: "no_double_dash s \<Longrightarrow> no_double_dash (dropWhile P s)"
  using no_double_append [of "takeWhile P s" "dropWhile P s"] by simp

lemma no_double_take: "no_double_dash s \<Longrightarrow> no_double_dash (take n s)"
  using no_double_append [of "take n s" "drop n s"] by simp

lemma no_double_rev: "no_double_dash (rev s) = no_double_dash s"
  unfolding no_double_dash_def successively_rev by (rule arg_cong [where f = "\<lambda>P. successively P s"]) auto

lemma no_double_strip: "no_double_dash s \<Longrightarrow> no_double_dash (strip_set P s)"
  unfolding strip_set_def by (intro no_double_rev [THEN iffD2] no_double_dropWhile)

lemma split_on_nonempty:
  "s \<noteq> [] \<Longrightarrow> hd s \<noteq> dash \<Longrightarrow> last s \<noteq> dash \<Longrightarrow> no_double_dash s \<Longrightarrow> w \<in> set (split_on dash s) \<Longrightarrow> w \<noteq> []"
proof (induction s arbitrary: w rule: induct_list012)
  case (3 x y zs)
  show ?case
  proof (cases "y = dash")
    case True
    then have "zs \<noteq> []" "hd zs \<noteq> dash" "last zs \<noteq> dash" "no_double_dash zs"
      using 3(5,6) by (auto simp: no_double_dash_def successively_Cons split: if_splits)
    then show ?thesis using 3(1,4,7) True by auto
  next
    case False
    obtain v vs where s: "split_on dash (y # zs) = v # vs"
      by (metis split_on_not_Nil list.exhaust)
    have "no_double_dash (y # zs)" using 3(6) by (auto simp: no_double_dash_def)
    then have "w' \<noteq> []" if "w' \<in> set (split_on dash (y # zs))" for w'
      using 3(2) [of w'] 3(5) False that by auto
    then show ?thesis using 3(4,7) s by auto
  qed
qed auto

lemma is_slugI:
  assumes "s \<noteq> []" and "slug_chars s" and "hd s \<noteq> dash" and "last s \<noteq> dash" and "no_double_dash s"
  shows "is_slug s"
  unfolding is_slug_def list_all_iff
proof (intro ballI conjI)
  fix w assume w: "w \<in> set (split_on dash s)"
  show "w \<noteq> []" using split_on_nonempty [OF assms(1,3,4,5) w] .
  fix c assume "c \<in> set w"
  then show "is_lower_alnum c"
    using w split_on_parts [OF w] split_on_chars [OF w] assms(2) by (auto simp: slug_chars_def list_all_iff)
qed

lemma is_slugD:
  assumes "is_slug s"
  shows "s \<noteq> []" "slug_chars s" "hd s \<noteq> dash" "last s \<noteq> dash" "no_double_dash s"
proof -
  have "s \<noteq> [] \<and> slug_chars s \<and> hd s \<noteq> dash \<and> last s \<noteq> dash \<and> no_double_dash s"
    using assms
  proof (induction s rule: induct_list012)
    case 1
    then show ?case by (simp add: is_slug_def)
  next
    case (2 x)
    then show ?case
      by (auto simp: is_slug_def slug_chars_def no_double_dash_def split: if_splits)
  next
    case (3 x y zs)
    have x: "x \<noteq> dash" using 3(3) by (auto simp: is_slug_def)
    then have xa: "is_lower_alnum x" using 3(3)
      by (auto simp: is_slug_def split: if_splits list.splits)
    show ?case
    proof (cases "y = dash")
      case True
      then have "is_slug zs" using 3(3) x by (auto simp: is_slug_def)
      then show ?thesis using 3(1) True x xa
        by (auto simp: slug_chars_def no_double_dash_def successively_Cons)
    next
      case False
      obtain v vs where s: "split_on dash (y # zs) = v # vs" "v \<noteq> []"
        using False by (cases "split_on dash zs") auto
      then have "is_slug (y # zs)" using 3(3) x by (auto simp: is_slug_def split: if_splits)
      then show ?thesis using 3(2) x xa False
        by (auto simp: slug_chars_def no_double_dash_def successively_Cons)
    qed
  qed
  then show "s \<noteq> []" "slug_chars s" "hd s \<noteq> dash" "last s \<noteq> dash" "no_double_dash s" by auto
qed

lemma strip_dash_slug:
  assumes "strip_set is_dash s \<noteq> []" and "no_double_dash s" and "slug_chars s"
  shows "is_slug (strip_set is_dash s)"
  using assms strip_set_ends [OF assms(1)] set_strip_set [of is_dash s]
  by (intro is_slugI no_double_strip) (auto simp: is_dash_def dash_def slug_chars_def list_all_iff)

lemma sub_non_slug_chars: "slug_chars (sub_non_slug s)"
  using set_collapse [of "map (\<lambda>c. if is_lower_alnum c then c else dash) s"]
  by (auto simp: sub_non_slug_def slug_chars_def list_all_iff)

lemma slug_chars_subset: "slug_chars s \<Longrightarrow> set t \<subseteq> set s \<Longrightarrow> slug_chars t"
  by (auto simp: slug_chars_def list_all_iff)

lemma generate_slug_ok:
  assumes "generate_slug u v n = Inr s"
  shows "is_slug s \<and> length s \<le> n"
proof -
  let ?g = "strip_set is_dash (sub_non_slug (ascii_ignore (nfkd u
    (translate transliteration (casefold u (strip v))))))"
  let ?t = "take n (collapse_dashes ?g)"
  have s: "s = strip_set is_dash ?t" "s \<noteq> []"
    using assms by (auto simp: generate_slug_def Let_def split: if_splits)
  have "set ?t \<subseteq> set ?g" using set_take_subset set_collapse by fastforce
  then have "slug_chars ?t"
    using slug_chars_subset [OF slug_chars_subset [OF sub_non_slug_chars set_strip_set]] by blast
  moreover have "no_double_dash ?t" by (rule no_double_take) (rule collapse_no_double)
  ultimately have "is_slug s" using strip_dash_slug [of ?t] s by simp
  moreover have "length s \<le> n" using length_strip_set [of is_dash ?t] s by simp
  ultimately show ?thesis ..
qed

lemma generate_slug_error: "generate_slug u v n = Inl e \<Longrightarrow> e = ValueError"
  by (auto simp: generate_slug_def Let_def split: if_splits)

lemma is_slug_fixed:
  assumes "is_slug s"
  shows "strip s = s" "casefold u s = s" "replace_char 95 [dash] s = s" "collapse_dashes s = s"
    "strip_set is_dash s = s"
proof -
  note d = is_slugD [OF assms]
  have chars: "c < 128 \<and> \<not> is_upper c \<and> \<not> is_space c \<and> c \<noteq> 95" if "c \<in> set s" for c
    using d(2) that
    by (auto simp: slug_chars_def list_all_iff is_lower_alnum_def is_lower_def is_digit_def
      is_upper_def is_space_def dash_def)
  show "strip s = s" unfolding strip_def
    using chars d(1) by (intro strip_set_id) (auto simp: hd_in_set last_in_set)
  show "casefold u s = s" using chars by (intro casefold_id) (auto simp: list_all_iff)
  show "replace_char 95 [dash] s = s"
    using chars by (induction s) (auto simp: replace_char_def)
  show "collapse_dashes s = s" using d(5) by (rule collapse_id)
  show "strip_set is_dash s = s" using d by (intro strip_set_id) (auto simp: is_dash_def dash_def)
qed

lemma normalize_slug_ok: "normalize_slug u v n fb = Inr s \<Longrightarrow> is_slug s \<and> length s \<le> n"
  by (auto simp: normalize_slug_def Let_def rbind_eq_Inr split: if_splits)

lemma normalize_slug_fixed: "is_slug s \<Longrightarrow> length s \<le> n \<Longrightarrow> normalize_slug u s n fb = Inr s"
  using is_slugD(1) [of s] is_slug_fixed [of s]
  by (auto simp: normalize_slug_def Let_def split: option.splits)

text \<open>
  A slug the services store obeys the grammar of the public addresses and its length
  bound, and normalising it again, with or without a fallback name, gives it back.
\<close>

theorem slug_canonical:
  assumes "normalize_slug u v n fb = Inr s"
  shows "is_slug s \<and> length s \<le> n \<and> normalize_slug u s n fb' = Inr s"
  using normalize_slug_ok [OF assms] normalize_slug_fixed by blast

theorem slug_canonical_witness:
  "is_slug (py ''kyiv-2'') \<and> length (py ''kyiv-2'') \<le> 20
     \<and> normalize_slug ascii_only (py ''kyiv-2'') 20 None = Inr (py ''kyiv-2'')"
proof (rule slug_canonical [where v = "py '' Kyiv__2- ''"])
  show "normalize_slug ascii_only (py '' Kyiv__2- '') 20 None = Inr (py ''kyiv-2'')"
    by code_simp
qed

text \<open>The ASCII text a slug is generated from.\<close>

definition slug_source :: "unicode \<Rightarrow> str \<Rightarrow> str" where
  "slug_source u v = ascii_ignore (nfkd u (translate transliteration (casefold u (strip v))))"

lemma strip_set_empty: "strip_set P s = [] \<longleftrightarrow> (\<forall>c \<in> set s. P c)"
proof -
  have "dropWhile P (rev (dropWhile P s)) = [] \<longleftrightarrow> (\<forall>c \<in> set (dropWhile P s). P c)"
    by (simp add: dropWhile_eq_Nil_conv)
  also have "\<dots> \<longleftrightarrow> dropWhile P s = []"
    by (metis dropWhile_eq_Nil_conv dropWhile_idem)
  finally show ?thesis by (simp add: strip_set_def dropWhile_eq_Nil_conv)
qed

lemma set_collapse_eq: "set (collapse_dashes s) = set s"
  by (induction s rule: collapse_dashes.induct) auto

lemma hd_collapse: "s \<noteq> [] \<Longrightarrow> hd (collapse_dashes s) = hd s"
  by (induction s rule: collapse_dashes.induct) auto

lemma generate_slug_fails_iff:
  assumes "0 < n"
  shows "generate_slug u v n = Inl e \<longleftrightarrow> e = ValueError \<and> \<not> list_ex is_lower_alnum (slug_source u v)"
proof -
  let ?g = "strip_set is_dash (sub_non_slug (slug_source u v))"
  let ?t = "take n (collapse_dashes ?g)"
  have sub: "is_dash (if is_lower_alnum c then c else dash) \<longleftrightarrow> \<not> is_lower_alnum c" for c
    by (auto simp: is_dash_def dash_def is_lower_alnum_def is_lower_def is_digit_def)
  have "strip_set is_dash ?t = [] \<longleftrightarrow> ?g = []"
  proof
    assume t: "strip_set is_dash ?t = []"
    show "?g = []"
    proof (rule ccontr)
      assume g: "?g \<noteq> []"
      then have c: "collapse_dashes ?g \<noteq> []" using set_collapse_eq [of ?g] by auto
      have "\<not> is_dash (hd (collapse_dashes ?g))"
        using strip_set_ends(1) [OF g] hd_collapse [OF g] by simp
      moreover have "hd (collapse_dashes ?g) \<in> set ?t"
        using c assms by (cases "collapse_dashes ?g"; cases n) auto
      ultimately show False using t by (simp add: strip_set_empty)
    qed
  qed simp
  also have "\<dots> \<longleftrightarrow> \<not> list_ex is_lower_alnum (slug_source u v)"
    by (simp add: strip_set_empty sub_non_slug_def set_collapse_eq list_ex_iff sub
      del: if_image_distrib)
  finally show ?thesis
    by (auto simp: generate_slug_def Let_def simp flip: slug_source_def)
qed

text \<open>
  Whatever the Unicode tables, a generated slug obeys the grammar and the bound, and
  generation fails exactly when no ASCII letter or digit remains after transliteration, so
  every name with a letter of the Ukrainian alphabet that has a transliteration gets a slug.
\<close>

theorem generated_slug_grammar:
  assumes "0 < n"
  shows "case generate_slug u v n of
     Inr s \<Rightarrow> is_slug s \<and> length s \<le> n \<and> list_ex is_lower_alnum (slug_source u v)
   | Inl e \<Rightarrow> e = ValueError \<and> \<not> list_ex is_lower_alnum (slug_source u v)"
  using generate_slug_ok [of u v n] generate_slug_fails_iff [OF assms, of u v]
  by (cases "generate_slug u v n") auto

theorem generated_slug_grammar_witness:
  "case generate_slug ascii_only [1082, 1080, 1111, 1074] 10 of
     Inr s \<Rightarrow> is_slug s \<and> length s \<le> 10
       \<and> list_ex is_lower_alnum (slug_source ascii_only [1082, 1080, 1111, 1074])
   | Inl e \<Rightarrow> e = ValueError
       \<and> \<not> list_ex is_lower_alnum (slug_source ascii_only [1082, 1080, 1111, 1074])"
  by (rule generated_slug_grammar) simp

lemma normalize_name_ok: "normalize_name v n = Inr s \<Longrightarrow> collapse_spaces s = s \<and> s \<noteq> [] \<and> length s \<le> n"
  by (auto simp: normalize_name_def Let_def collapse_spaces_idem split: if_splits)

lemma normalize_optional_text_ok:
  "normalize_optional_text v n = Inr (Some s) \<Longrightarrow> strip s = s \<and> s \<noteq> [] \<and> length s \<le> n"
  by (auto simp: normalize_optional_text_def Let_def split: option.splits if_splits)

end
