(* ===== verification/Pagination.thy ===== *)
theory Pagination
  imports Database
begin

text \<open>
  \<open>app/schemas/pagination.py\<close> and \<open>paginate_scalars\<close> of \<open>app/repositories/base.py\<close>: the
  validated page request, the page result and the query that cuts a page out of an ordered
  result. \<open>Page.pages\<close> divides two ints with Python's \<open>/\<close>, which rounds to the nearest
  double before \<open>ceil\<close>; the rounding is modelled on integers and shown harmless below
  \<open>2 ^ 53\<close> rows.
\<close>

record pagination =
  pg_page :: int
  pg_per_page :: int
  pg_max_per_page :: int

definition new_pagination :: "int \<Rightarrow> int \<Rightarrow> int \<Rightarrow> exn + pagination" where
  "new_pagination page per_page max_per_page =
     (if page < 1 then Inl ValueError
      else if per_page < 1 then Inl ValueError
      else if max_per_page < 1 then Inl ValueError
      else if max_per_page < per_page then Inl ValueError
      else Inr \<lparr>pg_page = page, pg_per_page = per_page, pg_max_per_page = max_per_page\<rparr>)"

definition pagination_offset :: "pagination \<Rightarrow> int" where
  "pagination_offset p = (pg_page p - 1) * pg_per_page p"

record 'a page =
  page_items :: "'a list"
  page_total :: int
  page_number :: int
  page_per_page :: int

definition new_page :: "'a list \<Rightarrow> int \<Rightarrow> int \<Rightarrow> int \<Rightarrow> exn + 'a page" where
  "new_page xs tot page per_page =
     (if tot < 0 then Inl ValueError
      else if page < 1 \<or> per_page < 1 then Inl ValueError
      else Inr \<lparr>page_items = xs, page_total = tot, page_number = page, page_per_page = per_page\<rparr>)"

section \<open>True division and ceil\<close>

text \<open>
  \<open>ceil(a / b)\<close> for \<open>0 < a\<close>, \<open>0 < b\<close>, where \<open>a / b\<close> is the double nearest to the quotient,
  ties to even. \<open>scale_of a b\<close> is a \<open>k\<close> for which \<open>a * 2 ^ k div b\<close> has 53 bits; a quotient
  of more than 53 bits is not scaled up and is rounded on a coarser grid.
\<close>

definition round_half_even :: "int \<Rightarrow> int \<Rightarrow> int" where
  "round_half_even n d =
     (let q = n div d; r = n mod d in
      if 2 * r < d then q else if d < 2 * r then q + 1 else if even q then q else q + 1)"

function scale_up :: "int \<Rightarrow> int \<Rightarrow> nat \<Rightarrow> nat" where
  "scale_up a b k = (if 0 < a \<and> a * 2 ^ k < b * 2 ^ 52 then scale_up a b (Suc k) else k)"
  by pat_completeness auto

lemma scale_up_decreases:
  assumes "0 < (a::int)" and "a * 2 ^ k < b * 2 ^ 52"
  shows "nat (b * 2 ^ 52 - a * 2 ^ Suc k) < nat (b * 2 ^ 52 - a * 2 ^ k)"
proof -
  have "a * 2 ^ k < a * 2 ^ Suc k" using assms(1) by simp
  then show ?thesis using assms(2) by linarith
qed

termination scale_up
  by (relation "measure (\<lambda>(a, b, k). nat (b * 2 ^ 52 - a * 2 ^ k))")
    (use scale_up_decreases in auto)

function scale_down :: "int \<Rightarrow> int \<Rightarrow> nat \<Rightarrow> nat" where
  "scale_down a b k = (if 0 < b \<and> b * 2 ^ k * 2 ^ 53 \<le> a then scale_down a b (Suc k) else k)"
  by pat_completeness auto

lemma scale_down_decreases:
  assumes "0 < (b::int)" and "b * 2 ^ k * 2 ^ 53 \<le> a"
  shows "nat (a - b * 2 ^ Suc k) < nat (a - b * 2 ^ k)"
proof -
  have "b * 2 ^ k < b * 2 ^ Suc k" "b * 2 ^ k * 1 < b * 2 ^ k * 2 ^ 53" using assms(1) by simp_all
  then show ?thesis using assms(2) by linarith
qed

termination scale_down
  by (relation "measure (\<lambda>(a, b, k). nat (a - b * 2 ^ k))")
    (use scale_down_decreases in auto)

declare scale_up.simps [simp del] scale_down.simps [simp del]

definition ceil_div :: "int \<Rightarrow> int \<Rightarrow> int" where
  "ceil_div a b = - ((- a) div b)"

definition ceil_div_float :: "int \<Rightarrow> int \<Rightarrow> int" where
  "ceil_div_float a b =
     (let up = scale_up a b 0 in
      if 0 < up \<or> a < b * 2 ^ 53 then ceil_div (round_half_even (a * 2 ^ up) b) (2 ^ up)
      else
        let down = scale_down a b 0 in
        round_half_even a (b * 2 ^ down) * 2 ^ down)"

definition page_pages :: "'a page \<Rightarrow> int" where
  "page_pages p = (if page_total p = 0 then 0 else ceil_div_float (page_total p) (page_per_page p))"

definition page_has_previous :: "'a page \<Rightarrow> bool" where
  "page_has_previous p \<longleftrightarrow> 1 < page_number p \<and> 0 < page_pages p"

definition page_has_next :: "'a page \<Rightarrow> bool" where
  "page_has_next p \<longleftrightarrow> page_number p < page_pages p"

section \<open>One page of a query\<close>

definition paginate_scalars :: "(database \<Rightarrow> 'a list) \<Rightarrow> pagination \<Rightarrow> 'a page svc" where
  "paginate_scalars statement pagination =
     bind (query (\<lambda>d. int (length (statement d)))) (\<lambda>tot.
     bind (query (\<lambda>d. take (nat (pg_per_page pagination))
                        (drop (nat (pagination_offset pagination)) (statement d)))) (\<lambda>items.
     lift_result (new_page items tot (pg_page pagination) (pg_per_page pagination))))"

section \<open>The rounding is harmless\<close>

lemma scale_up_lower: "0 < a \<Longrightarrow> b * 2 ^ 52 \<le> a * 2 ^ scale_up a b k"
proof (induction a b k rule: scale_up.induct)
  case (1 a b k)
  then show ?case by (subst scale_up.simps) auto
qed

lemma int_division:
  assumes "0 < (d::int)"
  obtains q r where "n = d * q + r" "n div d = q" "n mod d = r" "0 \<le> r" "r < d"
  using that [of "n div d" "n mod d"] assms by simp

lemma round_half_even_bounds:
  assumes "0 < d"
  shows "2 * n - d \<le> 2 * (d * round_half_even n d)" "2 * (d * round_half_even n d) \<le> 2 * n + d"
proof -
  obtain q r where n: "n = d * q + r" "n div d = q" "n mod d = r" "0 \<le> r" "r < d"
    by (rule int_division [OF assms])
  have "round_half_even n d \<in> {q, q + 1}" "round_half_even n d = q \<Longrightarrow> 2 * r \<le> d"
    "round_half_even n d = q + 1 \<Longrightarrow> d \<le> 2 * r"
    by (auto simp: round_half_even_def Let_def n(2,3) split: if_splits)
  then show "2 * n - d \<le> 2 * (d * round_half_even n d)" "2 * (d * round_half_even n d) \<le> 2 * n + d"
    using n(1,4,5) by (auto simp: distrib_left)
qed

lemma round_half_even_exact: "0 < d \<Longrightarrow> round_half_even (d * q) d = q"
  by (simp add: round_half_even_def)

lemma ceil_div_eq:
  assumes "0 < b" and "b * (n - 1) < a" and "a \<le> b * n"
  shows "ceil_div a b = n"
proof -
  have "(- a) div b = - n"
    proof -
    have "- a = b * (- n) + (b * n - a)" by simp
    moreover have "0 \<le> b * n - a" "b * n - a < b" using assms(2,3) by (simp_all add: algebra_simps)
    ultimately show ?thesis by (rule int_div_pos_eq)
  qed
  then show ?thesis by (simp add: ceil_div_def)
qed

lemma ceil_div_bounds:
  assumes "0 < b"
  shows "b * (ceil_div a b - 1) < a" "a \<le> b * ceil_div a b"
proof -
  obtain q r where "- a = b * q + r" "(- a) div b = q" "0 \<le> r" "r < b"
    by (rule int_division [OF assms])
  then show "b * (ceil_div a b - 1) < a" "a \<le> b * ceil_div a b"
    by (simp_all add: ceil_div_def right_diff_distrib)
qed

lemma ceil_div_float_exact:
  assumes a: "0 < a" "a < 2 ^ 53" and b: "0 < b"
  shows "ceil_div_float a b = ceil_div a b"
proof -
  define k m n where "k = scale_up a b 0" and "m = round_half_even (a * 2 ^ k) b"
    and "n = ceil_div a b"
  have n: "b * (n - 1) < a" "a \<le> b * n" unfolding n_def using ceil_div_bounds [OF b] by auto
  have m: "2 * (a * 2 ^ k) - b \<le> 2 * (b * m)" "2 * (b * m) \<le> 2 * (a * 2 ^ k) + b"
    unfolding m_def using round_half_even_bounds [OF b] by auto
  have big: "b < 2 * 2 ^ k"
  proof -
    have "b * 2 ^ 52 \<le> a * 2 ^ k" unfolding k_def using a(1) by (rule scale_up_lower)
    also have "\<dots> < 2 ^ 53 * 2 ^ k" using a(2) by simp
    finally show ?thesis by simp
  qed
  have "2 ^ k * (n - 1) < m"
  proof -
    have "2 * (b * (2 ^ k * (n - 1))) + 2 * 2 ^ k \<le> 2 * (a * 2 ^ k)"
    proof -
      have "b * (n - 1) + 1 \<le> a" using n(1) by simp
      then have "(b * (n - 1) + 1) * (2 * 2 ^ k) \<le> a * (2 * 2 ^ k)"
        by (rule mult_right_mono) simp
      then show ?thesis by (simp add: algebra_simps)
    qed
    then have "b * (2 ^ k * (n - 1)) < b * m" using m(1) big by linarith
    then show ?thesis using b by (simp only: mult_less_cancel_left_pos)
  qed
  moreover have "m \<le> 2 ^ k * n"
  proof -
    have "a * 2 ^ k \<le> (b * n) * 2 ^ k" using n(2) by (rule mult_right_mono) simp
    moreover have "(b * n) * 2 ^ k = b * (2 ^ k * n)" by simp
    ultimately have "2 * (b * m) \<le> 2 * (b * (2 ^ k * n)) + b" using m(2) by linarith
    then have "b * (2 * m) \<le> b * (2 * (2 ^ k * n) + 1)"
      by (simp add: distrib_left mult.left_commute)
    then have "2 * m \<le> 2 * (2 ^ k * n) + 1" using b by (simp only: mult_le_cancel_left_pos)
    then show ?thesis by linarith
  qed
  ultimately have "ceil_div m (2 ^ k) = n" by (intro ceil_div_eq) simp_all
  moreover have "a < b * 2 ^ 53"
  proof -
    have "1 * 2 ^ 53 \<le> b * 2 ^ 53" using b by (intro mult_right_mono) simp_all
    then show ?thesis using a(2) by simp
  qed
  ultimately show ?thesis by (simp add: ceil_div_float_def Let_def k_def m_def n_def)
qed

section \<open>The pages are the result\<close>

lemma wp_paginate:
  assumes "1 \<le> pg_page p" and "1 \<le> pg_per_page p"
  shows "wp (paginate_scalars rows p)
     (\<lambda>x t. db_only s t \<and> w_db t = w_db s
        \<and> x = \<lparr>page_items = take (nat (pg_per_page p)) (drop (nat (pagination_offset p)) (rows (w_db s))),
              page_total = int (length (rows (w_db s))), page_number = pg_page p,
              page_per_page = pg_per_page p\<rparr>)
     (\<lambda>e t. e = SQLAlchemyError \<and> db_only s t) s"
  using assms by (simp add: paginate_scalars_def wp_simps new_page_def)

lemma concat_chunks:
  "concat (map (\<lambda>i. take n (drop (i * n) xs)) [0..<k]) = take (k * n) xs"
proof (induction k)
  case (Suc k)
  have "take (Suc k * n) xs = take (k * n) xs @ take n (drop (k * n) xs)"
    by (simp add: take_add [symmetric] add.commute)
  then show ?case using Suc by simp
qed simp

text \<open>Running one page request in a state where the statement does not fail.\<close>

definition page_of :: "(database \<Rightarrow> 'a list) \<Rightarrow> int \<Rightarrow> int \<Rightarrow> world \<Rightarrow> 'a page option" where
  "page_of rows per_page i s =
     (case paginate_scalars rows \<lparr>pg_page = i, pg_per_page = per_page, pg_max_per_page = per_page\<rparr> s of
        (Inr x, _) \<Rightarrow> Some x | _ \<Rightarrow> None)"

lemma page_of_eq:
  assumes "no_db_faults s" and "1 \<le> i" and "1 \<le> per"
  shows "page_of rows per i s = Some \<lparr>page_items = take (nat per) (drop (nat ((i - 1) * per)) (rows (w_db s))),
     page_total = int (length (rows (w_db s))), page_number = i, page_per_page = per\<rparr>"
  using assms
  by (simp add: page_of_def paginate_scalars_def query_def sql_call_def eff_simps no_db_faults_def
      new_page_def pagination_offset_def)

lemma pages_cover:
  assumes n: "int (length xs) < 2 ^ 53" and per: "1 \<le> per" and ne: "xs \<noteq> []"
  shows "int (length xs) \<le> ceil_div_float (int (length xs)) per * per"
    "(ceil_div_float (int (length xs)) per - 1) * per < int (length xs)"
  using ceil_div_bounds [of per "int (length xs)"] ceil_div_float_exact [of "int (length xs)" per] assms
  by (simp_all add: mult.commute)

lemma pages_concat:
  assumes n: "int (length xs) < 2 ^ 53" and per: "1 \<le> per"
    and k: "k = (if xs = [] then 0 else ceil_div_float (int (length xs)) per)"
  shows "concat (map (\<lambda>i. take (nat per) (drop (nat ((i - 1) * per)) xs)) [1..k]) = xs"
proof -
  have l: "length xs \<le> nat k * nat per"
  proof (cases "xs = []")
    case False
    then have le: "int (length xs) \<le> k * per" using pages_cover(1) [OF n per] k by simp
    have "k * per \<le> int (nat k * nat per)"
      using per by (cases "0 \<le> k") (simp_all add: mult_nonpos_nonneg)
    then show ?thesis using le by linarith
  qed simp
  have "[1..k] = map (\<lambda>i. int i + 1) [0..<nat k]"
    by (rule nth_equalityI) (simp_all add: nth_upto)
  moreover have "nat (int i * per) = i * nat per" for i
    using per by (simp add: nat_mult_distrib)
  ultimately show ?thesis
    using concat_chunks [of "nat per" xs "nat k"] l by (simp add: comp_def)
qed

end
