(* ===== verification/Catalog.thy ===== *)
theory Catalog
  imports AuditTrail Normalization Pagination
begin

text \<open>
  The catalogue services: \<open>app/services/category_service.py\<close>, \<open>tag_service.py\<close> and
  \<open>software_service.py\<close> with the queries of their repositories. Every operation normalises
  its input, then runs one transaction. Text messages are not modelled, so the conversion
  \<open>except ValueError\<close> to \<open>ValidationError\<close> is the function \<open>validated\<close>.
\<close>

section \<open>Shared steps\<close>

definition validated :: "exn + 'a \<Rightarrow> exn + 'a" where
  "validated r = (case r of Inl e \<Rightarrow> Inl (if e = ValueError then ValidationError else e) | Inr x \<Rightarrow> Inr x)"

definition found :: "'a option \<Rightarrow> 'a svc" where
  "found x = (case x of None \<Rightarrow> throw EntityNotFound | Some r \<Rightarrow> ret r)"

text \<open>\<open>select(...).where(Model.slug == slug.strip().casefold())\<close>\<close>

definition by_slug :: "('r \<Rightarrow> str) \<Rightarrow> unicode \<Rightarrow> str \<Rightarrow> 'r list \<Rightarrow> 'r option" where
  "by_slug slug_of u slug rows = find (\<lambda>r. slug_of r = casefold u (strip slug)) rows"

definition slug_item :: "str \<Rightarrow> str \<times> py_value" where
  "slug_item slug = (py ''slug'', PStr slug)"

section \<open>Categories\<close>

definition category_get_by_slug :: "unicode \<Rightarrow> str \<Rightarrow> category option svc" where
  "category_get_by_slug u slug = query (\<lambda>d. by_slug cat_slug u slug (db_categories d))"

definition add_category :: "category \<Rightarrow> category svc" where
  "add_category c =
     bind (gets (\<lambda>s. with_cat_id (next_id cat_id (db_categories (w_db s))) c)) (\<lambda>row.
     bind (change (\<lambda>d. d\<lparr>db_categories := row_add cat_id with_cat_id c (db_categories d)\<rparr>)) (\<lambda>_.
     bind flush (\<lambda>_. ret row)))"

definition set_category :: "category \<Rightarrow> unit svc" where
  "set_category c =
     change (\<lambda>d. d\<lparr>db_categories := row_update cat_id (cat_id c) (\<lambda>_. c) (db_categories d)\<rparr>)"

text \<open>Deleting a category: the foreign key of its software is set to null.\<close>

definition drop_category :: "nat \<Rightarrow> database \<Rightarrow> database" where
  "drop_category i d = d\<lparr>db_categories := row_delete cat_id i (db_categories d),
     db_softwares := map (\<lambda>w. if sw_category_id w = Some i then w\<lparr>sw_category_id := None\<rparr> else w)
       (db_softwares d)\<rparr>"

definition category_fields ::
  "unicode \<Rightarrow> str \<Rightarrow> str \<Rightarrow> str option \<Rightarrow> int \<Rightarrow> exn + (str \<times> str \<times> str option)" where
  "category_fields u name slug description sort_order =
     rbind (validated (
       rbind (normalize_name name 120) (\<lambda>normalized_name.
       rbind (normalize_slug u slug 140 (Some normalized_name)) (\<lambda>normalized_slug.
       rbind (normalize_optional_text description 2000) (\<lambda>normalized_description.
       Inr (normalized_name, normalized_slug, normalized_description)))))) (\<lambda>fields.
     rbind (require (0 \<le> sort_order) ValidationError) (\<lambda>_. Inr fields))"

definition category_event :: "unicode \<Rightarrow> audit_context option \<Rightarrow> audit_action \<Rightarrow> nat \<Rightarrow> str \<Rightarrow> unit svc" where
  "category_event u audit action i slug =
     append_context_audit_event u audit action (py ''category'') (entity_id i) [slug_item slug]"

definition create_category ::
  "unicode \<Rightarrow> str \<Rightarrow> str \<Rightarrow> str option \<Rightarrow> int \<Rightarrow> bool \<Rightarrow> audit_context option \<Rightarrow> category svc" where
  "create_category u name slug description sort_order is_visible audit =
     bind (lift_result (category_fields u name slug description sort_order))
       (\<lambda>(normalized_name, normalized_slug, normalized_description).
     transaction (
       bind (category_get_by_slug u normalized_slug) (\<lambda>existing.
       bind (raise_if (existing \<noteq> None) EntityConflict) (\<lambda>_.
       bind (add_category \<lparr>cat_id = 0, cat_name = normalized_name, cat_slug = normalized_slug,
               cat_description = normalized_description, cat_sort_order = sort_order,
               cat_is_visible = is_visible\<rparr>) (\<lambda>category.
       bind (category_event u audit CATEGORY_CREATED (cat_id category) (cat_slug category)) (\<lambda>_.
       ret category))))))"

definition get_category :: "nat \<Rightarrow> category svc" where
  "get_category i = read_session (bind (query (\<lambda>d. row_get cat_id i (db_categories d))) found)"

definition update_category ::
  "unicode \<Rightarrow> nat \<Rightarrow> str \<Rightarrow> str \<Rightarrow> str option \<Rightarrow> int \<Rightarrow> bool \<Rightarrow> audit_context option \<Rightarrow> category svc" where
  "update_category u i name slug description sort_order is_visible audit =
     bind (lift_result (category_fields u name slug description sort_order))
       (\<lambda>(normalized_name, normalized_slug, normalized_description).
     transaction (
       bind (bind (query (\<lambda>d. row_get cat_id i (db_categories d))) found) (\<lambda>category.
       bind (category_get_by_slug u normalized_slug) (\<lambda>conflict.
       bind (raise_if (conflict \<noteq> None \<and> cat_id (the conflict) \<noteq> cat_id category) EntityConflict) (\<lambda>_.
       bind (ret (category\<lparr>cat_name := normalized_name, cat_slug := normalized_slug,
               cat_description := normalized_description, cat_sort_order := sort_order,
               cat_is_visible := is_visible\<rparr>)) (\<lambda>category.
       bind (set_category category) (\<lambda>_.
       bind flush (\<lambda>_.
       bind (category_event u audit CATEGORY_UPDATED (cat_id category) (cat_slug category)) (\<lambda>_.
       ret category)))))))))"

definition delete_category :: "unicode \<Rightarrow> nat \<Rightarrow> audit_context option \<Rightarrow> unit svc" where
  "delete_category u i audit =
     transaction (
       bind (bind (query (\<lambda>d. row_get cat_id i (db_categories d))) found) (\<lambda>category.
       bind (change (drop_category (cat_id category))) (\<lambda>_.
       bind flush (\<lambda>_.
       category_event u audit CATEGORY_DELETED i (cat_slug category)))))"

section \<open>Tags\<close>

definition tag_get_by_slug :: "unicode \<Rightarrow> str \<Rightarrow> tag option svc" where
  "tag_get_by_slug u slug = query (\<lambda>d. by_slug tag_slug u slug (db_tags d))"

definition add_tag :: "tag \<Rightarrow> tag svc" where
  "add_tag x =
     bind (gets (\<lambda>s. with_tag_id (next_id tag_id (db_tags (w_db s))) x)) (\<lambda>row.
     bind (change (\<lambda>d. d\<lparr>db_tags := row_add tag_id with_tag_id x (db_tags d)\<rparr>)) (\<lambda>_.
     bind flush (\<lambda>_. ret row)))"

definition set_tag :: "tag \<Rightarrow> unit svc" where
  "set_tag x = change (\<lambda>d. d\<lparr>db_tags := row_update tag_id (tag_id x) (\<lambda>_. x) (db_tags d)\<rparr>)"

text \<open>Deleting a tag: its association rows go with it.\<close>

definition drop_tag :: "nat \<Rightarrow> database \<Rightarrow> database" where
  "drop_tag i d = d\<lparr>db_tags := row_delete tag_id i (db_tags d),
     db_software_tags := filter (\<lambda>(s, t). t \<noteq> i) (db_software_tags d)\<rparr>"

definition tag_fields :: "unicode \<Rightarrow> str \<Rightarrow> str \<Rightarrow> exn + (str \<times> str)" where
  "tag_fields u name slug =
     validated (
       rbind (normalize_name name 120) (\<lambda>normalized_name.
       rbind (normalize_slug u slug 140 (Some normalized_name)) (\<lambda>normalized_slug.
       Inr (normalized_name, normalized_slug))))"

definition tag_event :: "unicode \<Rightarrow> audit_context option \<Rightarrow> audit_action \<Rightarrow> nat \<Rightarrow> str \<Rightarrow> unit svc" where
  "tag_event u audit action i slug =
     append_context_audit_event u audit action (py ''tag'') (entity_id i) [slug_item slug]"

definition create_tag :: "unicode \<Rightarrow> str \<Rightarrow> str \<Rightarrow> audit_context option \<Rightarrow> tag svc" where
  "create_tag u name slug audit =
     bind (lift_result (tag_fields u name slug)) (\<lambda>(normalized_name, normalized_slug).
     transaction (
       bind (tag_get_by_slug u normalized_slug) (\<lambda>existing.
       bind (raise_if (existing \<noteq> None) EntityConflict) (\<lambda>_.
       bind (add_tag \<lparr>tag_id = 0, tag_name = normalized_name, tag_slug = normalized_slug\<rparr>) (\<lambda>x.
       bind (tag_event u audit TAG_CREATED (tag_id x) (tag_slug x)) (\<lambda>_.
       ret x))))))"

definition get_tag :: "nat \<Rightarrow> tag svc" where
  "get_tag i = read_session (bind (query (\<lambda>d. row_get tag_id i (db_tags d))) found)"

definition update_tag :: "unicode \<Rightarrow> nat \<Rightarrow> str \<Rightarrow> str \<Rightarrow> audit_context option \<Rightarrow> tag svc" where
  "update_tag u i name slug audit =
     bind (lift_result (tag_fields u name slug)) (\<lambda>(normalized_name, normalized_slug).
     transaction (
       bind (bind (query (\<lambda>d. row_get tag_id i (db_tags d))) found) (\<lambda>x.
       bind (tag_get_by_slug u normalized_slug) (\<lambda>conflict.
       bind (raise_if (conflict \<noteq> None \<and> tag_id (the conflict) \<noteq> tag_id x) EntityConflict) (\<lambda>_.
       bind (ret (x\<lparr>tag_name := normalized_name, tag_slug := normalized_slug\<rparr>)) (\<lambda>x.
       bind (set_tag x) (\<lambda>_.
       bind flush (\<lambda>_.
       bind (tag_event u audit TAG_UPDATED (tag_id x) (tag_slug x)) (\<lambda>_.
       ret x)))))))))"

definition delete_tag :: "unicode \<Rightarrow> nat \<Rightarrow> audit_context option \<Rightarrow> unit svc" where
  "delete_tag u i audit =
     transaction (
       bind (bind (query (\<lambda>d. row_get tag_id i (db_tags d))) found) (\<lambda>x.
       bind (change (drop_tag (tag_id x))) (\<lambda>_.
       bind flush (\<lambda>_.
       tag_event u audit TAG_DELETED i (tag_slug x)))))"

section \<open>Software\<close>

record software_input =
  in_name :: str
  in_slug :: str
  in_short_description :: str
  in_full_description :: "str option"
  in_developer_name :: "str option"
  in_official_website_url :: "str option"
  in_source_url :: "str option"
  in_license_name :: "str option"
  in_supported_os :: "str option"
  in_system_requirements :: "str option"

text \<open>\<open>_normalize_fields\<close>, in the order the code evaluates the fields; the result is the
  record of the normalised values. \<open>netloc_ok\<close> stands for the checks of \<open>urlsplit\<close>.\<close>

definition normalize_software_fields ::
  "unicode \<Rightarrow> (str \<Rightarrow> bool) \<Rightarrow> software_input \<Rightarrow> exn + software_input" where
  "normalize_software_fields u netloc_ok x =
     validated (
       rbind (normalize_name (in_name x) 180) (\<lambda>name.
       rbind (normalize_slug u (in_slug x) 200 (Some name)) (\<lambda>slug.
       let short = collapse_spaces (in_short_description x) in
       rbind (require (\<not> (short = [] \<or> length short > 500)) ValueError) (\<lambda>_.
       rbind (normalize_optional_text (in_full_description x) 20000) (\<lambda>full.
       rbind (normalize_optional_text (in_developer_name x) 180) (\<lambda>developer.
       rbind (normalize_http_url netloc_ok (in_official_website_url x) url_max_length) (\<lambda>website.
       rbind (normalize_http_url netloc_ok (in_source_url x) url_max_length) (\<lambda>source.
       rbind (normalize_optional_text (in_license_name x) 180) (\<lambda>license.
       rbind (normalize_optional_text (in_supported_os x) 4000) (\<lambda>supported_os.
       rbind (normalize_optional_text (in_system_requirements x) 8000) (\<lambda>requirements.
       Inr \<lparr>in_name = name, in_slug = slug, in_short_description = short,
            in_full_description = full, in_developer_name = developer,
            in_official_website_url = website, in_source_url = source,
            in_license_name = license, in_supported_os = supported_os,
            in_system_requirements = requirements\<rparr>)))))))))))"

definition software_get_by_slug :: "unicode \<Rightarrow> str \<Rightarrow> software option svc" where
  "software_get_by_slug u slug = query (\<lambda>d. by_slug sw_slug u slug (db_softwares d))"

text \<open>\<open>tuple(dict.fromkeys(ids))\<close>: the first occurrences, in order.\<close>

definition dict_fromkeys :: "nat list \<Rightarrow> nat list" where
  "dict_fromkeys ids = rev (remdups (rev ids))"

text \<open>\<open>TagRepository.get_many\<close>: no statement for an empty request.\<close>

definition tags_get_many :: "nat list \<Rightarrow> tag list svc" where
  "tags_get_many ids =
     (let unique_ids = dict_fromkeys ids in
      if unique_ids = [] then ret []
      else query (\<lambda>d. sort_key tag_id (filter (\<lambda>x. tag_id x \<in> set unique_ids) (db_tags d))))"

definition resolve_category_and_tags :: "nat option \<Rightarrow> nat list \<Rightarrow> (category option \<times> tag list) svc" where
  "resolve_category_and_tags category_id tag_ids =
     bind (case category_id of
             None \<Rightarrow> ret None
           | Some i \<Rightarrow> bind (bind (query (\<lambda>d. row_get cat_id i (db_categories d))) found) (\<lambda>c. ret (Some c)))
       (\<lambda>category.
     let unique_tag_ids = dict_fromkeys tag_ids in
     bind (tags_get_many unique_tag_ids) (\<lambda>tags.
     bind (raise_if (length tags \<noteq> length unique_tag_ids) EntityNotFound) (\<lambda>_.
     ret (category, tags))))"

text \<open>\<open>software.tags = tags\<close>: the association rows of the software become those of the list.\<close>

definition put_tags :: "nat \<Rightarrow> tag list \<Rightarrow> database \<Rightarrow> database" where
  "put_tags i tags d = d\<lparr>db_software_tags :=
     filter (\<lambda>(s, t). s \<noteq> i) (db_software_tags d) @ map (\<lambda>x. (i, tag_id x)) tags\<rparr>"

definition set_software :: "software \<Rightarrow> unit svc" where
  "set_software w =
     change (\<lambda>d. d\<lparr>db_softwares := row_update sw_id (sw_id w) (\<lambda>_. w) (db_softwares d)\<rparr>)"

definition add_software :: "software \<Rightarrow> tag list \<Rightarrow> software svc" where
  "add_software w tags =
     bind (gets (\<lambda>s. with_sw_id (next_id sw_id (db_softwares (w_db s))) w)) (\<lambda>row.
     bind (change (\<lambda>d. put_tags (sw_id row) tags
             (d\<lparr>db_softwares := row_add sw_id with_sw_id w (db_softwares d)\<rparr>))) (\<lambda>_.
     bind flush (\<lambda>_. ret row)))"

definition with_fields :: "software_input \<Rightarrow> software \<Rightarrow> software" where
  "with_fields x w = w\<lparr>sw_name := in_name x, sw_slug := in_slug x,
     sw_short_description := in_short_description x, sw_full_description := in_full_description x,
     sw_developer_name := in_developer_name x,
     sw_official_website_url := in_official_website_url x, sw_source_url := in_source_url x,
     sw_license_name := in_license_name x, sw_supported_os := in_supported_os x,
     sw_system_requirements := in_system_requirements x\<rparr>"

definition new_software :: "software_input \<Rightarrow> nat option \<Rightarrow> visibility \<Rightarrow> bool \<Rightarrow> software" where
  "new_software x category_id vis is_featured =
     \<lparr>sw_id = 0, sw_name = in_name x, sw_slug = in_slug x,
      sw_short_description = in_short_description x, sw_full_description = in_full_description x,
      sw_developer_name = in_developer_name x,
      sw_official_website_url = in_official_website_url x, sw_source_url = in_source_url x,
      sw_license_name = in_license_name x, sw_category_id = category_id,
      sw_supported_os = in_supported_os x, sw_system_requirements = in_system_requirements x,
      sw_status = SoftwareDraft, sw_visibility = vis, sw_is_featured = is_featured,
      sw_published_at = None, sw_archived_at = None\<rparr>"

definition software_event ::
  "unicode \<Rightarrow> audit_context option \<Rightarrow> audit_action \<Rightarrow> nat \<Rightarrow> (str \<times> py_value) list \<Rightarrow> unit svc" where
  "software_event u audit action i metadata =
     append_context_audit_event u audit action (py ''software'') (entity_id i) metadata"

definition create_software ::
  "unicode \<Rightarrow> (str \<Rightarrow> bool) \<Rightarrow> software_input \<Rightarrow> nat option \<Rightarrow> nat list \<Rightarrow> visibility \<Rightarrow> bool \<Rightarrow>
   audit_context option \<Rightarrow> software svc" where
  "create_software u netloc_ok x category_id tag_ids vis is_featured audit =
     bind (lift_result (normalize_software_fields u netloc_ok x)) (\<lambda>fields.
     transaction (
       bind (software_get_by_slug u (in_slug fields)) (\<lambda>existing.
       bind (raise_if (existing \<noteq> None) EntityConflict) (\<lambda>_.
       bind (resolve_category_and_tags category_id tag_ids) (\<lambda>(category, tags).
       bind (add_software (new_software fields (map_option cat_id category) vis is_featured) tags) (\<lambda>w.
       bind (software_event u audit SOFTWARE_CREATED (sw_id w) [slug_item (sw_slug w)]) (\<lambda>_.
       ret w)))))))"

definition require_software :: "nat \<Rightarrow> software svc" where
  "require_software i = bind (query (\<lambda>d. row_get sw_id i (db_softwares d))) found"

definition get_software :: "nat \<Rightarrow> software svc" where
  "get_software i = read_session (require_software i)"

definition update_software ::
  "unicode \<Rightarrow> (str \<Rightarrow> bool) \<Rightarrow> nat \<Rightarrow> software_input \<Rightarrow> nat option \<Rightarrow> nat list \<Rightarrow> visibility \<Rightarrow> bool \<Rightarrow>
   audit_context option \<Rightarrow> software svc" where
  "update_software u netloc_ok i x category_id tag_ids vis is_featured audit =
     bind (lift_result (normalize_software_fields u netloc_ok x)) (\<lambda>fields.
     transaction (
       bind (require_software i) (\<lambda>w.
       bind (software_get_by_slug u (in_slug fields)) (\<lambda>conflict.
       bind (raise_if (conflict \<noteq> None \<and> sw_id (the conflict) \<noteq> sw_id w) EntityConflict) (\<lambda>_.
       bind (resolve_category_and_tags category_id tag_ids) (\<lambda>(category, tags).
       bind (ret ((with_fields fields w)\<lparr>sw_category_id := map_option cat_id category,
               sw_visibility := vis, sw_is_featured := is_featured\<rparr>)) (\<lambda>w.
       bind (set_software w) (\<lambda>_.
       bind (change (put_tags (sw_id w) tags)) (\<lambda>_.
       bind flush (\<lambda>_.
       bind (software_event u audit SOFTWARE_UPDATED (sw_id w) [slug_item (sw_slug w)]) (\<lambda>_.
       ret w)))))))))))"

definition replace_software_tags ::
  "unicode \<Rightarrow> nat \<Rightarrow> nat list \<Rightarrow> audit_context option \<Rightarrow> software svc" where
  "replace_software_tags u i tag_ids audit =
     transaction (
       bind (require_software i) (\<lambda>w.
       bind (tags_get_many tag_ids) (\<lambda>tags.
       bind (raise_if (length tags \<noteq> card (set tag_ids)) EntityNotFound) (\<lambda>_.
       bind (change (put_tags (sw_id w) tags)) (\<lambda>_.
       bind flush (\<lambda>_.
       bind (software_event u audit SOFTWARE_UPDATED (sw_id w) [(py ''changed'', PStr (py ''tags''))]) (\<lambda>_.
       ret w)))))))"

definition transition_software ::
  "unicode \<Rightarrow> nat \<Rightarrow> software_status \<Rightarrow> audit_context option \<Rightarrow> software svc" where
  "transition_software u i target audit =
     transaction (
       bind (require_software i) (\<lambda>w.
       bind utc_now (\<lambda>now.
       bind (lift_result (apply_software_transition w target now)) (\<lambda>w'.
       bind (set_software w') (\<lambda>_.
       bind flush (\<lambda>_.
       bind (software_event u audit SOFTWARE_STATUS_CHANGED (sw_id w')
               [(py ''from'', PStr (software_status_value (sw_status w))),
                (py ''to'', PStr (software_status_value target))]) (\<lambda>_.
       ret w')))))))"

definition set_software_visibility ::
  "unicode \<Rightarrow> nat \<Rightarrow> visibility \<Rightarrow> audit_context option \<Rightarrow> software svc" where
  "set_software_visibility u i vis audit =
     transaction (
       bind (require_software i) (\<lambda>w.
       bind (ret (w\<lparr>sw_visibility := vis\<rparr>)) (\<lambda>w'.
       bind (set_software w') (\<lambda>_.
       bind flush (\<lambda>_.
       bind (software_event u audit SOFTWARE_VISIBILITY_CHANGED (sw_id w')
               [(py ''from'', PStr (visibility_value (sw_visibility w))),
                (py ''to'', PStr (visibility_value vis))]) (\<lambda>_.
       ret w'))))))"

end
