(* ===== verification/Releases.thy ===== *)
theory Releases
  imports Catalog "HOL-Library.Product_Lexorder"
begin

text \<open>
  \<open>app/services/release_service.py\<close> and \<open>app/repositories/release_repository.py\<close>: releases
  of a software entry and the marker of the current stable release.
\<close>

section \<open>The repository\<close>

text \<open>\<open>get_with_graph\<close>: the release with its software; a dangling foreign key would fail on
  the first attribute access of the missing parent.\<close>

definition release_with_graph :: "nat \<Rightarrow> (release \<times> software) option svc" where
  "release_with_graph i =
     bind (query (\<lambda>d. d)) (\<lambda>d.
       case row_get rel_id i (db_releases d) of
         None \<Rightarrow> ret None
       | Some r \<Rightarrow> (case row_get sw_id (rel_software_id r) (db_softwares d) of
                     None \<Rightarrow> throw AttributeError | Some w \<Rightarrow> ret (Some (r, w))))"

definition release_identity :: "release \<Rightarrow> nat \<times> str \<times> release_channel" where
  "release_identity r = (rel_software_id r, rel_version r, rel_channel r)"

definition release_get_by_identity :: "nat \<Rightarrow> str \<Rightarrow> release_channel \<Rightarrow> release option svc" where
  "release_get_by_identity i version channel =
     query (\<lambda>d. find (\<lambda>r. release_identity r = (i, version, channel)) (db_releases d))"

definition get_current_stable :: "nat \<Rightarrow> release option svc" where
  "get_current_stable i =
     query (\<lambda>d. find (\<lambda>r. rel_software_id r = i \<and> rel_channel r = ChannelStable \<and> rel_is_current r)
       (db_releases d))"

text \<open>The rows \<open>clear_current_stable\<close> updates; it returns their number.\<close>

definition cleared_by :: "nat \<Rightarrow> nat \<Rightarrow> release \<Rightarrow> bool" where
  "cleared_by i except r \<longleftrightarrow> rel_software_id r = i \<and> rel_channel r = ChannelStable
     \<and> rel_id r \<noteq> except \<and> rel_is_current r"

definition clear_current_stable :: "nat \<Rightarrow> nat \<Rightarrow> int svc" where
  "clear_current_stable i except =
     bind sql_call (\<lambda>_.
     bind (gets (\<lambda>s. int (length (filter (cleared_by i except) (db_releases (w_db s)))))) (\<lambda>n.
     bind (change (\<lambda>d. d\<lparr>db_releases :=
       map (\<lambda>r. if cleared_by i except r then r\<lparr>rel_is_current := False\<rparr> else r) (db_releases d)\<rparr>)) (\<lambda>_.
     ret n)))"

definition list_releases :: "nat \<Rightarrow> database \<Rightarrow> release list" where
  "list_releases i d =
     sort_key (\<lambda>r. ((case rel_release_date r of None \<Rightarrow> 1 | Some _ \<Rightarrow> (0::nat)),
                    (case rel_release_date r of None \<Rightarrow> 0 | Some t \<Rightarrow> - t),
                    - int (rel_id r)))
       (filter (\<lambda>r. rel_software_id r = i) (db_releases d))"

definition set_release :: "release \<Rightarrow> unit svc" where
  "set_release r =
     change (\<lambda>d. d\<lparr>db_releases := row_update rel_id (rel_id r) (\<lambda>_. r) (db_releases d)\<rparr>)"

definition add_release :: "release \<Rightarrow> release svc" where
  "add_release r =
     bind (gets (\<lambda>s. with_rel_id (next_id rel_id (db_releases (w_db s))) r)) (\<lambda>row.
     bind (change (\<lambda>d. d\<lparr>db_releases := row_add rel_id with_rel_id r (db_releases d)\<rparr>)) (\<lambda>_.
     bind flush (\<lambda>_. ret row)))"

section \<open>The service\<close>

definition normalize_release_fields :: "str \<Rightarrow> str option \<Rightarrow> exn + (str \<times> str option)" where
  "normalize_release_fields version changelog =
     (let normalized_version = collapse_spaces version in
      if normalized_version = [] \<or> length normalized_version > 100 then Inl ValidationError
      else rbind (validated (normalize_optional_text changelog 20000)) (\<lambda>normalized_changelog.
        Inr (normalized_version, normalized_changelog)))"

definition release_event ::
  "unicode \<Rightarrow> audit_context option \<Rightarrow> audit_action \<Rightarrow> nat \<Rightarrow> (str \<times> py_value) list \<Rightarrow> unit svc" where
  "release_event u audit action i metadata =
     append_context_audit_event u audit action (py ''release'') (entity_id i) metadata"

definition software_version :: "nat \<Rightarrow> str \<Rightarrow> (str \<times> py_value) list" where
  "software_version i version = [(py ''software_id'', PInt (int i)), (py ''version'', PStr version)]"

definition create_release ::
  "unicode \<Rightarrow> nat \<Rightarrow> str \<Rightarrow> release_channel \<Rightarrow> date option \<Rightarrow> str option \<Rightarrow> audit_context option \<Rightarrow> release svc" where
  "create_release u i version channel release_date changelog audit =
     bind (lift_result (normalize_release_fields version changelog))
       (\<lambda>(normalized_version, normalized_changelog).
     transaction (
       bind (require_software i) (\<lambda>w.
       bind (release_get_by_identity i normalized_version channel) (\<lambda>duplicate.
       bind (raise_if (duplicate \<noteq> None) EntityConflict) (\<lambda>_.
       bind (add_release \<lparr>rel_id = 0, rel_software_id = sw_id w, rel_version = normalized_version,
               rel_channel = channel, rel_release_date = release_date,
               rel_changelog = normalized_changelog, rel_is_current = False,
               rel_status = ReleaseDraft, rel_published_at = None\<rparr>) (\<lambda>r.
       bind (release_event u audit RELEASE_CREATED (rel_id r) (software_version i (rel_version r))) (\<lambda>_.
       ret r)))))))"

definition require_release :: "nat \<Rightarrow> (release \<times> software) svc" where
  "require_release i = bind (release_with_graph i) found"

definition get_release :: "nat \<Rightarrow> (release \<times> software) svc" where
  "get_release i = read_session (require_release i)"

definition list_releases_page :: "nat \<Rightarrow> pagination \<Rightarrow> release page svc" where
  "list_releases_page i pagination =
     read_session (bind (require_software i) (\<lambda>_. paginate_scalars (list_releases i) pagination))"

definition update_release ::
  "unicode \<Rightarrow> nat \<Rightarrow> str \<Rightarrow> release_channel \<Rightarrow> date option \<Rightarrow> str option \<Rightarrow> audit_context option \<Rightarrow> release svc" where
  "update_release u i version channel release_date changelog audit =
     bind (lift_result (normalize_release_fields version changelog))
       (\<lambda>(normalized_version, normalized_changelog).
     transaction (
       bind (require_release i) (\<lambda>(r, w).
       bind (raise_if (rel_is_current r \<and> channel \<noteq> ChannelStable) InvalidStateTransition) (\<lambda>_.
       bind (release_get_by_identity (rel_software_id r) normalized_version channel) (\<lambda>duplicate.
       bind (raise_if (duplicate \<noteq> None \<and> rel_id (the duplicate) \<noteq> rel_id r) EntityConflict) (\<lambda>_.
       bind (ret (r\<lparr>rel_version := normalized_version, rel_channel := channel,
               rel_release_date := release_date, rel_changelog := normalized_changelog\<rparr>)) (\<lambda>r.
       bind (set_release r) (\<lambda>_.
       bind flush (\<lambda>_.
       bind (release_event u audit RELEASE_UPDATED (rel_id r)
               (software_version (rel_software_id r) (rel_version r))) (\<lambda>_.
       ret r))))))))))"

definition transition_release ::
  "unicode \<Rightarrow> nat \<Rightarrow> release_status \<Rightarrow> audit_context option \<Rightarrow> release svc" where
  "transition_release u i target audit =
     transaction (
       bind (require_release i) (\<lambda>(r, w).
       bind utc_now (\<lambda>now.
       bind (lift_result (apply_release_transition r w target now)) (\<lambda>r'.
       bind (set_release r') (\<lambda>_.
       bind flush (\<lambda>_.
       bind (release_event u audit RELEASE_STATUS_CHANGED (rel_id r')
               [(py ''from'', PStr (release_status_value (rel_status r))),
                (py ''to'', PStr (release_status_value target))]) (\<lambda>_.
       ret r')))))))"

definition set_current_stable :: "unicode \<Rightarrow> nat \<Rightarrow> audit_context option \<Rightarrow> release svc" where
  "set_current_stable u i audit =
     transaction (
       bind (require_release i) (\<lambda>(r, w).
       bind (lift_result (ensure_current_stable_candidate r w)) (\<lambda>_.
       bind (clear_current_stable (rel_software_id r) (rel_id r)) (\<lambda>cleared.
       bind (ret (r\<lparr>rel_is_current := True\<rparr>)) (\<lambda>r.
       bind (set_release r) (\<lambda>_.
       bind flush (\<lambda>_.
       bind (release_event u audit RELEASE_CURRENT_CHANGED (rel_id r)
               [(py ''software_id'', PInt (int (rel_software_id r))),
                (py ''cleared_count'', PInt cleared)]) (\<lambda>_.
       ret r))))))))"

definition clear_current :: "unicode \<Rightarrow> nat \<Rightarrow> audit_context option \<Rightarrow> release svc" where
  "clear_current u i audit =
     transaction (
       bind (require_release i) (\<lambda>(r, w).
       bind (ret (r\<lparr>rel_is_current := False\<rparr>)) (\<lambda>r.
       bind (set_release r) (\<lambda>_.
       bind flush (\<lambda>_.
       bind (release_event u audit RELEASE_CURRENT_CHANGED (rel_id r)
               [(py ''software_id'', PInt (int (rel_software_id r))),
                (py ''current'', PBool False)]) (\<lambda>_.
       ret r))))))"

end
