(* ===== verification/Constraints.thy ===== *)
theory Constraints
  imports AuditTrail
begin

text \<open>
  How a change of one table bears on the declared constraints: a table's own constraints and
  those of its children may change, all others do not. Replacing rows under the same keys
  and adding rows keep the references of the children.
\<close>

named_theorems constraint_frames "constraints that a change of one table leaves alone"

lemmas constraint_defs = users_ok_def sessions_ok_def categories_ok_def tags_ok_def
  software_tags_ok_def softwares_ok_def releases_ok_def files_ok_def stats_ok_def audits_ok_def

lemma other_tables [constraint_frames]:
  "categories_ok (d\<lparr>db_users := us\<rparr>) = categories_ok d"
  "tags_ok (d\<lparr>db_users := us\<rparr>) = tags_ok d"
  "software_tags_ok (d\<lparr>db_users := us\<rparr>) = software_tags_ok d"
  "softwares_ok (d\<lparr>db_users := us\<rparr>) = softwares_ok d"
  "releases_ok (d\<lparr>db_users := us\<rparr>) = releases_ok d"
  "files_ok (d\<lparr>db_users := us\<rparr>) = files_ok d"
  "stats_ok (d\<lparr>db_users := us\<rparr>) = stats_ok d"
  "users_ok (d\<lparr>db_sessions := ss\<rparr>) = users_ok d"
  "categories_ok (d\<lparr>db_sessions := ss\<rparr>) = categories_ok d"
  "tags_ok (d\<lparr>db_sessions := ss\<rparr>) = tags_ok d"
  "software_tags_ok (d\<lparr>db_sessions := ss\<rparr>) = software_tags_ok d"
  "softwares_ok (d\<lparr>db_sessions := ss\<rparr>) = softwares_ok d"
  "releases_ok (d\<lparr>db_sessions := ss\<rparr>) = releases_ok d"
  "files_ok (d\<lparr>db_sessions := ss\<rparr>) = files_ok d"
  "stats_ok (d\<lparr>db_sessions := ss\<rparr>) = stats_ok d"
  "audits_ok (d\<lparr>db_sessions := ss\<rparr>) = audits_ok d"
  "users_ok (d\<lparr>db_categories := cs\<rparr>) = users_ok d"
  "sessions_ok (d\<lparr>db_categories := cs\<rparr>) = sessions_ok d"
  "tags_ok (d\<lparr>db_categories := cs\<rparr>) = tags_ok d"
  "software_tags_ok (d\<lparr>db_categories := cs\<rparr>) = software_tags_ok d"
  "releases_ok (d\<lparr>db_categories := cs\<rparr>) = releases_ok d"
  "files_ok (d\<lparr>db_categories := cs\<rparr>) = files_ok d"
  "stats_ok (d\<lparr>db_categories := cs\<rparr>) = stats_ok d"
  "audits_ok (d\<lparr>db_categories := cs\<rparr>) = audits_ok d"
  "users_ok (d\<lparr>db_tags := ts\<rparr>) = users_ok d"
  "sessions_ok (d\<lparr>db_tags := ts\<rparr>) = sessions_ok d"
  "categories_ok (d\<lparr>db_tags := ts\<rparr>) = categories_ok d"
  "softwares_ok (d\<lparr>db_tags := ts\<rparr>) = softwares_ok d"
  "releases_ok (d\<lparr>db_tags := ts\<rparr>) = releases_ok d"
  "files_ok (d\<lparr>db_tags := ts\<rparr>) = files_ok d"
  "stats_ok (d\<lparr>db_tags := ts\<rparr>) = stats_ok d"
  "audits_ok (d\<lparr>db_tags := ts\<rparr>) = audits_ok d"
  "users_ok (d\<lparr>db_software_tags := xs\<rparr>) = users_ok d"
  "sessions_ok (d\<lparr>db_software_tags := xs\<rparr>) = sessions_ok d"
  "categories_ok (d\<lparr>db_software_tags := xs\<rparr>) = categories_ok d"
  "tags_ok (d\<lparr>db_software_tags := xs\<rparr>) = tags_ok d"
  "softwares_ok (d\<lparr>db_software_tags := xs\<rparr>) = softwares_ok d"
  "releases_ok (d\<lparr>db_software_tags := xs\<rparr>) = releases_ok d"
  "files_ok (d\<lparr>db_software_tags := xs\<rparr>) = files_ok d"
  "stats_ok (d\<lparr>db_software_tags := xs\<rparr>) = stats_ok d"
  "audits_ok (d\<lparr>db_software_tags := xs\<rparr>) = audits_ok d"
  "users_ok (d\<lparr>db_softwares := ws\<rparr>) = users_ok d"
  "sessions_ok (d\<lparr>db_softwares := ws\<rparr>) = sessions_ok d"
  "categories_ok (d\<lparr>db_softwares := ws\<rparr>) = categories_ok d"
  "tags_ok (d\<lparr>db_softwares := ws\<rparr>) = tags_ok d"
  "files_ok (d\<lparr>db_softwares := ws\<rparr>) = files_ok d"
  "stats_ok (d\<lparr>db_softwares := ws\<rparr>) = stats_ok d"
  "audits_ok (d\<lparr>db_softwares := ws\<rparr>) = audits_ok d"
  "users_ok (d\<lparr>db_releases := rs\<rparr>) = users_ok d"
  "sessions_ok (d\<lparr>db_releases := rs\<rparr>) = sessions_ok d"
  "categories_ok (d\<lparr>db_releases := rs\<rparr>) = categories_ok d"
  "tags_ok (d\<lparr>db_releases := rs\<rparr>) = tags_ok d"
  "software_tags_ok (d\<lparr>db_releases := rs\<rparr>) = software_tags_ok d"
  "softwares_ok (d\<lparr>db_releases := rs\<rparr>) = softwares_ok d"
  "stats_ok (d\<lparr>db_releases := rs\<rparr>) = stats_ok d"
  "audits_ok (d\<lparr>db_releases := rs\<rparr>) = audits_ok d"
  "users_ok (d\<lparr>db_files := fs\<rparr>) = users_ok d"
  "sessions_ok (d\<lparr>db_files := fs\<rparr>) = sessions_ok d"
  "categories_ok (d\<lparr>db_files := fs\<rparr>) = categories_ok d"
  "tags_ok (d\<lparr>db_files := fs\<rparr>) = tags_ok d"
  "software_tags_ok (d\<lparr>db_files := fs\<rparr>) = software_tags_ok d"
  "softwares_ok (d\<lparr>db_files := fs\<rparr>) = softwares_ok d"
  "releases_ok (d\<lparr>db_files := fs\<rparr>) = releases_ok d"
  "audits_ok (d\<lparr>db_files := fs\<rparr>) = audits_ok d"
  "users_ok (d\<lparr>db_stats := zs\<rparr>) = users_ok d"
  "sessions_ok (d\<lparr>db_stats := zs\<rparr>) = sessions_ok d"
  "categories_ok (d\<lparr>db_stats := zs\<rparr>) = categories_ok d"
  "tags_ok (d\<lparr>db_stats := zs\<rparr>) = tags_ok d"
  "software_tags_ok (d\<lparr>db_stats := zs\<rparr>) = software_tags_ok d"
  "softwares_ok (d\<lparr>db_stats := zs\<rparr>) = softwares_ok d"
  "releases_ok (d\<lparr>db_stats := zs\<rparr>) = releases_ok d"
  "files_ok (d\<lparr>db_stats := zs\<rparr>) = files_ok d"
  "audits_ok (d\<lparr>db_stats := zs\<rparr>) = audits_ok d"
  "users_ok (d\<lparr>db_audits := as\<rparr>) = users_ok d"
  "sessions_ok (d\<lparr>db_audits := as\<rparr>) = sessions_ok d"
  "categories_ok (d\<lparr>db_audits := as\<rparr>) = categories_ok d"
  "tags_ok (d\<lparr>db_audits := as\<rparr>) = tags_ok d"
  "software_tags_ok (d\<lparr>db_audits := as\<rparr>) = software_tags_ok d"
  "softwares_ok (d\<lparr>db_audits := as\<rparr>) = softwares_ok d"
  "releases_ok (d\<lparr>db_audits := as\<rparr>) = releases_ok d"
  "files_ok (d\<lparr>db_audits := as\<rparr>) = files_ok d"
  "stats_ok (d\<lparr>db_audits := as\<rparr>) = stats_ok d"
  by (simp_all add: constraint_defs)

lemma refers_append [simp]: "refers (xs @ ys) i \<longleftrightarrow> refers xs i \<or> refers ys i"
  by (auto simp: refers_def)

lemma refers_opt_append: "refers_opt xs i \<Longrightarrow> refers_opt (xs @ ys) i"
  by (cases i) auto

text \<open>The children of a table whose rows keep their keys, and of one that grows.\<close>

lemma same_keys [constraint_frames]:
  "map user_id us = map user_id (db_users d) \<Longrightarrow> sessions_ok (d\<lparr>db_users := us\<rparr>) = sessions_ok d"
  "map user_id us = map user_id (db_users d) \<Longrightarrow> audits_ok (d\<lparr>db_users := us\<rparr>) = audits_ok d"
  "map sw_id ws = map sw_id (db_softwares d) \<Longrightarrow> software_tags_ok (d\<lparr>db_softwares := ws\<rparr>) = software_tags_ok d"
  "map tag_id ts = map tag_id (db_tags d) \<Longrightarrow> software_tags_ok (d\<lparr>db_tags := ts\<rparr>) = software_tags_ok d"
  "map cat_id cs = map cat_id (db_categories d) \<Longrightarrow> softwares_ok (d\<lparr>db_categories := cs\<rparr>) = softwares_ok d"
  "map sw_id ws = map sw_id (db_softwares d) \<Longrightarrow> releases_ok (d\<lparr>db_softwares := ws\<rparr>) = releases_ok d"
  "map rel_id rs = map rel_id (db_releases d) \<Longrightarrow> files_ok (d\<lparr>db_releases := rs\<rparr>) = files_ok d"
  "map rf_id fs = map rf_id (db_files d) \<Longrightarrow> stats_ok (d\<lparr>db_files := fs\<rparr>) = stats_ok d"
  by (simp_all add: constraint_defs)

lemma more_keys:
  "map user_id us = map user_id (db_users d) @ ks \<Longrightarrow> sessions_ok d \<Longrightarrow> sessions_ok (d\<lparr>db_users := us\<rparr>)"
  "map user_id us = map user_id (db_users d) @ ks \<Longrightarrow> audits_ok d \<Longrightarrow> audits_ok (d\<lparr>db_users := us\<rparr>)"
  "map sw_id ws = map sw_id (db_softwares d) @ ks \<Longrightarrow> software_tags_ok d \<Longrightarrow> software_tags_ok (d\<lparr>db_softwares := ws\<rparr>)"
  "map tag_id ts = map tag_id (db_tags d) @ ks \<Longrightarrow> software_tags_ok d \<Longrightarrow> software_tags_ok (d\<lparr>db_tags := ts\<rparr>)"
  "map cat_id cs = map cat_id (db_categories d) @ ks \<Longrightarrow> softwares_ok d \<Longrightarrow> softwares_ok (d\<lparr>db_categories := cs\<rparr>)"
  "map sw_id ws = map sw_id (db_softwares d) @ ks \<Longrightarrow> releases_ok d \<Longrightarrow> releases_ok (d\<lparr>db_softwares := ws\<rparr>)"
  "map rel_id rs = map rel_id (db_releases d) @ ks \<Longrightarrow> files_ok d \<Longrightarrow> files_ok (d\<lparr>db_releases := rs\<rparr>)"
  "map rf_id fs = map rf_id (db_files d) @ ks \<Longrightarrow> stats_ok d \<Longrightarrow> stats_ok (d\<lparr>db_files := fs\<rparr>)"
  by (auto simp: constraint_defs list_all_iff refers_opt_append)

section \<open>Rows\<close>

lemma list_all_row_update:
  "list_all P rows \<Longrightarrow> P r \<Longrightarrow> list_all P (row_update key i (\<lambda>_. r) rows)"
  by (auto simp: row_update_def list_all_iff)

lemma list_all_row_add:
  "list_all P (row_add key wk r rows) \<longleftrightarrow> list_all P rows \<and> P (wk (next_id key rows) r)"
  by (auto simp: row_add_def)

lemma list_all_row_delete: "list_all P rows \<Longrightarrow> list_all P (row_delete key i rows)"
  by (auto simp: row_delete_def list_all_iff)

lemma keys_row_update: "key r = i \<Longrightarrow> map key (row_update key i (\<lambda>_. r) rows) = map key rows"
  by (auto simp: row_update_def)

lemma keys_row_add: "map key (row_add key wk r rows) = map key rows @ [key (wk (next_id key rows) r)]"
  by (simp add: row_add_def)

lemma row_get_in: "row_get key i rows = Some r \<Longrightarrow> r \<in> set rows" "row_get key i rows = Some r \<Longrightarrow> key r = i"
  by (auto dest: row_get_Some)

lemma list_all_row_get: "list_all P rows \<Longrightarrow> row_get key i rows = Some r \<Longrightarrow> P r"
  by (auto simp: list_all_iff dest: row_get_Some)

text \<open>A change that keeps the keys of every row.\<close>

lemma map_keys: "(\<And>r. key (f r) = key r) \<Longrightarrow> map key (map f rows) = map key rows"
  by simp

end
