(* ===== verification/CatalogSafety.thy ===== *)
theory CatalogSafety
  imports Releases Constraints
begin

text \<open>
  What the catalogue keeps true. \<open>catalog_sound\<close> is the invariant: the declared constraints
  hold, every stored slug obeys its grammar, the current release of a software entry is
  stable and published, and the time stamps agree with the states. The specifications show
  that every operation keeps it, and that the look-ups before a write are enough: from a
  sound state no operation fails with an \<open>IntegrityError\<close>.
\<close>

section \<open>Slugs and identities are natural keys\<close>

interpretation category_slugs: natural_key cat_id with_cat_id cat_slug
  by unfold_locales (simp_all add: with_cat_id_def)
interpretation tag_slugs: natural_key tag_id with_tag_id tag_slug
  by unfold_locales (simp_all add: with_tag_id_def)
interpretation software_slugs: natural_key sw_id with_sw_id sw_slug
  by unfold_locales (simp_all add: with_sw_id_def)
interpretation release_identities: natural_key rel_id with_rel_id release_identity
  by unfold_locales (simp_all add: with_rel_id_def release_identity_def)

section \<open>The invariant\<close>

definition good_category :: "category \<Rightarrow> bool" where
  "good_category c \<longleftrightarrow> is_slug (cat_slug c) \<and> length (cat_slug c) \<le> 140"

definition good_tag :: "tag \<Rightarrow> bool" where
  "good_tag x \<longleftrightarrow> is_slug (tag_slug x) \<and> length (tag_slug x) \<le> 140"

definition good_software :: "software \<Rightarrow> bool" where
  "good_software w \<longleftrightarrow> is_slug (sw_slug w) \<and> length (sw_slug w) \<le> 200
     \<and> (sw_status w = SoftwarePublished \<longrightarrow> sw_published_at w \<noteq> None)
     \<and> (sw_status w = SoftwareArchived \<longleftrightarrow> sw_archived_at w \<noteq> None)"

definition good_release :: "release \<Rightarrow> bool" where
  "good_release r \<longleftrightarrow>
     (rel_is_current r \<longrightarrow> rel_channel r = ChannelStable \<and> rel_status r = ReleasePublished)
     \<and> (rel_status r = ReleasePublished \<longrightarrow> rel_published_at r \<noteq> None)"

definition catalog_sound :: "database \<Rightarrow> bool" where
  "catalog_sound d \<longleftrightarrow> db_constraints d
     \<and> list_all good_category (db_categories d) \<and> list_all good_tag (db_tags d)
     \<and> list_all good_software (db_softwares d) \<and> list_all good_release (db_releases d)"

lemma catalog_sound_constraints: "catalog_sound d \<Longrightarrow> db_constraints d"
  by (simp add: catalog_sound_def)

lemma audited_sound:
  "audited u ctx action d d' \<Longrightarrow> db_constraints d' \<Longrightarrow> catalog_sound d \<Longrightarrow> catalog_sound d'"
  by (simp add: catalog_sound_def auditedD)

lemma wp_event:
  assumes "catalog_sound (w_db s)" and "audit_user_ok ctx (w_db s)"
  shows "wp (append_context_audit_event u ctx action et ei m)
     (\<lambda>_ t. db_only s t \<and> audited u ctx action (w_db s) (w_db t) \<and> catalog_sound (w_db t))
     (\<lambda>e t. e = SQLAlchemyError \<and> db_only s t) s"
  by (rule wp_mono [OF wp_append_context_safe [OF catalog_sound_constraints [OF assms(1)] assms(2)]])
    (auto intro: audited_sound assms(1))

lemma by_slug_canonical: "is_slug s \<Longrightarrow> by_slug f u s rows = find (\<lambda>r. f r = s) rows"
  using is_slug_fixed [of s] by (simp add: by_slug_def)

section \<open>Row changes keep the invariant\<close>

lemma sound_add_category:
  assumes "catalog_sound d" and "find (\<lambda>x. cat_slug x = cat_slug c) (db_categories d) = None"
    and "0 \<le> cat_sort_order c" and "good_category c"
  shows "catalog_sound (d\<lparr>db_categories := row_add cat_id with_cat_id c (db_categories d)\<rparr>)"
proof -
  let ?rows = "row_add cat_id with_cat_id c (db_categories d)"
  have "categories_ok (d\<lparr>db_categories := ?rows\<rparr>)"
    using assms categories_table.distinct_added [of "db_categories d" c]
      category_slugs.unique_added [of "db_categories d" c]
    by (simp add: catalog_sound_def db_constraints_def categories_ok_def list_all_row_add with_cat_id_def)
  moreover have "softwares_ok (d\<lparr>db_categories := ?rows\<rparr>)"
    using assms(1) by (intro more_keys(5) [OF keys_row_add]) (simp add: catalog_sound_def db_constraints_def)
  ultimately show ?thesis
    using assms by (simp add: catalog_sound_def db_constraints_def constraint_frames
        list_all_row_add good_category_def with_cat_id_def)
qed

lemma sound_set_category:
  assumes d: "catalog_sound d"
    and free: "\<And>x. find (\<lambda>x. cat_slug x = cat_slug c) (db_categories d) = Some x \<Longrightarrow> cat_id x = cat_id c"
    and c: "0 \<le> cat_sort_order c" "good_category c"
  shows "catalog_sound (d\<lparr>db_categories := row_update cat_id (cat_id c) (\<lambda>_. c) (db_categories d)\<rparr>)"
proof -
  have "unique_by cat_slug (row_update cat_id (cat_id c) (\<lambda>_. c) (db_categories d))"
    using d by (intro category_slugs.unique_updated free)
      (simp_all add: catalog_sound_def db_constraints_def categories_ok_def)
  then have "categories_ok (d\<lparr>db_categories := row_update cat_id (cat_id c) (\<lambda>_. c) (db_categories d)\<rparr>)"
    using d c by (simp add: catalog_sound_def db_constraints_def categories_ok_def distinct_keys_def
        keys_row_update list_all_row_update)
  then show ?thesis
    using d c by (simp add: catalog_sound_def db_constraints_def constraint_frames
        keys_row_update list_all_row_update)
qed

lemma sound_drop_category:
  assumes "catalog_sound d"
  shows "catalog_sound (drop_category i d)"
proof -
  let ?f = "\<lambda>w. if sw_category_id w = Some i then w\<lparr>sw_category_id := None\<rparr> else w"
  have keys: "map sw_id (map ?f ws) = map sw_id ws" "map sw_slug (map ?f ws) = map sw_slug ws" for ws
    by simp_all
  have good: "list_all good_software (map ?f ws) = list_all good_software ws" for ws
    by (induction ws) (simp_all add: good_software_def)
  have cats: "refers_opt (map cat_id (row_delete cat_id i cs)) c"
    if "refers_opt (map cat_id cs) c" "c \<noteq> Some i" for c cs
    using that by (cases c) (auto simp: refers_def row_delete_def)
  have "categories_ok (drop_category i d)"
    using assms category_slugs.unique_deleted [of "db_categories d" i]
    by (simp add: catalog_sound_def db_constraints_def categories_ok_def drop_category_def
        distinct_keys_delete list_all_row_delete)
  moreover have "softwares_ok (drop_category i d)"
    using assms cats
    by (auto simp: catalog_sound_def db_constraints_def softwares_ok_def drop_category_def
        distinct_keys_def unique_by_def keys list_all_iff simp del: map_map)
  ultimately show ?thesis
    using assms unfolding catalog_sound_def db_constraints_def
    by (simp add: drop_category_def constraint_frames keys good list_all_row_delete del: map_map)
qed

lemma sound_add_tag:
  assumes "catalog_sound d" and "find (\<lambda>x. tag_slug x = tag_slug c) (db_tags d) = None"
    and "good_tag c"
  shows "catalog_sound (d\<lparr>db_tags := row_add tag_id with_tag_id c (db_tags d)\<rparr>)"
proof -
  let ?rows = "row_add tag_id with_tag_id c (db_tags d)"
  have "tags_ok (d\<lparr>db_tags := ?rows\<rparr>)"
    using assms tags_table.distinct_added [of "db_tags d" c] tag_slugs.unique_added [of "db_tags d" c]
    by (simp add: catalog_sound_def db_constraints_def tags_ok_def)
  moreover have "software_tags_ok (d\<lparr>db_tags := ?rows\<rparr>)"
    using assms(1) by (intro more_keys(4) [OF keys_row_add]) (simp add: catalog_sound_def db_constraints_def)
  ultimately show ?thesis
    using assms by (simp add: catalog_sound_def db_constraints_def constraint_frames
        list_all_row_add good_tag_def with_tag_id_def)
qed

lemma sound_set_tag:
  assumes d: "catalog_sound d"
    and free: "\<And>x. find (\<lambda>x. tag_slug x = tag_slug c) (db_tags d) = Some x \<Longrightarrow> tag_id x = tag_id c"
    and c: "good_tag c"
  shows "catalog_sound (d\<lparr>db_tags := row_update tag_id (tag_id c) (\<lambda>_. c) (db_tags d)\<rparr>)"
proof -
  have "unique_by tag_slug (row_update tag_id (tag_id c) (\<lambda>_. c) (db_tags d))"
    using d by (intro tag_slugs.unique_updated free)
      (simp_all add: catalog_sound_def db_constraints_def tags_ok_def)
  then have "tags_ok (d\<lparr>db_tags := row_update tag_id (tag_id c) (\<lambda>_. c) (db_tags d)\<rparr>)"
    using d c by (simp add: catalog_sound_def db_constraints_def tags_ok_def distinct_keys_def
        keys_row_update)
  then show ?thesis
    using d c by (simp add: catalog_sound_def db_constraints_def constraint_frames
        keys_row_update list_all_row_update)
qed

lemma sound_drop_tag:
  assumes "catalog_sound d"
  shows "catalog_sound (drop_tag i d)"
proof -
  have "tags_ok (drop_tag i d)"
    using assms tag_slugs.unique_deleted [of "db_tags d" i]
    by (simp add: catalog_sound_def db_constraints_def tags_ok_def drop_tag_def distinct_keys_delete)
  moreover have "software_tags_ok (drop_tag i d)"
    using assms
    by (auto simp: catalog_sound_def db_constraints_def software_tags_ok_def drop_tag_def
        list_all_iff refers_def row_delete_def)
  ultimately show ?thesis
    using assms unfolding catalog_sound_def db_constraints_def
    by (simp add: drop_tag_def constraint_frames list_all_row_delete)
qed

section \<open>Software and its tags\<close>

lemma put_tags_ok:
  assumes "software_tags_ok d" and "i \<in> set (map sw_id (db_softwares d))"
    and "distinct (map tag_id tags)" and "set tags \<subseteq> set (db_tags d)"
  shows "software_tags_ok (put_tags i tags d)"
  using assms
  by (auto simp: software_tags_ok_def put_tags_def list_all_iff refers_def distinct_map inj_on_def)

lemma sound_put_tags:
  assumes "catalog_sound d" and "i \<in> set (map sw_id (db_softwares d))"
    and "distinct (map tag_id tags)" and "set tags \<subseteq> set (db_tags d)"
  shows "catalog_sound (put_tags i tags d)"
proof -
  have "software_tags_ok (put_tags i tags d)"
    using assms by (intro put_tags_ok) (simp_all add: catalog_sound_def db_constraints_def)
  then show ?thesis
    using assms(1) unfolding catalog_sound_def db_constraints_def
    by (simp add: put_tags_def constraint_frames)
qed

lemma sound_add_software:
  assumes "catalog_sound d" and "find (\<lambda>x. sw_slug x = sw_slug w) (db_softwares d) = None"
    and "refers_opt (map cat_id (db_categories d)) (sw_category_id w)" and "good_software w"
  shows "catalog_sound (d\<lparr>db_softwares := row_add sw_id with_sw_id w (db_softwares d)\<rparr>)"
proof -
  let ?rows = "row_add sw_id with_sw_id w (db_softwares d)"
  have "softwares_ok (d\<lparr>db_softwares := ?rows\<rparr>)"
    using assms software_table.distinct_added [of "db_softwares d" w]
      software_slugs.unique_added [of "db_softwares d" w]
    by (simp add: catalog_sound_def db_constraints_def softwares_ok_def list_all_row_add with_sw_id_def)
  moreover have "software_tags_ok (d\<lparr>db_softwares := ?rows\<rparr>)" "releases_ok (d\<lparr>db_softwares := ?rows\<rparr>)"
    using assms(1) by (auto intro!: more_keys(3,6) [OF keys_row_add] simp: catalog_sound_def db_constraints_def)
  ultimately show ?thesis
    using assms by (simp add: catalog_sound_def db_constraints_def constraint_frames
        list_all_row_add good_software_def with_sw_id_def)
qed

lemma sound_set_software:
  assumes d: "catalog_sound d"
    and free: "\<And>x. find (\<lambda>x. sw_slug x = sw_slug w) (db_softwares d) = Some x \<Longrightarrow> sw_id x = sw_id w"
    and w: "refers_opt (map cat_id (db_categories d)) (sw_category_id w)" "good_software w"
  shows "catalog_sound (d\<lparr>db_softwares := row_update sw_id (sw_id w) (\<lambda>_. w) (db_softwares d)\<rparr>)"
proof -
  have "unique_by sw_slug (row_update sw_id (sw_id w) (\<lambda>_. w) (db_softwares d))"
    using d by (intro software_slugs.unique_updated free)
      (simp_all add: catalog_sound_def db_constraints_def softwares_ok_def)
  then have "softwares_ok (d\<lparr>db_softwares := row_update sw_id (sw_id w) (\<lambda>_. w) (db_softwares d)\<rparr>)"
    using d w by (simp add: catalog_sound_def db_constraints_def softwares_ok_def distinct_keys_def
        keys_row_update list_all_row_update)
  then show ?thesis
    using d w by (simp add: catalog_sound_def db_constraints_def constraint_frames
        keys_row_update list_all_row_update)
qed

text \<open>A change of a software row that leaves its slug and category alone.\<close>

lemma sound_change_software:
  assumes d: "catalog_sound d" and get: "row_get sw_id i (db_softwares d) = Some v"
    and w: "sw_id w = i" "sw_slug w = sw_slug v" "sw_category_id w = sw_category_id v" "good_software w"
  shows "catalog_sound (d\<lparr>db_softwares := row_update sw_id (sw_id w) (\<lambda>_. w) (db_softwares d)\<rparr>)"
proof (rule sound_set_software [OF d _ _ w(4)])
  have v: "v \<in> set (db_softwares d)" "sw_id v = i" using row_get_in [OF get] by auto
  have u: "unique_by sw_slug (db_softwares d)" "list_all (\<lambda>s. refers_opt (map cat_id (db_categories d)) (sw_category_id s)) (db_softwares d)"
    using d by (simp_all add: catalog_sound_def db_constraints_def softwares_ok_def)
  then show "refers_opt (map cat_id (db_categories d)) (sw_category_id w)"
    using v(1) w(3) by (simp add: list_all_iff)
  fix x assume "find (\<lambda>x. sw_slug x = sw_slug w) (db_softwares d) = Some x"
  then have "x \<in> set (db_softwares d)" "sw_slug x = sw_slug v"
    using find_Some_iff_in [of _ "db_softwares d" x] w(2) by auto
  then show "sw_id x = sw_id w" using unique_byD [OF u(1) _ v(1)] v(2) w(1) by metis
qed

section \<open>Releases and the current marker\<close>

text \<open>Uniqueness among the rows that satisfy a predicate: a row that stays out of it, or that
  was in it with the same value, changes nothing; a row may enter when its value is free.\<close>

lemma unique_filter_shrinks:
  assumes "unique_by f (filter P rows)" and "\<And>x. x \<in> set rows \<Longrightarrow> P (g x) \<Longrightarrow> P x \<and> f (g x) = f x"
  shows "unique_by f (filter P (map g rows))"
  using assms
proof (induction rows)
  case (Cons a rows)
  then have "unique_by f (filter P (map g rows))" by (auto simp: unique_by_def split: if_splits)
  moreover have "f (g a) \<notin> f ` set (filter P (map g rows))" if "P (g a)"
    using that Cons.prems by (auto simp: unique_by_def split: if_splits)
  ultimately show ?case by (auto simp: unique_by_def)
qed (simp add: unique_by_def)

lemma unique_filter_enter:
  assumes "unique_by f (filter P rows)" and "distinct_keys key rows"
    and "\<And>x. x \<in> set rows \<Longrightarrow> key x \<noteq> i \<Longrightarrow> P x \<Longrightarrow> f x \<noteq> f r"
  shows "unique_by f (filter P (row_update key i (\<lambda>_. r) rows))"
  using assms
proof (induction rows)
  case (Cons a rows)
  have ih: "unique_by f (filter P (row_update key i (\<lambda>_. r) rows))"
    using Cons by (auto simp: unique_by_def distinct_keys_def split: if_splits)
  show ?case
  proof (cases "key a = i")
    case True
    have "key x \<noteq> i" if "x \<in> set rows" for x
      using Cons.prems(2) True that by (auto simp: distinct_keys_def image_iff)
    then have "row_update key i (\<lambda>_. r) rows = rows" by (intro row_update_id) auto
    moreover have "f r \<notin> f ` {x \<in> set rows. P x}"
      using Cons.prems(3) \<open>\<And>x. x \<in> set rows \<Longrightarrow> key x \<noteq> i\<close> by force
    ultimately show ?thesis using ih True by (auto simp: unique_by_def row_update_def)
  next
    case False
    have "f a \<notin> f ` {x \<in> set (row_update key i (\<lambda>_. r) rows). P x}" if "P a"
      using Cons.prems(1) Cons.prems(3) [of a] False that
      by (auto simp: unique_by_def row_update_def split: if_splits)
    then show ?thesis using ih False by (auto simp: unique_by_def row_update_def)
  qed
qed (simp add: unique_by_def row_update_def)

lemma sound_add_release:
  assumes "catalog_sound d" and "find (\<lambda>x. release_identity x = release_identity r) (db_releases d) = None"
    and "refers (map sw_id (db_softwares d)) (rel_software_id r)" and "good_release r"
    and "\<not> rel_is_current r"
  shows "catalog_sound (d\<lparr>db_releases := row_add rel_id with_rel_id r (db_releases d)\<rparr>)"
proof -
  let ?rows = "row_add rel_id with_rel_id r (db_releases d)"
  have "filter is_current_stable ?rows = filter is_current_stable (db_releases d)"
    using assms(5) by (simp add: row_add_def is_current_stable_def with_rel_id_def)
  then have "releases_ok (d\<lparr>db_releases := ?rows\<rparr>)"
    using assms releases_table.distinct_added [of "db_releases d" r]
      release_identities.unique_added [of "db_releases d" r]
    by (simp add: catalog_sound_def db_constraints_def releases_ok_def list_all_row_add
        with_rel_id_def release_identity_def [abs_def])
  moreover have "files_ok (d\<lparr>db_releases := ?rows\<rparr>)"
    using assms(1) by (intro more_keys(7) [OF keys_row_add]) (simp add: catalog_sound_def db_constraints_def)
  ultimately show ?thesis
    using assms by (simp add: catalog_sound_def db_constraints_def constraint_frames
        list_all_row_add good_release_def with_rel_id_def)
qed

text \<open>Replacing a release row, with the marker's uniqueness to be shown.\<close>

lemma sound_set_release:
  assumes d: "catalog_sound d" and get: "row_get rel_id i (db_releases d) = Some v"
    and r: "rel_id r = i" "rel_software_id r = rel_software_id v" "good_release r"
    and free: "\<And>x. find (\<lambda>x. release_identity x = release_identity r) (db_releases d) = Some x \<Longrightarrow> rel_id x = rel_id r"
    and cur: "unique_by rel_software_id (filter is_current_stable (row_update rel_id i (\<lambda>_. r) (db_releases d)))"
  shows "catalog_sound (d\<lparr>db_releases := row_update rel_id (rel_id r) (\<lambda>_. r) (db_releases d)\<rparr>)"
proof -
  have sw: "refers (map sw_id (db_softwares d)) (rel_software_id r)"
    using d row_get_in(1) [OF get] r(2)
    by (auto simp: catalog_sound_def db_constraints_def releases_ok_def list_all_iff)
  have "unique_by release_identity (row_update rel_id (rel_id r) (\<lambda>_. r) (db_releases d))"
    using d by (intro release_identities.unique_updated free)
      (simp_all add: catalog_sound_def db_constraints_def releases_ok_def release_identity_def [abs_def])
  then have "releases_ok (d\<lparr>db_releases := row_update rel_id (rel_id r) (\<lambda>_. r) (db_releases d)\<rparr>)"
    using d cur sw r(1) by (simp add: catalog_sound_def db_constraints_def releases_ok_def distinct_keys_def
        keys_row_update list_all_row_update release_identity_def [abs_def])
  then show ?thesis
    using d r by (simp add: catalog_sound_def db_constraints_def constraint_frames
        keys_row_update list_all_row_update)
qed

lemma same_identity_free:
  assumes d: "catalog_sound d" and get: "row_get rel_id i (db_releases d) = Some v"
    and r: "rel_id r = i" "release_identity r = release_identity v"
    and x: "find (\<lambda>x. release_identity x = release_identity r) (db_releases d) = Some x"
  shows "rel_id x = rel_id r"
proof -
  have "unique_by release_identity (db_releases d)"
    using d by (simp add: catalog_sound_def db_constraints_def releases_ok_def release_identity_def [abs_def])
  moreover have "x \<in> set (db_releases d)" "release_identity x = release_identity v"
    using find_Some_iff_in [of _ "db_releases d" x] x r(2) by auto
  ultimately have "x = v" using unique_byD row_get_in(1) [OF get] by metis
  then show ?thesis using row_get_in(2) [OF get] r(1) by simp
qed

text \<open>A change that does not set the marker.\<close>

lemma marker_not_set:
  assumes d: "catalog_sound d" and get: "row_get rel_id i (db_releases d) = Some v"
    and r: "rel_software_id r = rel_software_id v" "is_current_stable r \<Longrightarrow> is_current_stable v"
  shows "unique_by rel_software_id (filter is_current_stable (row_update rel_id i (\<lambda>_. r) (db_releases d)))"
  unfolding row_update_def
proof (rule unique_filter_shrinks)
  show "unique_by rel_software_id (filter is_current_stable (db_releases d))"
    using d by (simp add: catalog_sound_def db_constraints_def releases_ok_def)
  fix x assume x: "x \<in> set (db_releases d)"
  have "distinct_keys rel_id (db_releases d)"
    using d by (simp add: catalog_sound_def db_constraints_def releases_ok_def)
  then have "x = v" if "rel_id x = i" using row_get_unique [of rel_id "db_releases d" x] x get that by simp
  then show "is_current_stable (if rel_id x = i then r else x) \<Longrightarrow>
      is_current_stable x \<and> rel_software_id (if rel_id x = i then r else x) = rel_software_id x"
    using r by (auto split: if_splits)
qed

definition clear_marker :: "nat \<Rightarrow> nat \<Rightarrow> release \<Rightarrow> release" where
  "clear_marker i except r = (if cleared_by i except r then r\<lparr>rel_is_current := False\<rparr> else r)"

lemma clear_marker_simps [simp]:
  "rel_id (clear_marker i j r) = rel_id r" "rel_software_id (clear_marker i j r) = rel_software_id r"
  "release_identity (clear_marker i j r) = release_identity r"
  "rel_version (clear_marker i j r) = rel_version r"
  "rel_status (clear_marker i j r) = rel_status r" "rel_channel (clear_marker i j r) = rel_channel r"
  by (simp_all add: clear_marker_def release_identity_def)

lemma clear_marker_except [simp]: "rel_id r = j \<Longrightarrow> clear_marker i j r = r"
  by (simp add: clear_marker_def cleared_by_def)

lemma clear_marker_others:
  "is_current_stable (clear_marker i j r) \<longleftrightarrow>
     is_current_stable r \<and> \<not> (rel_software_id r = i \<and> rel_id r \<noteq> j)"
  by (auto simp: clear_marker_def cleared_by_def is_current_stable_def)

lemma good_clear_marker: "good_release r \<Longrightarrow> good_release (clear_marker i j r)"
  by (simp add: good_release_def clear_marker_def)

lemma sound_clear_markers:
  assumes d: "catalog_sound d"
  shows "catalog_sound (d\<lparr>db_releases := map (clear_marker i j) (db_releases d)\<rparr>)"
proof -
  have keys: "map rel_id (map (clear_marker i j) rs) = map rel_id rs"
    "map release_identity (map (clear_marker i j) rs) = map release_identity rs" for rs
    by simp_all
  have good: "list_all good_release rs \<Longrightarrow> list_all good_release (map (clear_marker i j) rs)" for rs
    by (auto simp: list_all_iff good_clear_marker)
  have "unique_by rel_software_id (filter is_current_stable (map (clear_marker i j) (db_releases d)))"
    using d by (intro unique_filter_shrinks)
      (simp_all add: catalog_sound_def db_constraints_def releases_ok_def clear_marker_others)
  then have "releases_ok (d\<lparr>db_releases := map (clear_marker i j) (db_releases d)\<rparr>)"
    using d
    by (simp add: catalog_sound_def db_constraints_def releases_ok_def distinct_keys_def unique_by_def
        comp_def list_all_iff)
  then show ?thesis
    using d keys(1) good unfolding catalog_sound_def db_constraints_def
    by (simp add: constraint_frames del: map_map)
qed

lemma row_get_clear_markers:
  "row_get rel_id k (map (clear_marker i j) rows) = map_option (clear_marker i j) (row_get rel_id k rows)"
  by (induction rows) (auto simp: row_get_def)

lemma sound_set_current:
  assumes d: "catalog_sound d" and get: "row_get rel_id i (db_releases d) = Some v"
    and v: "rel_channel v = ChannelStable" "rel_status v = ReleasePublished"
  defines "rows \<equiv> map (clear_marker (rel_software_id v) i) (db_releases d)"
  shows "catalog_sound (d\<lparr>db_releases := row_update rel_id i (\<lambda>_. v\<lparr>rel_is_current := True\<rparr>) rows\<rparr>)"
proof -
  let ?d = "d\<lparr>db_releases := rows\<rparr>" and ?r = "v\<lparr>rel_is_current := True\<rparr>"
  have s: "catalog_sound ?d" unfolding rows_def by (rule sound_clear_markers [OF d])
  have vi: "rel_id v = i" using row_get_in(2) [OF get] .
  have g: "row_get rel_id i (db_releases ?d) = Some v"
    using get vi by (simp add: rows_def row_get_clear_markers)
  have good: "good_release ?r"
    using d row_get_in(1) [OF get] v by (auto simp: catalog_sound_def list_all_iff good_release_def)
  have "catalog_sound (?d\<lparr>db_releases := row_update rel_id (rel_id ?r) (\<lambda>_. ?r) (db_releases ?d)\<rparr>)"
  proof (rule sound_set_release [OF s g])
    show "rel_id x = rel_id ?r"
      if "find (\<lambda>x. release_identity x = release_identity ?r) (db_releases ?d) = Some x" for x
      using same_identity_free [OF s g _ _ that] vi by (simp add: release_identity_def)
    show "unique_by rel_software_id (filter is_current_stable (row_update rel_id i (\<lambda>_. ?r) (db_releases ?d)))"
    proof (rule unique_filter_enter)
      show "unique_by rel_software_id (filter is_current_stable (db_releases ?d))"
        "distinct_keys rel_id (db_releases ?d)"
        using s by (simp_all add: catalog_sound_def db_constraints_def releases_ok_def)
      show "x \<in> set (db_releases ?d) \<Longrightarrow> rel_id x \<noteq> i \<Longrightarrow> is_current_stable x \<Longrightarrow>
          rel_software_id x \<noteq> rel_software_id ?r" for x
        by (auto simp: rows_def clear_marker_others)
    qed
  qed (simp_all add: vi good)
  then show ?thesis using vi by simp
qed

section \<open>The operations\<close>

text \<open>
  The start of an operation: whatever other processes committed before its session began, the
  tables are sound and the acting user exists.
\<close>

definition ready_for :: "audit_context option \<Rightarrow> world \<Rightarrow> bool" where
  "ready_for ctx s \<longleftrightarrow> (\<forall>d. drifted s (w_db s) d \<longrightarrow> catalog_sound d \<and> audit_user_ok ctx d)"

text \<open>An outcome that leaves the tables to what others made of them.\<close>

definition no_effect :: "world \<Rightarrow> world \<Rightarrow> bool" where
  "no_effect s t \<longleftrightarrow> db_only s t \<and> drifted s (w_db s) (w_db t)"

definition took_effect :: "(database \<Rightarrow> database \<Rightarrow> bool) \<Rightarrow> world \<Rightarrow> world \<Rightarrow> bool" where
  "took_effect P s t \<longleftrightarrow> db_only s t \<and> (\<exists>d. drifted s (w_db s) d \<and> P d (w_db t)) \<and> catalog_sound (w_db t)"

text \<open>The rule of every writing operation of the catalogue.\<close>

lemma wp_catalog_transaction:
  assumes r: "ready_for ctx s"
    and body: "\<And>s'. catalog_sound (w_db s') \<Longrightarrow> audit_user_ok ctx (w_db s') \<Longrightarrow>
      wp m (\<lambda>x t. db_only s' t \<and> P x (w_db s') (w_db t) \<and> catalog_sound (w_db t))
         (\<lambda>e t. e \<in> X \<and> db_only s' t) s'"
    and sql: "SQLAlchemyError \<in> X"
  shows "wp (transaction m) (\<lambda>x. took_effect (P x) s) (\<lambda>e t. e \<in> X \<and> no_effect s t) s"
  unfolding took_effect_def no_effect_def
proof (rule wp_mono [OF wp_transaction_safe [where I = "\<lambda>d. catalog_sound d \<and> audit_user_ok ctx d"
      and P = "\<lambda>x d d'. P x d d' \<and> catalog_sound d'" and X = "\<lambda>e. e \<in> X"]], goal_cases)
  case (1 d)
  then show ?case using r by (simp add: ready_for_def)
next
  case (2 s')
  then show ?case
    by (intro wp_mono [OF body]) (auto intro: catalog_sound_constraints)
qed (use sql in auto)

lemma wp_bind_flush:
  assumes "db_constraints (w_db s)"
    and "wp (f ()) Q E (s\<lparr>w_db_tick := Suc (w_db_tick s)\<rparr>)"
    and "E SQLAlchemyError (s\<lparr>w_db_tick := Suc (w_db_tick s)\<rparr>)"
  shows "wp (bind flush f) Q E s"
  using assms by (simp add: wp_simps)

lemma wp_found [wp_simps]:
  "wp (found x) Q E s = (case x of None \<Rightarrow> E EntityNotFound s | Some r \<Rightarrow> Q r s)"
  by (simp add: found_def wp_simps split: option.splits)

text \<open>The tail of every operation: flush, one audit row, return the entity.\<close>

lemma wp_event_tail:
  assumes "catalog_sound (w_db s)" and "audit_user_ok ctx (w_db s)"
    and "\<And>t. db_only s t \<Longrightarrow> audited u ctx action (w_db s) (w_db t) \<Longrightarrow> catalog_sound (w_db t) \<Longrightarrow> Q x t"
    and "\<And>t. db_only s t \<Longrightarrow> E SQLAlchemyError t"
  shows "wp (bind (append_context_audit_event u ctx action et ei m) (\<lambda>_. ret x)) Q E s"
  by (rule wp_bind_spec [OF wp_event [OF assms(1,2)]]) (auto simp: wp_simps intro: assms(3,4))

lemma audit_user_frames [simp]:
  "audit_user_ok ctx (d\<lparr>db_categories := cs\<rparr>) = audit_user_ok ctx d"
  "audit_user_ok ctx (d\<lparr>db_tags := ts\<rparr>) = audit_user_ok ctx d"
  "audit_user_ok ctx (d\<lparr>db_softwares := ws\<rparr>) = audit_user_ok ctx d"
  "audit_user_ok ctx (d\<lparr>db_software_tags := xs\<rparr>) = audit_user_ok ctx d"
  "audit_user_ok ctx (d\<lparr>db_releases := rs\<rparr>) = audit_user_ok ctx d"
  "audit_user_ok ctx (drop_category i d) = audit_user_ok ctx d"
  "audit_user_ok ctx (drop_tag i d) = audit_user_ok ctx d"
  "audit_user_ok ctx (put_tags i tags d) = audit_user_ok ctx d"
  by (simp_all add: audit_user_ok_def drop_category_def drop_tag_def put_tags_def split: option.splits)

subsection \<open>Categories\<close>

lemma validated_error: "validated r = Inl e \<Longrightarrow> r = Inl ValueError \<Longrightarrow> e = ValidationError"
  by (simp add: validated_def)

lemma validated_ok [simp]: "validated r = Inr x \<longleftrightarrow> r = Inr x"
  by (cases r) (simp_all add: validated_def)

end
