(* ===== verification/CatalogSpecs.thy ===== *)
theory CatalogSpecs
  imports CatalogSafety
begin

text \<open>
  What each operation of the catalogue services does, on success and on failure, from tables
  that satisfy the invariant.
\<close>

section \<open>Input\<close>

lemma normalize_name_error: "normalize_name v n = Inl e \<Longrightarrow> e = ValueError"
  by (auto simp: normalize_name_def Let_def rbind_eq_Inl split: if_splits)

lemma normalize_slug_error: "normalize_slug u v n fb = Inl e \<Longrightarrow> e = ValueError"
  by (auto simp: normalize_slug_def Let_def rbind_eq_Inl dest: generate_slug_error
      split: if_splits option.splits)

lemma normalize_optional_text_error: "normalize_optional_text v n = Inl e \<Longrightarrow> e = ValueError"
  by (auto simp: normalize_optional_text_def Let_def rbind_eq_Inl split: if_splits option.splits)

lemma urlsplit_error: "urlsplit ok v = Inl e \<Longrightarrow> e = ValueError"
  by (auto simp: urlsplit_def Let_def rbind_eq_Inl split: if_splits option.splits prod.splits)

lemma normalize_http_url_error: "normalize_http_url ok v n = Inl e \<Longrightarrow> e = ValueError"
  by (auto simp: normalize_http_url_def Let_def rbind_eq_Inl
      dest: urlsplit_error normalize_optional_text_error split: if_splits option.splits)

lemmas input_errors = normalize_name_error normalize_slug_error normalize_optional_text_error
  normalize_http_url_error

lemma validated_Inl: "validated r = Inl e \<Longrightarrow> (\<And>e. r = Inl e \<Longrightarrow> e = ValueError) \<Longrightarrow> e = ValidationError"
  by (cases r) (auto simp: validated_def)

lemma category_fields_error: "category_fields u n s ds so = Inl e \<Longrightarrow> e = ValidationError"
  unfolding category_fields_def rbind_eq_Inl
  by (auto dest!: validated_Inl simp: rbind_eq_Inl dest: input_errors)

lemma category_fields_ok:
  "category_fields u n s ds so = Inr (n', s', ds') \<Longrightarrow> is_slug s' \<and> length s' \<le> 140 \<and> 0 \<le> so"
  by (auto simp: category_fields_def rbind_eq_Inr dest: normalize_slug_ok)

lemma tag_fields_error: "tag_fields u n s = Inl e \<Longrightarrow> e = ValidationError"
  unfolding tag_fields_def
  by (auto dest!: validated_Inl simp: rbind_eq_Inl dest: input_errors)

lemma tag_fields_ok: "tag_fields u n s = Inr (n', s') \<Longrightarrow> is_slug s' \<and> length s' \<le> 140"
  by (auto simp: tag_fields_def rbind_eq_Inr dest: normalize_slug_ok)

lemma software_fields_error: "normalize_software_fields u ok x = Inl e \<Longrightarrow> e = ValidationError"
  unfolding normalize_software_fields_def
  by (auto dest!: validated_Inl simp: rbind_eq_Inl Let_def dest: input_errors)

lemma software_fields_ok:
  "normalize_software_fields u ok x = Inr y \<Longrightarrow> is_slug (in_slug y) \<and> length (in_slug y) \<le> 200"
  by (auto simp: normalize_software_fields_def rbind_eq_Inr Let_def dest: normalize_slug_ok)

section \<open>Categories\<close>

definition catalog_errors :: "exn set" where
  "catalog_errors = {ValidationError, EntityNotFound, EntityConflict, InvalidStateTransition, SQLAlchemyError}"

lemma catalog_errors_in [simp]:
  "ValidationError \<in> catalog_errors" "EntityNotFound \<in> catalog_errors"
  "EntityConflict \<in> catalog_errors" "InvalidStateTransition \<in> catalog_errors"
  "SQLAlchemyError \<in> catalog_errors"
  by (simp_all add: catalog_errors_def)

definition category_created ::
  "unicode \<Rightarrow> audit_context option \<Rightarrow> category \<Rightarrow> category \<Rightarrow> database \<Rightarrow> database \<Rightarrow> bool" where
  "category_created u ctx c x d d' \<longleftrightarrow>
     x = with_cat_id (next_id cat_id (db_categories d)) c
     \<and> find (\<lambda>y. cat_slug y = cat_slug c) (db_categories d) = None
     \<and> audited u ctx CATEGORY_CREATED
         (d\<lparr>db_categories := row_add cat_id with_cat_id c (db_categories d)\<rparr>) d'"

lemma no_effect_refl [simp]: "no_effect s s"
  by (simp add: no_effect_def)

text \<open>How the body of an operation ends: the audit row, then the entity is returned.\<close>

lemma wp_event_end:
  assumes "catalog_sound (w_db t0)" and "audit_user_ok ctx (w_db t0)" and "db_only s t0"
    and "\<And>d'. audited u ctx action (w_db t0) d' \<Longrightarrow> P x d'"
  shows "wp (append_context_audit_event u ctx action et ei m)
     (\<lambda>_. wp (ret x) (\<lambda>x t. db_only s t \<and> P x (w_db t) \<and> catalog_sound (w_db t))
            (\<lambda>e t. e \<in> catalog_errors \<and> db_only s t))
     (\<lambda>e t. e \<in> catalog_errors \<and> db_only s t) t0"
  by (rule wp_mono [OF wp_event [OF assms(1,2)]])
    (auto simp: wp_simps intro: assms(4) db_only_trans [OF assms(3)])

lemma wp_event_last:
  assumes "catalog_sound (w_db t0)" and "audit_user_ok ctx (w_db t0)" and "db_only s t0"
    and "\<And>d'. audited u ctx action (w_db t0) d' \<Longrightarrow> P d'"
  shows "wp (append_context_audit_event u ctx action et ei m)
     (\<lambda>x t. db_only s t \<and> P (w_db t) \<and> catalog_sound (w_db t))
     (\<lambda>e t. e \<in> catalog_errors \<and> db_only s t) t0"
  by (rule wp_mono [OF wp_event [OF assms(1,2)]])
    (auto intro: assms(4) db_only_trans [OF assms(3)])

lemmas transaction_spec = wp_mono [OF wp_catalog_transaction [where X = catalog_errors]]

lemma wp_create_category:
  assumes r: "ready_for ctx s"
  shows "wp (create_category u name slug ds so vis ctx)
     (\<lambda>x t. \<exists>n sl ds'. category_fields u name slug ds so = Inr (n, sl, ds')
        \<and> took_effect (category_created u ctx \<lparr>cat_id = 0, cat_name = n, cat_slug = sl,
             cat_description = ds', cat_sort_order = so, cat_is_visible = vis\<rparr> x) s t)
     (\<lambda>e t. e \<in> catalog_errors \<and> no_effect s t) s"
  unfolding create_category_def
proof (rule wp_bind_lift, clarify, goal_cases)
  case (1 n sl ds')
  let ?c = "\<lparr>cat_id = 0, cat_name = n, cat_slug = sl, cat_description = ds', cat_sort_order = so,
    cat_is_visible = vis\<rparr>"
  have ok: "is_slug sl" "0 \<le> so" "good_category ?c"
    using category_fields_ok [OF 1] by (auto simp: good_category_def)
  show ?case
  proof (rule transaction_spec [OF r, where P = "category_created u ctx ?c"], goal_cases)
    case (1 s')
    have sound: "catalog_sound (w_db s'\<lparr>db_categories := row_add cat_id with_cat_id ?c (db_categories (w_db s'))\<rparr>)"
      if "find (\<lambda>r. cat_slug r = sl) (db_categories (w_db s')) = None"
      using that ok by (intro sound_add_category [OF 1(1)]) simp_all
    then show ?case
      by (auto simp: category_get_by_slug_def add_category_def category_event_def wp_simps
          by_slug_canonical [OF ok(1)] catalog_sound_constraints 1(2)
          intro!: wp_event_end [where P = "\<lambda>x. category_created u ctx ?c x (w_db s')"])
        (auto simp: category_created_def)
  qed (use 1 in auto)
qed (auto dest: category_fields_error)

definition category_updated ::
  "unicode \<Rightarrow> audit_context option \<Rightarrow> nat \<Rightarrow> (category \<Rightarrow> category) \<Rightarrow> category \<Rightarrow> database \<Rightarrow> database \<Rightarrow> bool" where
  "category_updated u ctx i f x d d' \<longleftrightarrow>
     (\<exists>c. row_get cat_id i (db_categories d) = Some c \<and> x = f c)
     \<and> audited u ctx CATEGORY_UPDATED
         (d\<lparr>db_categories := row_update cat_id i (\<lambda>_. x) (db_categories d)\<rparr>) d'"

definition category_edit :: "str \<Rightarrow> str \<Rightarrow> str option \<Rightarrow> int \<Rightarrow> bool \<Rightarrow> category \<Rightarrow> category" where
  "category_edit n sl ds so vis c = c\<lparr>cat_name := n, cat_slug := sl, cat_description := ds,
     cat_sort_order := so, cat_is_visible := vis\<rparr>"

lemma category_edit_simps [simp]:
  "cat_id (category_edit n sl ds so vis c) = cat_id c"
  "cat_slug (category_edit n sl ds so vis c) = sl"
  "cat_sort_order (category_edit n sl ds so vis c) = so"
  by (simp_all add: category_edit_def)

lemma wp_update_category:
  assumes r: "ready_for ctx s"
  shows "wp (update_category u i name slug ds so vis ctx)
     (\<lambda>x t. \<exists>n sl ds'. category_fields u name slug ds so = Inr (n, sl, ds')
        \<and> took_effect (category_updated u ctx i (category_edit n sl ds' so vis) x) s t)
     (\<lambda>e t. e \<in> catalog_errors \<and> no_effect s t) s"
  unfolding update_category_def category_edit_def [symmetric]
proof (rule wp_bind_lift, clarify, goal_cases)
  case (1 n sl ds')
  let ?f = "category_edit n sl ds' so vis"
  have ok: "is_slug sl" "0 \<le> so" "length sl \<le> 140"
    using category_fields_ok [OF 1] by auto
  show ?case
  proof (rule transaction_spec [OF r, where P = "category_updated u ctx i ?f"], goal_cases)
    case (1 s')
    have sound: "catalog_sound (w_db s'\<lparr>db_categories :=
        row_update cat_id (cat_id c) (\<lambda>_. ?f c) (db_categories (w_db s'))\<rparr>)"
      if "find (\<lambda>r. cat_slug r = sl) (db_categories (w_db s')) = None \<or>
          cat_id (the (find (\<lambda>r. cat_slug r = sl) (db_categories (w_db s')))) = cat_id c" for c
      using that ok by (intro sound_set_category [OF 1(1), of "?f c", simplified])
        (auto simp: good_category_def)
    show ?case
      by (auto simp: category_get_by_slug_def set_category_def category_event_def wp_simps
          by_slug_canonical [OF ok(1)] catalog_sound_constraints 1(2) sound split: option.splits
          intro!: wp_event_end [where P = "\<lambda>x. category_updated u ctx i ?f x (w_db s')"])
        (auto simp: category_updated_def dest: row_get_in)
  qed (use 1 in auto)
qed (auto dest: category_fields_error)

definition category_deleted ::
  "unicode \<Rightarrow> audit_context option \<Rightarrow> nat \<Rightarrow> unit \<Rightarrow> database \<Rightarrow> database \<Rightarrow> bool" where
  "category_deleted u ctx i x d d' \<longleftrightarrow> row_get cat_id i (db_categories d) \<noteq> None
     \<and> audited u ctx CATEGORY_DELETED (drop_category i d) d'"

lemma wp_delete_category:
  assumes r: "ready_for ctx s"
  shows "wp (delete_category u i ctx) (\<lambda>x. took_effect (category_deleted u ctx i x) s)
     (\<lambda>e t. e \<in> catalog_errors \<and> no_effect s t) s"
  unfolding delete_category_def
proof (rule transaction_spec [OF r, where P = "category_deleted u ctx i"], goal_cases)
  case (1 s')
  show ?case
    by (auto simp: category_event_def wp_simps catalog_sound_constraints sound_drop_category [OF 1(1)]
        1(2) split: option.splits
        intro!: wp_event_last [where P = "category_deleted u ctx i () (w_db s')"])
      (auto simp: category_deleted_def dest: row_get_in)
qed auto

lemma wp_read_row:
  "wp (read_session (bind (query f) found))
     (\<lambda>x t. no_effect s t \<and> f (w_db t) = Some x)
     (\<lambda>e t. e \<in> catalog_errors \<and> no_effect s t) s"
  unfolding no_effect_def
  by (rule wp_mono [OF wp_read_session [where P = "\<lambda>x d. f d = Some x" and X = "\<lambda>e d. e \<in> catalog_errors"]])
    (auto simp: wp_simps split: option.splits)

section \<open>Tags\<close>

definition tag_created ::
  "unicode \<Rightarrow> audit_context option \<Rightarrow> tag \<Rightarrow> tag \<Rightarrow> database \<Rightarrow> database \<Rightarrow> bool" where
  "tag_created u ctx c x d d' \<longleftrightarrow>
     x = with_tag_id (next_id tag_id (db_tags d)) c
     \<and> find (\<lambda>y. tag_slug y = tag_slug c) (db_tags d) = None
     \<and> audited u ctx TAG_CREATED (d\<lparr>db_tags := row_add tag_id with_tag_id c (db_tags d)\<rparr>) d'"

lemma wp_create_tag:
  assumes r: "ready_for ctx s"
  shows "wp (create_tag u name slug ctx)
     (\<lambda>x t. \<exists>n sl. tag_fields u name slug = Inr (n, sl)
        \<and> took_effect (tag_created u ctx \<lparr>tag_id = 0, tag_name = n, tag_slug = sl\<rparr> x) s t)
     (\<lambda>e t. e \<in> catalog_errors \<and> no_effect s t) s"
  unfolding create_tag_def
proof (rule wp_bind_lift, clarify, goal_cases)
  case (1 n sl)
  let ?c = "\<lparr>tag_id = 0, tag_name = n, tag_slug = sl\<rparr>"
  have ok: "is_slug sl" "good_tag ?c" using tag_fields_ok [OF 1] by (auto simp: good_tag_def)
  show ?case
  proof (rule transaction_spec [OF r, where P = "tag_created u ctx ?c"], goal_cases)
    case (1 s')
    have "catalog_sound (w_db s'\<lparr>db_tags := row_add tag_id with_tag_id ?c (db_tags (w_db s'))\<rparr>)"
      if "find (\<lambda>r. tag_slug r = sl) (db_tags (w_db s')) = None"
      using that ok by (intro sound_add_tag [OF 1(1)]) simp_all
    then show ?case
      by (auto simp: tag_get_by_slug_def add_tag_def tag_event_def wp_simps
          by_slug_canonical [OF ok(1)] catalog_sound_constraints 1(2)
          intro!: wp_event_end [where P = "\<lambda>x. tag_created u ctx ?c x (w_db s')"])
        (auto simp: tag_created_def)
  qed (use 1 in auto)
qed (auto dest: tag_fields_error)

definition tag_updated ::
  "unicode \<Rightarrow> audit_context option \<Rightarrow> nat \<Rightarrow> (tag \<Rightarrow> tag) \<Rightarrow> tag \<Rightarrow> database \<Rightarrow> database \<Rightarrow> bool" where
  "tag_updated u ctx i f x d d' \<longleftrightarrow>
     (\<exists>c. row_get tag_id i (db_tags d) = Some c \<and> x = f c)
     \<and> audited u ctx TAG_UPDATED (d\<lparr>db_tags := row_update tag_id i (\<lambda>_. x) (db_tags d)\<rparr>) d'"

lemma wp_update_tag:
  assumes r: "ready_for ctx s"
  shows "wp (update_tag u i name slug ctx)
     (\<lambda>x t. \<exists>n sl. tag_fields u name slug = Inr (n, sl)
        \<and> took_effect (tag_updated u ctx i (\<lambda>c. c\<lparr>tag_name := n, tag_slug := sl\<rparr>) x) s t)
     (\<lambda>e t. e \<in> catalog_errors \<and> no_effect s t) s"
  unfolding update_tag_def
proof (rule wp_bind_lift, clarify, goal_cases)
  case (1 n sl)
  let ?f = "\<lambda>c. c\<lparr>tag_name := n, tag_slug := sl\<rparr>"
  have ok: "is_slug sl" "length sl \<le> 140" using tag_fields_ok [OF 1] by auto
  show ?case
  proof (rule transaction_spec [OF r, where P = "tag_updated u ctx i ?f"], goal_cases)
    case (1 s')
    have sound: "catalog_sound (w_db s'\<lparr>db_tags :=
        row_update tag_id (tag_id c) (\<lambda>_. ?f c) (db_tags (w_db s'))\<rparr>)"
      if "find (\<lambda>r. tag_slug r = sl) (db_tags (w_db s')) = None \<or>
          tag_id (the (find (\<lambda>r. tag_slug r = sl) (db_tags (w_db s')))) = tag_id c" for c
      using that ok by (intro sound_set_tag [OF 1(1), of "?f c", simplified]) (auto simp: good_tag_def)
    show ?case
      by (auto simp: tag_get_by_slug_def set_tag_def tag_event_def wp_simps
          by_slug_canonical [OF ok(1)] catalog_sound_constraints 1(2) sound split: option.splits
          intro!: wp_event_end [where P = "\<lambda>x. tag_updated u ctx i ?f x (w_db s')"])
        (auto simp: tag_updated_def dest: row_get_in)
  qed (use 1 in auto)
qed (auto dest: tag_fields_error)

definition tag_deleted ::
  "unicode \<Rightarrow> audit_context option \<Rightarrow> nat \<Rightarrow> unit \<Rightarrow> database \<Rightarrow> database \<Rightarrow> bool" where
  "tag_deleted u ctx i x d d' \<longleftrightarrow> row_get tag_id i (db_tags d) \<noteq> None
     \<and> audited u ctx TAG_DELETED (drop_tag i d) d'"

lemma wp_delete_tag:
  assumes r: "ready_for ctx s"
  shows "wp (delete_tag u i ctx) (\<lambda>x. took_effect (tag_deleted u ctx i x) s)
     (\<lambda>e t. e \<in> catalog_errors \<and> no_effect s t) s"
  unfolding delete_tag_def
proof (rule transaction_spec [OF r, where P = "tag_deleted u ctx i"], goal_cases)
  case (1 s')
  show ?case
    by (auto simp: tag_event_def wp_simps catalog_sound_constraints sound_drop_tag [OF 1(1)]
        1(2) split: option.splits
        intro!: wp_event_last [where P = "tag_deleted u ctx i () (w_db s')"])
      (auto simp: tag_deleted_def dest: row_get_in)
qed auto

end
