(* ===== verification/SoftwareSpecs.thy ===== *)
theory SoftwareSpecs
  imports CatalogSpecs
begin

text \<open>
  What the operations of the software and release services do, on success and on failure.
\<close>

section \<open>Category and tags of a request\<close>

lemma set_dict_fromkeys [simp]: "set (dict_fromkeys ids) = set ids"
  by (simp add: dict_fromkeys_def)

lemma length_dict_fromkeys [simp]: "length (dict_fromkeys ids) = card (set ids)"
  by (simp add: dict_fromkeys_def length_remdups_card_conv)

definition requested_tags :: "nat list \<Rightarrow> tag list \<Rightarrow> database \<Rightarrow> bool" where
  "requested_tags ids tags d \<longleftrightarrow> set tags \<subseteq> set (db_tags d) \<and> distinct (map tag_id tags)
     \<and> tag_id ` set tags = set ids"

lemma selected_tags:
  assumes "distinct_keys tag_id (db_tags d)"
    and "card (set ids) = length (filter (\<lambda>x. tag_id x \<in> set ids) (db_tags d))"
  shows "requested_tags ids (sort_key tag_id (filter (\<lambda>x. tag_id x \<in> set ids) (db_tags d))) d"
proof -
  let ?f = "filter (\<lambda>x. tag_id x \<in> set ids) (db_tags d)"
  have d: "distinct (map tag_id ?f)" using assms(1) by (simp add: distinct_keys_def distinct_map_filter)
  have "tag_id ` set ?f = set ids"
  proof (rule card_subset_eq)
    show "card (tag_id ` set ?f) = card (set ids)"
      using assms(2) distinct_card [OF d] by simp
  qed auto
  moreover have "distinct (map tag_id (sort_key tag_id ?f))"
    using d by (simp add: distinct_map)
  ultimately show ?thesis by (auto simp: requested_tags_def)
qed

lemma wp_tags_get_many:
  assumes "catalog_sound (w_db s)"
  shows "wp (tags_get_many ids)
     (\<lambda>tags t. db_only s t \<and> w_db t = w_db s
        \<and> (length tags = card (set ids) \<longrightarrow> requested_tags ids tags (w_db s)))
     (\<lambda>e t. e = SQLAlchemyError \<and> db_only s t) s"
proof -
  have "distinct_keys tag_id (db_tags (w_db s))"
    using assms by (simp add: catalog_sound_def db_constraints_def tags_ok_def)
  moreover have "requested_tags [] [] (w_db s)" by (simp add: requested_tags_def)
  moreover have "dict_fromkeys ids = [] \<longleftrightarrow> ids = []"
    by (metis set_dict_fromkeys set_empty)
  ultimately show ?thesis
    using selected_tags [of "w_db s" ids] by (auto simp: tags_get_many_def Let_def wp_simps)
qed

lemma wp_resolve:
  assumes "catalog_sound (w_db s)"
  shows "wp (resolve_category_and_tags c ids)
     (\<lambda>x t. db_only s t \<and> w_db t = w_db s \<and> map_option cat_id (fst x) = c
        \<and> refers_opt (map cat_id (db_categories (w_db s))) c \<and> requested_tags ids (snd x) (w_db s))
     (\<lambda>e t. e \<in> catalog_errors \<and> db_only s t) s"
  unfolding resolve_category_and_tags_def Let_def
proof (rule wp_bind_spec [where ?Q0.0 = "\<lambda>x t. db_only s t \<and> w_db t = w_db s \<and> map_option cat_id x = c
    \<and> refers_opt (map cat_id (db_categories (w_db s))) c" and ?E0.0 = "\<lambda>e t. e \<in> catalog_errors \<and> db_only s t"],
    goal_cases)
  case 1
  then show ?case
    by (cases c) (auto simp: wp_simps refers_def dest: row_get_in split: option.splits)
next
  case (2 x t)
  then have "catalog_sound (w_db t)" using assms by simp
  then show ?case
    using 2 by (intro wp_bind_spec [OF wp_tags_get_many [of t "dict_fromkeys ids"]])
      (auto simp: wp_simps requested_tags_def intro: db_only_trans)
qed

section \<open>Software\<close>

definition software_created ::
  "unicode \<Rightarrow> audit_context option \<Rightarrow> software \<Rightarrow> nat list \<Rightarrow> software \<Rightarrow> database \<Rightarrow> database \<Rightarrow> bool" where
  "software_created u ctx w ids x d d' \<longleftrightarrow>
     x = with_sw_id (next_id sw_id (db_softwares d)) w
     \<and> find (\<lambda>y. sw_slug y = sw_slug w) (db_softwares d) = None
     \<and> (\<exists>tags. requested_tags ids tags d \<and> audited u ctx SOFTWARE_CREATED
         (put_tags (sw_id x) tags (d\<lparr>db_softwares := row_add sw_id with_sw_id w (db_softwares d)\<rparr>)) d')"

lemma requested_tags_frame [simp]:
  "requested_tags ids tags (d\<lparr>db_softwares := ws\<rparr>) = requested_tags ids tags d"
  by (simp add: requested_tags_def)

lemma requested_sound:
  assumes "catalog_sound d" and "requested_tags ids tags d" and "i \<in> set (map sw_id (db_softwares d))"
  shows "catalog_sound (put_tags i tags d)"
  using assms by (intro sound_put_tags) (auto simp: requested_tags_def)

lemma new_software_simps [simp]:
  "sw_slug (new_software x c vis feat) = in_slug x"
  "sw_category_id (new_software x c vis feat) = c"
  by (simp_all add: new_software_def)

lemma good_new_software: "is_slug (in_slug x) \<Longrightarrow> length (in_slug x) \<le> 200 \<Longrightarrow> good_software (new_software x c vis feat)"
  by (simp add: good_software_def new_software_def)

lemma wp_create_software:
  assumes r: "ready_for ctx s"
  shows "wp (create_software u ok x cid ids vis feat ctx)
     (\<lambda>w t. \<exists>y. normalize_software_fields u ok x = Inr y
        \<and> took_effect (software_created u ctx (new_software y cid vis feat) ids w) s t)
     (\<lambda>e t. e \<in> catalog_errors \<and> no_effect s t) s"
  unfolding create_software_def
proof (rule wp_bind_lift, goal_cases)
  case (1 y)
  have ok: "is_slug (in_slug y)" "length (in_slug y) \<le> 200" using software_fields_ok [OF 1] by auto
  let ?w = "new_software y cid vis feat"
  let ?P = "software_created u ctx ?w ids"
  show ?case
  proof (rule transaction_spec [OF r, where P = ?P], goal_cases)
    case (1 s')
    let ?d = "w_db s'"
    show ?case
      unfolding software_get_by_slug_def by_slug_canonical [OF ok(1)]
    proof (rule wp_bind_spec [OF wp_query], rule wp_bind_raise_if, goal_cases)
      case (2 z t)
      then have t: "db_only s' t" "w_db t = ?d" and
        none: "find (\<lambda>w. sw_slug w = in_slug y) (db_softwares ?d) = None" by auto
      have sound: "catalog_sound (put_tags (next_id sw_id (db_softwares ?d)) tags
          (?d\<lparr>db_softwares := row_add sw_id with_sw_id ?w (db_softwares ?d)\<rparr>))"
        if "requested_tags ids tags ?d" "refers_opt (map cat_id (db_categories ?d)) cid" for tags
        using that ok none
        by (intro requested_sound [where ids = ids] sound_add_software [OF 1(1)])
          (auto simp: good_new_software row_add_def with_sw_id_def)
      show ?case
      proof (rule wp_bind_spec [OF wp_resolve], goal_cases)
        case (2 x t')
        then have t': "db_only s' t'" "w_db t' = ?d" "requested_tags ids (snd x) ?d"
          "refers_opt (map cat_id (db_categories ?d)) cid" "map_option cat_id (fst x) = cid"
          using t by (auto intro: db_only_trans)
        obtain cx tags where x: "x = (cx, tags)" by (cases x)
        have c: "map_option cat_id cx = cid" using t'(5) x by simp
        show ?case
          using t'(1-4) sound [OF t'(3,4)] unfolding x
          by (auto simp: c add_software_def software_event_def wp_simps catalog_sound_constraints
              1(2) with_sw_id_def intro!: wp_event_end [where P = "\<lambda>w. ?P w ?d"])
            (use none in \<open>auto simp: software_created_def with_sw_id_def\<close>)
      qed (use t 1 in \<open>auto intro: db_only_trans\<close>)
    qed auto
  qed (use 1 in auto)
qed (auto dest: software_fields_error)

definition software_edit :: "software_input \<Rightarrow> nat option \<Rightarrow> visibility \<Rightarrow> bool \<Rightarrow> software \<Rightarrow> software" where
  "software_edit y cid vis feat w = (with_fields y w)\<lparr>sw_category_id := cid, sw_visibility := vis,
     sw_is_featured := feat\<rparr>"

lemma software_edit_simps [simp]:
  "sw_id (software_edit y cid vis feat w) = sw_id w"
  "sw_slug (software_edit y cid vis feat w) = in_slug y"
  "sw_category_id (software_edit y cid vis feat w) = cid"
  "sw_status (software_edit y cid vis feat w) = sw_status w"
  "sw_published_at (software_edit y cid vis feat w) = sw_published_at w"
  "sw_archived_at (software_edit y cid vis feat w) = sw_archived_at w"
  by (simp_all add: software_edit_def with_fields_def)

lemma with_fields_simps [simp]:
  "sw_id (with_fields y w) = sw_id w" "sw_slug (with_fields y w) = in_slug y"
  by (simp_all add: with_fields_def)

definition software_updated ::
  "unicode \<Rightarrow> audit_context option \<Rightarrow> nat \<Rightarrow> (software \<Rightarrow> software) \<Rightarrow> nat list \<Rightarrow> software \<Rightarrow>
   database \<Rightarrow> database \<Rightarrow> bool" where
  "software_updated u ctx i f ids x d d' \<longleftrightarrow>
     (\<exists>w. row_get sw_id i (db_softwares d) = Some w \<and> x = f w)
     \<and> (\<exists>tags. requested_tags ids tags d \<and> audited u ctx SOFTWARE_UPDATED
         (put_tags i tags (d\<lparr>db_softwares := row_update sw_id i (\<lambda>_. x) (db_softwares d)\<rparr>)) d')"

lemma wp_require_software:
  "wp (require_software i)
     (\<lambda>w t. db_only s t \<and> w_db t = w_db s \<and> row_get sw_id i (db_softwares (w_db s)) = Some w)
     (\<lambda>e t. e \<in> catalog_errors \<and> db_only s t) s"
  by (auto simp: require_software_def wp_simps split: option.splits)

lemma wp_update_software:
  assumes r: "ready_for ctx s"
  shows "wp (update_software u ok i x cid ids vis feat ctx)
     (\<lambda>w t. \<exists>y. normalize_software_fields u ok x = Inr y
        \<and> took_effect (software_updated u ctx i (software_edit y cid vis feat) ids w) s t)
     (\<lambda>e t. e \<in> catalog_errors \<and> no_effect s t) s"
  unfolding update_software_def
proof (rule wp_bind_lift, goal_cases)
  case (1 y)
  have ok: "is_slug (in_slug y)" "length (in_slug y) \<le> 200" using software_fields_ok [OF 1] by auto
  let ?f = "software_edit y cid vis feat"
  let ?P = "software_updated u ctx i ?f ids"
  show ?case
  proof (rule transaction_spec [OF r, where P = ?P], goal_cases)
    case (1 s')
    let ?d = "w_db s'"
    show ?case
      unfolding software_get_by_slug_def by_slug_canonical [OF ok(1)]
    proof (rule wp_bind_spec [OF wp_require_software], rule wp_bind_spec [OF wp_query],
        rule wp_bind_raise_if, goal_cases)
      case (2 w t' z t)
      then have t: "db_only s' t" "w_db t = ?d" and w: "row_get sw_id i (db_softwares ?d) = Some w" and
        free: "find (\<lambda>w. sw_slug w = in_slug y) (db_softwares ?d) = Some v \<Longrightarrow> sw_id v = sw_id w" for v
        by (auto intro: db_only_trans)
      have "good_software w" using 1(1) w by (auto simp: catalog_sound_def dest: list_all_row_get)
      then have good: "good_software (?f w)" using ok by (simp add: good_software_def)
      have sound: "catalog_sound (put_tags (sw_id w) tags
          (?d\<lparr>db_softwares := row_update sw_id (sw_id w) (\<lambda>_. ?f w) (db_softwares ?d)\<rparr>))"
        if "requested_tags ids tags ?d" "refers_opt (map cat_id (db_categories ?d)) cid" for tags
      proof (rule requested_sound [where ids = ids])
        show "catalog_sound (?d\<lparr>db_softwares := row_update sw_id (sw_id w) (\<lambda>_. ?f w) (db_softwares ?d)\<rparr>)"
          using free that(2) good by (intro sound_set_software [OF 1(1), of "?f w", simplified]) simp_all
        show "requested_tags ids tags (?d\<lparr>db_softwares := row_update sw_id (sw_id w) (\<lambda>_. ?f w) (db_softwares ?d)\<rparr>)"
          using that(1) by simp
        show "sw_id w \<in> set (map sw_id (db_softwares
            (?d\<lparr>db_softwares := row_update sw_id (sw_id w) (\<lambda>_. ?f w) (db_softwares ?d)\<rparr>)))"
          using row_get_in(1) [OF w] by (simp add: keys_row_update del: set_map) simp
      qed
      show ?case
      proof (rule wp_bind_spec [OF wp_resolve], goal_cases)
        case (2 x t')
        then have t': "db_only s' t'" "w_db t' = ?d" "requested_tags ids (snd x) ?d"
          "refers_opt (map cat_id (db_categories ?d)) cid" "map_option cat_id (fst x) = cid"
          using t by (auto intro: db_only_trans)
        obtain cx tags where x: "x = (cx, tags)" by (cases x)
        have f: "(with_fields y w)\<lparr>sw_category_id := map_option cat_id cx, sw_visibility := vis,
            sw_is_featured := feat\<rparr> = ?f w"
          using t'(5) x by (simp add: software_edit_def)
        show ?case
          using t'(1-4) sound [OF t'(3,4)] unfolding x
          by (auto simp: f set_software_def software_event_def wp_simps catalog_sound_constraints
              1(2) intro!: wp_event_end [where P = "\<lambda>w. ?P w ?d"])
            (use w in \<open>auto simp: software_updated_def dest: row_get_in\<close>)
      qed (use t 1 in \<open>auto intro: db_only_trans\<close>)
    qed (use 1 in \<open>auto intro: db_only_trans\<close>)
  qed (use 1 in auto)
qed (auto dest: software_fields_error)

definition software_retagged ::
  "unicode \<Rightarrow> audit_context option \<Rightarrow> nat \<Rightarrow> nat list \<Rightarrow> software \<Rightarrow> database \<Rightarrow> database \<Rightarrow> bool" where
  "software_retagged u ctx i ids x d d' \<longleftrightarrow> row_get sw_id i (db_softwares d) = Some x
     \<and> (\<exists>tags. requested_tags ids tags d \<and> audited u ctx SOFTWARE_UPDATED (put_tags i tags d) d')"

lemma wp_replace_software_tags:
  assumes r: "ready_for ctx s"
  shows "wp (replace_software_tags u i ids ctx) (\<lambda>w. took_effect (software_retagged u ctx i ids w) s)
     (\<lambda>e t. e \<in> catalog_errors \<and> no_effect s t) s"
  unfolding replace_software_tags_def
proof (rule transaction_spec [OF r, where P = "software_retagged u ctx i ids"], goal_cases)
  case (1 s')
  let ?d = "w_db s'"
  show ?case
  proof (rule wp_bind_spec [OF wp_require_software], goal_cases)
    case (1 w t)
    then have t: "db_only s' t" "w_db t = ?d" and w: "row_get sw_id i (db_softwares ?d) = Some w" by auto
    have s: "catalog_sound (w_db t)" using \<open>catalog_sound ?d\<close> t by simp
    have sound: "catalog_sound (put_tags (sw_id w) tags ?d)" if "requested_tags ids tags ?d" for tags
      using that row_get_in(1) [OF w] \<open>catalog_sound ?d\<close> by (intro requested_sound) auto
    show ?case
    proof (rule wp_bind_spec [OF wp_tags_get_many [OF s]], goal_cases)
      case (1 tags t')
      then have t': "db_only s' t'" "w_db t' = ?d"
        "length tags = card (set ids) \<Longrightarrow> requested_tags ids tags ?d"
        using t by (auto intro: db_only_trans)
      show ?case
        using t' sound [OF t'(3)] \<open>audit_user_ok ctx ?d\<close>
        by (auto simp: software_event_def wp_simps catalog_sound_constraints
            intro!: wp_event_end [where P = "\<lambda>w. software_retagged u ctx i ids w ?d"])
          (use w in \<open>auto simp: software_retagged_def dest: row_get_in\<close>)
    qed (use t in \<open>auto intro: db_only_trans\<close>)
  qed auto
qed auto

definition software_changed ::
  "unicode \<Rightarrow> audit_context option \<Rightarrow> audit_action \<Rightarrow> nat \<Rightarrow> (software \<Rightarrow> software \<Rightarrow> bool) \<Rightarrow> software \<Rightarrow>
   database \<Rightarrow> database \<Rightarrow> bool" where
  "software_changed u ctx action i R x d d' \<longleftrightarrow>
     (\<exists>w. row_get sw_id i (db_softwares d) = Some w \<and> R w x)
     \<and> audited u ctx action (d\<lparr>db_softwares := row_update sw_id i (\<lambda>_. x) (db_softwares d)\<rparr>) d'"

lemma apply_software_transition_good:
  assumes "apply_software_transition w target now = Inr w'" and "good_software w"
  shows "good_software w'"
  using assms
  by (auto simp: apply_software_transition_def rbind_eq_Inr Let_def good_software_def
      split: if_splits option.splits)

lemma apply_software_transition_same:
  assumes "apply_software_transition w target now = Inr w'"
  shows "sw_id w' = sw_id w" "sw_slug w' = sw_slug w" "sw_category_id w' = sw_category_id w"
  using assms
  by (auto simp: apply_software_transition_def rbind_eq_Inr Let_def split: if_splits)

lemma apply_software_transition_error:
  "apply_software_transition w target now = Inl e \<Longrightarrow> e = InvalidStateTransition"
  by (auto simp: apply_software_transition_def rbind_eq_Inl Let_def ensure_transition_def split: if_splits)

text \<open>Loading a software row, changing it with its slug and category kept, and flushing.\<close>

lemma software_change_sound:
  assumes d: "catalog_sound d" and get: "row_get sw_id i (db_softwares d) = Some v"
    and w: "sw_id w = sw_id v" "sw_slug w = sw_slug v" "sw_category_id w = sw_category_id v"
    and good: "good_software v \<Longrightarrow> good_software w"
  shows "catalog_sound (d\<lparr>db_softwares := row_update sw_id i (\<lambda>_. w) (db_softwares d)\<rparr>)"
proof -
  have "good_software v" using d get by (auto simp: catalog_sound_def dest: list_all_row_get)
  then show ?thesis
    using sound_change_software [OF d get _ w(2,3) good] w(1) row_get_in(2) [OF get] by simp
qed

lemma wp_transition_software:
  assumes r: "ready_for ctx s"
  shows "wp (transition_software u i target ctx)
     (\<lambda>w. took_effect (\<lambda>d d'. \<exists>now. software_changed u ctx SOFTWARE_STATUS_CHANGED i
        (\<lambda>v w. apply_software_transition v target now = Inr w) w d d') s)
     (\<lambda>e t. e \<in> catalog_errors \<and> no_effect s t) s"
  unfolding transition_software_def
proof (rule transaction_spec [OF r, where P = "\<lambda>w d d'. \<exists>now. software_changed u ctx SOFTWARE_STATUS_CHANGED i
    (\<lambda>v w. apply_software_transition v target now = Inr w) w d d'"], goal_cases)
  case (1 s')
  let ?P = "\<lambda>w d'. \<exists>now. software_changed u ctx SOFTWARE_STATUS_CHANGED i
    (\<lambda>v w. apply_software_transition v target now = Inr w) w (w_db s') d'"
  show ?case
  proof (rule wp_bind_spec [OF wp_require_software], goal_cases)
    case (1 v t)
    then have t: "db_only s' t" "w_db t = w_db s'" and v: "row_get sw_id i (db_softwares (w_db s')) = Some v"
      by auto
    have i: "sw_id v = i" using row_get_in(2) [OF v] .
    have "catalog_sound (w_db s'\<lparr>db_softwares := row_update sw_id i (\<lambda>_. w) (db_softwares (w_db s'))\<rparr>)"
      "sw_id w = i"
      if "apply_software_transition v target now = Inr w" for w now
      using that software_change_sound [OF \<open>catalog_sound (w_db s')\<close> v, of w]
        apply_software_transition_good [OF that] apply_software_transition_same [OF that] i by auto
    then show ?case
      using t \<open>audit_user_ok ctx (w_db s')\<close>
      by (auto simp: set_software_def software_event_def wp_simps catalog_sound_constraints
          dest: apply_software_transition_error split: sum.splits
          intro!: wp_event_end [where P = ?P])
        (use v in \<open>auto simp: software_changed_def\<close>)
  qed auto
qed auto

lemma wp_set_software_visibility:
  assumes r: "ready_for ctx s"
  shows "wp (set_software_visibility u i vis ctx)
     (\<lambda>w. took_effect (software_changed u ctx SOFTWARE_VISIBILITY_CHANGED i
        (\<lambda>v w. w = v\<lparr>sw_visibility := vis\<rparr>) w) s)
     (\<lambda>e t. e \<in> catalog_errors \<and> no_effect s t) s"
  unfolding set_software_visibility_def
proof (rule transaction_spec [OF r, where P = "software_changed u ctx SOFTWARE_VISIBILITY_CHANGED i
        (\<lambda>v w. w = v\<lparr>sw_visibility := vis\<rparr>)"], goal_cases)
  case (1 s')
  let ?P = "\<lambda>w. software_changed u ctx SOFTWARE_VISIBILITY_CHANGED i (\<lambda>v w. w = v\<lparr>sw_visibility := vis\<rparr>) w (w_db s')"
  show ?case
  proof (rule wp_bind_spec [OF wp_require_software], goal_cases)
    case (1 v t)
    then have t: "db_only s' t" "w_db t = w_db s'" and v: "row_get sw_id i (db_softwares (w_db s')) = Some v"
      by auto
    have i: "sw_id v = i" using row_get_in(2) [OF v] .
    have "catalog_sound (w_db s'\<lparr>db_softwares := row_update sw_id i (\<lambda>_. v\<lparr>sw_visibility := vis\<rparr>) (db_softwares (w_db s'))\<rparr>)"
      by (rule software_change_sound [OF \<open>catalog_sound (w_db s')\<close> v]) (simp_all add: good_software_def)
    then show ?case
      using t \<open>audit_user_ok ctx (w_db s')\<close>
      by (auto simp: i set_software_def software_event_def wp_simps catalog_sound_constraints
          intro!: wp_event_end [where P = ?P])
        (use v in \<open>auto simp: software_changed_def\<close>)
  qed auto
qed auto

end
