(* ===== verification/ReleaseSpecs.thy ===== *)
theory ReleaseSpecs
  imports SoftwareSpecs
begin

text \<open>
  What the operations of the release service do, on success and on failure; in particular
  that the marker of the current stable release moves to exactly the requested release.
\<close>

lemma release_fields_error: "normalize_release_fields v c = Inl e \<Longrightarrow> e = ValidationError"
  by (auto simp: normalize_release_fields_def Let_def rbind_eq_Inl dest!: validated_Inl
      dest: input_errors split: if_splits)

lemma wp_require_release:
  assumes "catalog_sound (w_db s)"
  shows "wp (require_release i)
     (\<lambda>x t. db_only s t \<and> w_db t = w_db s \<and> row_get rel_id i (db_releases (w_db s)) = Some (fst x)
        \<and> row_get sw_id (rel_software_id (fst x)) (db_softwares (w_db s)) = Some (snd x))
     (\<lambda>e t. e \<in> catalog_errors \<and> db_only s t) s"
proof -
  have "row_get sw_id (rel_software_id r) (db_softwares (w_db s)) \<noteq> None"
    if "row_get rel_id i (db_releases (w_db s)) = Some r" for r
  proof -
    have "rel_software_id r \<in> sw_id ` set (db_softwares (w_db s))"
      using assms row_get_in(1) [OF that]
      by (auto simp: catalog_sound_def db_constraints_def releases_ok_def list_all_iff refers_def)
    then show ?thesis by (auto simp: row_get_None)
  qed
  then show ?thesis
    by (auto simp: require_release_def release_with_graph_def wp_simps split: option.splits)
qed

definition release_created ::
  "unicode \<Rightarrow> audit_context option \<Rightarrow> release \<Rightarrow> release \<Rightarrow> database \<Rightarrow> database \<Rightarrow> bool" where
  "release_created u ctx r x d d' \<longleftrightarrow>
     x = with_rel_id (next_id rel_id (db_releases d)) r
     \<and> find (\<lambda>y. release_identity y = release_identity r) (db_releases d) = None
     \<and> audited u ctx RELEASE_CREATED (d\<lparr>db_releases := row_add rel_id with_rel_id r (db_releases d)\<rparr>) d'"

definition draft_release :: "nat \<Rightarrow> str \<Rightarrow> release_channel \<Rightarrow> date option \<Rightarrow> str option \<Rightarrow> release" where
  "draft_release i v c rd cl = \<lparr>rel_id = 0, rel_software_id = i, rel_version = v, rel_channel = c,
     rel_release_date = rd, rel_changelog = cl, rel_is_current = False, rel_status = ReleaseDraft,
     rel_published_at = None\<rparr>"

lemma draft_release_simps [simp]:
  "release_identity (draft_release i v c rd cl) = (i, v, c)" "rel_software_id (draft_release i v c rd cl) = i"
  "rel_version (draft_release i v c rd cl) = v"
  "good_release (draft_release i v c rd cl)" "\<not> rel_is_current (draft_release i v c rd cl)"
  by (simp_all add: draft_release_def release_identity_def good_release_def)

lemma wp_create_release:
  assumes r: "ready_for ctx s"
  shows "wp (create_release u i version c rd changelog ctx)
     (\<lambda>x t. \<exists>v cl. normalize_release_fields version changelog = Inr (v, cl)
        \<and> took_effect (release_created u ctx (draft_release i v c rd cl) x) s t)
     (\<lambda>e t. e \<in> catalog_errors \<and> no_effect s t) s"
  unfolding create_release_def draft_release_def [symmetric]
proof (rule wp_bind_lift, clarify, goal_cases)
  case (1 v cl)
  let ?r = "draft_release i v c rd cl"
  show ?case
  proof (rule transaction_spec [OF r, where P = "release_created u ctx ?r"], goal_cases)
    case (1 s')
    let ?d = "w_db s'"
    show ?case
    proof (rule wp_bind_spec [OF wp_require_software], goal_cases)
      case (1 w t)
      then have t: "db_only s' t" "w_db t = ?d" and w: "row_get sw_id i (db_softwares ?d) = Some w" by auto
      have i: "sw_id w = i" using row_get_in(2) [OF w] .
      have ref: "refers (map sw_id (db_softwares ?d)) i"
        using row_get_in(1) [OF w] i by (auto simp: refers_def)
      have "catalog_sound (?d\<lparr>db_releases := row_add rel_id with_rel_id ?r (db_releases ?d)\<rparr>)"
        if "find (\<lambda>r. release_identity r = (i, v, c)) (db_releases ?d) = None"
        using that ref by (intro sound_add_release [OF \<open>catalog_sound ?d\<close>]) simp_all
      then show ?case
        using t \<open>audit_user_ok ctx ?d\<close>
        by (auto simp: i release_get_by_identity_def add_release_def release_event_def wp_simps
            catalog_sound_constraints intro!: wp_event_end [where P = "\<lambda>x. release_created u ctx ?r x ?d"])
          (auto simp: release_created_def)
    qed auto
  qed (use 1 in auto)
qed (auto dest: release_fields_error)

definition release_changed ::
  "unicode \<Rightarrow> audit_context option \<Rightarrow> audit_action \<Rightarrow> nat \<Rightarrow> (release \<Rightarrow> software \<Rightarrow> release \<Rightarrow> bool) \<Rightarrow> release \<Rightarrow>
   database \<Rightarrow> database \<Rightarrow> bool" where
  "release_changed u ctx action i R x d d' \<longleftrightarrow>
     (\<exists>r w. row_get rel_id i (db_releases d) = Some r
        \<and> row_get sw_id (rel_software_id r) (db_softwares d) = Some w \<and> R r w x)
     \<and> audited u ctx action (d\<lparr>db_releases := row_update rel_id i (\<lambda>_. x) (db_releases d)\<rparr>) d'"

definition release_edit :: "str \<Rightarrow> release_channel \<Rightarrow> date option \<Rightarrow> str option \<Rightarrow> release \<Rightarrow> release" where
  "release_edit v c rd cl r = r\<lparr>rel_version := v, rel_channel := c, rel_release_date := rd, rel_changelog := cl\<rparr>"

lemma release_edit_simps [simp]:
  "rel_id (release_edit v c rd cl r) = rel_id r"
  "rel_software_id (release_edit v c rd cl r) = rel_software_id r"
  "release_identity (release_edit v c rd cl r) = (rel_software_id r, v, c)"
  "rel_version (release_edit v c rd cl r) = v"
  "rel_is_current (release_edit v c rd cl r) = rel_is_current r"
  "rel_channel (release_edit v c rd cl r) = c"
  by (simp_all add: release_edit_def release_identity_def)

text \<open>Replacing a release row without setting its marker.\<close>

lemma release_change_sound:
  assumes d: "catalog_sound d" and get: "row_get rel_id i (db_releases d) = Some v"
    and r: "rel_id r = rel_id v" "rel_software_id r = rel_software_id v"
    and cur: "good_release v \<Longrightarrow> is_current_stable r \<Longrightarrow> is_current_stable v"
    and good: "good_release v \<Longrightarrow> good_release r"
    and free: "\<And>x. find (\<lambda>x. release_identity x = release_identity r) (db_releases d) = Some x \<Longrightarrow> rel_id x = rel_id r"
  shows "catalog_sound (d\<lparr>db_releases := row_update rel_id i (\<lambda>_. r) (db_releases d)\<rparr>)"
proof -
  have i: "rel_id r = i" using row_get_in(2) [OF get] r(1) by simp
  have v: "good_release v" using d get by (auto simp: catalog_sound_def dest: list_all_row_get)
  then have "catalog_sound (d\<lparr>db_releases := row_update rel_id (rel_id r) (\<lambda>_. r) (db_releases d)\<rparr>)"
    using cur [OF v] good [OF v]
    by (intro sound_set_release [OF d get i r(2) _ free] marker_not_set [OF d get r(2)]) auto
  then show ?thesis by (simp only: i)
qed

lemma wp_update_release:
  assumes r: "ready_for ctx s"
  shows "wp (update_release u i version c rd changelog ctx)
     (\<lambda>x t. \<exists>v cl. normalize_release_fields version changelog = Inr (v, cl)
        \<and> took_effect (release_changed u ctx RELEASE_UPDATED i
             (\<lambda>r w x. x = release_edit v c rd cl r \<and> (rel_is_current r \<longrightarrow> c = ChannelStable)) x) s t)
     (\<lambda>e t. e \<in> catalog_errors \<and> no_effect s t) s"
  unfolding update_release_def release_edit_def [symmetric]
proof (rule wp_bind_lift, clarify, goal_cases)
  case (1 v cl)
  let ?R = "\<lambda>r w x. x = release_edit v c rd cl r \<and> (rel_is_current r \<longrightarrow> c = ChannelStable)"
  show ?case
  proof (rule transaction_spec [OF r, where P = "release_changed u ctx RELEASE_UPDATED i ?R"], goal_cases)
    case (1 s')
    let ?d = "w_db s'"
    show ?case
    proof (rule wp_bind_spec [OF wp_require_release [OF \<open>catalog_sound ?d\<close>]], goal_cases)
      case (1 x t)
      obtain v0 w where x: "x = (v0, w)" by (cases x)
      then have t: "db_only s' t" "w_db t = ?d" and get: "row_get rel_id i (db_releases ?d) = Some v0"
        "row_get sw_id (rel_software_id v0) (db_softwares ?d) = Some w" using 1 by auto
      have i: "rel_id v0 = i" using row_get_in(2) [OF get(1)] .
      let ?x = "release_edit v c rd cl v0"
      have "catalog_sound (?d\<lparr>db_releases := row_update rel_id i (\<lambda>_. ?x) (db_releases ?d)\<rparr>)"
        if "rel_is_current v0 \<longrightarrow> c = ChannelStable"
          "find (\<lambda>x. release_identity x = (rel_software_id v0, v, c)) (db_releases ?d) = None
           \<or> rel_id (the (find (\<lambda>x. release_identity x = (rel_software_id v0, v, c)) (db_releases ?d))) = i"
        using that i
        by (intro release_change_sound [OF \<open>catalog_sound ?d\<close> get(1)])
          (auto simp: good_release_def is_current_stable_def release_edit_def release_identity_def)
      then show ?case
        using t \<open>audit_user_ok ctx ?d\<close> unfolding x
        by (auto simp: i release_get_by_identity_def set_release_def release_event_def wp_simps
            catalog_sound_constraints
            intro!: wp_event_end)
          (use get in \<open>auto simp: release_changed_def\<close>)
    qed auto
  qed (use 1 in auto)
qed (auto dest: release_fields_error)

lemma apply_release_transition_same:
  assumes "apply_release_transition r w target now = Inr r'"
  shows "rel_id r' = rel_id r" "rel_software_id r' = rel_software_id r" "release_identity r' = release_identity r"
    "rel_channel r' = rel_channel r" "rel_is_current r' \<Longrightarrow> rel_is_current r"
  using assms
  by (auto simp: apply_release_transition_def rbind_eq_Inr Let_def release_identity_def split: if_splits)

lemma apply_release_transition_good:
  assumes "apply_release_transition r w target now = Inr r'" and "good_release r"
  shows "good_release r'"
  using assms
  by (auto simp: apply_release_transition_def rbind_eq_Inr Let_def good_release_def ensure_transition_def
      split: if_splits option.splits)

lemma apply_release_transition_error:
  "apply_release_transition r w target now = Inl e \<Longrightarrow> e = InvalidStateTransition"
  by (auto simp: apply_release_transition_def rbind_eq_Inl Let_def ensure_transition_def split: if_splits)

lemma wp_transition_release:
  assumes r: "ready_for ctx s"
  shows "wp (transition_release u i target ctx)
     (\<lambda>x. took_effect (\<lambda>d d'. \<exists>now. release_changed u ctx RELEASE_STATUS_CHANGED i
        (\<lambda>r w x. apply_release_transition r w target now = Inr x) x d d') s)
     (\<lambda>e t. e \<in> catalog_errors \<and> no_effect s t) s"
  unfolding transition_release_def
proof (rule transaction_spec [OF r, where P = "\<lambda>x d d'. \<exists>now. release_changed u ctx RELEASE_STATUS_CHANGED i
        (\<lambda>r w x. apply_release_transition r w target now = Inr x) x d d'"], goal_cases)
  case (1 s')
  let ?d = "w_db s'"
  let ?P = "\<lambda>x d'. \<exists>now. release_changed u ctx RELEASE_STATUS_CHANGED i
        (\<lambda>r w x. apply_release_transition r w target now = Inr x) x ?d d'"
  show ?case
  proof (rule wp_bind_spec [OF wp_require_release [OF \<open>catalog_sound ?d\<close>]], goal_cases)
    case (1 x t)
    obtain v0 w where x: "x = (v0, w)" by (cases x)
    then have t: "db_only s' t" "w_db t = ?d" and get: "row_get rel_id i (db_releases ?d) = Some v0"
      "row_get sw_id (rel_software_id v0) (db_softwares ?d) = Some w" using 1 by auto
    have i: "rel_id v0 = i" using row_get_in(2) [OF get(1)] .
    have "catalog_sound (?d\<lparr>db_releases := row_update rel_id i (\<lambda>_. y) (db_releases ?d)\<rparr>)" "rel_id y = i"
      if a: "apply_release_transition v0 w target now = Inr y" for y now
    proof -
      note same = apply_release_transition_same [OF a]
      show "rel_id y = i" using same i by simp
      show "catalog_sound (?d\<lparr>db_releases := row_update rel_id i (\<lambda>_. y) (db_releases ?d)\<rparr>)"
        using same_identity_free [OF \<open>catalog_sound ?d\<close> get(1) _ same(3)] same i
        by (intro release_change_sound [OF \<open>catalog_sound ?d\<close> get(1)])
          (auto simp: is_current_stable_def intro: apply_release_transition_good [OF a])
    qed
    then show ?case
      using t \<open>audit_user_ok ctx ?d\<close> unfolding x
      by (auto simp: set_release_def release_event_def wp_simps catalog_sound_constraints
          dest: apply_release_transition_error split: sum.splits intro!: wp_event_end [where P = ?P])
        (use get in \<open>auto simp: release_changed_def\<close>)
  qed auto
qed auto

text \<open>The marker moves: the other releases of the software entry lose it, the requested one
  has it, and nothing else changes.\<close>

definition current_moved ::
  "unicode \<Rightarrow> audit_context option \<Rightarrow> nat \<Rightarrow> release \<Rightarrow> database \<Rightarrow> database \<Rightarrow> bool" where
  "current_moved u ctx i x d d' \<longleftrightarrow>
     (\<exists>r w. row_get rel_id i (db_releases d) = Some r
        \<and> row_get sw_id (rel_software_id r) (db_softwares d) = Some w
        \<and> ensure_current_stable_candidate r w = Inr () \<and> x = r\<lparr>rel_is_current := True\<rparr>)
     \<and> audited u ctx RELEASE_CURRENT_CHANGED
         (d\<lparr>db_releases := row_update rel_id i (\<lambda>_. x)
            (map (clear_marker (rel_software_id x) i) (db_releases d))\<rparr>) d'"

lemma candidate_ok:
  "ensure_current_stable_candidate r w = Inr a \<Longrightarrow> rel_channel r = ChannelStable \<and> rel_status r = ReleasePublished"
  "ensure_current_stable_candidate r w = Inl e \<Longrightarrow> e = InvalidStateTransition"
  by (auto simp: ensure_current_stable_candidate_def split: if_splits)

lemma wp_set_current_stable:
  assumes r: "ready_for ctx s"
  shows "wp (set_current_stable u i ctx) (\<lambda>x. took_effect (current_moved u ctx i x) s)
     (\<lambda>e t. e \<in> catalog_errors \<and> no_effect s t) s"
  unfolding set_current_stable_def clear_current_stable_def clear_marker_def [symmetric]
proof (rule transaction_spec [OF r, where P = "current_moved u ctx i"], goal_cases)
  case (1 s')
  let ?d = "w_db s'"
  show ?case
  proof (rule wp_bind_spec [OF wp_require_release [OF \<open>catalog_sound ?d\<close>]], goal_cases)
    case (1 x t)
    obtain v0 w where x: "x = (v0, w)" by (cases x)
    then have t: "db_only s' t" "w_db t = ?d" and get: "row_get rel_id i (db_releases ?d) = Some v0"
      "row_get sw_id (rel_software_id v0) (db_softwares ?d) = Some w" using 1 by auto
    have i: "rel_id v0 = i" using row_get_in(2) [OF get(1)] .
    have "catalog_sound (?d\<lparr>db_releases := row_update rel_id i (\<lambda>_. v0\<lparr>rel_is_current := True\<rparr>)
        (map (clear_marker (rel_software_id v0) i) (db_releases ?d))\<rparr>)"
      if "ensure_current_stable_candidate v0 w = Inr ()"
      using candidate_ok(1) [OF that] by (intro sound_set_current [OF \<open>catalog_sound ?d\<close> get(1)]) auto
    then show ?case
      using t \<open>audit_user_ok ctx ?d\<close> unfolding x
      by (auto simp: i set_release_def release_event_def wp_simps catalog_sound_constraints
          dest: candidate_ok(2) split: sum.splits
          intro!: wp_event_end [where P = "\<lambda>x. current_moved u ctx i x ?d"])
        (use get in \<open>auto simp: current_moved_def\<close>)
  qed auto
qed auto

lemma wp_clear_current:
  assumes r: "ready_for ctx s"
  shows "wp (clear_current u i ctx)
     (\<lambda>x. took_effect (release_changed u ctx RELEASE_CURRENT_CHANGED i
        (\<lambda>r w x. x = r\<lparr>rel_is_current := False\<rparr>) x) s)
     (\<lambda>e t. e \<in> catalog_errors \<and> no_effect s t) s"
  unfolding clear_current_def
proof (rule transaction_spec [OF r, where P = "release_changed u ctx RELEASE_CURRENT_CHANGED i
        (\<lambda>r w x. x = r\<lparr>rel_is_current := False\<rparr>)"], goal_cases)
  case (1 s')
  let ?d = "w_db s'"
  let ?P = "\<lambda>x. release_changed u ctx RELEASE_CURRENT_CHANGED i (\<lambda>r w x. x = r\<lparr>rel_is_current := False\<rparr>) x ?d"
  show ?case
  proof (rule wp_bind_spec [OF wp_require_release [OF \<open>catalog_sound ?d\<close>]], goal_cases)
    case (1 x t)
    obtain v0 w where x: "x = (v0, w)" by (cases x)
    then have t: "db_only s' t" "w_db t = ?d" and get: "row_get rel_id i (db_releases ?d) = Some v0"
      "row_get sw_id (rel_software_id v0) (db_softwares ?d) = Some w" using 1 by auto
    have i: "rel_id v0 = i" using row_get_in(2) [OF get(1)] .
    let ?x = "v0\<lparr>rel_is_current := False\<rparr>"
    have "catalog_sound (?d\<lparr>db_releases := row_update rel_id i (\<lambda>_. ?x) (db_releases ?d)\<rparr>)"
      using same_identity_free [OF \<open>catalog_sound ?d\<close> get(1), of ?x] i
      by (intro release_change_sound [OF \<open>catalog_sound ?d\<close> get(1)])
        (auto simp: is_current_stable_def good_release_def release_identity_def)
    then show ?case
      using t \<open>audit_user_ok ctx ?d\<close> unfolding x
      by (auto simp: i set_release_def release_event_def wp_simps catalog_sound_constraints
          intro!: wp_event_end [where P = ?P])
        (use get in \<open>auto simp: release_changed_def\<close>)
  qed auto
qed auto

end
