(* ===== verification/CatalogProperties.thy ===== *)
theory CatalogProperties
  imports Demo ReleaseSpecs
begin

text \<open>
  The properties of the catalogue. \<open>catalog_reachable\<close> is the state machine of the
  catalogue services: any sequence of their writing operations, each with any input, by any
  existing user, with other processes committing in between whatever keeps the invariant.
\<close>

section \<open>The operations as one action\<close>

datatype catalog_action =
    CreateCategory str str "str option" int bool
  | UpdateCategory nat str str "str option" int bool
  | DeleteCategory nat
  | CreateTag str str
  | UpdateTag nat str str
  | DeleteTag nat
  | CreateSoftware software_input "nat option" "nat list" visibility bool
  | UpdateSoftware nat software_input "nat option" "nat list" visibility bool
  | ReplaceTags nat "nat list"
  | TransitionSoftware nat software_status
  | SetSoftwareVisibility nat visibility
  | CreateRelease nat str release_channel "date option" "str option"
  | UpdateRelease nat str release_channel "date option" "str option"
  | TransitionRelease nat release_status
  | SetCurrentStable nat
  | ClearCurrent nat

fun run_catalog ::
  "unicode \<Rightarrow> (str \<Rightarrow> bool) \<Rightarrow> audit_context option \<Rightarrow> catalog_action \<Rightarrow> unit svc" where
  "run_catalog u ok ctx (CreateCategory n sl ds so vis) = discard (create_category u n sl ds so vis ctx)"
| "run_catalog u ok ctx (UpdateCategory i n sl ds so vis) = discard (update_category u i n sl ds so vis ctx)"
| "run_catalog u ok ctx (DeleteCategory i) = delete_category u i ctx"
| "run_catalog u ok ctx (CreateTag n sl) = discard (create_tag u n sl ctx)"
| "run_catalog u ok ctx (UpdateTag i n sl) = discard (update_tag u i n sl ctx)"
| "run_catalog u ok ctx (DeleteTag i) = delete_tag u i ctx"
| "run_catalog u ok ctx (CreateSoftware x c ids vis feat) = discard (create_software u ok x c ids vis feat ctx)"
| "run_catalog u ok ctx (UpdateSoftware i x c ids vis feat) = discard (update_software u ok i x c ids vis feat ctx)"
| "run_catalog u ok ctx (ReplaceTags i ids) = discard (replace_software_tags u i ids ctx)"
| "run_catalog u ok ctx (TransitionSoftware i st) = discard (transition_software u i st ctx)"
| "run_catalog u ok ctx (SetSoftwareVisibility i vis) = discard (set_software_visibility u i vis ctx)"
| "run_catalog u ok ctx (CreateRelease i v c rd cl) = discard (create_release u i v c rd cl ctx)"
| "run_catalog u ok ctx (UpdateRelease i v c rd cl) = discard (update_release u i v c rd cl ctx)"
| "run_catalog u ok ctx (TransitionRelease i st) = discard (transition_release u i st ctx)"
| "run_catalog u ok ctx (SetCurrentStable i) = discard (set_current_stable u i ctx)"
| "run_catalog u ok ctx (ClearCurrent i) = discard (clear_current u i ctx)"




section \<open>Reachable catalogues\<close>

definition user_ids :: "database \<Rightarrow> nat set" where
  "user_ids d = user_id ` set (db_users d)"

text \<open>Other processes keep the invariant and remove no user.\<close>

definition peaceful :: "world \<Rightarrow> bool" where
  "peaceful s \<longleftrightarrow> (\<forall>n d. catalog_sound d \<longrightarrow> catalog_sound (w_env s n d) \<and> user_ids d \<subseteq> user_ids (w_env s n d))"

lemma audit_user_mono: "audit_user_ok ctx d \<Longrightarrow> user_ids d \<subseteq> user_ids d' \<Longrightarrow> audit_user_ok ctx d'"
  by (auto simp: audit_user_ok_def user_ids_def split: option.splits)

lemma peaceful_drifted:
  assumes "peaceful s" and "drifted s d d'" and "catalog_sound d"
  shows "catalog_sound d' \<and> user_ids d \<subseteq> user_ids d'"
proof -
  obtain ns where d': "d' = fold (w_env s) ns d" using assms(2) by (auto simp: drifted_def)
  have "catalog_sound (fold (w_env s) ns d) \<and> user_ids d \<subseteq> user_ids (fold (w_env s) ns d)"
    using assms(3)
  proof (induction ns arbitrary: d)
    case (Cons n ns)
    then have "catalog_sound (w_env s n d)" "user_ids d \<subseteq> user_ids (w_env s n d)"
      using assms(1) by (auto simp: peaceful_def)
    then show ?case using Cons.IH [of "w_env s n d"] by auto
  qed simp
  then show ?thesis by (simp add: d')
qed

lemma peaceful_ready:
  assumes "peaceful s" and "catalog_sound (w_db s)" and "audit_user_ok ctx (w_db s)"
  shows "ready_for ctx s"
  unfolding ready_for_def
  using peaceful_drifted [OF assms(1) _ assms(2)] audit_user_mono [OF assms(3)] by auto

inductive catalog_reachable :: "unicode \<Rightarrow> (str \<Rightarrow> bool) \<Rightarrow> world \<Rightarrow> world \<Rightarrow> bool"
  for u ok s0 where
  initial: "catalog_reachable u ok s0 s0"
| action: "catalog_reachable u ok s0 s \<Longrightarrow> audit_user_ok ctx (w_db s) \<Longrightarrow>
    run_catalog u ok ctx a s = (res, t) \<Longrightarrow> catalog_reachable u ok s0 t"

inductive_cases catalog_reachableE: "catalog_reachable u ok s0 t"




lemma quiet_peaceful: "quiet s \<Longrightarrow> peaceful s"
  by (simp add: quiet_def peaceful_def)

section \<open>The start state of the witnesses\<close>

definition demo_ctx :: audit_context where
  "demo_ctx = \<lparr>ctx_user_id = 1, ctx_request_id = None, ctx_ip_hash = None\<rparr>"

lemma demo_catalog:
  "catalog_sound demo_database" "audit_user_ok (Some demo_ctx) demo_database" "quiet demo_world"
  "w_db demo_world = demo_database"
proof -
  have "is_slug [97]" by code_simp
  then show "catalog_sound demo_database"
    using demo_constraints
    by (simp add: catalog_sound_def demo_database_def empty_database_def good_software_def
        good_release_def demo_software_def demo_release_def)
qed (simp_all add: audit_user_ok_def demo_ctx_def demo_database_def demo_user_def quiet_def demo_world_def)

lemma demo_ready: "ready_for (Some demo_ctx) demo_world" "peaceful demo_world"
  "catalog_sound (w_db demo_world)"
  using demo_catalog peaceful_ready quiet_peaceful by auto

section \<open>Properties\<close>





lemma distinct_singleton_set: "distinct ys \<Longrightarrow> set ys = {x} \<Longrightarrow> ys = [x]"
  by (cases ys; cases "tl ys") auto

lemma filter_unique:
  assumes "distinct xs" and "x \<in> set xs" and "P x" and "\<And>y. y \<in> set xs \<Longrightarrow> P y \<Longrightarrow> y = x"
  shows "filter P xs = [x]"
proof (rule distinct_singleton_set)
  show "set (filter P xs) = {x}"
  proof (rule subset_antisym)
    show "set (filter P xs) \<subseteq> {x}"
    proof
      fix y assume "y \<in> set (filter P xs)"
      then have "y \<in> set xs" "P y" by auto
      then show "y \<in> {x}" unfolding singleton_iff by (rule assms(4))
    qed
    show "{x} \<subseteq> set (filter P xs)" using assms(2,3) by simp
  qed
qed (simp add: assms(1))

lemma quiet_took_effect: "quiet s \<Longrightarrow> took_effect P s t \<Longrightarrow> P (w_db s) (w_db t) \<and> catalog_sound (w_db t)"
  by (auto simp: took_effect_def quiet_drifted)

text \<open>
  C24: choosing the current stable release moves the marker. Afterwards the look-up of the
  current release of the software entry finds exactly the requested one, which is stable and
  published; no release but those of the entry changed, and of these nothing but the marker.
\<close>

theorem current_release_moves:
  assumes "quiet s" and "catalog_sound (w_db s)" and "audit_user_ok ctx (w_db s)"
    and run: "set_current_stable u i ctx s = (Inr r, t)"
  shows "rel_id r = i \<and> rel_channel r = ChannelStable \<and> rel_status r = ReleasePublished
    \<and> filter (\<lambda>q. rel_software_id q = rel_software_id r \<and> rel_channel q = ChannelStable \<and> rel_is_current q)
        (db_releases (w_db t)) = [r]
    \<and> map (rel_is_current_update (\<lambda>_. False)) (db_releases (w_db t))
        = map (rel_is_current_update (\<lambda>_. False)) (db_releases (w_db s))
    \<and> (\<forall>q \<in> set (db_releases (w_db s)). rel_software_id q \<noteq> rel_software_id r \<longrightarrow> q \<in> set (db_releases (w_db t)))"
proof -
  have m: "current_moved u ctx i r (w_db s) (w_db t)" and sound: "catalog_sound (w_db t)"
    using wp_run_Inr [OF wp_set_current_stable [OF peaceful_ready [OF quiet_peaceful [OF assms(1)] assms(2,3)]] run]
      quiet_took_effect [OF assms(1)] by auto
  then obtain r0 w where get: "row_get rel_id i (db_releases (w_db s)) = Some r0"
    and cand: "ensure_current_stable_candidate r0 w = Inr ()" and r: "r = r0\<lparr>rel_is_current := True\<rparr>"
    and rows: "db_releases (w_db t) = row_update rel_id i (\<lambda>_. r)
      (map (clear_marker (rel_software_id r) i) (db_releases (w_db s)))"
    by (auto simp: current_moved_def dest: auditedD)
  have i: "rel_id r0 = i" using row_get_in(2) [OF get] .
  let ?P = "\<lambda>q. rel_software_id q = rel_software_id r \<and> rel_channel q = ChannelStable \<and> rel_is_current q"
  have keys: "distinct_keys rel_id (db_releases (w_db s))"
    using assms(2) by (simp add: catalog_sound_def db_constraints_def releases_ok_def)
  have mem: "r \<in> set (db_releases (w_db t))"
    using row_get_in(1) [OF get] i by (force simp: rows row_update_def)
  have only: "q = r" if "q \<in> set (db_releases (w_db t))" "?P q" for q
    using that by (auto simp: rows row_update_def clear_marker_def cleared_by_def split: if_splits)
  have "distinct (db_releases (w_db t))"
    using sound by (auto simp: catalog_sound_def db_constraints_def releases_ok_def distinct_keys_def distinct_map)
  then have "filter ?P (db_releases (w_db t)) = [r]"
    by (rule filter_unique [OF _ mem _ only]) (simp_all add: r candidate_ok(1) [OF cand])
  moreover have "map (rel_is_current_update (\<lambda>_. False)) (db_releases (w_db t))
        = map (rel_is_current_update (\<lambda>_. False)) (db_releases (w_db s))"
    using row_get_unique [OF keys] get
    by (auto simp: rows row_update_def clear_marker_def r)
  moreover have "q \<in> set (db_releases (w_db t))"
    if "q \<in> set (db_releases (w_db s))" "rel_software_id q \<noteq> rel_software_id r" for q
    using that row_get_unique [OF keys that(1)] get r
    by (force simp: rows row_update_def clear_marker_def cleared_by_def)
  ultimately show ?thesis using i r candidate_ok(1) [OF cand] by simp
qed

lemma audit_user_demo [simp]: "audit_user_ok (Some demo_ctx) (w_db demo_world)"
  by (simp add: demo_catalog)

theorem current_release_moves_witness:
  "filter (\<lambda>q. rel_software_id q = 1 \<and> rel_channel q = ChannelStable \<and> rel_is_current q)
      (db_releases (w_db (snd (set_current_stable ascii_only 1 (Some demo_ctx) demo_world))))
    = [demo_release\<lparr>rel_is_current := True\<rparr>]"
proof -
  let ?run = "set_current_stable ascii_only 1 (Some demo_ctx) demo_world"
  have r: "fst ?run = Inr (demo_release\<lparr>rel_is_current := True\<rparr>)" by code_simp
  have run: "?run = (Inr (demo_release\<lparr>rel_is_current := True\<rparr>), snd ?run)"
    by (metis prod.collapse r)
  from current_release_moves [OF demo_catalog(3) demo_ready(3) audit_user_demo run] show ?thesis
    by (simp add: demo_release_def)
qed

text \<open>
  Updating a software entry attaches exactly the requested tags and the requested
  category, takes the normalised fields, leaves the lifecycle state alone, and touches no
  other entry and no other entry's tags.
\<close>

theorem software_update_exact:
  assumes "quiet s" and "catalog_sound (w_db s)" and "audit_user_ok ctx (w_db s)"
    and run: "update_software u ok i x cid ids vis feat ctx s = (Inr w, t)"
  shows "\<exists>w0 y. row_get sw_id i (db_softwares (w_db s)) = Some w0 \<and> normalize_software_fields u ok x = Inr y
    \<and> w = (with_fields y w0)\<lparr>sw_category_id := cid, sw_visibility := vis, sw_is_featured := feat\<rparr>
    \<and> row_get sw_id i (db_softwares (w_db t)) = Some w
    \<and> {k. (i, k) \<in> set (db_software_tags (w_db t))} = set ids
    \<and> (\<forall>j k. j \<noteq> i \<longrightarrow> ((j, k) \<in> set (db_software_tags (w_db t)) \<longleftrightarrow> (j, k) \<in> set (db_software_tags (w_db s)))
        \<and> row_get sw_id j (db_softwares (w_db t)) = row_get sw_id j (db_softwares (w_db s)))"
proof -
  obtain y where y: "normalize_software_fields u ok x = Inr y"
    and e: "software_updated u ctx i (software_edit y cid vis feat) ids w (w_db s) (w_db t)"
    using wp_run_Inr [OF wp_update_software [OF peaceful_ready [OF quiet_peaceful [OF assms(1)] assms(2,3)]] run]
      quiet_took_effect [OF assms(1)] by blast
  then obtain w0 tags where get: "row_get sw_id i (db_softwares (w_db s)) = Some w0"
    and w: "w = software_edit y cid vis feat w0" and tags: "requested_tags ids tags (w_db s)"
    and a: "audited u ctx SOFTWARE_UPDATED (put_tags i tags
       ((w_db s)\<lparr>db_softwares := row_update sw_id i (\<lambda>_. w) (db_softwares (w_db s))\<rparr>)) (w_db t)"
    by (auto simp: software_updated_def)
  have rows: "db_softwares (w_db t) = row_update sw_id i (\<lambda>_. w) (db_softwares (w_db s))"
    "db_software_tags (w_db t) = filter (\<lambda>(j, k). j \<noteq> i) (db_software_tags (w_db s)) @ map (\<lambda>x. (i, tag_id x)) tags"
    using auditedD(5,6) [OF a] by (simp_all add: put_tags_def)
  have i: "sw_id w = i" using row_get_in(2) [OF get] w by simp
  have "row_get sw_id i (row_update sw_id i (\<lambda>_. w) rs) = Some w" if "row_get sw_id i rs = Some w0" for rs
    using that i by (induction rs) (auto simp: row_get_def row_update_def split: if_splits)
  moreover have "row_get sw_id j (row_update sw_id i (\<lambda>_. w) rs) = row_get sw_id j rs" if "j \<noteq> i" for j rs
    using that i by (induction rs) (auto simp: row_get_def row_update_def)
  ultimately show ?thesis
    using y get w tags by (auto simp: rows software_edit_def requested_tags_def)
qed

definition demo_input :: software_input where
  "demo_input = \<lparr>in_name = [65], in_slug = [98], in_short_description = [99], in_full_description = None,
     in_developer_name = None, in_official_website_url = None, in_source_url = None,
     in_license_name = None, in_supported_os = None, in_system_requirements = None\<rparr>"

theorem software_update_exact_witness:
  "{k. (1, k) \<in> set (db_software_tags (w_db (snd (update_software ascii_only (\<lambda>_. True) 1 demo_input None []
      VisPublic True (Some demo_ctx) demo_world))))} = {}"
proof -
  let ?run = "update_software ascii_only (\<lambda>_. True) 1 demo_input None [] VisPublic True (Some demo_ctx) demo_world"
  have "case fst ?run of Inl _ \<Rightarrow> False | Inr _ \<Rightarrow> True" by code_simp
  then obtain w where "?run = (Inr w, snd ?run)"
    by (cases "fst ?run") (auto, metis prod.collapse)
  from software_update_exact [OF demo_catalog(3) demo_ready(3) audit_user_demo this] show ?thesis by auto
qed

text \<open>
  C25: a software entry that was just created is found by its slug, in any letter case and
  with blanks around it, and nothing else is; it starts as a draft with the requested tags.
\<close>

theorem created_software_found:
  assumes "quiet s" and "catalog_sound (w_db s)" and "audit_user_ok ctx (w_db s)"
    and run: "create_software u ok x cid ids vis feat ctx s = (Inr w, t)"
    and key: "casefold u (strip key) = sw_slug w"
  shows "by_slug sw_slug u key (db_softwares (w_db t)) = Some w \<and> sw_status w = SoftwareDraft
    \<and> (\<forall>v \<in> set (db_softwares (w_db s)). sw_slug v \<noteq> sw_slug w)
    \<and> {k. (sw_id w, k) \<in> set (db_software_tags (w_db t))} = set ids"
proof -
  obtain y where e: "software_created u ctx (new_software y cid vis feat) ids w (w_db s) (w_db t)"
    using wp_run_Inr [OF wp_create_software [OF peaceful_ready [OF quiet_peaceful [OF assms(1)] assms(2,3)]] run]
      quiet_took_effect [OF assms(1)] by blast
  let ?w = "new_software y cid vis feat"
  obtain tags where w: "w = with_sw_id (next_id sw_id (db_softwares (w_db s))) ?w"
    and none: "find (\<lambda>v. sw_slug v = in_slug y) (db_softwares (w_db s)) = None"
    and tags: "requested_tags ids tags (w_db s)"
    and a: "audited u ctx SOFTWARE_CREATED (put_tags (sw_id w) tags
       ((w_db s)\<lparr>db_softwares := row_add sw_id with_sw_id ?w (db_softwares (w_db s))\<rparr>)) (w_db t)"
    using e by (auto simp: software_created_def)
  have rows: "db_softwares (w_db t) = db_softwares (w_db s) @ [w]"
    "db_software_tags (w_db t) = filter (\<lambda>(j, k). j \<noteq> sw_id w) (db_software_tags (w_db s)) @ map (\<lambda>x. (sw_id w, tag_id x)) tags"
    using auditedD(5,6) [OF a] w by (simp_all add: put_tags_def row_add_def)
  have slug: "sw_slug w = in_slug y" "sw_status w = SoftwareDraft"
    by (simp_all add: w with_sw_id_def new_software_def)
  have "find (\<lambda>v. sw_slug v = in_slug y) (rs @ [w]) = Some w" if "find (\<lambda>v. sw_slug v = in_slug y) rs = None" for rs
    using that slug by (induction rs) (auto split: if_splits)
  then show ?thesis
    using none tags by (auto simp: by_slug_def key slug rows requested_tags_def find_None_iff)
qed

theorem created_software_found_witness:
  "\<exists>w. by_slug sw_slug ascii_only [32, 98] (db_softwares (w_db (snd (create_software ascii_only (\<lambda>_. True)
      demo_input None [] VisPublic True (Some demo_ctx) demo_world)))) = Some w"
proof -
  let ?run = "create_software ascii_only (\<lambda>_. True) demo_input None [] VisPublic True (Some demo_ctx) demo_world"
  have c: "case fst ?run of Inl _ \<Rightarrow> False | Inr w \<Rightarrow> sw_slug w = [98]" by code_simp
  then obtain w where w: "?run = (Inr w, snd ?run)" "sw_slug w = [98]"
    by (cases "fst ?run") (auto, metis prod.collapse)
  have "casefold ascii_only (strip [32, 98]) = sw_slug w" unfolding w(2) by code_simp
  from created_software_found [OF demo_catalog(3) demo_ready(3) audit_user_demo w(1) this] show ?thesis by blast
qed

text \<open>
  C27: the pages of a listing are the listing. Asking for the pages 1 to \<open>pages\<close> in turn
  gives every row once and in order; each of these pages is not empty, holds at most
  \<open>per_page\<close> rows, and has a next page exactly when it is not the last. The number of pages
  is computed with a rounded division, which is exact for fewer than \<open>2 ^ 53\<close> rows.
\<close>

theorem pages_partition:
  assumes "no_db_faults s" and "1 \<le> per" and "int (length (rows (w_db s))) < 2 ^ 53"
    and first: "page_of rows per 1 s = Some x"
  shows "concat (map (\<lambda>i. page_items (the (page_of rows per i s))) [1..page_pages x]) = rows (w_db s)
    \<and> (\<forall>i \<in> {1..page_pages x}. page_items (the (page_of rows per i s)) \<noteq> []
        \<and> int (length (page_items (the (page_of rows per i s)))) \<le> per
        \<and> (page_has_next (the (page_of rows per i s)) \<longleftrightarrow> i < page_pages x))"
proof -
  let ?n = "int (length (rows (w_db s)))"
  have x: "page_pages x = (if rows (w_db s) = [] then 0 else ceil_div_float ?n per)"
    using first page_of_eq [OF assms(1) _ assms(2), of 1 rows] by (auto simp: page_pages_def)
  have pg: "page_of rows per i s = Some \<lparr>page_items = take (nat per) (drop (nat ((i - 1) * per)) (rows (w_db s))),
     page_total = ?n, page_number = i, page_per_page = per\<rparr>" if "1 \<le> i" for i
    by (rule page_of_eq [OF assms(1) that assms(2)])
  have eq: "map (\<lambda>i. page_items (the (page_of rows per i s))) [1..page_pages x]
      = map (\<lambda>i. take (nat per) (drop (nat ((i - 1) * per)) (rows (w_db s)))) [1..page_pages x]"
    by (auto simp: pg)
  have "concat (map (\<lambda>i. page_items (the (page_of rows per i s))) [1..page_pages x]) = rows (w_db s)"
    unfolding eq by (rule pages_concat [OF assms(3,2) x])
  moreover have "page_items (the (page_of rows per i s)) \<noteq> []
      \<and> int (length (page_items (the (page_of rows per i s)))) \<le> per
      \<and> (page_has_next (the (page_of rows per i s)) \<longleftrightarrow> i < page_pages x)"
    if i: "i \<in> {1..page_pages x}" for i
  proof -
    have pp: "page_pages (the (page_of rows per i s)) = page_pages x"
      unfolding x using i by (simp add: pg) (simp add: page_pages_def)
    have ne: "rows (w_db s) \<noteq> []" using that x by auto
    have "(i - 1) * per \<le> (page_pages x - 1) * per"
      using that assms(2) by (intro mult_right_mono) auto
    also have "\<dots> < ?n" using pages_cover(2) [OF assms(3,2) ne] ne by (simp add: x)
    finally have "nat ((i - 1) * per) < length (rows (w_db s))"
      using that assms(2) by (simp add: nat_less_iff)
    then show ?thesis unfolding page_has_next_def pp using i assms(2) by (simp add: pg)
  qed
  ultimately show ?thesis by blast
qed

theorem pages_partition_witness:
  "concat (map (\<lambda>i. page_items (the (page_of db_softwares 10 i demo_world))) [1..1]) = [demo_software]"
proof -
  have n: "no_db_faults demo_world" by (simp add: no_db_faults_def demo_world_def)
  have len: "db_softwares demo_database = [demo_software]" by (simp add: demo_database_def)
  have p: "page_of db_softwares 10 1 demo_world = Some \<lparr>page_items = [demo_software], page_total = 1,
      page_number = 1, page_per_page = 10\<rparr>"
    using page_of_eq [OF n, of 1 10 db_softwares] by (simp add: demo_catalog len)
  have "ceil_div_float 1 10 = 1" by code_simp
  then show ?thesis
    using pages_partition [OF n _ _ p] by (simp add: page_pages_def demo_catalog len)
qed

end
