(* ===== verification/Security.thy ===== *)
theory Security
  imports AuditTrail
begin

text \<open>
  \<open>app/core/security.py\<close>: the password policy, user names, session tokens and the keyed
  identifiers of the audit log, with the settings of \<open>app/core/config.py\<close> they read. The
  cryptographic primitives are a parameter: SHA-256 and HMAC-SHA256 as functions on bytes,
  Argon2 as the answers of its hasher, the random source as what it returns at a moment
  \<open>n\<close> (the count of statements sent so far, which only grows).
\<close>

section \<open>Settings\<close>

record settings =
  app_secret_key :: "str option"
  csrf_secret :: "str option"
  csrf_token_ttl_seconds :: int
  csrf_token_max_length :: int
  login_csrf_ttl_seconds :: int
  session_idle_timeout_seconds :: int
  session_absolute_timeout_seconds :: int
  session_touch_interval_seconds :: int
  login_max_failed_attempts :: int
  login_lockout_seconds :: int
  password_min_length :: int
  password_max_length :: int

text \<open>The ranges declared on the fields.\<close>

definition field_ranges :: "settings \<Rightarrow> bool" where
  "field_ranges cfg \<longleftrightarrow>
     300 \<le> csrf_token_ttl_seconds cfg \<and> csrf_token_ttl_seconds cfg \<le> 43200
   \<and> 128 \<le> csrf_token_max_length cfg \<and> csrf_token_max_length cfg \<le> 2048
   \<and> 60 \<le> login_csrf_ttl_seconds cfg \<and> login_csrf_ttl_seconds cfg \<le> 3600
   \<and> 60 \<le> session_idle_timeout_seconds cfg \<and> session_idle_timeout_seconds cfg \<le> 86400
   \<and> 300 \<le> session_absolute_timeout_seconds cfg \<and> session_absolute_timeout_seconds cfg \<le> 604800
   \<and> 0 \<le> session_touch_interval_seconds cfg \<and> session_touch_interval_seconds cfg \<le> 3600
   \<and> 2 \<le> login_max_failed_attempts cfg \<and> login_max_failed_attempts cfg \<le> 20
   \<and> 60 \<le> login_lockout_seconds cfg \<and> login_lockout_seconds cfg \<le> 86400
   \<and> 8 \<le> password_min_length cfg \<and> password_min_length cfg \<le> 128
   \<and> 64 \<le> password_max_length cfg \<and> password_max_length cfg \<le> 4096"

section \<open>Cryptographic primitives\<close>

datatype argon_result =
    ArgonReturns bool | ArgonVerificationError | ArgonInvalidHashError | ArgonRaises exn

record crypto =
  sha256_digest :: "bytes \<Rightarrow> bytes"
  hmac_sha256 :: "bytes \<Rightarrow> bytes \<Rightarrow> bytes"
  token_urlsafe :: "nat \<Rightarrow> str"
  argon_hash :: "nat \<Rightarrow> str \<Rightarrow> exn + str"
  argon_verify :: "str \<Rightarrow> str \<Rightarrow> argon_result"
  argon_needs_rehash :: "str \<Rightarrow> bool option"
  dummy_hash :: str

text \<open>\<open>s.encode("utf-8")\<close> and \<open>s.encode("ascii")\<close>\<close>

definition encode_utf8 :: "str \<Rightarrow> exn + bytes" where
  "encode_utf8 s =
     (case utf8_encode s of None \<Rightarrow> Inl ValueError | Some bs \<Rightarrow> Inr (map of_nat bs))"

definition encode_ascii :: "str \<Rightarrow> exn + bytes" where
  "encode_ascii s = (if is_ascii s then Inr (map of_nat s) else Inl ValueError)"

text \<open>\<open>hmac.compare_digest\<close> on two strings refuses what is not ASCII.\<close>

definition compare_digest :: "str \<Rightarrow> str \<Rightarrow> exn + bool" where
  "compare_digest a b = (if is_ascii a \<and> is_ascii b then Inr (a = b) else Inl TypeError)"

definition hex_digit :: "nat \<Rightarrow> nat" where
  "hex_digit n = (if n < 10 then 48 + n else 87 + n)"

definition hex_of :: "bytes \<Rightarrow> str" where
  "hex_of bs = concat (map (\<lambda>b. [hex_digit (unat b div 16), hex_digit (unat b mod 16)]) bs)"

definition hex_value :: "nat \<Rightarrow> nat option" where
  "hex_value c =
     (if is_digit c then Some (c - 48)
      else if 97 \<le> c \<and> c \<le> 102 then Some (c - 87)
      else if 65 \<le> c \<and> c \<le> 70 then Some (c - 55)
      else None)"

definition ascii_space :: "nat \<Rightarrow> bool" where
  "ascii_space c = ((9 \<le> c \<and> c \<le> 13) \<or> c = 32)"

text \<open>\<open>bytes.fromhex\<close>: blanks are skipped between bytes.\<close>

fun fromhex :: "str \<Rightarrow> bytes option" where
  "fromhex [] = Some []"
| "fromhex [c] = (if ascii_space c then Some [] else None)"
| "fromhex (c # d # cs) =
     (if ascii_space c then fromhex (d # cs)
      else case (hex_value c, hex_value d) of
        (Some x, Some y) \<Rightarrow> map_option (\<lambda>bs. of_nat (16 * x + y) # bs) (fromhex cs)
      | _ \<Rightarrow> None)"

section \<open>Passwords\<close>

definition validate_password :: "unicode \<Rightarrow> settings \<Rightarrow> str \<Rightarrow> str option \<Rightarrow> exn + unit" where
  "validate_password u cfg password username =
     rbind (require (\<not> int (length password) < password_min_length cfg) ValidationError) (\<lambda>_.
     rbind (require (\<not> int (length password) > password_max_length cfg) ValidationError) (\<lambda>_.
     rbind (require (password = strip password) ValidationError) (\<lambda>_.
     case username of
       None \<Rightarrow> Inr ()
     | Some name \<Rightarrow> require (casefold u password \<noteq> casefold u name) ValidationError)))"

definition hash_password ::
  "unicode \<Rightarrow> crypto \<Rightarrow> settings \<Rightarrow> nat \<Rightarrow> str \<Rightarrow> str option \<Rightarrow> exn + str" where
  "hash_password u c cfg n password username =
     rbind (validate_password u cfg password username) (\<lambda>_. argon_hash c n password)"

definition verify_password :: "crypto \<Rightarrow> str \<Rightarrow> str \<Rightarrow> exn + bool" where
  "verify_password c password password_hash =
     (case argon_verify c password_hash password of
        ArgonReturns b \<Rightarrow> Inr b
      | ArgonVerificationError \<Rightarrow> Inr False
      | ArgonInvalidHashError \<Rightarrow> Inr False
      | ArgonRaises e \<Rightarrow> Inl e)"

definition verify_unknown_user :: "crypto \<Rightarrow> str \<Rightarrow> exn + unit" where
  "verify_unknown_user c password =
     rbind (verify_password c password (dummy_hash c)) (\<lambda>_. Inr ())"

text \<open>\<open>check_needs_rehash\<close>; \<open>None\<close> is an \<open>InvalidHashError\<close>.\<close>

definition needs_rehash :: "crypto \<Rightarrow> str \<Rightarrow> bool" where
  "needs_rehash c password_hash =
     (case argon_needs_rehash c password_hash of None \<Rightarrow> True | Some b \<Rightarrow> b)"

section \<open>User names\<close>

definition username_char :: "nat \<Rightarrow> bool" where
  "username_char c = (is_lower_alnum c \<or> c = 46 \<or> c = 95 \<or> c = 45)"

text \<open>\<open>_USERNAME_PATTERN.fullmatch\<close>\<close>

definition is_username :: "str \<Rightarrow> bool" where
  "is_username s =
     (s \<noteq> [] \<and> is_lower_alnum (hd s) \<and> is_lower_alnum (last s) \<and> list_all username_char s
      \<and> (length s = 1 \<or> (3 \<le> length s \<and> length s \<le> 100)))"

definition normalize_username :: "unicode \<Rightarrow> str \<Rightarrow> exn + str" where
  "normalize_username u username =
     (let normalized = casefold u (strip username) in
      if is_username normalized then Inr normalized else Inl ValidationError)"

section \<open>Tokens and identifiers\<close>

definition hash_session_token :: "crypto \<Rightarrow> str \<Rightarrow> exn + str" where
  "hash_session_token c token =
     rbind (encode_utf8 token) (\<lambda>bs. Inr (hex_of (sha256_digest c bs)))"

definition hmac_identifier :: "crypto \<Rightarrow> str \<Rightarrow> str \<Rightarrow> str option \<Rightarrow> exn + str option" where
  "hmac_identifier c secret purpose val =
     (case val of
        None \<Rightarrow> Inr None
      | Some v \<Rightarrow>
          if strip v = [] then Inr None
          else rbind (encode_utf8 (purpose @ 0 # strip v)) (\<lambda>payload.
               rbind (encode_utf8 secret) (\<lambda>key.
               Inr (Some (hex_of (hmac_sha256 c key payload))))))"

definition derive_csrf_secret_hash :: "crypto \<Rightarrow> str \<Rightarrow> str \<Rightarrow> exn + str" where
  "derive_csrf_secret_hash c secret session_token_hash =
     rbind (hmac_identifier c secret (py ''csrf-session'') (Some session_token_hash)) (\<lambda>h.
     Inr (case h of None \<Rightarrow> [] | Some x \<Rightarrow> x))"

section \<open>Facts\<close>

lemma hex_value_digit: "n < 16 \<Longrightarrow> hex_value (hex_digit n) = Some n"
  by (auto simp: hex_value_def hex_digit_def is_digit_def)

lemma hex_digit_not_space: "n < 16 \<Longrightarrow> \<not> ascii_space (hex_digit n)"
  by (auto simp: hex_digit_def ascii_space_def)

lemma hex_digit_hex: "n < 16 \<Longrightarrow> is_hex (hex_digit n)"
  by (auto simp: hex_digit_def is_hex_def is_digit_def)

lemma unat_byte: "unat (b :: byte) < 256"
  using unsigned_less [of b] by simp

lemma byte_halves: "unat (b :: byte) div 16 < 16" "unat b mod 16 < 16"
  using unat_byte [of b] by auto

lemma fromhex_hex_of [text_simps]: "fromhex (hex_of bs) = Some bs"
proof (induction bs)
  case (Cons b bs)
  have "of_nat (16 * (unat b div 16) + unat b mod 16) = b"
    by simp
  then show ?case
    using Cons byte_halves [of b]
    by (simp add: hex_of_def hex_value_digit hex_digit_not_space del: of_nat_add of_nat_mult)
qed (simp add: hex_of_def)

lemma hex_of_length [text_simps]: "length (hex_of bs) = 2 * length bs"
  by (induction bs) (simp_all add: hex_of_def)

lemma hex_of_hex: "list_all is_hex (hex_of bs)"
  by (induction bs) (simp_all add: hex_of_def hex_digit_hex byte_halves)

lemma hex_of_inj: "hex_of a = hex_of b \<longleftrightarrow> a = b"
  by (metis fromhex_hex_of option.inject)

lemma is_hex_ascii: "list_all is_hex s \<Longrightarrow> is_ascii s"
  by (auto simp: list_all_iff is_ascii_def is_hex_def is_digit_def)

lemma username_ascii: "is_username s \<Longrightarrow> is_ascii s"
  by (auto simp: is_username_def is_ascii_def list_all_iff username_char_def is_lower_alnum_def
      is_lower_def is_digit_def)

lemma username_no_upper: "is_username s \<Longrightarrow> list_all (\<lambda>c. c < 128 \<and> \<not> is_upper c) s"
  by (auto simp: is_username_def list_all_iff username_char_def is_lower_alnum_def
      is_lower_def is_digit_def is_upper_def)

lemma username_stripped: "is_username s \<Longrightarrow> strip s = s"
  unfolding strip_def
  by (rule strip_set_id) (auto simp: is_username_def dest: lower_alnum_not_space)

lemma normalize_username_ok:
  "normalize_username u s = Inr n \<Longrightarrow> is_username n \<and> n = casefold u (strip s)"
  by (auto simp: normalize_username_def Let_def split: if_splits)

lemma normalize_username_error: "normalize_username u s = Inl e \<Longrightarrow> e = ValidationError"
  by (auto simp: normalize_username_def Let_def split: if_splits)

lemma normalize_username_fixed: "is_username n \<Longrightarrow> normalize_username u n = Inr n"
  by (simp add: normalize_username_def username_stripped casefold_id username_no_upper)

lemma encode_ascii_utf8: "is_ascii s \<Longrightarrow> encode_utf8 s = Inr (map of_nat s)"
  by (simp add: encode_utf8_def utf8_encode_ascii)

lemma hmac_identifier_Some:
  "hmac_identifier c secret purpose v = Inr (Some h) \<Longrightarrow> list_all is_hex h"
  by (auto simp: hmac_identifier_def rbind_eq_Inr hex_of_hex split: option.splits if_splits)

lemma hash_session_token_hex: "hash_session_token c t = Inr h \<Longrightarrow> list_all is_hex h"
  by (auto simp: hash_session_token_def rbind_eq_Inr hex_of_hex)

text \<open>A user name is its own lower case for SQLite's ASCII \<open>lower\<close>.\<close>

definition sql_lower :: "str \<Rightarrow> str" where
  "sql_lower s = map (\<lambda>c. if is_upper c then c + 32 else c) s"

lemma sql_lower_username: "is_username n \<Longrightarrow> sql_lower n = n"
  unfolding sql_lower_def
  by (rule map_idI) (use username_no_upper [of n] in \<open>auto simp: list_all_iff\<close>)

end
