(* ===== verification/Sessions.thy ===== *)
theory Sessions
  imports Security
begin

text \<open>
  \<open>app/services/session_service.py\<close> with \<open>app/repositories/session_repository.py\<close> and
  \<open>user_repository.py\<close>: server-side sessions with a sliding idle deadline below an absolute
  one. The raw token is only hashed and looked up. \<open>authenticate\<close> and \<open>revoke\<close> run their
  checks inside one transaction.
\<close>

section \<open>Repositories\<close>

definition get_by_username :: "unicode \<Rightarrow> str \<Rightarrow> database \<Rightarrow> user option" where
  "get_by_username u username d =
     (let normalized = casefold u (strip username) in
      find (\<lambda>x. sql_lower (user_username x) = normalized) (db_users d))"

definition get_by_token_hash :: "str \<Rightarrow> database \<Rightarrow> user_session option" where
  "get_by_token_hash token_hash d = find (\<lambda>r. ses_token_hash r = token_hash) (db_sessions d)"

definition put_user :: "user \<Rightarrow> unit svc" where
  "put_user x = change (\<lambda>d. d\<lparr>db_users := row_update user_id (user_id x) (\<lambda>_. x) (db_users d)\<rparr>)"

definition put_session :: "user_session \<Rightarrow> unit svc" where
  "put_session x = change (\<lambda>d. d\<lparr>db_sessions := row_update ses_id (ses_id x) (\<lambda>_. x) (db_sessions d)\<rparr>)"

text \<open>The rows a bulk revocation changes.\<close>

definition to_revoke :: "nat \<Rightarrow> nat option \<Rightarrow> user_session \<Rightarrow> bool" where
  "to_revoke uid except_session_id r =
     (ses_user_id r = uid \<and> ses_revoked_at r = None
      \<and> (case except_session_id of None \<Rightarrow> True | Some i \<Rightarrow> ses_id r \<noteq> i))"

definition revoke_rows ::
  "nat \<Rightarrow> datetime \<Rightarrow> nat option \<Rightarrow> user_session list \<Rightarrow> user_session list" where
  "revoke_rows uid now except_session_id rows =
     map (\<lambda>r. if to_revoke uid except_session_id r then r\<lparr>ses_revoked_at := Some now\<rparr> else r) rows"

definition sessions_revoke_all :: "nat \<Rightarrow> datetime \<Rightarrow> nat option \<Rightarrow> nat svc" where
  "sessions_revoke_all uid now except_session_id =
     bind sql_call (\<lambda>_.
     bind (gets (\<lambda>s. length (filter (to_revoke uid except_session_id) (db_sessions (w_db s))))) (\<lambda>count.
     bind (change (\<lambda>d. d\<lparr>db_sessions := revoke_rows uid now except_session_id (db_sessions d)\<rparr>)) (\<lambda>_.
     ret count)))"

definition is_expired :: "datetime \<Rightarrow> user_session \<Rightarrow> bool" where
  "is_expired now r = (ses_expires_at r \<le> now \<or> ses_absolute_expires_at r \<le> now)"

definition sessions_delete_expired :: "datetime \<Rightarrow> nat svc" where
  "sessions_delete_expired now =
     bind sql_call (\<lambda>_.
     bind (gets (\<lambda>s. length (filter (is_expired now) (db_sessions (w_db s))))) (\<lambda>count.
     bind (change (\<lambda>d. d\<lparr>db_sessions := filter (\<lambda>r. \<not> is_expired now r) (db_sessions d)\<rparr>)) (\<lambda>_.
     ret count)))"

section \<open>The service\<close>

record session_credentials =
  sc_token :: str
  sc_user :: user
  sc_expires_at :: datetime
  sc_absolute_expires_at :: datetime

record authenticated_session =
  as_session_id :: nat
  as_user :: user
  as_expires_at :: datetime
  as_absolute_expires_at :: datetime
  as_ip_changed :: bool
  as_user_agent_changed :: bool
  as_csrf_secret_hash :: str

definition require_secrets :: "settings \<Rightarrow> exn + (str \<times> str)" where
  "require_secrets cfg =
     (case (app_secret_key cfg, csrf_secret cfg) of
        (Some app, Some csrf) \<Rightarrow> Inr (app, csrf)
      | _ \<Rightarrow> Inl RuntimeError)"

definition client_hashes ::
  "crypto \<Rightarrow> settings \<Rightarrow> str option \<Rightarrow> str option \<Rightarrow> exn + (str option \<times> str option)" where
  "client_hashes c cfg ip_address user_agent =
     rbind (require_secrets cfg) (\<lambda>(app_secret, _).
     rbind (hmac_identifier c app_secret (py ''client-ip'') ip_address) (\<lambda>ip.
     rbind (hmac_identifier c app_secret (py ''user-agent'') user_agent) (\<lambda>agent.
     Inr (ip, agent))))"

definition new_session ::
  "settings \<Rightarrow> str \<Rightarrow> nat \<Rightarrow> datetime \<Rightarrow> str option \<Rightarrow> str option \<Rightarrow> str \<Rightarrow> user_session" where
  "new_session cfg token_hash uid now ip_hash agent_hash csrf_hash =
     (let absolute_expires_at = now + seconds (session_absolute_timeout_seconds cfg);
          expires_at = min (now + seconds (session_idle_timeout_seconds cfg)) absolute_expires_at
      in \<lparr>ses_id = 0, ses_token_hash = token_hash, ses_user_id = uid, ses_created_at = now,
          ses_last_activity_at = now, ses_expires_at = expires_at,
          ses_absolute_expires_at = absolute_expires_at, ses_revoked_at = None,
          ses_user_agent_hash = agent_hash, ses_ip_hash = ip_hash,
          ses_csrf_secret_hash = csrf_hash\<rparr>)"

text \<open>Inside the caller's transaction; the token is drawn at this moment.\<close>

definition create_record ::
  "crypto \<Rightarrow> settings \<Rightarrow> user \<Rightarrow> str option \<Rightarrow> str option \<Rightarrow> datetime \<Rightarrow> session_credentials svc" where
  "create_record c cfg usr ip_address user_agent now =
     bind (lift_result (require_secrets cfg)) (\<lambda>(_, csrf).
     bind (gets (\<lambda>s. token_urlsafe c (w_db_tick s))) (\<lambda>raw_token.
     bind (lift_result (hash_session_token c raw_token)) (\<lambda>token_hash.
     bind (lift_result (client_hashes c cfg ip_address user_agent)) (\<lambda>(ip_hash, agent_hash).
     bind (lift_result (derive_csrf_secret_hash c csrf token_hash)) (\<lambda>csrf_hash.
     let record = new_session cfg token_hash (user_id usr) now ip_hash agent_hash csrf_hash in
     bind (change (\<lambda>d. d\<lparr>db_sessions := row_add ses_id with_ses_id record (db_sessions d)\<rparr>)) (\<lambda>_.
     bind flush (\<lambda>_.
     ret \<lparr>sc_token = raw_token, sc_user = usr, sc_expires_at = ses_expires_at record,
          sc_absolute_expires_at = ses_absolute_expires_at record\<rparr>)))))))"

text \<open>The sliding deadline: moved at most once per touch interval, never past the absolute one.\<close>

definition touch_due :: "settings \<Rightarrow> datetime \<Rightarrow> user_session \<Rightarrow> bool" where
  "touch_due cfg now r =
     (now - ses_last_activity_at r \<ge> seconds (session_touch_interval_seconds cfg))"

definition touch :: "settings \<Rightarrow> datetime \<Rightarrow> user_session \<Rightarrow> user_session" where
  "touch cfg now r =
     (if touch_due cfg now r
      then r\<lparr>ses_last_activity_at := now,
             ses_expires_at := min (now + seconds (session_idle_timeout_seconds cfg))
               (ses_absolute_expires_at r)\<rparr>
      else r)"

definition fingerprint_changed :: "str option \<Rightarrow> str option \<Rightarrow> exn + bool" where
  "fingerprint_changed stored current =
     (case (stored, current) of
        (Some a, Some b) \<Rightarrow> rbind (compare_digest a b) (\<lambda>same. Inr (\<not> same))
      | _ \<Rightarrow> Inr False)"

text \<open>The part of \<open>authenticate\<close> after the row was found.\<close>

definition admit ::
  "crypto \<Rightarrow> settings \<Rightarrow> datetime \<Rightarrow> str option \<Rightarrow> str option \<Rightarrow> user_session \<Rightarrow> user
   \<Rightarrow> authenticated_session option svc" where
  "admit c cfg now ip_address user_agent r owner =
     (let r' = touch cfg now r in
      bind (if touch_due cfg now r
            then bind (put_session r') (\<lambda>_. flush) else ret ()) (\<lambda>_.
      bind (lift_result (client_hashes c cfg ip_address user_agent)) (\<lambda>(ip_hash, agent_hash).
      bind (lift_result (fingerprint_changed (ses_ip_hash r') ip_hash)) (\<lambda>ip_changed.
      bind (lift_result (fingerprint_changed (ses_user_agent_hash r') agent_hash)) (\<lambda>agent_changed.
      ret (Some \<lparr>as_session_id = ses_id r', as_user = owner, as_expires_at = ses_expires_at r',
             as_absolute_expires_at = ses_absolute_expires_at r', as_ip_changed = ip_changed,
             as_user_agent_changed = agent_changed,
             as_csrf_secret_hash = ses_csrf_secret_hash r'\<rparr>))))))"

definition authenticate ::
  "crypto \<Rightarrow> settings \<Rightarrow> str option \<Rightarrow> str option \<Rightarrow> str option \<Rightarrow> authenticated_session option svc" where
  "authenticate c cfg raw_token ip_address user_agent =
     (case raw_token of
        None \<Rightarrow> ret None
      | Some token \<Rightarrow>
          if token = [] then ret None
          else
            bind (lift_result (hash_session_token c token)) (\<lambda>token_hash.
            bind utc_now (\<lambda>now.
            transaction (
              bind (query (\<lambda>d. d)) (\<lambda>d.
              case get_by_token_hash token_hash d of
                None \<Rightarrow> ret None
              | Some r \<Rightarrow>
                  if ses_revoked_at r \<noteq> None then ret None
                  else if is_expired now r then ret None
                  else
                    (case row_get user_id (ses_user_id r) (db_users d) of
                       None \<Rightarrow> throw AttributeError
                     | Some owner \<Rightarrow>
                         if \<not> user_is_active owner then ret None
                         else admit c cfg now ip_address user_agent r owner))))))"

definition revoke ::
  "unicode \<Rightarrow> crypto \<Rightarrow> settings \<Rightarrow> str option \<Rightarrow> str option \<Rightarrow> str option \<Rightarrow> bool svc" where
  "revoke u c cfg raw_token request_id ip_address =
     (case raw_token of
        None \<Rightarrow> ret False
      | Some token \<Rightarrow>
          if token = [] then ret False
          else
            bind utc_now (\<lambda>now.
            bind (lift_result (hash_session_token c token)) (\<lambda>token_hash.
            bind (lift_result (client_hashes c cfg ip_address None)) (\<lambda>(ip_hash, _).
            transaction (
              bind (query (get_by_token_hash token_hash)) (\<lambda>found.
              case found of
                None \<Rightarrow> ret False
              | Some r \<Rightarrow>
                  if ses_revoked_at r \<noteq> None then ret False
                  else
                    bind (put_session (r\<lparr>ses_revoked_at := Some now\<rparr>)) (\<lambda>_.
                    bind (append_audit_event u ADMIN_LOGOUT AuditSuccess (Some (ses_user_id r))
                      (Some (py ''session'')) (Some (entity_id (ses_id r))) request_id ip_hash []) (\<lambda>_.
                    bind flush (\<lambda>_.
                    ret True)))))))))"

definition revoke_all_for_user ::
  "unicode \<Rightarrow> nat \<Rightarrow> nat option \<Rightarrow> str option \<Rightarrow> nat svc" where
  "revoke_all_for_user u uid except_session_id request_id =
     bind utc_now (\<lambda>now.
     transaction (
       bind (sessions_revoke_all uid now except_session_id) (\<lambda>count.
       bind (append_audit_event u ADMIN_SESSIONS_REVOKED AuditSuccess (Some uid) (Some (py ''user''))
         (Some (entity_id uid)) request_id None [(py ''revoked_count'', PInt (int count))]) (\<lambda>_.
       ret count))))"

definition cleanup_expired :: "unicode \<Rightarrow> str option \<Rightarrow> nat svc" where
  "cleanup_expired u request_id =
     bind utc_now (\<lambda>now.
     transaction (
       bind (sessions_delete_expired now) (\<lambda>count.
       bind (append_audit_event u EXPIRED_SESSIONS_CLEANED AuditSuccess None None None request_id None
         [(py ''deleted_count'', PInt (int count))]) (\<lambda>_.
       ret count))))"

end
