(* ===== verification/Auth.thy ===== *)
theory Auth
  imports Sessions
begin

text \<open>
  \<open>app/services/auth_service.py\<close>: provisioning an administrator, login with lockout and
  session rotation, password change. The checks of one operation run inside one transaction;
  the clock is read before it opens.
\<close>

record login_context =
  lc_ip_address :: "str option"
  lc_user_agent :: "str option"
  lc_request_id :: "str option"
  lc_previous_session_token :: "str option"

definition username_hash :: "crypto \<Rightarrow> settings \<Rightarrow> str \<Rightarrow> exn + str option" where
  "username_hash c cfg username =
     (case app_secret_key cfg of
        None \<Rightarrow> Inr None
      | Some secret \<Rightarrow> hmac_identifier c secret (py ''login-username'') (Some username))"

text \<open>An optional string as audit metadata.\<close>

fun py_option :: "str option \<Rightarrow> py_value" where
  "py_option None = PNone"
| "py_option (Some s) = PStr s"

section \<open>Provisioning\<close>

definition new_user :: "str \<Rightarrow> str \<Rightarrow> bool \<Rightarrow> datetime \<Rightarrow> user" where
  "new_user name password_hash is_superuser now =
     \<lparr>user_id = 0, user_username = name, user_password_hash = password_hash,
      user_is_active = True, user_is_superuser = is_superuser, user_failed_login_attempts = 0,
      user_locked_until = None, user_password_changed_at = Some now, user_last_login_at = None\<rparr>"

definition create_admin_body ::
  "unicode \<Rightarrow> str \<Rightarrow> str \<Rightarrow> bool \<Rightarrow> datetime \<Rightarrow> str option \<Rightarrow> user svc" where
  "create_admin_body u normalized password_hash is_superuser now request_id =
     bind (query (get_by_username u normalized)) (\<lambda>existing.
     bind (raise_if (existing \<noteq> None) EntityConflict) (\<lambda>_.
     bind (gets (\<lambda>s. next_id user_id (db_users (w_db s)))) (\<lambda>uid.
     let usr = new_user normalized password_hash is_superuser now in
     bind (change (\<lambda>d. d\<lparr>db_users := row_add user_id with_user_id usr (db_users d)\<rparr>)) (\<lambda>_.
     bind flush (\<lambda>_.
     bind (append_audit_event u ADMIN_CREATED AuditSuccess (Some uid) (Some (py ''user''))
       (Some (entity_id uid)) request_id None []) (\<lambda>_.
     ret (with_user_id uid usr)))))))"

definition create_admin ::
  "unicode \<Rightarrow> crypto \<Rightarrow> settings \<Rightarrow> str \<Rightarrow> str \<Rightarrow> bool \<Rightarrow> str option \<Rightarrow> user svc" where
  "create_admin u c cfg username password is_superuser request_id =
     bind (lift_result (normalize_username u username)) (\<lambda>normalized.
     bind (gets w_db_tick) (\<lambda>moment.
     bind (lift_result (hash_password u c cfg moment password (Some normalized))) (\<lambda>password_hash.
     bind utc_now (\<lambda>now.
     try_catch
       (transaction (create_admin_body u normalized password_hash is_superuser now request_id))
       (\<lambda>e. if e = IntegrityError then throw EntityConflict else throw e)))))"

section \<open>Login\<close>

text \<open>A failed login ends with an audit row and no session.\<close>

definition login_failed ::
  "unicode \<Rightarrow> user option \<Rightarrow> str option \<Rightarrow> str option \<Rightarrow> (str \<times> py_value) list \<Rightarrow> unit svc" where
  "login_failed u who request_id ip_hash metadata =
     (case who of
        None \<Rightarrow> append_audit_event u ADMIN_LOGIN_FAILED AuditFailure None None None
          request_id ip_hash metadata
      | Some x \<Rightarrow> append_audit_event u ADMIN_LOGIN_FAILED AuditFailure (Some (user_id x))
          (Some (py ''user'')) (Some (entity_id (user_id x))) request_id ip_hash metadata)"

definition is_locked :: "datetime \<Rightarrow> user \<Rightarrow> bool" where
  "is_locked now x = (case user_locked_until x of None \<Rightarrow> False | Some t \<Rightarrow> t > now)"

text \<open>A lock that has run out is lifted before the password is looked at.\<close>

definition lift_lock :: "datetime \<Rightarrow> user \<Rightarrow> user" where
  "lift_lock now x =
     (case user_locked_until x of
        None \<Rightarrow> x
      | Some t \<Rightarrow> if t \<le> now then x\<lparr>user_locked_until := None, user_failed_login_attempts := 0\<rparr> else x)"

text \<open>Counting a wrong password; the reason goes into the audit row.\<close>

definition count_failure :: "settings \<Rightarrow> datetime \<Rightarrow> user \<Rightarrow> user \<times> str" where
  "count_failure cfg now x =
     (let x' = x\<lparr>user_failed_login_attempts := user_failed_login_attempts x + 1\<rparr> in
      if user_failed_login_attempts x' \<ge> login_max_failed_attempts cfg
      then (x'\<lparr>user_locked_until := Some (now + seconds (login_lockout_seconds cfg))\<rparr>,
            py ''lockout_started'')
      else (x', py ''invalid_credentials''))"

definition refuse_login ::
  "unicode \<Rightarrow> settings \<Rightarrow> datetime \<Rightarrow> login_context \<Rightarrow> str option \<Rightarrow> user \<Rightarrow> bool \<Rightarrow> unit svc" where
  "refuse_login u cfg now lctx ip_hash x valid_password =
     (let (x', reason) =
        (if valid_password then (x, py ''inactive'') else count_failure cfg now x) in
      bind (put_user x') (\<lambda>_.
      bind (login_failed u (Some x') (lc_request_id lctx) ip_hash [(py ''reason'', PStr reason)]) (\<lambda>_.
      flush)))"

text \<open>Session rotation: the session of the presented token is revoked.\<close>

definition revoke_previous :: "crypto \<Rightarrow> datetime \<Rightarrow> str option \<Rightarrow> unit svc" where
  "revoke_previous c now previous_token =
     (case previous_token of
        None \<Rightarrow> ret ()
      | Some token \<Rightarrow>
          if token = [] then ret ()
          else
            bind (lift_result (hash_session_token c token)) (\<lambda>previous_hash.
            bind (query (get_by_token_hash previous_hash)) (\<lambda>previous.
            case previous of
              None \<Rightarrow> ret ()
            | Some r \<Rightarrow>
                if ses_revoked_at r = None then put_session (r\<lparr>ses_revoked_at := Some now\<rparr>)
                else ret ())))"

definition rehash_if_needed ::
  "unicode \<Rightarrow> crypto \<Rightarrow> settings \<Rightarrow> str \<Rightarrow> user \<Rightarrow> user svc" where
  "rehash_if_needed u c cfg password x =
     (if needs_rehash c (user_password_hash x)
      then bind (gets w_db_tick) (\<lambda>moment.
           bind (lift_result (hash_password u c cfg moment password (Some (user_username x)))) (\<lambda>h.
           ret (x\<lparr>user_password_hash := h\<rparr>)))
      else ret x)"

definition accept_login ::
  "unicode \<Rightarrow> crypto \<Rightarrow> settings \<Rightarrow> datetime \<Rightarrow> login_context \<Rightarrow> str option \<Rightarrow> str \<Rightarrow> user
   \<Rightarrow> session_credentials svc" where
  "accept_login u c cfg now lctx ip_hash password x =
     bind (rehash_if_needed u c cfg password x) (\<lambda>x.
     let x' = x\<lparr>user_failed_login_attempts := 0, user_locked_until := None,
                user_last_login_at := Some now\<rparr> in
     bind (put_user x') (\<lambda>_.
     bind (revoke_previous c now (lc_previous_session_token lctx)) (\<lambda>_.
     bind (create_record c cfg x' (lc_ip_address lctx) (lc_user_agent lctx) now) (\<lambda>credentials.
     bind (append_audit_event u ADMIN_LOGIN_SUCCESS AuditSuccess (Some (user_id x'))
       (Some (py ''user'')) (Some (entity_id (user_id x'))) (lc_request_id lctx) ip_hash []) (\<lambda>_.
     bind flush (\<lambda>_.
     ret credentials))))))"

definition login_body ::
  "unicode \<Rightarrow> crypto \<Rightarrow> settings \<Rightarrow> str \<Rightarrow> str \<Rightarrow> login_context \<Rightarrow> datetime \<Rightarrow> str option \<Rightarrow> str option
   \<Rightarrow> session_credentials option svc" where
  "login_body u c cfg normalized password lctx now ip_hash name_hash =
     bind (query (get_by_username u normalized)) (\<lambda>found.
     case found of
       None \<Rightarrow>
         bind (lift_result (verify_unknown_user c password)) (\<lambda>_.
         bind (login_failed u None (lc_request_id lctx) ip_hash
           [(py ''reason'', PStr (py ''invalid_credentials'')), (py ''username_hash'', py_option name_hash)]) (\<lambda>_.
         ret None))
     | Some x \<Rightarrow>
         if is_locked now x then
           bind (lift_result (verify_password c password (user_password_hash x))) (\<lambda>_.
           bind (login_failed u (Some x) (lc_request_id lctx) ip_hash
             [(py ''reason'', PStr (py ''temporarily_locked''))]) (\<lambda>_.
           ret None))
         else
           (let x = lift_lock now x in
            bind (put_user x) (\<lambda>_.
            bind (lift_result (verify_password c password (user_password_hash x))) (\<lambda>valid_password.
            if \<not> valid_password \<or> \<not> user_is_active x
            then bind (refuse_login u cfg now lctx ip_hash x valid_password) (\<lambda>_. ret None)
            else bind (accept_login u c cfg now lctx ip_hash password x) (\<lambda>credentials.
                 ret (Some credentials))))))"

definition login ::
  "unicode \<Rightarrow> crypto \<Rightarrow> settings \<Rightarrow> str \<Rightarrow> str \<Rightarrow> login_context \<Rightarrow> session_credentials option svc" where
  "login u c cfg username password lctx =
     (let normalized = (case normalize_username u username of
                          Inr n \<Rightarrow> n | Inl _ \<Rightarrow> casefold u (strip username)) in
      bind utc_now (\<lambda>now.
      bind (lift_result (client_hashes c cfg (lc_ip_address lctx) (lc_user_agent lctx))) (\<lambda>(ip_hash, _).
      bind (lift_result (username_hash c cfg normalized)) (\<lambda>name_hash.
      transaction (login_body u c cfg normalized password lctx now ip_hash name_hash)))))"

section \<open>Maintenance\<close>

definition change_password_body ::
  "unicode \<Rightarrow> str \<Rightarrow> str \<Rightarrow> datetime \<Rightarrow> str option \<Rightarrow> user svc" where
  "change_password_body u normalized new_hash now request_id =
     bind (query (get_by_username u normalized)) (\<lambda>found.
     case found of
       None \<Rightarrow> throw EntityNotFound
     | Some x \<Rightarrow>
         let x' = x\<lparr>user_password_hash := new_hash, user_password_changed_at := Some now,
                    user_failed_login_attempts := 0, user_locked_until := None\<rparr> in
         bind (put_user x') (\<lambda>_.
         bind (sessions_revoke_all (user_id x') now None) (\<lambda>revoked.
         bind (append_audit_event u ADMIN_PASSWORD_CHANGED AuditSuccess (Some (user_id x'))
           (Some (py ''user'')) (Some (entity_id (user_id x'))) request_id None
           [(py ''revoked_count'', PInt (int revoked))]) (\<lambda>_.
         bind flush (\<lambda>_.
         ret x')))))"

definition change_password ::
  "unicode \<Rightarrow> crypto \<Rightarrow> settings \<Rightarrow> str \<Rightarrow> str \<Rightarrow> str option \<Rightarrow> user svc" where
  "change_password u c cfg username new_password request_id =
     bind (lift_result (normalize_username u username)) (\<lambda>normalized.
     bind (gets w_db_tick) (\<lambda>moment.
     bind (lift_result (hash_password u c cfg moment new_password (Some normalized))) (\<lambda>new_hash.
     bind utc_now (\<lambda>now.
     transaction (change_password_body u normalized new_hash now request_id)))))"

definition get_user :: "unicode \<Rightarrow> str \<Rightarrow> user svc" where
  "get_user u username =
     bind (lift_result (normalize_username u username)) (\<lambda>normalized.
     read_session (
       bind (query (get_by_username u normalized)) (\<lambda>found.
       case found of None \<Rightarrow> throw EntityNotFound | Some x \<Rightarrow> ret x)))"

definition revoke_user_sessions :: "unicode \<Rightarrow> str \<Rightarrow> str option \<Rightarrow> nat svc" where
  "revoke_user_sessions u username request_id =
     bind (get_user u username) (\<lambda>x. revoke_all_for_user u (user_id x) None request_id)"

end
