(* ===== verification/AuthSpecs.thy ===== *)
theory AuthSpecs
  imports Auth
begin

text \<open>
  What each authentication operation does to the tables, and the invariant they keep: lifetimes
  of sessions, the failure counter and the lock, one account per user name.
\<close>

section \<open>Effects on the tables\<close>

definition with_audit :: "audit_action \<Rightarrow> database \<Rightarrow> database \<Rightarrow> bool" where
  "with_audit action d d' \<longleftrightarrow>
     (\<exists>a. d' = d\<lparr>db_audits := db_audits d @ [a]\<rparr> \<and> aud_action a = action)"

lemma with_auditD:
  assumes "with_audit action d d'"
  shows "db_users d' = db_users d" "db_sessions d' = db_sessions d"
    "db_releases d' = db_releases d" "db_files d' = db_files d" "db_softwares d' = db_softwares d"
  using assms by (auto simp: with_audit_def)

lemma wp_append_with_audit:
  "wp (append_audit_event u action result who et ei rid ip m)
     (\<lambda>_ t. db_only s t \<and> with_audit action (w_db s) (w_db t))
     (\<lambda>e t. is_sqlalchemy_error e \<and> db_only s t) s"
  by (rule wp_mono [OF wp_append_audit_event]) (auto simp: with_audit_def)

definition set_users :: "(user list \<Rightarrow> user list) \<Rightarrow> database \<Rightarrow> database" where
  "set_users f d = d\<lparr>db_users := f (db_users d)\<rparr>"

definition set_sessions :: "(user_session list \<Rightarrow> user_session list) \<Rightarrow> database \<Rightarrow> database" where
  "set_sessions f d = d\<lparr>db_sessions := f (db_sessions d)\<rparr>"

definition store_user :: "user \<Rightarrow> database \<Rightarrow> database" where
  "store_user x = set_users (row_update user_id (user_id x) (\<lambda>_. x))"

definition store_session :: "user_session \<Rightarrow> database \<Rightarrow> database" where
  "store_session r = set_sessions (row_update ses_id (ses_id r) (\<lambda>_. r))"

lemma wp_put [wp_simps]:
  "wp (put_user x) Q E s = Q () (s\<lparr>w_db := store_user x (w_db s)\<rparr>)"
  "wp (put_session r) Q' E s = Q' () (s\<lparr>w_db := store_session r (w_db s)\<rparr>)"
  by (simp_all add: put_user_def put_session_def wp_simps store_user_def store_session_def
      set_users_def set_sessions_def)

section \<open>Sessions\<close>

lemma wp_sessions_revoke_all [wp_simps]:
  "wp (sessions_revoke_all uid now ex) Q E s =
     (if w_db_fault s (w_db_tick s) then E SQLAlchemyError (s\<lparr>w_db_tick := Suc (w_db_tick s)\<rparr>)
      else Q (length (filter (to_revoke uid ex) (db_sessions (w_db s))))
        (s\<lparr>w_db_tick := Suc (w_db_tick s), w_db := set_sessions (revoke_rows uid now ex) (w_db s)\<rparr>))"
  by (simp add: sessions_revoke_all_def wp_simps set_sessions_def)

lemma wp_sessions_delete_expired [wp_simps]:
  "wp (sessions_delete_expired now) Q E s =
     (if w_db_fault s (w_db_tick s) then E SQLAlchemyError (s\<lparr>w_db_tick := Suc (w_db_tick s)\<rparr>)
      else Q (length (filter (is_expired now) (db_sessions (w_db s))))
        (s\<lparr>w_db_tick := Suc (w_db_tick s),
           w_db := set_sessions (filter (\<lambda>r. \<not> is_expired now r)) (w_db s)\<rparr>))"
  by (simp add: sessions_delete_expired_def wp_simps set_sessions_def)

lemma db_only_step: "db_only s t \<Longrightarrow> db_only (s\<lparr>w_db_tick := n, w_db := d\<rparr>) t"
  "db_only s t \<Longrightarrow> db_only (s\<lparr>w_db := d\<rparr>) t"
  "db_only s t \<Longrightarrow> db_only (s\<lparr>w_db_tick := n\<rparr>) t"
  by (cases s; cases t; simp add: db_only_def)+

lemma db_only_back: "db_only (s\<lparr>w_db_tick := n, w_db := d\<rparr>) t = db_only s t"
  "db_only (s\<lparr>w_db := d\<rparr>) t = db_only s t" "db_only (s\<lparr>w_db_tick := n\<rparr>) t = db_only s t"
  "db_only (s\<lparr>w_db := d, w_db_tick := n\<rparr>) t = db_only s t"
  by (cases s; cases t; simp add: db_only_def)+

text \<open>The rows a session service works with, as a relation between the tables.\<close>

definition touched_db :: "settings \<Rightarrow> datetime \<Rightarrow> user_session \<Rightarrow> database \<Rightarrow> database" where
  "touched_db cfg now r d = (if touch_due cfg now r then store_session (touch cfg now r) d else d)"

definition admission ::
  "settings \<Rightarrow> datetime \<Rightarrow> user_session \<Rightarrow> user \<Rightarrow> authenticated_session \<Rightarrow> bool" where
  "admission cfg now r owner a \<longleftrightarrow>
     as_session_id a = ses_id r \<and> as_user a = owner
   \<and> as_expires_at a = ses_expires_at (touch cfg now r)
   \<and> as_absolute_expires_at a = ses_absolute_expires_at r
   \<and> as_csrf_secret_hash a = ses_csrf_secret_hash r"

lemma touch_fields [simp]:
  "ses_id (touch cfg now r) = ses_id r" "ses_token_hash (touch cfg now r) = ses_token_hash r"
  "ses_user_id (touch cfg now r) = ses_user_id r"
  "ses_revoked_at (touch cfg now r) = ses_revoked_at r"
  "ses_created_at (touch cfg now r) = ses_created_at r"
  "ses_absolute_expires_at (touch cfg now r) = ses_absolute_expires_at r"
  "ses_csrf_secret_hash (touch cfg now r) = ses_csrf_secret_hash r"
  by (simp_all add: touch_def)

lemma wp_admit:
  "wp (admit c cfg now ip ua r owner)
     (\<lambda>x t. db_only s t \<and> (\<exists>a. x = Some a \<and> admission cfg now r owner a)
        \<and> w_db t = touched_db cfg now r (w_db s))
     (\<lambda>e t. db_only s t) s"
  by (auto simp: admit_def wp_simps Let_def touched_db_def admission_def split: sum.splits prod.splits)

text \<open>The session a token stands for, when it is good now.\<close>

definition live_session :: "str \<Rightarrow> datetime \<Rightarrow> database \<Rightarrow> (user_session \<times> user) option" where
  "live_session token_hash now d =
     (case get_by_token_hash token_hash d of
        None \<Rightarrow> None
      | Some r \<Rightarrow>
          if ses_revoked_at r = None \<and> \<not> is_expired now r then
            (case row_get user_id (ses_user_id r) (db_users d) of
               None \<Rightarrow> None
             | Some owner \<Rightarrow> if user_is_active owner then Some (r, owner) else None)
          else None)"

definition authenticate_effect ::
  "settings \<Rightarrow> datetime \<Rightarrow> str \<Rightarrow> authenticated_session option \<Rightarrow> database \<Rightarrow> database \<Rightarrow> bool" where
  "authenticate_effect cfg now h x d d' \<longleftrightarrow>
     (case live_session h now d of
        None \<Rightarrow> x = None \<and> d' = d
      | Some (r, owner) \<Rightarrow> (\<exists>a. x = Some a \<and> admission cfg now r owner a) \<and> d' = touched_db cfg now r d)"

lemma wp_authenticate:
  assumes "hash_session_token c tok = Inr h" and "tok \<noteq> []"
  shows "wp (authenticate c cfg (Some tok) ip ua)
     (\<lambda>x t. db_only s t \<and> (\<exists>d. drifted s (w_db s) d \<and> authenticate_effect cfg (os_now s) h x d (w_db t))
        \<and> db_constraints (w_db t))
     (\<lambda>e t. db_only s t \<and> drifted s (w_db s) (w_db t)) s"
proof -
  let ?body = "bind (query (\<lambda>d. d)) (\<lambda>d.
      case get_by_token_hash h d of None \<Rightarrow> ret None
      | Some r \<Rightarrow> if ses_revoked_at r \<noteq> None then ret None else if is_expired (os_now s) r then ret None
         else (case row_get user_id (ses_user_id r) (db_users d) of None \<Rightarrow> throw AttributeError
           | Some owner \<Rightarrow> if \<not> user_is_active owner then ret None
               else admit c cfg (os_now s) ip ua r owner))"
  have body: "wp ?body (\<lambda>x t. db_only s' t \<and> authenticate_effect cfg (os_now s) h x (w_db s') (w_db t))
      (\<lambda>e t. True \<and> db_only s' t) s'" for s'
  proof (rule wp_bind_spec [OF wp_query], goal_cases)
    case (1 d t)
    then have d: "d = w_db s'" "db_only s' t" "w_db t = w_db s'" by auto
    show ?case
      using d(2,3)
      by (auto simp: d(1) wp_simps authenticate_effect_def live_session_def split: option.splits
          intro!: wp_mono [OF wp_admit] intro: db_only_trans)
  qed auto
  show ?thesis
    using assms wp_mono [OF wp_transaction [OF body, of s]]
    by (simp add: authenticate_def wp_simps)
qed

text \<open>The common tail of the writing operations: the audit row, then more statements.\<close>

lemma wp_audit_then:
  assumes "\<And>t. db_only s t \<Longrightarrow> with_audit action (w_db s) (w_db t) \<Longrightarrow> Q () t"
    and "\<And>e t. db_only s t \<Longrightarrow> E e t"
  shows "wp (append_audit_event u action result who et ei rid ip m) Q E s"
  by (rule wp_mono [OF wp_append_with_audit]) (auto intro: assms)

definition revoke_effect :: "datetime \<Rightarrow> str \<Rightarrow> bool \<Rightarrow> database \<Rightarrow> database \<Rightarrow> bool" where
  "revoke_effect now h x d d' \<longleftrightarrow>
     (case get_by_token_hash h d of
        None \<Rightarrow> \<not> x \<and> d' = d
      | Some r \<Rightarrow>
          if ses_revoked_at r \<noteq> None then \<not> x \<and> d' = d
          else x \<and> with_audit ADMIN_LOGOUT (store_session (r\<lparr>ses_revoked_at := Some now\<rparr>) d) d')"

lemma wp_revoke:
  assumes "hash_session_token c tok = Inr h" and "tok \<noteq> []"
  shows "wp (revoke u c cfg (Some tok) rid ip)
     (\<lambda>x t. db_only s t \<and> (\<exists>d. drifted s (w_db s) d \<and> revoke_effect (os_now s) h x d (w_db t))
        \<and> db_constraints (w_db t))
     (\<lambda>e t. db_only s t \<and> drifted s (w_db s) (w_db t)) s"
proof -
  have "wp (bind (query (get_by_token_hash h)) (\<lambda>found.
      case found of None \<Rightarrow> ret False
      | Some r \<Rightarrow> if ses_revoked_at r \<noteq> None then ret False
          else bind (put_session (r\<lparr>ses_revoked_at := Some (os_now s)\<rparr>)) (\<lambda>_.
               bind (append_audit_event u ADMIN_LOGOUT AuditSuccess (Some (ses_user_id r))
                 (Some (py ''session'')) (Some (entity_id (ses_id r))) rid iph []) (\<lambda>_.
               bind flush (\<lambda>_. ret True)))))
      (\<lambda>x t. db_only s' t \<and> revoke_effect (os_now s) h x (w_db s') (w_db t))
      (\<lambda>e t. True \<and> db_only s' t) s'" for s' iph
  proof (rule wp_bind_spec [OF wp_query], goal_cases)
    case (1 found t)
    then have f: "found = get_by_token_hash h (w_db s')" "db_only s' t" "w_db t = w_db s'" by auto
    show ?case
      using f(2,3)
      by (auto simp: f(1) wp_simps revoke_effect_def db_only_back split: option.splits
          intro!: wp_audit_then intro: db_only_trans)
  qed auto
  from wp_transaction [OF this, where s = s] show ?thesis
    using assms
    by (auto simp: revoke_def wp_simps intro: wp_mono split: sum.splits prod.splits)
qed

definition revoke_all_effect ::
  "audit_action \<Rightarrow> nat \<Rightarrow> datetime \<Rightarrow> nat option \<Rightarrow> nat \<Rightarrow> database \<Rightarrow> database \<Rightarrow> bool" where
  "revoke_all_effect action uid now ex n d d' \<longleftrightarrow>
     n = length (filter (to_revoke uid ex) (db_sessions d))
   \<and> with_audit action (set_sessions (revoke_rows uid now ex) d) d'"

lemma wp_revoke_all_for_user:
  "wp (revoke_all_for_user u uid ex rid)
     (\<lambda>n t. db_only s t \<and> (\<exists>d. drifted s (w_db s) d
        \<and> revoke_all_effect ADMIN_SESSIONS_REVOKED uid (os_now s) ex n d (w_db t))
        \<and> db_constraints (w_db t))
     (\<lambda>e t. db_only s t \<and> drifted s (w_db s) (w_db t)) s"
proof -
  have "wp (bind (sessions_revoke_all uid (os_now s) ex) (\<lambda>count.
       bind (append_audit_event u ADMIN_SESSIONS_REVOKED AuditSuccess (Some uid) (Some (py ''user''))
         (Some (entity_id uid)) rid None [(py ''revoked_count'', PInt (int count))]) (\<lambda>_.
       ret count)))
      (\<lambda>n t. db_only s' t \<and> revoke_all_effect ADMIN_SESSIONS_REVOKED uid (os_now s) ex n (w_db s') (w_db t))
      (\<lambda>e t. True \<and> db_only s' t) s'" for s'
    by (auto simp: wp_simps revoke_all_effect_def db_only_back intro!: wp_audit_then)
  from wp_transaction [OF this, where s = s] show ?thesis
    by (auto simp: revoke_all_for_user_def wp_simps intro: wp_mono)
qed

lemma wp_cleanup_expired:
  "wp (cleanup_expired u rid)
     (\<lambda>n t. db_only s t \<and> (\<exists>d. drifted s (w_db s) d
        \<and> with_audit EXPIRED_SESSIONS_CLEANED
            (set_sessions (filter (\<lambda>r. \<not> is_expired (os_now s) r)) d) (w_db t))
        \<and> db_constraints (w_db t))
     (\<lambda>e t. db_only s t \<and> drifted s (w_db s) (w_db t)) s"
proof -
  have "wp (bind (sessions_delete_expired (os_now s)) (\<lambda>count.
       bind (append_audit_event u EXPIRED_SESSIONS_CLEANED AuditSuccess None None None rid None
         [(py ''deleted_count'', PInt (int count))]) (\<lambda>_.
       ret count)))
      (\<lambda>n t. db_only s' t \<and> with_audit EXPIRED_SESSIONS_CLEANED
            (set_sessions (filter (\<lambda>r. \<not> is_expired (os_now s) r)) (w_db s')) (w_db t))
      (\<lambda>e t. True \<and> db_only s' t) s'" for s'
    by (auto simp: wp_simps db_only_back intro!: wp_audit_then)
  from wp_transaction [OF this, where s = s] show ?thesis
    by (auto simp: cleanup_expired_def wp_simps intro: wp_mono)
qed

section \<open>Login\<close>

definition refused_user :: "settings \<Rightarrow> datetime \<Rightarrow> bool \<Rightarrow> user \<Rightarrow> user" where
  "refused_user cfg now valid_password x =
     (if valid_password then x else fst (count_failure cfg now x))"

lemma wp_login_failed:
  "wp (login_failed u who rid ip m)
     (\<lambda>_ t. db_only s t \<and> with_audit ADMIN_LOGIN_FAILED (w_db s) (w_db t))
     (\<lambda>e t. db_only s t) s"
  by (rule wp_mono [where Q = "\<lambda>_ t. db_only s t \<and> with_audit ADMIN_LOGIN_FAILED (w_db s) (w_db t)"
        and E = "\<lambda>e t. is_sqlalchemy_error e \<and> db_only s t"])
    (auto simp: login_failed_def wp_append_with_audit split: option.splits)

lemma wp_refuse_login:
  "wp (refuse_login u cfg now lctx ip x valid)
     (\<lambda>_ t. db_only s t
        \<and> with_audit ADMIN_LOGIN_FAILED (store_user (refused_user cfg now valid x) (w_db s)) (w_db t))
     (\<lambda>e t. db_only s t) s"
  unfolding refuse_login_def
  by (auto simp: wp_simps Let_def refused_user_def db_only_back split: prod.splits
      intro!: wp_mono [OF wp_login_failed])

definition previous_revoked :: "crypto \<Rightarrow> datetime \<Rightarrow> str option \<Rightarrow> database \<Rightarrow> database" where
  "previous_revoked c now previous_token d =
     (case previous_token of
        None \<Rightarrow> d
      | Some token \<Rightarrow>
          if token = [] then d
          else
            (case hash_session_token c token of
               Inl _ \<Rightarrow> d
             | Inr h \<Rightarrow>
                 (case get_by_token_hash h d of
                    None \<Rightarrow> d
                  | Some r \<Rightarrow>
                      if ses_revoked_at r = None
                      then store_session (r\<lparr>ses_revoked_at := Some now\<rparr>) d else d)))"

lemma wp_revoke_previous:
  "wp (revoke_previous c now prev)
     (\<lambda>_ t. db_only s t \<and> w_db t = previous_revoked c now prev (w_db s)) (\<lambda>e t. db_only s t) s"
  by (auto simp: revoke_previous_def previous_revoked_def wp_simps split: option.splits sum.splits)

lemma wp_rehash_if_needed:
  "wp (rehash_if_needed u c cfg password x)
     (\<lambda>x' t. t = s \<and> (\<exists>h. x' = x\<lparr>user_password_hash := h\<rparr>)) (\<lambda>e t. t = s) s"
  by (auto simp: rehash_if_needed_def wp_simps split: sum.splits intro: exI [of _ "user_password_hash x"])

definition created_session ::
  "crypto \<Rightarrow> settings \<Rightarrow> user \<Rightarrow> datetime \<Rightarrow> session_credentials \<Rightarrow> database \<Rightarrow> database \<Rightarrow> bool" where
  "created_session c cfg x now cr d d' \<longleftrightarrow>
     (\<exists>n h ip agent csrf. sc_token cr = token_urlsafe c n \<and> hash_session_token c (sc_token cr) = Inr h
        \<and> sc_user cr = x
        \<and> sc_expires_at cr = ses_expires_at (new_session cfg h (user_id x) now ip agent csrf)
        \<and> sc_absolute_expires_at cr = now + seconds (session_absolute_timeout_seconds cfg)
        \<and> d' = set_sessions (row_add ses_id with_ses_id (new_session cfg h (user_id x) now ip agent csrf)) d)"

lemma new_session_fields [simp]:
  "ses_token_hash (new_session cfg h uid now ip ag cs) = h"
  "ses_user_id (new_session cfg h uid now ip ag cs) = uid"
  "ses_created_at (new_session cfg h uid now ip ag cs) = now"
  "ses_last_activity_at (new_session cfg h uid now ip ag cs) = now"
  "ses_revoked_at (new_session cfg h uid now ip ag cs) = None"
  "ses_absolute_expires_at (new_session cfg h uid now ip ag cs) =
     now + seconds (session_absolute_timeout_seconds cfg)"
  "ses_expires_at (new_session cfg h uid now ip ag cs) =
     min (now + seconds (session_idle_timeout_seconds cfg))
       (now + seconds (session_absolute_timeout_seconds cfg))"
  by (simp_all add: new_session_def Let_def)

lemma wp_create_record:
  "wp (create_record c cfg x ip ua now)
     (\<lambda>cr t. db_only s t \<and> created_session c cfg x now cr (w_db s) (w_db t)) (\<lambda>e t. db_only s t) s"
  unfolding create_record_def created_session_def
  by (auto simp: wp_simps Let_def set_sessions_def split: sum.splits prod.splits)

definition accepted ::
  "crypto \<Rightarrow> settings \<Rightarrow> datetime \<Rightarrow> str option \<Rightarrow> user \<Rightarrow> session_credentials \<Rightarrow> database \<Rightarrow> database \<Rightarrow> bool" where
  "accepted c cfg now prev x cr d d' \<longleftrightarrow>
     (\<exists>h x' d2. x' = x\<lparr>user_password_hash := h, user_failed_login_attempts := 0,
          user_locked_until := None, user_last_login_at := Some now\<rparr>
        \<and> created_session c cfg x' now cr (previous_revoked c now prev (store_user x' d)) d2
        \<and> with_audit ADMIN_LOGIN_SUCCESS d2 d')"

lemma wp_accept_login:
  "wp (accept_login u c cfg now lctx ip password x)
     (\<lambda>cr t. db_only s t \<and> accepted c cfg now (lc_previous_session_token lctx) x cr (w_db s) (w_db t))
     (\<lambda>e t. db_only s t) s"
  unfolding accept_login_def Let_def
proof (rule wp_bind_spec [OF wp_rehash_if_needed], goal_cases)
  case (1 x1 t)
  then obtain h where t: "t = s" and x1: "x1 = x\<lparr>user_password_hash := h\<rparr>" by auto
  let ?x' = "x1\<lparr>user_failed_login_attempts := 0, user_locked_until := None, user_last_login_at := Some now\<rparr>"
  have x': "?x' = x\<lparr>user_password_hash := h, user_failed_login_attempts := 0,
          user_locked_until := None, user_last_login_at := Some now\<rparr>"
    by (simp add: x1)
  show ?case
    unfolding t wp_bind wp_put
  proof (rule wp_mono [OF wp_revoke_previous], goal_cases)
    case (1 _ t1)
    show ?case
    proof (rule wp_mono [OF wp_create_record], goal_cases)
      case (1 cr t2)
      show ?case
      proof (rule wp_mono [OF wp_append_with_audit], goal_cases)
        case (1 _ t3)
        have "accepted c cfg now (lc_previous_session_token lctx) x cr (w_db s) (w_db t3)"
          unfolding accepted_def
          using \<open>db_only t1 t2 \<and> _\<close> \<open>db_only _ t1 \<and> _\<close> 1 x' by auto
        moreover have "db_only s t3"
          using \<open>db_only t1 t2 \<and> _\<close> \<open>db_only _ t1 \<and> _\<close> 1 by (auto simp: db_only_back intro: db_only_trans)
        ultimately show ?case by (simp add: wp_simps)
      next
        case (2 e t3)
        then show ?case
          using \<open>db_only t1 t2 \<and> _\<close> \<open>db_only _ t1 \<and> _\<close> by (auto simp: db_only_back intro: db_only_trans)
      qed
    next
      case (2 e t2)
      then show ?case
        using \<open>db_only _ t1 \<and> _\<close> by (auto simp: db_only_back intro: db_only_trans)
    qed
  next
    case (2 e t1)
    then show ?case by (simp add: db_only_back)
  qed
qed simp

definition login_effect ::
  "unicode \<Rightarrow> crypto \<Rightarrow> settings \<Rightarrow> str \<Rightarrow> str \<Rightarrow> str option \<Rightarrow> datetime
   \<Rightarrow> session_credentials option \<Rightarrow> database \<Rightarrow> database \<Rightarrow> bool" where
  "login_effect u c cfg normalized password prev now res d d' \<longleftrightarrow>
     (case get_by_username u normalized d of
        None \<Rightarrow> res = None \<and> with_audit ADMIN_LOGIN_FAILED d d'
      | Some x \<Rightarrow>
          if is_locked now x then res = None \<and> with_audit ADMIN_LOGIN_FAILED d d'
          else
            (\<exists>valid. verify_password c password (user_password_hash (lift_lock now x)) = Inr valid
               \<and> (if valid \<and> user_is_active (lift_lock now x)
                  then (\<exists>cr. res = Some cr
                    \<and> accepted c cfg now prev (lift_lock now x) cr (store_user (lift_lock now x) d) d')
                  else res = None \<and> with_audit ADMIN_LOGIN_FAILED
                    (store_user (refused_user cfg now valid (lift_lock now x))
                      (store_user (lift_lock now x) d)) d')))"

lemma wp_login_body:
  "wp (login_body u c cfg n password lctx now ip nh)
     (\<lambda>res t. db_only s t
        \<and> login_effect u c cfg n password (lc_previous_session_token lctx) now res (w_db s) (w_db t))
     (\<lambda>e t. True \<and> db_only s t) s"
  unfolding login_body_def
proof (rule wp_bind_spec [OF wp_query], goal_cases)
  case (1 found t)
  then have found: "found = get_by_username u n (w_db s)" and t: "db_only s t" "w_db t = w_db s" by auto
  show ?case
  proof (cases found)
    case None
    then show ?thesis
      using t found
      by (auto simp: wp_simps login_effect_def split: sum.splits
          intro!: wp_mono [OF wp_login_failed] intro: db_only_trans)
  next
    case (Some x)
    with found have g: "get_by_username u n (w_db s) = Some x" by simp
    show ?thesis
    proof (cases "is_locked now x")
      case True
      then show ?thesis
        using t
        by (auto simp: Some g wp_simps login_effect_def split: sum.splits
            intro!: wp_mono [OF wp_login_failed] intro: db_only_trans)
    next
      case False
      let ?y = "lift_lock now x"
      have "wp (bind (refuse_login u cfg now lctx ip ?y valid) (\<lambda>_. ret None))
          (\<lambda>res t. db_only s t \<and> login_effect u c cfg n password (lc_previous_session_token lctx) now res (w_db s) (w_db t))
          (\<lambda>e t. True \<and> db_only s t) (t\<lparr>w_db := store_user ?y (w_db s)\<rparr>)"
        if "verify_password c password (user_password_hash ?y) = Inr valid" "\<not> (valid \<and> user_is_active ?y)" for valid
        unfolding wp_bind
        using t False that
        by (auto simp: g wp_simps login_effect_def db_only_back intro!: wp_mono [OF wp_refuse_login]
            intro: db_only_trans)
      moreover have "wp (bind (accept_login u c cfg now lctx ip password ?y) (\<lambda>cr. ret (Some cr)))
          (\<lambda>res t. db_only s t \<and> login_effect u c cfg n password (lc_previous_session_token lctx) now res (w_db s) (w_db t))
          (\<lambda>e t. True \<and> db_only s t) (t\<lparr>w_db := store_user ?y (w_db s)\<rparr>)"
        if "verify_password c password (user_password_hash ?y) = Inr True" "user_is_active ?y"
        unfolding wp_bind
        using t False that
        by (auto simp: g wp_simps login_effect_def db_only_back intro!: wp_mono [OF wp_accept_login]
            intro: db_only_trans)
      ultimately show ?thesis
        using t False
        by (auto simp: Some Let_def wp_bind wp_put wp_lift_result wp_if split: sum.splits)
    qed
  qed
qed simp

definition login_name :: "unicode \<Rightarrow> str \<Rightarrow> str" where
  "login_name u username =
     (case normalize_username u username of Inr n \<Rightarrow> n | Inl _ \<Rightarrow> casefold u (strip username))"

lemma wp_login:
  "wp (login u c cfg username password lctx)
     (\<lambda>res t. db_only s t \<and> (\<exists>d. drifted s (w_db s) d
        \<and> login_effect u c cfg (login_name u username) password (lc_previous_session_token lctx)
            (os_now s) res d (w_db t)) \<and> db_constraints (w_db t))
     (\<lambda>e t. db_only s t \<and> drifted s (w_db s) (w_db t)) s"
  using wp_transaction [OF wp_login_body, where s = s]
  by (auto simp: login_def login_name_def [symmetric] Let_def wp_simps intro: wp_mono
      split: sum.splits prod.splits)

section \<open>Maintenance\<close>

definition create_admin_effect ::
  "unicode \<Rightarrow> str \<Rightarrow> str \<Rightarrow> bool \<Rightarrow> datetime \<Rightarrow> user \<Rightarrow> database \<Rightarrow> database \<Rightarrow> bool" where
  "create_admin_effect u n h super now x d d' \<longleftrightarrow>
     get_by_username u n d = None
   \<and> x = with_user_id (next_id user_id (db_users d)) (new_user n h super now)
   \<and> with_audit ADMIN_CREATED (set_users (row_add user_id with_user_id (new_user n h super now)) d) d'"

lemma wp_create_admin_body:
  "wp (create_admin_body u n h super now rid)
     (\<lambda>x t. db_only s t \<and> create_admin_effect u n h super now x (w_db s) (w_db t))
     (\<lambda>e t. (e = EntityConflict \<or> is_sqlalchemy_error e) \<and> db_only s t) s"
  unfolding create_admin_body_def
proof (rule wp_bind_spec [OF wp_query], goal_cases)
  case (1 found t)
  then have found: "found = get_by_username u n (w_db s)" and t: "db_only s t" "w_db t = w_db s" by auto
  have audit: "wp (append_audit_event u ADMIN_CREATED AuditSuccess (Some uid) et ei rid None [])
      (\<lambda>_. wp (ret x) Q E) E t1"
    if "\<And>t. db_only t1 t \<Longrightarrow> with_audit ADMIN_CREATED (w_db t1) (w_db t) \<Longrightarrow> Q x t"
      "\<And>e t. is_sqlalchemy_error e \<Longrightarrow> db_only t1 t \<Longrightarrow> E e t" for uid et ei x Q E t1
    by (rule wp_mono [OF wp_append_with_audit]) (auto simp: wp_simps that)
  show ?case
    using t
    by (auto simp: found wp_bind wp_raise_if wp_basic wp_change wp_flush Let_def db_only_back
        is_sqlalchemy_error_def create_admin_effect_def set_users_def
        intro!: audit intro: db_only_trans)
qed (auto simp: is_sqlalchemy_error_def)

lemma wp_create_admin:
  "wp (create_admin u c cfg username password super rid)
     (\<lambda>x t. db_only s t \<and> (\<exists>n h d. normalize_username u username = Inr n
        \<and> hash_password u c cfg (w_db_tick s) password (Some n) = Inr h \<and> drifted s (w_db s) d
        \<and> create_admin_effect u n h super (os_now s) x d (w_db t)) \<and> db_constraints (w_db t))
     (\<lambda>e t. db_only s t \<and> drifted s (w_db s) (w_db t)
        \<and> (e \<in> {ValidationError, EntityConflict, SQLAlchemyError}
            \<or> argon_hash c (w_db_tick s) password = Inl e)) s"
proof -
  have body: "wp (transaction (create_admin_body u n h super (os_now s) rid))
      (\<lambda>x t. db_only s t \<and> (\<exists>d. drifted s (w_db s) d \<and> create_admin_effect u n h super (os_now s) x d (w_db t))
         \<and> db_constraints (w_db t))
      (\<lambda>e t. db_only s t \<and> drifted s (w_db s) (w_db t) \<and> (e = EntityConflict \<or> is_sqlalchemy_error e)) s" for n h
    by (rule wp_transaction [OF wp_create_admin_body]) simp
  have hash_error: "e = ValidationError \<or> argon_hash c k password = Inl e"
    if "hash_password u c cfg k password name = Inl e" for k name e
    using that by (auto simp: hash_password_def validate_password_def rbind_eq_Inl split: option.splits)
  show ?thesis
    unfolding create_admin_def
    by (auto simp: wp_bind wp_lift_result wp_basic wp_utc_now wp_try_catch wp_if is_sqlalchemy_error_def
        dest: normalize_username_error hash_error intro!: wp_mono [OF body] split: sum.splits)
qed

definition change_password_effect ::
  "unicode \<Rightarrow> str \<Rightarrow> str \<Rightarrow> datetime \<Rightarrow> user \<Rightarrow> database \<Rightarrow> database \<Rightarrow> bool" where
  "change_password_effect u n h now x' d d' \<longleftrightarrow>
     (\<exists>x. get_by_username u n d = Some x
        \<and> x' = x\<lparr>user_password_hash := h, user_password_changed_at := Some now,
                user_failed_login_attempts := 0, user_locked_until := None\<rparr>
        \<and> with_audit ADMIN_PASSWORD_CHANGED
            (set_sessions (revoke_rows (user_id x) now None) (store_user x' d)) d')"

lemma wp_change_password:
  "wp (change_password u c cfg username password rid)
     (\<lambda>x t. db_only s t \<and> (\<exists>n h d. normalize_username u username = Inr n
        \<and> hash_password u c cfg (w_db_tick s) password (Some n) = Inr h \<and> drifted s (w_db s) d
        \<and> change_password_effect u n h (os_now s) x d (w_db t)) \<and> db_constraints (w_db t))
     (\<lambda>e t. db_only s t \<and> drifted s (w_db s) (w_db t)) s"
proof -
  have "wp (change_password_body u n h now rid)
      (\<lambda>x t. db_only s' t \<and> change_password_effect u n h now x (w_db s') (w_db t))
      (\<lambda>e t. True \<and> db_only s' t) s'" for n h now s'
    unfolding change_password_body_def
  proof (rule wp_bind_spec [OF wp_query], goal_cases)
    case (1 found t)
    then have found: "found = get_by_username u n (w_db s')" and t: "db_only s' t" "w_db t = w_db s'" by auto
    show ?case
      using t
      by (auto simp: found wp_simps Let_def db_only_back change_password_effect_def split: option.splits
          intro!: wp_audit_then intro: db_only_trans)
  qed auto
  from wp_transaction [OF this, where s = s] show ?thesis
    by (auto simp: change_password_def wp_simps intro: wp_mono split: sum.splits)
qed

end
