(* ===== verification/AuthInvariant.thy ===== *)
theory AuthInvariant
  imports AuthSpecs Constraints
begin

text \<open>
  The invariant of authentication. \<open>auth_reachable\<close> is its state machine: any sequence of
  the operations, by any caller, at any clock readings, each with its own random source, with
  other processes committing in between. A locale states what it takes for a predicate on the
  tables to survive every operation; it is interpreted for the invariant and for the fact
  that a session is gone for good.
\<close>

section \<open>The operations as one action\<close>

datatype auth_action =
    CreateAdmin str str bool "str option"
  | Login str str login_context
  | ChangePassword str str "str option"
  | RevokeUserSessions str "str option"
  | Authenticate "str option" "str option" "str option"
  | Revoke "str option" "str option" "str option"
  | RevokeAllFor nat "nat option" "str option"
  | CleanupExpired "str option"

fun run_auth :: "unicode \<Rightarrow> crypto \<Rightarrow> settings \<Rightarrow> auth_action \<Rightarrow> unit svc" where
  "run_auth u c cfg (CreateAdmin n p super rid) = discard (create_admin u c cfg n p super rid)"
| "run_auth u c cfg (Login n p lctx) = discard (login u c cfg n p lctx)"
| "run_auth u c cfg (ChangePassword n p rid) = discard (change_password u c cfg n p rid)"
| "run_auth u c cfg (RevokeUserSessions n rid) = discard (revoke_user_sessions u n rid)"
| "run_auth u c cfg (Authenticate tok ip ua) = discard (authenticate c cfg tok ip ua)"
| "run_auth u c cfg (Revoke tok rid ip) = discard (revoke u c cfg tok rid ip)"
| "run_auth u c cfg (RevokeAllFor uid ex rid) = discard (revoke_all_for_user u uid ex rid)"
| "run_auth u c cfg (CleanupExpired rid) = discard (cleanup_expired u rid)"

text \<open>Other processes keep the predicate.\<close>

definition env_keeps :: "(database \<Rightarrow> bool) \<Rightarrow> world \<Rightarrow> bool" where
  "env_keeps I s \<longleftrightarrow> (\<forall>n d. I d \<longrightarrow> I (w_env s n d))"

lemma env_keeps_db_only: "db_only s t \<Longrightarrow> env_keeps I t = env_keeps I s"
  by (simp add: env_keeps_def db_onlyD)

lemma env_keeps_drifted: "env_keeps I s \<Longrightarrow> drifted s d d' \<Longrightarrow> I d \<Longrightarrow> I d'"
proof -
  assume keeps: "env_keeps I s" and "drifted s d d'" and I: "I d"
  then obtain ns where d': "d' = fold (w_env s) ns d" by (auto simp: drifted_def)
  have "I (fold (w_env s) ns d)" using I
  proof (induction ns arbitrary: d)
    case (Cons n ns)
    then show ?case using keeps by (simp add: env_keeps_def)
  qed simp
  then show ?thesis by (simp add: d')
qed

section \<open>What survives every operation\<close>

locale auth_invariant =
  fixes u :: unicode and c :: crypto and cfg :: settings and I :: "database \<Rightarrow> bool"
  assumes keep_authenticate: "I d \<Longrightarrow> db_constraints d' \<Longrightarrow> authenticate_effect cfg now h x d d' \<Longrightarrow> I d'"
    and keep_revoke: "I d \<Longrightarrow> db_constraints d' \<Longrightarrow> revoke_effect now h b d d' \<Longrightarrow> I d'"
    and keep_revoke_all: "I d \<Longrightarrow> db_constraints d' \<Longrightarrow> revoke_all_effect a i now ex n d d' \<Longrightarrow> I d'"
    and keep_cleanup: "I d \<Longrightarrow> db_constraints d' \<Longrightarrow> with_audit EXPIRED_SESSIONS_CLEANED
        (set_sessions (filter (\<lambda>r. \<not> is_expired now r)) d) d' \<Longrightarrow> I d'"
    and keep_login: "I d \<Longrightarrow> db_constraints d' \<Longrightarrow> login_effect u c cfg name password prev now res d d' \<Longrightarrow> I d'"
    and keep_create: "I d \<Longrightarrow> db_constraints d' \<Longrightarrow> is_username name \<Longrightarrow>
        create_admin_effect u name hash super now y d d' \<Longrightarrow> I d'"
    and keep_change: "I d \<Longrightarrow> db_constraints d' \<Longrightarrow> change_password_effect u name hash now y d d' \<Longrightarrow> I d'"
begin

definition kept :: "world \<Rightarrow> world \<Rightarrow> bool" where
  "kept s t \<longleftrightarrow> db_only s t \<and> I (w_db t)"

lemma kept_effect:
  assumes "env_keeps I s" and "I (w_db s)"
    and "wp m (\<lambda>x t. db_only s t \<and> (\<exists>d. drifted s (w_db s) d \<and> P x d (w_db t)) \<and> db_constraints (w_db t))
       (\<lambda>e t. db_only s t \<and> drifted s (w_db s) (w_db t)) s"
    and "\<And>x d d'. I d \<Longrightarrow> db_constraints d' \<Longrightarrow> P x d d' \<Longrightarrow> I d'"
  shows "wp m (\<lambda>_. kept s) (\<lambda>_. kept s) s"
  by (rule wp_mono [OF assms(3)])
    (auto simp: kept_def intro: assms(4) env_keeps_drifted [OF assms(1) _ assms(2)])

lemma kept_refl: "I (w_db s) \<Longrightarrow> kept s s"
  by (simp add: kept_def)

lemma kept_hash_fails: "I (w_db s) \<Longrightarrow> hash_session_token c tok = Inl e \<Longrightarrow>
    wp (authenticate c cfg (Some tok) ip ua) (\<lambda>_. kept s) (\<lambda>_. kept s) s \<and>
    wp (revoke u c cfg (Some tok) rid ip) (\<lambda>_. kept s) (\<lambda>_. kept s) s"
  by (auto simp: authenticate_def revoke_def wp_simps kept_refl)

lemma kept_tokens:
  assumes "env_keeps I s" and "I (w_db s)"
  shows "wp (authenticate c cfg tok ip ua) (\<lambda>_. kept s) (\<lambda>_. kept s) s"
    and "wp (revoke u c cfg tok rid ip) (\<lambda>_. kept s) (\<lambda>_. kept s) s"
proof -
  have "wp (authenticate c cfg tok ip ua) (\<lambda>_. kept s) (\<lambda>_. kept s) s
      \<and> wp (revoke u c cfg tok rid ip) (\<lambda>_. kept s) (\<lambda>_. kept s) s"
  proof (cases "tok = None \<or> tok = Some []")
    case True
    then show ?thesis using assms(2) by (auto simp: authenticate_def revoke_def wp_simps kept_refl)
  next
    case False
    then obtain k where k: "tok = Some k" "k \<noteq> []" by auto
    show ?thesis
    proof (cases "hash_session_token c k")
      case (Inl e)
      then show ?thesis using kept_hash_fails [OF assms(2) Inl] by (simp add: k)
    next
      case (Inr h)
      show ?thesis
        unfolding k(1)
        by (intro conjI kept_effect [OF assms wp_authenticate [OF Inr k(2)]]
            kept_effect [OF assms wp_revoke [OF Inr k(2)]]) (erule (2) keep_authenticate keep_revoke)+
    qed
  qed
  then show "wp (authenticate c cfg tok ip ua) (\<lambda>_. kept s) (\<lambda>_. kept s) s"
    "wp (revoke u c cfg tok rid ip) (\<lambda>_. kept s) (\<lambda>_. kept s) s" by blast+
qed

lemma kept_revoke_all:
  assumes "env_keeps I s" and "I (w_db s)"
  shows "wp (revoke_all_for_user u uid ex rid) (\<lambda>_. kept s) (\<lambda>_. kept s) s"
  by (rule kept_effect [OF assms wp_revoke_all_for_user]) (erule (2) keep_revoke_all)

lemma kept_trans: "kept s t \<Longrightarrow> kept t t' \<Longrightarrow> kept s t'"
  by (auto simp: kept_def intro: db_only_trans)

lemma kept_env: "kept s t \<Longrightarrow> env_keeps I s \<Longrightarrow> env_keeps I t \<and> I (w_db t)"
  by (auto simp: kept_def intro: env_keeps_db_only [THEN iffD2])

lemma kept_get_user:
  assumes "env_keeps I s" and "I (w_db s)"
  shows "wp (get_user u name) (\<lambda>_. kept s) (\<lambda>_. kept s) s"
proof -
  have "wp (bind (query (get_by_username u n))
        (\<lambda>found. case found of None \<Rightarrow> throw EntityNotFound | Some x \<Rightarrow> ret x))
      (\<lambda>x t. db_only s' t \<and> True) (\<lambda>e t. True \<and> db_only s' t) s'" for n s'
    by (auto simp: wp_simps split: option.splits)
  from wp_read_session [OF this, where s = s]
  have "wp (read_session (bind (query (get_by_username u n))
        (\<lambda>found. case found of None \<Rightarrow> throw EntityNotFound | Some x \<Rightarrow> ret x)))
      (\<lambda>_. kept s) (\<lambda>_. kept s) s" for n
    by (rule wp_mono) (auto simp: kept_def intro: env_keeps_drifted [OF assms(1) _ assms(2)])
  then show ?thesis
    using assms(2) by (auto simp: get_user_def wp_simps kept_refl split: sum.splits)
qed

lemma kept_run_auth:
  assumes "env_keeps I s" and "I (w_db s)"
  shows "wp (run_auth u c cfg a) (\<lambda>_. kept s) (\<lambda>_. kept s) s"
proof (cases a)
  case (CreateAdmin n p super rid)
  have "wp (create_admin u c cfg n p super rid)
      (\<lambda>x t. db_only s t \<and> (\<exists>d. drifted s (w_db s) d \<and> (\<exists>n h. is_username n
         \<and> create_admin_effect u n h super (os_now s) x d (w_db t))) \<and> db_constraints (w_db t))
      (\<lambda>e t. db_only s t \<and> drifted s (w_db s) (w_db t)) s"
    by (rule wp_mono [OF wp_create_admin]) (auto dest: normalize_username_ok)
  then have "wp (create_admin u c cfg n p super rid) (\<lambda>_. kept s) (\<lambda>_. kept s) s"
    by (rule kept_effect [OF assms]) (elim exE conjE, erule (3) keep_create)
  with CreateAdmin show ?thesis by (simp add: wp_discard)
next
  case (Login n p lctx)
  have "wp (login u c cfg n p lctx) (\<lambda>_. kept s) (\<lambda>_. kept s) s"
    by (rule kept_effect [OF assms wp_login]) (erule (2) keep_login)
  with Login show ?thesis by (simp add: wp_discard)
next
  case (ChangePassword n p rid)
  have "wp (change_password u c cfg n p rid)
      (\<lambda>x t. db_only s t \<and> (\<exists>d. drifted s (w_db s) d \<and> (\<exists>n h.
         change_password_effect u n h (os_now s) x d (w_db t))) \<and> db_constraints (w_db t))
      (\<lambda>e t. db_only s t \<and> drifted s (w_db s) (w_db t)) s"
    by (rule wp_mono [OF wp_change_password]) auto
  then have "wp (change_password u c cfg n p rid) (\<lambda>_. kept s) (\<lambda>_. kept s) s"
    by (rule kept_effect [OF assms]) (elim exE, erule (2) keep_change)
  with ChangePassword show ?thesis by (simp add: wp_discard)
next
  case (RevokeUserSessions n rid)
  have "wp (revoke_user_sessions u n rid) (\<lambda>_. kept s) (\<lambda>_. kept s) s"
    unfolding revoke_user_sessions_def
    by (rule wp_bind_spec [OF kept_get_user [OF assms]])
      (auto intro!: wp_mono [OF kept_revoke_all] dest: kept_env [OF _ assms(1)] intro: kept_trans)
  with RevokeUserSessions show ?thesis by (simp add: wp_discard)
next
  case (Authenticate tok ip ua)
  then show ?thesis using kept_tokens [OF assms] by (simp add: wp_discard)
next
  case (Revoke tok rid ip)
  then show ?thesis using kept_tokens [OF assms] by (simp add: wp_discard)
next
  case (RevokeAllFor uid ex rid)
  then show ?thesis using kept_revoke_all [OF assms] by (simp add: wp_discard)
next
  case (CleanupExpired rid)
  have "wp (cleanup_expired u rid) (\<lambda>_. kept s) (\<lambda>_. kept s) s"
    by (rule kept_effect [OF assms wp_cleanup_expired]) (erule (2) keep_cleanup)
  with CleanupExpired show ?thesis by (simp add: wp_discard)
qed

end

section \<open>Reachable states\<close>

inductive auth_reachable ::
  "unicode \<Rightarrow> settings \<Rightarrow> (crypto \<Rightarrow> bool) \<Rightarrow> world \<Rightarrow> world \<Rightarrow> bool"
  for u cfg C s0 where
  initial: "auth_reachable u cfg C s0 s0"
| action: "auth_reachable u cfg C s0 s \<Longrightarrow> C c \<Longrightarrow> run_auth u c cfg a s = (res, t) \<Longrightarrow>
    auth_reachable u cfg C s0 t"
| clock: "auth_reachable u cfg C s0 s \<Longrightarrow> auth_reachable u cfg C s0 (s\<lparr>os_now := now\<rparr>)"

inductive_cases auth_reachableE: "auth_reachable u cfg C s0 t"

lemma auth_reachable_keeps:
  assumes "auth_reachable u cfg C s0 t" and "\<And>c. C c \<Longrightarrow> auth_invariant u c cfg I"
    and "env_keeps I s0" and "I (w_db s0)"
  shows "env_keeps I t \<and> I (w_db t)"
  using assms(1)
proof (induction rule: auth_reachable.induct)
  case initial
  then show ?case using assms(3,4) by simp
next
  case (action s c a res t)
  have "wp (run_auth u c cfg a) (\<lambda>_ t. db_only s t \<and> I (w_db t)) (\<lambda>_ t. db_only s t \<and> I (w_db t)) s"
    using auth_invariant.kept_run_auth [OF assms(2) [OF action.hyps(2)], of s a] action.IH
    by (simp add: auth_invariant.kept_def [OF assms(2) [OF action.hyps(2)], abs_def])
  then have "db_only s t \<and> I (w_db t)"
    using action.hyps(3) by (auto simp: wp_def split: sum.splits)
  then show ?case using action.IH by (auto intro: env_keeps_db_only [THEN iffD2])
next
  case (clock s now)
  then show ?case by (simp add: env_keeps_def)
qed

section \<open>The invariant\<close>

text \<open>A counter below the limit or a lock set; a lifetime that follows the settings.\<close>

definition user_sane :: "settings \<Rightarrow> user \<Rightarrow> bool" where
  "user_sane cfg x \<longleftrightarrow> is_username (user_username x)
     \<and> user_failed_login_attempts x \<le> login_max_failed_attempts cfg
     \<and> (user_failed_login_attempts x < login_max_failed_attempts cfg \<or> user_locked_until x \<noteq> None)"

definition session_sane :: "settings \<Rightarrow> user_session \<Rightarrow> bool" where
  "session_sane cfg r \<longleftrightarrow>
     ses_absolute_expires_at r = ses_created_at r + seconds (session_absolute_timeout_seconds cfg)
   \<and> ses_expires_at r \<le> ses_absolute_expires_at r
   \<and> ses_expires_at r \<le> ses_last_activity_at r + seconds (session_idle_timeout_seconds cfg)"

definition auth_sound :: "settings \<Rightarrow> database \<Rightarrow> bool" where
  "auth_sound cfg d \<longleftrightarrow> field_ranges cfg \<and> db_constraints d
     \<and> list_all (user_sane cfg) (db_users d) \<and> list_all (session_sane cfg) (db_sessions d)"

lemma get_by_username_in: "get_by_username u n d = Some x \<Longrightarrow> x \<in> set (db_users d)"
  by (auto simp: get_by_username_def Let_def dest: find_Some_iff_in)

lemma get_by_token_hash_in:
  "get_by_token_hash h d = Some r \<Longrightarrow> r \<in> set (db_sessions d) \<and> ses_token_hash r = h"
  by (auto simp: get_by_token_hash_def dest: find_Some_iff_in)

lemma list_all_store:
  "list_all P (db_users d) \<Longrightarrow> P x \<Longrightarrow> list_all P (db_users (store_user x d))"
  "list_all Q (db_sessions d) \<Longrightarrow> Q r \<Longrightarrow> list_all Q (db_sessions (store_session r d))"
  by (auto simp: store_user_def store_session_def set_users_def set_sessions_def row_update_def list_all_iff)

lemma store_other [simp]:
  "db_sessions (store_user x d) = db_sessions d" "db_users (store_session r d) = db_users d"
  "db_users (set_sessions f d) = db_users d" "db_sessions (set_users g d) = db_sessions d"
  "db_sessions (set_sessions f d) = f (db_sessions d)" "db_users (set_users g d) = g (db_users d)"
  by (simp_all add: store_user_def store_session_def set_users_def set_sessions_def)

lemma session_sane_changes [simp]:
  "session_sane cfg (r\<lparr>ses_revoked_at := v\<rparr>) = session_sane cfg r"
  "session_sane cfg (with_ses_id i r) = session_sane cfg r"
  "session_sane cfg (new_session cfg h uid now ip ag cs)"
  by (simp_all add: session_sane_def with_ses_id_def)

lemma session_sane_touch: "session_sane cfg r \<Longrightarrow> session_sane cfg (touch cfg now r)"
  by (auto simp: session_sane_def touch_def)

lemma list_all_revoke_rows:
  "list_all (session_sane cfg) rows \<Longrightarrow> list_all (session_sane cfg) (revoke_rows uid now ex rows)"
  by (auto simp: revoke_rows_def list_all_iff)

lemma user_sane_lift: "field_ranges cfg \<Longrightarrow> user_sane cfg x \<Longrightarrow> user_sane cfg (lift_lock now x)"
  by (auto simp: user_sane_def lift_lock_def field_ranges_def split: option.splits)

lemma lift_lock_unlocked: "\<not> is_locked now x \<Longrightarrow> user_locked_until (lift_lock now x) = None"
  by (auto simp: is_locked_def lift_lock_def split: option.splits)

lemma user_sane_refused:
  assumes "user_sane cfg x" and "user_locked_until x = None"
  shows "user_sane cfg (refused_user cfg now valid x)"
  using assms by (auto simp: user_sane_def refused_user_def count_failure_def Let_def)

lemma user_sane_accepted:
  "field_ranges cfg \<Longrightarrow> user_sane cfg x \<Longrightarrow>
   user_sane cfg (x\<lparr>user_password_hash := h, user_failed_login_attempts := 0,
     user_locked_until := None, user_last_login_at := v\<rparr>)"
  "field_ranges cfg \<Longrightarrow> user_sane cfg x \<Longrightarrow>
   user_sane cfg (x\<lparr>user_password_hash := h, user_password_changed_at := v,
     user_failed_login_attempts := 0, user_locked_until := None\<rparr>)"
  by (auto simp: user_sane_def field_ranges_def)

lemma previous_revoked_users [simp]: "db_users (previous_revoked c now prev d) = db_users d"
  by (auto simp: previous_revoked_def split: option.splits sum.splits)

lemma previous_revoked_sane:
  "list_all (session_sane cfg) (db_sessions d) \<Longrightarrow>
   list_all (session_sane cfg) (db_sessions (previous_revoked c now prev d))"
proof -
  assume all: "list_all (session_sane cfg) (db_sessions d)"
  have "session_sane cfg r" if "get_by_token_hash h d = Some r" for h r
    using all get_by_token_hash_in [OF that] by (auto simp: list_all_iff)
  then show ?thesis
    using all by (auto simp: previous_revoked_def intro!: list_all_store split: option.splits sum.splits)
qed

lemma accepted_sane:
  assumes "field_ranges cfg" and "user_sane cfg x" and "list_all (user_sane cfg) (db_users d)"
    and "list_all (session_sane cfg) (db_sessions d)" and "accepted c cfg now prev x cr d d'"
  shows "list_all (user_sane cfg) (db_users d') \<and> list_all (session_sane cfg) (db_sessions d')"
proof -
  obtain h x' d2 where x': "x' = x\<lparr>user_password_hash := h, user_failed_login_attempts := 0,
          user_locked_until := None, user_last_login_at := Some now\<rparr>"
    and created: "created_session c cfg x' now cr (previous_revoked c now prev (store_user x' d)) d2"
    and d': "with_audit ADMIN_LOGIN_SUCCESS d2 d'"
    using assms(5) by (auto simp: accepted_def)
  have "user_sane cfg x'" unfolding x' using assms(1,2) by (rule user_sane_accepted)
  then have "list_all (user_sane cfg) (db_users (store_user x' d))"
    by (rule list_all_store(1) [OF assms(3)])
  moreover have "list_all (session_sane cfg) (db_sessions (previous_revoked c now prev (store_user x' d)))"
    using assms(4) by (intro previous_revoked_sane) simp
  ultimately show ?thesis
    using created with_auditD [OF d']
    by (auto simp: created_session_def sessions_table.set_added list_all_iff)
qed

lemma login_sane:
  assumes d: "auth_sound cfg d" and eff: "login_effect u c cfg n p prev now res d d'"
  shows "list_all (user_sane cfg) (db_users d') \<and> list_all (session_sane cfg) (db_sessions d')"
proof (cases "get_by_username u n d")
  case None
  then show ?thesis using d eff by (auto simp: login_effect_def auth_sound_def with_auditD)
next
  case (Some x)
  have x: "user_sane cfg x" using d get_by_username_in [OF Some] by (auto simp: auth_sound_def list_all_iff)
  show ?thesis
  proof (cases "is_locked now x")
    case True
    then show ?thesis using d eff Some by (auto simp: login_effect_def auth_sound_def with_auditD)
  next
    case False
    let ?y = "lift_lock now x"
    have y: "user_sane cfg ?y" "user_locked_until ?y = None"
      using d x False user_sane_lift lift_lock_unlocked by (auto simp: auth_sound_def)
    have users: "list_all (user_sane cfg) (db_users (store_user ?y d))"
      using d y by (intro list_all_store) (auto simp: auth_sound_def)
    have "list_all (user_sane cfg) (db_users (store_user (refused_user cfg now valid ?y) (store_user ?y d)))"
      for valid using users user_sane_refused [OF y] by (rule list_all_store)
    then show ?thesis
      using d eff Some False y users accepted_sane [of cfg ?y "store_user ?y d" c now prev _ d']
      by (auto simp: login_effect_def auth_sound_def with_auditD split: if_splits)
  qed
qed

interpretation lifetimes: auth_invariant u c cfg "auth_sound cfg" for u c cfg
proof (unfold_locales, goal_cases)
  case (1 d d' now h x)
  have "session_sane cfg r" if "live_session h now d = Some (r, owner)" for r owner
    using that 1(1) get_by_token_hash_in [of h d]
    by (auto simp: live_session_def auth_sound_def list_all_iff split: option.splits if_splits)
  with 1 show ?case
    by (auto simp: authenticate_effect_def auth_sound_def touched_db_def session_sane_touch
        intro!: list_all_store split: option.splits if_splits)
next
  case (2 d d' now h b)
  have "session_sane cfg r" if "get_by_token_hash h d = Some r" for r
    using that 2(1) get_by_token_hash_in [of h d] by (auto simp: auth_sound_def list_all_iff)
  with 2 show ?case
    by (auto simp: revoke_effect_def auth_sound_def with_auditD intro!: list_all_store
        split: option.splits if_splits)
next
  case (3 d d' a i now ex n)
  then show ?case by (auto simp: revoke_all_effect_def auth_sound_def with_auditD list_all_revoke_rows)
next
  case (4 d d' now)
  then show ?case by (auto simp: auth_sound_def with_auditD list_all_iff)
next
  case (5 d d' name password prev now res)
  then show ?case using login_sane [OF 5(1,3)] by (simp add: auth_sound_def)
next
  case (6 d d' name hash super now y)
  then show ?case
    by (auto simp: create_admin_effect_def auth_sound_def with_auditD users_table.set_added list_all_iff
        user_sane_def new_user_def with_user_id_def field_ranges_def)
next
  case (7 d d' name hash now y)
  have "user_sane cfg x" if "get_by_username u name d = Some x" for x
    using that 7(1) get_by_username_in by (auto simp: auth_sound_def list_all_iff)
  with 7 show ?case
    by (auto simp: change_password_effect_def auth_sound_def with_auditD
        intro!: list_all_store list_all_revoke_rows user_sane_accepted)
qed

section \<open>Sessions that are gone for good\<close>

text \<open>The random source never returns a token that hashes to \<open>h\<close>.\<close>

definition never_drawn :: "crypto \<Rightarrow> str \<Rightarrow> bool" where
  "never_drawn c h \<longleftrightarrow> (\<forall>n. hash_session_token c (token_urlsafe c n) \<noteq> Inr h)"

definition retired :: "str \<Rightarrow> database \<Rightarrow> bool" where
  "retired h d \<longleftrightarrow> list_all (\<lambda>r. ses_token_hash r = h \<longrightarrow> ses_revoked_at r \<noteq> None) (db_sessions d)"

lemma retired_store: "retired h d \<Longrightarrow> ses_token_hash r = h \<longrightarrow> ses_revoked_at r \<noteq> None \<Longrightarrow>
   retired h (store_session r d)"
  unfolding retired_def by (rule list_all_store)

lemma retired_sessions: "db_sessions d' = db_sessions d \<Longrightarrow> retired h d' = retired h d"
  by (simp add: retired_def)

lemma retired_store_user [simp]: "retired h (store_user x d) = retired h d"
  by (rule retired_sessions) simp

lemma retired_audit: "with_audit action d d' \<Longrightarrow> retired h d' = retired h d"
  by (rule retired_sessions) (rule with_auditD)

lemma retired_previous: "retired h d \<Longrightarrow> retired h (previous_revoked c now prev d)"
  by (auto simp: previous_revoked_def intro!: retired_store split: option.splits sum.splits)

lemma retired_created:
  assumes "never_drawn c h" and "retired h d" and "created_session c cfg x now cr d d'"
  shows "retired h d'"
proof -
  obtain n h' ip ag cs where h': "hash_session_token c (token_urlsafe c n) = Inr h'"
    and d': "d' = set_sessions (row_add ses_id with_ses_id (new_session cfg h' (user_id x) now ip ag cs)) d"
    using assms(3) by (auto simp: created_session_def)
  have "h' \<noteq> h" using h' assms(1) by (auto simp: never_drawn_def)
  then show ?thesis
    using assms(2) by (auto simp: retired_def d' sessions_table.set_added list_all_iff with_ses_id_def)
qed

text \<open>A retired session stays so as long as its token is not drawn again.\<close>

lemma retired_invariant:
  assumes "never_drawn c h"
  shows "auth_invariant u c cfg (retired h)"
proof (unfold_locales, goal_cases)
  case (1 d d' now h' x)
  have "ses_token_hash r = h \<longrightarrow> ses_revoked_at r \<noteq> None" if "live_session h' now d = Some (r, owner)" for r owner
    using that 1(1) get_by_token_hash_in [of h' d]
    by (auto simp: live_session_def retired_def list_all_iff split: option.splits if_splits)
  with 1 show ?case
    by (auto simp: authenticate_effect_def touched_db_def intro!: retired_store
        split: option.splits if_splits)
next
  case (2 d d' now h' b)
  then show ?case
    by (auto simp: revoke_effect_def retired_audit intro!: retired_store split: option.splits if_splits)
next
  case (3 d d' a i now ex n)
  then show ?case
    by (auto simp: revoke_all_effect_def retired_audit) (auto simp: retired_def revoke_rows_def list_all_iff)
next
  case (4 d d' now)
  then show ?case by (auto simp: retired_audit) (auto simp: retired_def list_all_iff)
next
  case (5 d d' name password prev now res)
  have "retired h d2" if "accepted c cfg now prev y cr (store_user z d) d2" for y cr z d2
    using that 5(1)
    by (auto simp: accepted_def retired_audit intro!: retired_previous
        elim!: retired_created [OF assms, rotated])
  with 5 show ?case
    by (auto simp: login_effect_def retired_audit split: option.splits if_splits)
next
  case (6 d d' name hash super now y)
  then show ?case
    by (auto simp: create_admin_effect_def retired_audit) (simp add: retired_def)
next
  case (7 d d' name hash now y)
  then show ?case
    by (auto simp: change_password_effect_def retired_audit) (auto simp: retired_def revoke_rows_def list_all_iff)
qed

end
