(* ===== verification/Csrf.thy ===== *)
theory Csrf
  imports Security
begin

text \<open>
  \<open>app/core/csrf.py\<close>: signed form tokens \<open>v1.issued.nonce.mac\<close>, bound to a session's derived
  key or to the nonce cookie of the login form.
\<close>

section \<open>URL-safe base64 without padding\<close>

definition b64_char :: "nat \<Rightarrow> nat" where
  "b64_char n =
     (if n < 26 then 65 + n else if n < 52 then 71 + n else if n < 62 then n - 4
      else if n = 62 then 45 else 95)"

text \<open>The decoder replaces \<open>-\<close> and \<open>_\<close> by \<open>+\<close> and \<open>/\<close> first, so it takes both.\<close>

definition b64_value :: "nat \<Rightarrow> nat option" where
  "b64_value c =
     (if 65 \<le> c \<and> c \<le> 90 then Some (c - 65)
      else if 97 \<le> c \<and> c \<le> 122 then Some (c - 71)
      else if 48 \<le> c \<and> c \<le> 57 then Some (c + 4)
      else if c = 45 \<or> c = 43 then Some 62
      else if c = 95 \<or> c = 47 then Some 63
      else None)"

fun b64_chars :: "nat list \<Rightarrow> str" where
  "b64_chars [] = []"
| "b64_chars [a] = map b64_char [a div 4, a mod 4 * 16]"
| "b64_chars [a, b] = map b64_char [a div 4, a mod 4 * 16 + b div 16, b mod 16 * 4]"
| "b64_chars (a # b # c # rest) =
     map b64_char [a div 4, a mod 4 * 16 + b div 16, b mod 16 * 4 + c div 64, c mod 64]
     @ b64_chars rest"

definition csrf_encode :: "bytes \<Rightarrow> str" where
  "csrf_encode raw = b64_chars (map unat raw)"

text \<open>The sextets back to bytes; the bits a short last group leaves over are dropped.\<close>

fun b64_bytes :: "nat list \<Rightarrow> nat list option" where
  "b64_bytes [] = Some []"
| "b64_bytes [w] = None"
| "b64_bytes [w, x] = Some [w * 4 + x div 16]"
| "b64_bytes [w, x, y] = Some [w * 4 + x div 16, x mod 16 * 16 + y div 4]"
| "b64_bytes (w # x # y # z # rest) =
     map_option (\<lambda>bs. [w * 4 + x div 16, x mod 16 * 16 + y div 4, y mod 4 * 64 + z] @ bs)
       (b64_bytes rest)"

fun all_some :: "'a option list \<Rightarrow> 'a list option" where
  "all_some [] = Some []"
| "all_some (None # xs) = None"
| "all_some (Some x # xs) = map_option ((#) x) (all_some xs)"

definition csrf_decode :: "str \<Rightarrow> bytes option" where
  "csrf_decode val =
     (let padded = val @ replicate ((4 - length val mod 4) mod 4) 61;
          data = takeWhile (\<lambda>c. c \<noteq> 61) padded;
          pads = dropWhile (\<lambda>c. c \<noteq> 61) padded
      in if list_all (\<lambda>c. c = 61) pads \<and> length pads \<le> 2
         then (case all_some (map b64_value data) of
                 None \<Rightarrow> None
               | Some sextets \<Rightarrow> map_option (map of_nat) (b64_bytes sextets))
         else None)"

section \<open>Tokens\<close>

definition token_version :: str where "token_version = py ''v1''"
definition token_mac_bytes :: nat where "token_mac_bytes = 32"
definition max_future_skew_seconds :: int where "max_future_skew_seconds = 60"

text \<open>Decimal notation of an integer, and \<open>int(clock().timestamp())\<close>, truncated.\<close>

definition int_text :: "int \<Rightarrow> str" where
  "int_text i = (if i < 0 then 45 # digits_of (nat (- i)) else digits_of (nat i))"

definition timestamp :: "datetime \<Rightarrow> int" where
  "timestamp t = (if t < 0 then - ((- t) div 1000000) else t div 1000000)"

definition mac_payload :: "str \<Rightarrow> int \<Rightarrow> str \<Rightarrow> str" where
  "mac_payload purpose issued_at nonce =
     token_version @ 0 # purpose @ 0 # int_text issued_at @ 0 # nonce"

definition token_mac :: "crypto \<Rightarrow> bytes \<Rightarrow> str \<Rightarrow> int \<Rightarrow> str \<Rightarrow> exn + bytes" where
  "token_mac c key purpose issued_at nonce =
     rbind (encode_ascii (mac_payload purpose issued_at nonce)) (\<lambda>payload.
     Inr (hmac_sha256 c key payload))"

definition token_text :: "int \<Rightarrow> str \<Rightarrow> str \<Rightarrow> str" where
  "token_text issued_at nonce signature =
     token_version @ 46 # int_text issued_at @ 46 # nonce @ 46 # signature"

text \<open>\<open>nonce or secrets.token_urlsafe(32)\<close>: \<open>random\<close> is what the source of randomness gives.\<close>

definition issue_token ::
  "crypto \<Rightarrow> str \<Rightarrow> datetime \<Rightarrow> bytes \<Rightarrow> str \<Rightarrow> str option \<Rightarrow> exn + str" where
  "issue_token c random now key purpose nonce =
     (let issued_at = timestamp now;
          resolved_nonce = (case nonce of None \<Rightarrow> random | Some n \<Rightarrow> if n = [] then random else n)
      in rbind (token_mac c key purpose issued_at resolved_nonce) (\<lambda>m.
         Inr (token_text issued_at resolved_nonce (csrf_encode m))))"

definition token_char :: "nat \<Rightarrow> bool" where
  "token_char c = (is_lower c \<or> is_upper c \<or> is_digit c \<or> c = 95 \<or> c = 45)"

text \<open>\<open>_TOKEN_PATTERN.fullmatch\<close> with its three groups. No class contains the dot.\<close>

definition match_token :: "str \<Rightarrow> (nat \<times> str \<times> str) option" where
  "match_token token =
     (case split_on 46 token of
        [v, issued, nonce, mac] \<Rightarrow>
          if v = token_version
           \<and> list_all is_digit issued \<and> 1 \<le> length issued \<and> length issued \<le> 12
           \<and> list_all token_char nonce \<and> 32 \<le> length nonce \<and> length nonce \<le> 128
           \<and> list_all token_char mac \<and> length mac = 43
          then Some (number_of_digits issued, nonce, mac) else None
      | _ \<Rightarrow> None)"

definition verify_token ::
  "crypto \<Rightarrow> settings \<Rightarrow> datetime \<Rightarrow> str option \<Rightarrow> bytes \<Rightarrow> str \<Rightarrow> int \<Rightarrow> str option \<Rightarrow> exn + unit" where
  "verify_token c cfg now token key purpose ttl_seconds expected_nonce =
     (case token of
        None \<Rightarrow> Inl (CSRFError CsrfMissing)
      | Some tok \<Rightarrow>
          rbind (require (tok \<noteq> []) (CSRFError CsrfMissing)) (\<lambda>_.
          rbind (require (\<not> int (length tok) > csrf_token_max_length cfg) (CSRFError CsrfOversized)) (\<lambda>_.
          case match_token tok of
            None \<Rightarrow> Inl (CSRFError CsrfMalformed)
          | Some (issued_at, nonce, mac) \<Rightarrow>
              (case csrf_decode mac of
                 None \<Rightarrow> Inl (CSRFError CsrfMalformed)
               | Some supplied_mac \<Rightarrow>
                   rbind (require (length supplied_mac = token_mac_bytes) (CSRFError CsrfMalformed)) (\<lambda>_.
                   let age = timestamp now - int issued_at in
                   rbind (require (\<not> age < - max_future_skew_seconds) (CSRFError CsrfIssuedInFuture)) (\<lambda>_.
                   rbind (require (\<not> age > ttl_seconds) (CSRFError CsrfExpired)) (\<lambda>_.
                   rbind (case expected_nonce of
                            None \<Rightarrow> Inr ()
                          | Some e \<Rightarrow> rbind (compare_digest nonce e) (\<lambda>same.
                              require same (CSRFError CsrfContextMismatch))) (\<lambda>_.
                   rbind (token_mac c key purpose (int issued_at) nonce) (\<lambda>expected_mac.
                   require (supplied_mac = expected_mac) (CSRFError CsrfSignatureMismatch))))))))))"

section \<open>The service\<close>

record login_csrf_context =
  lcc_cookie_value :: str
  lcc_token :: str
  lcc_max_age :: int

definition global_key :: "settings \<Rightarrow> exn + bytes" where
  "global_key cfg =
     (case csrf_secret cfg of None \<Rightarrow> Inl RuntimeError | Some secret \<Rightarrow> encode_utf8 secret)"

definition session_key :: "str \<Rightarrow> exn + bytes" where
  "session_key csrf_secret_hash =
     (case fromhex csrf_secret_hash of
        None \<Rightarrow> Inl (CSRFError CsrfInvalidSessionContext)
      | Some key \<Rightarrow>
          if length key \<noteq> token_mac_bytes then Inl (CSRFError CsrfInvalidSessionContext)
          else Inr key)"

definition issue_login_context ::
  "crypto \<Rightarrow> settings \<Rightarrow> str \<Rightarrow> datetime \<Rightarrow> exn + login_csrf_context" where
  "issue_login_context c cfg random now =
     rbind (global_key cfg) (\<lambda>key.
     rbind (issue_token c random now key (py ''login'') (Some random)) (\<lambda>token.
     Inr \<lparr>lcc_cookie_value = random, lcc_token = token, lcc_max_age = login_csrf_ttl_seconds cfg\<rparr>))"

definition verify_login_token ::
  "crypto \<Rightarrow> settings \<Rightarrow> datetime \<Rightarrow> str option \<Rightarrow> str option \<Rightarrow> exn + unit" where
  "verify_login_token c cfg now cookie_value token =
     (case cookie_value of
        None \<Rightarrow> Inl (CSRFError CsrfLoginCookieMissing)
      | Some cookie \<Rightarrow>
          if cookie = [] then Inl (CSRFError CsrfLoginCookieMissing)
          else rbind (global_key cfg) (\<lambda>key.
               verify_token c cfg now token key (py ''login'') (login_csrf_ttl_seconds cfg)
                 (Some cookie)))"

definition issue_session_token :: "crypto \<Rightarrow> str \<Rightarrow> datetime \<Rightarrow> str \<Rightarrow> exn + str" where
  "issue_session_token c random now csrf_secret_hash =
     rbind (session_key csrf_secret_hash) (\<lambda>key.
     issue_token c random now key (py ''session'') None)"

definition verify_session_token ::
  "crypto \<Rightarrow> settings \<Rightarrow> datetime \<Rightarrow> str \<Rightarrow> str option \<Rightarrow> exn + unit" where
  "verify_session_token c cfg now csrf_secret_hash token =
     rbind (session_key csrf_secret_hash) (\<lambda>key.
     verify_token c cfg now token key (py ''session'') (csrf_token_ttl_seconds cfg) None)"

section \<open>The encoding is faithful\<close>

lemma b64_value_char: "n < 64 \<Longrightarrow> b64_value (b64_char n) = Some n"
  by (auto simp: b64_value_def b64_char_def)

lemma b64_char_token: "n < 64 \<Longrightarrow> token_char (b64_char n)"
  by (auto simp: token_char_def b64_char_def is_lower_def is_upper_def is_digit_def)

lemma token_char_free: "token_char c \<Longrightarrow> c \<noteq> 46 \<and> c \<noteq> 61 \<and> c \<noteq> 0 \<and> c < 128"
  by (auto simp: token_char_def is_lower_def is_upper_def is_digit_def)

fun b64_sextets :: "nat list \<Rightarrow> nat list" where
  "b64_sextets [] = []"
| "b64_sextets [a] = [a div 4, a mod 4 * 16]"
| "b64_sextets [a, b] = [a div 4, a mod 4 * 16 + b div 16, b mod 16 * 4]"
| "b64_sextets (a # b # c # rest) =
     [a div 4, a mod 4 * 16 + b div 16, b mod 16 * 4 + c div 64, c mod 64] @ b64_sextets rest"

lemma b64_chars_sextets: "b64_chars bs = map b64_char (b64_sextets bs)"
  by (induction bs rule: b64_chars.induct) simp_all

lemma sextet_join: "b < 256 \<Longrightarrow> (a mod 4 * 16 + b div 16) div 16 = a mod (4::nat)"
  "b < 256 \<Longrightarrow> (a mod 4 * 16 + b div 16) mod 16 = b div (16::nat)"
  "b < 256 \<Longrightarrow> c < 256 \<Longrightarrow> (b mod 16 * 4 + c div 64) div 4 = b mod (16::nat)"
  "c < 256 \<Longrightarrow> (b mod 16 * 4 + c div 64) mod 4 = c div (64::nat)"
  by auto

lemma sextet_high: "b < 256 \<Longrightarrow> b div 16 < (16::nat)" "c < 256 \<Longrightarrow> c div 64 < (4::nat)"
  by (simp_all add: div_less_iff_less_mult)

lemma sextet_split: "b < 256 \<Longrightarrow> b div 16 div 16 = (0::nat)"
  "b < 256 \<Longrightarrow> b div 16 mod 16 * 16 + b mod 16 = (b::nat)"
  "b < 256 \<Longrightarrow> c < 256 \<Longrightarrow> b div 16 mod 16 * 16 + (b mod 16 + c div 64 div 4) = (b::nat)"
  "c < 256 \<Longrightarrow> c div 64 mod 4 * 64 + c mod 64 = (c::nat)"
  using sextet_high [of b] sextet_high [of c] by simp_all

lemma b64_bytes_sextets: "list_all (\<lambda>b. b < 256) bs \<Longrightarrow> b64_bytes (b64_sextets bs) = Some bs"
  by (induction bs rule: b64_sextets.induct) (simp_all add: sextet_join sextet_split)

lemma b64_sextets_bound: "list_all (\<lambda>b. b < 256) bs \<Longrightarrow> list_all (\<lambda>s. s < 64) (b64_sextets bs)"
  by (induction bs rule: b64_sextets.induct) auto

lemma b64_sextets_mod: "length (b64_sextets bs) mod 4 \<noteq> 1"
  by (induction bs rule: b64_sextets.induct) auto

lemma b64_sextets_length: "length (b64_sextets bs) = (4 * length bs + 2) div 3"
  by (induction bs rule: b64_sextets.induct) auto

lemma all_some_map: "(\<And>x. x \<in> set xs \<Longrightarrow> f x = Some (g x)) \<Longrightarrow> all_some (map f xs) = Some (map g xs)"
  by (induction xs) auto

lemma bytes_bound: "list_all (\<lambda>b. b < 256) (map unat (bs :: bytes))"
  by (auto simp: list_all_iff unat_byte)

lemma csrf_encode_chars: "list_all token_char (csrf_encode bs)"
  using b64_sextets_bound [OF bytes_bound, of bs]
  by (auto simp: csrf_encode_def b64_chars_sextets list_all_iff b64_char_token)

lemma csrf_encode_length: "length (csrf_encode bs) = (4 * length bs + 2) div 3"
  by (simp add: csrf_encode_def b64_chars_sextets b64_sextets_length)

lemma csrf_decode_plain:
  assumes "\<And>c. c \<in> set e \<Longrightarrow> c \<noteq> 61" and "length e mod 4 \<noteq> 1"
  shows "csrf_decode e = (case all_some (map b64_value e) of None \<Rightarrow> None
     | Some sextets \<Rightarrow> map_option (map of_nat) (b64_bytes sextets))"
proof -
  define k where "k = (4 - length e mod 4) mod 4"
  have "length e mod 4 = 0 \<or> length e mod 4 = 2 \<or> length e mod 4 = 3"
    using assms(2) mod_less_divisor [of 4 "length e"] by linarith
  then have k: "k \<le> 2" unfolding k_def by (elim disjE) simp_all
  have "takeWhile (\<lambda>c. c \<noteq> 61) (replicate k (61::nat)) = []"
    "dropWhile (\<lambda>c. c \<noteq> 61) (replicate k (61::nat)) = replicate k 61"
    by (cases k; simp)+
  then have "takeWhile (\<lambda>c. c \<noteq> 61) (e @ replicate k 61) = e"
    "dropWhile (\<lambda>c. c \<noteq> 61) (e @ replicate k 61) = replicate k 61"
    using assms(1) by (simp_all add: takeWhile_append2 dropWhile_append2)
  then show ?thesis
    unfolding csrf_decode_def k_def [symmetric] Let_def using k by (simp add: list_all_iff)
qed

lemma csrf_decode_encode: "csrf_decode (csrf_encode bs) = Some bs"
proof -
  let ?s = "b64_sextets (map unat bs)"
  have e: "csrf_encode bs = map b64_char ?s" by (simp add: csrf_encode_def b64_chars_sextets)
  have free: "c \<noteq> 61" if "c \<in> set (csrf_encode bs)" for c
    using csrf_encode_chars [of bs] that token_char_free by (auto simp: list_all_iff)
  have n: "length (csrf_encode bs) mod 4 \<noteq> 1" using b64_sextets_mod [of "map unat bs"] by (simp add: e)
  have "b64_value (b64_char n) = Some n" if "n \<in> set ?s" for n
    using b64_sextets_bound [OF bytes_bound, of bs] that by (auto simp: list_all_iff b64_value_char)
  then have "all_some (map b64_value (csrf_encode bs)) = Some ?s"
    using all_some_map [of ?s "\<lambda>n. b64_value (b64_char n)" id] by (simp add: e comp_def)
  with csrf_decode_plain [OF free n] show ?thesis
    by (simp add: b64_bytes_sextets [OF bytes_bound] comp_def)
qed

section \<open>Reading back a token\<close>

lemma token_version_free: "46 \<notin> set token_version" "0 \<notin> set token_version"
  by (simp_all add: token_version_def py_def)

lemma digits_of_free: "46 \<notin> set (digits_of n)" "0 \<notin> set (digits_of n)" "45 \<notin> set (digits_of n)"
  using digits_of_digits [of n] by (auto simp: list_all_iff is_digit_def)

lemma token_chars_free: "list_all token_char s \<Longrightarrow> 46 \<notin> set s \<and> 0 \<notin> set s"
  by (auto simp: list_all_iff dest: token_char_free)

lemma token_chars_ascii: "list_all token_char s \<Longrightarrow> is_ascii s"
  by (auto simp: list_all_iff is_ascii_def dest: token_char_free)

text \<open>What the random source of the standard library returns for 32 bytes fits the pattern.\<close>

definition token_nonce :: "str \<Rightarrow> bool" where
  "token_nonce s = (list_all token_char s \<and> 32 \<le> length s \<and> length s \<le> 128)"

lemma match_token_text:
  assumes "0 \<le> i" and "i < 10 ^ 12" and "token_nonce n" and "length m = 32"
  shows "match_token (token_text i n (csrf_encode m)) = Some (nat i, n, csrf_encode m)"
proof -
  have "nat i < 10 ^ 12" using assms(1,2) by (simp add: nat_less_iff)
  then have len: "length (digits_of (nat i)) \<le> 12" "digits_of (nat i) \<noteq> []"
    using digits_of_length [of "nat i" 12] by simp_all
  have "split_on 46 (token_text i n (csrf_encode m))
      = [token_version, digits_of (nat i), n, csrf_encode m]"
    using assms(1,3) csrf_encode_chars [of m]
    by (simp add: token_text_def int_text_def token_nonce_def split_on_append split_on_free
        token_version_free digits_of_free token_chars_free)
  then show ?thesis
    using len assms(3,4) csrf_encode_chars [of m]
    by (simp add: match_token_def digits_of_digits token_nonce_def csrf_encode_length Suc_le_eq)
qed

lemma match_token_Some:
  assumes "match_token tok = Some (i, n, m)"
  shows "list_all token_char n" "token_nonce n"
    "\<exists>issued. tok = token_version @ 46 # issued @ 46 # n @ 46 # m \<and> number_of_digits issued = i"
proof -
  obtain v issued where s: "split_on 46 tok = [v, issued, n, m]" "v = token_version"
    "number_of_digits issued = i" "token_nonce n"
    using assms by (auto simp: match_token_def token_nonce_def split: list.splits if_splits)
  then have "tok = join_on 46 [v, issued, n, m]" by (metis join_split_on)
  with s show "\<exists>issued. tok = token_version @ 46 # issued @ 46 # n @ 46 # m \<and> number_of_digits issued = i"
    by auto
  show "token_nonce n" "list_all token_char n" using s(4) by (simp_all add: token_nonce_def)
qed

lemma token_text_length:
  assumes "0 \<le> i" and "i < 10 ^ 12" and "length n \<le> 43" and "length m = 32"
  shows "length (token_text i n (csrf_encode m)) \<le> 103"
proof -
  have "nat i < 10 ^ 12" using assms(1,2) by (simp add: nat_less_iff)
  then have "length (digits_of (nat i)) \<le> 12" using digits_of_length [of "nat i" 12] by simp
  then show ?thesis
    using assms by (simp add: token_text_def int_text_def token_version_def py_def csrf_encode_length)
qed

section \<open>What is signed\<close>

lemma int_text_free: "46 \<notin> set (int_text i)" "0 \<notin> set (int_text i)"
  by (simp_all add: int_text_def digits_of_free)

lemma int_text_inj: "int_text i = int_text j \<longleftrightarrow> i = j"
proof
  assume eq: "int_text i = int_text j"
  have "x \<noteq> []" if "x = digits_of n" for x n using that by simp
  moreover have "hd (digits_of n) \<noteq> 45" for n
    using digits_of_free(3) [of n] hd_in_set [OF digits_of_not_Nil, of n] by metis
  ultimately show "i = j"
    using eq by (auto simp: int_text_def digits_of_inj split: if_splits)
      (metis list.sel(1))+
qed simp

text \<open>The signed payload determines purpose, time and nonce.\<close>

lemma mac_payload_inj:
  assumes "0 \<notin> set p" and "0 \<notin> set n" and "0 \<notin> set p'" and "0 \<notin> set n'"
  shows "mac_payload p i n = mac_payload p' i' n' \<longleftrightarrow> p = p' \<and> i = i' \<and> n = n'"
proof -
  have split: "split_on 0 (mac_payload p i n) = [token_version, p, int_text i, n]"
    if "0 \<notin> set p" "0 \<notin> set n" for p i n
    using that by (simp add: mac_payload_def split_on_append split_on_free token_version_free int_text_free)
  show ?thesis
    using split [OF assms(1,2), of i] split [OF assms(3,4), of i'] int_text_inj by (metis list.inject)
qed

lemma token_mac_ok:
  "is_ascii p \<Longrightarrow> is_ascii n \<Longrightarrow>
   token_mac c key p i n = Inr (hmac_sha256 c key (map of_nat (mac_payload p i n)))"
proof -
  have "is_ascii (digits_of k)" for k
    using digits_of_digits [of k] by (auto simp: list_all_iff is_ascii_def is_digit_def)
  then have "is_ascii (int_text i)" by (simp add: int_text_def is_ascii_def)
  then show "is_ascii p \<Longrightarrow> is_ascii n \<Longrightarrow> ?thesis"
    by (simp add: token_mac_def encode_ascii_def mac_payload_def is_ascii_def token_version_def py_def)
qed

end
