(* ===== verification/CsrfProperties.thy ===== *)
theory CsrfProperties
  imports Csrf
begin

text \<open>
  What a form token is worth: a token that was issued is accepted exactly in its time window,
  an accepted token carries the MAC of its own purpose, time and nonce under the session's
  key, and a token of one session or of the login form is of no use to another.
\<close>

section \<open>Verification spelled out\<close>

definition in_window :: "int \<Rightarrow> int \<Rightarrow> bool" where
  "in_window ttl age = (- max_future_skew_seconds \<le> age \<and> age \<le> ttl)"

definition signed_payload :: "str \<Rightarrow> int \<Rightarrow> str \<Rightarrow> bytes" where
  "signed_payload purpose issued_at nonce = map of_nat (mac_payload purpose issued_at nonce)"

lemma token_mac_signed:
  "is_ascii p \<Longrightarrow> list_all token_char n \<Longrightarrow>
   token_mac c key p i n = Inr (hmac_sha256 c key (signed_payload p i n))"
  by (simp add: token_mac_ok token_chars_ascii signed_payload_def)

lemma purposes_ascii: "is_ascii (py ''session'')" "is_ascii (py ''login'')"
  by (simp_all add: is_ascii_def py_def)


lemma verify_token_issued:
  assumes n: "token_nonce n" "length n \<le> 43" and m: "length m = 32"
    and i: "0 \<le> i" "i < 10 ^ 12" and cfg: "field_ranges cfg" and p: "is_ascii p"
    and tok: "tok = token_text i n (csrf_encode m)"
  shows "verify_token c cfg now (Some tok) key p ttl None =
     (let age = timestamp now - i in
      if age < - max_future_skew_seconds then Inl (CSRFError CsrfIssuedInFuture)
      else if age > ttl then Inl (CSRFError CsrfExpired)
      else if m = hmac_sha256 c key (signed_payload p i n) then Inr ()
      else Inl (CSRFError CsrfSignatureMismatch))"
proof -
  have "length tok \<le> 103" using token_text_length i n(2) m by (simp add: tok)
  then have len: "\<not> int (length tok) > csrf_token_max_length cfg"
    using cfg by (simp add: field_ranges_def)
  have ne: "tok \<noteq> []" by (simp add: tok token_text_def)
  have "match_token tok = Some (nat i, n, csrf_encode m)"
    unfolding tok using i n m by (intro match_token_text)
  then show ?thesis
    using len ne m i n(1)
    by (simp add: verify_token_def csrf_decode_encode token_mac_bytes_def Let_def
        token_mac_signed [OF p] token_nonce_def)
qed

lemma issue_token_text:
  assumes "is_ascii p" and "list_all token_char random" and "nonce = None \<or> nonce = Some random"
  shows "issue_token c random now key p nonce =
     Inr (token_text (timestamp now) random
       (csrf_encode (hmac_sha256 c key (signed_payload p (timestamp now) random))))"
  using assms by (auto simp: issue_token_def token_mac_signed Let_def)

lemma timestamp_range:
  assumes "0 \<le> t" and "t < 10 ^ 18"
  shows "0 \<le> timestamp t \<and> timestamp t < 10 ^ 12"
proof -
  have "t div 1000000 \<le> (10 ^ 18 - 1) div 1000000" using assms(2) by (intro zdiv_mono1) simp_all
  then show ?thesis using assms(1) by (simp add: timestamp_def pos_imp_zdiv_nonneg_iff)
qed

section \<open>Session tokens\<close>

text \<open>What the documentation of the primitives promises: HMAC-SHA256 digests have 32 bytes,
  \<open>token_urlsafe(32)\<close> has 43 characters of the URL-safe alphabet.\<close>

definition mac_documented :: "crypto \<Rightarrow> bool" where
  "mac_documented c \<longleftrightarrow> (\<forall>k p. length (hmac_sha256 c k p) = 32)"

definition random_documented :: "str \<Rightarrow> bool" where
  "random_documented r = (list_all token_char r \<and> length r = 43)"

definition demo_crypto :: crypto where
  "demo_crypto = \<lparr>sha256_digest = (\<lambda>b. replicate 32 (of_nat (length b))),
     hmac_sha256 = (\<lambda>k p. replicate 32 (of_nat (length k + length p))),
     token_urlsafe = (\<lambda>n. replicate 43 (97 + n mod 26)),
     argon_hash = (\<lambda>n p. Inr (36 # p)), argon_verify = (\<lambda>h p. ArgonReturns (h = 36 # p)),
     argon_needs_rehash = (\<lambda>h. Some False), dummy_hash = [36]\<rparr>"

definition demo_settings :: settings where
  "demo_settings = \<lparr>app_secret_key = Some (replicate 32 65), csrf_secret = Some (replicate 32 66),
     csrf_token_ttl_seconds = 7200, csrf_token_max_length = 512, login_csrf_ttl_seconds = 600,
     session_idle_timeout_seconds = 1800, session_absolute_timeout_seconds = 43200,
     session_touch_interval_seconds = 60, login_max_failed_attempts = 5,
     login_lockout_seconds = 900, password_min_length = 12, password_max_length = 1024\<rparr>"

definition demo_session_hash :: str where
  "demo_session_hash = replicate 64 97"

lemma demo_documented: "mac_documented demo_crypto" "field_ranges demo_settings"
  "random_documented (replicate 43 97)"
  by (simp_all add: mac_documented_def demo_crypto_def field_ranges_def demo_settings_def
      random_documented_def token_char_def is_lower_def list_all_iff)

lemma random_documentedD:
  "random_documented r \<Longrightarrow> token_nonce r \<and> list_all token_char r \<and> length r \<le> 43"
  by (simp add: random_documented_def token_nonce_def)

text \<open>
  C33: A session's form token is accepted under that session from 60 seconds before to the
  configured lifetime after it was issued, and refused with the right reason outside.
\<close>

theorem csrf_session_roundtrip:
  assumes "issue_session_token c random now h = Inr tok"
    and "mac_documented c" and "random_documented random" and "field_ranges cfg"
    and "0 \<le> now" and "now < 10 ^ 18"
  shows "verify_session_token c cfg later h (Some tok) =
     (if timestamp later - timestamp now < - 60 then Inl (CSRFError CsrfIssuedInFuture)
      else if timestamp later - timestamp now > csrf_token_ttl_seconds cfg
      then Inl (CSRFError CsrfExpired)
      else Inr ())"
proof -
  obtain key where key: "session_key h = Inr key"
    and tok: "issue_token c random now key (py ''session'') None = Inr tok"
    using assms(1) by (auto simp: issue_session_token_def rbind_eq_Inr)
  have r: "token_nonce random" "list_all token_char random" "length random \<le> 43"
    using random_documentedD [OF assms(3)] by simp_all
  let ?m = "hmac_sha256 c key (signed_payload (py ''session'') (timestamp now) random)"
  have "tok = token_text (timestamp now) random (csrf_encode ?m)"
    using tok issue_token_text [OF purposes_ascii(1) r(2), of None c now key] by simp
  moreover have "length ?m = 32" using assms(2) by (simp add: mac_documented_def)
  ultimately show ?thesis
    using verify_token_issued [OF r(1,3) _ _ _ assms(4) purposes_ascii(1)]
      timestamp_range [OF assms(5,6)]
    by (simp add: verify_session_token_def key max_future_skew_seconds_def Let_def)
qed

lemma csrf_session_roundtrip_witness:
  "verify_session_token demo_crypto demo_settings 7201000000 demo_session_hash
     (Some (token_text 1 (replicate 43 97)
        (csrf_encode (replicate 32 (of_nat (32 + length (mac_payload (py ''session'') 1 (replicate 43 97))))))))
   = Inr ()"
proof -
  have key: "session_key demo_session_hash = Inr (replicate 32 170)"
    by code_simp
  have "issue_session_token demo_crypto (replicate 43 97) 1000000 demo_session_hash
      = Inr (token_text 1 (replicate 43 97)
        (csrf_encode (replicate 32 (of_nat (32 + length (mac_payload (py ''session'') 1 (replicate 43 97)))))))"
    using issue_token_text [OF purposes_ascii(1), of "replicate 43 97" None demo_crypto 1000000]
    by (simp add: issue_session_token_def key timestamp_def signed_payload_def demo_crypto_def
        token_char_def is_lower_def list_all_iff)
  from csrf_session_roundtrip [OF this demo_documented(1,3,2)] show ?thesis
    by (simp add: timestamp_def demo_settings_def)
qed


text \<open>
  C38: Tokens are not transferable. A login form's token that a session accepts would show two
  different payloads with the same MAC; a token of one session that another session accepts
  would show the same payload with the same MAC under the two sessions' keys.
\<close>

theorem csrf_not_transferable:
  assumes "issue_login_context c cfg random now = Inr ctx"
    and "issue_session_token c random now h = Inr tok"
    and "mac_documented c" and "random_documented random" and "field_ranges cfg"
    and "0 \<le> now" and "now < 10 ^ 18"
  shows "(verify_session_token c cfg later h' (Some (lcc_token ctx)) = Inr () \<longrightarrow>
      (\<exists>g key. global_key cfg = Inr g \<and> session_key h' = Inr key
         \<and> mac_payload (py ''login'') (timestamp now) random \<noteq> mac_payload (py ''session'') (timestamp now) random
         \<and> hmac_sha256 c g (signed_payload (py ''login'') (timestamp now) random)
           = hmac_sha256 c key (signed_payload (py ''session'') (timestamp now) random)))
    \<and> (verify_session_token c cfg later h' (Some tok) = Inr () \<longrightarrow>
      (\<exists>key key'. session_key h = Inr key \<and> session_key h' = Inr key'
         \<and> hmac_sha256 c key (signed_payload (py ''session'') (timestamp now) random)
           = hmac_sha256 c key' (signed_payload (py ''session'') (timestamp now) random)))"
proof -
  obtain g where g: "global_key cfg = Inr g"
    and ctx: "issue_token c random now g (py ''login'') (Some random) = Inr (lcc_token ctx)"
    using assms(1) by (auto simp: issue_login_context_def rbind_eq_Inr)
  obtain key where key: "session_key h = Inr key"
    and tok: "issue_token c random now key (py ''session'') None = Inr tok"
    using assms(2) by (auto simp: issue_session_token_def rbind_eq_Inr)
  have r: "token_nonce random" "list_all token_char random" "length random \<le> 43"
    using random_documentedD [OF assms(4)] by simp_all
  have m: "length (hmac_sha256 c k p) = 32" for k p using assms(3) by (simp add: mac_documented_def)
  have "0 \<notin> set (py ''login'')" "0 \<notin> set (py ''session'')" "py ''login'' \<noteq> py ''session''"
    by (simp_all add: py_def)
  then have differ: "mac_payload (py ''login'') (timestamp now) random
      \<noteq> mac_payload (py ''session'') (timestamp now) random"
    using mac_payload_inj token_chars_free [OF r(2)] by blast
  have texts: "lcc_token ctx = token_text (timestamp now) random
        (csrf_encode (hmac_sha256 c g (signed_payload (py ''login'') (timestamp now) random)))"
    "tok = token_text (timestamp now) random
        (csrf_encode (hmac_sha256 c key (signed_payload (py ''session'') (timestamp now) random)))"
    using ctx tok issue_token_text [OF purposes_ascii(2) r(2), of "Some random" c now g]
      issue_token_text [OF purposes_ascii(1) r(2), of None c now key] by simp_all
  note verify = verify_token_issued [OF r(1,3) m _ _ assms(5) purposes_ascii(1)]
  show ?thesis
    using timestamp_range [OF assms(6,7)] differ g key
    by (auto simp: verify_session_token_def rbind_eq_Inr verify [OF _ _ texts(1)]
        verify [OF _ _ texts(2)] Let_def split: if_splits)
qed

definition demo_nonce :: str where
  "demo_nonce = replicate 43 97"

definition demo_login_token :: str where
  "demo_login_token = token_text 1 demo_nonce
     (csrf_encode (replicate 32 (of_nat (32 + length (mac_payload (py ''login'') 1 demo_nonce)))))"

definition demo_session_token :: str where
  "demo_session_token = token_text 1 demo_nonce
     (csrf_encode (replicate 32 (of_nat (32 + length (mac_payload (py ''session'') 1 demo_nonce)))))"

lemma demo_keys: "session_key demo_session_hash = Inr (replicate 32 170)"
  "global_key demo_settings = Inr (replicate 32 66)"
  by code_simp+

lemma demo_limits: "csrf_token_max_length demo_settings = 512"
  "login_csrf_ttl_seconds demo_settings = 600"
  by (simp_all add: demo_settings_def)

lemma demo_nonce_ok: "random_documented demo_nonce" "list_all token_char demo_nonce"
  by (simp_all add: demo_nonce_def random_documented_def token_char_def is_lower_def list_all_iff)

lemma demo_issued:
  "issue_login_context demo_crypto demo_settings demo_nonce 1000000 =
     Inr \<lparr>lcc_cookie_value = demo_nonce, lcc_token = demo_login_token, lcc_max_age = 600\<rparr>"
  "issue_session_token demo_crypto demo_nonce 1000000 demo_session_hash = Inr demo_session_token"
  using issue_token_text [OF purposes_ascii(2) demo_nonce_ok(2), of "Some demo_nonce" demo_crypto 1000000]
    issue_token_text [OF purposes_ascii(1) demo_nonce_ok(2), of None demo_crypto 1000000]
  by (simp_all add: issue_login_context_def issue_session_token_def demo_keys timestamp_def
      signed_payload_def demo_login_token_def demo_session_token_def)
    (simp_all add: demo_crypto_def demo_settings_def)

lemma csrf_not_transferable_witness:
  "verify_session_token demo_crypto demo_settings 2000000 demo_session_hash (Some demo_login_token)
     \<noteq> Inr ()"
proof -
  have "hmac_sha256 demo_crypto (replicate 32 66) (signed_payload (py ''login'') 1 demo_nonce)
      \<noteq> hmac_sha256 demo_crypto (replicate 32 170) (signed_payload (py ''session'') 1 demo_nonce)"
    by (simp add: demo_crypto_def signed_payload_def demo_nonce_def mac_payload_def token_version_def
        py_def int_text_def digits_of.simps)
  then show ?thesis
    using csrf_not_transferable [OF demo_issued demo_documented(1) demo_nonce_ok(1)
        demo_documented(2), where later = 2000000 and h' = demo_session_hash]
    by (auto simp: demo_keys timestamp_def)
qed

text \<open>
  C39: A login form posted with a nonce cookie that is not ASCII does not end in a
  \<open>CSRFError\<close>: comparing the cookie with the nonce of any fresh well-formed token, signed or
  not, raises \<open>TypeError\<close>, which no handler of the application expects.
\<close>

theorem login_cookie_type_error:
  assumes "match_token tok = Some (i, n, m)" and "csrf_decode m = Some d" and "length d = 32"
    and "int (length tok) \<le> csrf_token_max_length cfg"
    and "in_window (login_csrf_ttl_seconds cfg) (timestamp now - int i)"
    and "global_key cfg = Inr key" and "\<not> is_ascii cookie"
  shows "verify_login_token c cfg now (Some cookie) (Some tok) = Inl TypeError"
proof -
  have "tok \<noteq> []" using assms(1) by (auto simp: match_token_def)
  moreover have "cookie \<noteq> []" using assms(7) by (auto simp: is_ascii_def)
  ultimately show ?thesis
    using assms by (simp add: verify_login_token_def verify_token_def in_window_def token_mac_bytes_def
        Let_def compare_digest_def)
qed

lemma login_cookie_type_error_witness:
  "verify_login_token demo_crypto demo_settings 1000000 (Some [233]) (Some (token_text 1 demo_nonce
     (csrf_encode (replicate 32 0)))) = Inl TypeError"
proof -
  have "match_token (token_text 1 demo_nonce (csrf_encode (replicate 32 0)))
      = Some (nat 1, demo_nonce, csrf_encode (replicate 32 0))"
    using random_documentedD [OF demo_nonce_ok(1)] by (intro match_token_text) simp_all
  moreover have "length (token_text 1 demo_nonce (csrf_encode (replicate 32 0))) \<le> 103"
    using random_documentedD [OF demo_nonce_ok(1)] by (intro token_text_length) simp_all
  ultimately show ?thesis
    by (intro login_cookie_type_error [where d = "replicate 32 0" and key = "replicate 32 66"])
      (auto simp: csrf_decode_encode demo_keys in_window_def timestamp_def is_ascii_def
        demo_limits max_future_skew_seconds_def)
qed

end
