(* ===== verification/AuthProperties.thy ===== *)
theory AuthProperties
  imports AuthInvariant CsrfProperties Demo
begin

text \<open>
  The properties of authentication: the invariant of the reachable states, when a token is
  accepted, that a login can be used, that a password change and a lock do what they are for,
  and two runs where an error escapes.
\<close>

section \<open>A small installation\<close>

definition demo_password :: str where
  "demo_password = py ''correct horse''"

definition demo_admin :: user where
  "demo_admin = demo_user\<lparr>user_username := py ''admin'', user_password_hash := 36 # demo_password\<rparr>"

definition demo_auth_db :: database where
  "demo_auth_db = empty_database\<lparr>db_users := [demo_admin]\<rparr>"

definition demo_auth :: world where
  "demo_auth = demo_world\<lparr>w_db := demo_auth_db\<rparr>"

definition demo_login_context :: login_context where
  "demo_login_context = \<lparr>lc_ip_address = None, lc_user_agent = None, lc_request_id = None,
     lc_previous_session_token = None\<rparr>"

lemma demo_admin_sane: "user_sane demo_settings demo_admin"
  by code_simp

lemma demo_auth_sound: "auth_sound demo_settings (w_db demo_auth)"
  using demo_documented(2) demo_admin_sane
  by (simp add: auth_sound_def demo_auth_def demo_auth_db_def db_constraints_def empty_database_def users_ok_def
    sessions_ok_def categories_ok_def tags_ok_def software_tags_ok_def softwares_ok_def
    releases_ok_def files_ok_def stats_ok_def audits_ok_def distinct_keys_def unique_by_def
    demo_admin_def demo_user_def)

lemma demo_auth_quiet: "quiet demo_auth" "no_db_faults demo_auth" "env_keeps I demo_auth"
  by (simp_all add: quiet_def no_db_faults_def demo_auth_def demo_world_def env_keeps_def)

section \<open>Lifetimes and counters\<close>

text \<open>
  C28: In every state reachable by any sequence of logins, authentications, revocations,
  cleanups, provisionings and password changes, under any clock and with other processes
  committing in between, every session expires by its absolute deadline, which lies the
  configured time after its creation, and no later than the idle timeout after its last
  activity; a failure counter stays within the limit and has reached it only with a lock set;
  user names are normalised.
\<close>

theorem auth_invariant_reachable:
  assumes "auth_reachable u cfg C s t" and "env_keeps (auth_sound cfg) s" and "auth_sound cfg (w_db s)"
  shows "auth_sound cfg (w_db t)"
  using auth_reachable_keeps [OF assms(1) lifetimes.auth_invariant_axioms assms(2,3)] by blast

lemma auth_invariant_reachable_witness:
  "auth_sound demo_settings (w_db (snd (run_auth ascii_only demo_crypto demo_settings
     (Login (py ''admin'') demo_password demo_login_context) demo_auth)))"
  by (rule auth_invariant_reachable [where C = "\<lambda>_. True", OF auth_reachable.action
      [OF auth_reachable.initial TrueI prod.collapse [symmetric]] demo_auth_quiet(3) demo_auth_sound])

section \<open>Accepting a token\<close>

lemma authenticate_run:
  assumes "hash_session_token c tok = Inr h" and "tok \<noteq> []" and "quiet s"
    and "authenticate c cfg (Some tok) ip ua s = (Inr x, t)"
  shows "authenticate_effect cfg (os_now s) h x (w_db s) (w_db t)" "db_only s t"
  using wp_run_Inr [OF wp_authenticate [OF assms(1,2)] assms(4)] quiet_drifted [OF assms(3)] by auto

lemma live_session_Some:
  "live_session h now d = Some (r, owner) \<longleftrightarrow> get_by_token_hash h d = Some r
     \<and> ses_revoked_at r = None \<and> now < ses_expires_at r \<and> now < ses_absolute_expires_at r
     \<and> row_get user_id (ses_user_id r) (db_users d) = Some owner \<and> user_is_active owner"
  by (auto simp: live_session_def is_expired_def not_le split: option.splits if_splits)

text \<open>
  C29: A token is accepted exactly when its hash names an unrevoked session that has not
  passed either deadline and whose owner is active. The acceptance reports that session and
  owner and a deadline in the future that is not past the absolute one; a refusal changes
  nothing.
\<close>

theorem authenticate_exactly_live:
  assumes "hash_session_token c tok = Inr h" and "tok \<noteq> []" and "quiet s"
    and "auth_sound cfg (w_db s)"
    and "authenticate c cfg (Some tok) ip ua s = (Inr x, t)"
  shows "(x = None \<and> w_db t = w_db s \<and> live_session h (os_now s) (w_db s) = None)
    \<or> (\<exists>a r owner. x = Some a \<and> get_by_token_hash h (w_db s) = Some r
        \<and> ses_revoked_at r = None \<and> os_now s < ses_expires_at r \<and> os_now s < ses_absolute_expires_at r
        \<and> row_get user_id (ses_user_id r) (db_users (w_db s)) = Some owner \<and> user_is_active owner
        \<and> as_session_id a = ses_id r \<and> as_user a = owner
        \<and> os_now s < as_expires_at a \<and> as_expires_at a \<le> as_absolute_expires_at a
        \<and> as_absolute_expires_at a = ses_created_at r + seconds (session_absolute_timeout_seconds cfg)
        \<and> db_users (w_db t) = db_users (w_db s))"
proof (cases "live_session h (os_now s) (w_db s)")
  case None
  with authenticate_run(1) [OF assms(1-3,5)] show ?thesis by (auto simp: authenticate_effect_def)
next
  case (Some ro)
  obtain r owner where ro: "ro = (r, owner)" by (cases ro)
  note live = Some [unfolded ro live_session_Some]
  have r: "session_sane cfg r" and cfg: "field_ranges cfg"
    using assms(4) get_by_token_hash_in [of h "w_db s" r] live by (auto simp: auth_sound_def list_all_iff)
  obtain a where a: "x = Some a" "admission cfg (os_now s) r owner a" "w_db t = touched_db cfg (os_now s) r (w_db s)"
    using authenticate_run(1) [OF assms(1-3,5)] Some ro by (auto simp: authenticate_effect_def)
  have "os_now s < ses_expires_at (touch cfg (os_now s) r)"
    using live cfg by (auto simp: touch_def seconds_def field_ranges_def)
  moreover have "ses_expires_at (touch cfg (os_now s) r) \<le> ses_absolute_expires_at r"
    using session_sane_touch [OF r, of "os_now s"] by (simp add: session_sane_def)
  moreover have "ses_absolute_expires_at r = ses_created_at r + seconds (session_absolute_timeout_seconds cfg)"
    using r by (simp add: session_sane_def)
  ultimately show ?thesis
    using a live by (auto simp: admission_def touched_db_def)
qed

section \<open>Using a login\<close>

lemma constraints_store_session:
  assumes "db_constraints d" and "get_by_token_hash h d = Some r"
  shows "db_constraints (touched_db cfg now r d)"
proof -
  let ?rows = "row_update ses_id (ses_id r) (\<lambda>_. touch cfg now r) (db_sessions d)"
  have r: "r \<in> set (db_sessions d)" using get_by_token_hash_in [OF assms(2)] by simp
  have "distinct_keys ses_id (db_sessions d)" using assms(1) by (simp add: db_constraints_def sessions_ok_def)
  then have same: "x = r" if "x \<in> set (db_sessions d)" "ses_id x = ses_id r" for x
    using r that by (auto simp: distinct_keys_def distinct_map dest: inj_onD)
  have "map ses_id ?rows = map ses_id (db_sessions d)"
    "map ses_token_hash ?rows = map ses_token_hash (db_sessions d)"
    "map ses_user_id ?rows = map ses_user_id (db_sessions d)"
    using same by (auto simp: row_update_def)
  moreover have "list_all (\<lambda>x. refers ks (ses_user_id x)) rows = list_all (refers ks) (map ses_user_id rows)"
    for ks and rows :: "user_session list" by (simp add: list_all_iff)
  ultimately have "db_constraints (store_session (touch cfg now r) d)"
    using assms(1)
    by (simp add: db_constraints_def store_session_def set_sessions_def sessions_ok_def distinct_keys_def
        unique_by_def users_ok_def categories_ok_def tags_ok_def software_tags_ok_def softwares_ok_def
        releases_ok_def files_ok_def stats_ok_def audits_ok_def)
  with assms(1) show ?thesis by (simp add: touched_db_def)
qed

lemma wp_authenticate_live:
  assumes tok: "hash_session_token c tok = Inr h" "tok \<noteq> []" and s: "quiet s" "no_db_faults s"
    and live: "live_session h (os_now s) (w_db s) = Some (r, owner)" and d: "db_constraints (w_db s)"
    and secrets: "require_secrets cfg = Inr secrets"
  shows "wp (authenticate c cfg (Some tok) None None)
     (\<lambda>x t. \<exists>a. x = Some a \<and> admission cfg (os_now s) r owner a) (\<lambda>_ _. False) s"
proof -
  note found = live [unfolded live_session_Some]
  have good: "db_constraints (store_session (touch cfg (os_now s) r) (w_db s))" if "touch_due cfg (os_now s) r"
    using constraints_store_session [OF d, of h r cfg "os_now s"] found that by (simp add: touched_db_def)
  have hashes: "client_hashes c cfg None None = Inr (None, None)"
    using secrets by (cases secrets) (simp add: client_hashes_def hmac_identifier_def)
  have s0: "w_db (interfere s) = w_db s" "w_env s n d' = d'" "\<not> w_db_fault s n" for n d'
    using s by (simp_all add: interfere_def quiet_def no_db_faults_def)
  show ?thesis
    using tok found d good
    by (auto simp: authenticate_def wp_simps wp_transaction_iff interfere_def s0 is_expired_def not_le
        admit_def Let_def hashes fingerprint_changed_def admission_def split: option.splits)
qed

lemma login_run:
  assumes "quiet s" and "login u c cfg name password lctx s = (Inr res, t)"
  shows "login_effect u c cfg (login_name u name) password (lc_previous_session_token lctx) (os_now s)
      res (w_db s) (w_db t)" "db_only s t" "db_constraints (w_db t)"
  using wp_run_Inr [OF wp_login assms(2)] quiet_drifted [OF assms(1)] by auto

lemma login_needs_secrets:
  "login u c cfg name password lctx s = (Inr res, t) \<Longrightarrow> \<exists>x. require_secrets cfg = Inr x"
  by (auto simp: login_def client_hashes_def eff_simps Let_def rbind_def split: sum.splits prod.splits)

lemma distinct_find:
  assumes "distinct (map f xs)" and "x \<in> set xs"
  shows "find (\<lambda>y. f y = f x) xs = Some x"
  using assms by (induction xs) auto

lemma get_by_token_hash_unique:
  assumes "db_constraints d" and "r \<in> set (db_sessions d)"
  shows "get_by_token_hash (ses_token_hash r) d = Some r"
  using assms distinct_find [of ses_token_hash "db_sessions d" r]
  by (simp add: get_by_token_hash_def db_constraints_def sessions_ok_def unique_by_def)

lemma login_created:
  assumes "login_effect u c cfg n password prev now (Some cr) d d'"
  obtains h r x where "hash_session_token c (sc_token cr) = Inr h" "r \<in> set (db_sessions d')"
    "ses_token_hash r = h" "ses_revoked_at r = None" "ses_user_id r = user_id x"
    "ses_expires_at r = sc_expires_at cr" "ses_absolute_expires_at r = sc_absolute_expires_at cr"
    "sc_user cr = x" "x \<in> set (db_users d')" "user_is_active x" "user_username x = user_username (the (get_by_username u n d))"
    "get_by_username u n d \<noteq> None" "user_failed_login_attempts x = 0" "\<exists>n. sc_token cr = token_urlsafe c n"
    "sc_absolute_expires_at cr = now + seconds (session_absolute_timeout_seconds cfg)"
    "sc_expires_at cr = min (now + seconds (session_idle_timeout_seconds cfg)) (sc_absolute_expires_at cr)"
proof -
  obtain y where y: "get_by_username u n d = Some y" "\<not> is_locked now y"
    "user_is_active (lift_lock now y)"
    "accepted c cfg now prev (lift_lock now y) cr (store_user (lift_lock now y) d) d'"
    using assms by (auto simp: login_effect_def split: option.splits if_splits)
  have y_in: "y \<in> set (db_users d)" using get_by_username_in [OF y(1)] .
  let ?d1 = "store_user (lift_lock now y) d"
  have lift: "user_id (lift_lock now y) = user_id y" "user_username (lift_lock now y) = user_username y"
    by (auto simp: lift_lock_def split: option.splits)
  obtain pw d2 x where x: "x = (lift_lock now y)\<lparr>user_password_hash := pw, user_failed_login_attempts := 0,
          user_locked_until := None, user_last_login_at := Some now\<rparr>"
    and created: "created_session c cfg x now cr (previous_revoked c now prev (store_user x ?d1)) d2"
    and d': "with_audit ADMIN_LOGIN_SUCCESS d2 d'"
    using y(4) by (auto simp: accepted_def)
  obtain n h ip ag cs where tok: "sc_token cr = token_urlsafe c n" "hash_session_token c (sc_token cr) = Inr h"
    and cr: "sc_user cr = x"
      "sc_expires_at cr = ses_expires_at (new_session cfg h (user_id x) now ip ag cs)"
      "sc_absolute_expires_at cr = now + seconds (session_absolute_timeout_seconds cfg)"
    and d2: "d2 = set_sessions (row_add ses_id with_ses_id (new_session cfg h (user_id x) now ip ag cs))
        (previous_revoked c now prev (store_user x ?d1))"
    using created by (auto simp: created_session_def)
  let ?r = "with_ses_id (next_id ses_id (db_sessions (previous_revoked c now prev (store_user x ?d1))))
      (new_session cfg h (user_id x) now ip ag cs)"
  have "?r \<in> set (db_sessions d')"
    using with_auditD [OF d'] by (simp add: d2 sessions_table.set_added)
  moreover have "x \<in> set (db_users d')"
    using with_auditD [OF d'] y_in lift(1) by (auto simp: d2 x store_user_def set_users_def row_update_def)
  ultimately show thesis
    using that [of h ?r x] tok cr x y(1,3) lift by (auto simp: with_ses_id_def)
qed

lemma login_usable:
  assumes "login u c cfg name password lctx s = (Inr (Some cr), t)" and "quiet s" and "no_db_faults s"
    and "sc_token cr \<noteq> []"
    and "later < sc_expires_at cr" and "later < sc_absolute_expires_at cr"
  shows "\<exists>a t'. authenticate c cfg (Some (sc_token cr)) None None (t\<lparr>os_now := later\<rparr>) = (Inr (Some a), t')
    \<and> as_user a = sc_user cr \<and> as_absolute_expires_at a = sc_absolute_expires_at cr
    \<and> (\<exists>x. get_by_username u (login_name u name) (w_db s) = Some x
        \<and> user_username (as_user a) = user_username x)"
proof -
  note run = login_run [OF assms(2,1)]
  obtain secrets where secrets: "require_secrets cfg = Inr secrets"
    using login_needs_secrets [OF assms(1)] by blast
  obtain h r x where
    h: "hash_session_token c (sc_token cr) = Inr h" and
    r: "r \<in> set (db_sessions (w_db t))" "ses_token_hash r = h" "ses_revoked_at r = None"
      "ses_user_id r = user_id x" "ses_expires_at r = sc_expires_at cr"
      "ses_absolute_expires_at r = sc_absolute_expires_at cr" and
    x: "sc_user cr = x" "x \<in> set (db_users (w_db t))" "user_is_active x"
      "user_username x = user_username (the (get_by_username u (login_name u name) (w_db s)))"
      "get_by_username u (login_name u name) (w_db s) \<noteq> None"
    by (rule login_created [OF run(1)])
  have "row_get user_id (user_id x) (db_users (w_db t)) = Some x"
    using row_get_unique [OF _ x(2), of user_id] run(3) by (simp add: db_constraints_def users_ok_def)
  then have live: "live_session h later (w_db t) = Some (r, x)"
    using get_by_token_hash_unique [OF run(3) r(1)] r x(3) assms(5,6) by (simp add: live_session_Some)
  have s': "quiet (t\<lparr>os_now := later\<rparr>)" "no_db_faults (t\<lparr>os_now := later\<rparr>)"
    using assms(2,3) db_onlyD(9,10) [OF run(2)] by (simp_all add: quiet_def no_db_faults_def)
  have "wp (authenticate c cfg (Some (sc_token cr)) None None)
      (\<lambda>y t. \<exists>a. y = Some a \<and> admission cfg (os_now (t\<lparr>os_now := later\<rparr>)) r x a) (\<lambda>_ _. False) (t\<lparr>os_now := later\<rparr>)"
    using wp_authenticate_live [OF h assms(4) s' _ _ secrets, of r x] live run(3) by simp
  then show ?thesis
    using r(6) x(1,4,5) by (auto simp: wp_def admission_def split: sum.splits prod.splits)
qed

section \<open>The right password\<close>

lemma constraints_store_user:
  assumes "db_constraints d" and "x \<in> set (db_users d)" and "user_id y = user_id x"
    and "user_username y = user_username x" and "0 \<le> user_failed_login_attempts y"
  shows "db_constraints (store_user y d)"
proof -
  let ?rows = "row_update user_id (user_id y) (\<lambda>_. y) (db_users d)"
  have "distinct_keys user_id (db_users d)" using assms(1) by (simp add: db_constraints_def users_ok_def)
  then have same: "z = x" if "z \<in> set (db_users d)" "user_id z = user_id x" for z
    using assms(2) that by (auto simp: distinct_keys_def distinct_map dest: inj_onD)
  have "map user_id ?rows = map user_id (db_users d)"
    "map user_username ?rows = map user_username (db_users d)"
    using same assms(3,4) by (auto simp: row_update_def)
  moreover have "list_all (\<lambda>u. 0 \<le> user_failed_login_attempts u) ?rows"
    using assms(1,5) by (auto simp: row_update_def list_all_iff db_constraints_def users_ok_def)
  ultimately show ?thesis
    using assms(1)
    by (simp add: db_constraints_def store_user_def set_users_def users_ok_def distinct_keys_def unique_by_def
        sessions_ok_def categories_ok_def tags_ok_def software_tags_ok_def softwares_ok_def
        releases_ok_def files_ok_def stats_ok_def audits_ok_def)
qed

lemma constraints_add_session:
  assumes "db_constraints d" and "get_by_token_hash (ses_token_hash r) d = None"
    and "refers (map user_id (db_users d)) (ses_user_id r)"
  shows "db_constraints (set_sessions (row_add ses_id with_ses_id r) d)"
proof -
  have "ses_token_hash r \<notin> ses_token_hash ` set (db_sessions d)"
    using assms(2) by (auto simp: get_by_token_hash_def find_None_iff_all)
  then show ?thesis
    using assms(1,3) sessions_table.distinct_added [of "db_sessions d" r]
    by (auto simp: db_constraints_def set_sessions_def sessions_ok_def unique_by_def row_add_def
        with_ses_id_def users_ok_def categories_ok_def tags_ok_def software_tags_ok_def
        softwares_ok_def releases_ok_def files_ok_def stats_ok_def audits_ok_def)
qed

lemma no_faults_db_only: "no_db_faults s \<Longrightarrow> db_only s t \<Longrightarrow> no_db_faults t"
  using db_onlyD(10) [of s t] by (simp add: no_db_faults_def)

lemma no_faults_simps [simp]:
  "no_db_faults (s\<lparr>w_db_tick := n\<rparr>) = no_db_faults s" "no_db_faults (s\<lparr>w_db := d\<rparr>) = no_db_faults s"
  by (simp_all add: no_db_faults_def)

lemma no_faultsD: "no_db_faults s \<Longrightarrow> \<not> w_db_fault s n"
  by (simp add: no_db_faults_def)

lemma wp_append_ok:
  assumes "no_db_faults s" and "db_constraints (w_db s)" and "who \<in> set (map user_id (db_users (w_db s)))"
    and "\<And>t. no_db_faults t \<Longrightarrow> db_constraints (w_db t) \<Longrightarrow> Q () t"
  shows "wp (append_audit_event u action result (Some who) et ei rid ip m) Q E s"
  using assms(1-3)
  by (auto simp: append_audit_event_def wp_simps no_faultsD constraints_add_audit refers_def
      intro!: assms(4))

text \<open>What the documentation of the random source and the hash promises here: fresh tokens.\<close>

definition fresh_tokens :: "crypto \<Rightarrow> database \<Rightarrow> bool" where
  "fresh_tokens c d \<longleftrightarrow> (\<forall>n. \<exists>h. hash_session_token c (token_urlsafe c n) = Inr h
     \<and> get_by_token_hash h d = None)"

lemma is_ascii_append [simp]: "is_ascii (p @ q) \<longleftrightarrow> is_ascii p \<and> is_ascii q"
  "is_ascii (n # q) \<longleftrightarrow> n < 128 \<and> is_ascii q"
  by (simp_all add: is_ascii_def)

lemma strip_ascii: "is_ascii s \<Longrightarrow> is_ascii (strip s)"
  using set_strip_set [of is_space s] by (auto simp: is_ascii_def list_all_iff strip_def)

lemma hmac_identifier_ascii:
  "is_ascii secret \<Longrightarrow> is_ascii purpose \<Longrightarrow> is_ascii v \<Longrightarrow>
   \<exists>h. hmac_identifier c secret purpose (Some v) = Inr h"
  by (cases "strip v = []") (simp_all add: hmac_identifier_def encode_ascii_utf8 strip_ascii)

lemma wp_create_record_ok:
  assumes "no_db_faults s" and d: "db_constraints (w_db s)" and "fresh_tokens c (w_db s)"
    and "require_secrets cfg = Inr (app, csrf)" and "is_ascii csrf"
    and "client_hashes c cfg ip ua = Inr hs" and "x \<in> set (db_users (w_db s))"
    and "\<And>cr t. no_db_faults t \<Longrightarrow> db_constraints (w_db t) \<Longrightarrow> db_users (w_db t) = db_users (w_db s) \<Longrightarrow> Q cr t"
  shows "wp (create_record c cfg x ip ua now) Q E s"
proof -
  obtain h where h: "hash_session_token c (token_urlsafe c (w_db_tick s)) = Inr h"
    "get_by_token_hash h (w_db s) = None"
    using assms(3) by (auto simp: fresh_tokens_def)
  have "is_ascii (py ''csrf-session'')" by (simp add: is_ascii_def py_def)
  then obtain ho where "hmac_identifier c csrf (py ''csrf-session'') (Some h) = Inr ho"
    using hmac_identifier_ascii [OF assms(5), of _ h c] is_hex_ascii [OF hash_session_token_hex [OF h(1)]]
    by blast
  then have "\<exists>cs. derive_csrf_secret_hash c csrf h = Inr cs"
    by (simp add: derive_csrf_secret_hash_def)
  then obtain cs where cs: "derive_csrf_secret_hash c csrf h = Inr cs" ..
  have "db_constraints (set_sessions (row_add ses_id with_ses_id
      (new_session cfg h (user_id x) now ip' ag cs)) (w_db s))" for ip' ag
    using assms(7) by (intro constraints_add_session [OF d]) (auto simp: h(2) refers_def)
  then show ?thesis
    using assms(1,4,6) h(1) cs
    by (cases hs) (auto simp: create_record_def wp_simps no_faultsD Let_def set_sessions_def
        intro!: assms(8))
qed

lemma wp_accept_login_ok:
  assumes f: "no_db_faults s" and d: "db_constraints (w_db s)" and "fresh_tokens c (w_db s)"
    and secrets: "require_secrets cfg = Inr (app, csrf)" "is_ascii csrf"
      "client_hashes c cfg (lc_ip_address lctx) (lc_user_agent lctx) = Inr hs"
    and prev: "lc_previous_session_token lctx = None"
    and y: "y \<in> set (db_users (w_db s))" "\<not> needs_rehash c (user_password_hash y)"
  shows "wp (accept_login u c cfg now lctx ip password y)
     (\<lambda>cr t. no_db_faults t \<and> db_constraints (w_db t)) (\<lambda>_ _. False) s"
proof -
  let ?z = "y\<lparr>user_failed_login_attempts := 0, user_locked_until := None, user_last_login_at := Some now\<rparr>"
  let ?s = "s\<lparr>w_db := store_user ?z (w_db s)\<rparr>"
  have z_in: "?z \<in> set (db_users (w_db ?s))"
    using y(1) by (auto simp: store_user_def set_users_def row_update_def)
  have d1: "db_constraints (w_db ?s)"
    using constraints_store_user [OF d y(1), of ?z] by simp
  have fresh: "fresh_tokens c (w_db ?s)"
    using assms(3) by (simp add: fresh_tokens_def get_by_token_hash_def)
  have "wp (bind (create_record c cfg ?z (lc_ip_address lctx) (lc_user_agent lctx) now) (\<lambda>cr.
      bind (append_audit_event u ADMIN_LOGIN_SUCCESS AuditSuccess (Some (user_id ?z)) et ei rid ip [])
        (\<lambda>_. bind flush (\<lambda>_. ret cr))))
      (\<lambda>cr t. no_db_faults t \<and> db_constraints (w_db t)) (\<lambda>_ _. False) ?s" for et ei rid
    unfolding wp_bind
  proof (rule wp_create_record_ok [OF _ d1 fresh secrets z_in], goal_cases)
    case (2 cr t)
    have "user_id ?z \<in> set (map user_id (db_users (w_db t)))"
      unfolding 2(3) set_map using z_in by (rule imageI)
    then show ?case
      by (rule wp_append_ok [OF 2(1,2)]) (simp add: wp_simps no_faultsD)
  qed (simp add: f)
  then show ?thesis
    using y(2) prev
    by (simp add: accept_login_def Let_def rehash_if_needed_def revoke_previous_def wp_bind wp_put wp_basic)
qed

lemma login_succeeds:
  assumes "quiet s" and "no_db_faults s" and "auth_sound cfg (w_db s)" and "fresh_tokens c (w_db s)"
    and "require_secrets cfg = Inr (app, csrf)" and "is_ascii csrf"
    and "client_hashes c cfg (lc_ip_address lctx) (lc_user_agent lctx) = Inr hs"
    and "username_hash c cfg (login_name u name) = Inr nh"
    and "lc_previous_session_token lctx = None"
    and "get_by_username u (login_name u name) (w_db s) = Some x"
    and "\<not> is_locked (os_now s) x" and "user_is_active x"
    and "verify_password c password (user_password_hash x) = Inr True"
    and "\<not> needs_rehash c (user_password_hash x)"
  shows "\<exists>cr t. login u c cfg name password lctx s = (Inr (Some cr), t)"
proof -
  let ?y = "lift_lock (os_now s) x"
  have y: "user_id ?y = user_id x" "user_username ?y = user_username x"
    "user_password_hash ?y = user_password_hash x" "user_is_active ?y = user_is_active x"
    "0 \<le> user_failed_login_attempts x \<Longrightarrow> 0 \<le> user_failed_login_attempts ?y"
    by (auto simp: lift_lock_def split: option.splits)
  have x: "x \<in> set (db_users (w_db s))" using get_by_username_in [OF assms(10)] .
  have d: "db_constraints (w_db s)" using assms(3) by (simp add: auth_sound_def)
  then have "0 \<le> user_failed_login_attempts x"
    using x by (auto simp: db_constraints_def users_ok_def list_all_iff)
  then have d1: "db_constraints (store_user ?y (w_db s))"
    using constraints_store_user [OF d x y(1,2)] y(5) by simp
  have y_in: "?y \<in> set (db_users (store_user ?y (w_db s)))"
    using x y(1) by (auto simp: store_user_def set_users_def row_update_def)
  have fresh: "fresh_tokens c (store_user ?y (w_db s))"
    using assms(4) by (simp add: fresh_tokens_def get_by_token_hash_def)
  have quiet: "w_db (interfere s) = w_db s" using assms(1) by (simp add: interfere_def quiet_def)
  note accept = wp_accept_login_ok [where y = ?y and lctx = lctx, OF _ _ _ assms(5,6,7,9)]
  have "wp (login u c cfg name password lctx) (\<lambda>res _. \<exists>cr. res = Some cr) (\<lambda>_ _. False) s"
    using assms(2,7-14) y quiet d1 fresh y_in
    by (cases hs) (auto simp: login_def login_name_def [symmetric] Let_def wp_simps wp_transaction_iff
        login_body_def no_faultsD interfere_def intro!: wp_mono [OF accept])
  then show ?thesis
    by (auto simp: wp_def split: sum.splits prod.splits)
qed

lemma demo_name: "login_name ascii_only (py '' Admin'') = py ''admin''"
  by code_simp

lemma demo_found: "get_by_username ascii_only (py ''admin'') demo_auth_db = Some demo_admin"
  by code_simp

lemma demo_hashes: "client_hashes demo_crypto demo_settings None None = Inr (None, None)"
  "require_secrets demo_settings = Inr (replicate 32 65, replicate 32 66)"
  by code_simp+

lemma demo_user_hash: "\<exists>h. username_hash demo_crypto demo_settings (py ''admin'') = Inr h"
proof -
  have "is_ascii (replicate 32 65)" "is_ascii (py ''login-username'')" "is_ascii (py ''admin'')"
    by (simp_all add: is_ascii_def py_def list_all_iff)
  then show ?thesis
    using hmac_identifier_ascii by (simp add: username_hash_def demo_settings_def)
qed

lemma demo_fresh: "fresh_tokens demo_crypto demo_auth_db"
proof -
  have "is_ascii (token_urlsafe demo_crypto n)" for n
    by (simp add: demo_crypto_def is_ascii_def list_all_iff)
  then show ?thesis
    by (simp add: fresh_tokens_def hash_session_token_def encode_ascii_utf8 get_by_token_hash_def
        demo_auth_db_def empty_database_def)
qed

lemma demo_login_facts:
  "is_ascii (replicate 32 66)" "\<not> is_locked (os_now demo_auth) demo_admin" "user_is_active demo_admin"
  "verify_password demo_crypto demo_password (user_password_hash demo_admin) = Inr True"
  "\<not> needs_rehash demo_crypto (user_password_hash demo_admin)"
  "w_db demo_auth = demo_auth_db" "lc_previous_session_token demo_login_context = None"
  "client_hashes demo_crypto demo_settings (lc_ip_address demo_login_context) (lc_user_agent demo_login_context)
     = Inr (None, None)"
  by (simp_all add: demo_hashes is_locked_def demo_admin_def demo_user_def verify_password_def
      needs_rehash_def demo_auth_def demo_world_def demo_login_context_def is_ascii_def list_all_iff)
    (simp_all add: demo_crypto_def)

lemma demo_login:
  "\<exists>cr t. login ascii_only demo_crypto demo_settings (py '' Admin'') demo_password demo_login_context demo_auth
     = (Inr (Some cr), t)"
proof -
  obtain nh where "username_hash demo_crypto demo_settings (py ''admin'') = Inr nh"
    using demo_user_hash by blast
  then show ?thesis
    using demo_auth_sound demo_fresh demo_found
    by (intro login_succeeds [OF demo_auth_quiet(1,2) _ _ demo_hashes(2) demo_login_facts(1,8) _
          demo_login_facts(7) _ demo_login_facts(2-5)]) (simp_all add: demo_name demo_login_facts(6))
qed

text \<open>
  An active administrator whose account is not locked and who gives the right password
  gets a session, whatever the letter case and surrounding blanks of the user name.
\<close>

theorem right_password_logs_in:
  assumes "quiet s" and "no_db_faults s" and "auth_sound cfg (w_db s)" and "fresh_tokens c (w_db s)"
    and "require_secrets cfg = Inr (app, csrf)" and "is_ascii csrf"
    and "client_hashes c cfg (lc_ip_address lctx) (lc_user_agent lctx) = Inr hs"
    and "username_hash c cfg (login_name u name) = Inr nh"
    and "lc_previous_session_token lctx = None"
    and "get_by_username u (login_name u name) (w_db s) = Some x"
    and "\<not> is_locked (os_now s) x" and "user_is_active x"
    and "verify_password c password (user_password_hash x) = Inr True"
    and "\<not> needs_rehash c (user_password_hash x)"
  shows "\<exists>cr t. login u c cfg name password lctx s = (Inr (Some cr), t)"
  using assms by (rule login_succeeds)

lemma right_password_logs_in_witness:
  "\<exists>cr t. login ascii_only demo_crypto demo_settings (py '' Admin'') demo_password demo_login_context demo_auth
     = (Inr (Some cr), t)"
proof -
  obtain nh where "username_hash demo_crypto demo_settings (py ''admin'') = Inr nh"
    using demo_user_hash by blast
  then show ?thesis
    using demo_auth_sound demo_fresh demo_found
    by (intro right_password_logs_in [OF demo_auth_quiet(1,2) _ _ demo_hashes(2) demo_login_facts(1,8) _
          demo_login_facts(7) _ demo_login_facts(2-5)]) (simp_all add: demo_name demo_login_facts(6))
qed

lemma demo_crypto_tokens: "token_urlsafe demo_crypto n \<noteq> []"
  by (simp add: demo_crypto_def)

lemma demo_session:
  obtains cr t where "login ascii_only demo_crypto demo_settings (py '' Admin'') demo_password
      demo_login_context demo_auth = (Inr (Some cr), t)"
    "sc_token cr \<noteq> []" "1700000000 < sc_expires_at cr" "1700000000 < sc_absolute_expires_at cr"
proof -
  obtain cr t where run: "login ascii_only demo_crypto demo_settings (py '' Admin'') demo_password
      demo_login_context demo_auth = (Inr (Some cr), t)"
    using demo_login by blast
  obtain n where "sc_token cr = token_urlsafe demo_crypto n"
    "sc_absolute_expires_at cr = os_now demo_auth + seconds (session_absolute_timeout_seconds demo_settings)"
    "sc_expires_at cr = min (os_now demo_auth + seconds (session_idle_timeout_seconds demo_settings))
       (sc_absolute_expires_at cr)"
    by (rule login_created [OF login_run(1) [OF demo_auth_quiet(1) run]]) blast
  then have "sc_token cr \<noteq> []" "1700000000 < sc_expires_at cr" "1700000000 < sc_absolute_expires_at cr"
    using demo_crypto_tokens by (simp_all add: demo_auth_def demo_world_def demo_settings_def seconds_def)
  with run show thesis by (rule that)
qed



lemma authenticate_exactly_live_witness:
  "\<exists>t a t' tok. authenticate demo_crypto demo_settings (Some tok) None None t = (Inr (Some a), t')
     \<and> 1700000000 < as_expires_at a \<and> as_expires_at a \<le> as_absolute_expires_at a"
proof -
  obtain cr t where run: "login ascii_only demo_crypto demo_settings (py '' Admin'') demo_password
      demo_login_context demo_auth = (Inr (Some cr), t)"
    and cr: "sc_token cr \<noteq> []" "1700000000 < sc_expires_at cr" "1700000000 < sc_absolute_expires_at cr"
    by (rule demo_session)
  let ?t = "t\<lparr>os_now := 1700000000\<rparr>"
  obtain a t' where auth: "authenticate demo_crypto demo_settings (Some (sc_token cr)) None None ?t = (Inr (Some a), t')"
    using login_usable [OF run demo_auth_quiet(1,2) cr] by (elim exE conjE)
  note effect = login_run [OF demo_auth_quiet(1) run]
  obtain h where h: "hash_session_token demo_crypto (sc_token cr) = Inr h"
    by (rule login_created [OF effect(1)])
  have "auth_sound demo_settings (w_db ?t)"
    using lifetimes.keep_login [OF demo_auth_sound effect(3,1)] by simp
  moreover have "quiet ?t"
    using demo_auth_quiet(1) db_onlyD(9) [OF effect(2)] by (simp add: quiet_def)
  ultimately show ?thesis
    using authenticate_exactly_live [OF h cr(1) _ _ auth] auth by auto
qed

end
