(* ===== verification/AccountProperties.thy ===== *)
theory AccountProperties
  imports AuthProperties
begin

text \<open>
  The properties of accounts: locking after repeated failures, what a password change does to
  the sessions there are, provisioning, and a login that fails on the password policy.
\<close>

section \<open>Finding a user again\<close>


section \<open>Lockout\<close>

text \<open>A service call that let its caller in.\<close>

definition let_in :: "exn + 'a option \<Rightarrow> bool" where
  "let_in r = (case r of Inr (Some _) \<Rightarrow> True | _ \<Rightarrow> False)"

lemma let_in_simps [simp]: "let_in (Inr (Some x))" "\<not> let_in (Inr None)" "\<not> let_in (Inl e)"
  by (simp_all add: let_in_def)

text \<open>
  While an account is locked no login to it succeeds, with whatever password, also the
  right one, and whatever fails on the way; users and sessions are left as they are.
\<close>

theorem locked_account_refuses:
  assumes "quiet s" and "get_by_username u (login_name u name) (w_db s) = Some x"
    and "is_locked (os_now s) x"
  shows "\<not> let_in (fst (login u c cfg name password lctx s))
    \<and> db_users (w_db (snd (login u c cfg name password lctx s))) = db_users (w_db s)
    \<and> db_sessions (w_db (snd (login u c cfg name password lctx s))) = db_sessions (w_db s)"
proof -
  have "wp (login u c cfg name password lctx)
      (\<lambda>res t. res = None \<and> db_users (w_db t) = db_users (w_db s) \<and> db_sessions (w_db t) = db_sessions (w_db s))
      (\<lambda>e t. db_users (w_db t) = db_users (w_db s) \<and> db_sessions (w_db t) = db_sessions (w_db s)) s"
    by (rule wp_mono [OF wp_login])
      (use assms in \<open>auto simp: quiet_drifted login_effect_def with_auditD\<close>)
  then show ?thesis by (auto simp: wp_def split: prod.splits sum.splits)
qed

definition demo_locked_admin :: user where
  "demo_locked_admin = demo_admin\<lparr>user_locked_until := Some 2000000, user_failed_login_attempts := 5\<rparr>"

definition demo_locked :: world where
  "demo_locked = demo_world\<lparr>w_db := empty_database\<lparr>db_users := [demo_locked_admin]\<rparr>\<rparr>"

lemma locked_account_refuses_witness:
  "\<not> let_in (fst (login ascii_only demo_crypto demo_settings (py ''admin'') demo_password
     demo_login_context demo_locked))"
proof -
  have "quiet demo_locked" by (simp add: quiet_def demo_locked_def demo_world_def)
  moreover have "get_by_username ascii_only (login_name ascii_only (py ''admin''))
      (empty_database\<lparr>db_users := [demo_locked_admin]\<rparr>) = Some demo_locked_admin"
    by code_simp
  ultimately show ?thesis
    using locked_account_refuses [of demo_locked ascii_only "py ''admin''" demo_locked_admin
        demo_crypto demo_settings demo_password demo_login_context]
    by (simp add: is_locked_def demo_locked_def demo_world_def demo_locked_admin_def)
qed








section \<open>Changing a password\<close>

lemma constraints_revoke_rows:
  assumes "db_constraints d"
  shows "db_constraints (set_sessions (revoke_rows uid now ex) d)"
proof -
  have "map ses_id (revoke_rows uid now ex rows) = map ses_id rows"
    "map ses_token_hash (revoke_rows uid now ex rows) = map ses_token_hash rows"
    "map ses_user_id (revoke_rows uid now ex rows) = map ses_user_id rows" for rows
    by (auto simp: revoke_rows_def)
  moreover have "list_all (\<lambda>x. refers ks (ses_user_id x)) rows = list_all (refers ks) (map ses_user_id rows)"
    for ks and rows :: "user_session list" by (simp add: list_all_iff)
  ultimately show ?thesis
    using assms
    by (simp add: db_constraints_def set_sessions_def sessions_ok_def distinct_keys_def
        unique_by_def users_ok_def categories_ok_def tags_ok_def software_tags_ok_def softwares_ok_def
        releases_ok_def files_ok_def stats_ok_def audits_ok_def)
qed

lemma change_password_succeeds:
  assumes "quiet s" and f: "no_db_faults s" and d: "db_constraints (w_db s)"
    and n: "normalize_username u name = Inr n"
    and "hash_password u c cfg (w_db_tick s) password (Some n) = Inr h"
    and x: "get_by_username u n (w_db s) = Some x"
  shows "\<exists>y t. change_password u c cfg name password rid s = (Inr y, t)"
proof -
  let ?y = "x\<lparr>user_password_hash := h, user_password_changed_at := Some (os_now s),
      user_failed_login_attempts := 0, user_locked_until := None\<rparr>"
  have "db_constraints (store_user ?y (w_db s))"
    using constraints_store_user [OF d get_by_username_in [OF x], of ?y] by simp
  then have d2: "db_constraints (set_sessions (revoke_rows (user_id x) (os_now s) None) (store_user ?y (w_db s)))"
    by (rule constraints_revoke_rows)
  have "?y \<in> set (db_users (store_user ?y (w_db s)))"
    using get_by_username_in [OF x] by (auto simp: store_user_def set_users_def row_update_def)
  then have "user_id ?y \<in> user_id ` set (db_users (store_user ?y (w_db s)))"
    by (rule imageI)
  then have uid: "user_id x \<in> user_id ` set (db_users (store_user ?y (w_db s)))"
    by simp
  have quiet: "w_env s k d = d" for k d using assms(1) by (simp add: quiet_def)
  have "wp (change_password u c cfg name password rid) (\<lambda>_ _. True) (\<lambda>_ _. False) s"
    using f n assms(5) x d2 uid quiet
    by (auto simp: change_password_def change_password_body_def wp_simps wp_transaction_iff no_faultsD
        interfere_def Let_def intro!: wp_append_ok)
  then show ?thesis by (auto simp: wp_def split: prod.splits sum.splits)
qed

text \<open>
  C30: After a password change no session the account had can be used again: its token is refused
  in every state reachable from there, as long as no later login happens to draw a token with
  the same hash.
\<close>

theorem password_change_evicts:
  assumes "change_password u c cfg name password rid s = (Inr y, t)"
    and "r \<in> set (db_sessions (w_db t))" and "ses_user_id r = user_id y"
    and "auth_reachable u cfg C t t'" and "\<And>c. C c \<Longrightarrow> never_drawn c (ses_token_hash r)"
    and "quiet t"
    and "hash_session_token c' tok = Inr (ses_token_hash r)"
  shows "\<not> let_in (fst (authenticate c' cfg (Some tok) ip ua t'))"
proof -
  obtain n h d x where eff: "change_password_effect u n h (os_now s) y d (w_db t)" "db_constraints (w_db t)"
    using wp_run_Inr [OF wp_change_password assms(1)] by blast
  then have rows: "db_sessions (w_db t) = revoke_rows (user_id y) (os_now s) None (db_sessions d)"
    by (auto simp: change_password_effect_def with_auditD)
  have dead: "ses_revoked_at r' \<noteq> None" if "r' \<in> set (db_sessions (w_db t))" "ses_user_id r' = user_id y" for r'
    using that by (auto simp: rows revoke_rows_def to_revoke_def split: if_splits)
  have "r' = r" if "r' \<in> set (db_sessions (w_db t))" "ses_token_hash r' = ses_token_hash r" for r'
    using eff(2) unique_byD [of ses_token_hash _ r' r] that assms(2)
    by (auto simp: db_constraints_def sessions_ok_def)
  then have "retired (ses_token_hash r) (w_db t)"
    using dead assms(2,3) by (auto simp: retired_def list_all_iff)
  moreover have env: "env_keeps I t" for I using assms(6) by (simp add: env_keeps_def quiet_def)
  ultimately have ret: "retired (ses_token_hash r) (w_db t')"
    and env': "env_keeps (retired (ses_token_hash r)) t'"
    using auth_reachable_keeps [OF assms(4) retired_invariant [OF assms(5)] env] by blast+
  have "wp (authenticate c' cfg (Some tok) ip ua) (\<lambda>x t. x = None) (\<lambda>_ _. True) t'"
  proof (cases "tok = []")
    case True
    then show ?thesis by (simp add: authenticate_def wp_simps)
  next
    case False
    show ?thesis
    proof (rule wp_mono [OF wp_authenticate [OF assms(7) False]], goal_cases)
      case (1 x t1)
      then obtain d1 where d1: "drifted t' (w_db t') d1"
        "authenticate_effect cfg (os_now t') (ses_token_hash r) x d1 (w_db t1)" by blast
      then have "retired (ses_token_hash r) d1" using env_keeps_drifted [OF env'] ret by blast
      then have "live_session (ses_token_hash r) (os_now t') d1 = None"
        using get_by_token_hash_in [of "ses_token_hash r" d1]
        by (auto simp: live_session_def retired_def list_all_iff split: option.splits)
      with d1(2) show ?case by (simp add: authenticate_effect_def)
    qed simp
  qed
  then show ?thesis by (auto simp: wp_def let_in_def split: prod.splits sum.splits)
qed

definition demo_old_session :: user_session where
  "demo_old_session = \<lparr>ses_id = 1, ses_token_hash = hex_of (replicate 32 1), ses_user_id = 1,
     ses_created_at = 0, ses_last_activity_at = 0, ses_expires_at = 1800000000,
     ses_absolute_expires_at = 43200000000, ses_revoked_at = None, ses_user_agent_hash = None,
     ses_ip_hash = None, ses_csrf_secret_hash = []\<rparr>"

definition demo_signed_in :: world where
  "demo_signed_in = demo_world\<lparr>w_db := demo_auth_db\<lparr>db_sessions := [demo_old_session]\<rparr>\<rparr>"

definition demo_new_password :: str where
  "demo_new_password = py ''battery staple''"

lemma demo_signed_in_ok: "quiet demo_signed_in" "no_db_faults demo_signed_in"
  "db_constraints (w_db demo_signed_in)"
  by (simp_all add: quiet_def no_db_faults_def demo_signed_in_def demo_world_def demo_auth_db_def
    db_constraints_def empty_database_def users_ok_def sessions_ok_def categories_ok_def tags_ok_def
    software_tags_ok_def softwares_ok_def releases_ok_def files_ok_def stats_ok_def audits_ok_def
    distinct_keys_def unique_by_def demo_admin_def demo_user_def refers_def demo_old_session_def)

lemma demo_hash_new: "normalize_username ascii_only (py ''admin'') = Inr (py ''admin'')"
  "hash_password ascii_only demo_crypto demo_settings 0 demo_new_password (Some (py ''admin''))
     = Inr (36 # demo_new_password)"
  by code_simp+

lemma demo_never_drawn: "never_drawn demo_crypto (hex_of (replicate 32 1))"
proof -
  have "is_ascii (token_urlsafe demo_crypto n)" for n
    by (simp add: demo_crypto_def is_ascii_def list_all_iff)
  then show ?thesis
    by (simp add: never_drawn_def hash_session_token_def encode_ascii_utf8 hex_of_inj)
      (simp add: demo_crypto_def)
qed

lemma password_change_evicts_witness:
  "\<exists>y t. change_password ascii_only demo_crypto demo_settings (py ''admin'') demo_new_password None demo_signed_in
       = (Inr y, t)
     \<and> \<not> let_in (fst (authenticate demo_crypto demo_settings (Some [116]) None None
         (snd (run_auth ascii_only demo_crypto demo_settings
            (Login (py ''admin'') demo_new_password demo_login_context) t))))"
proof -
  let ?s = demo_signed_in
  have db: "w_db ?s = demo_auth_db\<lparr>db_sessions := [demo_old_session]\<rparr>" "w_db_tick ?s = 0" "os_now ?s = 1000000"
    by (simp_all add: demo_signed_in_def demo_world_def)
  have found: "get_by_username ascii_only (py ''admin'') (w_db ?s) = Some demo_admin"
    using demo_found by (simp add: db get_by_username_def)
  obtain y t where run: "change_password ascii_only demo_crypto demo_settings (py ''admin'')
      demo_new_password None ?s = (Inr y, t)"
    using change_password_succeeds [OF demo_signed_in_ok demo_hash_new(1) _ found] demo_hash_new(2) db(2)
    by metis
  have t: "db_only ?s t" and eff: "\<exists>n h. normalize_username ascii_only (py ''admin'') = Inr n
      \<and> change_password_effect ascii_only n h (os_now ?s) y (w_db ?s) (w_db t)"
    using wp_run_Inr [OF wp_change_password run] quiet_drifted [OF demo_signed_in_ok(1)] by auto
  then have y: "user_id y = 1" and rows: "db_sessions (w_db t) = [demo_old_session\<lparr>ses_revoked_at := Some 1000000\<rparr>]"
    using found demo_hash_new(1)
    by (auto simp: change_password_effect_def with_auditD db revoke_rows_def to_revoke_def
        demo_old_session_def demo_admin_def demo_user_def)
  have "quiet t" using demo_signed_in_ok(1) db_onlyD(9) [OF t] by (simp add: quiet_def)
  moreover have "hash_session_token demo_crypto [116] = Inr (hex_of (replicate 32 1))"
    by (simp add: hash_session_token_def encode_ascii_utf8 is_ascii_def) (simp add: demo_crypto_def)
  moreover have "auth_reachable ascii_only demo_settings (\<lambda>c. c = demo_crypto) t
      (snd (run_auth ascii_only demo_crypto demo_settings
        (Login (py ''admin'') demo_new_password demo_login_context) t))"
    by (rule auth_reachable.action [OF auth_reachable.initial refl prod.collapse [symmetric]])
  ultimately show ?thesis
    using run password_change_evicts [OF run, of "demo_old_session\<lparr>ses_revoked_at := Some 1000000\<rparr>"
        "\<lambda>c. c = demo_crypto"] demo_never_drawn y
    by (auto simp: rows demo_old_session_def)
qed

section \<open>Provisioning\<close>

lemma find_append_None: "find P xs = None \<Longrightarrow> find P (xs @ [x]) = (if P x then Some x else None)"
  by (induction xs) auto

lemma get_by_normalized:
  assumes "normalize_username u name = Inr n"
  shows "get_by_username u n d = get_by_username u name d"
proof -
  note n = normalize_username_ok [OF assms]
  then have "casefold u (strip n) = n"
    by (metis username_stripped casefold_id username_no_upper)
  with n have "casefold u (strip n) = casefold u (strip name)" by metis
  then show ?thesis by (simp add: get_by_username_def)
qed

text \<open>
  Provisioning creates one account or changes nothing: on success the name is normalised
  and was free, the new row is found under every spelling of the given name and no other row
  is touched; on failure the error is one of three application or database errors (or what
  the hasher raised), never a constraint violation.
\<close>

theorem create_admin_once:
  assumes "quiet s"
  shows "case create_admin u c cfg name password super rid s of
      (Inl e, t) \<Rightarrow> w_db t = w_db s \<and> (e \<in> {ValidationError, EntityConflict, SQLAlchemyError}
         \<or> argon_hash c (w_db_tick s) password = Inl e)
    | (Inr x, t) \<Rightarrow> is_username (user_username x) \<and> user_username x = casefold u (strip name)
         \<and> get_by_username u name (w_db s) = None \<and> get_by_username u name (w_db t) = Some x
         \<and> db_users (w_db t) = db_users (w_db s) @ [x] \<and> db_sessions (w_db t) = db_sessions (w_db s)
         \<and> user_is_active x \<and> user_failed_login_attempts x = 0 \<and> user_locked_until x = None"
proof -
  have "is_username (user_username x) \<and> user_username x = casefold u (strip name)
         \<and> get_by_username u name (w_db s) = None \<and> get_by_username u name (w_db t) = Some x
         \<and> db_users (w_db t) = db_users (w_db s) @ [x] \<and> db_sessions (w_db t) = db_sessions (w_db s)
         \<and> user_is_active x \<and> user_failed_login_attempts x = 0 \<and> user_locked_until x = None"
    if n: "normalize_username u name = Inr n"
      and eff: "create_admin_effect u n h super (os_now s) x (w_db s) (w_db t)" for x t n h
  proof -
    note n' = normalize_username_ok [OF n]
    have x: "x = with_user_id (next_id user_id (db_users (w_db s))) (new_user n h super (os_now s))"
      and free: "get_by_username u name (w_db s) = None"
      and a: "with_audit ADMIN_CREATED (set_users (row_add user_id with_user_id (new_user n h super (os_now s))) (w_db s)) (w_db t)"
      using eff get_by_normalized [OF n] by (auto simp: create_admin_effect_def)
    have users: "db_users (w_db t) = db_users (w_db s) @ [x]"
      using with_auditD(1) [OF a] by (simp add: row_add_def x)
    have name: "user_username x = n" by (simp add: x with_user_id_def new_user_def)
    have "sql_lower (user_username x) = casefold u (strip name)"
      using n' sql_lower_username [of n] name by metis
    then have "get_by_username u name (w_db t) = Some x"
      using free by (simp add: get_by_username_def users find_append_None Let_def)
    moreover have "is_username (user_username x)" "user_username x = casefold u (strip name)"
      using n' name by metis+
    moreover have "user_is_active x" "user_failed_login_attempts x = 0" "user_locked_until x = None"
      by (simp_all add: x with_user_id_def new_user_def)
    ultimately show ?thesis
      using free users with_auditD(2) [OF a] by (simp del: user.select_convs)
  qed
  then have "wp (create_admin u c cfg name password super rid)
      (\<lambda>x t. is_username (user_username x) \<and> user_username x = casefold u (strip name)
         \<and> get_by_username u name (w_db s) = None \<and> get_by_username u name (w_db t) = Some x
         \<and> db_users (w_db t) = db_users (w_db s) @ [x] \<and> db_sessions (w_db t) = db_sessions (w_db s)
         \<and> user_is_active x \<and> user_failed_login_attempts x = 0 \<and> user_locked_until x = None)
      (\<lambda>e t. w_db t = w_db s \<and> (e \<in> {ValidationError, EntityConflict, SQLAlchemyError}
         \<or> argon_hash c (w_db_tick s) password = Inl e)) s"
    by (intro wp_mono [OF wp_create_admin]) (auto simp: quiet_drifted [OF assms])
  then show ?thesis unfolding wp_def .
qed

lemma create_admin_once_witness:
  "case create_admin ascii_only demo_crypto demo_settings (py '' Root'') demo_password True None demo_auth of
      (Inl e, t) \<Rightarrow> w_db t = w_db demo_auth
    | (Inr x, t) \<Rightarrow> get_by_username ascii_only (py '' Root'') (w_db t) = Some x"
  using create_admin_once [OF demo_auth_quiet(1), where u = ascii_only and c = demo_crypto
      and cfg = demo_settings and name = "py '' Root''" and password = demo_password
      and super = True and rid = None]
  by (auto split: prod.splits sum.splits)

section \<open>A login that fails on the password policy\<close>

text \<open>
  C40: When a stored hash needs new parameters, a correct login hashes the password again, which
  applies the password policy of today: an administrator whose valid password is older than
  the policy gets a \<open>ValidationError\<close> instead of a session.
\<close>

theorem login_rehash_policy_error:
  assumes "quiet s" and "no_db_faults s"
    and "client_hashes c cfg (lc_ip_address lctx) (lc_user_agent lctx) = Inr hs"
    and "username_hash c cfg (login_name u name) = Inr nh"
    and "get_by_username u (login_name u name) (w_db s) = Some x"
    and "\<not> is_locked (os_now s) x" and "user_is_active x"
    and "verify_password c password (user_password_hash x) = Inr True"
    and "needs_rehash c (user_password_hash x)"
    and "validate_password u cfg password (Some (user_username x)) = Inl e"
  shows "fst (login u c cfg name password lctx s) = Inl ValidationError
    \<and> w_db (snd (login u c cfg name password lctx s)) = w_db s"
proof -
  let ?y = "lift_lock (os_now s) x"
  have y: "user_username ?y = user_username x" "user_password_hash ?y = user_password_hash x"
    "user_is_active ?y = user_is_active x"
    by (auto simp: lift_lock_def split: option.splits)
  have e: "e = ValidationError"
    using assms(10) by (auto simp: validate_password_def rbind_eq_Inl split: option.splits)
  have "wp (login u c cfg name password lctx) (\<lambda>_ _. False) (\<lambda>e t. e = ValidationError \<and> w_db t = w_db s) s"
    using assms(1-10) y
    by (cases hs) (auto simp: login_def login_name_def [symmetric] Let_def wp_simps wp_transaction_iff
        login_body_def no_faultsD interfere_def accept_login_def rehash_if_needed_def hash_password_def
        quiet_def e)
  then show ?thesis by (auto simp: wp_def split: prod.splits sum.splits)
qed

lemma login_rehash_policy_error_witness:
  "fst (login ascii_only (demo_crypto\<lparr>argon_needs_rehash := (\<lambda>_. Some True)\<rparr>)
     (demo_settings\<lparr>password_min_length := 20\<rparr>) (py '' Admin'') demo_password demo_login_context demo_auth)
   = Inl ValidationError"
proof -
  let ?c = "demo_crypto\<lparr>argon_needs_rehash := (\<lambda>_. Some True)\<rparr>"
  let ?cfg = "demo_settings\<lparr>password_min_length := 20\<rparr>"
  have "is_ascii (replicate 32 65)" "is_ascii (py ''login-username'')" "is_ascii (py ''admin'')"
    by (simp_all add: is_ascii_def py_def list_all_iff)
  then have "\<exists>nh. username_hash ?c ?cfg (py ''admin'') = Inr nh"
    using hmac_identifier_ascii by (simp add: username_hash_def demo_settings_def)
  then obtain nh where nh: "username_hash ?c ?cfg (py ''admin'') = Inr nh" by blast
  have hs: "client_hashes ?c ?cfg (lc_ip_address demo_login_context) (lc_user_agent demo_login_context) = Inr (None, None)"
    by (simp add: client_hashes_def require_secrets_def demo_settings_def hmac_identifier_def demo_login_context_def)
  have found: "get_by_username ascii_only (login_name ascii_only (py '' Admin'')) (w_db demo_auth) = Some demo_admin"
    using demo_found by (simp add: demo_name demo_login_facts(6))
  have "validate_password ascii_only ?cfg demo_password (Some (user_username demo_admin)) = Inl ValidationError"
    by (simp add: validate_password_def demo_password_def py_def)
  moreover have "verify_password ?c demo_password (user_password_hash demo_admin) = Inr True"
    "needs_rehash ?c (user_password_hash demo_admin)"
    using demo_login_facts(4) by (simp_all add: verify_password_def needs_rehash_def)
  ultimately show ?thesis
    using login_rehash_policy_error [OF demo_auth_quiet(1,2) hs _ found demo_login_facts(2,3)] nh
    by (simp add: demo_name)
qed

end
