(* ===== verification/Filenames.thy ===== *)
theory Filenames
  imports Paths
begin

text \<open>
  \<open>app/storage/filename.py\<close> and \<open>validation.py\<close>: the names administrators may give a file,
  and the names the server gives its bytes. \<open>app/storage/disk.py\<close>: the free-space check.
\<close>

section \<open>Extensions\<close>

text \<open>\<open>PurePath.suffix\<close> (\<open>splitext\<close>: the last dot and what follows, unless only dots precede
  it) and \<open>PurePath.suffixes\<close>.\<close>

definition path_name :: "str \<Rightarrow> str" where
  "path_name raw = (if pure_parts raw = [] then [] else last (pure_parts raw))"

definition suffix_of :: "str \<Rightarrow> str" where
  "suffix_of name =
     (let ext = rev (takeWhile (\<lambda>c. c \<noteq> 46) (rev name));
          before = take (length name - length ext - 1) name
      in if 46 \<in> set name \<and> list_ex (\<lambda>c. c \<noteq> 46) before then 46 # ext else [])"

definition suffixes_of :: "str \<Rightarrow> str list" where
  "suffixes_of name = map (\<lambda>ext. 46 # ext) (tl (split_on 46 (dropWhile (\<lambda>c. c = 46) name)))"

text \<open>\<open>s[:-n]\<close>\<close>

definition drop_end :: "nat \<Rightarrow> 'a list \<Rightarrow> 'a list" where
  "drop_end n s = (if n = 0 then [] else take (length s - n) s)"

section \<open>Names given by administrators\<close>

definition maximum_filename_length :: nat where "maximum_filename_length = 255"
definition maximum_filename_bytes :: nat where "maximum_filename_bytes = 255"
definition upload_temporary_suffix :: str where "upload_temporary_suffix = py ''.upload''"

definition windows_reserved_names :: "str list" where
  "windows_reserved_names = [py ''con'', py ''prn'', py ''aux'', py ''nul'']
     @ map (\<lambda>n. py ''com'' @ [48 + n]) [1..<10] @ map (\<lambda>n. py ''lpt'' @ [48 + n]) [1..<10]"

definition deceptive_inner_extensions :: "str list" where
  "deceptive_inner_extensions = map py
     [''.bat'', ''.cmd'', ''.com'', ''.doc'', ''.docm'', ''.docx'', ''.exe'', ''.gif'', ''.hta'',
      ''.htm'', ''.html'', ''.iso'', ''.jar'', ''.jpeg'', ''.jpg'', ''.js'', ''.lnk'', ''.msi'',
      ''.pdf'', ''.png'', ''.ps1'', ''.py'', ''.scr'', ''.svg'', ''.txt'', ''.vbs'', ''.xls'',
      ''.xlsm'', ''.xlsx'', ''.zip'']"

definition bidi_and_format_controls :: "nat list" where
  "bidi_and_format_controls =
     [1564, 8203, 8204, 8205, 8206, 8207, 8234, 8235, 8236, 8237, 8238, 8288, 8294, 8295, 8296,
      8297, 65279]"

record normalized_filename =
  nf_value :: str
  nf_stem :: str
  nf_extension :: str

definition ends_badly :: "str \<Rightarrow> bool" where
  "ends_badly s = (s \<noteq> [] \<and> (last s = 46 \<or> last s = 32))"

definition normalize_original_filename :: "unicode \<Rightarrow> str \<Rightarrow> str list \<Rightarrow> exn + normalized_filename" where
  "normalize_original_filename u filename allowed =
     (if 0 \<in> set filename then Inl FileValidationError
      else if ends_badly filename then Inl FileValidationError
      else
        let normalized = strip (nfkc u filename) in
        if normalized = [] \<or> normalized = dot \<or> normalized = dotdot then Inl FileValidationError
        else if hd normalized = 46 \<or> ends_badly normalized then Inl FileValidationError
        else if slash \<in> set normalized \<or> backslash \<in> set normalized then Inl FileValidationError
        else if list_ex (\<lambda>c. c \<in> set bidi_and_format_controls) normalized then Inl FileValidationError
        else if list_ex (is_category_C u) normalized then Inl FileValidationError
        else if length normalized > maximum_filename_length then Inl FileValidationError
        else
          case utf8_encode normalized of
            None \<Rightarrow> Inl ValueError
          | Some encoded \<Rightarrow>
              if length encoded > maximum_filename_bytes then Inl FileValidationError
              else
                let extension = casefold u (suffix_of (path_name normalized)) in
                if extension \<notin> set (map (casefold u) allowed) then Inl FileValidationError
                else
                  let stem = drop_end (length extension) normalized in
                  if stem = [] \<or> casefold u stem \<in> set windows_reserved_names
                  then Inl FileValidationError
                  else if list_ex (\<lambda>s. s \<in> set deceptive_inner_extensions)
                            (map (casefold u) (butlast (suffixes_of (path_name normalized))))
                  then Inl FileValidationError
                  else Inr \<lparr>nf_value = normalized, nf_stem = stem, nf_extension = extension\<rparr>)"

definition normalize_display_filename ::
  "unicode \<Rightarrow> str option \<Rightarrow> normalized_filename \<Rightarrow> str list \<Rightarrow> exn + str" where
  "normalize_display_filename u display_filename original allowed =
     (case display_filename of
        None \<Rightarrow> Inr (nf_value original)
      | Some display \<Rightarrow>
          if strip display = [] then Inr (nf_value original)
          else rbind (normalize_original_filename u display allowed) (\<lambda>normalized.
            if nf_extension normalized \<noteq> nf_extension original then Inl FileValidationError
            else Inr (nf_value normalized)))"

section \<open>Names given by the server\<close>

text \<open>\<open>[0-9a-f]{32}\<close> followed by \<open>\.[a-z0-9]{1,15}\<close>, the whole string\<close>

definition is_identifier :: "str \<Rightarrow> bool" where
  "is_identifier s = (length s = 32 \<and> list_all is_hex s)"

definition is_plain_extension :: "str \<Rightarrow> bool" where
  "is_plain_extension s =
     (case s of
        c # ext \<Rightarrow> c = 46 \<and> 1 \<le> length ext \<and> length ext \<le> 15 \<and> list_all is_lower_alnum ext
      | [] \<Rightarrow> False)"

definition match_storage_filename :: "str \<Rightarrow> (str \<times> str) option" where
  "match_storage_filename filename =
     (let identifier = take 32 filename; extension = drop 32 filename in
      if is_identifier identifier \<and> is_plain_extension extension
      then Some (identifier, extension) else None)"

definition generate_storage_filename :: "unicode \<Rightarrow> str \<Rightarrow> str list \<Rightarrow> ('z os_scheme, str) eff" where
  "generate_storage_filename u extension allowed =
     (let normalized = casefold u (strip extension) in
      bind (raise_if (normalized \<notin> set (map (casefold u) allowed)) FileValidationError) (\<lambda>_.
      bind fresh_uuid_hex (\<lambda>identifier. ret (identifier @ normalized))))"

definition generate_temporary_filename :: "('z os_scheme, str) eff" where
  "generate_temporary_filename =
     bind fresh_uuid_hex (\<lambda>identifier. ret (identifier @ upload_temporary_suffix))"

definition validate_storage_filename :: "unicode \<Rightarrow> str \<Rightarrow> str list \<Rightarrow> exn + str" where
  "validate_storage_filename u filename allowed =
     (case match_storage_filename filename of
        None \<Rightarrow> Inl FileValidationError
      | Some (_, extension) \<Rightarrow>
          if extension \<notin> set (map (casefold u) allowed) then Inl FileValidationError else Inr filename)"

definition is_temporary_filename :: "str \<Rightarrow> bool" where
  "is_temporary_filename filename =
     (is_identifier (take 32 filename) \<and> drop 32 filename = upload_temporary_suffix)"

definition sharded_relative_path :: "str \<Rightarrow> exn + str" where
  "sharded_relative_path storage_filename =
     (case match_storage_filename storage_filename of
        None \<Rightarrow> Inl FileValidationError
      | Some (identifier, _) \<Rightarrow>
          Inr (join_on slash [take 2 identifier, take 2 (drop 2 identifier), storage_filename]))"

section \<open>Free space\<close>

definition get_disk_space :: "path \<Rightarrow> ('z os_scheme, disk_space) eff" where
  "get_disk_space p = bind (os_error_as StorageError syscall) (\<lambda>_. gets os_disk)"

definition ensure_free_space :: "path \<Rightarrow> int \<Rightarrow> int \<Rightarrow> ('z os_scheme, disk_space) eff" where
  "ensure_free_space p required_bytes reserve_bytes =
     bind (raise_if (required_bytes < 0 \<or> reserve_bytes < 0) ValueError) (\<lambda>_.
     bind (get_disk_space p) (\<lambda>space.
       if required_bytes > disk_free space \<or> disk_free space - required_bytes < reserve_bytes
       then throw StorageError else ret space))"

section \<open>What a normalised name is\<close>

definition good_filename :: "unicode \<Rightarrow> str list \<Rightarrow> str \<Rightarrow> bool" where
  "good_filename u allowed s \<longleftrightarrow> s \<noteq> [] \<and> strip s = s \<and> hd s \<noteq> 46 \<and> \<not> ends_badly s
     \<and> slash \<notin> set s \<and> backslash \<notin> set s \<and> list_all (\<lambda>c. \<not> is_category_C u c) s
     \<and> list_all (\<lambda>c. c \<notin> set bidi_and_format_controls) s
     \<and> length s \<le> 255 \<and> (\<exists>bs. utf8_encode s = Some bs \<and> length bs \<le> 255)
     \<and> casefold u (suffix_of s) \<in> set (map (casefold u) allowed)"

lemma pure_parts_single:
  assumes "slash \<notin> set s" and "s \<noteq> []" and "s \<noteq> dot"
  shows "pure_parts s = [s]"
  using assms by (simp add: pure_parts_def split_on_free)

lemma path_name_single: "slash \<notin> set s \<Longrightarrow> s \<noteq> [] \<Longrightarrow> s \<noteq> dot \<Longrightarrow> path_name s = s"
  by (simp add: path_name_def pure_parts_single)

lemma normalize_original_filename_good:
  assumes "normalize_original_filename u filename allowed = Inr n"
  shows "good_filename u allowed (nf_value n) \<and> nf_value n = strip (nfkc u filename)
    \<and> nf_extension n = casefold u (suffix_of (nf_value n))
    \<and> nf_stem n = drop_end (length (nf_extension n)) (nf_value n) \<and> nf_stem n \<noteq> []
    \<and> casefold u (nf_stem n) \<notin> set windows_reserved_names"
proof -
  note d = assms [unfolded normalize_original_filename_def Let_def, simplified]
  let ?v = "strip (nfkc u filename)"
  have n: "nf_value n = ?v" "?v \<noteq> []" "?v \<noteq> dot" "slash \<notin> set ?v"
    using d by (auto split: if_splits option.splits)
  note name = path_name_single [OF n(4,2,3)]
  show ?thesis
    using d n unfolding name good_filename_def
    by (auto simp: maximum_filename_length_def maximum_filename_bytes_def list_all_iff list_ex_iff
        split: if_splits option.splits)
qed

lemma category_C_zero: "is_category_C u 0"
  by (simp add: is_category_C_def)

lemma normalize_original_filename_fixed:
  assumes "normalize_original_filename u filename allowed = Inr n" and "nfkc u (nf_value n) = nf_value n"
  shows "normalize_original_filename u (nf_value n) allowed = Inr n"
proof -
  let ?v = "nf_value n"
  have g: "good_filename u allowed ?v" and v: "?v = strip (nfkc u filename)"
    using normalize_original_filename_good [OF assms(1)] by auto
  have "0 \<notin> set ?v" using g category_C_zero by (auto simp: good_filename_def list_all_iff)
  moreover have "\<not> ends_badly ?v" "strip ?v = ?v" using g by (auto simp: good_filename_def)
  ultimately have "normalize_original_filename u ?v allowed = normalize_original_filename u filename allowed"
    using assms(1) unfolding normalize_original_filename_def assms(2)
    by (simp add: v Let_def split: if_splits)
  then show ?thesis using assms(1) by simp
qed

section \<open>What a storage name is\<close>

lemma match_storage_filename_Some:
  "match_storage_filename s = Some (i, e) \<longleftrightarrow> is_identifier i \<and> is_plain_extension e \<and> s = i @ e"
proof
  assume "match_storage_filename s = Some (i, e)"
  then show "is_identifier i \<and> is_plain_extension e \<and> s = i @ e"
    by (auto simp: match_storage_filename_def Let_def split: if_splits)
qed (auto simp: match_storage_filename_def is_identifier_def)

definition sharded_parts :: "str \<Rightarrow> path" where
  "sharded_parts s = [take 2 s, take 2 (drop 2 s), s]"

lemma hex_not_special: "is_hex c \<Longrightarrow> c \<noteq> 47 \<and> c \<noteq> 46 \<and> c \<noteq> 92 \<and> c \<noteq> 0"
  by (auto simp: is_hex_def is_digit_def)

lemma identifier_chars: "is_identifier i \<Longrightarrow> c \<in> set i \<Longrightarrow> is_hex c"
  by (simp add: is_identifier_def list_all_iff)

lemma lower_alnum_not_special: "is_lower_alnum c \<Longrightarrow> c \<noteq> 47 \<and> c \<noteq> 92 \<and> c \<noteq> 0"
  by (auto simp: is_lower_alnum_def is_lower_def is_digit_def)

lemma plain_extension_chars: "is_plain_extension e \<Longrightarrow> c \<in> set e \<Longrightarrow> c \<noteq> 47 \<and> c \<noteq> 92 \<and> c \<noteq> 0"
  using lower_alnum_not_special [of c] by (cases e) (auto simp: is_plain_extension_def list_all_iff)

lemma safe_relative_join:
  assumes "ps \<noteq> []" and "\<And>p c. p \<in> set ps \<Longrightarrow> c \<in> set p \<Longrightarrow> c \<noteq> 47 \<and> c \<noteq> 92 \<and> c \<noteq> 0"
    and "\<And>p. p \<in> set ps \<Longrightarrow> \<not> unsafe_part p"
  shows "safe_relative (join_on slash ps) ps"
proof -
  have free: "slash \<notin> set p" if "p \<in> set ps" for p using assms(2) that by (auto simp: slash_def)
  have s: "split_on slash (join_on slash ps) = ps" using assms(1) free by (rule split_join_on)
  have chars: "set (join_on slash ws) \<subseteq> insert slash (\<Union> (set ` set ws))" for ws :: "str list"
    by (induction "slash" ws rule: join_on.induct) auto
  have from_parts: "c = slash \<or> (\<exists>p\<in>set ps. c \<in> set p)" if "c \<in> set (join_on slash ps)" for c
    using chars [of ps] that by blast
  have u: "\<not> list_ex unsafe_part ps" using assms(3) by (auto simp: list_ex_iff)
  have z: "0 \<notin> set (join_on slash ps)" "backslash \<notin> set (join_on slash ps)"
    using from_parts [of 0] from_parts [of backslash] assms(2) by (auto simp: slash_def backslash_def)
  have ne: "join_on slash ps \<noteq> []"
  proof
    assume "join_on slash ps = []"
    with s have "ps = [[]]" by simp
    with u show False by (simp add: unsafe_part_def)
  qed
  have "\<not> is_absolute (join_on slash ps)"
  proof
    assume "is_absolute (join_on slash ps)"
    then obtain t where "join_on slash ps = slash # t" by (auto simp: is_absolute_def starts_with_iff)
    with s have "[] \<in> set ps" by auto
    with u show False by (auto simp: list_ex_iff unsafe_part_def)
  qed
  then show ?thesis
    using s u z ne unfolding safe_relative_def reject_unsafe_relative_path_def
    by (simp add: pure_parts_safe)
qed

lemma long_not_unsafe: "2 < length s \<Longrightarrow> \<not> unsafe_part s"
  by (auto simp: unsafe_part_def dot_def dotdot_def)

lemma sharded_relative_path_safe:
  assumes "sharded_relative_path s = Inr raw"
  shows "safe_relative raw (sharded_parts s)"
proof -
  obtain i e where m: "match_storage_filename s = Some (i, e)"
    and raw: "raw = join_on slash [take 2 i, take 2 (drop 2 i), s]"
    using assms by (auto simp: sharded_relative_path_def split: option.splits)
  have i: "is_identifier i" and e: "is_plain_extension e" and s: "s = i @ e"
    using m by (simp_all add: match_storage_filename_Some)
  have len: "length i = 32" using i by (simp add: is_identifier_def)
  have parts: "sharded_parts s = [take 2 i, take 2 (drop 2 i), s]" using len s by (simp add: sharded_parts_def)
  have chars: "c \<noteq> 47 \<and> c \<noteq> 92 \<and> c \<noteq> 0" if "c \<in> set i \<union> set e" for c
    using that identifier_chars [OF i] hex_not_special plain_extension_chars [OF e] by blast
  have hexed: "\<not> unsafe_part p" if "set p \<subseteq> set i" "p \<noteq> []" for p
    using that identifier_chars [OF i] hex_not_special
    by (cases p) (fastforce simp: unsafe_part_def dot_def dotdot_def)+
  have sub: "set (take 2 i) \<subseteq> set i" "set (take 2 (drop 2 i)) \<subseteq> set i"
    using set_take_subset [of 2 i] set_take_subset [of 2 "drop 2 i"] set_drop_subset [of 2 i] by auto
  have "take 2 i \<noteq> []" "take 2 (drop 2 i) \<noteq> []" using len by auto
  then have "\<not> unsafe_part (take 2 i)" "\<not> unsafe_part (take 2 (drop 2 i))" using hexed sub by auto
  moreover have "\<not> unsafe_part s" using s len by (intro long_not_unsafe) simp
  ultimately show ?thesis
    unfolding raw parts
  proof (intro safe_relative_join)
    fix p c assume "p \<in> set [take 2 i, take 2 (drop 2 i), s]" "c \<in> set p"
    then have "c \<in> set i \<union> set e" using sub s by auto
    then show "c \<noteq> 47 \<and> c \<noteq> 92 \<and> c \<noteq> 0" by (rule chars)
  qed auto
qed

lemma sharded_of_generated:
  assumes "is_identifier i" and "is_plain_extension e"
  shows "sharded_relative_path (i @ e) = Inr (join_on slash (sharded_parts (i @ e)))"
proof -
  have "match_storage_filename (i @ e) = Some (i, e)"
    using assms by (simp add: match_storage_filename_Some)
  moreover have "length i = 32" using assms by (simp add: is_identifier_def)
  ultimately show ?thesis by (simp add: sharded_relative_path_def sharded_parts_def)
qed

lemma temporary_name_safe:
  assumes "is_identifier i"
  shows "safe_relative (i @ upload_temporary_suffix) [i @ upload_temporary_suffix]"
proof -
  have suffix: "\<forall>c \<in> set upload_temporary_suffix. c \<noteq> 47 \<and> c \<noteq> 92 \<and> c \<noteq> 0" by code_simp
  have "i \<noteq> []" "length i = 32" using assms by (auto simp: is_identifier_def)
  then have "\<not> unsafe_part (i @ upload_temporary_suffix)"
    by (intro long_not_unsafe) simp
  then have "safe_relative (join_on slash [i @ upload_temporary_suffix]) [i @ upload_temporary_suffix]"
    using suffix identifier_chars [OF assms] hex_not_special
    by (intro safe_relative_join) auto
  then show ?thesis by simp
qed

end
