(* ===== verification/Uploads.thy ===== *)
theory Uploads
  imports Filenames Moves Hashing Signatures Releases
begin

text \<open>
  \<open>app/storage/upload.py\<close>, \<open>app/storage/scanner.py\<close> and \<open>app/services/upload_service.py\<close>: the
  bounded copy of an upload to temporary storage, its move to quarantine, the scan and the
  row. The kernel may accept any part of a write: \<open>wr\<close> says how many of \<open>n\<close> bytes it takes
  at the n-th call. Cancellation of the awaiting task is not modelled.
\<close>

section \<open>Writing to a new file\<close>

text \<open>\<open>os.open(p, O_WRONLY | O_CREAT | O_EXCL | O_NOFOLLOW, mode)\<close>\<close>

definition sys_create :: "path \<Rightarrow> nat \<Rightarrow> ('z os_scheme, unit) eff" where
  "sys_create p m =
     bind syscall (\<lambda>_. bind (gets os_fs) (\<lambda>f.
       case f p of
         Some _ \<Rightarrow> throw FileExistsError
       | None \<Rightarrow>
           (case f (butlast p) of
              Some (Dir _) \<Rightarrow> modify (\<lambda>s. s\<lparr>os_fs := (os_fs s)(p \<mapsto> File [] m (os_now s))\<rparr>)
            | _ \<Rightarrow> throw FileNotFoundError)))"

text \<open>\<open>os.write\<close> at the end of the file: the number of bytes written.\<close>

definition sys_write :: "(nat \<Rightarrow> nat \<Rightarrow> nat) \<Rightarrow> path \<Rightarrow> bytes \<Rightarrow> ('z os_scheme, int) eff" where
  "sys_write wr p view =
     bind (gets os_tick) (\<lambda>tick.
     bind syscall (\<lambda>_. bind (gets os_fs) (\<lambda>f.
       let written = min (wr tick (length view)) (length view) in
       case f p of
         Some (File b m _) \<Rightarrow>
           bind (modify (\<lambda>s. s\<lparr>os_fs := (os_fs s)(p \<mapsto> File (b @ take written view) m (os_now s))\<rparr>))
             (\<lambda>_. ret (int written))
       | _ \<Rightarrow> throw OSError)))"

function write_all :: "(nat \<Rightarrow> nat \<Rightarrow> nat) \<Rightarrow> path \<Rightarrow> bytes \<Rightarrow> ('z os_scheme, unit) eff" where
  "write_all wr p view =
     (if view = [] then ret ()
      else bind (sys_write wr p view) (\<lambda>written.
        if written \<le> 0 then throw OSError else write_all wr p (drop (nat written) view)))"
  by pat_completeness auto
termination
  by (relation "measure (\<lambda>(wr, p, view). length view)") auto

declare write_all.simps [simp del]

definition unlink_missing_ok :: "path \<Rightarrow> ('z os_scheme, unit) eff" where
  "unlink_missing_ok p =
     try_catch (sys_unlink p) (\<lambda>e. if e = FileNotFoundError then ret () else throw e)"

definition safe_unlink :: "path \<Rightarrow> ('z os_scheme, unit) eff" where
  "safe_unlink p =
     try_catch (unlink_missing_ok p) (\<lambda>e. if is_os_error e then ret () else throw e)"

section \<open>Streaming to temporary storage\<close>

record upload_settings =
  us_allowed_extensions :: "str list"
  us_max_upload_size :: int
  us_upload_chunk_size :: nat
  us_magic_sample_size :: nat
  us_storage_min_free_bytes :: int

text \<open>Starlette's \<open>UploadFile\<close>: the name and size the client declared, and the spooled bytes.\<close>

record upload_file =
  uf_filename :: "str option"
  uf_size :: "int option"
  uf_content_type :: "str option"
  uf_content :: bytes

record upload_path_plan =
  pp_original :: normalized_filename
  pp_storage_filename :: str
  pp_temporary_relative_path :: str
  pp_quarantine_relative_path :: str
  pp_permanent_relative_path :: str
  pp_temporary_path :: path
  pp_quarantine_path :: path
  pp_permanent_path :: path

record streamed_upload =
  su_path_plan :: upload_path_plan
  su_size_bytes :: int
  su_sha256 :: str
  su_signature_sample :: bytes
  su_client_content_type :: "str option"

definition plan_upload_paths ::
  "unicode \<Rightarrow> upload_settings \<Rightarrow> storage_paths \<Rightarrow> str \<Rightarrow> ('z os_scheme, upload_path_plan) eff" where
  "plan_upload_paths u cfg paths filename =
     bind (lift_result (normalize_original_filename u filename (us_allowed_extensions cfg))) (\<lambda>original.
     bind (generate_storage_filename u (nf_extension original) (us_allowed_extensions cfg))
       (\<lambda>storage_filename.
     bind generate_temporary_filename (\<lambda>temporary_relative.
     bind (lift_result (sharded_relative_path storage_filename)) (\<lambda>stored_relative.
     bind (safe_resolve (sp_temporary paths) temporary_relative False False) (\<lambda>temporary_path.
     bind (safe_resolve (sp_quarantine paths) stored_relative False False) (\<lambda>quarantine_path.
     bind (safe_resolve (sp_software paths) stored_relative False False) (\<lambda>permanent_path.
     ret \<lparr>pp_original = original, pp_storage_filename = storage_filename,
          pp_temporary_relative_path = temporary_relative,
          pp_quarantine_relative_path = stored_relative,
          pp_permanent_relative_path = stored_relative,
          pp_temporary_path = temporary_path, pp_quarantine_path = quarantine_path,
          pp_permanent_path = permanent_path\<rparr>)))))))"

text \<open>\<open>while chunk := source.read(chunk_size)\<close>; the state is the rest of the source, the
  digest and the sample.\<close>

function copy_chunks ::
  "(nat \<Rightarrow> nat \<Rightarrow> nat) \<Rightarrow> path \<Rightarrow> int \<Rightarrow> nat \<Rightarrow> nat \<Rightarrow> bytes \<Rightarrow> streaming_sha256 \<Rightarrow> bytes \<Rightarrow>
   ('z os_scheme, streaming_sha256 \<times> bytes) eff" where
  "copy_chunks wr p max_size chunk_size sample_size source digest sample =
     bind syscall (\<lambda>_.
       let chunk = take chunk_size source in
       if chunk = [] then ret (digest, sample)
       else
         bind (raise_if (bytes_processed digest + int (length chunk) > max_size) PayloadTooLarge) (\<lambda>_.
         bind (write_all wr p chunk) (\<lambda>_.
         copy_chunks wr p max_size chunk_size sample_size (drop chunk_size source)
           (sha256_update digest chunk)
           (if length sample < sample_size
            then sample @ take (sample_size - length sample) chunk else sample))))"
  by pat_completeness auto
termination
  by (relation "measure (\<lambda>(wr, p, mx, n, k, source, d, sample). length source)") (auto simp: Let_def)

declare copy_chunks.simps [simp del]

definition copy_stream ::
  "(nat \<Rightarrow> nat \<Rightarrow> nat) \<Rightarrow> (bytes \<Rightarrow> str) \<Rightarrow> bytes \<Rightarrow> path \<Rightarrow> int \<Rightarrow> nat \<Rightarrow> nat \<Rightarrow>
   ('z os_scheme, int \<times> str \<times> bytes) eff" where
  "copy_stream wr sha source destination max_size chunk_size sample_size =
     bind (os_error_as StorageError (sys_create destination 384)) (\<lambda>_.
     bind (finally_do
       (os_error_as StorageError
         (bind (copy_chunks wr destination max_size chunk_size sample_size source new_sha256 [])
            (\<lambda>(digest, sample).
          bind (raise_if (bytes_processed digest = 0) FileValidationError) (\<lambda>_.
          bind syscall (\<lambda>_.
          bind (sys_chmod destination storage_file_mode) (\<lambda>_.
          ret (digest, sample)))))))
       syscall) (\<lambda>(digest, sample).
     ret (bytes_processed digest, hexdigest sha digest, sample)))"

definition declared_or_max :: "upload_settings \<Rightarrow> int option \<Rightarrow> int" where
  "declared_or_max cfg declared_size =
     (case declared_size of None \<Rightarrow> us_max_upload_size cfg
      | Some n \<Rightarrow> if n = 0 then us_max_upload_size cfg else n)"

definition stream_upload_to_temporary ::
  "unicode \<Rightarrow> (nat \<Rightarrow> nat \<Rightarrow> nat) \<Rightarrow> (bytes \<Rightarrow> str) \<Rightarrow> upload_settings \<Rightarrow> storage_paths \<Rightarrow> upload_file \<Rightarrow>
   ('z os_scheme, streamed_upload) eff" where
  "stream_upload_to_temporary u wr sha cfg paths upload =
     bind (plan_upload_paths u cfg paths (case uf_filename upload of None \<Rightarrow> [] | Some f \<Rightarrow> f)) (\<lambda>plan.
     bind (raise_if (case uf_size upload of None \<Rightarrow> False | Some n \<Rightarrow> n > us_max_upload_size cfg)
            PayloadTooLarge) (\<lambda>_.
     bind (ensure_free_space (sp_root paths) (declared_or_max cfg (uf_size upload))
            (us_storage_min_free_bytes cfg)) (\<lambda>_.
     bind (try_catch
            (bind syscall (\<lambda>_.
             copy_stream wr sha (uf_content upload) (pp_temporary_path plan) (us_max_upload_size cfg)
               (us_upload_chunk_size cfg) (us_magic_sample_size cfg)))
            (\<lambda>e. bind (safe_unlink (pp_temporary_path plan)) (\<lambda>_.
               if e \<in> {FileValidationError, PayloadTooLarge, StorageError} then throw e
               else throw StorageError))) (\<lambda>(size_bytes, sha256, sample).
     ret \<lparr>su_path_plan = plan, su_size_bytes = size_bytes, su_sha256 = sha256,
          su_signature_sample = sample, su_client_content_type = uf_content_type upload\<rparr>))))"

section \<open>Scanning\<close>

record scan_result =
  sr_status :: scanner_status
  sr_details :: "str option"

text \<open>How the run of the fixed command line ends; the program itself is not modelled.\<close>

datatype run_outcome = CommandMissing | CommandTimeout | CommandFailed | Completed int

definition clam_result :: "run_outcome \<Rightarrow> scan_result" where
  "clam_result outcome =
     (case outcome of
        CommandMissing \<Rightarrow> \<lparr>sr_status = ScanUnavailable, sr_details = Some (py ''ClamAV executable is unavailable.'')\<rparr>
      | CommandTimeout \<Rightarrow> \<lparr>sr_status = ScanError, sr_details = Some (py ''Malware scan timed out.'')\<rparr>
      | CommandFailed \<Rightarrow> \<lparr>sr_status = ScanError, sr_details = Some (py ''Malware scanner could not be started.'')\<rparr>
      | Completed returncode \<Rightarrow>
          if returncode = 0
          then \<lparr>sr_status = ScanClean, sr_details = Some (py ''No malware was reported by ClamAV.'')\<rparr>
          else if returncode = 1
          then \<lparr>sr_status = ScanInfected, sr_details = Some (py ''ClamAV reported an infected file.'')\<rparr>
          else \<lparr>sr_status = ScanError, sr_details = Some (py ''ClamAV returned an unexpected error.'')\<rparr>)"

text \<open>The two scanners; \<open>clamscan\<close> reads the file and ends somehow.\<close>

datatype file_scanner = UnavailableScanner str | ClamAVCommandScanner "bytes option \<Rightarrow> run_outcome"

definition scan :: "file_scanner \<Rightarrow> path \<Rightarrow> ('z os_scheme, scan_result) eff" where
  "scan scanner p =
     (case scanner of
        UnavailableScanner reason \<Rightarrow> ret \<lparr>sr_status = ScanUnavailable, sr_details = Some reason\<rparr>
      | ClamAVCommandScanner run \<Rightarrow> gets (\<lambda>s. clam_result (run (files s p))))"

definition create_file_scanner :: "bool \<Rightarrow> (bytes option \<Rightarrow> run_outcome) \<Rightarrow> file_scanner" where
  "create_file_scanner clamav_enabled run =
     (if \<not> clamav_enabled then UnavailableScanner (py ''Malware scanning is disabled.'')
      else ClamAVCommandScanner run)"

section \<open>The service\<close>

record upload_metadata =
  um_display_filename :: "str option"
  um_architecture :: architecture
  um_package_type :: package_type
  um_platform :: str
  um_edition :: "str option"
  um_visibility :: visibility
  um_source_url :: "str option"
  um_admin_note :: "str option"

definition initial_status :: "signature_validation \<Rightarrow> scanner_status \<Rightarrow> file_status" where
  "initial_status signature scanner =
     (if scanner = ScanInfected then FileRejected
      else if sv_assessment signature \<noteq> SigMatch then FileQuarantine
      else if scanner = ScanError then FileQuarantine
      else FileReady)"

definition required_text :: "str \<Rightarrow> nat \<Rightarrow> exn + str" where
  "required_text val max_length =
     rbind (normalize_optional_text (Some val) max_length) (\<lambda>normalized.
       case normalized of None \<Rightarrow> Inl ValueError | Some v \<Rightarrow> Inr v)"

record upload_fields =
  fd_display_filename :: str
  fd_platform :: str
  fd_edition :: "str option"
  fd_source_url :: "str option"
  fd_admin_note :: "str option"

definition normalize_upload_fields ::
  "unicode \<Rightarrow> (str \<Rightarrow> bool) \<Rightarrow> upload_settings \<Rightarrow> normalized_filename \<Rightarrow> upload_metadata \<Rightarrow> exn + upload_fields" where
  "normalize_upload_fields u netloc_ok cfg original metadata =
     validated (
       rbind (normalize_display_filename u (um_display_filename metadata) original
                (us_allowed_extensions cfg)) (\<lambda>display_filename.
       rbind (required_text (um_platform metadata) 100) (\<lambda>platform.
       rbind (normalize_optional_text (um_edition metadata) 180) (\<lambda>edition.
       rbind (normalize_http_url netloc_ok (um_source_url metadata) url_max_length) (\<lambda>source_url.
       rbind (normalize_optional_text (um_admin_note metadata) 4000) (\<lambda>admin_note.
       Inr \<lparr>fd_display_filename = display_filename, fd_platform = platform, fd_edition = edition,
            fd_source_url = source_url, fd_admin_note = admin_note\<rparr>))))))"

definition find_by_sha256 :: "unicode \<Rightarrow> str \<Rightarrow> nat option \<Rightarrow> release_file list svc" where
  "find_by_sha256 u sha256 exclude_file_id =
     query (\<lambda>d. sort_key rf_id (filter (\<lambda>f. rf_sha256 f = casefold u (strip sha256)
       \<and> exclude_file_id \<noteq> Some (rf_id f)) (db_files d)))"

definition add_file :: "release_file \<Rightarrow> release_file svc" where
  "add_file f =
     bind (gets (\<lambda>s. with_rf_id (next_id rf_id (db_files (w_db s))) f)) (\<lambda>row.
     bind (change (\<lambda>d. d\<lparr>db_files := row_add rf_id with_rf_id f (db_files d)\<rparr>)) (\<lambda>_.
     bind flush (\<lambda>_. ret row)))"

fun signature_assessment_value :: "signature_assessment \<Rightarrow> str" where
  "signature_assessment_value SigMatch = py ''match''"
| "signature_assessment_value SigMismatch = py ''mismatch''"
| "signature_assessment_value SigUnidentified = py ''unknown''"

definition detected_mime_of :: "signature_validation \<Rightarrow> str" where
  "detected_mime_of signature =
     (case sv_detected signature of None \<Rightarrow> octet_stream | Some d \<Rightarrow> det_mime_type d)"

text \<open>The row as it is added; the identifier is set by the insertion.\<close>

definition uploaded_row ::
  "nat \<Rightarrow> streamed_upload \<Rightarrow> signature_validation \<Rightarrow> scan_result \<Rightarrow> str option \<Rightarrow> upload_metadata \<Rightarrow>
   upload_fields \<Rightarrow> nat \<Rightarrow> datetime \<Rightarrow> release_file" where
  "uploaded_row release_id streamed signature scan_result scanner_details metadata flds public_uuid now =
     \<lparr>rf_id = 0, rf_public_uuid = public_uuid, rf_release_id = release_id,
      rf_original_filename = nf_value (pp_original (su_path_plan streamed)),
      rf_display_filename = fd_display_filename flds,
      rf_storage_filename = pp_storage_filename (su_path_plan streamed),
      rf_relative_storage_path = as_posix (pp_quarantine_relative_path (su_path_plan streamed)),
      rf_file_extension = nf_extension (pp_original (su_path_plan streamed)),
      rf_detected_mime_type = detected_mime_of signature,
      rf_file_size_bytes = su_size_bytes streamed, rf_sha256 = su_sha256 streamed,
      rf_architecture = um_architecture metadata, rf_package_type = um_package_type metadata,
      rf_platform = fd_platform flds, rf_edition = fd_edition flds, rf_download_count = 0,
      rf_status = initial_status signature (sr_status scan_result),
      rf_visibility = um_visibility metadata, rf_uploaded_at = now, rf_published_at = None,
      rf_disabled_at = None, rf_source_url = fd_source_url flds,
      rf_signature_status = SigNotChecked, rf_scanner_status = sr_status scan_result,
      rf_scanner_details = scanner_details, rf_admin_note = fd_admin_note flds\<rparr>"

definition persist_body ::
  "unicode \<Rightarrow> nat \<Rightarrow> streamed_upload \<Rightarrow> signature_validation \<Rightarrow> scan_result \<Rightarrow>
   (datetime \<Rightarrow> release_file) \<Rightarrow> audit_context option \<Rightarrow> release_file svc" where
  "persist_body u release_id streamed signature scan_result row audit =
     bind (release_with_graph release_id) (\<lambda>release.
     bind (raise_if (release = None) EntityNotFound) (\<lambda>_.
     bind (find_by_sha256 u (su_sha256 streamed) None) (\<lambda>duplicates.
     bind utc_now (\<lambda>now.
     bind (add_file (row now)) (\<lambda>release_file.
     bind (append_context_audit_event u audit FILE_UPLOADED (py ''release_file'')
       (entity_id (rf_id release_file))
       [(py ''release_id'', PInt (int release_id)),
        (py ''file_size_bytes'', PInt (su_size_bytes streamed)),
        (py ''file_extension'', PStr (rf_file_extension release_file)),
        (py ''signature_assessment'', PStr (signature_assessment_value (sv_assessment signature))),
        (py ''scanner_status'', PStr (scanner_status_value (sr_status scan_result))),
        (py ''duplicate_count'', PInt (int (length duplicates))),
        (py ''initial_status'', PStr (file_status_value (rf_status release_file)))]) (\<lambda>_.
     ret release_file))))))"

text \<open>\<open>uuid4().int\<close>; the column default draws it for the new row.\<close>

definition hex_number :: "str \<Rightarrow> nat" where
  "hex_number s = foldl (\<lambda>n c. n * 16 + (if is_digit c then c - 48 else c - 87)) 0 s"

definition fresh_uuid :: "('z os_scheme, nat) eff" where
  "fresh_uuid = bind fresh_uuid_hex (\<lambda>h. ret (hex_number h))"

definition persist_metadata ::
  "unicode \<Rightarrow> (str \<Rightarrow> bool) \<Rightarrow> upload_settings \<Rightarrow> nat \<Rightarrow> streamed_upload \<Rightarrow> signature_validation \<Rightarrow>
   scan_result \<Rightarrow> upload_metadata \<Rightarrow> audit_context option \<Rightarrow> release_file svc" where
  "persist_metadata u netloc_ok cfg release_id streamed signature scan_result metadata audit =
     bind (lift_result (normalize_upload_fields u netloc_ok cfg (pp_original (su_path_plan streamed))
             metadata)) (\<lambda>flds.
     bind (lift_result (normalize_optional_text (sr_details scan_result) 500)) (\<lambda>scanner_details.
     bind fresh_uuid (\<lambda>public_uuid.
     try_catch
       (transaction (persist_body u release_id streamed signature scan_result
          (uploaded_row release_id streamed signature scan_result scanner_details metadata flds
             public_uuid) audit))
       (\<lambda>e. if is_sqlalchemy_error e then throw StorageError else throw e))))"

text \<open>\<open>type(exc).__name__\<close>\<close>

fun exception_name :: "exn \<Rightarrow> str" where
  "exception_name EntityNotFound = py ''EntityNotFound''"
| "exception_name PermissionDenied = py ''PermissionDenied''"
| "exception_name EntityConflict = py ''EntityConflict''"
| "exception_name PayloadTooLarge = py ''PayloadTooLarge''"
| "exception_name ValidationError = py ''ValidationError''"
| "exception_name InvalidStateTransition = py ''InvalidStateTransition''"
| "exception_name FileValidationError = py ''FileValidationError''"
| "exception_name StorageError = py ''StorageError''"
| "exception_name DuplicateFileError = py ''DuplicateFileError''"
| "exception_name AuthenticationError = py ''AuthenticationError''"
| "exception_name (CSRFError _) = py ''CSRFError''"
| "exception_name ServiceUnavailable = py ''ServiceUnavailable''"
| "exception_name RateLimitError = py ''RateLimitError''"
| "exception_name ValueError = py ''ValueError''"
| "exception_name TypeError = py ''TypeError''"
| "exception_name KeyError = py ''KeyError''"
| "exception_name AttributeError = py ''AttributeError''"
| "exception_name RuntimeError = py ''RuntimeError''"
| "exception_name OSError = py ''OSError''"
| "exception_name FileNotFoundError = py ''FileNotFoundError''"
| "exception_name FileExistsError = py ''FileExistsError''"
| "exception_name SQLAlchemyError = py ''SQLAlchemyError''"
| "exception_name IntegrityError = py ''IntegrityError''"

definition record_upload_failure :: "unicode \<Rightarrow> nat \<Rightarrow> audit_context option \<Rightarrow> str \<Rightarrow> unit svc" where
  "record_upload_failure u release_id audit reason =
     (case audit of
        None \<Rightarrow> ret ()
      | Some c \<Rightarrow>
          try_catch
            (transaction (append_audit_event u FILE_UPLOAD_FAILED AuditFailure (Some (ctx_user_id c))
               (Some (py ''release'')) (Some (digits_of release_id)) (ctx_request_id c) (ctx_ip_hash c)
               [(py ''reason'', PStr reason)]))
            (\<lambda>_. ret ()))"

definition cleanup_paths :: "path list \<Rightarrow> ('z os_scheme, unit) eff" where
  "cleanup_paths candidates = for_each candidates safe_unlink"

text \<open>The two handlers of the service: clean up what the upload has put where by now, log the
  failure, and raise the application error or \<open>StorageError\<close>.\<close>

definition upload_failed ::
  "unicode \<Rightarrow> nat \<Rightarrow> audit_context option \<Rightarrow> path list \<Rightarrow> exn \<Rightarrow> 'a svc" where
  "upload_failed u release_id audit candidates exc =
     bind (cleanup_paths candidates) (\<lambda>_.
     bind (record_upload_failure u release_id audit (exception_name exc)) (\<lambda>_.
     if is_application_error exc then throw exc else throw StorageError))"

definition require_upload_release :: "nat \<Rightarrow> unit svc" where
  "require_upload_release release_id =
     read_session (bind (query (\<lambda>d. row_get rel_id release_id (db_releases d))) (\<lambda>release.
       raise_if (release = None) EntityNotFound))"

definition close_upload :: "('z os_scheme, unit) eff" where
  "close_upload = try_catch syscall (\<lambda>e. if is_os_error e then ret () else throw e)"

definition upload_release_file ::
  "unicode \<Rightarrow> (str \<Rightarrow> bool) \<Rightarrow> (nat \<Rightarrow> nat \<Rightarrow> nat) \<Rightarrow> (bytes \<Rightarrow> str) \<Rightarrow> upload_settings \<Rightarrow> storage_paths \<Rightarrow>
   file_scanner \<Rightarrow> nat \<Rightarrow> upload_file \<Rightarrow> upload_metadata \<Rightarrow> audit_context option \<Rightarrow> release_file svc" where
  "upload_release_file u netloc_ok wr sha cfg paths scanner release_id upload metadata audit =
     bind (require_upload_release release_id) (\<lambda>_.
     finally_do
       (bind (try_catch (stream_upload_to_temporary u wr sha cfg paths upload)
               (upload_failed u release_id audit [])) (\<lambda>streamed.
        let plan = su_path_plan streamed in
        bind (try_catch
               (bind (ret (validate_file_signature u (nf_extension (pp_original plan))
                            (su_signature_sample streamed))) (\<lambda>signature.
                bind (atomic_move (sp_temporary paths) (pp_temporary_relative_path plan)
                        (sp_quarantine paths) (pp_quarantine_relative_path plan)) (\<lambda>move_result.
                ret (signature, mv_destination move_result))))
               (upload_failed u release_id audit [pp_temporary_path plan])) (\<lambda>(signature, quarantine_path).
        try_catch
          (bind (scan scanner quarantine_path) (\<lambda>scan_result.
           persist_metadata u netloc_ok cfg release_id streamed signature scan_result metadata audit))
          (upload_failed u release_id audit [pp_temporary_path plan, quarantine_path]))))
       close_upload)"

end
