(* ===== verification/UploadSpecs.thy ===== *)
theory UploadSpecs
  imports Uploads AreaInvariant
begin

text \<open>
  Specifications of the upload: the copy loop writes exactly the bytes of the source or
  leaves a partial temporary file, which every failure path removes; the service either
  keeps one quarantined file with its row or leaves nothing behind.
\<close>

section \<open>Writing a new file\<close>

text \<open>\<open>writing s p m b t\<close>: from \<open>s\<close> on, only the new file \<open>p\<close> was created and holds \<open>b\<close>.\<close>

definition writing :: "'z os_scheme \<Rightarrow> path \<Rightarrow> nat \<Rightarrow> bytes \<Rightarrow> 'z os_scheme \<Rightarrow> bool" where
  "writing s p m b t \<longleftrightarrow> fs_frame s t \<and> os_uuid_next t = os_uuid_next s
     \<and> (\<exists>time. os_fs t = (os_fs s)(p \<mapsto> File b m time))"

lemma writing_tick [simp]: "writing s p m b (t\<lparr>os_tick := n\<rparr>) = writing s p m b t"
  by (simp add: writing_def)

lemma writing_again:
  "writing s p m b t \<Longrightarrow> writing s p m' b' (t\<lparr>os_fs := (os_fs t)(p \<mapsto> File b' m' time)\<rparr>)"
  by (auto simp: writing_def)

lemma writing_content: "writing s p m b t \<Longrightarrow> \<exists>time. os_fs t p = Some (File b m time)"
  by (auto simp: writing_def)

text \<open>Where a file may be created.\<close>

definition creatable :: "'z os_scheme \<Rightarrow> path \<Rightarrow> bool" where
  "creatable s p \<longleftrightarrow> os_fs s p = None \<and> (\<exists>k. os_fs s (butlast p) = Some (Dir k))"

lemma wp_sys_create:
  "wp (sys_create p m) (\<lambda>_ t. creatable s p \<and> writing s p m [] t)
     (\<lambda>e t. is_os_error e \<and> (looked s t \<and> \<not> (no_os_faults s \<and> creatable s p))) s"
  unfolding sys_create_def creatable_def
  by (auto simp: wp_simps writing_def no_os_faults_def split: option.splits node.splits)

text \<open>A kernel that always takes some of the bytes it is offered.\<close>

definition fair :: "(nat \<Rightarrow> nat \<Rightarrow> nat) \<Rightarrow> bool" where
  "fair wr \<longleftrightarrow> (\<forall>tick n. 0 < n \<longrightarrow> 0 < wr tick n)"

lemma writing_faults: "writing s p m b t \<Longrightarrow> no_os_faults t = no_os_faults s"
  by (auto simp: writing_def no_os_faults_frame)

lemma wp_sys_write:
  assumes "writing s0 p m b s"
  shows "wp (sys_write wr p view)
     (\<lambda>k t. \<exists>j. j \<le> length view \<and> k = int j \<and> writing s0 p m (b @ take j view) t
        \<and> (fair wr \<and> view \<noteq> [] \<longrightarrow> 0 < k))
     (\<lambda>e t. is_os_error e \<and> writing s0 p m b t \<and> \<not> no_os_faults s0) s"
proof -
  obtain time where f: "os_fs s p = Some (File b m time)" using writing_content [OF assms] ..
  have faulty: "os_fault s n \<Longrightarrow> \<not> no_os_faults s0" for n
    using writing_faults [OF assms] by (auto simp: no_os_faults_def)
  show ?thesis
    unfolding sys_write_def
    using assms writing_again [OF assms] f faulty
    by (auto simp: wp_simps Let_def writing_def fair_def intro!: exI [of _ "min (wr (os_tick s) (length view)) (length view)"])
qed

lemma wp_write_all:
  "writing s0 p m b s \<Longrightarrow> wp (write_all wr p view)
     (\<lambda>_ t. writing s0 p m (b @ view) t)
     (\<lambda>e t. is_os_error e \<and> (\<exists>b'. writing s0 p m b' t) \<and> \<not> (no_os_faults s0 \<and> fair wr)) s"
proof (induction wr p view arbitrary: b s rule: write_all.induct)
  case (1 wr p view)
  show ?case
  proof (cases "view = []")
    case True
    then show ?thesis using "1.prems" by (subst write_all.simps) (simp add: wp_simps)
  next
    case False
    have "wp (bind (sys_write wr p view) (\<lambda>written.
        if written \<le> 0 then throw OSError else write_all wr p (drop (nat written) view)))
      (\<lambda>_ t. writing s0 p m (b @ view) t)
      (\<lambda>e t. is_os_error e \<and> (\<exists>b'. writing s0 p m b' t) \<and> \<not> (no_os_faults s0 \<and> fair wr)) s"
    proof (rule wp_bind_spec [OF wp_sys_write [OF "1.prems"]], goal_cases)
      case (1 k t)
      then obtain j where j: "j \<le> length view" "k = int j" "writing s0 p m (b @ take j view) t"
        and pos: "fair wr \<Longrightarrow> 0 < k" using False by blast
      show ?case
      proof (cases "k \<le> 0")
        case True
        then show ?thesis using j pos by (auto simp: wp_simps)
      next
        case nz: False
        show ?thesis
          using "1.IH" [OF False nz j(3)] j nz by simp
      qed
    next
      case (2 e t)
      then show ?case by blast
    qed
    then show ?thesis using False by (subst write_all.simps) simp
  qed
qed

section \<open>The copy loop\<close>

definition hashed :: "streaming_sha256 \<Rightarrow> bytes \<Rightarrow> bool" where
  "hashed d b \<longleftrightarrow> consumed d = b \<and> bytes_processed d = int (length b)"

lemma hashed_update: "hashed d b \<Longrightarrow> hashed (sha256_update d chunk) (b @ chunk)"
  by (auto simp: hashed_def sha256_update_def)

lemma hashed_new: "hashed new_sha256 []"
  by (simp add: hashed_def new_sha256_def)

lemma sample_update:
  "(if length (take k b) < k then take k b @ take (k - length (take k b)) chunk else take k b)
   = take k (b @ chunk)"
  by (cases "length b < k") auto

lemma wp_copy_chunks:
  assumes "0 < n"
  shows "writing s0 p m b s \<Longrightarrow> hashed d b \<Longrightarrow> sample = take k b \<Longrightarrow>
   wp (copy_chunks wr p mx n k source d sample)
     (\<lambda>(d', sample') t. hashed d' (b @ source) \<and> sample' = take k (b @ source)
        \<and> writing s0 p m (b @ source) t \<and> (source = [] \<or> int (length (b @ source)) \<le> mx))
     (\<lambda>e t. (is_os_error e \<and> \<not> (no_os_faults s0 \<and> fair wr)
          \<or> e = PayloadTooLarge \<and> mx < int (length (b @ source)))
        \<and> (\<exists>b'. writing s0 p m b' t)) s"
  using assms
proof (induction wr p mx n k source d sample arbitrary: b s rule: copy_chunks.induct)
  case (1 wr p mx n k source d sample)
  let ?chunk = "take n source"
  show ?case
  proof (cases "?chunk = []")
    case True
    then have "source = []" using "1.prems"(4) by simp
    then show ?thesis using "1.prems" writing_faults [OF "1.prems"(1)]
      by (subst copy_chunks.simps) (auto simp: wp_simps no_os_faults_def)
  next
    case False
    have len: "length (b @ ?chunk) \<le> length (b @ source)" by simp
    have step: "wp (bind (raise_if (bytes_processed d + int (length ?chunk) > mx) PayloadTooLarge) (\<lambda>_.
         bind (write_all wr p ?chunk) (\<lambda>_.
         copy_chunks wr p mx n k (drop n source) (sha256_update d ?chunk)
           (if length sample < k then sample @ take (k - length sample) ?chunk else sample))))
       (\<lambda>(d', sample') t. hashed d' (b @ source) \<and> sample' = take k (b @ source)
          \<and> writing s0 p m (b @ source) t \<and> (source = [] \<or> int (length (b @ source)) \<le> mx))
       (\<lambda>e t. (is_os_error e \<and> \<not> (no_os_faults s0 \<and> fair wr)
            \<or> e = PayloadTooLarge \<and> mx < int (length (b @ source)))
          \<and> (\<exists>b'. writing s0 p m b' t)) t"
      if t: "writing s0 p m b t" for t
    proof (rule wp_bind_raise_if, goal_cases)
      case 1
      then have "mx < int (length (b @ ?chunk))" using "1.prems"(2) by (simp add: hashed_def)
      then have "mx < int (length (b @ source))" using len by linarith
      then show ?case using t by blast
    next
      case small: 2
      show ?case
      proof (rule wp_bind_spec [OF wp_write_all [OF t]], goal_cases)
        case (1 x v)
        have bs: "(b @ ?chunk) @ drop n source = b @ source" by simp
        have fits: "int (length (b @ ?chunk)) \<le> mx" using small "1.prems"(2) by (simp add: hashed_def)
        have smp: "(if length sample < k then sample @ take (k - length sample) ?chunk else sample)
            = take k (b @ ?chunk)"
          unfolding "1.prems"(3) by (rule sample_update)
        show ?case
          by (rule wp_mono [OF "1.IH" [OF refl False 1 hashed_update [OF "1.prems"(2)] smp "1.prems"(4),
                unfolded bs]]) (use fits in \<open>auto simp del: append_assoc\<close>)
      next
        case (2 e v)
        then show ?case by blast
      qed
    qed
    show ?thesis
      using False step "1.prems"(1) writing_faults [OF "1.prems"(1)]
      by (subst copy_chunks.simps) (auto simp: wp_bind [of syscall] wp_syscall Let_def no_os_faults_def)
  qed
qed


section \<open>The temporary file\<close>

text \<open>How a copy fails: the system, the size, or nothing to copy.\<close>

definition copy_error :: "bool \<Rightarrow> bytes \<Rightarrow> int \<Rightarrow> exn \<Rightarrow> bool" where
  "copy_error faulty source mx e \<longleftrightarrow> e \<in> {StorageError, OSError} \<and> faulty
     \<or> e = FileValidationError \<and> source = [] \<or> e = PayloadTooLarge \<and> mx < int (length source)"

lemma wp_finish_copy:
  assumes d: "hashed d source" and v: "writing s p m source v"
  shows "wp (bind (raise_if (bytes_processed d = 0) FileValidationError) (\<lambda>_.
          bind syscall (\<lambda>_. bind (sys_chmod p storage_file_mode) (\<lambda>_. ret (d, sample)))))
     (\<lambda>r t. r = (d, sample) \<and> writing s p storage_file_mode source t \<and> source \<noteq> [])
     (\<lambda>e t. (is_os_error e \<and> \<not> no_os_faults s \<or> e = FileValidationError \<and> source = [])
        \<and> (\<exists>m b. writing s p m b t)) v"
proof -
  have again: "writing s p storage_file_mode source
      (v\<lparr>os_tick := j, os_fs := (os_fs v)(p \<mapsto> File source storage_file_mode time)\<rparr>)" for j time
    using writing_again [OF writing_tick [THEN iffD2, OF v], of storage_file_mode source j time] by simp
  have faulty: "os_fault v n \<Longrightarrow> \<not> no_os_faults s" for n
    using writing_faults [OF v] by (auto simp: no_os_faults_def)
  have bp: "bytes_processed d = int (length source)" using d by (simp add: hashed_def)
  show ?thesis
    using v writing_content [OF v] faulty
    by (auto simp: wp_simps bp sys_chmod_def intro!: again)
qed

lemma wp_copy_stream:
  assumes n: "0 < n"
  shows "wp (copy_stream wr sha source p mx n k)
     (\<lambda>(size, digest, sample) t. creatable s p \<and> writing s p storage_file_mode source t
        \<and> size = int (length source) \<and> digest = sha source \<and> sample = take k source
        \<and> source \<noteq> [] \<and> int (length source) \<le> mx)
     (\<lambda>e t. copy_error (\<not> (no_os_faults s \<and> fair wr \<and> creatable s p)) source mx e
        \<and> (looked s t \<or> creatable s p \<and> (\<exists>m b. writing s p m b t))) s"
  unfolding copy_stream_def
proof (rule wp_bind_spec [OF wp_os_error_asI [OF wp_sys_create]], goal_cases)
  case (1 x t)
  then have c: "creatable s p" and w: "writing s p 384 [] t" by auto
  define bad where "bad \<longleftrightarrow> \<not> (no_os_faults s \<and> fair wr)"
  let ?Q = "\<lambda>(d, sample) t. hashed d source \<and> sample = take k source \<and> writing s p storage_file_mode source t
        \<and> source \<noteq> [] \<and> int (length source) \<le> mx"
  let ?E = "\<lambda>e t. (is_os_error e \<and> bad \<or> e = FileValidationError \<and> source = []
          \<or> e = PayloadTooLarge \<and> mx < int (length source)) \<and> (\<exists>m b. writing s p m b t)"
  have body: "wp (bind (copy_chunks wr p mx n k source new_sha256 []) (\<lambda>(digest, sample).
          bind (raise_if (bytes_processed digest = 0) FileValidationError) (\<lambda>_.
          bind syscall (\<lambda>_. bind (sys_chmod p storage_file_mode) (\<lambda>_. ret (digest, sample)))))) ?Q ?E t"
  proof (rule wp_bind_spec [OF wp_copy_chunks [OF n w hashed_new], where k1 = k], goal_cases)
    case (2 r v)
    then obtain d where r: "r = (d, take k source)" and d: "hashed d source"
      and v: "writing s p 384 source v" and small: "source = [] \<or> int (length source) \<le> mx"
      by (cases r) auto
    show ?case
      unfolding r prod.case
      by (rule wp_mono [OF wp_finish_copy [OF d v]]) (use d small in \<open>auto simp: bad_def\<close>)
  qed (auto simp: bad_def)
  have faulty: "writing s p m b v \<Longrightarrow> os_fault v i \<Longrightarrow> bad" for m b v i
    using writing_faults [of s p m b v] by (auto simp: bad_def no_os_faults_def)
  have "wp (finally_do (os_error_as StorageError
       (bind (copy_chunks wr p mx n k source new_sha256 []) (\<lambda>(digest, sample).
          bind (raise_if (bytes_processed digest = 0) FileValidationError) (\<lambda>_.
          bind syscall (\<lambda>_. bind (sys_chmod p storage_file_mode) (\<lambda>_. ret (digest, sample))))))) syscall)
     ?Q (\<lambda>e t. copy_error bad source mx e \<and> (\<exists>m b. writing s p m b t)) t"
    unfolding wp_finally_do wp_os_error_as
    by (rule wp_mono [OF body]) (auto simp: wp_syscall copy_error_def dest: faulty)
  then show ?case
    by (rule wp_bind_spec) (use c in \<open>auto simp: wp_simps hashed_def hexdigest_def bad_def\<close>)
next
  case (2 e t)
  then show ?case by (auto simp: copy_error_def)
qed

lemma tree_grows_create: "f p = None \<Longrightarrow> tree_grows f (f(p \<mapsto> File b m time))"
  by (auto simp: tree_grows_def is_symlink_def)

lemma writing_step:
  assumes "writing s p m b t" and "creatable s p" and "p \<noteq> []"
  shows "store_step s t"
  using assms tree_grows_create [of "os_fs s" p] tree_ok_create [of "os_fs s" p]
  by (auto simp: writing_def creatable_def store_step_def)

text \<open>Removing what may be there.\<close>

lemma remove_any_step:
  assumes "os_fs s p = Some n" and "\<forall>m. n \<noteq> Dir m" and "os_fs t = (os_fs s)(p := None)" and "fs_frame s t"
  shows "store_step s t"
proof -
  have "tree_grows (os_fs s) (os_fs t)" using assms by (auto simp: tree_grows_def is_symlink_def)
  moreover have "tree_ok (os_fs t)" if ok: "tree_ok (os_fs s)"
    unfolding tree_ok_def
  proof (intro allI impI)
    fix q c assume "os_fs t (q @ [c]) \<noteq> None"
    then have "os_fs s (q @ [c]) \<noteq> None" using assms(3) by (auto split: if_splits)
    then obtain m where "os_fs s q = Some (Dir m)" using ok unfolding tree_ok_def by blast
    then show "\<exists>m. os_fs t q = Some (Dir m)" using assms by auto
  qed
  ultimately show ?thesis using assms(4) by (simp add: store_step_def)
qed

lemma wp_safe_unlink:
  "wp (safe_unlink p)
     (\<lambda>_ t. store_step s t \<and> os_uuid_next t = os_uuid_next s
        \<and> (os_fs t = (os_fs s)(p := None)
           \<or> os_fs t = os_fs s \<and> (no_os_faults s \<longrightarrow> (\<exists>m. os_fs s p = Some (Dir m)))))
     (\<lambda>_ _. False) s"
proof -
  let ?step = "\<lambda>t. store_step s t \<and> os_uuid_next t = os_uuid_next s
        \<and> (os_fs t = (os_fs s)(p := None)
           \<or> os_fs t = os_fs s \<and> (no_os_faults s \<longrightarrow> (\<exists>m. os_fs s p = Some (Dir m))))"
  have "wp (sys_unlink p) (\<lambda>_. ?step)
     (\<lambda>e t. is_os_error e \<and> looked s t
        \<and> (no_os_faults s \<longrightarrow> os_fs s p = None \<or> (\<exists>m. os_fs s p = Some (Dir m)))) s"
  proof (rule wp_mono [OF wp_sys_unlink], goal_cases)
    case (1 x t)
    then show ?case using remove_any_step by blast
  qed simp
  then show ?thesis
    unfolding safe_unlink_def unlink_missing_ok_def wp_try_catch
  proof (rule wp_mono, goal_cases)
    case (2 e t)
    then have "store_step s t" "os_fs t = os_fs s" "os_uuid_next t = os_uuid_next s"
      by (auto dest: looked_store_step looked_eqs(1,4))
    then have "?step t" using 2 by auto
    then show ?case using 2 by (simp add: wp_simps)
  qed
qed

section \<open>The plan\<close>

definition planned ::
  "unicode \<Rightarrow> upload_settings \<Rightarrow> storage_paths \<Rightarrow> 'z os_scheme \<Rightarrow> str \<Rightarrow> upload_path_plan \<Rightarrow> bool" where
  "planned u cfg paths s filename plan \<longleftrightarrow>
     normalize_original_filename u filename (us_allowed_extensions cfg) = Inr (pp_original plan)
   \<and> pp_storage_filename plan
       = os_uuid s (os_uuid_next s) @ casefold u (strip (nf_extension (pp_original plan)))
   \<and> pp_temporary_relative_path plan = os_uuid s (Suc (os_uuid_next s)) @ upload_temporary_suffix
   \<and> sharded_relative_path (pp_storage_filename plan) = Inr (pp_quarantine_relative_path plan)
   \<and> (\<exists>tp. safe_relative (pp_temporary_relative_path plan) tp
        \<and> pp_temporary_path plan = sp_temporary paths @ tp)"

text \<open>Only counters changed.\<close>

definition idle :: "'z os_scheme \<Rightarrow> 'z os_scheme \<Rightarrow> bool" where
  "idle s t \<longleftrightarrow> fs_frame s t \<and> os_fs t = os_fs s"

lemma idle_simps [simp, intro]: "idle s s" "idle s (t\<lparr>os_tick := n\<rparr>) = idle s t"
  "idle s (t\<lparr>os_uuid_next := k\<rparr>) = idle s t"
  by (simp_all add: idle_def)

lemma idle_looked: "idle s t \<Longrightarrow> looked t v \<Longrightarrow> idle s v"
  using fs_frame_trans [of s t v] by (auto simp: idle_def looked_eqs)

lemma idle_step: "idle s t \<Longrightarrow> store_step s t"
  by (simp add: idle_def store_step_def)

lemma idle_root: "idle s t \<Longrightarrow> store_ok paths s \<Longrightarrow> store_ok paths t"
  by (simp add: idle_def store_ok_def)

lemma wp_idle_resolve:
  assumes "idle s t" and "root_ok (os_fs s) r"
  shows "wp (safe_resolve r raw False False)
     (\<lambda>q v. idle s v \<and> (\<exists>parts. safe_relative raw parts \<and> q = r @ parts)) (\<lambda>_. idle s) t"
proof -
  have "root_ok (os_fs t) r" using assms by (simp add: idle_def)
  from wp_safe_resolve [OF this, of raw False False] show ?thesis
    by (rule wp_mono) (use idle_looked [OF assms(1)] in auto)
qed

lemma wp_plan_upload_paths:
  assumes ok: "store_ok paths s"
  shows "wp (plan_upload_paths u cfg paths filename)
     (\<lambda>plan t. idle s t \<and> planned u cfg paths s filename plan) (\<lambda>_. idle s) s"
  unfolding plan_upload_paths_def
proof (rule wp_bind_lift, goal_cases)
  case (1 original)
  let ?i = "os_uuid s (os_uuid_next s)" and ?j = "os_uuid s (Suc (os_uuid_next s))"
  let ?storage = "?i @ casefold u (strip (nf_extension original))"
  let ?tmp = "?j @ upload_temporary_suffix"
  let ?s2 = "s\<lparr>os_uuid_next := Suc (Suc (os_uuid_next s))\<rparr>"
  note roots = store_okD(2) [OF ok] store_okD(3) [OF ok, of AreaQuarantine, unfolded area_root.simps]
    store_okD(3) [OF ok, of AreaSoftware, unfolded area_root.simps]
  have "wp (bind (lift_result (sharded_relative_path ?storage)) (\<lambda>stored_relative.
     bind (safe_resolve (sp_temporary paths) ?tmp False False) (\<lambda>temporary_path.
     bind (safe_resolve (sp_quarantine paths) stored_relative False False) (\<lambda>quarantine_path.
     bind (safe_resolve (sp_software paths) stored_relative False False) (\<lambda>permanent_path.
     ret \<lparr>pp_original = original, pp_storage_filename = ?storage,
          pp_temporary_relative_path = ?tmp, pp_quarantine_relative_path = stored_relative,
          pp_permanent_relative_path = stored_relative, pp_temporary_path = temporary_path,
          pp_quarantine_path = quarantine_path, pp_permanent_path = permanent_path\<rparr>)))))
     (\<lambda>plan t. idle s t \<and> planned u cfg paths s filename plan) (\<lambda>_. idle s) ?s2"
  proof (rule wp_bind_lift, goal_cases)
    case (1 stored)
    have i2: "idle s ?s2" by simp
    show ?case
    proof (rule wp_bind_spec [OF wp_idle_resolve [OF i2 roots(1)]], goal_cases)
      case (1 tp t)
      show ?case
      proof (rule wp_bind_spec [OF wp_idle_resolve [OF conjunct1 [OF 1] roots(2)]],
          goal_cases)
        case (1 qp v)
        show ?case
          by (rule wp_bind_spec [OF wp_idle_resolve [OF conjunct1 [OF 1] roots(3)]])
            (use \<open>sharded_relative_path ?storage = Inr stored\<close> \<open>idle s t \<and> _\<close>
              \<open>normalize_original_filename u filename (us_allowed_extensions cfg) = Inr original\<close>
              in \<open>auto simp: wp_simps planned_def\<close>)
      qed
    qed
  qed simp
  then show ?case
    by (simp add: generate_storage_filename_def generate_temporary_filename_def wp_simps Let_def)
qed simp

text \<open>The drawn temporary name is not in use: identifiers are not drawn twice.\<close>

definition fresh_temporary :: "storage_paths \<Rightarrow> 'z os_scheme \<Rightarrow> bool" where
  "fresh_temporary paths s \<longleftrightarrow>
     (\<forall>p. safe_relative (os_uuid s (Suc (os_uuid_next s)) @ upload_temporary_suffix) p
        \<longrightarrow> os_fs s (sp_temporary paths @ p) = None)"

definition uploaded_name :: "upload_file \<Rightarrow> str" where
  "uploaded_name upload = (case uf_filename upload of None \<Rightarrow> [] | Some f \<Rightarrow> f)"

definition streamed_to ::
  "unicode \<Rightarrow> (bytes \<Rightarrow> str) \<Rightarrow> upload_settings \<Rightarrow> storage_paths \<Rightarrow> 'z os_scheme \<Rightarrow> upload_file \<Rightarrow>
   streamed_upload \<Rightarrow> 'z os_scheme \<Rightarrow> bool" where
  "streamed_to u sha cfg paths s upload su t \<longleftrightarrow>
     (let plan = su_path_plan su; content = uf_content upload in
        planned u cfg paths s (uploaded_name upload) plan
      \<and> su_size_bytes su = int (length content) \<and> su_sha256 su = sha content
      \<and> su_signature_sample su = take (us_magic_sample_size cfg) content
      \<and> content \<noteq> [] \<and> int (length content) \<le> us_max_upload_size cfg
      \<and> creatable s (pp_temporary_path plan) \<and> store_step s t
      \<and> (\<exists>time. os_fs t = (os_fs s)(pp_temporary_path plan \<mapsto> File content storage_file_mode time)))"


lemma wp_ensure_free_space:
  "wp (ensure_free_space p req reserve) (\<lambda>_ t. looked s t) (\<lambda>e t. looked s t) s"
  unfolding ensure_free_space_def get_disk_space_def
  by (auto simp: wp_simps)

lemma creatable_nonempty: "safe_relative raw tp \<Longrightarrow> r @ tp \<noteq> []"
  using safe_relativeD(2) by auto

text \<open>A failed copy is removed: with a working operating system nothing is left.\<close>

lemma wp_discard_copy:
  assumes i: "idle s0 s" and c: "looked s t \<or> creatable s p \<and> (\<exists>m b. writing s p m b t)"
    and ne: "p \<noteq> []"
  shows "wp (safe_unlink p)
     (\<lambda>_ v. store_step s0 v \<and> (no_os_faults s0 \<and> os_fs s0 p = None \<longrightarrow> os_fs v = os_fs s0))
     (\<lambda>_ _. False) t"
proof -
  have st: "store_step s t" using c looked_store_step writing_step ne by blast
  then have st0: "store_step s0 t" using idle_step [OF i] store_step_trans by blast
  have nf: "no_os_faults t = no_os_faults s0"
    using st0 by (simp add: store_step_def no_os_faults_frame)
  have fs: "os_fs s = os_fs s0" using i by (simp add: idle_def)
  have undone: "(os_fs t)(p := None) = os_fs s0 \<and> (\<forall>m. os_fs t p \<noteq> Some (Dir m))" if "os_fs s0 p = None"
    using c
  proof
    assume "looked s t"
    then show ?thesis using that fs by (auto simp: looked_eqs fun_upd_idem)
  next
    assume "creatable s p \<and> (\<exists>m b. writing s p m b t)"
    then show ?thesis using that fs by (auto simp: writing_def fun_upd_idem)
  qed
  show ?thesis
    by (rule wp_mono [OF wp_safe_unlink]) (use st0 store_step_trans nf undone in auto)
qed

definition copied ::
  "(bytes \<Rightarrow> str) \<Rightarrow> upload_settings \<Rightarrow> bytes \<Rightarrow> path \<Rightarrow> 'z os_scheme \<Rightarrow> int \<times> str \<times> bytes \<Rightarrow> 'z os_scheme \<Rightarrow> bool" where
  "copied sha cfg content p s r t \<longleftrightarrow> r = (int (length content), sha content, take (us_magic_sample_size cfg) content)
     \<and> content \<noteq> [] \<and> int (length content) \<le> us_max_upload_size cfg
     \<and> creatable s p \<and> store_step s t
     \<and> (\<exists>time. os_fs t = (os_fs s)(p \<mapsto> File content storage_file_mode time))"

lemma wp_copy_or_discard:
  assumes i: "idle s v" and n: "0 < us_upload_chunk_size cfg" and ne: "p \<noteq> []"
  shows "wp (try_catch (bind syscall (\<lambda>_.
             copy_stream wr sha content p (us_max_upload_size cfg)
               (us_upload_chunk_size cfg) (us_magic_sample_size cfg)))
            (\<lambda>e. bind (safe_unlink p) (\<lambda>_.
               if e \<in> {FileValidationError, PayloadTooLarge, StorageError} then throw e
               else throw StorageError)))
     (copied sha cfg content p s)
     (\<lambda>e w. store_step s w \<and> (no_os_faults s \<and> os_fs s p = None \<longrightarrow> os_fs w = os_fs s)) v"
proof -
  let ?v = "v\<lparr>os_tick := Suc (os_tick v)\<rparr>"
  have i': "idle s ?v" using i by simp
  have fs: "os_fs v = os_fs s" using i by (simp add: idle_def)
  have made: "copied sha cfg content p s (sz, digest, sample) w"
    if "creatable ?v p \<and> writing ?v p storage_file_mode content w
        \<and> sz = int (length content) \<and> digest = sha content
        \<and> sample = take (us_magic_sample_size cfg) content
        \<and> content \<noteq> [] \<and> int (length content) \<le> us_max_upload_size cfg"
    for sz digest sample w
  proof -
    have "store_step ?v w" using that writing_step ne by blast
    then have "store_step s w" using idle_step [OF i'] store_step_trans by blast
    then show ?thesis using that fs by (auto simp: copied_def writing_def creatable_def)
  qed
  have cp: "wp (bind syscall (\<lambda>_. copy_stream wr sha content p (us_max_upload_size cfg)
        (us_upload_chunk_size cfg) (us_magic_sample_size cfg)))
     (copied sha cfg content p s)
     (\<lambda>e w. looked ?v w \<or> creatable ?v p \<and> (\<exists>m b. writing ?v p m b w)) v"
  proof -
    have "wp (copy_stream wr sha content p (us_max_upload_size cfg)
        (us_upload_chunk_size cfg) (us_magic_sample_size cfg))
       (copied sha cfg content p s)
       (\<lambda>e w. looked ?v w \<or> creatable ?v p \<and> (\<exists>m b. writing ?v p m b w)) ?v"
    proof (rule wp_mono [OF wp_copy_stream [OF n]], goal_cases)
      case (1 r w)
      then show ?case using made by (cases r) auto
    next
      case (2 e w)
      then show ?case by blast
    qed
    then show ?thesis by (simp add: wp_bind wp_syscall)
  qed
  show ?thesis
    by (rule wp_try_spec [OF cp], assumption, rule wp_bind_spec [OF wp_discard_copy [OF i' _ ne]], assumption)
      (simp_all add: wp_simps)
qed

lemma wp_stream_upload_to_temporary:
  assumes ok: "store_ok paths s" and n: "0 < us_upload_chunk_size cfg"
  shows "wp (stream_upload_to_temporary u wr sha cfg paths upload)
     (\<lambda>su t. streamed_to u sha cfg paths s upload su t)
     (\<lambda>e t. store_step s t \<and> (no_os_faults s \<and> fresh_temporary paths s \<longrightarrow> os_fs t = os_fs s)) s"
  unfolding stream_upload_to_temporary_def uploaded_name_def [symmetric]
proof (rule wp_bind_spec [OF wp_plan_upload_paths [OF ok]], goal_cases)
  case (1 plan t)
  then have it: "idle s t" and pl: "planned u cfg paths s (uploaded_name upload) plan" by simp_all
  let ?p = "pp_temporary_path plan"
  obtain tp where tp: "safe_relative (pp_temporary_relative_path plan) tp" "?p = sp_temporary paths @ tp"
    and rel: "pp_temporary_relative_path plan = os_uuid s (Suc (os_uuid_next s)) @ upload_temporary_suffix"
    using pl by (auto simp: planned_def)
  have ne: "?p \<noteq> []" using creatable_nonempty [OF tp(1)] tp(2) by simp
  have fresh: "fresh_temporary paths s \<Longrightarrow> os_fs s ?p = None"
    using tp rel by (auto simp: fresh_temporary_def)
  have idle_ok: "store_step s v \<and> (no_os_faults s \<and> fresh_temporary paths s \<longrightarrow> os_fs v = os_fs s)"
    if "idle s v" for v using that idle_step [OF that] by (simp add: idle_def)
  have tail: "wp (bind (try_catch (bind syscall (\<lambda>_.
             copy_stream wr sha (uf_content upload) ?p (us_max_upload_size cfg)
               (us_upload_chunk_size cfg) (us_magic_sample_size cfg)))
            (\<lambda>e. bind (safe_unlink ?p) (\<lambda>_.
               if e \<in> {FileValidationError, PayloadTooLarge, StorageError} then throw e
               else throw StorageError))) (\<lambda>(size_bytes, sha256, sample).
     ret \<lparr>su_path_plan = plan, su_size_bytes = size_bytes, su_sha256 = sha256,
          su_signature_sample = sample, su_client_content_type = uf_content_type upload\<rparr>))
     (\<lambda>su t. streamed_to u sha cfg paths s upload su t)
     (\<lambda>e t. store_step s t \<and> (no_os_faults s \<and> fresh_temporary paths s \<longrightarrow> os_fs t = os_fs s)) v"
    if v: "idle s v" for v
    by (rule wp_bind_spec [OF wp_copy_or_discard [OF v n ne]])
      (use pl fresh in \<open>auto simp: copied_def wp_simps streamed_to_def Let_def\<close>)
  show ?case
    by (rule wp_bind_raise_if, use idle_ok [OF it] in blast,
        rule wp_bind_spec [OF wp_ensure_free_space])
      (use tail idle_ok idle_looked [OF it] in blast)+
next
  case (2 e t)
  then show ?case using idle_step by (auto simp: idle_def)
qed

end
