(* ===== verification/UploadProperties.thy ===== *)
theory UploadProperties
  imports UploadSpecs Demo
begin

text \<open>
  The upload service as a whole: what each of its steps does to the disk and to the tables,
  the two outcomes of an upload, and the properties that follow.
\<close>

section \<open>Failure handling\<close>

definition failure_logged :: "unicode \<Rightarrow> audit_context option \<Rightarrow> database \<Rightarrow> database \<Rightarrow> bool" where
  "failure_logged u audit d d' \<longleftrightarrow> d' = d \<or> (\<exists>c a. audit = Some c
     \<and> d' = d\<lparr>db_audits := db_audits d @ [a]\<rparr> \<and> aud_action a = FILE_UPLOAD_FAILED
     \<and> aud_result a = AuditFailure \<and> aud_user_id a = Some (ctx_user_id c)
     \<and> clean_metadata u (aud_safe_metadata a) \<and> db_constraints d')"

lemma wp_record_upload_failure:
  "wp (record_upload_failure u rid audit reason)
     (\<lambda>_ t. db_only s t \<and> (\<exists>d. drifted s (w_db s) d \<and> failure_logged u audit d (w_db t)))
     (\<lambda>_ _. False) s"
proof (cases audit)
  case None
  then show ?thesis by (auto simp: record_upload_failure_def wp_simps failure_logged_def)
next
  case (Some c)
  let ?logged = "\<lambda>_ d d'. \<exists>a. d' = d\<lparr>db_audits := db_audits d @ [a]\<rparr> \<and> aud_action a = FILE_UPLOAD_FAILED
     \<and> aud_result a = AuditFailure \<and> aud_user_id a = Some (ctx_user_id c)
     \<and> clean_metadata u (aud_safe_metadata a)"
  have "wp (transaction (append_audit_event u FILE_UPLOAD_FAILED AuditFailure (Some (ctx_user_id c))
               (Some (py ''release'')) (Some (digits_of rid)) (ctx_request_id c) (ctx_ip_hash c)
               [(py ''reason'', PStr reason)]))
     (\<lambda>x t. db_only s t \<and> (\<exists>d. drifted s (w_db s) d \<and> ?logged x d (w_db t)) \<and> db_constraints (w_db t))
     (\<lambda>e t. db_only s t \<and> drifted s (w_db s) (w_db t) \<and> True) s"
    by (rule wp_transaction, rule wp_mono [OF wp_append_audit_event]) auto
  then show ?thesis
    unfolding record_upload_failure_def Some option.case wp_try_catch
    by (rule wp_mono) (auto simp: wp_simps failure_logged_def Some)
qed

lemma files_without: "files t = (files s)(p := None)" if "os_fs t = (os_fs s)(p := None)"
  using that by (auto simp: files_def file_at_def)

lemma clear_entry_same: "os_fs t = os_fs s \<Longrightarrow> clear_entry t q = clear_entry s q"
  by (simp add: clear_entry_def files_def)

lemma clear_entry_removed: "os_fs t = (os_fs s)(p := None) \<Longrightarrow> clear_entry s q \<Longrightarrow> clear_entry t q"
  by (auto simp: clear_entry_def files_def file_at_def)

text \<open>After the clean-up nothing is left under the candidates.\<close>

definition without :: "path list \<Rightarrow> (path \<Rightarrow> bytes option) \<Rightarrow> path \<Rightarrow> bytes option" where
  "without cs F = (\<lambda>q. if q \<in> set cs then None else F q)"

lemma wp_cleanup_paths:
  "wp (cleanup_paths cs)
     (\<lambda>_ t. store_step s t
        \<and> (no_os_faults s \<and> list_all (clear_entry s) cs \<longrightarrow> files t = without cs (files s)))
     (\<lambda>_ _. False) s"
proof (induction cs arbitrary: s)
  case Nil
  then show ?case by (simp add: cleanup_paths_def wp_simps without_def)
next
  case (Cons p cs)
  show ?case
    unfolding cleanup_paths_def for_each.simps
    unfolding cleanup_paths_def [symmetric]
  proof (rule wp_bind_spec [OF wp_safe_unlink], goal_cases)
    case (1 x t)
    then have st: "store_step s t" by simp
    then have nf: "no_os_faults t = no_os_faults s"
      by (simp add: store_step_def no_os_faults_frame)
    show ?case
    proof (rule wp_mono [OF Cons.IH], goal_cases)
      case (1 y v)
      have "files v = without (p # cs) (files s)"
        if c: "no_os_faults s" "list_all (clear_entry s) (p # cs)"
      proof -
        have "os_fs t = (os_fs s)(p := None)"
          using \<open>store_step s t \<and> _\<close> c by (auto simp: clear_entry_def files_def file_at_def)
        then have "files t = (files s)(p := None)" "list_all (clear_entry t) cs"
          using c(2) files_without [of t s p] clear_entry_removed [of t s p] by (auto simp: list_all_iff)
        then show ?thesis using 1 nf c by (auto simp: without_def)
      qed
      then show ?case using 1 st store_step_trans by blast
    qed simp
  qed simp
qed

definition undone_to ::
  "unicode \<Rightarrow> audit_context option \<Rightarrow> storage_paths \<Rightarrow> path list \<Rightarrow> world \<Rightarrow> world \<Rightarrow> bool" where
  "undone_to u audit paths cs s t \<longleftrightarrow> steady paths (os_fault s) (w_env s) t
     \<and> (no_os_faults s \<and> list_all (clear_entry s) cs \<longrightarrow> files t = without cs (files s))
     \<and> (\<exists>d. drifted s (w_db s) d \<and> failure_logged u audit d (w_db t))"

lemma wp_upload_failed:
  assumes ok: "store_ok paths s"
  shows "wp (upload_failed u rid audit cs e :: 'a svc) Q
     (\<lambda>x t. is_application_error x \<and> undone_to u audit paths cs s t) s"
  unfolding upload_failed_def
proof (rule wp_bind_spec [OF wp_cleanup_paths], goal_cases)
  case (1 x t)
  have start: "steady paths (os_fault s) (w_env s) s" using ok by (simp add: steady_def)
  then have st: "steady paths (os_fault s) (w_env s) t" using 1 steady_store_step by blast
  have db: "w_db t = w_db s" "w_env t = w_env s" using 1 store_step_db by blast+
  show ?case
  proof (rule wp_bind_spec [OF wp_record_upload_failure], goal_cases)
    case (1 y v)
    then obtain d where "drifted s (w_db s) d" "failure_logged u audit d (w_db v)"
      using db drifted_env by metis
    moreover have "steady paths (os_fault s) (w_env s) v" using st 1 steady_calm calm_db_only by blast
    moreover have "files v = files t" using 1 db_onlyD(2) by blast
    ultimately have "undone_to u audit paths cs s v"
      using \<open>store_step s t \<and> _\<close> by (auto simp: undone_to_def)
    then show ?case by (simp add: wp_simps)
  qed simp
qed simp

section \<open>The row\<close>

definition persisted ::
  "unicode \<Rightarrow> audit_context option \<Rightarrow> nat \<Rightarrow> (datetime \<Rightarrow> release_file) \<Rightarrow> release_file \<Rightarrow>
   database \<Rightarrow> database \<Rightarrow> bool" where
  "persisted u audit rid row f d d' \<longleftrightarrow>
     (\<exists>r w. row_get rel_id rid (db_releases d) = Some r
        \<and> row_get sw_id (rel_software_id r) (db_softwares d) = Some w)
   \<and> (\<exists>now. f = with_rf_id (next_id rf_id (db_files d)) (row now))
   \<and> audited u audit FILE_UPLOADED (d\<lparr>db_files := db_files d @ [f]\<rparr>) d'"

lemma wp_ret_fun: "wp (ret x) Q E = Q x"
  by (rule ext) (simp add: wp_simps)

lemma wp_persist_body:
  "wp (persist_body u rid streamed sig res row audit)
     (\<lambda>f t. db_only s t \<and> persisted u audit rid row f (w_db s) (w_db t))
     (\<lambda>e t. True \<and> db_only s t) s"
proof -
  have append: "wp (append_context_audit_event u audit FILE_UPLOADED et ei m)
       (\<lambda>_ t. db_only s t \<and> persisted u audit rid row f (w_db s) (w_db t)) (\<lambda>_. db_only s) t"
    if "db_only s t" "w_db t = (w_db s)\<lparr>db_files := db_files (w_db s) @ [f]\<rparr>"
      "row_get rel_id rid (db_releases (w_db s)) = Some r"
      "row_get sw_id (rel_software_id r) (db_softwares (w_db s)) = Some w"
      "f = with_rf_id (next_id rf_id (db_files (w_db s))) (row now)" for t f r w now et ei m
    by (rule wp_mono [OF wp_append_context_audit_event])
      (use that db_only_trans in \<open>auto simp: persisted_def\<close>)
  show ?thesis
    unfolding persist_body_def release_with_graph_def find_by_sha256_def add_file_def
    by (simp add: wp_simps wp_ret_fun row_add_def split: option.splits) (auto intro!: append)
qed

lemma wp_persist_metadata:
  "wp (persist_metadata u netloc_ok cfg rid streamed sig res metadata audit)
     (\<lambda>f t. calm s t \<and> (\<exists>flds details uuid d.
        normalize_upload_fields u netloc_ok cfg (pp_original (su_path_plan streamed)) metadata = Inr flds
      \<and> drifted s (w_db s) d
      \<and> persisted u audit rid (uploaded_row rid streamed sig res details metadata flds uuid) f d (w_db t)
      \<and> db_constraints (w_db t)))
     (\<lambda>e t. calm s t \<and> drifted s (w_db s) (w_db t)) s"
  unfolding persist_metadata_def
proof (rule wp_bind_lift, goal_cases)
  case (1 flds)
  show ?case
  proof (rule wp_bind_lift, goal_cases)
    case (1 details)
    let ?n = "hex_number (os_uuid s (os_uuid_next s))"
    let ?s = "s\<lparr>os_uuid_next := Suc (os_uuid_next s)\<rparr>"
    let ?row = "uploaded_row rid streamed sig res details metadata flds ?n"
    have tr: "wp (transaction (persist_body u rid streamed sig res ?row audit))
       (\<lambda>f t. db_only ?s t \<and> (\<exists>d. drifted ?s (w_db ?s) d \<and> persisted u audit rid ?row f d (w_db t))
          \<and> db_constraints (w_db t))
       (\<lambda>e t. db_only ?s t \<and> drifted ?s (w_db ?s) (w_db t) \<and> True) ?s"
      by (rule wp_transaction) (rule wp_persist_body, simp)
    have calm: "calm s t" if "db_only ?s t" for t
      using db_onlyD [OF that] by (simp add: calm_def same_store_def)
    have env: "drifted ?s d d' = drifted s d d'" for d d' by (simp add: drifted_def)
    show ?case
      unfolding fresh_uuid_def
      apply (simp add: wp_simps)
      apply (rule wp_mono [OF tr])
      using calm env \<open>normalize_upload_fields u netloc_ok cfg (pp_original (su_path_plan streamed)) metadata = Inr flds\<close>
      by (auto simp: wp_simps)
  qed (simp add: calm_refl)
qed (simp add: calm_refl)


section \<open>The two outcomes of an upload\<close>

definition scan_outcome :: "file_scanner \<Rightarrow> bytes \<Rightarrow> scan_result" where
  "scan_outcome scanner content =
     (case scanner of
        UnavailableScanner reason \<Rightarrow> \<lparr>sr_status = ScanUnavailable, sr_details = Some reason\<rparr>
      | ClamAVCommandScanner run \<Rightarrow> clam_result (run (Some content)))"

lemma scan_run: "files s p = Some b \<Longrightarrow> scan scanner p s = (Inr (scan_outcome scanner b), s)"
  by (simp add: scan_def scan_outcome_def eff_simps split: file_scanner.splits)

text \<open>What the new row says of the content.\<close>

definition describes ::
  "unicode \<Rightarrow> (bytes \<Rightarrow> str) \<Rightarrow> upload_settings \<Rightarrow> file_scanner \<Rightarrow> nat \<Rightarrow> upload_file \<Rightarrow> release_file \<Rightarrow> bool" where
  "describes u sha cfg scanner rid upload f \<longleftrightarrow>
     (\<exists>original. normalize_original_filename u (uploaded_name upload) (us_allowed_extensions cfg) = Inr original
      \<and> rf_original_filename f = nf_value original \<and> rf_file_extension f = nf_extension original
      \<and> rf_scanner_status f = sr_status (scan_outcome scanner (uf_content upload))
      \<and> rf_status f = initial_status (validate_file_signature u (nf_extension original)
            (take (us_magic_sample_size cfg) (uf_content upload))) (rf_scanner_status f))
   \<and> rf_release_id f = rid \<and> rf_sha256 f = sha (uf_content upload)
   \<and> rf_file_size_bytes f = int (length (uf_content upload)) \<and> rf_download_count f = 0
   \<and> rf_published_at f = None"

text \<open>The storage name is the drawn identifier and the extension, the path its shard.\<close>

definition named_after :: "str \<Rightarrow> release_file \<Rightarrow> bool" where
  "named_after identifier f \<longleftrightarrow> (\<exists>ext. rf_storage_filename f = identifier @ ext)
     \<and> sharded_relative_path (rf_storage_filename f) = Inr (rf_relative_storage_path f)"

definition uploaded ::
  "unicode \<Rightarrow> (bytes \<Rightarrow> str) \<Rightarrow> upload_settings \<Rightarrow> storage_paths \<Rightarrow> file_scanner \<Rightarrow> nat \<Rightarrow> upload_file \<Rightarrow>
   audit_context option \<Rightarrow> world \<Rightarrow> release_file \<Rightarrow> world \<Rightarrow> bool" where
  "uploaded u sha cfg paths scanner rid upload audit s f t \<longleftrightarrow>
     describes u sha cfg scanner rid upload f
   \<and> uf_content upload \<noteq> [] \<and> int (length (uf_content upload)) \<le> us_max_upload_size cfg
   \<and> named_after (os_uuid s (os_uuid_next s)) f
   \<and> (\<exists>p. safe_relative (rf_relative_storage_path f) p
        \<and> files s (sp_quarantine paths @ p) = None
        \<and> files t = (files s)(sp_quarantine paths @ p \<mapsto> uf_content upload))
   \<and> (\<exists>d. drifted s (w_db s) d \<and> (\<exists>r. row_get rel_id rid (db_releases d) = Some r)
        \<and> rf_id f = next_id rf_id (db_files d)
        \<and> audited u audit FILE_UPLOADED (d\<lparr>db_files := db_files d @ [f]\<rparr>) (w_db t))
   \<and> db_constraints (w_db t)"

definition left_alone ::
  "unicode \<Rightarrow> audit_context option \<Rightarrow> storage_paths \<Rightarrow> world \<Rightarrow> world \<Rightarrow> bool" where
  "left_alone u audit paths s t \<longleftrightarrow> steady paths (os_fault s) (w_env s) t
     \<and> (no_os_faults s \<and> fresh_temporary paths s \<longrightarrow> files t = files s)
     \<and> (\<exists>d. drifted s (w_db s) d \<and> failure_logged u audit d (w_db t))"

lemma wp_require_upload_release:
  "wp (require_upload_release rid) (\<lambda>_ t. db_only s t \<and> drifted s (w_db s) (w_db t))
     (\<lambda>e t. (e = EntityNotFound \<or> e = SQLAlchemyError) \<and> db_only s t \<and> drifted s (w_db s) (w_db t)) s"
proof -
  have "wp (require_upload_release rid)
     (\<lambda>x t. db_only s t \<and> drifted s (w_db s) (w_db t) \<and> (\<lambda>_ _. True) x (w_db t))
     (\<lambda>e t. db_only s t \<and> drifted s (w_db s) (w_db t)
        \<and> (\<lambda>e _. e = EntityNotFound \<or> e = SQLAlchemyError) e (w_db t)) s"
    unfolding require_upload_release_def
    by (rule wp_read_session) (auto simp: wp_simps)
  then show ?thesis by (rule wp_mono) auto
qed

lemma wp_close_upload: "wp close_upload (\<lambda>_ t. looked s t) (\<lambda>_ _. False) s"
  by (simp add: close_upload_def wp_simps)

lemma uploaded_row_describes:
  assumes "planned u cfg paths s (uploaded_name upload) (su_path_plan su)"
    and "su_sha256 su = sha (uf_content upload)" and "su_size_bytes su = int (length (uf_content upload))"
    and "su_signature_sample su = take (us_magic_sample_size cfg) (uf_content upload)"
    and "f = with_rf_id i (uploaded_row rid su
        (validate_file_signature u (nf_extension (pp_original (su_path_plan su))) (su_signature_sample su))
        (scan_outcome scanner (uf_content upload)) details metadata flds uuid now)"
  shows "describes u sha cfg scanner rid upload f
    \<and> rf_relative_storage_path f = as_posix (pp_quarantine_relative_path (su_path_plan su)) \<and> rf_id f = i
    \<and> rf_storage_filename f = pp_storage_filename (su_path_plan su)"
  using assms by (simp add: describes_def planned_def uploaded_row_def with_rf_id_def)

text \<open>From the quarantined file on: scan and row.\<close>

lemma wp_scan_and_persist:
  assumes "files t q = Some (uf_content upload)"
  shows "wp (bind (scan scanner q) (\<lambda>res.
           persist_metadata u netloc_ok cfg rid su sig res metadata audit))
     (\<lambda>f v. calm t v \<and> (\<exists>flds details uuid d. drifted t (w_db t) d
        \<and> persisted u audit rid (uploaded_row rid su sig (scan_outcome scanner (uf_content upload))
             details metadata flds uuid) f d (w_db v)
        \<and> db_constraints (w_db v)))
     (\<lambda>e v. calm t v \<and> drifted t (w_db t) (w_db v)) t"
proof -
  have "wp (scan scanner q) (\<lambda>r v. v = t \<and> r = scan_outcome scanner (uf_content upload)) (\<lambda>_ _. False) t"
    using scan_run [OF assms] by (simp add: wp_def)
  then show ?thesis
  proof (rule wp_bind_spec, goal_cases)
    case (1 r v)
    then have v: "v = t" "r = scan_outcome scanner (uf_content upload)" by simp_all
    show ?case unfolding v by (rule wp_mono [OF wp_persist_metadata]) blast+
  qed simp
qed


lemma undone_left:
  assumes st: "steady paths (os_fault s) (w_env s) t" and dr: "drifted s (w_db s) (w_db t)"
    and un: "undone_to u audit paths cs t v"
    and here: "no_os_faults s \<Longrightarrow> fresh_temporary paths s \<Longrightarrow>
      list_all (clear_entry t) cs \<and> without cs (files t) = files s"
  shows "left_alone u audit paths s v"
proof -
  have same: "os_fault t = os_fault s" "w_env t = w_env s" using st by (simp_all add: steady_def)
  then have "no_os_faults t = no_os_faults s" by (simp add: no_os_faults_def)
  moreover obtain d where d: "drifted t (w_db t) d" "failure_logged u audit d (w_db v)"
    using un by (auto simp: undone_to_def)
  then have "drifted s (w_db s) d" using dr drifted_trans drifted_env [OF same(2)] by blast
  ultimately show ?thesis
    using un here d(2) same by (auto simp: left_alone_def undone_to_def)
qed

definition upload_body ::
  "unicode \<Rightarrow> (str \<Rightarrow> bool) \<Rightarrow> (nat \<Rightarrow> nat \<Rightarrow> nat) \<Rightarrow> (bytes \<Rightarrow> str) \<Rightarrow> upload_settings \<Rightarrow> storage_paths \<Rightarrow>
   file_scanner \<Rightarrow> nat \<Rightarrow> upload_file \<Rightarrow> upload_metadata \<Rightarrow> audit_context option \<Rightarrow>
   streamed_upload \<Rightarrow> release_file svc" where
  "upload_body u netloc_ok wr sha cfg paths scanner rid upload metadata audit streamed =
       (let plan = su_path_plan streamed in
        bind (try_catch
               (bind (ret (validate_file_signature u (nf_extension (pp_original plan))
                            (su_signature_sample streamed))) (\<lambda>signature.
                bind (atomic_move (sp_temporary paths) (pp_temporary_relative_path plan)
                        (sp_quarantine paths) (pp_quarantine_relative_path plan)) (\<lambda>move_result.
                ret (signature, mv_destination move_result))))
               (upload_failed u rid audit [pp_temporary_path plan])) (\<lambda>(signature, quarantine_path).
        try_catch
          (bind (scan scanner quarantine_path) (\<lambda>res.
           persist_metadata u netloc_ok cfg rid streamed signature res metadata audit))
          (upload_failed u rid audit [pp_temporary_path plan, quarantine_path])))"

lemma upload_release_file_body:
  "upload_release_file u netloc_ok wr sha cfg paths scanner rid upload metadata audit =
     bind (require_upload_release rid) (\<lambda>_.
     finally_do
       (bind (try_catch (stream_upload_to_temporary u wr sha cfg paths upload)
               (upload_failed u rid audit []))
          (upload_body u netloc_ok wr sha cfg paths scanner rid upload metadata audit))
       close_upload)"
  by (simp add: upload_release_file_def upload_body_def [abs_def])

text \<open>The bytes of a streamed upload, and where they go.\<close>

lemma streamed_to_files:
  assumes "streamed_to u sha cfg paths s upload su t"
  shows "files t = (files s)(pp_temporary_path (su_path_plan su) \<mapsto> uf_content upload)"
    "files s (pp_temporary_path (su_path_plan su)) = None" "store_step s t"
  using assms by (auto simp: streamed_to_def Let_def creatable_def files_def file_at_def)

lemma clear_entry_file: "files s p \<noteq> None \<Longrightarrow> clear_entry s p"
  by (simp add: clear_entry_def)

lemma wp_move_to_quarantine:
  assumes ok: "store_ok paths s" and su: "streamed_to u sha cfg paths s upload su t"
  shows "wp (atomic_move (sp_temporary paths) (pp_temporary_relative_path (su_path_plan su))
             (sp_quarantine paths) (pp_quarantine_relative_path (su_path_plan su)))
     (\<lambda>x v. store_step s v \<and> os_fs v (pp_temporary_path (su_path_plan su)) = None
        \<and> (\<exists>p. safe_relative (pp_quarantine_relative_path (su_path_plan su)) p
             \<and> mv_destination x = sp_quarantine paths @ p
             \<and> files s (sp_quarantine paths @ p) = None
             \<and> files v = (files s)(sp_quarantine paths @ p \<mapsto> uf_content upload)))
     (\<lambda>e v. store_step s v \<and> (no_os_faults s \<longrightarrow> files v = files t)) t"
proof -
  let ?plan = "su_path_plan su"
  note ft = streamed_to_files [OF su]
  have okt: "store_ok paths t" using store_ok_step [OF ok ft(3)] .
  have nf: "no_os_faults t = no_os_faults s" using ft(3) by (simp add: store_step_def no_os_faults_frame)
  obtain tp where tp: "safe_relative (pp_temporary_relative_path ?plan) tp"
      "pp_temporary_path ?plan = sp_temporary paths @ tp"
    using su by (auto simp: streamed_to_def planned_def Let_def)
  note roots = store_okD(2) [OF okt] store_okD(3) [OF okt, of AreaQuarantine, unfolded area_root.simps]
  show ?thesis
  proof (rule wp_mono [OF wp_move [OF roots]], goal_cases)
    case (1 x v)
    then obtain p p' where p: "safe_relative (pp_temporary_relative_path ?plan) p"
      and p': "safe_relative (pp_quarantine_relative_path ?plan) p'" "mv_destination x = sp_quarantine paths @ p'"
      and tr: "transfer t (sp_temporary paths) p (sp_quarantine paths) p' v" by auto
    have "p = tp" using p tp(1) by (simp add: safe_relative_def)
    then have mv: "moved (files t) (pp_temporary_path ?plan) (sp_quarantine paths @ p') (files v)"
      and gone: "os_fs v (pp_temporary_path ?plan) = None" and st: "store_step t v"
      using tr tp(2) by (simp_all add: transfer_def)
    have "store_step s v" using ft(3) st store_step_trans by blast
    moreover have "files s (sp_quarantine paths @ p') = None"
      "files v = (files s)(sp_quarantine paths @ p' \<mapsto> uf_content upload)"
      using mv moved_neq [OF mv] ft(1,2) by (auto simp: moved_def fun_eq_iff)
    ultimately show ?case using gone p' by blast
  next
    case (2 e v)
    then show ?case using ft(3) store_step_trans nf by blast
  qed
qed


lemma planned_named:
  assumes "planned u cfg paths s filename plan"
  shows "(\<exists>ext. pp_storage_filename plan = os_uuid s (os_uuid_next s) @ ext)
    \<and> sharded_relative_path (pp_storage_filename plan) = Inr (pp_quarantine_relative_path plan)"
  using assms by (simp only: planned_def) auto

lemma wp_upload_body:
  assumes ok: "store_ok paths s" and su: "streamed_to u sha cfg paths s upload su t"
    and db: "w_db t = w_db s"
  shows "wp (upload_body u netloc_ok wr sha cfg paths scanner rid upload metadata audit su)
     (\<lambda>f v. steady paths (os_fault s) (w_env s) v \<and> uploaded u sha cfg paths scanner rid upload audit s f v)
     (\<lambda>e v. is_application_error e \<and> left_alone u audit paths s v) t"
proof -
  let ?plan = "su_path_plan su" and ?tmp = "pp_temporary_path (su_path_plan su)"
  let ?sig = "validate_file_signature u (nf_extension (pp_original ?plan)) (su_signature_sample su)"
  note ft = streamed_to_files [OF su]
  have start: "steady paths (os_fault s) (w_env s) s" using ok by (simp add: steady_def)
  have step: "steady paths (os_fault s) (w_env s) v \<and> store_ok paths v \<and> w_db v = w_db s"
    if "store_step s v" for v
    using steady_store_step [OF start that] store_step_db [OF that] steady_ok by blast
  have moved: "wp (bind (ret ?sig) (\<lambda>signature.
        bind (atomic_move (sp_temporary paths) (pp_temporary_relative_path ?plan)
                (sp_quarantine paths) (pp_quarantine_relative_path ?plan)) (\<lambda>move_result.
        ret (signature, mv_destination move_result))))
     (\<lambda>r v. store_step s v \<and> os_fs v ?tmp = None
        \<and> (\<exists>p. safe_relative (pp_quarantine_relative_path ?plan) p
             \<and> r = (?sig, sp_quarantine paths @ p) \<and> files s (sp_quarantine paths @ p) = None
             \<and> files v = (files s)(sp_quarantine paths @ p \<mapsto> uf_content upload)))
     (\<lambda>e v. store_step s v \<and> (no_os_faults s \<longrightarrow> files v = files t)) t"
    unfolding bind_ret
    by (rule wp_bind_spec [OF wp_move_to_quarantine [OF ok su]]) (auto simp: wp_simps)
  have failed1: "wp (upload_failed u rid audit [?tmp] e :: 'x svc) Q
      (\<lambda>e v. is_application_error e \<and> left_alone u audit paths s v) v"
    if v: "store_step s v \<and> (no_os_faults s \<longrightarrow> files v = files t)" for e v Q
  proof (rule wp_mono [OF wp_upload_failed [where Q = Q and paths = paths]], goal_cases)
    case 1
    then show ?case using step v by blast
  next
    case (3 x w)
    have "left_alone u audit paths s w"
    proof (rule undone_left [where t = v and cs = "[?tmp]"])
      assume "no_os_faults s"
      then have "files v = (files s)(?tmp \<mapsto> uf_content upload)" using v ft by simp
      then show "list_all (clear_entry v) [?tmp] \<and> without [?tmp] (files v) = files s"
        using ft(2) by (auto simp: clear_entry_def without_def fun_eq_iff)
    next
      show "steady paths (os_fault s) (w_env s) v" "drifted s (w_db s) (w_db v)"
        using step [OF conjunct1 [OF v]] by simp_all
      show "undone_to u audit paths [?tmp] v w" using 3 by simp
    qed
    then show ?case using 3 by simp
  qed
  have failed2: "wp (upload_failed u rid audit [?tmp, q] e :: 'x svc) Q
      (\<lambda>e v. is_application_error e \<and> left_alone u audit paths s v) w"
    if v: "store_step s v" "os_fs v ?tmp = None" "files s q = None"
      "files v = (files s)(q \<mapsto> uf_content upload)"
      and w: "calm v w \<and> drifted v (w_db v) (w_db w)" for e v w q Q
  proof (rule wp_mono [OF wp_upload_failed [where Q = Q and paths = paths]], goal_cases)
    case 1
    then show ?case using step [OF v(1)] w calmD(4) by blast
  next
    case (3 x z)
    have "steady paths (os_fault s) (w_env s) w" using step [OF v(1)] w steady_calm by blast
    moreover have "drifted s (w_db s) (w_db w)"
      using step [OF v(1)] w drifted_env [of v s] by (simp add: steady_def)
    ultimately have "left_alone u audit paths s z"
    proof (rule undone_left)
      show "undone_to u audit paths [?tmp, q] w z" using 3 by simp
      have fw: "files w = files v" "os_fs w = os_fs v" using w calmD by blast+
      show "list_all (clear_entry w) [?tmp, q] \<and> without [?tmp, q] (files w) = files s"
        using v fw ft(2) by (auto simp: clear_entry_def without_def fun_eq_iff)
    qed
    then show ?case using 3 by simp
  qed
  show ?thesis
    unfolding upload_body_def Let_def
  proof (rule wp_bind_spec [OF wp_try_spec [OF moved]], assumption, erule failed1, goal_cases)
    case (1 r v)
    then obtain p where v: "store_step s v" "os_fs v ?tmp = None" "files s (sp_quarantine paths @ p) = None"
        "files v = (files s)(sp_quarantine paths @ p \<mapsto> uf_content upload)"
      and p: "safe_relative (pp_quarantine_relative_path ?plan) p"
      and r: "r = (?sig, sp_quarantine paths @ p)" by auto
    have q: "files v (sp_quarantine paths @ p) = Some (uf_content upload)" using v(4) by simp
    show ?case
      unfolding r prod.case
    proof (rule wp_try_spec [OF wp_scan_and_persist [OF q]], goal_cases)
      case (1 f w)
      then obtain flds details uuid d where w: "calm v w" and d: "drifted v (w_db v) d"
        and pers: "persisted u audit rid (uploaded_row rid su ?sig
             (scan_outcome scanner (uf_content upload)) details metadata flds uuid) f d (w_db w)"
        and c: "db_constraints (w_db w)" by blast
      have st: "steady paths (os_fault s) (w_env s) w" using step [OF v(1)] w steady_calm by blast
      have d': "drifted s (w_db s) d" using d step [OF v(1)] drifted_env [of v s] by (simp add: steady_def)
      obtain now where f: "f = with_rf_id (next_id rf_id (db_files d)) (uploaded_row rid su ?sig
             (scan_outcome scanner (uf_content upload)) details metadata flds uuid now)"
        and rel: "\<exists>r. row_get rel_id rid (db_releases d) = Some r"
        and a: "audited u audit FILE_UPLOADED (d\<lparr>db_files := db_files d @ [f]\<rparr>) (w_db w)"
        using pers by (auto simp: persisted_def)
      have facts: "planned u cfg paths s (uploaded_name upload) ?plan" "su_sha256 su = sha (uf_content upload)"
        "su_size_bytes su = int (length (uf_content upload))"
        "su_signature_sample su = take (us_magic_sample_size cfg) (uf_content upload)"
        "uf_content upload \<noteq> []" "int (length (uf_content upload)) \<le> us_max_upload_size cfg"
        using su by (auto simp: streamed_to_def Let_def)
      have desc: "describes u sha cfg scanner rid upload f" "rf_id f = next_id rf_id (db_files d)"
        and path: "rf_relative_storage_path f = pp_quarantine_relative_path ?plan"
        and name: "rf_storage_filename f = pp_storage_filename ?plan"
        using uploaded_row_describes [where upload = upload and sha = sha, OF facts(1-4) f] as_posix_safe [OF p] by auto
      have "files w = files v" using w calmD(2) by blast
      then have "\<exists>p. safe_relative (rf_relative_storage_path f) p
          \<and> files s (sp_quarantine paths @ p) = None
          \<and> files w = (files s)(sp_quarantine paths @ p \<mapsto> uf_content upload)"
        using p v(3,4) path by (intro exI [of _ p]) simp
      moreover have "\<exists>d. drifted s (w_db s) d \<and> (\<exists>r. row_get rel_id rid (db_releases d) = Some r)
          \<and> rf_id f = next_id rf_id (db_files d)
          \<and> audited u audit FILE_UPLOADED (d\<lparr>db_files := db_files d @ [f]\<rparr>) (w_db w)"
        by (intro exI [of _ d] conjI d' rel a desc(2))
      moreover have "named_after (os_uuid s (os_uuid_next s)) f"
        using planned_named [OF facts(1)] by (simp only: named_after_def path name)
      ultimately have "uploaded u sha cfg paths scanner rid upload audit s f w"
        unfolding uploaded_def by (intro conjI desc(1) facts(5,6) c)
      then show ?case using st by blast
    next
      case (2 e w)
      show ?case by (rule failed2 [OF v 2])
    qed
  qed simp
qed

lemma wp_upload_release_file:
  assumes ok: "store_ok paths s" and n: "0 < us_upload_chunk_size cfg"
  shows "wp (upload_release_file u netloc_ok wr sha cfg paths scanner rid upload metadata audit)
     (\<lambda>f v. steady paths (os_fault s) (w_env s) v \<and> uploaded u sha cfg paths scanner rid upload audit s f v)
     (\<lambda>e v. (is_application_error e \<or> e = SQLAlchemyError) \<and> left_alone u audit paths s v) s"
  unfolding upload_release_file_body
proof (rule wp_bind_spec [OF wp_require_upload_release], goal_cases)
  case (1 x t)
  then have db: "db_only s t" and dr: "drifted s (w_db s) (w_db t)" by simp_all
  note D = db_onlyD [OF db]
  have env: "drifted t d d' = drifted s d d'" for d d' using D by (intro drifted_env) simp
  have okt: "store_ok paths t" using ok D by (simp add: store_ok_def)
  let ?Q = "\<lambda>f v. steady paths (os_fault s) (w_env s) v \<and> uploaded u sha cfg paths scanner rid upload audit s f v"
  let ?E = "\<lambda>e v. (is_application_error e \<or> e = SQLAlchemyError) \<and> left_alone u audit paths s v"
  have Q: "?Q f v" if "steady paths (os_fault t) (w_env t) v"
      "uploaded u sha cfg paths scanner rid upload audit t f v" for f v
    using that D dr env drifted_trans unfolding uploaded_def by (simp only:) blast
  have fresh: "fresh_temporary paths t = fresh_temporary paths s" using D by (simp add: fresh_temporary_def)
  have E: "?E e v" if "is_application_error e" "left_alone u audit paths t v" for e v
    using that D dr env drifted_trans fresh unfolding left_alone_def by (simp only:) blast
  have body: "wp (bind (try_catch (stream_upload_to_temporary u wr sha cfg paths upload)
               (upload_failed u rid audit []))
          (upload_body u netloc_ok wr sha cfg paths scanner rid upload metadata audit)) ?Q ?E t"
  proof (rule wp_bind_spec [OF wp_try_spec [OF wp_stream_upload_to_temporary [OF okt n], where E = ?E]], assumption, goal_cases)
    case (1 e v)
    then have st: "store_step t v" by simp
    have steady: "steady paths (os_fault t) (w_env t) v"
      using steady_store_step [OF _ st] okt by (simp add: steady_def)
    show ?case
    proof (rule wp_mono [OF wp_upload_failed [OF steady_ok [OF steady], where Q = "\<lambda>_ _. False"]], simp)
      fix x w assume xw: "is_application_error x \<and> undone_to u audit paths [] v w"
      have "left_alone u audit paths t w"
      proof (rule undone_left [OF steady])
        show "drifted t (w_db t) (w_db v)" using store_step_db [OF st] by simp
        show "undone_to u audit paths [] v w" using xw by simp
        assume "no_os_faults t" "fresh_temporary paths t"
        then show "list_all (clear_entry v) [] \<and> without [] (files v) = files t"
          using 1 by (simp add: without_def files_def)
      qed
      then show "?E x w" using xw E by blast
    qed
  next
    case (2 su v)
    have "w_db v = w_db t" using streamed_to_files(3) [OF 2] store_step_db by blast
    from wp_upload_body [OF okt 2 this] show ?case by (rule wp_mono) (use Q E in blast)+
  qed simp
  have close: "wp close_upload (\<lambda>_ w. P w) R v" if "\<And>w. looked v w \<Longrightarrow> P w" for P R v
    by (rule wp_mono [OF wp_close_upload]) (use that in auto)
  have steady_looked: "steady paths (os_fault s) (w_env s) w" if "steady paths (os_fault s) (w_env s) v" "looked v w" for v w
    using that steady_calm calm_looked by blast
  show ?case
    unfolding wp_finally_do
  proof (rule wp_mono [OF body], goal_cases)
    case (1 f v)
    show ?case
      by (rule close) (use 1 steady_looked in \<open>auto simp: uploaded_def looked_eqs looked_db\<close>)
  next
    case (2 e v)
    show ?case
      by (rule close) (use 2 steady_looked in \<open>auto simp: left_alone_def looked_eqs looked_db\<close>)
  qed
next
  case (2 e t)
  note D = db_onlyD [of s t]
  have "steady paths (os_fault s) (w_env s) t"
    using 2 ok D by (auto simp: steady_def store_ok_def)
  then show ?case using 2 D by (auto simp: left_alone_def failure_logged_def)
qed


section \<open>The initial status\<close>

lemma initial_status_ready:
  "initial_status sig sc = FileReady \<longleftrightarrow> sv_assessment sig = SigMatch \<and> sc \<noteq> ScanInfected \<and> sc \<noteq> ScanError"
  by (simp add: initial_status_def)

lemma signature_match:
  "sv_assessment (validate_file_signature u ext sample) = SigMatch \<longleftrightarrow>
     (\<exists>d. detect_file_type sample = Some d \<and> det_extension d = casefold u (strip ext))"
  by (simp add: validate_file_signature_def Let_def split: option.splits)

lemma initial_status_area: "area_allowed (initial_status sig sc) AreaQuarantine"
  by (simp add: initial_status_def area_allowed_def)

section \<open>A concrete upload\<close>

definition demo_upload_settings :: upload_settings where
  "demo_upload_settings = \<lparr>us_allowed_extensions = [py ''.zip''], us_max_upload_size = 10,
     us_upload_chunk_size = 8, us_magic_sample_size = 64, us_storage_min_free_bytes = 10\<rparr>"

definition demo_upload :: upload_file where
  "demo_upload = \<lparr>uf_filename = Some (py ''a.zip''), uf_size = Some 5, uf_content_type = None,
     uf_content = demo_bytes @ [7]\<rparr>"

definition demo_metadata :: upload_metadata where
  "demo_metadata = \<lparr>um_display_filename = None, um_architecture = ArchX64, um_package_type = PkgArchive,
     um_platform = py ''windows'', um_edition = None, um_visibility = VisPublic,
     um_source_url = None, um_admin_note = None\<rparr>"

definition upload_world :: world where
  "upload_world = demo_world\<lparr>w_db := empty_database\<lparr>db_softwares := [demo_software],
     db_releases := [demo_release]\<rparr>\<rparr>"

lemma upload_world_ok: "store_ok demo_paths upload_world" "no_os_faults upload_world"
  using demo_store_ok demo_world_simps(3) by (simp_all add: upload_world_def store_ok_def no_os_faults_def)

abbreviation demo_uploading :: "file_scanner \<Rightarrow> (exn + release_file) \<times> world" where
  "demo_uploading scanner \<equiv> upload_release_file ascii_only (\<lambda>_. True) (\<lambda>_ _. 8) demo_sha
     demo_upload_settings demo_paths scanner 1 demo_upload demo_metadata None upload_world"



definition outcome_status :: "(exn + release_file) \<times> 's \<Rightarrow> file_status option" where
  "outcome_status z = (case fst z of Inl _ \<Rightarrow> None | Inr f \<Rightarrow> Some (rf_status f))"

lemma demo_upload_run:
  "outcome_status (demo_uploading (UnavailableScanner [])) = Some FileReady"
  by code_simp

lemma outcome_statusD: "outcome_status z = Some st \<Longrightarrow> \<exists>f. z = (Inr f, snd z) \<and> rf_status f = st"
  by (cases z) (auto simp: outcome_status_def split: sum.splits)

lemma demo_chunks: "0 < us_upload_chunk_size demo_upload_settings"
  by (simp add: demo_upload_settings_def)

section \<open>The properties\<close>



text \<open>
  C6: what an upload lets in, under any faults of the operating system and the database and
  any short writes of the kernel. If it succeeds, the quarantine holds at the path of the new
  row exactly the bytes the client sent, not empty and within the size limit; the row records
  their SHA-256 and their length; it is never published, and it is ready only if the type
  detected in the leading bytes is that of its extension and the scanner found no infection
  and no error.
\<close>

theorem uploaded_bytes_vetted:
  assumes ok: "store_ok paths s" and n: "0 < us_upload_chunk_size cfg"
    and run: "upload_release_file u netloc_ok wr sha cfg paths scanner rid upload metadata audit s = (Inr f, t)"
  shows "(\<exists>p. safe_relative (rf_relative_storage_path f) p
        \<and> files s (sp_quarantine paths @ p) = None
        \<and> files t = (files s)(sp_quarantine paths @ p \<mapsto> uf_content upload))
     \<and> uf_content upload \<noteq> [] \<and> int (length (uf_content upload)) \<le> us_max_upload_size cfg
     \<and> rf_sha256 f = sha (uf_content upload) \<and> rf_file_size_bytes f = int (length (uf_content upload))
     \<and> rf_status f \<in> {FileReady, FileQuarantine, FileRejected} \<and> rf_published_at f = None
     \<and> (rf_status f = FileReady \<longleftrightarrow>
          (\<exists>d. detect_file_type (take (us_magic_sample_size cfg) (uf_content upload)) = Some d
             \<and> det_extension d = casefold u (strip (rf_file_extension f)))
          \<and> sr_status (scan_outcome scanner (uf_content upload)) \<notin> {ScanInfected, ScanError})"
proof -
  have up: "uploaded u sha cfg paths scanner rid upload audit s f t"
    using wp_upload_release_file [OF ok n, of u netloc_ok wr sha scanner rid upload metadata audit] run
    by (simp add: wp_def)
  then have d: "describes u sha cfg scanner rid upload f" by (simp add: uploaded_def)
  have st: "rf_status f = initial_status (validate_file_signature u (rf_file_extension f)
      (take (us_magic_sample_size cfg) (uf_content upload))) (sr_status (scan_outcome scanner (uf_content upload)))"
    using d by (auto simp: describes_def)
  have "rf_status f \<in> {FileReady, FileQuarantine, FileRejected}"
    by (simp add: st initial_status_def)
  moreover have "rf_status f = FileReady \<longleftrightarrow>
      (\<exists>d. detect_file_type (take (us_magic_sample_size cfg) (uf_content upload)) = Some d
         \<and> det_extension d = casefold u (strip (rf_file_extension f)))
      \<and> sr_status (scan_outcome scanner (uf_content upload)) \<notin> {ScanInfected, ScanError}"
    unfolding st initial_status_ready signature_match by simp
  ultimately show ?thesis using up d by (simp add: uploaded_def describes_def)
qed

theorem uploaded_bytes_vetted_witness:
  "\<exists>f t. demo_uploading (UnavailableScanner []) = (Inr f, t) \<and> rf_status f = FileReady
     \<and> rf_sha256 f = demo_sha (demo_bytes @ [7]) \<and> rf_file_size_bytes f = 5 \<and> rf_published_at f = None"
proof -
  obtain f where run: "demo_uploading (UnavailableScanner []) = (Inr f, snd (demo_uploading (UnavailableScanner [])))"
    and st: "rf_status f = FileReady"
    using outcome_statusD [OF demo_upload_run] by blast
  have "rf_sha256 f = demo_sha (uf_content demo_upload)"
    "rf_file_size_bytes f = int (length (uf_content demo_upload))" "rf_published_at f = None"
    using uploaded_bytes_vetted [OF upload_world_ok(1) demo_chunks run] by blast+
  then have "rf_sha256 f = demo_sha (demo_bytes @ [7])" "rf_file_size_bytes f = 5" "rf_published_at f = None"
    by (simp_all add: demo_upload_def demo_bytes_def)
  with run st show ?thesis by blast
qed

text \<open>
  The bounded copy works. When the operating system works, the new name is free in an
  existing directory and the kernel always takes some of the bytes it is offered, the copy
  loop ends and writes exactly the source whatever the chunk size and however short the
  writes are, or refuses an empty source and one above the limit, and nothing else.
\<close>

theorem copy_stream_exact:
  assumes "0 < n" and "no_os_faults s" and "fair wr" and "creatable s p"
  shows "case copy_stream wr sha source p mx n k s of
      (Inr (size_bytes, digest, sample), t) \<Rightarrow> source \<noteq> [] \<and> int (length source) \<le> mx
        \<and> size_bytes = int (length source) \<and> digest = sha source \<and> sample = take k source
        \<and> writing s p storage_file_mode source t
    | (Inl e, t) \<Rightarrow> e = FileValidationError \<and> source = [] \<or> e = PayloadTooLarge \<and> mx < int (length source)"
  using wp_copy_stream [OF assms(1), of wr sha source p mx k s] assms(2-4)
  by (auto simp: wp_def copy_error_def split: prod.splits sum.splits)

theorem copy_stream_exact_witness:
  "case copy_stream (\<lambda>_ _. 1) demo_sha [1, 2, 3, 4, 5] [[115], [116], [120]] 9 2 3 demo_world of
      (Inr (size_bytes, digest, sample), t) \<Rightarrow> [1, 2, 3, 4, 5] \<noteq> ([] :: bytes) \<and> int (length [1, 2, 3, 4, 5 :: byte]) \<le> 9
        \<and> size_bytes = int (length [1, 2, 3, 4, 5 :: byte]) \<and> digest = demo_sha [1, 2, 3, 4, 5]
        \<and> sample = take 3 [1, 2, 3, 4, 5]
        \<and> writing demo_world [[115], [116], [120]] storage_file_mode [1, 2, 3, 4, 5] t
    | (Inl e, t) \<Rightarrow> e = FileValidationError \<and> [1, 2, 3, 4, 5] = ([] :: bytes)
        \<or> e = PayloadTooLarge \<and> 9 < int (length [1, 2, 3, 4, 5 :: byte])"
  by (rule copy_stream_exact)
    (simp_all add: fair_def creatable_def, simp_all add: demo_fs_def)

text \<open>
  C21: the names administrators may give a file. An accepted name is not empty, has no
  separator, control, format or bidirectional character, does not begin with a dot or end
  with a dot or a blank, fits in 255 characters and 255 bytes of UTF-8, its stem is not
  reserved by Windows, and its extension is a permitted one; the stored name is canonical:
  when normalisation to NFKC is idempotent on it, normalising it again gives the same result.
\<close>

theorem accepted_filename_good:
  assumes "normalize_original_filename u filename allowed = Inr n"
    and "nfkc u (nf_value n) = nf_value n"
  shows "good_filename u allowed (nf_value n) \<and> nf_value n = strip (nfkc u filename)
     \<and> nf_extension n = casefold u (suffix_of (nf_value n))
     \<and> nf_stem n \<noteq> [] \<and> casefold u (nf_stem n) \<notin> set windows_reserved_names
     \<and> normalize_original_filename u (nf_value n) allowed = Inr n"
  using normalize_original_filename_good [OF assms(1)] normalize_original_filename_fixed [OF assms] by blast

theorem accepted_filename_good_witness:
  "good_filename ascii_only [py ''.zip''] (py ''setup.ZIP'')
     \<and> normalize_original_filename ascii_only (py ''setup.ZIP'') [py ''.zip'']
       = Inr \<lparr>nf_value = py ''setup.ZIP'', nf_stem = py ''setup'', nf_extension = py ''.zip''\<rparr>"
proof -
  have "normalize_original_filename ascii_only (py '' setup.ZIP'') [py ''.zip'']
      = Inr \<lparr>nf_value = py ''setup.ZIP'', nf_stem = py ''setup'', nf_extension = py ''.zip''\<rparr>"
    by code_simp
  note run = this
  have "nfkc ascii_only (nf_value \<lparr>nf_value = py ''setup.ZIP'', nf_stem = py ''setup'', nf_extension = py ''.zip''\<rparr>)
      = nf_value \<lparr>nf_value = py ''setup.ZIP'', nf_stem = py ''setup'', nf_extension = py ''.zip''\<rparr>"
    by code_simp
  from accepted_filename_good [OF run this] show ?thesis
    unfolding normalized_filename.simps by blast
qed

text \<open>
  The names the server gives. For an identifier of 32 hexadecimal digits and a permitted
  plain extension, the generated name is valid, the identifier and the extension can be read
  back from it, and its sharded path splits into the two shards and the name, all safe
  components, so that it resolves inside the area; from the path the name can be read back.
\<close>

theorem storage_name_roundtrip:
  assumes "is_identifier (os_uuid s (os_uuid_next s))" and "is_plain_extension ext"
    and "casefold u (strip ext) = ext" and "ext \<in> set (map (casefold u) allowed)"
  shows "\<exists>name t raw. generate_storage_filename u ext allowed s = (Inr name, t)
     \<and> name = os_uuid s (os_uuid_next s) @ ext
     \<and> validate_storage_filename u name allowed = Inr name
     \<and> match_storage_filename name = Some (os_uuid s (os_uuid_next s), ext)
     \<and> sharded_relative_path name = Inr raw
     \<and> safe_relative raw [take 2 name, take 2 (drop 2 name), name]
     \<and> path_name raw = name"
proof -
  let ?i = "os_uuid s (os_uuid_next s)" and ?t = "s\<lparr>os_uuid_next := Suc (os_uuid_next s)\<rparr>"
  have m: "match_storage_filename (?i @ ext) = Some (?i, ext)"
    using assms by (simp add: match_storage_filename_Some)
  obtain raw where raw: "sharded_relative_path (?i @ ext) = Inr raw"
    using sharded_of_generated [OF assms(1,2)] by blast
  have safe: "safe_relative raw (sharded_parts (?i @ ext))" using raw by (rule sharded_relative_path_safe)
  then have "pure_parts raw = sharded_parts (?i @ ext)"
    using safe_relativeD(1,3) [OF safe] pure_parts_safe [of raw] by metis
  then have "path_name raw = ?i @ ext" by (simp add: path_name_def sharded_parts_def)
  moreover have "generate_storage_filename u ext allowed s = (Inr (?i @ ext), ?t)"
    using assms(3,4) by (simp add: generate_storage_filename_def Let_def eff_simps fresh_uuid_hex_def)
  moreover have "validate_storage_filename u (?i @ ext) allowed = Inr (?i @ ext)"
    using m assms(4) by (simp add: validate_storage_filename_def)
  ultimately show ?thesis using m raw safe [unfolded sharded_parts_def] by blast
qed

theorem storage_name_roundtrip_witness:
  "\<exists>name t raw. generate_storage_filename ascii_only (py ''.zip'') [py ''.zip''] demo_world = (Inr name, t)
     \<and> name = replicate 32 48 @ py ''.zip''
     \<and> validate_storage_filename ascii_only name [py ''.zip''] = Inr name
     \<and> match_storage_filename name = Some (replicate 32 48, py ''.zip'')
     \<and> sharded_relative_path name = Inr raw
     \<and> safe_relative raw [take 2 name, take 2 (drop 2 name), name]
     \<and> path_name raw = name"
proof -
  have "os_uuid demo_world (os_uuid_next demo_world) = replicate 32 48" by (simp add: demo_world_def)
  moreover have "is_identifier (replicate 32 48)" "is_plain_extension (py ''.zip'')"
    "casefold ascii_only (strip (py ''.zip'')) = py ''.zip''"
    "py ''.zip'' \<in> set (map (casefold ascii_only) [py ''.zip''])"
    by code_simp+
  ultimately show ?thesis
    using storage_name_roundtrip [where s = demo_world and ext = "py ''.zip''" and u = ascii_only
        and allowed = "[py ''.zip'']"] by simp
qed

end
