(* ===== verification/Downloads.thy ===== *)
theory Downloads
  imports StoredFiles Database Filenames
begin

text \<open>
  \<open>app/services/download_service.py\<close> with \<open>app/repositories/download_stat_repository.py\<close>:
  who may download a file, the daily counters, and the headers of the internal redirect. The
  statistics statement is the one for SQLite, an insert that updates on conflict.
\<close>

section \<open>Headers\<close>

definition ascii_alnum :: "nat \<Rightarrow> bool" where
  "ascii_alnum c = (is_lower c \<or> is_upper c \<or> is_digit c)"

text \<open>\<open>urllib.parse.quote\<close>\<close>

definition hex_upper :: "nat \<Rightarrow> nat" where
  "hex_upper n = (if n < 10 then 48 + n else 55 + n)"

definition quote_byte :: "nat list \<Rightarrow> nat \<Rightarrow> str" where
  "quote_byte safe b =
     (if ascii_alnum b \<or> b \<in> {95, 46, 45, 126} \<or> b \<in> set safe then [b]
      else [37, hex_upper (b div 16), hex_upper (b mod 16)])"

definition quote :: "nat list \<Rightarrow> str \<Rightarrow> exn + str" where
  "quote safe s =
     (case utf8_encode s of
        None \<Rightarrow> Inl ValueError
      | Some bs \<Rightarrow> Inr (concat (map (quote_byte safe) bs)))"

definition media_char :: "nat \<Rightarrow> bool" where
  "media_char c = (ascii_alnum c \<or> c \<in> {33, 35, 36, 38, 94, 95, 46, 43, 45})"

definition is_media_type :: "str \<Rightarrow> bool" where
  "is_media_type s =
     (case split_on slash s of
        [a, b] \<Rightarrow> a \<noteq> [] \<and> b \<noteq> [] \<and> list_all media_char a \<and> list_all media_char b
      | _ \<Rightarrow> False)"

definition safe_media_type :: "unicode \<Rightarrow> str \<Rightarrow> str" where
  "safe_media_type u val =
     (let candidate = casefold u (strip val) in
      if is_media_type candidate then candidate else py ''application/octet-stream'')"

definition fallback_name :: "unicode \<Rightarrow> str \<Rightarrow> str" where
  "fallback_name u filename =
     (let extension = suffix_of (path_name filename);
          source_stem = take (length filename - length extension) filename;
          ascii_stem = ascii_ignore (nfkd u source_stem);
          safe_stem = strip_set (\<lambda>c. c \<in> {32, 46, 95})
            (map (\<lambda>c. if ascii_alnum c \<or> c \<in> {32, 46, 95, 45} then c else 95) ascii_stem);
          fallback = (if safe_stem \<noteq> [] then safe_stem else py ''download'') @ casefold u extension;
          fallback = (if length fallback > 150 then py ''download'' @ casefold u extension else fallback)
      in map (\<lambda>c. if c = 34 \<or> c = 92 then 95 else c) fallback)"

definition build_content_disposition :: "unicode \<Rightarrow> str \<Rightarrow> exn + str" where
  "build_content_disposition u filename =
     rbind (quote [] filename) (\<lambda>encoded.
     Inr (py ''attachment; filename='' @ [34] @ fallback_name u filename @ [34]
       @ py ''; filename*=UTF-8'' @ [39, 39] @ encoded))"

definition internal_redirect_uri :: "str \<Rightarrow> str \<Rightarrow> exn + str" where
  "internal_redirect_uri prefix relative_path =
     rbind (quote [slash] relative_path) (\<lambda>q. Inr (prefix @ q))"

section \<open>Counters\<close>

definition is_day_row :: "nat \<Rightarrow> date \<Rightarrow> download_stat \<Rightarrow> bool" where
  "is_day_row file_id day x = (ds_release_file_id x = file_id \<and> ds_date x = day)"

definition upsert_rows ::
  "nat \<Rightarrow> date \<Rightarrow> int \<Rightarrow> int \<Rightarrow> int \<Rightarrow> download_stat list \<Rightarrow> download_stat list" where
  "upsert_rows file_id day dl ok blocked rows =
     (if list_ex (is_day_row file_id day) rows
      then map (\<lambda>x. if is_day_row file_id day x
             then x\<lparr>ds_download_count := ds_download_count x + dl,
                    ds_successful_count := ds_successful_count x + ok,
                    ds_blocked_count := ds_blocked_count x + blocked\<rparr>
             else x) rows
      else row_add ds_id with_ds_id
        \<lparr>ds_id = 0, ds_release_file_id = file_id, ds_date = day, ds_download_count = dl,
         ds_successful_count = ok, ds_blocked_count = blocked\<rparr> rows)"

text \<open>One statement that writes: it fails, or takes effect with the constraints checked.\<close>

definition execute :: "(database \<Rightarrow> database) \<Rightarrow> unit svc" where
  "execute f = bind (change f) (\<lambda>_. flush)"

definition upsert_daily :: "nat \<Rightarrow> date \<Rightarrow> int \<Rightarrow> int \<Rightarrow> int \<Rightarrow> unit svc" where
  "upsert_daily file_id day dl ok blocked =
     execute (\<lambda>d. d\<lparr>db_stats := upsert_rows file_id day dl ok blocked (db_stats d)\<rparr>)"

definition count_start :: "nat \<Rightarrow> database \<Rightarrow> database" where
  "count_start file_id d = d\<lparr>db_files := row_update rf_id file_id
     (\<lambda>f. f\<lparr>rf_download_count := rf_download_count f + 1\<rparr>) (db_files d)\<rparr>"

definition record_authorized_start_rows :: "nat \<Rightarrow> date \<Rightarrow> unit svc" where
  "record_authorized_start_rows file_id day =
     bind (execute (count_start file_id)) (\<lambda>_. upsert_daily file_id day 1 1 0)"

definition record_blocked_rows :: "nat \<Rightarrow> date \<Rightarrow> unit svc" where
  "record_blocked_rows file_id day = upsert_daily file_id day 0 0 1"

definition stat_for_date :: "nat \<Rightarrow> date \<Rightarrow> database \<Rightarrow> download_stat option" where
  "stat_for_date file_id day d = find (is_day_row file_id day) (db_stats d)"

record download_totals =
  dt_authorized :: int
  dt_successful :: int
  dt_blocked :: int

definition totals_for_date :: "date \<Rightarrow> database \<Rightarrow> download_totals" where
  "totals_for_date day d =
     (let rows = filter (\<lambda>x. ds_date x = day) (db_stats d) in
      \<lparr>dt_authorized = sum_list (map ds_download_count rows),
       dt_successful = sum_list (map ds_successful_count rows),
       dt_blocked = sum_list (map ds_blocked_count rows)\<rparr>)"

section \<open>The service\<close>

record download_grant =
  dg_internal_redirect_uri :: str
  dg_content_disposition :: str
  dg_content_type :: str
  dg_etag :: str
  dg_cache_control :: str
  dg_is_private :: bool

definition record_authorized_start :: "nat \<Rightarrow> unit svc" where
  "record_authorized_start file_id =
     bind utc_now (\<lambda>now. transaction (record_authorized_start_rows file_id (date_of now)))"

text \<open>A database error while counting a refusal is only logged.\<close>

definition record_blocked :: "nat \<Rightarrow> unit svc" where
  "record_blocked file_id =
     bind utc_now (\<lambda>now.
     try_catch (transaction (record_blocked_rows file_id (date_of now)))
       (\<lambda>e. if is_sqlalchemy_error e then ret () else throw e))"

definition get_by_public_uuid :: "nat \<Rightarrow> database \<Rightarrow> (release_file \<times> file_graph option) option" where
  "get_by_public_uuid public_uuid d =
     (case find (\<lambda>f. rf_public_uuid f = public_uuid) (db_files d) of
        None \<Rightarrow> None
      | Some f \<Rightarrow> Some (f, graph_of d f))"

text \<open>\<open>can_download_file\<close> on the loaded entity; a published file whose parents are missing
  would fail on the attribute access.\<close>

definition may_download :: "release_file \<Rightarrow> file_graph option \<Rightarrow> bool \<Rightarrow> exn + bool" where
  "may_download file graph is_admin =
     (case graph of
        Some (_, release, software) \<Rightarrow> Inr (can_download_file file release software is_admin)
      | None \<Rightarrow> if rf_status file \<noteq> FilePublished then Inr False else Inl AttributeError)"

definition refuse_download :: "nat \<Rightarrow> 'a svc" where
  "refuse_download file_id = bind (record_blocked file_id) (\<lambda>_. throw EntityNotFound)"

definition download_headers :: "unicode \<Rightarrow> str \<Rightarrow> release_file \<Rightarrow> stored_file \<Rightarrow> exn + download_grant" where
  "download_headers u prefix file stored =
     (let is_private = (rf_visibility file = VisPrivate) in
      rbind (internal_redirect_uri prefix (st_relative_path stored)) (\<lambda>uri.
      rbind (build_content_disposition u (rf_display_filename file)) (\<lambda>disposition.
      Inr \<lparr>dg_internal_redirect_uri = uri, dg_content_disposition = disposition,
           dg_content_type = safe_media_type u (rf_detected_mime_type file),
           dg_etag = [34] @ py ''sha256-'' @ rf_sha256 file @ [34],
           dg_cache_control = (if is_private then py ''private, no-store'' else py ''no-store''),
           dg_is_private = is_private\<rparr>)))"

definition authorize ::
  "unicode \<Rightarrow> str \<Rightarrow> storage_paths \<Rightarrow> nat \<Rightarrow> str \<Rightarrow> bool \<Rightarrow> bool \<Rightarrow> download_grant svc" where
  "authorize u prefix paths public_uuid requested_filename is_admin count_download =
     bind (read_session (query (get_by_public_uuid public_uuid))) (\<lambda>found.
     case found of
       None \<Rightarrow> throw EntityNotFound
     | Some (file, graph) \<Rightarrow>
         if requested_filename \<noteq> rf_display_filename file then refuse_download (rf_id file)
         else
           bind (lift_result (may_download file graph is_admin)) (\<lambda>allowed.
           if \<not> allowed then refuse_download (rf_id file)
           else
             bind (try_catch (locate_stored_file paths (rf_relative_storage_path file))
                     (\<lambda>e. if e = StorageError then throw EntityNotFound else throw e)) (\<lambda>stored.
             bind (raise_if (st_area stored \<noteq> AreaSoftware) EntityNotFound) (\<lambda>_.
             bind (raise_if (st_size_bytes stored \<noteq> rf_file_size_bytes file) EntityNotFound) (\<lambda>_.
             bind (if count_download then record_authorized_start (rf_id file) else ret ()) (\<lambda>_.
             lift_result (download_headers u prefix file stored)))))))"

end
