(* ===== verification/DownloadProperties.thy ===== *)
theory DownloadProperties
  imports Downloads Constraints Demo
begin

text \<open>
  The properties of downloads: a grant is only given along the whole chain of metadata and
  bytes, the counters agree with each other, a refusal leaves no other trace than the blocked
  counter, and the headers cannot be broken out of.
\<close>

section \<open>Counters\<close>

definition file_total :: "nat \<Rightarrow> download_stat list \<Rightarrow> int" where
  "file_total i rows = sum_list (map ds_download_count (filter (\<lambda>x. ds_release_file_id x = i) rows))"

lemma file_total_simps [simp]:
  "file_total j [] = 0"
  "file_total j (x # xs) = (if ds_release_file_id x = j then ds_download_count x else 0) + file_total j xs"
  "file_total j (xs @ ys) = file_total j xs + file_total j ys"
  by (simp_all add: file_total_def)

definition day_key :: "download_stat \<Rightarrow> nat \<times> date" where
  "day_key x = (ds_release_file_id x, ds_date x)"

lemma is_day_row_key: "is_day_row i day x \<longleftrightarrow> day_key x = (i, day)"
  by (simp add: is_day_row_def day_key_def)

lemma file_total_upsert:
  assumes "unique_by day_key rows"
  shows "file_total j (upsert_rows i day dl ok b rows) = file_total j rows + (if j = i then dl else 0)"
proof -
  let ?f = "\<lambda>x. if is_day_row i day x then x\<lparr>ds_download_count := ds_download_count x + dl,
      ds_successful_count := ds_successful_count x + ok, ds_blocked_count := ds_blocked_count x + b\<rparr> else x"
  have same: "file_total j (map ?f xs) = file_total j xs" if "\<not> list_ex (is_day_row i day) xs" for xs
    using that by (induction xs) simp_all
  have hit: "file_total j (map ?f xs) = file_total j xs + (if j = i then dl else 0)"
    if "unique_by day_key xs" "list_ex (is_day_row i day) xs" for xs
    using that
  proof (induction xs)
    case (Cons a xs)
    show ?case
    proof (cases "is_day_row i day a")
      case True
      then have "\<not> list_ex (is_day_row i day) xs"
        using Cons.prems(1) by (auto simp: is_day_row_key unique_by_def list_ex_iff image_iff)
      moreover have "ds_release_file_id a = i" using True by (simp add: is_day_row_def)
      ultimately show ?thesis using same True by simp
    next
      case False
      then show ?thesis
        using Cons by (simp add: unique_by_def)
    qed
  qed simp
  show ?thesis
  proof (cases "list_ex (is_day_row i day) rows")
    case True
    with hit [OF assms] show ?thesis by (simp only: upsert_rows_def if_True)
  next
    case False
    then show ?thesis by (simp add: upsert_rows_def row_add_def with_ds_id_def)
  qed
qed

definition counts_agree :: "database \<Rightarrow> bool" where
  "counts_agree d \<longleftrightarrow>
     list_all (\<lambda>f. rf_download_count f = file_total (rf_id f) (db_stats d)) (db_files d)
   \<and> list_all (\<lambda>x. ds_successful_count x = ds_download_count x) (db_stats d)"

definition started_db :: "nat \<Rightarrow> date \<Rightarrow> database \<Rightarrow> database" where
  "started_db i day d = (count_start i d)\<lparr>db_stats := upsert_rows i day 1 1 0 (db_stats d)\<rparr>"

definition blocked_db :: "nat \<Rightarrow> date \<Rightarrow> database \<Rightarrow> database" where
  "blocked_db i day d = d\<lparr>db_stats := upsert_rows i day 0 0 1 (db_stats d)\<rparr>"

lemma stats_day_keys: "stats_ok d \<Longrightarrow> unique_by day_key (db_stats d)"
  by (simp add: stats_ok_def day_key_def [abs_def])

lemma upsert_paired:
  "list_all (\<lambda>x. ds_successful_count x = ds_download_count x) rows \<Longrightarrow>
   list_all (\<lambda>x. ds_successful_count x = ds_download_count x) (upsert_rows i day n n b rows)"
  by (auto simp: upsert_rows_def list_all_iff row_add_def with_ds_id_def)

lemma counts_agree_kept:
  assumes "counts_agree d" and "stats_ok d"
  shows "counts_agree (started_db i day d)" and "counts_agree (blocked_db i day d)"
proof -
  note t = file_total_upsert [OF stats_day_keys [OF assms(2)]]
  show "counts_agree (started_db i day d)"
    using assms(1) upsert_paired [of "db_stats d" i day 1 0]
    by (auto simp: counts_agree_def started_db_def count_start_def row_update_def t list_all_iff)
  show "counts_agree (blocked_db i day d)"
    using assms(1) upsert_paired [of "db_stats d" i day 0 1]
    by (auto simp: counts_agree_def blocked_db_def t list_all_iff)
qed

section \<open>Counting keeps the constraints\<close>

lemma constraints_count_start:
  assumes "db_constraints d"
  shows "db_constraints (count_start i d)"
proof -
  let ?fs = "row_update rf_id i (\<lambda>f. f\<lparr>rf_download_count := rf_download_count f + 1\<rparr>) (db_files d)"
  have ids: "map rf_id ?fs = map rf_id (db_files d)" "map rf_public_uuid ?fs = map rf_public_uuid (db_files d)"
    "map rf_storage_filename ?fs = map rf_storage_filename (db_files d)"
    "map rf_relative_storage_path ?fs = map rf_relative_storage_path (db_files d)"
    by (simp_all add: row_update_def)
  have "files_ok d" using assms by (simp add: db_constraints_def)
  then have "files_ok (d\<lparr>db_files := ?fs\<rparr>)"
    unfolding files_ok_def distinct_keys_def unique_by_def
    by (simp add: ids) (auto simp: row_update_def list_all_iff)
  then show ?thesis
    using assms same_keys(8) [OF ids(1)]
    by (simp add: db_constraints_def count_start_def other_tables)
qed

lemma upsert_keys:
  assumes "unique_by day_key rows" and "distinct_keys ds_id rows"
  shows "unique_by day_key (upsert_rows i day dl ok b rows) \<and> distinct_keys ds_id (upsert_rows i day dl ok b rows)"
proof (cases "list_ex (is_day_row i day) rows")
  case True
  let ?f = "\<lambda>x. if is_day_row i day x then x\<lparr>ds_download_count := ds_download_count x + dl,
      ds_successful_count := ds_successful_count x + ok, ds_blocked_count := ds_blocked_count x + b\<rparr> else x"
  have "map day_key (map ?f rows) = map day_key rows" "map ds_id (map ?f rows) = map ds_id rows"
    by (auto simp: day_key_def)
  then show ?thesis using assms True by (simp only: upsert_rows_def unique_by_def distinct_keys_def if_True)
next
  case False
  then have "(i, day) \<notin> day_key ` set rows" by (auto simp: list_ex_iff is_day_row_key)
  then show ?thesis
    using assms False stats_table.distinct_added [OF assms(2)]
    by (simp add: upsert_rows_def unique_by_def) (simp add: row_add_def day_key_def with_ds_id_def)
qed

lemma constraints_upsert:
  assumes "db_constraints d" and "i \<in> rf_id ` set (db_files d)" and "0 \<le> dl" "0 \<le> ok" "0 \<le> b"
  shows "db_constraints (d\<lparr>db_stats := upsert_rows i day dl ok b (db_stats d)\<rparr>)"
proof -
  have s: "stats_ok d" using assms(1) by (simp add: db_constraints_def)
  have k: "unique_by day_key (db_stats d)" "distinct_keys ds_id (db_stats d)"
    using s stats_day_keys by (simp_all add: stats_ok_def)
  have "list_all (\<lambda>x. 0 \<le> ds_download_count x \<and> 0 \<le> ds_successful_count x \<and> 0 \<le> ds_blocked_count x
      \<and> refers (map rf_id (db_files d)) (ds_release_file_id x)) (upsert_rows i day dl ok b (db_stats d))"
    using s assms(2-5)
    by (auto simp: upsert_rows_def stats_ok_def list_all_iff row_add_def with_ds_id_def refers_def)
  then have "stats_ok (d\<lparr>db_stats := upsert_rows i day dl ok b (db_stats d)\<rparr>)"
    using upsert_keys [OF k, of i day dl ok b] by (simp add: stats_ok_def day_key_def [abs_def])
  then show ?thesis
    using assms(1)
    by (simp add: db_constraints_def files_ok_def users_ok_def sessions_ok_def categories_ok_def tags_ok_def
        software_tags_ok_def softwares_ok_def releases_ok_def audits_ok_def)
qed

lemma constraints_started:
  assumes "db_constraints d" and "i \<in> rf_id ` set (db_files d)"
  shows "db_constraints (started_db i day d)" and "db_constraints (blocked_db i day d)"
proof -
  have "map rf_id (db_files (count_start i d)) = map rf_id (db_files d)"
    by (simp add: count_start_def row_update_def)
  then have "rf_id ` set (db_files (count_start i d)) = rf_id ` set (db_files d)"
    by (metis set_map)
  then show "db_constraints (started_db i day d)"
    using constraints_upsert [OF constraints_count_start [OF assms(1)], of i i 1 1 0 day] assms(2)
    by (simp add: started_db_def count_start_def)
  show "db_constraints (blocked_db i day d)"
    using constraints_upsert [OF assms, of 0 0 1 day] by (simp add: blocked_db_def)
qed

section \<open>Authorisation\<close>

lemma wp_upsert_daily [wp_simps]:
  "wp (execute f) Q E s = wp flush Q E (s\<lparr>w_db := f (w_db s)\<rparr>)"
  by (simp add: execute_def wp_simps)

lemma wp_record_start:
  assumes "quiet s" and "db_constraints (w_db s)" and "i \<in> rf_id ` set (db_files (w_db s))"
  shows "wp (record_authorized_start i)
     (\<lambda>_ t. db_only s t \<and> w_db t = started_db i (date_of (os_now s)) (w_db s))
     (\<lambda>e t. e = SQLAlchemyError \<and> db_only s t \<and> w_db t = w_db s) s"
proof -
  have q: "w_env s n d = d" for n d using assms(1) by (simp add: quiet_def)
  show ?thesis
    using constraints_count_start [OF assms(2)] constraints_started(1) [OF assms(2,3)]
    by (auto simp: record_authorized_start_def record_authorized_start_rows_def upsert_daily_def wp_simps
        wp_transaction_iff interfere_def q started_db_def count_start_def)
qed

lemma wp_record_blocked:
  assumes "quiet s" and "db_constraints (w_db s)" and "i \<in> rf_id ` set (db_files (w_db s))"
  shows "wp (record_blocked i)
     (\<lambda>_ t. db_only s t \<and> (w_db t = blocked_db i (date_of (os_now s)) (w_db s) \<or> w_db t = w_db s))
     (\<lambda>e t. False) s"
proof -
  have q: "w_env s n d = d" for n d using assms(1) by (simp add: quiet_def)
  show ?thesis
    using constraints_started(2) [OF assms(2,3)]
    by (auto simp: record_blocked_def record_blocked_rows_def upsert_daily_def wp_simps
        wp_transaction_iff interfere_def q blocked_db_def is_sqlalchemy_error_def)
qed

definition granted ::
  "unicode \<Rightarrow> str \<Rightarrow> storage_paths \<Rightarrow> nat \<Rightarrow> str \<Rightarrow> bool \<Rightarrow> world \<Rightarrow> release_file \<Rightarrow> download_grant \<Rightarrow> bool" where
  "granted u prefix paths uuid name is_admin s f g \<longleftrightarrow>
     find (\<lambda>f. rf_public_uuid f = uuid) (db_files (w_db s)) = Some f \<and> rf_display_filename f = name
   \<and> (\<exists>r w st. graph_of (w_db s) f = Some (f, r, w) \<and> can_download_file f r w is_admin
        \<and> located s paths (rf_relative_storage_path f) st \<and> st_area st = AreaSoftware
        \<and> st_size_bytes st = rf_file_size_bytes f \<and> download_headers u prefix f st = Inr g)"

lemma graph_of_first: "graph_of d f = Some (f', r, w) \<Longrightarrow> f' = f"
  by (auto simp: graph_of_def split: option.splits)

lemma graph_exists:
  assumes "db_constraints d" and "f \<in> set (db_files d)"
  shows "\<exists>r w. graph_of d f = Some (f, r, w)"
proof -
  have "rf_release_id f \<in> rel_id ` set (db_releases d)"
    using assms by (auto simp: db_constraints_def files_ok_def list_all_iff refers_def)
  then obtain r where r: "row_get rel_id (rf_release_id f) (db_releases d) = Some r"
    by (cases "row_get rel_id (rf_release_id f) (db_releases d)") (auto simp: row_get_None)
  then have "rel_software_id r \<in> sw_id ` set (db_softwares d)"
    using assms(1) row_get_Some [OF r] by (auto simp: db_constraints_def releases_ok_def list_all_iff refers_def)
  then obtain w where "row_get sw_id (rel_software_id r) (db_softwares d) = Some w"
    by (cases "row_get sw_id (rel_software_id r) (db_softwares d)") (auto simp: row_get_None)
  with r show ?thesis by (simp add: graph_of_def)
qed

lemma wp_refuse:
  assumes "quiet s" and "db_constraints (w_db s)" and "i \<in> rf_id ` set (db_files (w_db s))"
  shows "wp (refuse_download i :: 'a svc) Q
     (\<lambda>e t. e = EntityNotFound \<and> db_only s t
        \<and> (w_db t = blocked_db i (date_of (os_now s)) (w_db s) \<or> w_db t = w_db s)) s"
  unfolding refuse_download_def wp_bind
  by (rule wp_mono [OF wp_record_blocked [OF assms]]) (auto simp: wp_simps)


text \<open>How an authorisation that raises leaves the tables: as they were, with one more refusal
  counted for the file, or, if only the headers could not be built, with one more start.\<close>

definition not_granted :: "nat \<Rightarrow> bool \<Rightarrow> world \<Rightarrow> exn \<Rightarrow> database \<Rightarrow> bool" where
  "not_granted uuid counted s e d \<longleftrightarrow>
     (e \<in> {EntityNotFound, SQLAlchemyError} \<and> d = w_db s)
   \<or> (\<exists>f \<in> set (db_files (w_db s)). rf_public_uuid f = uuid
        \<and> (e = EntityNotFound \<and> d = blocked_db (rf_id f) (date_of (os_now s)) (w_db s)
         \<or> e = ValueError \<and> d = (if counted then started_db (rf_id f) (date_of (os_now s)) (w_db s) else w_db s)))"

lemma download_headers_error: "download_headers u prefix f st = Inl e \<Longrightarrow> e = ValueError"
  by (auto simp: download_headers_def internal_redirect_uri_def build_content_disposition_def quote_def
      rbind_def Let_def split: sum.splits option.splits)

lemma wp_authorize:
  assumes q: "quiet s" and ok: "store_ok paths s" and c: "db_constraints (w_db s)"
  shows "wp (authorize u prefix paths uuid name is_admin counted)
     (\<lambda>g t. os_fs t = os_fs s \<and> (\<exists>f. granted u prefix paths uuid name is_admin s f g
        \<and> w_db t = (if counted then started_db (rf_id f) (date_of (os_now s)) (w_db s) else w_db s)))
     (\<lambda>e t. os_fs t = os_fs s \<and> not_granted uuid counted s e (w_db t)) s"
  (is "wp _ ?Q ?E s")
proof -
  let ?d = "w_db s"
  have i: "w_db (interfere s) = ?d" using q by (simp add: interfere_def quiet_def)
  have "wp (read_session (query (get_by_public_uuid uuid)))
      (\<lambda>x t. db_only s t \<and> w_db t = ?d \<and> x = get_by_public_uuid uuid ?d)
      (\<lambda>e t. e = SQLAlchemyError \<and> db_only s t \<and> w_db t = ?d) s"
    by (simp add: wp_read_session_iff wp_simps i)
  then show ?thesis
    unfolding authorize_def
  proof (rule wp_bind_spec, goal_cases)
    case (1 x t)
    note t = db_onlyD [OF conjunct1 [OF 1]]
    have qt: "quiet t" using q t by (simp add: quiet_def)
    have okt: "store_ok paths t" using ok t by (simp add: store_ok_def)
    have dt: "w_db t = ?d" using 1 by simp
    show ?case
    proof (cases "find (\<lambda>f. rf_public_uuid f = uuid) (db_files ?d)")
      case None
      then show ?thesis using 1 t by (simp add: get_by_public_uuid_def wp_simps not_granted_def)
    next
      case (Some f)
      have f: "f \<in> set (db_files ?d)" "rf_public_uuid f = uuid"
        using Some by (auto simp: find_Some_iff)
      obtain r w where g: "graph_of ?d f = Some (f, r, w)" using graph_exists [OF c f(1)] by blast
      have x: "x = Some (f, Some (f, r, w))" using 1 Some g by (simp add: get_by_public_uuid_def)
      have mem: "rf_id f \<in> rf_id ` set (db_files (w_db t))" using f dt by simp
      have ct: "db_constraints (w_db t)" using c dt by simp
      have refuse: "wp (refuse_download (rf_id f)) Q ?E t" for Q
        by (rule wp_mono [OF wp_refuse [OF qt ct mem]])
          (use f t dt in \<open>auto simp: not_granted_def db_onlyD\<close>)
      show ?thesis
      proof (cases "name = rf_display_filename f \<and> can_download_file f r w is_admin")
        case False
        then show ?thesis by (auto simp: x may_download_def wp_simps intro: refuse)
      next
        case True
        have "wp (bind (try_catch (locate_stored_file paths (rf_relative_storage_path f))
                     (\<lambda>e. if e = StorageError then throw EntityNotFound else throw e)) (\<lambda>stored.
             bind (raise_if (st_area stored \<noteq> AreaSoftware) EntityNotFound) (\<lambda>_.
             bind (raise_if (st_size_bytes stored \<noteq> rf_file_size_bytes f) EntityNotFound) (\<lambda>_.
             bind (if counted then record_authorized_start (rf_id f) else ret ()) (\<lambda>_.
             lift_result (download_headers u prefix f stored)))))) ?Q ?E t"
        proof (rule wp_bind_spec [OF wp_try_spec [OF wp_locate_stored_file [OF okt],
              where Q = "\<lambda>st t'. looked t t' \<and> located t paths (rf_relative_storage_path f) st"
                and E = "\<lambda>e t'. e = EntityNotFound \<and> looked t t'"]], goal_cases)
          case (3 st t')
          note l = looked_eqs [OF conjunct1 [OF 3]] looked_db [OF conjunct1 [OF 3]]
          have loc: "located s paths (rf_relative_storage_path f) st"
            using 3 t by (simp add: located_def)
          have fin: "wp (lift_result (download_headers u prefix f st)) ?Q ?E t''"
            if a: "st_area st = AreaSoftware" "st_size_bytes st = rf_file_size_bytes f"
              and t'': "os_fs t'' = os_fs s"
                "w_db t'' = (if counted then started_db (rf_id f) (date_of (os_now s)) ?d else ?d)" for t''
          proof (cases "download_headers u prefix f st")
            case (Inl e)
            then show ?thesis using f t'' download_headers_error [OF Inl]
              by (simp add: wp_simps not_granted_def) blast
          next
            case (Inr g')
            have "granted u prefix paths uuid name is_admin s f g'"
              using Some g True loc a Inr by (auto simp: granted_def)
            then show ?thesis using Inr t'' by (auto simp: wp_simps)
          qed
          have q': "quiet t'" using qt l by (simp add: quiet_def)
          have count: "wp (bind (if counted then record_authorized_start (rf_id f) else ret ()) (\<lambda>_.
              lift_result (download_headers u prefix f st))) ?Q ?E t'"
            if a: "st_area st = AreaSoftware" "st_size_bytes st = rf_file_size_bytes f"
          proof (cases counted)
            case False
            then show ?thesis using fin [OF a, of t'] t l dt by simp
          next
            case True
            then have "wp (if counted then record_authorized_start (rf_id f) else ret ())
              (\<lambda>_ v. db_only t' v \<and> w_db v = started_db (rf_id f) (date_of (os_now t')) (w_db t'))
              (\<lambda>e v. e = SQLAlchemyError \<and> db_only t' v \<and> w_db v = w_db t') t'"
              using wp_record_start [OF q'] ct mem l by simp
            then show ?thesis
            proof (rule wp_bind_spec, goal_cases)
              case (1 y v)
              then show ?case using fin [OF a, of v] db_onlyD(1) [of t' v] t l dt True by simp
            next
              case (2 e v)
              then show ?case using db_onlyD(1) [of t' v] t l dt by (simp add: not_granted_def)
            qed
          qed
          show ?case using count t l dt by (auto simp: wp_simps not_granted_def)
        qed (use t dt in \<open>auto simp: wp_simps not_granted_def looked_eqs looked_db\<close>)
        then show ?thesis using True by (simp add: x may_download_def wp_simps)
      qed
    qed
  next
    case (2 e t)
    then show ?case using db_onlyD(1) [of s t] by (simp add: not_granted_def)
  qed
qed


section \<open>Percent encoding\<close>














section \<open>The fallback name\<close>






section \<open>An installation with a published file\<close>

definition public_file :: release_file where
  "public_file = demo_file\<lparr>rf_status := FilePublished, rf_published_at := Some 0\<rparr>"

definition public_world :: world where
  "public_world = demo_world\<lparr>os_fs := demo_fs([[115], [113], [102]] := None,
       [[115], [119], [102]] \<mapsto> File demo_bytes 416 0),
     w_db := demo_database\<lparr>db_files := [public_file]\<rparr>\<rparr>"

lemma public_store_ok: "store_ok demo_paths public_world"
proof -
  have "tree_grows demo_fs (os_fs public_world)"
    by (auto simp: tree_grows_def is_symlink_def public_world_def demo_fs_def split: if_splits)
  moreover have "tree_ok (os_fs public_world)"
    unfolding tree_ok_def
  proof (intro allI impI)
    fix p c assume "os_fs public_world (p @ [c]) \<noteq> None"
    then have "demo_fs (p @ [c]) \<noteq> None \<or> p = [[115], [119]]"
      by (auto simp: public_world_def demo_fs_def split: if_splits)
    then obtain m where "demo_fs p = Some (Dir m)"
      using demo_tree_ok by (auto simp: tree_ok_def demo_fs_def)
    then show "\<exists>m. os_fs public_world p = Some (Dir m)"
      by (auto simp: public_world_def demo_fs_def split: if_splits)
  qed
  ultimately show ?thesis
    using demo_store_ok root_ok_grows by (auto simp: store_ok_def)
qed

lemma public_quiet: "quiet public_world"
  by (simp add: public_world_def demo_world_def quiet_def)

lemma public_constraints: "db_constraints (w_db public_world)"
  by code_simp

lemma public_counts: "counts_agree (w_db public_world)"
  by code_simp

definition run_value :: "(exn + 'a) \<times> 's \<Rightarrow> (exn + 'a)" where
  "run_value z = fst z"

lemma public_authorize_run:
  "run_value (authorize ascii_only [47] demo_paths 7 [102] False True public_world)
   = Inr \<lparr>dg_internal_redirect_uri = [47, 102],
       dg_content_disposition = py ''attachment; filename='' @ [34, 102, 34]
         @ py ''; filename*=UTF-8'' @ [39, 39, 102],
       dg_content_type = rf_detected_mime_type demo_file,
       dg_etag = [34] @ py ''sha256-'' @ rf_sha256 demo_file @ [34],
       dg_cache_control = py ''no-store'', dg_is_private = False\<rparr>"
  by code_simp

section \<open>Properties\<close>

text \<open>
  C34: a download is granted only along the whole chain: a row with this public identifier and
  exactly this display name, published together with its release and its software as the
  policy asks of this caller, whose one physical file lies in the software area with the
  recorded size; the headers are those of this row, and one start is counted when asked.
  A refusal leaves the tables as they were or with one more blocked download of this file,
  raises only the error that does not tell whether the file exists or a database error, and
  neither outcome touches the stored bytes. Only when a name has no UTF-8 form can the
  headers fail, and then the start is already counted.
\<close>

theorem download_grant_chain:
  assumes "quiet s" and "store_ok paths s" and "db_constraints (w_db s)"
  shows "case authorize u prefix paths uuid name is_admin counted s of
      (Inr g, t) \<Rightarrow> os_fs t = os_fs s \<and> (\<exists>f. granted u prefix paths uuid name is_admin s f g
        \<and> w_db t = (if counted then started_db (rf_id f) (date_of (os_now s)) (w_db s) else w_db s))
    | (Inl e, t) \<Rightarrow> os_fs t = os_fs s \<and> not_granted uuid counted s e (w_db t)"
  using wp_authorize [OF assms, of u prefix uuid name is_admin counted]
  by (auto simp: wp_def split: prod.splits sum.splits)

theorem download_grant_chain_witness:
  "\<exists>g t. authorize ascii_only [47] demo_paths 7 [102] False True public_world = (Inr g, t)
     \<and> dg_internal_redirect_uri g = [47, 102] \<and> os_fs t = os_fs public_world
     \<and> (\<exists>f. granted ascii_only [47] demo_paths 7 [102] False public_world f g
          \<and> w_db t = started_db (rf_id f) (date_of (os_now public_world)) (w_db public_world))"
proof -
  obtain g t where run: "authorize ascii_only [47] demo_paths 7 [102] False True public_world = (Inr g, t)"
    and g: "dg_internal_redirect_uri g = [47, 102]"
    using public_authorize_run by (cases "authorize ascii_only [47] demo_paths 7 [102] False True public_world")
      (auto simp: run_value_def)
  with download_grant_chain [where u = ascii_only and prefix = "[47]" and uuid = 7 and name = "[102]"
      and is_admin = False and counted = True, OF public_quiet public_store_ok public_constraints]
  show ?thesis by auto
qed

text \<open>
  C35: the two places a download is counted agree: the total of a file is the sum of its daily
  rows, and every counted start is a successful one. Every authorisation keeps this, whatever
  its outcome and whatever statement of the database fails, and keeps the constraints of
  the tables.
\<close>

theorem download_counters_agree:
  assumes q: "quiet s" and ok: "store_ok paths s" and c: "db_constraints (w_db s)"
    and agree: "counts_agree (w_db s)"
    and run: "authorize u prefix paths uuid name is_admin counted s = (r, t)"
  shows "counts_agree (w_db t) \<and> db_constraints (w_db t)"
proof -
  have s: "stats_ok (w_db s)" using c by (simp add: db_constraints_def)
  have kept: "counts_agree d \<and> db_constraints d"
    if "f \<in> set (db_files (w_db s))"
      "d \<in> {w_db s, started_db (rf_id f) day (w_db s), blocked_db (rf_id f) day (w_db s)}" for f d day
    using that agree c counts_agree_kept [OF agree s] constraints_started [OF c] by auto
  note w = wp_authorize [OF q ok c, of u prefix uuid name is_admin counted]
  show ?thesis
  proof (cases r)
    case (Inr g)
    then obtain f where "granted u prefix paths uuid name is_admin s f g"
      and t: "w_db t = (if counted then started_db (rf_id f) (date_of (os_now s)) (w_db s) else w_db s)"
      using wp_run_Inr [OF w] run by blast
    then have "f \<in> set (db_files (w_db s))" by (auto simp: granted_def find_Some_iff)
    then show ?thesis using kept t by auto
  next
    case (Inl e)
    then have "not_granted uuid counted s e (w_db t)" using wp_run_Inl [OF w] run by blast
    then consider "w_db t = w_db s"
      | f where "f \<in> set (db_files (w_db s))" "w_db t \<in> {w_db s, started_db (rf_id f) (date_of (os_now s)) (w_db s),
            blocked_db (rf_id f) (date_of (os_now s)) (w_db s)}"
      unfolding not_granted_def by (auto split: if_splits)
    then show ?thesis using kept agree c by cases simp_all
  qed
qed

theorem download_counters_agree_witness:
  "\<exists>r t. authorize ascii_only [47] demo_paths 7 [102] False True public_world = (r, t)
     \<and> counts_agree (w_db t) \<and> db_constraints (w_db t)"
  using download_counters_agree [OF public_quiet public_store_ok public_constraints public_counts]
  by (metis surj_pair)





end
