(* ===== verification/SiteInvariant.thy ===== *)
theory SiteInvariant
  imports UploadProperties DownloadProperties
begin

text \<open>
  The file actions, the uploads and the downloads together: the states that any sequence of
  them can reach, and the invariant that ties rows to bytes in all of them.
\<close>

section \<open>Uploads keep the invariant\<close>

text \<open>The drawn names are in use neither in temporary storage nor in the software area.\<close>

definition fresh_upload :: "storage_paths \<Rightarrow> world \<Rightarrow> bool" where
  "fresh_upload paths s \<longleftrightarrow> fresh_temporary paths s
     \<and> (\<forall>ext raw p. sharded_relative_path (os_uuid s (os_uuid_next s) @ ext) = Inr raw
          \<longrightarrow> safe_relative raw p \<longrightarrow> files s (sp_software paths @ p) = None)"

lemma content_left_alone:
  assumes q: "quiet s" and c: "content_sound paths s"
    and f: "files t = files s" and l: "drifted s (w_db s) d" "failure_logged u audit d (w_db t)"
  shows "content_sound paths t"
proof -
  have d: "d = w_db s" using l(1) quiet_drifted [OF q] by simp
  show ?thesis using l(2) c f unfolding d failure_logged_def content_sound_def area_sound_def by auto
qed

lemma content_uploaded:
  assumes ok: "store_ok paths s" and q: "quiet s" and c: "content_sound paths s"
    and fresh: "fresh_upload paths s"
    and up: "uploaded u sha cfg paths scanner rid upload audit s f t"
  shows "content_sound paths t"
proof -
  obtain p where p: "safe_relative (rf_relative_storage_path f) p"
    and F: "files t = (files s)(sp_quarantine paths @ p \<mapsto> uf_content upload)"
    using up by (auto simp: uploaded_def)
  have files': "db_files (w_db t) = db_files (w_db s) @ [f]" and cons: "db_constraints (w_db t)"
    using up quiet_drifted [OF q] auditedD(8) unfolding uploaded_def by fastforce+
  obtain ext where "rf_storage_filename f = os_uuid s (os_uuid_next s) @ ext"
    "sharded_relative_path (rf_storage_filename f) = Inr (rf_relative_storage_path f)"
    using up by (auto simp: uploaded_def named_after_def)
  then have soft: "files s (sp_software paths @ p) = None"
    using fresh p unfolding fresh_upload_def by metis
  have status: "area_allowed (rf_status f) AreaQuarantine"
    using up initial_status_area unfolding uploaded_def describes_def by metis
  have old: "area_sound paths (w_db s) (files s)" using c by (simp add: content_sound_def)
  have at: "files t (area_root paths a @ q) =
      (if a = AreaQuarantine \<and> q = p then Some (uf_content upload) else files s (area_root paths a @ q))" for a q
  proof -
    have "area_root paths a @ q = sp_quarantine paths @ p \<longleftrightarrow> a = AreaQuarantine \<and> q = p"
      using areas_apart [OF ok, of a q AreaQuarantine p, unfolded area_root.simps]
      by (auto simp: area_root.simps)
    then show ?thesis by (simp add: F)
  qed
  have canon: "canonical f" unfolding canonical_def by (rule as_posix_safe [OF p])
  have mine: "q = p" if "safe_relative (rf_relative_storage_path f) q" for q
    using that p by (simp add: safe_relative_def)
  have "area_sound paths (w_db t) (files t)"
    unfolding area_sound_def
  proof (intro ballI conjI allI impI)
    fix h assume "h \<in> set (db_files (w_db t))"
    then have h: "h = f \<or> h \<in> set (db_files (w_db s))" using files' by auto
    show "canonical h"
      using h area_soundD(1) [OF old] canon by blast
    fix q a
    assume q: "safe_relative (rf_relative_storage_path h) q" and ne: "files t (area_root paths a @ q) \<noteq> None"
    show "area_allowed (rf_status h) a"
    proof (cases "h = f")
      case True
      then have qp: "q = p" using q mine by blast
      show ?thesis
      proof (cases a)
        case AreaSoftware
        then have "files t (area_root paths a @ q) = None"
          using at [of a q] soft by (simp only: area_root.simps qp) simp
        then show ?thesis using ne by contradiction
      next
        case AreaQuarantine
        then show ?thesis using status True by blast
      qed
    next
      case False
      then have h: "h \<in> set (db_files (w_db s))" using h by simp
      have "unique_by rf_relative_storage_path (db_files (w_db t))"
        using db_constraints_files(2) [OF cons] .
      then have "rf_relative_storage_path h \<noteq> rf_relative_storage_path f"
        using unique_byD [of rf_relative_storage_path "db_files (w_db t)" h f] h False files' by auto
      then have "q \<noteq> p" using q p safe_relative_inj by blast
      then have "files s (area_root paths a @ q) \<noteq> None"
        using ne unfolding at [of a q] by simp
      then show ?thesis using area_soundD(2) [OF old h q] by blast
    qed
  qed
  then show ?thesis using cons by (simp add: content_sound_def)
qed

lemma steady_sound:
  assumes "sound_world paths s" and "steady paths (os_fault s) (w_env s) t" and "content_sound paths t"
  shows "sound_world paths t"
proof -
  have "no_os_faults t" "quiet t"
    using assms by (auto simp: sound_world_def steady_def no_os_faults_def quiet_def)
  moreover have "steady paths (os_fault t) (w_env t) t" using assms(2) by (simp add: steady_def)
  ultimately show ?thesis using assms(3) by (simp add: sound_world_iff)
qed

lemma upload_sound:
  assumes s: "sound_world paths s" and fresh: "fresh_upload paths s" and n: "0 < us_upload_chunk_size cfg"
    and run: "upload_release_file u netloc_ok wr sha cfg paths scanner rid upload metadata audit s = (r, t)"
  shows "sound_world paths t"
proof -
  have ok: "store_ok paths s" and nf: "no_os_faults s" and q: "quiet s" and c: "content_sound paths s"
    using s by (auto simp: sound_world_def content_sound_def)
  have ft: "fresh_temporary paths s" using fresh by (simp add: fresh_upload_def)
  note w = wp_upload_release_file [OF ok n, of u netloc_ok wr sha scanner rid upload metadata audit]
  show ?thesis
  proof (cases r)
    case (Inl e)
    then have "left_alone u audit paths s t" using wp_run_Inl [OF w] run by blast
    then show ?thesis
      using steady_sound [OF s] content_left_alone [OF q c] nf ft unfolding left_alone_def by blast
  next
    case (Inr f)
    then have "steady paths (os_fault s) (w_env s) t" "uploaded u sha cfg paths scanner rid upload audit s f t"
      using wp_run_Inr [OF w] run by blast+
    then show ?thesis using steady_sound [OF s] content_uploaded [OF ok q c fresh] by blast
  qed
qed

section \<open>Downloads keep the invariant\<close>

lemma content_counted:
  assumes c: "content_sound paths s" and cons: "db_constraints d" and f: "files t = files s" and t: "w_db t = d"
    and d: "d \<in> {w_db s, started_db i day (w_db s), blocked_db i day (w_db s)}"
  shows "content_sound paths t"
proof -
  have old: "area_sound paths (w_db s) (files s)" using c by (simp add: content_sound_def)
  have same: "\<exists>g \<in> set (db_files (w_db s)). rf_relative_storage_path h = rf_relative_storage_path g \<and> rf_status h = rf_status g"
    if "h \<in> set (db_files d)" for h
    using that d
    by (auto simp: started_db_def blocked_db_def count_start_def row_update_def split: if_splits) blast+
  have "area_sound paths d (files s)"
    unfolding area_sound_def
  proof (intro ballI conjI allI impI)
    fix h assume "h \<in> set (db_files d)"
    then obtain g where g: "g \<in> set (db_files (w_db s))"
      "rf_relative_storage_path h = rf_relative_storage_path g" "rf_status h = rf_status g"
      using same by blast
    show "canonical h" using area_soundD(1) [OF old g(1)] g(2) by (simp add: canonical_def)
    fix q a assume "safe_relative (rf_relative_storage_path h) q" "files s (area_root paths a @ q) \<noteq> None"
    then show "area_allowed (rf_status h) a" using area_soundD(2) [OF old g(1)] g by simp
  qed
  then show ?thesis using cons f t by (simp add: content_sound_def)
qed

lemma keeps_read_session:
  assumes "\<And>s. wp m (\<lambda>_ t. db_only s t) (\<lambda>_ t. db_only s t) s"
  shows "keeps (steady paths faults env) (read_session m)"
proof (rule keeps_db)
  fix s
  have "wp (read_session m)
     (\<lambda>x t. db_only s t \<and> drifted s (w_db s) (w_db t) \<and> (\<lambda>_ _. True) x (w_db t))
     (\<lambda>e t. db_only s t \<and> drifted s (w_db s) (w_db t) \<and> (\<lambda>_ _. True) e (w_db t)) s"
    by (rule wp_read_session) (use assms in \<open>auto intro: wp_mono [OF assms]\<close>)
  then show "wp (read_session m) (\<lambda>_ t. db_only s t) (\<lambda>_ t. db_only s t) s"
    by (rule wp_mono) auto
qed

lemma wp_started_rows:
  "wp (record_authorized_start_rows i day) (\<lambda>_ t. db_only s t) (\<lambda>_ t. db_only s t) s"
  by (auto simp: record_authorized_start_rows_def upsert_daily_def execute_def wp_simps)

lemma wp_blocked_rows:
  "wp (record_blocked_rows i day) (\<lambda>_ t. db_only s t) (\<lambda>_ t. db_only s t) s"
  by (auto simp: record_blocked_rows_def upsert_daily_def execute_def wp_simps)

lemma wp_query_only: "wp (query f) (\<lambda>_ t. db_only s t) (\<lambda>_ t. db_only s t) s"
  by (auto simp: wp_simps)

lemma keeps_utc_now: "keeps (steady paths faults env) utc_now"
  by (simp add: keeps_def utc_now_def wp_simps)

lemmas keeps_counting = keeps_transaction [OF wp_started_rows] keeps_transaction [OF wp_blocked_rows]
  keeps_read_session [OF wp_query_only] keeps_utc_now

lemma keeps_option: "keeps I m \<Longrightarrow> (\<And>x. keeps I (f x)) \<Longrightarrow> keeps I (case z of None \<Rightarrow> m | Some x \<Rightarrow> f x)"
  by (cases z) simp_all

lemma keeps_authorize:
  "keeps (steady paths faults env) (authorize u prefix paths uuid name is_admin counted)"
  unfolding authorize_def refuse_download_def record_blocked_def record_authorized_start_def
  by (intro keeps_rules keeps_counting keeps_option)

section \<open>The content of stored files\<close>

text \<open>What is stored under the path of a row has its digest and its size.\<close>

definition intact :: "(bytes \<Rightarrow> str) \<Rightarrow> storage_paths \<Rightarrow> world \<Rightarrow> bool" where
  "intact sha paths s \<longleftrightarrow> (\<forall>f \<in> set (db_files (w_db s)). \<forall>p a b.
     safe_relative (rf_relative_storage_path f) p \<longrightarrow> files s (area_root paths a @ p) = Some b \<longrightarrow>
     sha b = rf_sha256 f \<and> int (length b) = rf_file_size_bytes f)"

definition content_key :: "release_file \<Rightarrow> str \<times> str \<times> int" where
  "content_key f = (rf_relative_storage_path f, rf_sha256 f, rf_file_size_bytes f)"

text \<open>No row changes what it says of its content, and bytes at most change their area.\<close>

definition rows_kept :: "database \<Rightarrow> database \<Rightarrow> bool" where
  "rows_kept d d' \<longleftrightarrow> content_key ` set (db_files d') \<subseteq> content_key ` set (db_files d)"

definition bytes_kept :: "storage_paths \<Rightarrow> (path \<Rightarrow> bytes option) \<Rightarrow> (path \<Rightarrow> bytes option) \<Rightarrow> bool" where
  "bytes_kept paths F G \<longleftrightarrow>
     (\<forall>a p b. G (area_root paths a @ p) = Some b \<longrightarrow> (\<exists>a'. F (area_root paths a' @ p) = Some b))"

definition content_kept :: "storage_paths \<Rightarrow> world \<Rightarrow> world \<Rightarrow> bool" where
  "content_kept paths s t \<longleftrightarrow> rows_kept (w_db s) (w_db t) \<and> bytes_kept paths (files s) (files t)"

lemma intact_kept: "intact sha paths s \<Longrightarrow> content_kept paths s t \<Longrightarrow> intact sha paths t"
  unfolding intact_def content_kept_def rows_kept_def bytes_kept_def
proof (intro ballI allI impI)
  fix f p a b
  assume i: "\<forall>f \<in> set (db_files (w_db s)). \<forall>p a b.
      safe_relative (rf_relative_storage_path f) p \<longrightarrow> files s (area_root paths a @ p) = Some b \<longrightarrow>
      sha b = rf_sha256 f \<and> int (length b) = rf_file_size_bytes f"
    and k: "content_key ` set (db_files (w_db t)) \<subseteq> content_key ` set (db_files (w_db s))
      \<and> (\<forall>a p b. files t (area_root paths a @ p) = Some b \<longrightarrow> (\<exists>a'. files s (area_root paths a' @ p) = Some b))"
    and f: "f \<in> set (db_files (w_db t))" and p: "safe_relative (rf_relative_storage_path f) p"
    and b: "files t (area_root paths a @ p) = Some b"
  obtain g where g: "g \<in> set (db_files (w_db s))" "content_key f = content_key g" using k f by blast
  obtain a' where "files s (area_root paths a' @ p) = Some b" using k b by blast
  then show "sha b = rf_sha256 f \<and> int (length b) = rf_file_size_bytes f"
    using i g p by (auto simp: content_key_def)
qed

lemma rows_kept_refl [simp, intro]: "rows_kept d d" by (simp add: rows_kept_def)

lemma bytes_kept_refl [simp, intro]: "bytes_kept paths F F" by (auto simp: bytes_kept_def)

lemma bytes_kept_moved:
  "moved F (area_root paths a @ p) (area_root paths b @ p) G \<Longrightarrow> store_ok paths s \<Longrightarrow> bytes_kept paths F G"
  unfolding bytes_kept_def
proof (intro allI impI)
  fix c q x
  assume m: "moved F (area_root paths a @ p) (area_root paths b @ p) G" and ok: "store_ok paths s"
    and x: "G (area_root paths c @ q) = Some x"
  show "\<exists>a'. F (area_root paths a' @ q) = Some x"
  proof (cases "area_root paths c @ q = area_root paths b @ p")
    case True
    then have "q = p" using areas_apart [OF ok] by blast
    then show ?thesis using movedD(2) [OF m] True x by metis
  next
    case False
    moreover have "area_root paths c @ q \<noteq> area_root paths a @ p" using movedD(1) [OF m] x by auto
    ultimately show ?thesis using movedD(3) [OF m] x by metis
  qed
qed

lemma same_content_key: "same_file_content f g \<Longrightarrow> content_key g = content_key f"
  by (simp add: same_file_content_def content_key_def)

lemma rows_kept_changed:
  assumes "file_changed u audit action i P d d'" and "\<And>f r w g. P f r w g \<Longrightarrow> same_file_content f g"
  shows "rows_kept d d'"
proof -
  obtain f r w g where g: "graph_at d i f r w" "P f r w g"
    and d': "db_files d' = row_update rf_id i (\<lambda>_. g) (db_files d)"
    using assms(1) by (rule file_changed_files)
  have "row_get rf_id i (db_files d) = Some f" using g(1) by (simp add: graph_at_def)
  then have "f \<in> set (db_files d)" by (rule row_get_Some [THEN conjunct1])
  moreover have "content_key g = content_key f" using same_content_key [OF assms(2) [OF g(2)]] .
  ultimately show ?thesis by (auto simp: rows_kept_def d' row_update_def)
qed

lemma rows_kept_dropped: "file_dropped u audit action i P rel d d' \<Longrightarrow> rows_kept d d'"
  using file_dropped_files unfolding rows_kept_def by blast

lemma moved_to_same: "moved_to target f r w g \<Longrightarrow> same_file_content f g"
  using apply_file_transition_same by blast

section \<open>Every file action keeps the content\<close>

lemma kept_same: "quiet s \<Longrightarrow> files t = files s \<Longrightarrow> drifted s (w_db s) (w_db t) \<Longrightarrow> content_kept paths s t"
  by (simp add: content_kept_def quiet_drifted)

lemma kept_publish:
  assumes ok: "store_ok paths s" and q: "quiet s" and p: "publish_done u sha paths i audit s t"
  shows "content_kept paths s t"
proof -
  have "publish_effect u sha paths i audit s (files t) (w_db t)"
    using p quiet_drifted [OF q] by (auto simp: publish_done_def)
  then obtain path p where mv: "moved (files s) (sp_quarantine paths @ p) (sp_software paths @ p) (files t)"
    and ch: "file_changed u audit FILE_PUBLISHED i (published_row u path) (w_db s) (w_db t)"
    unfolding publish_effect_def quiet_drifted [OF q] by blast
  show ?thesis
    using bytes_kept_moved [OF mv [unfolded area_root_simps] ok] rows_kept_changed [OF ch]
    by (simp add: content_kept_def published_row_def)
qed

lemma kept_restore:
  assumes ok: "store_ok paths s" and q: "quiet s" and p: "restore_done u paths i audit s t"
  shows "content_kept paths s t"
proof -
  have "restore_effect u paths i audit s (files t) (w_db t)"
    using p quiet_drifted [OF q] by (auto simp: restore_done_def)
  then obtain a p where mv: "if a = AreaSoftware
        then moved (files s) (sp_software paths @ p) (sp_quarantine paths @ p) (files t) else files t = files s"
    and ch: "file_changed u audit FILE_RESTORED i (moved_to FileReady) (w_db s) (w_db t)"
    unfolding restore_effect_def quiet_drifted [OF q] by blast
  have "bytes_kept paths (files s) (files t)"
  proof (cases "a = AreaSoftware")
    case True
    then have "moved (files s) (area_root paths AreaSoftware @ p) (area_root paths AreaQuarantine @ p) (files t)"
      using mv [unfolded area_root_simps] by simp
    then show ?thesis by (rule bytes_kept_moved [OF _ ok])
  qed (use mv in simp)
  then show ?thesis using rows_kept_changed [OF ch moved_to_same] by (simp add: content_kept_def)
qed

lemma kept_transition:
  assumes q: "quiet s" and p: "transition_done u paths i audit action target A s t"
  shows "content_kept paths s t"
proof -
  have "file_changed u audit action i (moved_to target) (w_db s) (w_db t)" "files t = files s"
    using p unfolding transition_done_def transition_effect_def quiet_drifted [OF q] by blast+
  then show ?thesis using rows_kept_changed [OF _ moved_to_same] by (simp add: content_kept_def)
qed

lemma kept_delete:
  assumes q: "quiet s" and p: "delete_effect u paths i audit s t"
  shows "content_kept paths s t"
proof -
  obtain a p P rel where F: "files t = (files s)(area_root paths a @ p := None)"
    and d: "file_dropped u audit FILE_PERMANENTLY_DELETED i P rel (w_db s) (w_db t)"
    using p unfolding delete_effect_def quiet_drifted [OF q] by blast
  have "bytes_kept paths (files s) (files t)" by (auto simp: F bytes_kept_def split: if_splits)
  then show ?thesis using rows_kept_dropped [OF d] by (simp add: content_kept_def)
qed

lemma kept_drop:
  assumes q: "quiet s" and p: "drop_effect u i audit s (w_db t)" "files t = files s"
  shows "content_kept paths s t"
  using p rows_kept_dropped unfolding drop_effect_def quiet_drifted [OF q] content_kept_def by auto

lemma kept_verify:
  assumes q: "quiet s" and p: "verify_effect u sha paths i audit s t f" "files t = files s"
  shows "content_kept paths s t"
proof -
  have "db_files (w_db t) = db_files (w_db s)"
    using p(1) auditedD(8) unfolding verify_effect_def quiet_drifted [OF q] by blast
  then show ?thesis using p(2) by (simp add: content_kept_def rows_kept_def)
qed

lemma run_action_kept:
  assumes "sound_world paths s"
  shows "wp (run_action u sha paths audit act) (\<lambda>_. content_kept paths s) (\<lambda>_. content_kept paths s) s"
proof -
  have ok: "store_ok paths s" and nf: "no_os_faults s" and q: "quiet s"
    using assms by (auto simp: sound_world_def)
  note same = kept_same [OF q]
  note trans = kept_transition [OF q]
  show ?thesis
    unfolding run_action_def
  proof (cases act; simp only: file_action.case; rule wp_ignore_result)
    fix i
    show "wp (verify_integrity u sha paths i audit) (\<lambda>_. content_kept paths s) (\<lambda>_. content_kept paths s) s"
      by (rule wp_mono [OF wp_verify_integrity [OF ok]]) (use kept_verify [OF q] same in blast)+
    show "wp (review_status u sha paths i target audit) (\<lambda>_. content_kept paths s) (\<lambda>_. content_kept paths s) s" for target
      by (rule wp_mono [OF wp_review_status [OF ok]]) (use trans same in \<open>blast | clarsimp\<close>)+
    show "wp (publish u sha paths i audit) (\<lambda>_. content_kept paths s) (\<lambda>_. content_kept paths s) s"
      by (rule wp_mono [OF wp_publish [OF ok]])
        (use kept_publish [OF ok q] same nf in \<open>blast | clarsimp\<close>)+
    show "wp (disable u sha paths i audit) (\<lambda>_. content_kept paths s) (\<lambda>_. content_kept paths s) s"
      unfolding disable_def
      by (rule wp_mono [OF wp_transition_with_storage_check [OF ok]])
        (use trans same in \<open>blast | clarsimp\<close>)+
    show "wp (archive u sha paths i audit) (\<lambda>_. content_kept paths s) (\<lambda>_. content_kept paths s) s"
      unfolding archive_def
      by (rule wp_mono [OF wp_transition_with_storage_check [OF ok]])
        (use trans same in \<open>blast | clarsimp\<close>)+
    show "wp (restore_ready u sha paths i audit) (\<lambda>_. content_kept paths s) (\<lambda>_. content_kept paths s) s"
      by (rule wp_mono [OF wp_restore_ready [OF ok]])
        (use kept_restore [OF ok q] same nf in \<open>blast | clarsimp\<close>)+
    show "wp (delete_metadata u paths i audit) (\<lambda>_. content_kept paths s) (\<lambda>_. content_kept paths s) s"
      by (rule wp_mono [OF wp_delete_metadata [OF ok]]) (use kept_drop [OF q] same in blast)+
    show "wp (permanently_delete u sha paths i audit) (\<lambda>_. content_kept paths s) (\<lambda>_. content_kept paths s) s"
      by (rule wp_mono [OF wp_permanently_delete [OF ok]])
        (use kept_delete [OF q] same nf in blast)+
  qed
qed

section \<open>The state machine\<close>

datatype site_request =
    FileRequest "audit_context option" file_action
  | UploadRequest file_scanner nat upload_file upload_metadata "audit_context option"
  | DownloadRequest nat str bool bool

fun is_upload :: "site_request \<Rightarrow> bool" where
  "is_upload (UploadRequest _ _ _ _ _) = True"
| "is_upload _ = False"

definition serve ::
  "unicode \<Rightarrow> (str \<Rightarrow> bool) \<Rightarrow> (nat \<Rightarrow> nat \<Rightarrow> nat) \<Rightarrow> (bytes \<Rightarrow> str) \<Rightarrow> upload_settings \<Rightarrow> str \<Rightarrow>
   storage_paths \<Rightarrow> site_request \<Rightarrow> unit svc" where
  "serve u netloc_ok wr sha cfg prefix paths request =
     (case request of
        FileRequest audit act \<Rightarrow> run_action u sha paths audit act
      | UploadRequest scanner rid upload metadata audit \<Rightarrow>
          bind (upload_release_file u netloc_ok wr sha cfg paths scanner rid upload metadata audit) (\<lambda>_. ret ())
      | DownloadRequest uuid name is_admin counted \<Rightarrow>
          bind (authorize u prefix paths uuid name is_admin counted) (\<lambda>_. ret ()))"

lemma bind_ret_result:
  assumes "bind m (\<lambda>_. ret ()) s = (r, t)"
  obtains r' where "m s = (r', t)"
  using assms by (auto simp: bind_def ret_def split: prod.splits sum.splits)

text \<open>What an authorisation may write: one count, and no bytes.\<close>

lemma authorize_counts:
  assumes q: "quiet s" and ok: "store_ok paths s" and c: "db_constraints (w_db s)"
    and run: "authorize u prefix paths uuid name is_admin counted s = (r, t)"
  obtains i day where "files t = files s" "db_constraints (w_db t)"
    "w_db t \<in> {w_db s, started_db i day (w_db s), blocked_db i day (w_db s)}"
proof -
  note w = wp_authorize [OF q ok c, of u prefix uuid name is_admin counted]
  let ?day = "date_of (os_now s)"
  have "os_fs t = os_fs s \<and> (w_db t = w_db s \<or> (\<exists>f \<in> set (db_files (w_db s)).
      w_db t \<in> {w_db s, started_db (rf_id f) ?day (w_db s), blocked_db (rf_id f) ?day (w_db s)}))"
  proof (cases r)
    case (Inr g)
    then obtain f where "granted u prefix paths uuid name is_admin s f g" "os_fs t = os_fs s"
      and t: "w_db t = (if counted then started_db (rf_id f) ?day (w_db s) else w_db s)"
      using wp_run_Inr [OF w] run by blast
    then have "f \<in> set (db_files (w_db s))" by (auto simp: granted_def find_Some_iff)
    then show ?thesis using t \<open>os_fs t = os_fs s\<close> by auto
  next
    case (Inl e)
    then have "not_granted uuid counted s e (w_db t)" "os_fs t = os_fs s"
      using wp_run_Inl [OF w] run by blast+
    then show ?thesis by (auto simp: not_granted_def split: if_splits)
  qed
  then consider "files t = files s" "w_db t = w_db s"
    | f where "files t = files s" "f \<in> set (db_files (w_db s))"
        "w_db t \<in> {w_db s, started_db (rf_id f) ?day (w_db s), blocked_db (rf_id f) ?day (w_db s)}"
    by (auto simp: files_def file_at_def)
  then show thesis
  proof cases
    case 1
    then show thesis using that c by simp
  next
    case 2
    then have "db_constraints (w_db t)" using constraints_started [OF c, of "rf_id f" ?day] c by auto
    then show thesis using that 2 by blast
  qed
qed

lemma rows_kept_counted: "rows_kept d (started_db i day d)" "rows_kept d (blocked_db i day d)"
  by (auto simp: rows_kept_def started_db_def blocked_db_def count_start_def row_update_def content_key_def
      image_iff intro: bexI)

lemma download_kept:
  assumes s: "sound_world paths s"
    and run: "authorize u prefix paths uuid name is_admin counted s = (r, t)"
  shows "sound_world paths t \<and> content_kept paths s t"
proof -
  have ok: "store_ok paths s" and q: "quiet s" and cons: "db_constraints (w_db s)"
    and c: "content_sound paths s" and st: "steady paths (os_fault s) (w_env s) s"
    using s by (auto simp: sound_world_def content_sound_def steady_def)
  have steady: "steady paths (os_fault s) (w_env s) t"
    using keeps_run [OF keeps_authorize] st run by blast
  obtain i day where t: "files t = files s" "db_constraints (w_db t)"
    "w_db t \<in> {w_db s, started_db i day (w_db s), blocked_db i day (w_db s)}"
    using q ok cons run by (rule authorize_counts)
  have "rows_kept (w_db s) (w_db t)" using t(3) rows_kept_counted by auto
  then show ?thesis
    using steady_sound [OF s steady] content_counted [OF c t(2,1) refl t(3)] t(1)
    by (simp add: content_kept_def)
qed

text \<open>An upload adds one row with its own bytes.\<close>

lemma upload_intact:
  assumes s: "sound_world paths s" and fresh: "fresh_upload paths s" and n: "0 < us_upload_chunk_size cfg"
    and i: "intact sha paths s"
    and run: "upload_release_file u netloc_ok wr sha cfg paths scanner rid upload metadata audit s = (r, t)"
  shows "intact sha paths t"
proof -
  have ok: "store_ok paths s" and nf: "no_os_faults s" and q: "quiet s"
    using s by (auto simp: sound_world_def)
  note w = wp_upload_release_file [OF ok n, of u netloc_ok wr sha scanner rid upload metadata audit]
  show ?thesis
  proof (cases r)
    case (Inl e)
    then have la: "left_alone u audit paths s t" using wp_run_Inl [OF w] run by blast
    have "files t = files s" using la nf fresh by (simp add: left_alone_def fresh_upload_def)
    moreover have "failure_logged u audit (w_db s) (w_db t)"
      using la quiet_drifted [OF q] by (auto simp: left_alone_def)
    then have "db_files (w_db t) = db_files (w_db s)" by (auto simp: failure_logged_def)
    ultimately show ?thesis using i by (simp add: intact_def)
  next
    case (Inr f)
    then have up: "uploaded u sha cfg paths scanner rid upload audit s f t"
      using wp_run_Inr [OF w] run by blast
    have "sound_world paths t" using upload_sound [OF s fresh n run] .
    then have cons: "db_constraints (w_db t)" by (simp add: sound_world_def)
    obtain p where p: "safe_relative (rf_relative_storage_path f) p"
      and F: "files t = (files s)(sp_quarantine paths @ p \<mapsto> uf_content upload)"
      using up by (auto simp: uploaded_def)
    have files': "db_files (w_db t) = db_files (w_db s) @ [f]"
      using up quiet_drifted [OF q] auditedD(8) unfolding uploaded_def by fastforce
    have soft: "files s (sp_software paths @ p) = None"
      using fresh p up unfolding fresh_upload_def uploaded_def named_after_def by metis
    have mine: "rf_sha256 f = sha (uf_content upload)" "rf_file_size_bytes f = int (length (uf_content upload))"
      using up by (simp_all add: uploaded_def describes_def)
    show ?thesis
      unfolding intact_def
    proof (intro ballI allI impI)
      fix h q a b
      assume h: "h \<in> set (db_files (w_db t))" and hq: "safe_relative (rf_relative_storage_path h) q"
        and b: "files t (area_root paths a @ q) = Some b"
      show "sha b = rf_sha256 h \<and> int (length b) = rf_file_size_bytes h"
      proof (cases "q = p")
        case True
        then have "rf_relative_storage_path h = rf_relative_storage_path f" using hq p safe_relative_inj by blast
        then have hf: "h = f"
          using unique_byD [OF db_constraints_files(2) [OF cons] h, of f] files' by simp
        have "b = uf_content upload"
        proof (cases a)
          case AreaSoftware
          then show ?thesis
            using b F soft areas_apart [OF ok, of AreaSoftware p AreaQuarantine p]
            by (auto simp: True area_root.simps split: if_splits)
        qed (use b F in \<open>simp add: True area_root.simps\<close>)
        then show ?thesis using mine hf by simp
      next
        case False
        then have "area_root paths a @ q \<noteq> sp_quarantine paths @ p"
          using areas_apart [OF ok, of a q AreaQuarantine p, unfolded area_root.simps] by blast
        then have old: "files s (area_root paths a @ q) = Some b" using b F by simp
        have "h \<noteq> f" using False hq p by (auto simp: safe_relative_def)
        then have "h \<in> set (db_files (w_db s))" using h files' by simp
        then show ?thesis using i hq old unfolding intact_def by blast
      qed
    qed
  qed
qed

text \<open>Every request keeps both invariants.\<close>

lemma serve_sound:
  assumes s: "sound_world paths s" and i: "intact sha paths s" and n: "0 < us_upload_chunk_size cfg"
    and fresh: "is_upload request \<longrightarrow> fresh_upload paths s"
    and run: "serve u netloc_ok wr sha cfg prefix paths request s = (r, t)"
  shows "sound_world paths t \<and> intact sha paths t"
proof (cases request)
  case (FileRequest audit act)
  then have run': "run_action u sha paths audit act s = (r, t)" using run by (simp add: serve_def)
  have "content_kept paths s t"
    using run_action_kept [OF s, of u sha audit act] run' by (cases r) (auto simp: wp_iff_run)
  then show ?thesis using run_action_sound [OF s run'] intact_kept [OF i] by blast
next
  case (UploadRequest scanner rid upload metadata audit)
  then have fresh': "fresh_upload paths s" using fresh by simp
  have "bind (upload_release_file u netloc_ok wr sha cfg paths scanner rid upload metadata audit)
      (\<lambda>_. ret ()) s = (r, t)"
    using run UploadRequest by (simp add: serve_def)
  then obtain r' where
    run': "upload_release_file u netloc_ok wr sha cfg paths scanner rid upload metadata audit s = (r', t)"
    by (rule bind_ret_result)
  show ?thesis using upload_sound [OF s fresh' n run'] upload_intact [OF s fresh' n i run'] by blast
next
  case (DownloadRequest uuid name is_admin counted)
  then have "bind (authorize u prefix paths uuid name is_admin counted) (\<lambda>_. ret ()) s = (r, t)"
    using run by (simp add: serve_def)
  then obtain r' where run': "authorize u prefix paths uuid name is_admin counted s = (r', t)"
    by (rule bind_ret_result)
  show ?thesis using download_kept [OF s run'] intact_kept [OF i] by blast
qed

text \<open>The states any sequence of requests can reach when identifiers are not drawn twice.\<close>

inductive site_reachable ::
  "unicode \<Rightarrow> (str \<Rightarrow> bool) \<Rightarrow> (nat \<Rightarrow> nat \<Rightarrow> nat) \<Rightarrow> (bytes \<Rightarrow> str) \<Rightarrow> upload_settings \<Rightarrow> str \<Rightarrow>
   storage_paths \<Rightarrow> world \<Rightarrow> world \<Rightarrow> bool"
  for u netloc_ok wr sha cfg prefix paths s where
  start: "site_reachable u netloc_ok wr sha cfg prefix paths s s"
| request: "site_reachable u netloc_ok wr sha cfg prefix paths s t \<Longrightarrow>
    is_upload request \<longrightarrow> fresh_upload paths t \<Longrightarrow> serve u netloc_ok wr sha cfg prefix paths request t = (r, t') \<Longrightarrow>
    site_reachable u netloc_ok wr sha cfg prefix paths s t'"

lemma site_reachable_sound:
  assumes "site_reachable u netloc_ok wr sha cfg prefix paths s t"
    and "sound_world paths s" and "intact sha paths s" and "0 < us_upload_chunk_size cfg"
  shows "sound_world paths t \<and> intact sha paths t"
  using assms by (induction rule: site_reachable.induct) (auto dest: serve_sound)

section \<open>What is downloaded\<close>

lemma demo_intact: "intact demo_sha demo_paths demo_world"
proof -
  have "safe_relative [102] [[102]]" unfolding safe_relative_def by code_simp
  then have p: "p = [[102]]" if "safe_relative [102] p" for p using that by (simp add: safe_relative_def)
  have row: "rf_sha256 demo_file = demo_sha demo_bytes" "rf_file_size_bytes demo_file = 4"
    by (simp_all add: demo_file_def)
  have at: "files demo_world (area_root demo_paths a @ [[102]]) = Some b \<Longrightarrow> b = demo_bytes" for a b
    by (cases a) (simp_all add: area_root.simps demo_world_def demo_fs_def demo_paths_def files_def file_at_def)
  have len: "length demo_bytes = 4" by (simp add: demo_bytes_def)
  show ?thesis
    unfolding intact_def demo_world_simps demo_row(1) by (auto simp: row demo_row(3) len dest!: p at)
qed

text \<open>The installation after its file was published.\<close>

definition published_world :: world where
  "published_world = snd (run_action ascii_only demo_sha demo_paths None (Publish 1) demo_world)"

definition is_granted :: "(exn + 'a) \<times> 's \<Rightarrow> bool" where
  "is_granted z = (case fst z of Inl _ \<Rightarrow> False | Inr _ \<Rightarrow> True)"

lemma demo_download_run:
  "is_granted (authorize ascii_only [47] demo_paths 7 [102] False True published_world)"
  by code_simp

lemma published_reachable:
  "site_reachable ascii_only (\<lambda>_. True) (\<lambda>_ _. 8) demo_sha demo_upload_settings [47] demo_paths
     demo_world published_world"
proof -
  obtain r where "run_action ascii_only demo_sha demo_paths None (Publish 1) demo_world = (r, published_world)"
    unfolding published_world_def by (metis surj_pair snd_conv)
  then have "serve ascii_only (\<lambda>_. True) (\<lambda>_ _. 8) demo_sha demo_upload_settings [47] demo_paths
      (FileRequest None (Publish 1)) demo_world = (r, published_world)"
    by (simp add: serve_def)
  then show ?thesis by (intro site_reachable.request [OF site_reachable.start]) simp_all
qed

text \<open>
  C3: what is downloaded is what was uploaded. In every state that uploads, reviews,
  publications, withdrawals, deletions and downloads can reach from a sound installation, in
  any order and whatever each of them answers, an authorised download names a published row
  whose bytes lie in the software area and not in quarantine, and these bytes have the size
  and the SHA-256 of the row, which is the digest in the entity tag of the response.
\<close>

theorem downloads_serve_recorded_bytes:
  assumes reach: "site_reachable u netloc_ok wr sha cfg prefix paths s t"
    and start: "sound_world paths s" "intact sha paths s" and n: "0 < us_upload_chunk_size cfg"
    and run: "authorize u prefix paths uuid name is_admin counted t = (Inr g, t')"
  shows "\<exists>f p b. f \<in> set (db_files (w_db t)) \<and> rf_public_uuid f = uuid \<and> rf_status f = FilePublished
     \<and> safe_relative (rf_relative_storage_path f) p
     \<and> files t' (sp_software paths @ p) = Some b \<and> files t' (sp_quarantine paths @ p) = None
     \<and> sha b = rf_sha256 f \<and> int (length b) = rf_file_size_bytes f
     \<and> dg_etag g = [34] @ py ''sha256-'' @ sha b @ [34]"
proof -
  have t: "sound_world paths t" "intact sha paths t"
    using site_reachable_sound [OF reach start n] by simp_all
  then have ok: "store_ok paths t" and q: "quiet t" and c: "db_constraints (w_db t)"
    and area: "area_sound paths (w_db t) (files t)"
    by (simp_all add: sound_world_def)
  obtain f where gr: "granted u prefix paths uuid name is_admin t f g" and fs: "os_fs t' = os_fs t"
    using wp_run_Inr [OF wp_authorize [OF q ok c, of u prefix uuid name is_admin counted] run] by blast
  obtain r w st where f: "f \<in> set (db_files (w_db t))" "rf_public_uuid f = uuid"
    and can: "can_download_file f r w is_admin" and loc: "located t paths (rf_relative_storage_path f) st"
    and soft: "st_area st = AreaSoftware" and hd: "download_headers u prefix f st = Inr g"
    using gr by (auto simp: granted_def find_Some_iff)
  have canon: "as_posix (rf_relative_storage_path f) = rf_relative_storage_path f"
    using area_soundD(1) [OF area f(1)] by (simp add: canonical_def)
  obtain p b where p: "safe_relative (rf_relative_storage_path f) p"
    and b: "files t (area_root paths AreaSoftware @ p) = Some b"
    and other: "os_fs t (area_root paths AreaQuarantine @ p) = None"
    using loc soft unfolding located_def canon by auto
  have sha: "sha b = rf_sha256 f" "int (length b) = rf_file_size_bytes f"
    using t(2) f(1) p b unfolding intact_def by blast+
  have "rf_status f = FilePublished" using can by (auto simp: can_download_file_def split: if_splits)
  moreover have "files t' = files t" using fs by (simp add: files_def file_at_def fun_eq_iff)
  moreover have "dg_etag g = [34] @ py ''sha256-'' @ rf_sha256 f @ [34]"
    using hd by (auto simp: download_headers_def Let_def rbind_eq_Inr)
  ultimately show ?thesis
    using f p b other sha by (auto simp: area_root.simps files_def file_at_def intro!: exI [of _ f] exI [of _ p])
qed

theorem downloads_serve_recorded_bytes_witness:
  "\<exists>g t f p b. authorize ascii_only [47] demo_paths 7 [102] False True published_world = (Inr g, t)
     \<and> f \<in> set (db_files (w_db published_world)) \<and> rf_public_uuid f = 7 \<and> rf_status f = FilePublished
     \<and> safe_relative (rf_relative_storage_path f) p
     \<and> files t (sp_software demo_paths @ p) = Some b \<and> files t (sp_quarantine demo_paths @ p) = None
     \<and> demo_sha b = rf_sha256 f \<and> int (length b) = rf_file_size_bytes f
     \<and> dg_etag g = [34] @ py ''sha256-'' @ demo_sha b @ [34]"
proof -
  obtain g t where run: "authorize ascii_only [47] demo_paths 7 [102] False True published_world = (Inr g, t)"
    using demo_download_run
    by (cases "authorize ascii_only [47] demo_paths 7 [102] False True published_world")
      (auto simp: is_granted_def split: sum.splits)
  show ?thesis
    using downloads_serve_recorded_bytes [OF published_reachable demo_sound demo_intact demo_chunks run] run
    by blast
qed

end
