(* ===== verification/ReconciliationSpecs.thy ===== *)
theory ReconciliationSpecs
  imports AreaInvariant Demo
begin

text \<open>
  The directory walk of the reconciliation service and the deletion of orphans: the walk ends
  and misses nothing, the deletion removes unreferenced files only, as long as the operating
  system works.
\<close>

section \<open>The walk without faults\<close>

fun visits :: "listing \<Rightarrow> fs \<Rightarrow> nat \<Rightarrow> path \<Rightarrow> visited list" where
  "visits ls f 0 cur = []"
| "visits ls f (Suc n) cur =
     \<lparr>vis_current = cur, vis_unsafe = [],
      vis_file_names = filter (\<lambda>c. \<not> is_real_dir f (cur @ [c])) (ls f cur)\<rparr>
     # concat (map (\<lambda>c. visits ls f n (cur @ [c])) (filter (\<lambda>c. is_real_dir f (cur @ [c])) (ls f cur)))"

lemma real_dir_no_link: "is_real_dir f p \<Longrightarrow> \<not> is_symlink f p"
  by (auto simp: is_real_dir_def is_symlink_def split: option.splits node.splits)

lemma no_unsafe_directories:
  "filter (\<lambda>n. is_symlink f (cur @ [n])) (filter (\<lambda>n. is_real_dir f (cur @ [n])) names) = []"
  using real_dir_no_link by (auto simp: filter_empty_conv)

lemma wp_map_looked:
  assumes "\<And>x t. x \<in> set xs \<Longrightarrow> looked s t \<Longrightarrow> wp (m x) (\<lambda>y v. looked t v \<and> y = g x) (\<lambda>_ _. False) t"
    and "looked s t"
  shows "wp (map_eff m xs) (\<lambda>ys v. looked t v \<and> ys = map g xs) (\<lambda>_ _. False) t"
  using assms
proof (induction xs arbitrary: t)
  case Nil
  then show ?case by (simp add: wp_simps)
next
  case (Cons x xs)
  show ?case
    unfolding map_eff.simps
  proof (rule wp_bind_spec [OF Cons.prems(1) [OF _ Cons.prems(2)]], simp)
    fix y v assume v: "looked t v \<and> y = g x"
    then have sv: "looked s v" using Cons.prems(2) looked_trans by blast
    show "wp (bind (map_eff m xs) (\<lambda>ys. ret (y # ys))) (\<lambda>ys v. looked t v \<and> ys = map g (x # xs)) (\<lambda>_ _. False) v"
      by (rule wp_bind_spec [OF Cons.IH [OF Cons.prems(1) sv]])
        (use v looked_trans in \<open>auto simp: wp_simps\<close>)
  qed simp
qed

definition walk_listed ::
  "(path \<Rightarrow> visited list svc) \<Rightarrow> path \<Rightarrow> (str list \<times> fs) option \<Rightarrow> visited list svc" where
  "walk_listed below cur listed =
     (case listed of
        None \<Rightarrow> ret []
      | Some (names, f) \<Rightarrow>
          bind (map_eff (\<lambda>c. below (cur @ [c])) (filter (\<lambda>c. is_real_dir f (cur @ [c])) names)) (\<lambda>vs.
            ret (\<lparr>vis_current = cur, vis_unsafe = [],
                  vis_file_names = filter (\<lambda>c. \<not> is_real_dir f (cur @ [c])) names\<rparr> # concat vs)))"

lemma walk_Suc: "walk ls (Suc n) cur = bind (list_directory ls cur) (walk_listed (walk ls n) cur)"
proof -
  have "filter (\<lambda>c. c \<notin> set []) xs = xs" for xs :: "str list" by simp
  then show ?thesis
    unfolding walk.simps Let_def no_unsafe_directories walk_listed_def [abs_def] by presburger
qed

declare walk.simps(2) [simp del]

lemma wp_walk:
  "no_os_faults s \<Longrightarrow> wp (walk ls n cur) (\<lambda>v t. looked s t \<and> v = visits ls (os_fs s) n cur) (\<lambda>_ _. False) s"
proof (induction n arbitrary: cur s)
  case 0
  then show ?case by (simp add: wp_simps)
next
  case (Suc n)
  let ?f = "os_fs s"
  let ?dirs = "filter (\<lambda>c. is_real_dir ?f (cur @ [c])) (ls ?f cur)"
  have list: "wp (list_directory ls cur) (\<lambda>l t. looked s t \<and> l = Some (ls ?f cur, ?f)) (\<lambda>_ _. False) s"
    using Suc.prems by (simp add: list_directory_def wp_simps no_os_faults_def)
  show ?case
    unfolding walk_Suc
  proof (rule wp_bind_spec [OF list])
    fix l t assume l: "looked s t \<and> l = Some (ls ?f cur, ?f)"
    have sub: "wp (walk ls n (cur @ [c])) (\<lambda>v w. looked t' w \<and> v = visits ls ?f n (cur @ [c])) (\<lambda>_ _. False) t'"
      if "looked s t'" for c t'
      using Suc.IH [of t' "cur @ [c]"] that Suc.prems looked_eqs [OF that] by (simp add: no_os_faults_def)
    have "wp (map_eff (\<lambda>c. walk ls n (cur @ [c])) ?dirs)
        (\<lambda>ys v. looked t v \<and> ys = map (\<lambda>c. visits ls ?f n (cur @ [c])) ?dirs) (\<lambda>_ _. False) t"
      by (rule wp_map_looked [where s = s]) (use sub l in auto)
    then show "wp (walk_listed (walk ls n) cur l) (\<lambda>v t. looked s t \<and> v = visits ls ?f (Suc n) cur) (\<lambda>_ _. False) t"
      unfolding conjunct2 [OF l] walk_listed_def option.case prod.case
      by (rule wp_bind_spec) (use l looked_trans in \<open>auto simp: wp_simps\<close>)
  qed simp
qed

text \<open>A listing that shows what is there, and how deep a tree is.\<close>

definition faithful :: "listing \<Rightarrow> fs \<Rightarrow> bool" where
  "faithful ls f \<longleftrightarrow> (\<forall>p c. c \<in> set (ls f p) \<longleftrightarrow> f (p @ [c]) \<noteq> None)"

definition within :: "nat \<Rightarrow> fs \<Rightarrow> path \<Rightarrow> bool" where
  "within n f root \<longleftrightarrow> (\<forall>q. f (root @ q) \<noteq> None \<longrightarrow> length q \<le> n)"

definition found_by :: "visited list \<Rightarrow> path \<Rightarrow> bool" where
  "found_by vs e \<longleftrightarrow> (\<exists>v \<in> set vs. \<exists>c \<in> set (vis_file_names v). e = vis_current v @ [c])"

lemma within_child: "within (Suc n) f cur \<Longrightarrow> within n f (cur @ [c])"
  unfolding within_def
proof (intro allI impI)
  fix q assume w: "\<forall>q. f (cur @ q) \<noteq> None \<longrightarrow> length q \<le> Suc n" and "f ((cur @ [c]) @ q) \<noteq> None"
  then have "f (cur @ (c # q)) \<noteq> None" by simp
  then have "length (c # q) \<le> Suc n" using w by blast
  then show "length q \<le> n" by simp
qed

lemma found_by_visits:
  assumes "faithful ls f" and "tree_ok f"
  shows "within n f cur \<Longrightarrow> found_by (visits ls f n cur) e \<longleftrightarrow>
     (\<exists>q. q \<noteq> [] \<and> e = cur @ q \<and> f e \<noteq> None \<and> \<not> is_real_dir f e)"
proof (induction n arbitrary: cur)
  case 0
  then show ?case by (auto simp: found_by_def within_def)
next
  case (Suc n)
  have ls: "c \<in> set (ls f cur) \<longleftrightarrow> f (cur @ [c]) \<noteq> None" for c
    using assms(1) by (simp add: faithful_def)
  have "found_by (visits ls f (Suc n) cur) e \<longleftrightarrow>
      (\<exists>c. f (cur @ [c]) \<noteq> None \<and> \<not> is_real_dir f (cur @ [c]) \<and> e = cur @ [c])
    \<or> (\<exists>c. f (cur @ [c]) \<noteq> None \<and> is_real_dir f (cur @ [c]) \<and> found_by (visits ls f n (cur @ [c])) e)"
    using ls by (auto simp: found_by_def)
  also have "\<dots> \<longleftrightarrow> (\<exists>q. q \<noteq> [] \<and> e = cur @ q \<and> f e \<noteq> None \<and> \<not> is_real_dir f e)"
    (is "?l \<longleftrightarrow> ?r")
  proof
    assume ?l
    then show ?r using Suc.IH [OF within_child [OF Suc.prems]] by fastforce
  next
    assume ?r
    then obtain c q where q: "e = cur @ c # q" "f e \<noteq> None" "\<not> is_real_dir f e"
      by (metis neq_Nil_conv)
    show ?l
    proof (cases "q = []")
      case True
      then show ?thesis using q by auto
    next
      case False
      have "cur @ [c] \<in> set (prefixes_from cur (butlast (c # q)))"
        using False by (auto simp: prefixes_from_iff intro!: exI [of _ "[c]"])
      then obtain m where "f (cur @ [c]) = Some (Dir m)"
        using parents_are_dirs [OF assms(2), of cur "c # q" "cur @ [c]"] q(1,2) by auto
      then have "f (cur @ [c]) \<noteq> None" "is_real_dir f (cur @ [c])" by (simp_all add: is_real_dir_def)
      moreover have "found_by (visits ls f n (cur @ [c])) e"
        using Suc.IH [OF within_child [OF Suc.prems]] q False by auto
      ultimately show ?thesis by blast
    qed
  qed
  finally show ?case .
qed

section \<open>The walk ends\<close>

lemma map_eff_cong:
  assumes "\<And>x t. x \<in> set xs \<Longrightarrow> P t \<Longrightarrow> m x t = m' x t \<and> P (snd (m x t))" and "P t"
  shows "map_eff m xs t = map_eff m' xs t"
  using assms
proof (induction xs arbitrary: t)
  case (Cons x xs)
  have x: "m x t = m' x t" "P (snd (m x t))"
    using Cons.prems(1) [OF _ Cons.prems(2), of x] by (metis list.set_intros(1))+
  have rest: "map_eff m xs v = map_eff m' xs v" if "P v" for v using Cons.IH [OF Cons.prems(1) that] by simp
  show ?case
    using x rest by (cases "m' x t") (auto simp: bind_def split: sum.splits)
qed simp

definition same_tree :: "fs \<Rightarrow> world \<Rightarrow> bool" where
  "same_tree f s \<longleftrightarrow> os_fs s = f"

lemma keeps_list_directory: "keeps (same_tree f) (list_directory ls cur)"
  unfolding list_directory_def
  by (intro keeps_try_catch keeps_bind keeps_basic) (simp add: keeps_def same_tree_def wp_simps)

lemma keeps_map_eff: "(\<And>x. keeps P (m x)) \<Longrightarrow> keeps P (map_eff m xs)"
  by (induction xs) (auto intro!: keeps_bind)

lemma keeps_walk: "keeps (same_tree f) (walk ls n cur)"
proof (induction n arbitrary: cur)
  case (Suc n)
  show ?case
    unfolding walk_Suc walk_listed_def
    by (intro keeps_bind keeps_list_directory)
      (auto split: option.splits intro!: keeps_bind keeps_map_eff Suc.IH)
qed simp

text \<open>More depth than the tree has changes nothing, whatever fails.\<close>

lemma walk_more:
  "within n f cur \<Longrightarrow> faithful ls f \<Longrightarrow> os_fs s = f \<Longrightarrow> walk ls (Suc (n + k)) cur s = walk ls (Suc n) cur s"
proof (induction n arbitrary: cur s)
  case 0
  have "ls f cur = []"
  proof (rule ccontr)
    assume "ls f cur \<noteq> []"
    then obtain c where "c \<in> set (ls f cur)" by (cases "ls f cur") auto
    then have "f (cur @ [c]) \<noteq> None" using 0(2) by (simp add: faithful_def)
    then show False using 0(1) by (auto simp: within_def)
  qed
  then have "list_directory ls cur s = (Inr (Some ([], f)), snd (list_directory ls cur s))
      \<or> list_directory ls cur s = (Inr None, snd (list_directory ls cur s))"
    using 0(3) by (auto simp: list_directory_def eff_simps syscall_def)
  then show ?case
    unfolding add_0 walk_Suc by (cases "list_directory ls cur s") (auto simp: bind_def walk_listed_def)
next
  case (Suc n)
  let ?dirs = "filter (\<lambda>c. is_real_dir f (cur @ [c])) (ls f cur)"
  have ih: "walk ls (Suc (n + k)) (cur @ [c]) t = walk ls (Suc n) (cur @ [c]) t
      \<and> same_tree f (snd (walk ls (Suc (n + k)) (cur @ [c]) t))" if "same_tree f t" for c t
    using Suc.IH [OF within_child [OF Suc.prems(1)] Suc.prems(2)] that
      keeps_run [OF keeps_walk that] by (metis same_tree_def surj_pair snd_conv)
  have maps: "map_eff (\<lambda>c. walk ls (Suc (n + k)) (cur @ [c])) xs t = map_eff (\<lambda>c. walk ls (Suc n) (cur @ [c])) xs t"
    if "same_tree f t" for xs t
    by (rule map_eff_cong [where P = "same_tree f"]) (use ih that in blast)+
  have listed: "list_directory ls cur s = (Inr None, snd (list_directory ls cur s))
      \<or> list_directory ls cur s = (Inr (Some (ls f cur, f)), snd (list_directory ls cur s))"
    using Suc.prems(3) by (auto simp: list_directory_def eff_simps syscall_def)
  have t: "same_tree f (snd (list_directory ls cur s))"
    using keeps_run [OF keeps_list_directory, of f s ls cur] Suc.prems(3)
    by (metis same_tree_def surj_pair snd_conv)
  have "walk_listed (walk ls (Suc (n + k))) cur l (snd (list_directory ls cur s))
      = walk_listed (walk ls (Suc n)) cur l (snd (list_directory ls cur s))" for l
    by (cases l) (simp_all only: walk_listed_def option.case prod.case_eq_if bind_def maps [OF t])
  then show ?case
    using listed unfolding add_Suc walk_Suc [of ls "Suc (n + k)"] walk_Suc [of ls "Suc n"]
    by (auto simp only: bind_def prod.case sum.case split: prod.splits)
qed

section \<open>What the inspection finds\<close>

definition entry_issues :: "str set \<Rightarrow> storage_area \<Rightarrow> path \<Rightarrow> fs \<Rightarrow> path \<Rightarrow> issue list" where
  "entry_issues known area root f p =
     (case f p of
        Some (File b _ _) \<Rightarrow>
          if relative_posix root p \<notin> known then [orphan_issue (relative_posix root p) area (int (length b))] else []
      | _ \<Rightarrow> [unsafe_issue (relative_posix root p) None (Some area)])"

lemma wp_inspect_entry:
  assumes "no_os_faults s"
  shows "wp (inspect_entry known area root p issues)
     (\<lambda>r t. looked s t \<and> r = issues @ entry_issues known area root (os_fs s) p) (\<lambda>_ _. False) s"
  using assms
  by (auto simp: inspect_entry_def entry_issues_def sys_lstat_def wp_simps no_os_faults_def
      split: option.splits node.splits)

lemma wp_fold_looked:
  assumes "\<And>x acc t. looked s t \<Longrightarrow> wp (m x acc) (\<lambda>r v. looked t v \<and> r = acc @ g x) (\<lambda>_ _. False) t"
    and "looked s t"
  shows "wp (fold_eff m xs acc) (\<lambda>r v. looked t v \<and> r = acc @ concat (map g xs)) (\<lambda>_ _. False) t"
  using assms(2)
proof (induction xs arbitrary: acc t)
  case Nil
  then show ?case by (simp add: wp_simps)
next
  case (Cons x xs)
  show ?case
    unfolding fold_eff.simps
  proof (rule wp_bind_spec [OF assms(1) [OF Cons.prems]])
    fix r v assume v: "looked t v \<and> r = acc @ g x"
    then have "looked s v" using Cons.prems looked_trans by blast
    then show "wp (fold_eff m xs r) (\<lambda>r v. looked t v \<and> r = acc @ concat (map g (x # xs))) (\<lambda>_ _. False) v"
      by (rule wp_mono [OF Cons.IH]) (use v looked_trans in auto)
  qed simp
qed

definition visit_issues :: "str set \<Rightarrow> storage_area \<Rightarrow> path \<Rightarrow> fs \<Rightarrow> visited list \<Rightarrow> issue list" where
  "visit_issues known area root f vs =
     concat (map (\<lambda>v. map (\<lambda>n. unsafe_issue (relative_posix root (vis_current v @ [n])) None (Some area)) (vis_unsafe v)
       @ concat (map (\<lambda>c. entry_issues known area root f (vis_current v @ [c])) (vis_file_names v))) vs)"

lemma wp_inspect_directories:
  assumes "no_os_faults s"
  shows "wp (fold_eff (inspect_directory known area root) vs issues)
     (\<lambda>r t. looked s t \<and> r = issues @ visit_issues known area root (os_fs s) vs) (\<lambda>_ _. False) s"
proof -
  have entry: "wp (inspect_entry known area root p acc)
     (\<lambda>r u. looked t u \<and> r = acc @ entry_issues known area root (os_fs s) p) (\<lambda>_ _. False) t"
    if t: "looked s t" for p acc t
    using wp_inspect_entry [of t known area root p acc] assms t by (simp add: looked_eqs(1) [OF t])
  have dir: "wp (inspect_directory known area root v acc)
     (\<lambda>r u. looked t u \<and> r = acc @ (map (\<lambda>n. unsafe_issue (relative_posix root (vis_current v @ [n])) None (Some area)) (vis_unsafe v)
       @ concat (map (\<lambda>c. entry_issues known area root (os_fs s) (vis_current v @ [c])) (vis_file_names v)))) (\<lambda>_ _. False) t"
    if t: "looked s t" for v acc t
    unfolding inspect_directory_def
    by (rule wp_mono [OF wp_fold_looked [where s = s and g = "\<lambda>c. entry_issues known area root (os_fs s) (vis_current v @ [c])"]])
      (use t entry in auto)
  show ?thesis
    unfolding visit_issues_def by (rule wp_fold_looked [where s = s]) (use dir in auto)
qed

text \<open>Under a root without links, exactly the unreferenced files are reported.\<close>

definition orphans_in :: "storage_paths \<Rightarrow> str set \<Rightarrow> storage_area \<Rightarrow> (path \<Rightarrow> bytes option) \<Rightarrow> issue set" where
  "orphans_in paths known area F = {orphan_issue (join_on slash q) area (int (length b)) | q b.
     F (area_root paths area @ q) = Some b \<and> join_on slash q \<notin> known}"

lemma visits_safe: "v \<in> set (visits ls f n cur) \<Longrightarrow> vis_unsafe v = []"
  by (induction n arbitrary: cur) auto

lemma root_ok_dir: "root_ok f r \<Longrightarrow> \<exists>m. f r = Some (Dir m)"
proof -
  assume r: "root_ok f r"
  have "r = [] \<or> r \<in> set (prefixes_from [] r)"
    by (cases "r = []") (auto simp: prefixes_from_iff intro!: exI [of _ r])
  then show ?thesis using r by (auto simp: root_ok_def real_dirs_def list_all_iff)
qed

lemma visit_issues_orphans:
  assumes ok: "store_ok paths s" and l: "faithful ls (os_fs s)"
    and d: "within n (os_fs s) (area_root paths area)"
  shows "set (visit_issues known area (area_root paths area) (os_fs s) (visits ls (os_fs s) n (area_root paths area)))
    = orphans_in paths known area (files s)"
proof -
  let ?f = "os_fs s" and ?r = "area_root paths area"
  let ?vs = "visits ls ?f n ?r"
  have tree: "tree_ok ?f" and root: "root_ok ?f ?r" using store_okD(1,3) [OF ok] by auto
  have nolink: "f' = Some (Link x y) \<Longrightarrow> ?f (?r @ q) = f' \<Longrightarrow> False" for f' x y q
    using root by (auto simp: root_ok_def no_links_under_def is_symlink_def starts_with_iff split: option.splits node.splits)
  have rootdir: "is_real_dir ?f ?r"
    using root_ok_dir [OF root] by (auto simp: is_real_dir_def)
  have unsafe: "vis_unsafe v = []" if "v \<in> set ?vs" for v
    using that by (rule visits_safe)
  have "set (visit_issues known area ?r ?f ?vs) = \<Union> {set (entry_issues known area ?r ?f e) | e. found_by ?vs e}"
    unfolding visit_issues_def found_by_def using unsafe by auto
  also have "\<dots> = \<Union> {set (entry_issues known area ?r ?f (?r @ q)) | q. q \<noteq> [] \<and> ?f (?r @ q) \<noteq> None \<and> \<not> is_real_dir ?f (?r @ q)}"
    using found_by_visits [OF l tree d] by auto
  also have "\<dots> = orphans_in paths known area (files s)"
  proof (intro equalityI subsetI)
    fix i assume "i \<in> \<Union> {set (entry_issues known area ?r ?f (?r @ q)) | q. q \<noteq> [] \<and> ?f (?r @ q) \<noteq> None \<and> \<not> is_real_dir ?f (?r @ q)}"
    then obtain q where q: "i \<in> set (entry_issues known area ?r ?f (?r @ q))" "?f (?r @ q) \<noteq> None"
      "\<not> is_real_dir ?f (?r @ q)" by blast
    then obtain b m u where "?f (?r @ q) = Some (File b m u)"
      using nolink by (cases "?f (?r @ q)") (auto simp: is_real_dir_def split: node.splits)
    moreover from this have "files s (?r @ q) = Some b" by (simp add: files_def file_at_def)
    ultimately show "i \<in> orphans_in paths known area (files s)"
      using q(1) unfolding orphans_in_def by (auto simp: entry_issues_def relative_posix_def split: if_splits)
  next
    fix i assume "i \<in> orphans_in paths known area (files s)"
    then obtain q b where i: "i = orphan_issue (join_on slash q) area (int (length b))"
      and q: "files s (?r @ q) = Some b" "join_on slash q \<notin> known"
      by (auto simp: orphans_in_def)
    then obtain m u where f: "?f (?r @ q) = Some (File b m u)"
      by (cases "?f (?r @ q)") (auto simp: files_def file_at_def split: node.splits)
    then have "q \<noteq> []" "\<not> is_real_dir ?f (?r @ q)" using rootdir by (auto simp: is_real_dir_def)
    moreover have "i \<in> set (entry_issues known area ?r ?f (?r @ q))"
      using i q f by (simp add: entry_issues_def relative_posix_def)
    ultimately show "i \<in> \<Union> {set (entry_issues known area ?r ?f (?r @ q)) | q. q \<noteq> [] \<and> ?f (?r @ q) \<noteq> None \<and> \<not> is_real_dir ?f (?r @ q)}"
      using f by blast
  qed
  finally show ?thesis .
qed

lemma root_checks:
  assumes "root_ok f r"
  shows "\<not> is_symlink f r" "is_dir f r"
proof -
  obtain m where m: "f r = Some (Dir m)" using root_ok_dir [OF assms] ..
  then show "\<not> is_symlink f r" by (simp add: is_symlink_def)
  show "is_dir f r" using m root_ok_self [OF assms] by (simp add: is_dir_def)
qed

definition all_orphans :: "storage_paths \<Rightarrow> str set \<Rightarrow> (path \<Rightarrow> bytes option) \<Rightarrow> issue set" where
  "all_orphans paths known F = orphans_in paths known AreaQuarantine F \<union> orphans_in paths known AreaSoftware F"

lemma wp_area_orphans:
  assumes ok: "store_ok paths s" and nf: "no_os_faults s" and l: "faithful ls (os_fs s)"
    and d: "within n (os_fs s) (area_root paths area)"
  shows "wp (area_orphans ls n paths known area issues)
     (\<lambda>r t. looked s t \<and> (\<exists>new. r = issues @ new \<and> set new = orphans_in paths known area (files s)))
     (\<lambda>_ _. False) s"
proof -
  let ?r = "area_root paths area"
  have root: "\<not> is_symlink (os_fs s) ?r" "is_dir (os_fs s) ?r"
    using root_checks store_okD(3) [OF ok] by auto
  have "wp (bind (walk ls n ?r) (\<lambda>visits. fold_eff (inspect_directory known area ?r) visits issues))
     (\<lambda>r t. looked s t \<and> (\<exists>new. r = issues @ new \<and> set new = orphans_in paths known area (files s)))
     (\<lambda>_ _. False) s"
  proof (rule wp_bind_spec [OF wp_walk [OF nf]])
    fix v t assume v: "looked s t \<and> v = visits ls (os_fs s) n ?r"
    have nt: "no_os_faults t" using nf looked_eqs(5) [OF conjunct1 [OF v]] by (simp add: no_os_faults_def)
    show "wp (fold_eff (inspect_directory known area ?r) v issues)
     (\<lambda>r t. looked s t \<and> (\<exists>new. r = issues @ new \<and> set new = orphans_in paths known area (files s)))
     (\<lambda>_ _. False) t"
    proof (rule wp_mono [OF wp_inspect_directories [OF nt]])
      fix r u assume u: "looked t u \<and> r = issues @ visit_issues known area ?r (os_fs t) v"
      have "os_fs t = os_fs s" using looked_eqs(1) conjunct1 [OF v] .
      then have "set (visit_issues known area ?r (os_fs t) v) = orphans_in paths known area (files s)"
        using visit_issues_orphans [OF ok l d, of known] conjunct2 [OF v] by (simp only:)
      then show "looked s u \<and> (\<exists>new. r = issues @ new \<and> set new = orphans_in paths known area (files s))"
        using u v looked_trans by blast
    qed
  qed simp
  then show ?thesis using root by (simp add: area_orphans_def wp_simps)
qed

lemma wp_orphan_issues:
  assumes ok: "store_ok paths s" and nf: "no_os_faults s" and l: "faithful ls (os_fs s)"
    and d: "\<And>a. within n (os_fs s) (area_root paths a)"
  shows "wp (orphan_issues ls n paths known)
     (\<lambda>r t. looked s t \<and> set r = all_orphans paths known (files s)) (\<lambda>_ _. False) s"
proof -
  have area: "wp (area_orphans ls n paths known a issues)
     (\<lambda>r v. looked s v \<and> (\<exists>new. r = issues @ new \<and> set new = orphans_in paths known a (files s)))
     (\<lambda>_ _. False) t" if "looked s t" for a issues t
  proof (rule wp_mono [OF wp_area_orphans])
    note e = looked_eqs [OF that]
    show "store_ok paths t" "no_os_faults t" "faithful ls (os_fs t)" "within n (os_fs t) (area_root paths a)"
      using ok nf l d by (simp_all add: store_ok_def no_os_faults_def e(1,5))
    show "looked s u \<and> (\<exists>new. r = issues @ new \<and> set new = orphans_in paths known a (files s))"
      if "looked t u \<and> (\<exists>new. r = issues @ new \<and> set new = orphans_in paths known a (files t))" for r u
      using that looked_trans [OF \<open>looked s t\<close>] by (simp only: e(2))
  qed
  show ?thesis
    unfolding orphan_issues_def fold_eff.simps
  proof (rule wp_bind_spec [where Q0 = "\<lambda>r t. looked s t \<and> set r = all_orphans paths known (files s)"
        and E0 = "\<lambda>_ _. False"])
    have s: "looked s s" by simp
    show "wp (bind (area_orphans ls n paths known AreaQuarantine [])
        (\<lambda>a. bind (area_orphans ls n paths known AreaSoftware a) ret))
       (\<lambda>r t. looked s t \<and> set r = all_orphans paths known (files s)) (\<lambda>_ _. False) s"
      by (rule wp_bind_spec [OF area [OF s]], rule wp_bind_spec [OF area])
        (auto simp: wp_simps all_orphans_def)
  qed (simp_all add: wp_simps sort_key_def [symmetric])
qed

section \<open>Deleting one orphan\<close>

definition removed_at :: "path \<Rightarrow> (path \<Rightarrow> bytes option) \<Rightarrow> (path \<Rightarrow> bytes option) \<Rightarrow> bool" where
  "removed_at e F G \<longleftrightarrow> F e \<noteq> None \<and> G = F(e := None)"

lemma moved_removed: "moved F a b G \<Longrightarrow> G(b := None) = F(a := None)"
  using moved_neq [of F a b G] by (auto simp: moved_def fun_eq_iff)

lemma wp_stage_and_unlink:
  assumes ok: "store_ok paths s" and nf: "no_os_faults s" and root: "st_root st = area_root paths a"
  shows "wp (bind (stage_for_permanent_deletion paths st) (unlink_staged_deletion paths))
     (\<lambda>_ t. store_step s t \<and> (\<exists>p. safe_relative (st_relative_path st) p
        \<and> removed_at (area_root paths a @ p) (files s) (files t)))
     (\<lambda>e t. e = StorageError \<and> store_step s t \<and> files t = files s) s"
proof (rule wp_bind_spec [OF wp_stage_for_permanent_deletion [OF ok root]])
  fix sd t
  assume t: "staged_at (s\<lparr>os_uuid_next := Suc (os_uuid_next s)\<rparr>) paths sd t \<and> sd_original sd = st"
  then obtain p p' where p: "safe_relative (st_relative_path st) p" "safe_relative (sd_relative_path sd) p'"
    and tr: "transfer (s\<lparr>os_uuid_next := Suc (os_uuid_next s)\<rparr>) (area_root paths a) p (sp_temporary paths) p' t"
    using root by (auto simp: staged_at_def)
  have mv: "moved (files s) (area_root paths a @ p) (sp_temporary paths @ p') (files t)"
    using tr by (simp add: transfer_def)
  have st: "store_step s t" using staged_at_step store_step_uuid t by blast
  have okt: "store_ok paths t" using ok st by (rule store_ok_step)
  have nft: "no_os_faults t" using nf st no_os_faults_frame [of s t] by (simp add: store_step_def)
  have there: "files t (sp_temporary paths @ p') \<noteq> None" using mv by (auto simp: moved_def)
  show "wp (unlink_staged_deletion paths sd)
     (\<lambda>_ t. store_step s t \<and> (\<exists>p. safe_relative (st_relative_path st) p
        \<and> removed_at (area_root paths a @ p) (files s) (files t)))
     (\<lambda>e t. e = StorageError \<and> store_step s t \<and> files t = files s) t"
  proof (rule wp_mono [OF wp_unlink_staged_deletion [OF okt]])
    fix x v
    assume v: "store_step t v \<and> (\<exists>p. safe_relative (sd_relative_path sd) p
        \<and> files v = (files t)(sp_temporary paths @ p := None))"
    then have "files v = (files t)(sp_temporary paths @ p' := None)"
      using p(2) by (auto simp: safe_relative_def)
    then have "removed_at (area_root paths a @ p) (files s) (files v)"
      using mv moved_removed [OF mv] by (simp add: removed_at_def moved_def)
    then show "store_step s v \<and> (\<exists>p. safe_relative (st_relative_path st) p
        \<and> removed_at (area_root paths a @ p) (files s) (files v))"
      using p(1) v st store_step_trans by blast
  next
    fix e v
    assume "e = StorageError \<and> store_step t v
        \<and> (files v = files t \<or> (\<exists>p. safe_relative (sd_relative_path sd) p
             \<and> files v = (files t)(sp_temporary paths @ p := None)))
        \<and> \<not> (no_os_faults t \<and> (\<exists>p. safe_relative (sd_relative_path sd) p
             \<and> files t (sp_temporary paths @ p) \<noteq> None))"
    then show "e = StorageError \<and> store_step s v \<and> files v = files s" using nft there p(2) by blast
  qed
next
  fix e t
  assume "store_step s t \<and> (no_os_faults s \<longrightarrow> e = StorageError \<and> files t = files s)"
  then show "e = StorageError \<and> store_step s t \<and> files t = files s" using nf by blast
qed

text \<open>One orphan is removed, or counted as an error and left where it is.\<close>

definition orphan_handled ::
  "storage_paths \<Rightarrow> issue \<Rightarrow> nat \<times> nat \<Rightarrow> world \<Rightarrow> nat \<times> nat \<Rightarrow> world \<Rightarrow> bool" where
  "orphan_handled paths i c s c' t \<longleftrightarrow> store_step s t \<and> w_db t = w_db s
     \<and> (c' = (fst c, snd c + 1) \<and> files t = files s
       \<or> c' = (fst c + 1, snd c) \<and> (\<exists>a p. iss_storage_area i = Some a
           \<and> safe_relative (as_posix (iss_relative_path i)) p
           \<and> removed_at (area_root paths a @ p) (files s) (files t)))"

lemma wp_delete_orphan:
  assumes ok: "store_ok paths s" and nf: "no_os_faults s"
  shows "wp (delete_orphan paths i c) (orphan_handled paths i c s) (\<lambda>_ _. False) s"
proof (cases "iss_storage_area i")
  case None
  then show ?thesis by (cases c) (simp add: delete_orphan_def wp_simps orphan_handled_def)
next
  case (Some area)
  obtain d k where c: "c = (d, k)" by (cases c)
  let ?root = "area_root paths area" and ?rel = "as_posix (iss_relative_path i)"
  let ?Q = "orphan_handled paths i c s"
  let ?E = "\<lambda>e t. (is_os_error e \<or> e = StorageError) \<and> store_step s t \<and> files t = files s"
  have body: "wp (bind (safe_resolve ?root ?rel True True) (\<lambda>p.
                bind (sys_lstat p) (\<lambda>metadata.
                  if \<not> is_regular metadata then ret (d, k + 1)
                  else
                    bind (stage_for_permanent_deletion paths
                            \<lparr>st_area = area, st_root = ?root, st_relative_path = ?rel,
                             st_path = p, st_size_bytes = node_size metadata\<rparr>) (\<lambda>staged.
                    bind (unlink_staged_deletion paths staged) (\<lambda>_. ret (d + 1, k)))))) ?Q ?E s"
  proof (rule wp_bind_spec [OF wp_safe_resolve [OF store_okD(3) [OF ok]]])
    fix p t
    assume "looked s t \<and> (\<exists>parts. safe_relative ?rel parts \<and> p = ?root @ parts
        \<and> (True \<longrightarrow> all_present (os_fs s) ?root parts))"
    then have t: "looked s t" by blast
    show "wp (bind (sys_lstat p) (\<lambda>metadata.
                  if \<not> is_regular metadata then ret (d, k + 1)
                  else
                    bind (stage_for_permanent_deletion paths
                            \<lparr>st_area = area, st_root = ?root, st_relative_path = ?rel,
                             st_path = p, st_size_bytes = node_size metadata\<rparr>) (\<lambda>staged.
                    bind (unlink_staged_deletion paths staged) (\<lambda>_. ret (d + 1, k))))) ?Q ?E t"
    proof (rule wp_bind_spec [OF wp_sys_lstat])
      fix n v assume "looked t v \<and> os_fs t p = Some n"
      then have v: "looked s v" using t looked_trans by blast
      note e = looked_eqs [OF v]
      have sv: "store_step s v" using v by (rule looked_store_step)
      have okv: "store_ok paths v" "no_os_faults v"
        using ok nf by (simp_all add: store_ok_def no_os_faults_def e(1,5))
      let ?st = "\<lparr>st_area = area, st_root = ?root, st_relative_path = ?rel, st_path = p, st_size_bytes = node_size n\<rparr>"
      have "wp (bind (bind (stage_for_permanent_deletion paths ?st) (unlink_staged_deletion paths))
          (\<lambda>_. ret (d + 1, k))) ?Q ?E v"
      proof (rule wp_bind_spec [OF wp_stage_and_unlink [OF okv, where a = area]])
        show "st_root ?st = ?root" by simp
        fix x w assume w: "store_step v w \<and> (\<exists>p. safe_relative (st_relative_path ?st) p
          \<and> removed_at (?root @ p) (files v) (files w))"
        then have "store_step s w" using sv store_step_trans by blast
        moreover have "w_db w = w_db s" using \<open>store_step s w\<close> store_step_db by blast
        ultimately show "wp (ret (d + 1, k)) ?Q ?E w"
          using w Some by (auto simp: wp_simps orphan_handled_def c e(2))
      qed (use e(2) sv store_step_trans in auto)
      moreover have "wp (ret (d, k + 1)) ?Q ?E v"
        using sv e(2) store_step_db [OF sv] by (simp add: wp_simps orphan_handled_def c)
      ultimately show "wp (if \<not> is_regular n then ret (d, k + 1)
          else bind (stage_for_permanent_deletion paths ?st) (\<lambda>staged.
               bind (unlink_staged_deletion paths staged) (\<lambda>_. ret (d + 1, k)))) ?Q ?E v"
        unfolding bind_assoc by simp
    next
      fix e v assume "is_os_error e \<and> looked t v \<and> (no_os_faults t \<longrightarrow> os_fs t p = None)"
      then have "is_os_error e" "looked s v" using t looked_trans by blast+
      then show "?E e v" using looked_store_step looked_eqs(2) by blast
    qed
  next
    fix e t assume "e = StorageError \<and> looked s t
        \<and> \<not> (no_os_faults s \<and> (\<exists>parts. safe_relative ?rel parts
              \<and> (True \<longrightarrow> all_present (os_fs s) ?root parts)))"
    then show "?E e t" using looked_store_step looked_eqs(2) by blast
  qed
  show ?thesis
    unfolding delete_orphan_def c prod.case Some option.case Let_def
  proof (rule wp_try_spec [OF body [unfolded c], where E = "\<lambda>_ _. False"])
    fix e t assume "?E e t"
    then show "wp (if is_os_error e \<or> e = StorageError then ret (d, k + 1) else throw e)
        (orphan_handled paths i (d, k) s) (\<lambda>_ _. False) t"
      using store_step_db by (auto simp: wp_simps orphan_handled_def)
  qed
qed

definition points_to :: "storage_paths \<Rightarrow> issue \<Rightarrow> path \<Rightarrow> bool" where
  "points_to paths i e \<longleftrightarrow> (\<exists>a p. iss_storage_area i = Some a
     \<and> safe_relative (as_posix (iss_relative_path i)) p \<and> e = area_root paths a @ p)"

definition orphans_handled ::
  "storage_paths \<Rightarrow> issue list \<Rightarrow> nat \<times> nat \<Rightarrow> world \<Rightarrow> nat \<times> nat \<Rightarrow> world \<Rightarrow> bool" where
  "orphans_handled paths is c s c' t \<longleftrightarrow> store_step s t \<and> w_db t = w_db s
     \<and> fst c' + snd c' = fst c + snd c + length is
     \<and> (\<exists>D. finite D \<and> fst c' = fst c + card D \<and> files t = (\<lambda>e. if e \<in> D then None else files s e)
        \<and> (\<forall>e \<in> D. files s e \<noteq> None \<and> (\<exists>i \<in> set is. points_to paths i e)))"

lemma orphans_handled_step:
  assumes one: "orphan_handled paths i c s c1 t" and rest: "orphans_handled paths is c1 t c' v"
  shows "orphans_handled paths (i # is) c s c' v"
proof -
  obtain D where D: "finite D" "fst c' = fst c1 + card D" "files v = (\<lambda>e. if e \<in> D then None else files t e)"
    and mem: "\<And>e. e \<in> D \<Longrightarrow> files t e \<noteq> None \<and> (\<exists>i \<in> set is. points_to paths i e)"
    using rest by (auto simp: orphans_handled_def)
  have st: "store_step s v" "w_db v = w_db s"
    using one rest store_step_trans by (auto simp: orphan_handled_def orphans_handled_def)
  have counts: "fst c' + snd c' = fst c + snd c + length (i # is)"
    using one rest by (auto simp: orphan_handled_def orphans_handled_def)
  from one consider "c1 = (fst c, snd c + 1)" "files t = files s"
    | a p where "c1 = (fst c + 1, snd c)" "iss_storage_area i = Some a"
        "safe_relative (as_posix (iss_relative_path i)) p" "removed_at (area_root paths a @ p) (files s) (files t)"
    by (auto simp: orphan_handled_def)
  then show ?thesis
  proof cases
    case 1
    have "\<forall>e \<in> D. files s e \<noteq> None \<and> (\<exists>i \<in> set (i # is). points_to paths i e)"
      using mem unfolding 1(2) by (meson list.set_intros(2))
    then show ?thesis
      using st counts D unfolding 1 orphans_handled_def by (intro conjI exI [of _ D]) simp_all
  next
    case 2
    let ?e = "area_root paths a @ p"
    have r: "files s ?e \<noteq> None" "files t = (files s)(?e := None)" using 2(4) by (simp_all add: removed_at_def)
    then have "?e \<notin> D" using mem [of ?e] by auto
    moreover have "files v = (\<lambda>e. if e \<in> insert ?e D then None else files s e)"
      using D(3) r(2) by (auto simp: fun_eq_iff)
    moreover have "files s e \<noteq> None \<and> (\<exists>i \<in> set (i # is). points_to paths i e)"
      if "e \<in> insert ?e D" for e
    proof (cases "e = ?e")
      case True
      then show ?thesis using r(1) 2(2,3) by (auto simp: points_to_def)
    next
      case False
      then have "e \<in> D" using that by simp
      then show ?thesis using mem [of e] False r(2) by (auto simp: fun_upd_def)
    qed
    moreover have "fst c' = fst c + card (insert ?e D)" using D(1,2) 2(1) \<open>?e \<notin> D\<close> by simp
    ultimately show ?thesis using st counts D(1) unfolding orphans_handled_def by blast
  qed
qed

lemma wp_delete_orphans:
  "store_ok paths s \<Longrightarrow> no_os_faults s \<Longrightarrow>
   wp (fold_eff (delete_orphan paths) is c) (\<lambda>c' t. orphans_handled paths is c s c' t) (\<lambda>_ _. False) s"
proof (induction "is" arbitrary: c s)
  case Nil
  then show ?case by (auto simp: wp_simps orphans_handled_def intro!: exI [of _ "{}"])
next
  case (Cons i "is")
  show ?case
    unfolding fold_eff.simps
  proof (rule wp_bind_spec [OF wp_delete_orphan [OF Cons.prems]])
    fix c1 t assume one: "orphan_handled paths i c s c1 t"
    then have st: "store_step s t" by (simp add: orphan_handled_def)
    have "store_ok paths t" "no_os_faults t"
      using store_ok_step [OF Cons.prems(1) st] Cons.prems(2) st no_os_faults_frame [of s t]
      by (auto simp: store_step_def)
    from wp_mono [OF Cons.IH [OF this]] orphans_handled_step [OF one]
    show "wp (fold_eff (delete_orphan paths) is c1)
        (\<lambda>c' v. orphans_handled paths (i # is) c s c' v) (\<lambda>_ _. False) t" by blast
  qed simp
qed

section \<open>The cleanup\<close>

text \<open>Names as POSIX has them.\<close>

definition posix_name :: "str \<Rightarrow> bool" where
  "posix_name c \<longleftrightarrow> c \<noteq> [] \<and> c \<noteq> dot \<and> slash \<notin> set c"

definition posix_entries :: "fs \<Rightarrow> path \<Rightarrow> bool" where
  "posix_entries f root \<longleftrightarrow> (\<forall>q. f (root @ q) \<noteq> None \<longrightarrow> list_all posix_name q)"

lemma as_posix_join:
  assumes "list_all posix_name q" and "q \<noteq> []"
  shows "as_posix (join_on slash q) = join_on slash q"
proof -
  have split: "split_on slash (join_on slash q) = q"
    by (rule split_join_on) (use assms in \<open>auto simp: list_all_iff posix_name_def\<close>)
  then have parts: "pure_parts (join_on slash q) = q"
    using assms(1) by (simp add: pure_parts_def list_all_iff posix_name_def filter_True)
  obtain c cs r where q: "q = (c # cs) # r" using assms by (cases q) (auto simp: posix_name_def neq_Nil_conv)
  have "c \<noteq> slash" using assms(1) q by (auto simp: posix_name_def)
  moreover have "\<exists>t. join_on slash q = c # t" by (cases r) (simp_all add: q)
  ultimately have "\<not> starts_with [slash] (join_on slash q)" "\<not> starts_with [slash, slash] (join_on slash q)"
    "join_on slash q \<noteq> []"
    by (auto simp: starts_with_iff)
  then show ?thesis by (simp add: as_posix_def parts is_absolute_def Let_def)
qed

text \<open>
  The directory tree as the operating system shows it: the listing is complete, the names are
  POSIX names and the fuel covers the depth.
\<close>

definition walkable :: "listing \<Rightarrow> nat \<Rightarrow> storage_paths \<Rightarrow> fs \<Rightarrow> bool" where
  "walkable ls n paths f \<longleftrightarrow> faithful ls f
     \<and> (\<forall>a. within n f (area_root paths a) \<and> posix_entries f (area_root paths a))"

definition cleaned ::
  "storage_paths \<Rightarrow> str set \<Rightarrow> bool \<Rightarrow> world \<Rightarrow> orphan_cleanup_report \<Rightarrow> world \<Rightarrow> bool" where
  "cleaned paths known dry_run s r t \<longleftrightarrow>
     set (oc_discovered r) = all_orphans paths known (files s) \<and> oc_dry_run r = dry_run
   \<and> (\<exists>D. finite D \<and> card D = oc_deleted_count r \<and> files t = (\<lambda>e. if e \<in> D then None else files s e)
        \<and> D \<subseteq> {area_root paths a @ q | a q. files s (area_root paths a @ q) \<noteq> None \<and> join_on slash q \<notin> known}
        \<and> (if dry_run then D = {} else oc_deleted_count r + oc_errors r = length (oc_discovered r)))"

lemma cleaned_targets:
  assumes ok: "store_ok paths s" and posix: "\<And>a. posix_entries (os_fs s) (area_root paths a)"
    and i: "i \<in> all_orphans paths known (files s)" and e: "points_to paths i e"
  shows "\<exists>a q. e = area_root paths a @ q \<and> join_on slash q \<notin> known"
proof -
  obtain a q b where q: "i = orphan_issue (join_on slash q) a (int (length b))"
    "files s (area_root paths a @ q) = Some b" "join_on slash q \<notin> known"
    using i by (auto simp: all_orphans_def orphans_in_def)
  obtain m where root: "os_fs s (area_root paths a) = Some (Dir m)"
    using root_ok_dir store_okD(3) [OF ok] by blast
  have ne: "q \<noteq> []" using q(2) root by (auto simp: files_def file_at_def)
  have "os_fs s (area_root paths a @ q) \<noteq> None"
    using q(2) by (cases "os_fs s (area_root paths a @ q)") (simp_all add: files_def file_at_def)
  then have "list_all posix_name q" using posix by (auto simp: posix_entries_def)
  then have "as_posix (join_on slash q) = join_on slash q" using as_posix_join ne by blast
  then obtain p where "e = area_root paths a @ p" "safe_relative (join_on slash q) p"
    using e by (auto simp: points_to_def q(1) orphan_issue_def)
  then show ?thesis using q(3) safe_relativeD(4) by metis
qed

lemma wp_cleanup_orphans:
  assumes ok: "store_ok paths s" and nf: "no_os_faults s" and w: "walkable ls n paths (os_fs s)"
  shows "wp (cleanup_orphans ls n paths dry_run)
     (\<lambda>r t. drifted s (w_db s) (w_db t)
        \<and> cleaned paths (rf_relative_storage_path ` set (db_files (w_db t))) dry_run s r t)
     (\<lambda>e t. e = SQLAlchemyError \<and> files t = files s \<and> drifted s (w_db s) (w_db t)) s"
proof -
  let ?known = "\<lambda>d. rf_relative_storage_path ` set (db_files d)"
  have snap: "wp metadata_snapshot
     (\<lambda>m t. db_only s t \<and> drifted s (w_db s) (w_db t) \<and> (\<lambda>m d. fm_relative_path ` set m = ?known d) m (w_db t))
     (\<lambda>e t. db_only s t \<and> drifted s (w_db s) (w_db t) \<and> (\<lambda>e d. e = SQLAlchemyError) e (w_db t)) s"
    unfolding metadata_snapshot_def
    by (rule wp_read_session) (auto simp: wp_simps metadata_of_def image_image)
  show ?thesis
    unfolding cleanup_orphans_def
  proof (rule wp_bind_spec [OF snap])
    fix m t
    assume m: "db_only s t \<and> drifted s (w_db s) (w_db t) \<and> (\<lambda>m d. fm_relative_path ` set m = ?known d) m (w_db t)"
    then have known: "fm_relative_path ` set m = ?known (w_db t)" by simp
    have ft: "os_fs t = os_fs s" "files t = files s" "os_fault t = os_fault s"
      using db_onlyD [OF conjunct1 [OF m]] by blast+
    have okt: "store_ok paths t" "no_os_faults t" using ok nf by (simp_all add: store_ok_def no_os_faults_def ft)
    have lt: "faithful ls (os_fs t)" "within n (os_fs t) (area_root paths a)" for a
      using w by (simp_all add: walkable_def ft)
    show "wp (bind (orphan_issues ls n paths (fm_relative_path ` set m)) (\<lambda>orphans.
       bind (if dry_run then ret (0, 0) else fold_eff (delete_orphan paths) orphans (0, 0))
       (\<lambda>(deleted, errors).
         ret \<lparr>oc_discovered = orphans, oc_deleted_count = deleted, oc_errors = errors, oc_dry_run = dry_run\<rparr>)))
     (\<lambda>r t. drifted s (w_db s) (w_db t) \<and> cleaned paths (?known (w_db t)) dry_run s r t)
     (\<lambda>e t. e = SQLAlchemyError \<and> files t = files s \<and> drifted s (w_db s) (w_db t)) t"
      unfolding known
    proof (rule wp_bind_spec [OF wp_orphan_issues [OF okt lt]])
      fix orphans v
      assume v: "looked t v \<and> set orphans = all_orphans paths (?known (w_db t)) (files t)"
      have fv: "os_fs v = os_fs s" "files v = files s" "os_fault v = os_fault s" "w_db v = w_db t"
        using looked_eqs [OF conjunct1 [OF v]] looked_db [of t v] v ft by auto
      have okv: "store_ok paths v" "no_os_faults v" using ok nf by (simp_all add: store_ok_def no_os_faults_def fv)
      have disc: "set orphans = all_orphans paths (?known (w_db t)) (files s)" using v ft by simp
      have targets: "\<exists>a q. e = area_root paths a @ q \<and> join_on slash q \<notin> ?known (w_db t)"
        if "i \<in> set orphans" "points_to paths i e" for i e
        using cleaned_targets [OF ok] w that disc unfolding walkable_def by blast
      have dr: "drifted s (w_db s) (w_db t)" using m by simp
      let ?Q = "\<lambda>r u. drifted s (w_db s) (w_db u) \<and> cleaned paths (?known (w_db u)) dry_run s r u"
      show "wp (bind (if dry_run then ret (0, 0) else fold_eff (delete_orphan paths) orphans (0, 0))
         (\<lambda>(deleted, errors). ret \<lparr>oc_discovered = orphans, oc_deleted_count = deleted,
            oc_errors = errors, oc_dry_run = dry_run\<rparr>))
         ?Q (\<lambda>e t. e = SQLAlchemyError \<and> files t = files s \<and> drifted s (w_db s) (w_db t)) v"
      proof (cases dry_run)
        case True
        then show ?thesis using disc dr fv by (simp add: wp_simps cleaned_def)
      next
        case False
        have "wp (bind (fold_eff (delete_orphan paths) orphans (0, 0))
         (\<lambda>(deleted, errors). ret \<lparr>oc_discovered = orphans, oc_deleted_count = deleted,
            oc_errors = errors, oc_dry_run = dry_run\<rparr>))
         ?Q (\<lambda>e t. e = SQLAlchemyError \<and> files t = files s \<and> drifted s (w_db s) (w_db t)) v"
        proof (rule wp_bind_spec [OF wp_delete_orphans [OF okv]])
          fix c u assume "orphans_handled paths orphans (0, 0) v c u"
          then obtain D where D: "finite D" "fst c = card D" "files u = (\<lambda>e. if e \<in> D then None else files s e)"
            and sum: "fst c + snd c = length orphans" and db: "w_db u = w_db t"
            and mem: "\<And>e. e \<in> D \<Longrightarrow> files s e \<noteq> None \<and> (\<exists>i \<in> set orphans. points_to paths i e)"
            unfolding orphans_handled_def fv fst_conv snd_conv add_0 by blast
          have sub: "D \<subseteq> {area_root paths a @ q | a q. files s (area_root paths a @ q) \<noteq> None
              \<and> join_on slash q \<notin> ?known (w_db t)}"
          proof
            fix e assume "e \<in> D"
            then obtain i where "files s e \<noteq> None" "i \<in> set orphans" "points_to paths i e" using mem by blast
            then show "e \<in> {area_root paths a @ q | a q. files s (area_root paths a @ q) \<noteq> None
              \<and> join_on slash q \<notin> ?known (w_db t)}" using targets by blast
          qed
          have "cleaned paths (?known (w_db u)) dry_run s \<lparr>oc_discovered = orphans, oc_deleted_count = fst c,
            oc_errors = snd c, oc_dry_run = dry_run\<rparr> u"
            unfolding cleaned_def db
            using disc False D(1) D(2) [symmetric] D(3) sub sum by (intro conjI exI [of _ D]) simp_all
          then show "wp (case c of (deleted, errors) \<Rightarrow> ret \<lparr>oc_discovered = orphans, oc_deleted_count = deleted,
            oc_errors = errors, oc_dry_run = dry_run\<rparr>)
            ?Q (\<lambda>e t. e = SQLAlchemyError \<and> files t = files s \<and> drifted s (w_db s) (w_db t)) u"
            using dr db by (cases c) (simp add: wp_simps)
        qed simp
        then show ?thesis using False by simp
      qed
    qed simp
  next
    fix e t
    assume "db_only s t \<and> drifted s (w_db s) (w_db t) \<and> (\<lambda>e d. e = SQLAlchemyError) e (w_db t)"
    then show "e = SQLAlchemyError \<and> files t = files s \<and> drifted s (w_db s) (w_db t)"
      using db_onlyD(2) by blast
  qed
qed

end
