(* ===== verification/ReconciliationProperties.thy ===== *)
theory ReconciliationProperties
  imports ReconciliationSpecs
begin

text \<open>
  The storage reconciliation: its directory walk ends and is complete, its cleanup removes
  unreferenced files only, and the one case in which it does not.
\<close>

section \<open>An installation with an orphan\<close>

definition demo_entries :: "path list" where
  "demo_entries = [[[115]], [[115], [119]], [[115], [116]], [[115], [113]], [[115], [113], [102]],
     [[115], [119], [111]]]"

definition demo_ls :: listing where
  "demo_ls f p = map last (filter (\<lambda>q. butlast q = p \<and> f q \<noteq> None) demo_entries)"

lemma demo_ls_faithful:
  assumes "\<And>q. f q \<noteq> None \<Longrightarrow> q = [] \<or> q \<in> set demo_entries"
  shows "faithful demo_ls f"
  unfolding faithful_def
proof (intro allI iffI)
  fix p c
  show "f (p @ [c]) \<noteq> None" if c: "c \<in> set (demo_ls f p)"
  proof -
    obtain q where q: "q \<in> set demo_entries" "butlast q = p" "f q \<noteq> None" "c = last q"
      using c by (auto simp: demo_ls_def)
    then have "q \<noteq> []" by (auto simp: demo_entries_def)
    then show ?thesis using q by (metis append_butlast_last_id)
  qed
  show "c \<in> set (demo_ls f p)" if "f (p @ [c]) \<noteq> None"
    using assms [OF that] that by (force simp: demo_ls_def)
qed

definition orphan_world :: world where
  "orphan_world = demo_world\<lparr>os_fs := demo_fs([[115], [119], [111]] \<mapsto> File [1] 416 0)\<rparr>"

lemma orphan_fs_entries:
  "os_fs orphan_world q \<noteq> None \<Longrightarrow> q = [] \<or> q \<in> set demo_entries"
  by (auto simp: orphan_world_def demo_fs_def demo_entries_def split: if_splits)

lemma orphan_world_ok: "store_ok demo_paths orphan_world"
proof -
  have "tree_grows demo_fs (os_fs orphan_world)"
    by (auto simp: tree_grows_def is_symlink_def orphan_world_def demo_fs_def split: if_splits)
  moreover have "tree_ok (os_fs orphan_world)"
    unfolding tree_ok_def
  proof (intro allI impI)
    fix p c assume "os_fs orphan_world (p @ [c]) \<noteq> None"
    then have "demo_fs (p @ [c]) \<noteq> None \<or> p = [[115], [119]]"
      by (auto simp: orphan_world_def split: if_splits)
    then obtain m where "demo_fs p = Some (Dir m)"
      using demo_tree_ok by (auto simp: tree_ok_def demo_fs_def)
    then show "\<exists>m. os_fs orphan_world p = Some (Dir m)"
      by (auto simp: orphan_world_def demo_fs_def split: if_splits)
  qed
  ultimately show ?thesis using demo_store_ok root_ok_grows by (auto simp: store_ok_def)
qed

lemma orphan_world_walkable: "walkable demo_ls 1 demo_paths (os_fs orphan_world)"
proof -
  have "length q \<le> 1 \<and> list_all posix_name q" if "os_fs orphan_world (area_root demo_paths a @ q) \<noteq> None" for a q
    using orphan_fs_entries [OF that]
    by (cases a) (auto simp: area_root.simps demo_paths_def demo_entries_def posix_name_def dot_def slash_def)
  then show ?thesis
    using demo_ls_faithful [OF orphan_fs_entries]
    by (simp add: walkable_def within_def posix_entries_def)
qed

definition cleanup_outcome :: "(exn + orphan_cleanup_report) \<times> world \<Rightarrow> (nat \<times> nat \<times> bytes option) option" where
  "cleanup_outcome z = (case z of
     (Inr r, t) \<Rightarrow> Some (oc_deleted_count r, oc_errors r, files t [[115], [113], [102]])
   | _ \<Rightarrow> None)"

lemma demo_cleanup_run:
  "cleanup_outcome (cleanup_orphans demo_ls 1 demo_paths False orphan_world) = Some (1, 0, Some demo_bytes)"
  by code_simp

section \<open>Properties\<close>

text \<open>
  C20: the directory walk of the reconciliation ends and misses nothing. When the listing of
  the operating system is complete and the tree below the root has at most \<open>n\<close> levels, a walk
  that may descend further gives the same result and reaches the same state, whatever fails on
  the way; and when nothing fails, the file names it yields are exactly the entries below the
  root that are not directories.
\<close>

theorem walk_terminates_complete:
  assumes "tree_ok (os_fs s)" and "faithful ls (os_fs s)" and "within n (os_fs s) root"
  shows "walk ls (Suc (n + k)) root s = walk ls (Suc n) root s
     \<and> (no_os_faults s \<longrightarrow> (\<exists>vs t. walk ls (Suc n) root s = (Inr vs, t) \<and> looked s t
          \<and> (\<forall>e. found_by vs e \<longleftrightarrow> (\<exists>q. q \<noteq> [] \<and> e = root @ q \<and> os_fs s e \<noteq> None \<and> \<not> is_real_dir (os_fs s) e))))"
proof -
  have "within (Suc n) (os_fs s) root" using assms(3) by (auto simp: within_def le_SucI)
  note found = found_by_visits [OF assms(2,1) this]
  have "no_os_faults s \<Longrightarrow> \<exists>vs t. walk ls (Suc n) root s = (Inr vs, t) \<and> looked s t
      \<and> vs = visits ls (os_fs s) (Suc n) root"
    using wp_walk [of s ls "Suc n" root] by (cases "walk ls (Suc n) root s") (auto simp: wp_def split: sum.splits)
  then show ?thesis using walk_more [OF assms(3,2) refl] found by metis
qed

theorem walk_terminates_complete_witness:
  "\<exists>vs t. walk demo_ls 2 (sp_quarantine demo_paths) orphan_world = (Inr vs, t)
     \<and> found_by vs [[115], [113], [102]] \<and> \<not> found_by vs [[115], [113]]"
proof -
  have w: "faithful demo_ls (os_fs orphan_world)" "within 1 (os_fs orphan_world) (sp_quarantine demo_paths)"
    using orphan_world_walkable by (simp_all add: walkable_def) (metis area_root.simps)
  have tree: "tree_ok (os_fs orphan_world)" using orphan_world_ok by (simp add: store_ok_def)
  have nf: "no_os_faults orphan_world" by (simp add: orphan_world_def demo_world_def no_os_faults_def)
  have two: "Suc 1 = 2" by simp
  have root: "sp_quarantine demo_paths = [[115], [113]]" by (simp add: demo_paths_def)
  have entry: "os_fs orphan_world [[115], [113], [102]] = Some (File demo_bytes 416 0)"
    "os_fs orphan_world [[115], [113]] = Some (Dir 488)"
    by (simp_all add: orphan_world_def demo_fs_def)
  show ?thesis
    using walk_terminates_complete [OF tree w, of 0] nf entry
    unfolding two root by (auto simp: is_real_dir_def)
qed

text \<open>
  C17: while the operating system works, the cleanup of orphans reports exactly the stored
  files that no row of its snapshot refers to, deletes only those, counts what it deleted and
  what it could not delete, and deletes nothing in a dry run; every other file, in particular
  every file of a row, stays as it is. It fails only when the snapshot does, and then nothing
  is deleted.
\<close>

theorem cleanup_removes_only_orphans:
  assumes "store_ok paths s" and "no_os_faults s" and "walkable ls n paths (os_fs s)"
  shows "case cleanup_orphans ls n paths dry_run s of
      (Inr r, t) \<Rightarrow> drifted s (w_db s) (w_db t)
        \<and> cleaned paths (rf_relative_storage_path ` set (db_files (w_db t))) dry_run s r t
    | (Inl e, t) \<Rightarrow> e = SQLAlchemyError \<and> files t = files s"
  using wp_cleanup_orphans [OF assms, of dry_run] by (auto simp: wp_def split: prod.splits sum.splits)

theorem cleanup_removes_only_orphans_witness:
  "\<exists>r t. cleanup_orphans demo_ls 1 demo_paths False orphan_world = (Inr r, t)
     \<and> oc_deleted_count r = 1 \<and> files t [[115], [113], [102]] = Some demo_bytes
     \<and> cleaned demo_paths (rf_relative_storage_path ` set (db_files (w_db t))) False orphan_world r t"
proof -
  let ?run = "cleanup_orphans demo_ls 1 demo_paths False orphan_world"
  have nf: "no_os_faults orphan_world" by (simp add: orphan_world_def demo_world_def no_os_faults_def)
  obtain r t where run: "?run = (Inr r, t)" and "oc_deleted_count r = 1" "files t [[115], [113], [102]] = Some demo_bytes"
    using demo_cleanup_run by (cases ?run) (auto simp: cleanup_outcome_def split: sum.splits)
  then show ?thesis
    using cleanup_removes_only_orphans [OF orphan_world_ok nf orphan_world_walkable, of False] by simp
qed



end
