(* ===== verification/Listings.thy ===== *)
theory Listings
  imports Catalog Downloads Security "HOL-Library.Product_Lexorder" "HOL-Library.List_Lexorder"
begin

text \<open>
  The ordered and filtered lists: the pages of categories, tags, files and daily counters,
  and the catalogue search of \<open>app/repositories/software_repository.py\<close>. An \<open>ORDER BY\<close> is a
  stable sort by the tuple of its keys, a descending number its negation; texts compare by
  code points, which is SQLite's \<open>BINARY\<close> collation on UTF-8. The operator \<open>LIKE\<close>, the column
  \<open>updated_at\<close> (kept by a mixin, not a field of the row) and the order of rows that an
  \<open>ORDER BY\<close> leaves open are parameters, fields of \<open>engine\<close>.
\<close>

record engine =
  en_unicode :: unicode
  en_upper :: "str \<Rightarrow> str"
  en_like :: "str \<Rightarrow> str \<Rightarrow> bool"
  en_updated_at :: "nat \<Rightarrow> datetime"
  en_tie :: "nat \<Rightarrow> nat"

section \<open>Plain lists\<close>

definition category_key :: "category \<Rightarrow> int \<times> str \<times> nat" where
  "category_key c = (cat_sort_order c, sql_lower (cat_name c), cat_id c)"

definition category_rows :: "bool \<Rightarrow> database \<Rightarrow> category list" where
  "category_rows visible_only d =
     sort_key category_key (filter (\<lambda>c. visible_only \<longrightarrow> cat_is_visible c) (db_categories d))"

definition list_categories_page :: "pagination \<Rightarrow> bool \<Rightarrow> category page svc" where
  "list_categories_page pagination visible_only =
     read_session (paginate_scalars (category_rows visible_only) pagination)"

definition tag_rows :: "database \<Rightarrow> tag list" where
  "tag_rows d = sort_key (\<lambda>x. (sql_lower (tag_name x), tag_id x)) (db_tags d)"

definition list_tags_page :: "pagination \<Rightarrow> tag page svc" where
  "list_tags_page pagination = read_session (paginate_scalars tag_rows pagination)"

definition file_rows :: "nat \<Rightarrow> database \<Rightarrow> release_file list" where
  "file_rows release_id d =
     sort_key (\<lambda>f. (- rf_uploaded_at f, - int (rf_id f)))
       (filter (\<lambda>f. rf_release_id f = release_id) (db_files d))"

definition list_for_release :: "nat \<Rightarrow> pagination \<Rightarrow> release_file page svc" where
  "list_for_release release_id pagination =
     read_session (paginate_scalars (file_rows release_id) pagination)"

definition stat_rows :: "nat \<Rightarrow> database \<Rightarrow> download_stat list" where
  "stat_rows file_id d =
     sort_key (\<lambda>x. - ds_date x) (filter (\<lambda>x. ds_release_file_id x = file_id) (db_stats d))"

definition list_for_file :: "nat \<Rightarrow> pagination \<Rightarrow> download_stat page svc" where
  "list_for_file file_id pagination = paginate_scalars (stat_rows file_id) pagination"

definition total_downloads_counted :: "int svc" where
  "total_downloads_counted = query (\<lambda>d. sum_list (map rf_download_count (db_files d)))"

definition count_by_statuses :: "file_status list \<Rightarrow> int svc" where
  "count_by_statuses statuses =
     (if statuses = [] then ret 0
      else query (\<lambda>d. int (length (filter (\<lambda>f. rf_status f \<in> set statuses) (db_files d)))))"

section \<open>Search text\<close>

definition normalize_search_query :: "str option \<Rightarrow> exn + str option" where
  "normalize_search_query q =
     (case q of
        None \<Rightarrow> Inr None
      | Some text \<Rightarrow>
          (let normalized = collapse_spaces text in
           if normalized = [] then Inr None
           else if length normalized < 2 then Inl ValueError
           else if length normalized > 100 then Inl ValueError
           else Inr (Some normalized)))"

definition escape_like :: "str \<Rightarrow> str" where
  "escape_like s =
     replace_char 95 [92, 95] (replace_char 37 [92, 37] (replace_char 92 [92, 92] s))"

definition search_pattern :: "str \<Rightarrow> str" where
  "search_pattern q = [37] @ escape_like q @ [37]"

text \<open>\<open>column.ilike(pattern, escape="\")\<close>: SQLAlchemy's \<open>lower(column) LIKE lower(pattern)\<close>;
  a null column is not matched.\<close>

definition ilike :: "engine \<Rightarrow> str option \<Rightarrow> str \<Rightarrow> bool" where
  "ilike en column pattern =
     (case column of None \<Rightarrow> False | Some text \<Rightarrow> en_like en (sql_lower pattern) (sql_lower text))"

section \<open>The search statement\<close>

datatype software_sort = SortName | SortUpdated | SortPopularity

fun software_sort_value :: "software_sort \<Rightarrow> str" where
  "software_sort_value SortName = py ''name''"
| "software_sort_value SortUpdated = py ''updated''"
| "software_sort_value SortPopularity = py ''popularity''"

record software_filters =
  sf_query :: "str option"
  sf_category_slug :: "str option"
  sf_tag_slugs :: "str list"
  sf_statuses :: "software_status list"
  sf_visibilities :: "visibility list"
  sf_sort :: software_sort
  sf_is_featured :: "bool option"
  sf_public_facets_only :: bool

definition default_filters :: software_filters where
  "default_filters = \<lparr>sf_query = None, sf_category_slug = None, sf_tag_slugs = [], sf_statuses = [],
     sf_visibilities = [], sf_sort = SortUpdated, sf_is_featured = None,
     sf_public_facets_only = False\<rparr>"

definition category_of :: "database \<Rightarrow> software \<Rightarrow> category option" where
  "category_of d w =
     (case sw_category_id w of None \<Rightarrow> None | Some i \<Rightarrow> row_get cat_id i (db_categories d))"

definition tags_of :: "database \<Rightarrow> software \<Rightarrow> tag list" where
  "tags_of d w = filter (\<lambda>x. (sw_id w, tag_id x) \<in> set (db_software_tags d)) (db_tags d)"

definition releases_of :: "database \<Rightarrow> software \<Rightarrow> release list" where
  "releases_of d w = filter (\<lambda>r. rel_software_id r = sw_id w) (db_releases d)"

definition files_of :: "database \<Rightarrow> release \<Rightarrow> release_file list" where
  "files_of d r = filter (\<lambda>f. rf_release_id f = rel_id r) (db_files d)"

text \<open>A row of the joined tables; an outer join yields a null partner where it finds none.\<close>

type_synonym joined_row = "software \<times> category option \<times> tag option"

definition outer_join :: "'a list \<Rightarrow> 'a option list" where
  "outer_join xs = (if xs = [] then [None] else map Some xs)"

definition join_rows :: "bool \<Rightarrow> bool \<Rightarrow> database \<Rightarrow> joined_row list" where
  "join_rows joins_category joins_tags d =
     concat (map (\<lambda>w. map (\<lambda>t. (w, if joins_category then category_of d w else None, t))
                        (if joins_tags then outer_join (tags_of d w) else [None]))
              (db_softwares d))"

definition category_clause :: "(category \<Rightarrow> bool) \<Rightarrow> bool \<Rightarrow> category option \<Rightarrow> bool" where
  "category_clause P public_only c =
     (case c of None \<Rightarrow> False | Some x \<Rightarrow> (public_only \<longrightarrow> cat_is_visible x) \<and> P x)"

definition query_clause :: "engine \<Rightarrow> software_filters \<Rightarrow> str \<Rightarrow> joined_row \<Rightarrow> bool" where
  "query_clause en f q = (\<lambda>(w, c, t).
     let pattern = search_pattern q in
     ilike en (Some (sw_name w)) pattern
     \<or> ilike en (Some (sw_short_description w)) pattern
     \<or> ilike en (sw_developer_name w) pattern
     \<or> category_clause (\<lambda>x. ilike en (Some (cat_name x)) pattern) (sf_public_facets_only f) c
     \<or> ilike en (map_option tag_name t) pattern)"

definition where_clause :: "engine \<Rightarrow> software_filters \<Rightarrow> str option \<Rightarrow> joined_row \<Rightarrow> bool" where
  "where_clause en f nq = (\<lambda>(w, c, t).
     (case nq of None \<Rightarrow> True | Some q \<Rightarrow> query_clause en f q (w, c, t))
     \<and> (case sf_category_slug f of None \<Rightarrow> True
        | Some slug \<Rightarrow> category_clause (\<lambda>x. cat_slug x = casefold (en_unicode en) (strip slug))
                         (sf_public_facets_only f) c)
     \<and> (sf_tag_slugs f \<noteq> [] \<longrightarrow>
          (case t of None \<Rightarrow> False
           | Some x \<Rightarrow> tag_slug x
               \<in> set (map (\<lambda>slug. casefold (en_unicode en) (strip slug)) (sf_tag_slugs f))))
     \<and> (sf_statuses f \<noteq> [] \<longrightarrow> sw_status w \<in> set (sf_statuses f))
     \<and> (sf_visibilities f \<noteq> [] \<longrightarrow> sw_visibility w \<in> set (sf_visibilities f))
     \<and> (case sf_is_featured f of None \<Rightarrow> True | Some b \<Rightarrow> sw_is_featured w = b))"

text \<open>The correlated subquery of the popularity order.\<close>

definition public_release_status :: "release_status \<Rightarrow> bool" where
  "public_release_status s = (s \<in> {ReleasePublished, ReleaseArchived})"

definition popularity :: "bool \<Rightarrow> database \<Rightarrow> software \<Rightarrow> int" where
  "popularity public_only d w =
     sum_list (map rf_download_count (concat (map (\<lambda>r.
       filter (\<lambda>f. public_only \<longrightarrow> public_release_status (rel_status r)
           \<and> rf_status f = FilePublished \<and> rf_visibility f = VisPublic) (files_of d r))
       (releases_of d w))))"

definition order_softwares :: "engine \<Rightarrow> software_filters \<Rightarrow> database \<Rightarrow> software list \<Rightarrow> software list" where
  "order_softwares en f d ws =
     (case sf_sort f of
        SortName \<Rightarrow> sort_key (\<lambda>w. (sql_lower (sw_name w), sw_id w)) ws
      | SortPopularity \<Rightarrow>
          sort_key (\<lambda>w. (- popularity (sf_public_facets_only f) d w, sql_lower (sw_name w),
                          en_tie en (sw_id w))) ws
      | SortUpdated \<Rightarrow> sort_key (\<lambda>w. (- en_updated_at en (sw_id w), - int (sw_id w))) ws)"

definition software_rows :: "engine \<Rightarrow> software_filters \<Rightarrow> str option \<Rightarrow> database \<Rightarrow> software list" where
  "software_rows en f nq d =
     (let joins_category = sf_category_slug f \<noteq> None \<or> nq \<noteq> None;
          joins_tags = sf_tag_slugs f \<noteq> [] \<or> nq \<noteq> None
      in order_softwares en f d
           (remdups (map fst (filter (where_clause en f nq) (join_rows joins_category joins_tags d)))))"

text \<open>\<open>_with_summary_graph\<close>: a row with what its relationships load.\<close>

record release_graph =
  rg_release :: release
  rg_files :: "release_file list"

record software_graph =
  sg_software :: software
  sg_category :: "category option"
  sg_tags :: "tag list"
  sg_releases :: "release_graph list"

definition release_graph_of :: "database \<Rightarrow> release \<Rightarrow> release_graph" where
  "release_graph_of d r = \<lparr>rg_release = r, rg_files = files_of d r\<rparr>"

definition with_summary_graph :: "database \<Rightarrow> software \<Rightarrow> software_graph" where
  "with_summary_graph d w = \<lparr>sg_software = w, sg_category = category_of d w, sg_tags = tags_of d w,
     sg_releases = map (release_graph_of d) (releases_of d w)\<rparr>"

definition software_list_page ::
  "engine \<Rightarrow> pagination \<Rightarrow> software_filters option \<Rightarrow> software_graph page svc" where
  "software_list_page en pagination filters =
     (let f = (case filters of None \<Rightarrow> default_filters | Some f \<Rightarrow> f) in
      bind (lift_result (normalize_search_query (sf_query f))) (\<lambda>nq.
      paginate_scalars (\<lambda>d. map (with_summary_graph d) (software_rows en f nq d)) pagination))"

definition software_service_list ::
  "engine \<Rightarrow> pagination \<Rightarrow> software_filters option \<Rightarrow> software_graph page svc" where
  "software_service_list en pagination filters =
     try_catch (read_session (software_list_page en pagination filters))
       (\<lambda>e. throw (if e = ValueError then ValidationError else e))"

definition graph_by_slug :: "unicode \<Rightarrow> str \<Rightarrow> software_graph option svc" where
  "graph_by_slug u slug =
     query (\<lambda>d. map_option (with_summary_graph d) (by_slug sw_slug u slug (db_softwares d)))"

end
