(* ===== verification/PublicCatalog.thy ===== *)
theory PublicCatalog
  imports Listings
begin

text \<open>
  \<open>app/services/public_catalog_service.py\<close> with \<open>app/repositories/public_catalog_repository.py\<close>
  and the view models of \<open>app/schemas/public_catalog.py\<close>: what an anonymous visitor (or an
  administrator looking at the public site) is shown. A projection may raise, since quoting
  a file name does when it has no UTF-8 encoding, so views are values of \<open>exn + view\<close>.
  The column \<open>updated_at\<close> is read through \<open>engine\<close>.
\<close>

section \<open>Texts\<close>

text \<open>
  Calendar date of a day number, the standard library's \<open>_ord2ymd\<close> (the day number of the
  epoch is 719163 there), and \<open>strftime("%d.%m.%Y")\<close> for the years of four digits.
\<close>

definition days_before_month :: "int list" where
  "days_before_month = [0, 0, 31, 59, 90, 120, 151, 181, 212, 243, 273, 304, 334]"

definition days_in_month :: "int list" where
  "days_in_month = [0, 31, 28, 31, 30, 31, 30, 31, 31, 30, 31, 30, 31]"

definition ord2ymd :: "int \<Rightarrow> int \<times> int \<times> int" where
  "ord2ymd ordinal =
     (let n = ordinal - 1;
          n400 = n div 146097; n = n mod 146097;
          n100 = n div 36524; n = n mod 36524;
          n4 = n div 1461; n = n mod 1461;
          n1 = n div 365; n = n mod 365;
          year = n400 * 400 + 1 + n100 * 100 + n4 * 4 + n1
      in if n1 = 4 \<or> n100 = 4 then (year - 1, 12, 31)
      else
        let leap = n1 = 3 \<and> (n4 \<noteq> 24 \<or> n100 = 3);
            month = (n + 50) div 32;
            preceding = days_before_month ! nat month + (if 2 < month \<and> leap then 1 else 0)
        in if n < preceding then
             let month = month - 1;
                 preceding = preceding
                   - (days_in_month ! nat month + (if month = 2 \<and> leap then 1 else 0))
             in (year, month, n - preceding + 1)
           else (year, month, n - preceding + 1))"

definition padded :: "nat \<Rightarrow> int \<Rightarrow> str" where
  "padded width n =
     (let digits = digits_of (nat n) in replicate (width - length digits) 48 @ digits)"

definition date_label :: "date \<Rightarrow> str" where
  "date_label day =
     (case ord2ymd (day + 719163) of
        (y, m, d) \<Rightarrow> padded 2 d @ [46] @ padded 2 m @ [46] @ padded 4 y)"

definition date_label_opt :: "date option \<Rightarrow> str option" where
  "date_label_opt v = map_option date_label v"

definition datetime_label_opt :: "datetime option \<Rightarrow> str option" where
  "datetime_label_opt v = map_option (\<lambda>t. date_label (date_of t)) v"

text \<open>
  \<open>_format_bytes\<close>. \<open>float(size)\<close> rounds above \<open>2 ^ 53\<close>; the repeated division by 1024 is
  exact, so the value at the \<open>k\<close>-th unit is the quotient by \<open>1024 ^ k\<close>, and \<open>.1f\<close> rounds
  that quotient half to even.
\<close>

definition float_of_int :: "int \<Rightarrow> int" where
  "float_of_int n =
     (if \<bar>n\<bar> < 2 ^ 53 then n
      else
        let k = scale_down \<bar>n\<bar> 1 0; m = round_half_even \<bar>n\<bar> (2 ^ k) * 2 ^ k
        in if n < 0 then - m else m)"

definition byte_units :: "str list" where
  "byte_units = [[1041], [1050, 1110, 1041], [1052, 1110, 1041],
     [1043, 1110, 1041], [1058, 1110, 1041]]"

fun pick_unit :: "int \<Rightarrow> nat \<Rightarrow> str list \<Rightarrow> (nat \<times> str) option" where
  "pick_unit v k [] = None"
| "pick_unit v k (unit # units) =
     (if v < 1024 * 1024 ^ k \<or> units = [] then Some (k, unit) else pick_unit v (Suc k) units)"

definition decimal :: "int \<Rightarrow> str" where
  "decimal n = (if n < 0 then 45 # digits_of (nat (- n)) else digits_of (nat n))"

definition tenths :: "int \<Rightarrow> str" where
  "tenths n = digits_of (nat (n div 10)) @ [46] @ digits_of (nat (n mod 10))"

definition format_bytes :: "int \<Rightarrow> str" where
  "format_bytes n =
     (let v = float_of_int n in
      case pick_unit v 0 byte_units of
        Some (k, unit) \<Rightarrow>
          if k = 0 then decimal v @ [32] @ unit
          else tenths (round_half_even (10 * v) (1024 ^ k)) @ [32] @ unit
      | None \<Rightarrow> decimal n @ [32] @ hd byte_units)"

text \<open>\<open>str.upper\<close>; beyond ASCII it is the parameter's.\<close>

definition str_upper :: "(str \<Rightarrow> str) \<Rightarrow> str \<Rightarrow> str" where
  "str_upper upper s = (if is_ascii s then map (\<lambda>c. if is_lower c then c - 32 else c) s else upper s)"

definition initials :: "(str \<Rightarrow> str) \<Rightarrow> str \<Rightarrow> str" where
  "initials upper name =
     (let words = filter (\<lambda>w. w \<noteq> []) (split_words (replace_char 45 [32] name)) in
      case words of
        [] \<Rightarrow> py ''SH''
      | [w] \<Rightarrow> str_upper upper (take 2 w)
      | w # v # _ \<Rightarrow> str_upper upper [hd w, hd v])"

fun architecture_label :: "architecture \<Rightarrow> str" where
  "architecture_label ArchX64 = py ''x64''"
| "architecture_label ArchX86 = py ''x86''"
| "architecture_label ArchArm64 = py ''ARM64''"
| "architecture_label ArchUniversal = [1059, 1085, 1110, 1074, 1077, 1088, 1089, 1072, 1083, 1100, 1085, 1072]"
| "architecture_label ArchOther = [1030, 1085, 1096, 1072]"

fun package_label :: "package_type \<Rightarrow> str" where
  "package_label PkgInstaller =
     [1030, 1085, 1089, 1090, 1072, 1083, 1103, 1090, 1086, 1088]"
| "package_label PkgPortable = py ''Portable''"
| "package_label PkgArchive = [1040, 1088, 1093, 1110, 1074]"
| "package_label PkgMsi = py ''MSI''"
| "package_label PkgOther =
     [1030, 1085, 1096, 1080, 1081, 32, 1087, 1072, 1082, 1077, 1090]"

fun channel_label :: "release_channel \<Rightarrow> str" where
  "channel_label ChannelStable = py ''Stable''"
| "channel_label ChannelBeta = py ''Beta''"
| "channel_label ChannelAlpha = py ''Alpha''"
| "channel_label ChannelNightly = py ''Nightly''"
| "channel_label ChannelLegacy = py ''Legacy''"

fun signature_label :: "signature_status \<Rightarrow> str" where
  "signature_label SigValid =
     [1055, 1110, 1076, 1087, 1080, 1089, 32, 1087, 1077, 1088, 1077, 1074, 1110, 1088, 1077, 1085, 1086]"
| "signature_label SigInvalid =
     [1055, 1110, 1076, 1087, 1080, 1089, 32, 1085, 1077, 1076, 1110, 1081, 1089, 1085, 1080, 1081]"
| "signature_label SigUnsigned =
     [1041, 1077, 1079, 32, 1094, 1080, 1092, 1088, 1086, 1074, 1086, 1075, 1086, 32, 1087, 1110, 1076, 1087, 1080, 1089, 1091]"
| "signature_label SigNotChecked =
     [1055, 1110, 1076, 1087, 1080, 1089, 32, 1085, 1077, 32, 1087, 1077, 1088, 1077, 1074, 1110, 1088, 1103, 1074, 1089, 1103]"
| "signature_label SigUnknown =
     [1057, 1090, 1072, 1090, 1091, 1089, 32, 1087, 1110, 1076, 1087, 1080, 1089, 1091, 32, 1085, 1077, 1074, 1110, 1076, 1086, 1084, 1080, 1081]"

section \<open>View models\<close>

record catalog_facet =
  fc_name :: str
  fc_slug :: str
  fc_description :: "str option"
  fc_software_count :: int

record public_file_view =
  fv_public_uuid :: nat
  fv_display_filename :: str
  fv_download_path :: str
  fv_architecture :: architecture
  fv_architecture_label :: str
  fv_package_type :: package_type
  fv_package_type_label :: str
  fv_platform :: str
  fv_edition :: "str option"
  fv_file_size_bytes :: int
  fv_file_size_label :: str
  fv_sha256 :: str
  fv_download_count :: int
  fv_published_at :: "datetime option"
  fv_published_at_label :: "str option"
  fv_signature_label :: str

record public_release_view =
  rv_version :: str
  rv_channel :: release_channel
  rv_channel_label :: str
  rv_release_date :: "date option"
  rv_release_date_label :: "str option"
  rv_changelog :: "str option"
  rv_is_current :: bool
  rv_is_archived :: bool
  rv_files :: "public_file_view list"

record software_card_view =
  sc_name :: str
  sc_slug :: str
  sc_initials :: str
  sc_short_description :: str
  sc_category :: "catalog_facet option"
  sc_tags :: "catalog_facet list"
  sc_current_version :: "str option"
  sc_updated_at :: datetime
  sc_updated_at_label :: str
  sc_total_downloads :: int
  sc_recommended_file :: "public_file_view option"
  sc_is_featured :: bool

record software_detail_view =
  sd_name :: str
  sd_slug :: str
  sd_initials :: str
  sd_short_description :: str
  sd_full_description :: "str option"
  sd_developer_name :: "str option"
  sd_official_website_url :: "str option"
  sd_source_url :: "str option"
  sd_license_name :: "str option"
  sd_supported_os :: "str option"
  sd_system_requirements :: "str option"
  sd_category :: "catalog_facet option"
  sd_tags :: "catalog_facet list"
  sd_status :: software_status
  sd_visibility :: visibility
  sd_is_featured :: bool
  sd_is_archived :: bool
  sd_is_unlisted :: bool
  sd_is_private :: bool
  sd_published_at :: "datetime option"
  sd_published_at_label :: "str option"
  sd_updated_at :: datetime
  sd_updated_at_label :: str
  sd_current_release :: "public_release_view option"
  sd_releases :: "public_release_view list"
  sd_recommended_file :: "public_file_view option"
  sd_total_downloads :: int

record public_catalog_view =
  pc_page :: "software_card_view page"
  pc_categories :: "catalog_facet list"
  pc_tags :: "catalog_facet list"
  pc_query :: str
  pc_category :: "catalog_facet option"
  pc_tag :: "catalog_facet option"
  pc_sort :: str

record public_home_view =
  ph_categories :: "catalog_facet list"
  ph_featured :: "software_card_view list"
  ph_latest :: "software_card_view list"
  ph_popular :: "software_card_view list"

record sitemap_entry =
  se_path :: str
  se_last_modified :: "datetime option"

section \<open>Projection\<close>

text \<open>A comprehension whose element expression may raise.\<close>

fun rmap :: "('a \<Rightarrow> exn + 'b) \<Rightarrow> 'a list \<Rightarrow> exn + 'b list" where
  "rmap f [] = Inr []"
| "rmap f (x # xs) = rbind (f x) (\<lambda>y. rbind (rmap f xs) (\<lambda>ys. Inr (y # ys)))"

definition is_listable_file :: "bool \<Rightarrow> release_file \<Rightarrow> bool" where
  "is_listable_file is_admin f =
     (if rf_status f \<noteq> FilePublished then False
      else if is_admin then True
      else rf_visibility f = VisPublic)"

fun architecture_order :: "architecture \<Rightarrow> nat" where
  "architecture_order ArchX64 = 0"
| "architecture_order ArchArm64 = 1"
| "architecture_order ArchX86 = 2"
| "architecture_order ArchUniversal = 3"
| "architecture_order ArchOther = 4"

fun package_order :: "package_type \<Rightarrow> nat" where
  "package_order PkgInstaller = 0"
| "package_order PkgMsi = 1"
| "package_order PkgPortable = 2"
| "package_order PkgArchive = 3"
| "package_order PkgOther = 4"

definition file_sort_key :: "unicode \<Rightarrow> release_file \<Rightarrow> nat \<times> nat \<times> str \<times> nat" where
  "file_sort_key u f = (architecture_order (rf_architecture f), package_order (rf_package_type f),
     casefold u (rf_display_filename f), rf_id f)"

text \<open>\<open>str(UUID)\<close>\<close>

fun hex_digits :: "nat \<Rightarrow> nat \<Rightarrow> str" where
  "hex_digits 0 n = []"
| "hex_digits (Suc k) n = hex_digits k (n div 16) @ [hex_digit (n mod 16)]"

definition uuid_text :: "nat \<Rightarrow> str" where
  "uuid_text n =
     (let h = hex_digits 32 n in
      take 8 h @ [45] @ take 4 (drop 8 h) @ [45] @ take 4 (drop 12 h) @ [45]
        @ take 4 (drop 16 h) @ [45] @ drop 20 h)"

definition download_path :: "nat \<Rightarrow> str \<Rightarrow> str" where
  "download_path uuid encoded_name = py ''/download/'' @ uuid_text uuid @ [47] @ encoded_name"

definition file_view :: "release_file \<Rightarrow> exn + public_file_view" where
  "file_view f =
     rbind (quote [] (rf_display_filename f)) (\<lambda>encoded_name.
     Inr \<lparr>fv_public_uuid = rf_public_uuid f, fv_display_filename = rf_display_filename f,
          fv_download_path = download_path (rf_public_uuid f) encoded_name,
          fv_architecture = rf_architecture f,
          fv_architecture_label = architecture_label (rf_architecture f),
          fv_package_type = rf_package_type f,
          fv_package_type_label = package_label (rf_package_type f),
          fv_platform = rf_platform f, fv_edition = rf_edition f,
          fv_file_size_bytes = rf_file_size_bytes f,
          fv_file_size_label = format_bytes (rf_file_size_bytes f), fv_sha256 = rf_sha256 f,
          fv_download_count = rf_download_count f, fv_published_at = rf_published_at f,
          fv_published_at_label = datetime_label_opt (rf_published_at f),
          fv_signature_label = signature_label (rf_signature_status f)\<rparr>)"

text \<open>\<open>date.min\<close>\<close>

definition date_min :: date where
  "date_min = -719162"

definition release_sort_key :: "release_graph \<Rightarrow> bool \<times> date \<times> nat" where
  "release_sort_key g = (rel_is_current (rg_release g),
     case rel_release_date (rg_release g) of None \<Rightarrow> date_min | Some t \<Rightarrow> t, rel_id (rg_release g))"

text \<open>\<open>list.sort(key=..., reverse=True)\<close> keeps equal elements in their order.\<close>

definition sort_reverse :: "('a \<Rightarrow> 'k::linorder) \<Rightarrow> 'a list \<Rightarrow> 'a list" where
  "sort_reverse key xs = rev (sort_key key (rev xs))"

definition release_view :: "unicode \<Rightarrow> bool \<Rightarrow> release_graph \<Rightarrow> exn + public_release_view" where
  "release_view u is_admin g =
     (let r = rg_release g in
      rbind (rmap file_view
               (filter (is_listable_file is_admin) (sort_key (file_sort_key u) (rg_files g))))
        (\<lambda>files.
      Inr \<lparr>rv_version = rel_version r, rv_channel = rel_channel r,
           rv_channel_label = channel_label (rel_channel r),
           rv_release_date = rel_release_date r,
           rv_release_date_label = date_label_opt (rel_release_date r),
           rv_changelog = rel_changelog r,
           rv_is_current = (rel_is_current r \<and> rel_status r = ReleasePublished),
           rv_is_archived = (rel_status r = ReleaseArchived), rv_files = files\<rparr>))"

definition release_views :: "unicode \<Rightarrow> bool \<Rightarrow> software_graph \<Rightarrow> exn + public_release_view list" where
  "release_views u is_admin g =
     (let eligible = filter (\<lambda>x. public_release_status (rel_status (rg_release x))) (sg_releases g) in
      rmap (release_view u is_admin) (sort_reverse release_sort_key eligible))"

definition current_release :: "public_release_view list \<Rightarrow> public_release_view option" where
  "current_release releases =
     (case find rv_is_current releases of
        Some r \<Rightarrow> Some r
      | None \<Rightarrow> find (\<lambda>r. rv_channel r = ChannelStable \<and> \<not> rv_is_archived r) releases)"

definition recommended_file :: "public_release_view option \<Rightarrow> public_file_view option" where
  "recommended_file release =
     (case release of
        None \<Rightarrow> None
      | Some r \<Rightarrow> (case rv_files r of [] \<Rightarrow> None | f # _ \<Rightarrow> Some f))"

definition category_facet :: "bool \<Rightarrow> software_graph \<Rightarrow> catalog_facet option" where
  "category_facet is_admin g =
     (case sg_category g of
        None \<Rightarrow> None
      | Some c \<Rightarrow>
          if \<not> cat_is_visible c \<and> \<not> is_admin then None
          else Some \<lparr>fc_name = cat_name c, fc_slug = cat_slug c,
                      fc_description = cat_description c, fc_software_count = 0\<rparr>)"

definition tag_facets :: "unicode \<Rightarrow> software_graph \<Rightarrow> catalog_facet list" where
  "tag_facets u g =
     map (\<lambda>t. \<lparr>fc_name = tag_name t, fc_slug = tag_slug t, fc_description = None,
                fc_software_count = 0\<rparr>)
       (sort_key (\<lambda>t. (casefold u (tag_name t), tag_id t)) (sg_tags g))"

definition shown_downloads :: "public_release_view list \<Rightarrow> int" where
  "shown_downloads releases =
     sum_list (concat (map (\<lambda>r. map fv_download_count (rv_files r)) releases))"

definition software_card :: "engine \<Rightarrow> software_graph \<Rightarrow> exn + software_card_view" where
  "software_card en g =
     (let u = en_unicode en; w = sg_software g; updated_at = en_updated_at en (sw_id w) in
      rbind (release_views u False g) (\<lambda>releases.
      let current = current_release releases in
      Inr \<lparr>sc_name = sw_name w, sc_slug = sw_slug w,
           sc_initials = initials (en_upper en) (sw_name w),
           sc_short_description = sw_short_description w,
           sc_category = category_facet False g, sc_tags = tag_facets u g,
           sc_current_version = map_option rv_version current,
           sc_updated_at = updated_at, sc_updated_at_label = date_label (date_of updated_at),
           sc_total_downloads = shown_downloads releases,
           sc_recommended_file = recommended_file current,
           sc_is_featured = sw_is_featured w\<rparr>))"

definition software_detail :: "engine \<Rightarrow> bool \<Rightarrow> software_graph \<Rightarrow> exn + software_detail_view" where
  "software_detail en is_admin g =
     (let u = en_unicode en; w = sg_software g; updated_at = en_updated_at en (sw_id w) in
      rbind (release_views u is_admin g) (\<lambda>releases.
      let current = current_release releases in
      Inr \<lparr>sd_name = sw_name w, sd_slug = sw_slug w,
           sd_initials = initials (en_upper en) (sw_name w),
           sd_short_description = sw_short_description w,
           sd_full_description = sw_full_description w,
           sd_developer_name = sw_developer_name w,
           sd_official_website_url = sw_official_website_url w,
           sd_source_url = sw_source_url w, sd_license_name = sw_license_name w,
           sd_supported_os = sw_supported_os w,
           sd_system_requirements = sw_system_requirements w,
           sd_category = category_facet is_admin g, sd_tags = tag_facets u g,
           sd_status = sw_status w, sd_visibility = sw_visibility w,
           sd_is_featured = sw_is_featured w,
           sd_is_archived = (sw_status w = SoftwareArchived),
           sd_is_unlisted = (sw_visibility w = VisUnlisted),
           sd_is_private = (sw_visibility w = VisPrivate),
           sd_published_at = sw_published_at w,
           sd_published_at_label = datetime_label_opt (sw_published_at w),
           sd_updated_at = updated_at, sd_updated_at_label = date_label (date_of updated_at),
           sd_current_release = current, sd_releases = releases,
           sd_recommended_file = recommended_file current,
           sd_total_downloads = shown_downloads releases\<rparr>))"

section \<open>Facets\<close>

text \<open>The condition the queries repeat: published and public.\<close>

definition listed_softwares :: "database \<Rightarrow> software list" where
  "listed_softwares d = filter is_software_publicly_listed (db_softwares d)"

definition category_count :: "database \<Rightarrow> category \<Rightarrow> nat" where
  "category_count d c =
     length (filter (\<lambda>w. sw_category_id w = Some (cat_id c)) (listed_softwares d))"

definition category_facet_row :: "database \<Rightarrow> category \<Rightarrow> catalog_facet" where
  "category_facet_row d c = \<lparr>fc_name = cat_name c, fc_slug = cat_slug c,
     fc_description = cat_description c, fc_software_count = int (category_count d c)\<rparr>"

text \<open>A group of the inner join exists when at least one row of it does.\<close>

definition facet_categories :: "nat \<Rightarrow> database \<Rightarrow> catalog_facet list" where
  "facet_categories limit d =
     map (category_facet_row d)
       (take limit (sort_key category_key
         (filter (\<lambda>c. cat_is_visible c \<and> 0 < category_count d c) (db_categories d))))"

definition tag_count :: "database \<Rightarrow> tag \<Rightarrow> nat" where
  "tag_count d t =
     length (filter (\<lambda>w. (sw_id w, tag_id t) \<in> set (db_software_tags d)) (listed_softwares d))"

definition tag_facet_row :: "database \<Rightarrow> tag \<Rightarrow> catalog_facet" where
  "tag_facet_row d t = \<lparr>fc_name = tag_name t, fc_slug = tag_slug t, fc_description = None,
     fc_software_count = int (tag_count d t)\<rparr>"

definition facet_tags :: "nat \<Rightarrow> database \<Rightarrow> catalog_facet list" where
  "facet_tags limit d =
     map (tag_facet_row d)
       (take limit (sort_key (\<lambda>t. (- int (tag_count d t), sql_lower (tag_name t), tag_id t))
         (filter (\<lambda>t. 0 < tag_count d t) (db_tags d))))"

definition list_categories :: "nat \<Rightarrow> catalog_facet list svc" where
  "list_categories limit = query (facet_categories limit)"

definition list_tags :: "nat \<Rightarrow> catalog_facet list svc" where
  "list_tags limit = query (facet_tags limit)"

definition sitemap_softwares :: "nat \<Rightarrow> database \<Rightarrow> software list" where
  "sitemap_softwares limit d =
     take limit (sort_key (\<lambda>w. (sql_lower (sw_slug w), sw_id w)) (listed_softwares d))"

definition software_entries :: "engine \<Rightarrow> software \<Rightarrow> sitemap_entry list" where
  "software_entries en w =
     [\<lparr>se_path = py ''/software/'' @ sw_slug w, se_last_modified = Some (en_updated_at en (sw_id w))\<rparr>,
      \<lparr>se_path = py ''/software/'' @ sw_slug w @ py ''/releases'',
       se_last_modified = Some (en_updated_at en (sw_id w))\<rparr>]"

definition list_sitemap_entries :: "engine \<Rightarrow> nat \<Rightarrow> sitemap_entry list svc" where
  "list_sitemap_entries en limit =
     bind (list_categories 1000) (\<lambda>categories.
     bind (query (sitemap_softwares limit)) (\<lambda>rows.
     ret ([\<lparr>se_path = py ''/'', se_last_modified = None\<rparr>,
           \<lparr>se_path = py ''/software'', se_last_modified = None\<rparr>]
          @ map (\<lambda>c. \<lparr>se_path = py ''/category/'' @ fc_slug c, se_last_modified = None\<rparr>) categories
          @ concat (map (software_entries en) rows))))"

definition get_category_facet :: "unicode \<Rightarrow> str \<Rightarrow> catalog_facet option svc" where
  "get_category_facet u slug =
     bind (query (\<lambda>d. find (\<lambda>c. cat_slug c = casefold u (strip slug) \<and> cat_is_visible c)
                         (db_categories d))) (\<lambda>category.
     case category of
       None \<Rightarrow> ret None
     | Some c \<Rightarrow>
         bind (query (\<lambda>d. category_count d c)) (\<lambda>public_count.
         ret (Some \<lparr>fc_name = cat_name c, fc_slug = cat_slug c, fc_description = cat_description c,
                     fc_software_count = int public_count\<rparr>)))"

definition get_tag_facet :: "unicode \<Rightarrow> str \<Rightarrow> catalog_facet option svc" where
  "get_tag_facet u slug =
     query (\<lambda>d. map_option (tag_facet_row d)
       (find (\<lambda>t. tag_slug t = casefold u (strip slug) \<and> 0 < tag_count d t) (db_tags d)))"

section \<open>The service\<close>

definition public_filters :: software_filters where
  "public_filters = default_filters\<lparr>sf_statuses := [SoftwarePublished],
     sf_visibilities := [VisPublic], sf_public_facets_only := True\<rparr>"

text \<open>Page requests of the home page; the largest page of \<open>Pagination\<close> is 100.\<close>

definition home_page_request :: "int \<Rightarrow> exn + pagination" where
  "home_page_request per_page = new_pagination 1 per_page 100"

definition cards :: "engine \<Rightarrow> software_graph page \<Rightarrow> exn + software_card_view list" where
  "cards en p = rmap (software_card en) (page_items p)"

definition home_body :: "engine \<Rightarrow> public_home_view svc" where
  "home_body en =
       bind (lift_result (home_page_request 6)) (\<lambda>first_six.
       bind (software_list_page en first_six
               (Some (public_filters\<lparr>sf_sort := SortUpdated, sf_is_featured := Some True\<rparr>)))
         (\<lambda>featured_page.
       bind (lift_result (home_page_request 8)) (\<lambda>first_eight.
       bind (software_list_page en first_eight (Some public_filters)) (\<lambda>latest_page.
       bind (software_list_page en first_eight (Some (public_filters\<lparr>sf_sort := SortPopularity\<rparr>)))
         (\<lambda>popular_page.
       bind (list_categories 12) (\<lambda>categories.
       bind (lift_result (cards en featured_page)) (\<lambda>featured.
       bind (lift_result (cards en latest_page)) (\<lambda>latest.
       bind (lift_result (cards en popular_page)) (\<lambda>popular.
       ret \<lparr>ph_categories = categories, ph_featured = featured, ph_latest = latest,
            ph_popular = popular\<rparr>)))))))))"

definition home :: "engine \<Rightarrow> public_home_view svc" where
  "home en = read_session (home_body en)"

text \<open>A slug filter: absent, or resolved, or not found; an empty slug is not looked up.\<close>

definition resolve_facet ::
  "(str \<Rightarrow> catalog_facet option svc) \<Rightarrow> str option \<Rightarrow> catalog_facet option svc" where
  "resolve_facet look_up slug =
     bind (case slug of None \<Rightarrow> ret None | Some s \<Rightarrow> if s = [] then ret None else look_up s)
       (\<lambda>facet.
     bind (raise_if (slug \<noteq> None \<and> facet = None) EntityNotFound) (\<lambda>_. ret facet))"

definition catalog_body ::
  "engine \<Rightarrow> pagination \<Rightarrow> str option \<Rightarrow> str option \<Rightarrow> str option \<Rightarrow> software_sort
     \<Rightarrow> public_catalog_view svc" where
  "catalog_body en pagination normalized_query cat_text tag_text order =
       bind (resolve_facet (get_category_facet (en_unicode en)) cat_text) (\<lambda>category.
       bind (resolve_facet (get_tag_facet (en_unicode en)) tag_text) (\<lambda>tag.
       bind (software_list_page en pagination (Some (public_filters\<lparr>
               sf_query := normalized_query,
               sf_category_slug := map_option fc_slug category,
               sf_tag_slugs := (case tag of None \<Rightarrow> [] | Some t \<Rightarrow> [fc_slug t]),
               sf_sort := order\<rparr>))) (\<lambda>found_page.
       bind (lift_result (rbind (cards en found_page) (\<lambda>items.
               new_page items (page_total found_page) (page_number found_page)
                 (page_per_page found_page)))) (\<lambda>public_page.
       bind (list_categories 100) (\<lambda>categories.
       bind (list_tags 100) (\<lambda>tags.
       ret \<lparr>pc_page = public_page, pc_categories = categories, pc_tags = tags,
            pc_query = (case normalized_query of None \<Rightarrow> [] | Some q \<Rightarrow> q),
            pc_category = category, pc_tag = tag, pc_sort = software_sort_value order\<rparr>))))))"

definition catalog ::
  "engine \<Rightarrow> pagination \<Rightarrow> str option \<Rightarrow> str option \<Rightarrow> str option \<Rightarrow> software_sort
     \<Rightarrow> public_catalog_view svc" where
  "catalog en pagination search cat_text tag_text order =
     bind (lift_result (validated (normalize_search_query search))) (\<lambda>normalized_query.
     read_session (catalog_body en pagination normalized_query cat_text tag_text order))"

definition sitemap_entries :: "engine \<Rightarrow> sitemap_entry list svc" where
  "sitemap_entries en = read_session (list_sitemap_entries en 24000)"

definition software_page :: "engine \<Rightarrow> str \<Rightarrow> bool \<Rightarrow> software_detail_view svc" where
  "software_page en slug is_admin =
     read_session (
       bind (graph_by_slug (en_unicode en) slug) (\<lambda>g.
       case g of
         None \<Rightarrow> throw EntityNotFound
       | Some g \<Rightarrow>
           if \<not> can_view_software (sg_software g) is_admin then throw EntityNotFound
           else lift_result (software_detail en is_admin g)))"

end
