(* ===== verification/PublicParts.thy ===== *)
theory PublicParts
  imports PublicCatalog
begin

text \<open>
  What an anonymous visitor may learn. \<open>part V d\<close> is the database \<open>d\<close> reduced to the software
  that satisfies \<open>V\<close>, its public releases and listable files with their internal columns
  blanked, the visible categories and the tags in use; users, sessions, statistics and the
  audit log are gone. A query is public when it cannot tell two databases with the same part
  apart; \<open>agree\<close> lifts this to services, statement by statement.
\<close>

section \<open>The public part of a database\<close>

definition redacted_file :: "release_file \<Rightarrow> release_file" where
  "redacted_file f = f\<lparr>rf_original_filename := [], rf_storage_filename := [],
     rf_relative_storage_path := [], rf_file_extension := [], rf_detected_mime_type := [],
     rf_uploaded_at := 0, rf_disabled_at := None, rf_source_url := None,
     rf_scanner_status := ScanNotScanned, rf_scanner_details := None, rf_admin_note := None\<rparr>"

definition part_softwares :: "(software \<Rightarrow> bool) \<Rightarrow> database \<Rightarrow> software list" where
  "part_softwares V d = filter V (db_softwares d)"

definition part_releases :: "(software \<Rightarrow> bool) \<Rightarrow> database \<Rightarrow> release list" where
  "part_releases V d = filter (\<lambda>r. public_release_status (rel_status r)
     \<and> rel_software_id r \<in> set (map sw_id (part_softwares V d))) (db_releases d)"

definition part :: "(software \<Rightarrow> bool) \<Rightarrow> database \<Rightarrow> database" where
  "part V d = empty_database\<lparr>
     db_categories := filter cat_is_visible (db_categories d),
     db_tags := filter (\<lambda>t. \<exists>w \<in> set (part_softwares V d).
       (sw_id w, tag_id t) \<in> set (db_software_tags d)) (db_tags d),
     db_software_tags := filter (\<lambda>(s, t). s \<in> set (map sw_id (part_softwares V d)))
       (db_software_tags d),
     db_softwares := part_softwares V d,
     db_releases := part_releases V d,
     db_files := map redacted_file (filter (\<lambda>f. rf_status f = FilePublished
       \<and> rf_visibility f = VisPublic \<and> rf_release_id f \<in> set (map rel_id (part_releases V d))) (db_files d))\<rparr>"

lemma part_simps [simp]:
  "db_categories (part V d) = filter cat_is_visible (db_categories d)"
  "db_softwares (part V d) = part_softwares V d"
  "db_releases (part V d) = part_releases V d"
  by (simp_all add: part_def)

lemma part_softwares_iff [simp]:
  "w \<in> set (part_softwares V d) \<longleftrightarrow> w \<in> set (db_softwares d) \<and> V w"
  by (auto simp: part_softwares_def)

section \<open>Sorting and mapping\<close>

lemma insort_key_map: "insort_key k (g x) (map g xs) = map g (insort_key (\<lambda>y. k (g y)) x xs)"
  by (induction xs) simp_all

lemma sort_key_map: "sort_key k (map g xs) = map g (sort_key (\<lambda>x. k (g x)) xs)"
  by (induction xs) (simp_all add: insort_key_map)

lemma insort_key_cong:
  "\<forall>y \<in> set (x # xs). k y = l y \<Longrightarrow> insort_key k x xs = insort_key l x xs"
  by (induction xs) simp_all

lemma sort_key_cong: "\<forall>x \<in> set xs. k x = l x \<Longrightarrow> sort_key k xs = sort_key l xs"
proof (induction xs)
  case (Cons x xs)
  then have "sort_key k xs = sort_key l xs" by simp
  moreover have "insort_key k x (sort_key l xs) = insort_key l x (sort_key l xs)"
    using Cons.prems by (intro insort_key_cong) simp
  ultimately show ?case by simp
qed simp

lemma rmap_map: "rmap f (map g xs) = rmap (\<lambda>x. f (g x)) xs"
  by (induction xs) simp_all

lemma rmap_cong: "\<forall>x \<in> set xs. f x = g x \<Longrightarrow> rmap f xs = rmap g xs"
  by (induction xs) simp_all

lemma rmap_all2: "list_all2 (\<lambda>x y. f x = g y) xs ys \<Longrightarrow> rmap f xs = rmap g ys"
  by (induction rule: list_all2_induct) simp_all

section \<open>Rows of the search\<close>

text \<open>The \<open>DISTINCT\<close> of the joined rows is the software with at least one row that matches.\<close>

lemma map_fst_filter_pairs:
  "map fst (filter P (map (\<lambda>t. (w, c, t)) ts)) = replicate (length (filter (\<lambda>t. P (w, c, t)) ts)) w"
  by (induction ts) simp_all

lemma remdups_replicate_append:
  "remdups (replicate n w @ ys) = (if n = 0 \<or> w \<in> set ys then remdups ys else w # remdups ys)"
  by (induction n) auto

lemma remdups_concat_replicate:
  "remdups (concat (map (\<lambda>w. replicate (n w) w) ws)) = remdups (filter (\<lambda>w. 0 < n w) ws)"
  by (induction ws) (auto simp: remdups_replicate_append)

definition joined_tags :: "software_filters \<Rightarrow> str option \<Rightarrow> database \<Rightarrow> software \<Rightarrow> tag option list" where
  "joined_tags f nq d w =
     (if sf_tag_slugs f \<noteq> [] \<or> nq \<noteq> None then outer_join (tags_of d w) else [None])"

definition joined_category ::
  "software_filters \<Rightarrow> str option \<Rightarrow> database \<Rightarrow> software \<Rightarrow> category option" where
  "joined_category f nq d w =
     (if sf_category_slug f \<noteq> None \<or> nq \<noteq> None then category_of d w else None)"

definition matches :: "engine \<Rightarrow> software_filters \<Rightarrow> str option \<Rightarrow> database \<Rightarrow> software \<Rightarrow> bool" where
  "matches en f nq d w \<longleftrightarrow>
     (\<exists>t \<in> set (joined_tags f nq d w). where_clause en f nq (w, joined_category f nq d w, t))"

lemma matching_rows:
  "remdups (map fst (filter P (concat (map (\<lambda>w. map (\<lambda>t. (w, c w, t)) (ts w)) ws))))
     = remdups (filter (\<lambda>w. \<exists>t \<in> set (ts w). P (w, c w, t)) ws)"
proof -
  have "map fst (filter P (concat (map (\<lambda>w. map (\<lambda>t. (w, c w, t)) (ts w)) ws)))
      = concat (map (\<lambda>w. replicate (length (filter (\<lambda>t. P (w, c w, t)) (ts w))) w) ws)"
    by (induction ws) (simp_all add: map_fst_filter_pairs)
  moreover have "0 < length (filter (\<lambda>t. P (w, c w, t)) (ts w)) \<longleftrightarrow> (\<exists>t \<in> set (ts w). P (w, c w, t))" for w
    by (auto simp: filter_empty_conv)
  ultimately show ?thesis by (simp add: remdups_concat_replicate)
qed

lemma matches_abs: "matches en f nq d = (\<lambda>w. \<exists>t \<in> set (joined_tags f nq d w).
     where_clause en f nq (w, joined_category f nq d w, t))"
  by (rule ext) (simp add: matches_def)

lemma software_rows_eq:
  "software_rows en f nq d = order_softwares en f d (remdups (filter (matches en f nq d) (db_softwares d)))"
  unfolding software_rows_def Let_def join_rows_def matches_abs
  using matching_rows [of "where_clause en f nq" "joined_category f nq d" "joined_tags f nq d" "db_softwares d"]
  by (simp only: joined_category_def joined_tags_def)

section \<open>Relationships inside the part\<close>

definition keyed :: "database \<Rightarrow> bool" where
  "keyed d \<longleftrightarrow> distinct_keys cat_id (db_categories d) \<and> unique_by sw_slug (db_softwares d)"

lemma db_constraints_keyed: "db_constraints d \<Longrightarrow> keyed d"
  by (simp add: db_constraints_def categories_ok_def softwares_ok_def keyed_def)

definition visible_only :: "category option \<Rightarrow> category option" where
  "visible_only c = (case c of None \<Rightarrow> None | Some x \<Rightarrow> if cat_is_visible x then Some x else None)"

lemma find_filter_unique:
  assumes "unique_by f xs"
  shows "find (\<lambda>x. f x = k) (filter P xs)
    = (case find (\<lambda>x. f x = k) xs of None \<Rightarrow> None | Some x \<Rightarrow> if P x then Some x else None)"
  using assms
  by (induction xs) (auto simp: unique_by_def find_None_iff image_iff split: option.splits
      dest!: find_Some_iff_in)

lemma category_of_part:
  "keyed d \<Longrightarrow> category_of (part V d) w = visible_only (category_of d w)"
  by (auto simp: category_of_def row_get_def visible_only_def keyed_def distinct_keys_def
      find_filter_unique unique_by_def split: option.splits)

lemma tags_of_part:
  "w \<in> set (db_softwares d) \<Longrightarrow> V w \<Longrightarrow> tags_of (part V d) w = tags_of d w"
  unfolding tags_of_def by (force simp: part_def intro!: filter_cong)

lemma releases_of_part:
  "w \<in> set (db_softwares d) \<Longrightarrow> V w \<Longrightarrow> releases_of (part V d) w
     = filter (\<lambda>r. public_release_status (rel_status r)) (releases_of d w)"
  unfolding releases_of_def by (force simp: part_releases_def intro!: filter_cong)

lemma listable_public: "is_listable_file False f \<longleftrightarrow> rf_status f = FilePublished \<and> rf_visibility f = VisPublic"
  by (simp add: is_listable_file_def)

lemma files_of_part:
  "r \<in> set (part_releases V d) \<Longrightarrow> files_of (part V d) r
     = map redacted_file (filter (is_listable_file False) (files_of d r))"
  by (force simp: files_of_def part_def filter_map o_def redacted_file_def listable_public intro!: arg_cong [where f = "map _"] filter_cong)

lemma public_release_in_part:
  "w \<in> set (db_softwares d) \<Longrightarrow> V w \<Longrightarrow> r \<in> set (releases_of d w)
     \<Longrightarrow> public_release_status (rel_status r) \<Longrightarrow> r \<in> set (part_releases V d)"
  by (auto simp: releases_of_def part_releases_def)

section \<open>Views of the part\<close>

lemma redacted_file_simps [simp]:
  "rf_status (redacted_file f) = rf_status f" "rf_visibility (redacted_file f) = rf_visibility f"
  "rf_download_count (redacted_file f) = rf_download_count f"
  "is_listable_file a (redacted_file f) = is_listable_file a f"
  "file_view (redacted_file f) = file_view f" "file_sort_key u (redacted_file f) = file_sort_key u f"
  by (simp_all add: redacted_file_def is_listable_file_def file_view_def file_sort_key_def)

lemma release_view_part:
  assumes "r \<in> set (part_releases V d)"
  shows "release_view u False (release_graph_of (part V d) r) = release_view u False (release_graph_of d r)"
  by (simp add: release_view_def release_graph_of_def files_of_part [OF assms] sort_key_map
      filter_map o_def rmap_map filter_sort)

lemma sort_reverse_map: "sort_reverse k (map g xs) = map g (sort_reverse (\<lambda>x. k (g x)) xs)"
  by (simp add: sort_reverse_def rev_map sort_key_map)

lemma set_sort_reverse [simp]: "set (sort_reverse k xs) = set xs"
  by (simp add: sort_reverse_def)

lemma release_graph_of_simps [simp]:
  "rg_release (release_graph_of d r) = r"
  "release_sort_key (release_graph_of d r)
     = (rel_is_current r, case rel_release_date r of None \<Rightarrow> date_min | Some t \<Rightarrow> t, rel_id r)"
  by (simp_all add: release_sort_key_def release_graph_of_def)

lemma release_views_rows:
  "release_views u a (with_summary_graph d w)
     = rmap (\<lambda>r. release_view u a (release_graph_of d r))
         (sort_reverse (\<lambda>r. release_sort_key (release_graph_of d r))
           (filter (\<lambda>r. public_release_status (rel_status r)) (releases_of d w)))"
  by (simp add: release_views_def with_summary_graph_def filter_map o_def sort_reverse_map rmap_map)

lemma release_views_part:
  assumes "w \<in> set (db_softwares d)" and "V w"
  shows "release_views u False (with_summary_graph (part V d) w)
    = release_views u False (with_summary_graph d w)"
  unfolding release_views_rows releases_of_part [of w d V, OF assms]
  by (simp, rule rmap_cong) (use release_view_part public_release_in_part [of w d V, OF assms] in simp)

lemma facets_part:
  assumes "keyed d" and "w \<in> set (db_softwares d)" and "V w"
  shows "category_facet False (with_summary_graph (part V d) w)
      = category_facet False (with_summary_graph d w)"
    and "tag_facets u (with_summary_graph (part V d) w) = tag_facets u (with_summary_graph d w)"
  using assms by (auto simp: category_facet_def tag_facets_def with_summary_graph_def
      category_of_part tags_of_part visible_only_def split: option.splits)

lemma sg_software_with [simp]: "sg_software (with_summary_graph d w) = w"
  by (simp add: with_summary_graph_def)

lemma card_part:
  assumes "keyed d" and "w \<in> set (db_softwares d)" and "V w"
  shows "software_card en (with_summary_graph (part V d) w) = software_card en (with_summary_graph d w)"
  using assms by (simp add: software_card_def release_views_part facets_part)

lemma detail_part:
  assumes "keyed d" and "w \<in> set (db_softwares d)" and "V w"
  shows "software_detail en False (with_summary_graph (part V d) w)
    = software_detail en False (with_summary_graph d w)"
  using assms by (simp add: software_detail_def release_views_part facets_part)

section \<open>Queries on the part\<close>

lemma popularity_rows:
  "popularity True d w = sum_list (map (\<lambda>r. sum_list (map rf_download_count
     (filter (is_listable_file False) (files_of d r))))
     (filter (\<lambda>r. public_release_status (rel_status r)) (releases_of d w)))"
proof -
  have "sum_list (map rf_download_count (concat (map (\<lambda>r.
       filter (\<lambda>f. public_release_status (rel_status r) \<and> rf_status f = FilePublished
         \<and> rf_visibility f = VisPublic) (files_of d r)) rs)))
    = sum_list (map (\<lambda>r. sum_list (map rf_download_count
       (filter (is_listable_file False) (files_of d r)))) (filter (\<lambda>r. public_release_status (rel_status r)) rs))"
    for rs
    by (induction rs) (auto simp: is_listable_file_def intro!: arg_cong [where f = "\<lambda>xs. sum_list (map _ xs)"] filter_cong)
  then show ?thesis by (simp add: popularity_def)
qed

lemma popularity_part:
  assumes "w \<in> set (db_softwares d)" and "V w"
  shows "popularity True (part V d) w = popularity True d w"
  unfolding popularity_rows releases_of_part [of w d V, OF assms]
  by (rule arg_cong [where f = sum_list], rule map_cong)
    (use public_release_in_part [of w d V, OF assms] in \<open>simp_all add: files_of_part filter_map o_def\<close>)

lemma where_visible_only:
  "sf_public_facets_only f
     \<Longrightarrow> where_clause en f nq (w, visible_only c, t) = where_clause en f nq (w, c, t)"
  by (auto simp: where_clause_def query_clause_def category_clause_def visible_only_def Let_def
      split: option.splits)

lemma matches_part:
  assumes "keyed d" and "w \<in> set (db_softwares d)" and "V w" and "sf_public_facets_only f"
  shows "matches en f nq (part V d) w = matches en f nq d w"
proof -
  have "joined_tags f nq (part V d) w = joined_tags f nq d w"
    using tags_of_part [of w d V] assms by (simp add: joined_tags_def)
  moreover have "joined_category f nq (part V d) w = visible_only (joined_category f nq d w)"
    using category_of_part assms by (simp add: joined_category_def visible_only_def)
  ultimately show ?thesis using assms(4) by (simp add: matches_def where_visible_only)
qed

definition covers :: "(software \<Rightarrow> bool) \<Rightarrow> bool" where
  "covers V \<longleftrightarrow> (\<forall>w. is_software_publicly_listed w \<longrightarrow> V w)"

definition public_search :: "software_filters \<Rightarrow> bool" where
  "public_search f \<longleftrightarrow> sf_statuses f = [SoftwarePublished] \<and> sf_visibilities f = [VisPublic]
     \<and> sf_public_facets_only f"

lemma matches_listed: "public_search f \<Longrightarrow> matches en f nq d w \<Longrightarrow> is_software_publicly_listed w"
  by (auto simp: public_search_def matches_def where_clause_def is_software_publicly_listed_def)

lemma set_software_rows:
  "set (software_rows en f nq d) = {w \<in> set (db_softwares d). matches en f nq d w}"
  by (auto simp: software_rows_eq order_softwares_def split: software_sort.splits)

lemma software_rows_listed:
  "public_search f \<Longrightarrow> w \<in> set (software_rows en f nq d)
     \<Longrightarrow> w \<in> set (db_softwares d) \<and> is_software_publicly_listed w"
  using matches_listed by (auto simp: set_software_rows)

lemma order_softwares_part:
  assumes "\<And>w. w \<in> set ws \<Longrightarrow> w \<in> set (db_softwares d) \<and> V w" and "sf_public_facets_only f"
  shows "order_softwares en f (part V d) ws = order_softwares en f d ws"
  using assms by (auto simp: order_softwares_def popularity_part split: software_sort.splits intro!: sort_key_cong)

lemma software_rows_part:
  assumes "keyed d" and f: "public_search f" and V: "covers V"
  shows "software_rows en f nq (part V d) = software_rows en f nq d"
proof -
  have facets: "sf_public_facets_only f" using f by (simp add: public_search_def)
  have "filter (matches en f nq (part V d)) (filter V (db_softwares d))
      = filter (matches en f nq d) (filter V (db_softwares d))"
    using matches_part [OF assms(1) _ _ facets] by (intro filter_cong) simp_all
  also have "\<dots> = filter (matches en f nq d) (db_softwares d)"
    using matches_listed [OF f] V by (auto simp: covers_def intro!: filter_cong)
  finally have rows: "filter (matches en f nq (part V d)) (db_softwares (part V d))
      = filter (matches en f nq d) (db_softwares d)"
    by (simp add: part_softwares_def)
  have "order_softwares en f (part V d) ws = order_softwares en f d ws"
    if "ws = remdups (filter (matches en f nq d) (db_softwares d))" for ws
    by (rule order_softwares_part [OF _ facets])
      (use that matches_listed [OF f] V in \<open>auto simp: covers_def\<close>)
  then show ?thesis by (simp only: software_rows_eq rows)
qed

lemma listed_softwares_part:
  "covers V \<Longrightarrow> listed_softwares (part V d) = listed_softwares d"
  by (auto simp: listed_softwares_def part_softwares_def covers_def intro!: filter_cong)

lemma tag_count_part:
  assumes V: "covers V"
  shows "tag_count (part V d) t = tag_count d t"
  unfolding tag_count_def listed_softwares_part [OF V]
  by (rule arg_cong [where f = length], rule filter_cong)
    (use V in \<open>auto simp: listed_softwares_def part_def covers_def\<close>)

lemma category_count_part:
  "covers V \<Longrightarrow> category_count (part V d) c = category_count d c"
  by (simp add: category_count_def listed_softwares_part)

lemma facet_categories_part:
  assumes V: "covers V"
  shows "facet_categories n (part V d) = facet_categories n d"
proof -
  have "category_facet_row (part V d) = category_facet_row d"
    by (rule ext) (simp add: category_facet_row_def category_count_part [OF V])
  then show ?thesis
    by (simp add: facet_categories_def category_count_part [OF V] conj_commute)
qed

lemma tag_used: "0 < tag_count d t \<Longrightarrow> \<exists>w \<in> set (db_softwares d).
    is_software_publicly_listed w \<and> (sw_id w, tag_id t) \<in> set (db_software_tags d)"
  by (auto simp: tag_count_def listed_softwares_def filter_empty_conv)

lemma used_tags_part:
  assumes V: "covers V"
  shows "filter (\<lambda>t. P t \<and> 0 < tag_count d t) (db_tags (part V d)) = filter (\<lambda>t. P t \<and> 0 < tag_count d t) (db_tags d)"
  using tag_used [of d] V by (force simp: part_def covers_def intro!: filter_cong)

lemma tag_facet_row_part:
  "covers V \<Longrightarrow> tag_facet_row (part V d) = tag_facet_row d"
  by (rule ext) (simp add: tag_facet_row_def tag_count_part)

lemma facet_tags_part:
  assumes V: "covers V"
  shows "facet_tags n (part V d) = facet_tags n d"
  using used_tags_part [of V "\<lambda>_. True" d, OF V]
  by (simp add: facet_tags_def tag_count_part [OF V] tag_facet_row_part [OF V])

lemma sitemap_softwares_part:
  "covers V \<Longrightarrow> sitemap_softwares n (part V d) = sitemap_softwares n d"
  by (simp add: sitemap_softwares_def listed_softwares_part)

end
