(* ===== verification/SearchSpecs.thy ===== *)
theory SearchSpecs
  imports PublicParts "HOL-Library.Sublist"
begin

text \<open>
  The text search: what the documentation of SQLite says of \<open>LIKE\<close> with an escape character,
  and that with it the escaped pattern finds a text literally, up to the case of ASCII
  letters, whatever wildcards it contains.
\<close>

section \<open>LIKE\<close>

text \<open>
  A per cent sign stands for any text, an underscore for any one character, the escape
  character makes the next one literal, other characters match themselves in either case.
\<close>

definition fold_ascii :: "nat \<Rightarrow> nat" where
  "fold_ascii c = (if is_upper c then c + 32 else c)"

definition same_letter :: "nat \<Rightarrow> nat \<Rightarrow> bool" where
  "same_letter a b \<longleftrightarrow> fold_ascii a = fold_ascii b"

fun like_match :: "str \<Rightarrow> str \<Rightarrow> bool" where
  "like_match [] t = (t = [])"
| "like_match (p # ps) [] = (p = 37 \<and> like_match ps [])"
| "like_match (p # ps) (c # cs) =
     (if p = 37 then like_match ps (c # cs) \<or> like_match (p # ps) cs
      else if p = 95 then like_match ps cs
      else if p = 92 then (case ps of [] \<Rightarrow> False | q # qs \<Rightarrow> same_letter q c \<and> like_match qs cs)
      else same_letter p c \<and> like_match ps cs)"

text \<open>SQLite refuses patterns of more than 50000 bytes; the model relies on short ones only.\<close>

definition like_documented :: "(str \<Rightarrow> str \<Rightarrow> bool) \<Rightarrow> bool" where
  "like_documented like \<longleftrightarrow> (\<forall>p t. length p \<le> 1000 \<longrightarrow> like p t = like_match p t)"

definition escape_char :: "nat \<Rightarrow> str" where
  "escape_char c = (if c \<in> {92, 37, 95} then [92, c] else [c])"

lemma replace_char_simps [simp]:
  "replace_char a r [] = []"
  "replace_char a r (c # cs) = (if c = a then r else [c]) @ replace_char a r cs"
  "replace_char a r (xs @ ys) = replace_char a r xs @ replace_char a r ys"
  by (simp_all add: replace_char_def)

lemma escape_like_simps [simp]:
  "escape_like [] = []" "escape_like (c # cs) = escape_char c @ escape_like cs"
  by (simp_all add: escape_like_def escape_char_def)

lemma length_escape_like: "length (escape_like q) \<le> 2 * length q"
  by (induction q) (auto simp: escape_char_def)

lemma sql_lower_fold: "sql_lower s = map fold_ascii s"
  by (simp add: sql_lower_def fold_ascii_def)

lemma fold_ascii_idem [simp]: "fold_ascii (fold_ascii c) = fold_ascii c"
  by (simp add: fold_ascii_def is_upper_def)

lemma fold_ascii_special [simp]:
  "fold_ascii 92 = 92" "fold_ascii 37 = 37" "fold_ascii 95 = 95"
  "fold_ascii c = 92 \<longleftrightarrow> c = 92" "fold_ascii c = 37 \<longleftrightarrow> c = 37" "fold_ascii c = 95 \<longleftrightarrow> c = 95"
  by (auto simp: fold_ascii_def is_upper_def)

lemma sql_lower_escape: "map fold_ascii (escape_like q) = escape_like (map fold_ascii q)"
  by (induction q) (simp_all add: escape_char_def)

lemma like_match_percent: "like_match (37 # ps) t \<longleftrightarrow> (\<exists>a b. t = a @ b \<and> like_match ps b)"
proof (induction t)
  case (Cons c cs)
  show ?case by (subst like_match.simps) (auto simp: Cons append_eq_Cons_conv Cons_eq_append_conv)
qed simp

lemma like_match_escape_char:
  "like_match (escape_char c @ rest) t
     \<longleftrightarrow> (\<exists>x u. t = x # u \<and> fold_ascii c = fold_ascii x \<and> like_match rest u)"
  by (cases t) (auto simp: escape_char_def same_letter_def)

lemma like_match_literal:
  "like_match (escape_like q @ ps) t
     \<longleftrightarrow> (\<exists>a b. t = a @ b \<and> map fold_ascii q = map fold_ascii a \<and> like_match ps b)"
proof (induction q arbitrary: t)
  case (Cons c q)
  show ?case (is "?L \<longleftrightarrow> ?R")
  proof
    assume ?L
    then obtain x a b where "t = x # a @ b" "fold_ascii c = fold_ascii x"
        "map fold_ascii q = map fold_ascii a" "like_match ps b"
      by (auto simp: like_match_escape_char Cons.IH)
    then show ?R by (intro exI [of _ "x # a"] exI [of _ b]) simp
  next
    assume ?R
    then show ?L
      by (auto simp: like_match_escape_char Cons.IH Cons_eq_map_conv) (intro exI conjI, rule refl, simp_all)
  qed
qed simp

lemma search_pattern_literal:
  assumes like: "like_documented like" and n: "length q \<le> 100"
  shows "like (sql_lower (search_pattern q)) (sql_lower t) \<longleftrightarrow> sublist (sql_lower q) (sql_lower t)"
proof -
  have p: "sql_lower (search_pattern q) = 37 # escape_like (sql_lower q) @ [37]"
    by (simp add: search_pattern_def sql_lower_fold sql_lower_escape)
  have "length (sql_lower (search_pattern q)) \<le> 1000"
    using length_escape_like [of q] n by (simp add: search_pattern_def sql_lower_fold)
  then have "like (sql_lower (search_pattern q)) (sql_lower t)
      \<longleftrightarrow> (\<exists>a b c. sql_lower t = a @ b @ c \<and> map fold_ascii (sql_lower q) = map fold_ascii b)"
    using like by (auto simp: like_documented_def p like_match_percent like_match_literal)
  also have "\<dots> \<longleftrightarrow> sublist (sql_lower q) (sql_lower t)"
  proof
    assume "\<exists>a b c. sql_lower t = a @ b @ c \<and> map fold_ascii (sql_lower q) = map fold_ascii b"
    then obtain a b c where t: "sql_lower t = a @ b @ c" "sql_lower q = map fold_ascii b"
      by (auto simp: sql_lower_fold o_def)
    have "sql_lower t = map fold_ascii (sql_lower t)" by (simp add: sql_lower_fold)
    also have "\<dots> = map fold_ascii a @ sql_lower q @ map fold_ascii c" unfolding t by simp
    finally show "sublist (sql_lower q) (sql_lower t)" by (auto simp: sublist_def)
  qed (auto simp: sublist_def)
  finally show ?thesis .
qed

section \<open>Which software a public search finds\<close>

definition searchable :: "database \<Rightarrow> software \<Rightarrow> str set" where
  "searchable d w = {sw_name w, sw_short_description w} \<union> set_option (sw_developer_name w)
     \<union> cat_name ` set_option (visible_only (category_of d w)) \<union> tag_name ` set (tags_of d w)"

definition hits :: "database \<Rightarrow> str \<Rightarrow> software \<Rightarrow> bool" where
  "hits d q w \<longleftrightarrow> (\<exists>x \<in> searchable d w. sublist (sql_lower q) (sql_lower x))"

definition in_category :: "database \<Rightarrow> str \<Rightarrow> software \<Rightarrow> bool" where
  "in_category d slug w \<longleftrightarrow> (\<exists>c. category_of d w = Some c \<and> cat_is_visible c \<and> cat_slug c = slug)"

lemma normalize_search_length:
  "normalize_search_query text = Inr (Some q) \<Longrightarrow> 2 \<le> length q \<and> length q \<le> 100"
  by (auto simp: normalize_search_query_def Let_def split: option.splits if_splits)

lemma normalize_search_idem:
  "normalize_search_query text = Inr nq \<Longrightarrow> normalize_search_query nq = Inr nq"
  by (auto simp: normalize_search_query_def Let_def collapse_spaces_idem split: option.splits if_splits)

lemma set_outer_join: "set (outer_join xs) = (if xs = [] then {None} else Some ` set xs)"
  by (simp add: outer_join_def)

lemma ilike_literal:
  assumes "like_documented (en_like en)" and "length q \<le> 100"
  shows "ilike en x (search_pattern q) \<longleftrightarrow> (\<exists>y \<in> set_option x. sublist (sql_lower q) (sql_lower y))"
  using search_pattern_literal [OF assms] by (auto simp: ilike_def split: option.splits)

lemma matches_public:
  assumes like: "like_documented (en_like en)" and nq: "normalize_search_query text = Inr nq"
    and f: "f = public_filters\<lparr>sf_query := nq, sf_category_slug := ct, sf_tag_slugs := [], sf_sort := o1\<rparr>"
  shows "matches en f nq d w \<longleftrightarrow> is_software_publicly_listed w
     \<and> (case nq of None \<Rightarrow> True | Some q \<Rightarrow> hits d q w)
     \<and> (case ct of None \<Rightarrow> True | Some s \<Rightarrow> in_category d (casefold (en_unicode en) (strip s)) w)"
proof -
  have plain: "sf_statuses f = [SoftwarePublished]" "sf_visibilities f = [VisPublic]"
    "sf_public_facets_only f" "sf_tag_slugs f = []" "sf_category_slug f = ct" "sf_is_featured f = None"
    by (simp_all add: f public_filters_def default_filters_def)
  have cat: "category_clause P True c \<longleftrightarrow> (\<exists>x \<in> set_option (visible_only c). P x)" for P c
    by (auto simp: category_clause_def visible_only_def split: option.splits)
  have slug: "category_clause (\<lambda>x. cat_slug x = k) True (category_of d w) \<longleftrightarrow> in_category d k w" for k
    by (auto simp: category_clause_def in_category_def split: option.splits)
  show ?thesis
  proof (cases nq)
    case None
    then show ?thesis
      by (auto simp: matches_def joined_tags_def joined_category_def where_clause_def plain slug
          is_software_publicly_listed_def split: option.splits)
  next
    case (Some q)
    have n: "length q \<le> 100" using normalize_search_length nq Some by simp
    have "(\<exists>t \<in> set (outer_join (tags_of d w)). query_clause en f q (w, category_of d w, t)) \<longleftrightarrow> hits d q w"
      by (auto simp: query_clause_def Let_def ilike_literal [OF like n] cat plain set_outer_join
          hits_def searchable_def) (metis list.set_intros(1) neq_Nil_conv)+
    then show ?thesis
      using Some
      by (auto simp: matches_def joined_tags_def joined_category_def where_clause_def plain slug
          is_software_publicly_listed_def split: option.splits)
  qed
qed

end
