(* ===== verification/PublicProperties.thy ===== *)
theory PublicProperties
  imports SearchSpecs CatalogProperties SiteInvariant
begin

text \<open>
  The properties of the public catalogue: its pages are functions of what is public, the
  search is literal, and the links it publishes lead somewhere.
\<close>

section \<open>Two runs that cannot be told apart\<close>

definition same_part :: "(software \<Rightarrow> bool) \<Rightarrow> world \<Rightarrow> world \<Rightarrow> bool" where
  "same_part V s t \<longleftrightarrow> part V (w_db s) = part V (w_db t) \<and> keyed (w_db s) \<and> keyed (w_db t)
     \<and> w_db_fault s = w_db_fault t \<and> w_db_tick s = w_db_tick t"

definition agree :: "(software \<Rightarrow> bool) \<Rightarrow> ('a \<Rightarrow> 'b \<Rightarrow> bool) \<Rightarrow> 'a svc \<Rightarrow> 'b svc \<Rightarrow> bool" where
  "agree V R m n \<longleftrightarrow> (\<forall>s t. same_part V s t \<longrightarrow>
     rel_sum (=) R (fst (m s)) (fst (n t)) \<and> same_part V (snd (m s)) (snd (n t)))"

lemma agree_ret: "R x y \<Longrightarrow> agree V R (ret x) (ret y)"
  by (simp add: agree_def eff_simps)

lemma agree_throw: "agree V R (throw e) (throw e)"
  by (simp add: agree_def eff_simps)

lemma agree_lift: "rel_sum (=) R x y \<Longrightarrow> agree V R (lift_result x) (lift_result y)"
  by (simp add: agree_def lift_result_def)

lemma agree_raise_if: "b = c \<Longrightarrow> agree V (=) (raise_if b e) (raise_if c e)"
  by (simp add: agree_def eff_simps raise_if_def)

lemma agree_bind:
  assumes "agree V R m n" and "\<And>x y. R x y \<Longrightarrow> agree V S (k x) (l y)"
  shows "agree V S (bind m k) (bind n l)"
  unfolding agree_def
proof (intro allI impI)
  fix s t assume st: "same_part V s t"
  obtain r s' where m: "m s = (r, s')" by (cases "m s")
  obtain q t' where n: "n t = (q, t')" by (cases "n t")
  have "rel_sum (=) R r q" "same_part V s' t'"
    using assms(1) st m n unfolding agree_def by (metis fst_conv snd_conv)+
  then show "rel_sum (=) S (fst (bind m k s)) (fst (bind n l t))
      \<and> same_part V (snd (bind m k s)) (snd (bind n l t))"
    using assms(2) m n by (cases r; cases q) (auto simp: bind_def agree_def)
qed

lemma agree_bind_eq:
  assumes "agree V (=) m n" and "\<And>x. agree V S (k x) (l x)"
  shows "agree V S (bind m k) (bind n l)"
  by (rule agree_bind [OF assms(1)]) (use assms(2) in simp)

lemma agree_bind_lift:
  assumes "x = y" and "\<And>v. agree V S (k v) (l v)"
  shows "agree V S (bind (lift_result x) k) (bind (lift_result y) l)"
  by (rule agree_bind_eq [OF agree_lift]) (use assms in \<open>simp_all add: sum.rel_refl\<close>)

lemma agree_query:
  assumes "\<And>d e. keyed d \<Longrightarrow> keyed e \<Longrightarrow> part V d = part V e \<Longrightarrow> R (f d) (g e)"
  shows "agree V R (query f) (query g)"
  using assms by (auto simp: agree_def query_def sql_call_def eff_simps same_part_def)

lemma agree_public_query:
  "(\<And>d. keyed d \<Longrightarrow> f (part V d) = f d) \<Longrightarrow> agree V (=) (query f) (query f)"
  by (rule agree_query) metis

lemma agree_read_session:
  assumes "agree V R m n" and "same_part V (interfere s) (interfere t)"
  shows "rel_sum (=) R (fst (read_session m s)) (fst (read_session n t))"
proof -
  have "rel_sum (=) R (fst (m (interfere s))) (fst (n (interfere t)))"
    using assms by (simp add: agree_def)
  then show ?thesis by (auto simp: read_session_def split: prod.splits)
qed

lemma rel_sum_eqD: "rel_sum (=) (=) x y \<Longrightarrow> x = y"
  by (cases x; cases y) auto

definition rel_page :: "('a \<Rightarrow> 'b \<Rightarrow> bool) \<Rightarrow> 'a page \<Rightarrow> 'b page \<Rightarrow> bool" where
  "rel_page Q p q \<longleftrightarrow> list_all2 Q (page_items p) (page_items q) \<and> page_total p = page_total q
     \<and> page_number p = page_number q \<and> page_per_page p = page_per_page q"

lemma agree_paginate:
  assumes rows: "\<And>d e. keyed d \<Longrightarrow> keyed e \<Longrightarrow> part V d = part V e \<Longrightarrow> list_all2 Q (f d) (f e)"
  shows "agree V (rel_page Q) (paginate_scalars f p) (paginate_scalars f p)"
  unfolding paginate_scalars_def
proof (rule agree_bind [where R = "(=)"])
  show "agree V (=) (query (\<lambda>d. int (length (f d)))) (query (\<lambda>d. int (length (f d))))"
    by (rule agree_query) (metis rows list_all2_lengthD)
next
  fix x y :: int assume "x = y"
  then show "agree V (rel_page Q)
      (bind (query (\<lambda>d. take (nat (pg_per_page p)) (drop (nat (pagination_offset p)) (f d))))
        (\<lambda>items. lift_result (new_page items x (pg_page p) (pg_per_page p))))
      (bind (query (\<lambda>d. take (nat (pg_per_page p)) (drop (nat (pagination_offset p)) (f d))))
        (\<lambda>items. lift_result (new_page items y (pg_page p) (pg_per_page p))))"
    by (intro agree_bind [where R = "list_all2 Q"] agree_query agree_lift list_all2_takeI list_all2_dropI rows)
      (simp_all add: new_page_def rel_page_def)
qed

lemma rel_page_eqs:
  assumes "rel_page Q p q"
  shows "page_total p = page_total q" "page_number p = page_number q"
    "page_per_page p = page_per_page q"
  using assms by (simp_all add: rel_page_def)

section \<open>The listings\<close>

definition same_card :: "engine \<Rightarrow> software_graph \<Rightarrow> software_graph \<Rightarrow> bool" where
  "same_card en g h \<longleftrightarrow> software_card en g = software_card en h"

lemma agree_list_page:
  assumes f: "public_search f" and V: "covers V"
  shows "agree V (rel_page (same_card en)) (software_list_page en p (Some f)) (software_list_page en p (Some f))"
proof -
  have rows: "list_all2 (same_card en) (map (with_summary_graph d) (software_rows en f nq d))
      (map (with_summary_graph e) (software_rows en f nq e))"
    if k: "keyed d" "keyed e" "part V d = part V e" for d e nq
  proof -
    have eq: "software_rows en f nq d = software_rows en f nq e"
      using software_rows_part [OF k(1) f V] software_rows_part [OF k(2) f V] k(3) by metis
    have "same_card en (with_summary_graph d w) (with_summary_graph e w)"
      if w: "w \<in> set (software_rows en f nq d)" for w
    proof -
      have "w \<in> set (db_softwares d)" "w \<in> set (db_softwares e)" "V w"
        using software_rows_listed [OF f w] software_rows_listed [OF f w [unfolded eq]] V
        by (auto simp: covers_def)
      then show ?thesis
        using card_part [OF k(1), of w V en] card_part [OF k(2), of w V en] k(3)
        by (simp add: same_card_def)
    qed
    then show ?thesis
      by (simp add: eq list_all2_conv_all_nth)
  qed
  show ?thesis
    unfolding software_list_page_def Let_def option.case
    by (rule agree_bind [where R = "(=)", OF agree_lift]) (simp_all add: sum.rel_refl agree_paginate rows)
qed

lemma cards_agree: "rel_page (same_card en) p q \<Longrightarrow> cards en p = cards en q"
  by (auto simp: rel_page_def cards_def same_card_def [abs_def] intro: rmap_all2)

lemma agree_resolve:
  assumes "\<And>x. agree V (=) (look x) (look x)"
  shows "agree V (=) (resolve_facet look slug) (resolve_facet look slug)"
  unfolding resolve_facet_def
  by (rule agree_bind [where R = "(=)"])
    (auto intro!: agree_ret agree_bind [where R = "(=)"] agree_raise_if assms split: option.splits)

lemma agree_facets:
  assumes V: "covers V"
  shows "agree V (=) (list_categories n) (list_categories n)"
    and "agree V (=) (list_tags n) (list_tags n)"
    and "agree V (=) (get_category_facet u x) (get_category_facet u x)"
    and "agree V (=) (get_tag_facet u x) (get_tag_facet u x)"
proof -
  show "agree V (=) (list_categories n) (list_categories n)" "agree V (=) (list_tags n) (list_tags n)"
    unfolding list_categories_def list_tags_def
    by (rule agree_public_query, simp add: facet_categories_part [OF V] facet_tags_part [OF V])+
  have "find (\<lambda>c. cat_slug c = k \<and> cat_is_visible c) (filter cat_is_visible cs)
      = find (\<lambda>c. cat_slug c = k \<and> cat_is_visible c) cs" for k cs
    by (induction cs) auto
  then show "agree V (=) (get_category_facet u x) (get_category_facet u x)"
    unfolding get_category_facet_def
    by (auto intro!: agree_bind [where R = "(=)"] agree_public_query agree_ret
        simp: category_count_part [OF V] split: option.splits)
  have head: "find P xs = (case filter P xs of [] \<Rightarrow> None | x # _ \<Rightarrow> Some x)" for P and xs :: "tag list"
    by (induction xs) simp_all
  have "find (\<lambda>t. tag_slug t = k \<and> 0 < tag_count d t) (db_tags (part V d))
      = find (\<lambda>t. tag_slug t = k \<and> 0 < tag_count d t) (db_tags d)" for k d
    by (simp only: head used_tags_part [OF V])
  then show "agree V (=) (get_tag_facet u x) (get_tag_facet u x)"
    unfolding get_tag_facet_def
    by (intro agree_public_query) (simp add: tag_count_part [OF V] tag_facet_row_part [OF V])
qed

lemma public_search_filters [simp]:
  "public_search public_filters" "public_search (public_filters\<lparr>sf_sort := o1\<rparr>)"
  "public_search (public_filters\<lparr>sf_sort := o1, sf_is_featured := b\<rparr>)"
  "public_search (public_filters\<lparr>sf_query := q, sf_category_slug := c, sf_tag_slugs := ts, sf_sort := o1\<rparr>)"
  by (simp_all add: public_search_def public_filters_def)

lemma agree_bind_page:
  assumes "covers V" and "public_search f"
    and "\<And>p q. rel_page (same_card en) p q \<Longrightarrow> agree V S (k p) (l q)"
  shows "agree V S (bind (software_list_page en pg (Some f)) k) (bind (software_list_page en pg (Some f)) l)"
  using agree_bind [OF agree_list_page [OF assms(2,1)]] assms(3) by blast

lemma agree_home:
  assumes V: "covers V"
  shows "agree V (=) (home_body en) (home_body en)"
  unfolding home_body_def
  by (intro agree_bind_lift agree_bind_page agree_bind_eq agree_facets agree_ret V cards_agree)
    simp_all

lemma agree_catalog:
  assumes V: "covers V"
  shows "agree V (=) (catalog_body en p nq ct tt o1) (catalog_body en p nq ct tt o1)"
  unfolding catalog_body_def
  by (intro agree_bind_lift agree_bind_page agree_bind_eq agree_resolve agree_facets agree_ret V)
    (simp_all add: cards_agree rel_page_eqs)

lemma agree_sitemap:
  assumes V: "covers V"
  shows "agree V (=) (list_sitemap_entries en n) (list_sitemap_entries en n)"
  unfolding list_sitemap_entries_def
  by (intro agree_bind_eq agree_facets agree_ret V agree_public_query)
    (simp_all add: sitemap_softwares_part [OF V])

lemma agree_services:
  assumes V: "covers V" and st: "same_part V (interfere s) (interfere t)"
  shows "fst (home en s) = fst (home en t)"
    and "fst (catalog en p q ct tt o1 s) = fst (catalog en p q ct tt o1 t)"
    and "fst (sitemap_entries en s) = fst (sitemap_entries en t)"
proof -
  show "fst (home en s) = fst (home en t)" "fst (sitemap_entries en s) = fst (sitemap_entries en t)"
    unfolding home_def sitemap_entries_def
    using agree_read_session [OF agree_home [OF V] st] agree_read_session [OF agree_sitemap [OF V] st]
    by (simp_all add: rel_sum_eqD)
  have "fst (read_session (catalog_body en p nq ct tt o1) s) = fst (read_session (catalog_body en p nq ct tt o1) t)" for nq
    using agree_read_session [OF agree_catalog [OF V] st] by (rule rel_sum_eqD)
  then show "fst (catalog en p q ct tt o1 s) = fst (catalog en p q ct tt o1 t)"
    by (cases "normalize_search_query q") (simp_all add: catalog_def eff_simps validated_def)
qed

section \<open>One page\<close>

definition shown_at :: "unicode \<Rightarrow> str \<Rightarrow> software \<Rightarrow> bool" where
  "shown_at u slug w \<longleftrightarrow> can_view_software w False \<and> sw_slug w = casefold u (strip slug)"

lemma by_slug_part:
  assumes "keyed d"
  shows "by_slug sw_slug u slug (part_softwares (shown_at u slug) d)
    = (case by_slug sw_slug u slug (db_softwares d) of None \<Rightarrow> None
       | Some w \<Rightarrow> if can_view_software w False then Some w else None)"
proof -
  have "shown_at u slug x \<longleftrightarrow> can_view_software x False"
    if "find (\<lambda>r. sw_slug r = casefold u (strip slug)) xs = Some x" for x xs
    using find_Some_iff_in [OF that] by (simp add: shown_at_def)
  then show ?thesis
    using assms by (auto simp: by_slug_def part_softwares_def keyed_def find_filter_unique split: option.splits)
qed

definition page_outcome :: "engine \<Rightarrow> database \<Rightarrow> software option \<Rightarrow> exn + software_detail_view" where
  "page_outcome en d w =
     (case w of None \<Rightarrow> Inl EntityNotFound
      | Some w \<Rightarrow> if can_view_software w False then software_detail en False (with_summary_graph d w)
                 else Inl EntityNotFound)"

lemma page_outcome_part:
  assumes "keyed d"
  shows "page_outcome en (part (shown_at u slug) d)
      (by_slug sw_slug u slug (db_softwares (part (shown_at u slug) d)))
    = page_outcome en d (by_slug sw_slug u slug (db_softwares d))"
proof (cases "by_slug sw_slug u slug (db_softwares d)")
  case (Some w)
  then have "w \<in> set (db_softwares d)" "sw_slug w = casefold u (strip slug)"
    using find_Some_iff_in by (fastforce simp: by_slug_def)+
  then show ?thesis
    using detail_part [OF assms, of w "shown_at u slug" en] Some
    by (auto simp: by_slug_part [OF assms] page_outcome_def shown_at_def)
qed (simp add: by_slug_part [OF assms] page_outcome_def)

lemma software_page_outcome:
  "fst (software_page en slug False s) =
     (let d = w_db (interfere s) in
      if w_db_fault s (Suc (w_db_tick s)) then Inl SQLAlchemyError
      else page_outcome en d (by_slug sw_slug (en_unicode en) slug (db_softwares d)))"
  by (simp add: software_page_def read_session_def graph_by_slug_def query_def sql_call_def
      eff_simps interfere_def page_outcome_def Let_def split: option.splits prod.splits)

text \<open>
  C10: What the home page, the catalogue with any search, filters and order, and the site map
  answer is a function of the listed software alone: two databases with the same published
  public software, visible categories, used tags, published or archived releases and public
  published files (internal columns aside) answer alike, whatever else they hold.
\<close>

theorem listings_reveal_only_listed:
  assumes "same_part is_software_publicly_listed (interfere s) (interfere t)"
  shows "fst (home en s) = fst (home en t)
     \<and> fst (catalog en p q ct tt o1 s) = fst (catalog en p q ct tt o1 t)
     \<and> fst (sitemap_entries en s) = fst (sitemap_entries en t)"
  using agree_services [OF _ assms] by (simp add: covers_def)

text \<open>
  C11: The page an anonymous visitor gets at a slug, or the refusal, depends on nothing but the
  software with this slug that may be viewed, and its public releases and files; the text of
  the answer cannot tell a hidden or private software from one that does not exist.
\<close>

theorem page_reveals_only_itself:
  assumes "same_part (shown_at (en_unicode en) slug) (interfere s) (interfere t)"
  shows "fst (software_page en slug False s) = fst (software_page en slug False t)"
proof -
  have "page_outcome en (w_db (interfere s)) (by_slug sw_slug (en_unicode en) slug (db_softwares (w_db (interfere s))))
      = page_outcome en (w_db (interfere t)) (by_slug sw_slug (en_unicode en) slug (db_softwares (w_db (interfere t))))"
    using assms page_outcome_part unfolding same_part_def by metis
  then show ?thesis
    using assms by (simp add: software_page_outcome Let_def same_part_def interfere_def)
qed

section \<open>The catalogue page\<close>



definition page_slice :: "pagination \<Rightarrow> 'a list \<Rightarrow> 'a list" where
  "page_slice p xs = take (nat (pg_per_page p)) (drop (nat (pagination_offset p)) xs)"










section \<open>Links lead somewhere\<close>

lemma rmap_member: "rmap f xs = Inr ys \<Longrightarrow> y \<in> set ys \<Longrightarrow> \<exists>x \<in> set xs. f x = Inr y"
  by (induction xs arbitrary: ys) (auto simp: rbind_eq_Inr)

lemma file_view_Inr: "file_view f = Inr v \<Longrightarrow> fv_public_uuid v = rf_public_uuid f
    \<and> fv_display_filename v = rf_display_filename f \<and> fv_sha256 v = rf_sha256 f
    \<and> (\<exists>q. quote [] (rf_display_filename f) = Inr q \<and> fv_download_path v = download_path (rf_public_uuid f) q)"
  by (auto simp: file_view_def rbind_eq_Inr)

text \<open>Every file on a page is a row with its chain of parents.\<close>

lemma shown_file:
  assumes c: "db_constraints d" and w: "w \<in> set (db_softwares d)"
    and v: "software_detail en a (with_summary_graph d w) = Inr v"
    and rv: "rv \<in> set (sd_releases v)" and fv: "fv \<in> set (rv_files rv)"
  obtains f r where "f \<in> set (db_files d)" "graph_of d f = Some (f, r, w)" "file_view f = Inr fv"
    "is_listable_file a f" "public_release_status (rel_status r)"
proof -
  have "release_views (en_unicode en) a (with_summary_graph d w) = Inr (sd_releases v)"
    using v by (auto simp: software_detail_def Let_def rbind_eq_Inr)
  then obtain r where r: "r \<in> set (releases_of d w)" "public_release_status (rel_status r)"
    and view: "release_view (en_unicode en) a (release_graph_of d r) = Inr rv"
    using rmap_member [OF _ rv] unfolding release_views_rows by fastforce
  then have "rmap file_view (filter (is_listable_file a) (sort_key (file_sort_key (en_unicode en))
      (files_of d r))) = Inr (rv_files rv)"
    by (auto simp: release_view_def rbind_eq_Inr release_graph_of_def)
  then obtain f where f: "f \<in> set (files_of d r)" "is_listable_file a f" "file_view f = Inr fv"
    using rmap_member [OF _ fv] by fastforce
  have "distinct_keys rel_id (db_releases d)" "distinct_keys sw_id (db_softwares d)"
    using c by (simp_all add: db_constraints_def releases_ok_def softwares_ok_def)
  then have "graph_of d f = Some (f, r, w)"
    using row_get_unique [of rel_id "db_releases d" r] row_get_unique [of sw_id "db_softwares d" w] f(1) r(1) w
    by (simp add: graph_of_Some files_of_def releases_of_def)
  then show ?thesis using that f r by (auto simp: files_of_def)
qed

lemma record_start_succeeds:
  assumes "quiet s" and "db_constraints (w_db s)" and "i \<in> rf_id ` set (db_files (w_db s))"
    and "no_db_faults s"
  shows "wp (record_authorized_start i) (\<lambda>_ _. True) (\<lambda>_ _. False) s"
proof -
  have q: "w_env s n d = d" for n d using assms(1) by (simp add: quiet_def)
  show ?thesis
    using constraints_count_start [OF assms(2)] constraints_started(1) [OF assms(2,3)] assms(4)
    by (auto simp: record_authorized_start_def record_authorized_start_rows_def upsert_daily_def wp_simps
        wp_transaction_iff interfere_def q started_db_def count_start_def no_db_faults_def)
qed

lemma located_unique:
  assumes "located s paths raw st" and "located s paths raw st'"
  shows "st' = st"
proof -
  obtain p b where p: "safe_relative (as_posix raw) p" "files s (area_root paths (st_area st) @ p) = Some b"
      "os_fs s (area_root paths (other_area (st_area st)) @ p) = None"
      "st = stored_of paths (as_posix raw) p (st_area st) b"
    using assms(1) unfolding located_def by blast
  obtain p' b' where p': "safe_relative (as_posix raw) p'" "files s (area_root paths (st_area st') @ p') = Some b'"
      "os_fs s (area_root paths (other_area (st_area st')) @ p') = None"
      "st' = stored_of paths (as_posix raw) p' (st_area st') b'"
    using assms(2) unfolding located_def by blast
  have pp: "p' = p" using p(1) p'(1) by (simp add: safe_relative_def)
  have "st_area st' = st_area st"
    using p(2,3) p'(2,3) pp by (cases "st_area st"; cases "st_area st'") (auto simp: files_def file_at_def)
  then show ?thesis using p p' pp by (metis option.inject)
qed

text \<open>The store holds every published file where a download looks for it.\<close>

definition served :: "str \<Rightarrow> storage_paths \<Rightarrow> world \<Rightarrow> bool" where
  "served redirect paths s \<longleftrightarrow> (\<forall>f \<in> set (db_files (w_db s)). rf_status f = FilePublished \<longrightarrow>
     (\<exists>st q. located s paths (rf_relative_storage_path f) st \<and> st_area st = AreaSoftware
        \<and> st_size_bytes st = rf_file_size_bytes f \<and> internal_redirect_uri redirect (st_relative_path st) = Inr q))"

definition in_service :: "str \<Rightarrow> storage_paths \<Rightarrow> world \<Rightarrow> bool" where
  "in_service redirect paths s \<longleftrightarrow> quiet s \<and> no_os_faults s \<and> no_db_faults s \<and> store_ok paths s
     \<and> db_constraints (w_db s) \<and> served redirect paths s"

lemma wp_authorize_granted:
  assumes s: "in_service redirect paths s"
    and f: "f \<in> set (db_files (w_db s))" and g: "graph_of (w_db s) f = Some (f, r, w)"
    and may: "can_download_file f r w a" and name: "quote [] (rf_display_filename f) = Inr qn"
  shows "wp (authorize u redirect paths (rf_public_uuid f) (rf_display_filename f) a counted)
     (\<lambda>x _. dg_etag x = [34] @ py ''sha256-'' @ rf_sha256 f @ [34]) (\<lambda>_ _. False) s"
proof -
  have q: "quiet s" and ok: "store_ok paths s" and c: "db_constraints (w_db s)"
    and nf: "no_os_faults s" and nd: "no_db_faults s" and sv: "served redirect paths s"
    using s by (simp_all add: in_service_def)
  have "rf_status f = FilePublished" using may by (auto simp: can_download_file_def split: if_splits)
  then obtain st uri where st: "located s paths (rf_relative_storage_path f) st" "st_area st = AreaSoftware"
      "st_size_bytes st = rf_file_size_bytes f" "internal_redirect_uri redirect (st_relative_path st) = Inr uri"
    using sv f unfolding served_def by blast
  have find: "find (\<lambda>h. rf_public_uuid h = rf_public_uuid f) (db_files (w_db s)) = Some f"
    using c f row_get_unique [of rf_public_uuid "db_files (w_db s)" f]
    by (simp add: row_get_def db_constraints_def files_ok_def unique_by_def distinct_keys_def)
  obtain x where x: "download_headers u redirect f st = Inr x"
      "dg_etag x = [34] @ py ''sha256-'' @ rf_sha256 f @ [34]"
    using st(4) name by (auto simp: download_headers_def Let_def build_content_disposition_def)
  have read: "wp (read_session (query (get_by_public_uuid (rf_public_uuid f))))
      (\<lambda>y t. db_only s t \<and> w_db t = w_db s \<and> y = Some (f, Some (f, r, w))) (\<lambda>_ _. False) s"
    using q nd find g
    by (simp add: wp_read_session_iff wp_simps interfere_def quiet_def no_db_faults_def get_by_public_uuid_def)
  show ?thesis
    unfolding authorize_def
  proof (rule wp_bind_spec [OF read], goal_cases)
    case (1 y t)
    note t = db_onlyD [OF conjunct1 [OF 1]]
    have loc: "wp (try_catch (locate_stored_file paths (rf_relative_storage_path f))
          (\<lambda>e. if e = StorageError then throw EntityNotFound else throw e))
        (\<lambda>st' t'. looked t t' \<and> st' = st) (\<lambda>_ _. False) t"
    proof (rule wp_try_spec [OF wp_locate_stored_file], goal_cases)
      case 1
      then show ?case using ok t by (simp add: store_ok_def)
    next
      case (2 st' t')
      then have "located s paths (rf_relative_storage_path f) st'" using t by (simp add: located_def)
      then show ?case using 2 located_unique [OF st(1)] by blast
    next
      case (3 e t')
      have "no_os_faults t" "located t paths (rf_relative_storage_path f) st"
        using nf t st(1) by (simp_all add: no_os_faults_def located_def)
      then show ?case using 3 by blast
    qed
    have start: "wp (if counted then record_authorized_start (rf_id f) else ret ()) (\<lambda>_ _. True) (\<lambda>_ _. False) t'"
      if l: "looked t t'" for t'
    proof -
      have "quiet t'" "no_db_faults t'" "w_db t' = w_db s"
        using q nd 1 t looked_eqs [OF l] looked_db [OF l] by (simp_all add: quiet_def no_db_faults_def)
      then show ?thesis using record_start_succeeds c f by (simp add: wp_simps)
    qed
    have count: "wp (if counted then record_authorized_start (rf_id f) else ret ())
        (\<lambda>_ t''. dg_etag x = [34] @ py ''sha256-'' @ rf_sha256 f @ [34]) (\<lambda>_ _. False) t'"
      if "looked t t'" for t'
      by (rule wp_mono [OF start [OF that]]) (use x(2) in simp_all)
    have y: "y = Some (f, Some (f, r, w))" and go: "may_download f (Some (f, r, w)) a = Inr True"
      using 1 may by (simp_all add: may_download_def)
    have "wp (bind (try_catch (locate_stored_file paths (rf_relative_storage_path f))
                     (\<lambda>e. if e = StorageError then throw EntityNotFound else throw e)) (\<lambda>stored.
             bind (raise_if (st_area stored \<noteq> AreaSoftware) EntityNotFound) (\<lambda>_.
             bind (raise_if (st_size_bytes stored \<noteq> rf_file_size_bytes f) EntityNotFound) (\<lambda>_.
             bind (if counted then record_authorized_start (rf_id f) else ret ()) (\<lambda>_.
             lift_result (download_headers u redirect f stored))))))
        (\<lambda>x _. dg_etag x = [34] @ py ''sha256-'' @ rf_sha256 f @ [34]) (\<lambda>_ _. False) t"
    proof (rule wp_bind_spec [OF loc], goal_cases)
      case (1 st' t')
      then have "looked t t'" and st': "st' = st" by simp_all
      then show ?case
        by (simp only: wp_bind wp_raise_if st' st(2,3) if_False not_True_eq_False simp_thms)
          (rule wp_mono [OF count], simp_all add: x(1) wp_lift_result)
    qed simp
    then show ?case by (simp add: y go wp_bind wp_lift_result)
  qed simp
qed

lemma wp_run_result: "wp m Q (\<lambda>_ _. False) s \<Longrightarrow> \<exists>x t. m s = (Inr x, t) \<and> Q x t"
  by (auto simp: wp_def split: prod.splits sum.splits)

lemma software_page_run:
  assumes "quiet s" and "fst (software_page en slug False s) = Inr v"
  obtains w where "w \<in> set (db_softwares (w_db s))" "can_view_software w False"
    "sw_slug w = casefold (en_unicode en) (strip slug)"
    "software_detail en False (with_summary_graph (w_db s) w) = Inr v"
proof -
  have i: "w_db (interfere s) = w_db s" using assms(1) by (simp add: interfere_def quiet_def)
  then obtain w where w: "by_slug sw_slug (en_unicode en) slug (db_softwares (w_db s)) = Some w"
      "can_view_software w False" "software_detail en False (with_summary_graph (w_db s) w) = Inr v"
    using assms(2) by (auto simp: software_page_outcome page_outcome_def Let_def split: if_splits option.splits)
  then have "w \<in> set (db_softwares (w_db s))" "sw_slug w = casefold (en_unicode en) (strip slug)"
    using find_Some_iff_in by (fastforce simp: by_slug_def)+
  then show ?thesis using that w by blast
qed

lemma shown_may_download:
  "can_view_software w False \<Longrightarrow> is_listable_file False f \<Longrightarrow> public_release_status (rel_status r)
     \<Longrightarrow> can_download_file f r w False"
  by (auto simp: can_view_software_def is_listable_file_def public_release_status_def can_download_file_def
      split: if_splits)

text \<open>
  C12: While nothing fails and the store holds the published files, every file an anonymous
  visitor is shown on a software page can be downloaded: a request with the identifier and
  name of its link, \<open>/download/\<close>, the identifier and the quoted name, is granted, and the
  entity tag of the answer is the digest the page shows.
\<close>

theorem shown_links_download:
  assumes "in_service redirect paths s" and "fst (software_page en slug False s) = Inr v"
    and "rv \<in> set (sd_releases v)" and "fv \<in> set (rv_files rv)"
  shows "\<exists>g t q. authorize u redirect paths (fv_public_uuid fv) (fv_display_filename fv) False counted s = (Inr g, t)
    \<and> dg_etag g = [34] @ py ''sha256-'' @ fv_sha256 fv @ [34]
    \<and> quote [] (fv_display_filename fv) = Inr q \<and> fv_download_path fv = download_path (fv_public_uuid fv) q"
proof -
  have q: "quiet s" and c: "db_constraints (w_db s)" using assms(1) by (simp_all add: in_service_def)
  obtain w where w: "w \<in> set (db_softwares (w_db s))" "can_view_software w False"
      "software_detail en False (with_summary_graph (w_db s) w) = Inr v"
    using software_page_run [OF q assms(2)] by blast
  obtain f r where f: "f \<in> set (db_files (w_db s))" "graph_of (w_db s) f = Some (f, r, w)"
      "file_view f = Inr fv" "is_listable_file False f" "public_release_status (rel_status r)"
    by (rule shown_file [OF c w(1,3) assms(3,4)])
  obtain qn where view: "fv_public_uuid fv = rf_public_uuid f" "fv_display_filename fv = rf_display_filename f"
      "fv_sha256 fv = rf_sha256 f" "quote [] (rf_display_filename f) = Inr qn"
      "fv_download_path fv = download_path (rf_public_uuid f) qn"
    using file_view_Inr [OF f(3)] by blast
  show ?thesis
    using wp_run_result [OF wp_authorize_granted [OF assms(1) f(1,2) shown_may_download [OF w(2) f(4,5)] view(4)],
        of u counted] view by simp
qed

section \<open>The site map\<close>

definition encodable :: "database \<Rightarrow> bool" where
  "encodable d \<longleftrightarrow> (\<forall>f \<in> set (db_files d). utf8_encode (rf_display_filename f) \<noteq> None)"

lemma rmap_total: "\<forall>x \<in> set xs. \<exists>y. f x = Inr y \<Longrightarrow> \<exists>ys. rmap f xs = Inr ys"
  by (induction xs) (auto simp: rbind_eq_Inr)

lemma release_views_total:
  assumes "encodable d"
  shows "\<exists>vs. release_views u a (with_summary_graph d w) = Inr vs"
proof -
  have "\<exists>v. file_view f = Inr v" if "f \<in> set (db_files d)" for f
    using that assms by (auto simp: encodable_def file_view_def quote_def rbind_eq_Inr split: option.splits)
  then have files: "\<exists>vs. rmap file_view (filter P (sort_key k (files_of d r))) = Inr vs" for P and k :: "_ \<Rightarrow> nat \<times> nat \<times> str \<times> nat" and r
    by (intro rmap_total) (auto simp: files_of_def)
  have "\<exists>v. release_view u a (release_graph_of d r) = Inr v" for r
    using files [of "is_listable_file a" "file_sort_key u" r]
    by (auto simp: release_view_def release_graph_of_def rbind_eq_Inr)
  then show ?thesis unfolding release_views_rows by (intro rmap_total) blast
qed

lemma views_total:
  assumes "encodable d"
  shows "\<exists>v. software_card en (with_summary_graph d w) = Inr v"
    and "\<exists>v. software_detail en a (with_summary_graph d w) = Inr v \<and> sd_slug v = sw_slug w"
proof -
  obtain cs where "release_views (en_unicode en) False (with_summary_graph d w) = Inr cs"
    using release_views_total [OF assms] by blast
  then show "\<exists>v. software_card en (with_summary_graph d w) = Inr v" by (simp add: software_card_def Let_def)
  obtain ds where "release_views (en_unicode en) a (with_summary_graph d w) = Inr ds"
    using release_views_total [OF assms] by blast
  then show "\<exists>v. software_detail en a (with_summary_graph d w) = Inr v \<and> sd_slug v = sw_slug w"
    by (simp add: software_detail_def Let_def)
qed

lemma query_run:
  "no_db_faults s \<Longrightarrow> query f s = (Inr (f (w_db s)), s\<lparr>w_db_tick := Suc (w_db_tick s)\<rparr>)"
  by (simp add: query_def sql_call_def eff_simps no_db_faults_def)

lemma no_db_faults_tick [simp]: "no_db_faults (s\<lparr>w_db_tick := n\<rparr>) = no_db_faults s"
  by (simp add: no_db_faults_def)

lemma find_by_unique:
  "distinct (map f xs) \<Longrightarrow> x \<in> set xs \<Longrightarrow> P x \<Longrightarrow> find (\<lambda>y. f y = f x \<and> P y) xs = Some x"
  by (induction xs) (auto simp: image_iff)

lemma list_page_run:
  assumes "no_db_faults s" and "1 \<le> pg_page p" and "1 \<le> pg_per_page p"
    and "normalize_search_query (sf_query f) = Inr nq"
  shows "software_list_page en p (Some f) s =
    (Inr \<lparr>page_items = page_slice p (map (with_summary_graph (w_db s)) (software_rows en f nq (w_db s))),
          page_total = int (length (software_rows en f nq (w_db s))),
          page_number = pg_page p, page_per_page = pg_per_page p\<rparr>,
     s\<lparr>w_db_tick := Suc (Suc (w_db_tick s))\<rparr>)"
  using assms
  by (simp add: software_list_page_def paginate_scalars_def eff_simps query_run new_page_def page_slice_def)

lemma resolve_category_run:
  assumes nf: "no_db_faults s" and slug: "is_slug (cat_slug c)"
    and keys: "unique_by cat_slug (db_categories (w_db s))"
    and c: "c \<in> set (db_categories (w_db s))" "cat_is_visible c"
  shows "resolve_facet (get_category_facet u) (Some (cat_slug c)) s =
    (Inr (Some (category_facet_row (w_db s) c)), s\<lparr>w_db_tick := Suc (Suc (w_db_tick s))\<rparr>)"
proof -
  have "find (\<lambda>x. cat_slug x = cat_slug c \<and> cat_is_visible x) (db_categories (w_db s)) = Some c"
    using find_by_unique [of cat_slug] keys c by (simp add: unique_by_def)
  then show ?thesis
    using nf is_slugD(1) [OF slug]
    by (simp add: resolve_facet_def get_category_facet_def is_slug_fixed [OF slug] eff_simps query_run
        raise_if_def category_facet_row_def)
qed

lemma catalog_category_run:
  assumes nf: "no_db_faults s" and q: "quiet s" and p: "1 \<le> pg_page p" "1 \<le> pg_per_page p"
    and slug: "is_slug (cat_slug c)" and keys: "unique_by cat_slug (db_categories (w_db s))"
    and c: "c \<in> set (db_categories (w_db s))" "cat_is_visible c" and en: "encodable (w_db s)"
  shows "\<exists>v. fst (catalog en p None (Some (cat_slug c)) None o1 s) = Inr v
    \<and> page_total (pc_page v) = int (length (software_rows en (public_filters\<lparr>sf_query := None,
        sf_category_slug := Some (cat_slug c), sf_tag_slugs := [], sf_sort := o1\<rparr>) None (w_db s)))"
proof -
  let ?f = "public_filters\<lparr>sf_query := None, sf_category_slug := Some (cat_slug c),
      sf_tag_slugs := [], sf_sort := o1\<rparr>"
  have i: "no_db_faults (interfere s)" "w_db (interfere s) = w_db s"
    using nf q by (simp_all add: interfere_def quiet_def)
  obtain ys where ys: "rmap (software_card en) (page_slice p (map (with_summary_graph (w_db s))
      (software_rows en ?f None (w_db s)))) = Inr ys"
    using rmap_total [of "page_slice p (map (with_summary_graph (w_db s)) (software_rows en ?f None (w_db s)))"
        "software_card en"] views_total(1) [OF en]
    by (force simp: page_slice_def dest!: in_set_takeD in_set_dropD)
  have "fst (catalog_body en p None (Some (cat_slug c)) None o1 (interfere s))
      = Inr \<lparr>pc_page = \<lparr>page_items = ys, page_total = int (length (software_rows en ?f None (w_db s))),
          page_number = pg_page p, page_per_page = pg_per_page p\<rparr>,
        pc_categories = facet_categories 100 (w_db s), pc_tags = facet_tags 100 (w_db s), pc_query = [],
        pc_category = Some (category_facet_row (w_db s) c), pc_tag = None, pc_sort = software_sort_value o1\<rparr>"
    using i p c keys ys
    by (simp add: catalog_body_def run_bind resolve_category_run [OF _ slug] list_page_run query_run
        resolve_facet_def [of "get_tag_facet _"] run_simps raise_if_def category_facet_row_def
        normalize_search_query_def public_filters_def cards_def new_page_def list_categories_def list_tags_def)
  then show ?thesis
    by (auto simp: catalog_def read_session_def eff_simps validated_def normalize_search_query_def split: prod.splits)
qed

lemma category_rows_nonempty:
  assumes c: "c \<in> set (db_categories d)" "cat_is_visible c" "is_slug (cat_slug c)"
    and keys: "distinct_keys cat_id (db_categories d)" and n: "0 < category_count d c"
    and f: "f = public_filters\<lparr>sf_query := None, sf_category_slug := Some (cat_slug c),
      sf_tag_slugs := [], sf_sort := o1\<rparr>"
  shows "software_rows en f None d \<noteq> []"
proof -
  obtain w where w: "w \<in> set (db_softwares d)" "is_software_publicly_listed w"
      "sw_category_id w = Some (cat_id c)"
    using n by (auto simp: category_count_def listed_softwares_def filter_empty_conv)
  have "category_of d w = Some c" using w(3) row_get_unique [OF keys c(1)] by (simp add: category_of_def)
  then have "matches en f None d w"
    using w(2) c(2) is_slug_fixed [OF c(3)]
    by (simp add: matches_def joined_tags_def joined_category_def where_clause_def category_clause_def f
        public_filters_def default_filters_def is_software_publicly_listed_def)
  then have "w \<in> set (software_rows en f None d)" using w(1) by (simp add: set_software_rows)
  then show ?thesis by auto
qed

lemma software_page_found:
  assumes "no_db_faults s" and "quiet s" and "unique_by sw_slug (db_softwares (w_db s))"
    and w: "w \<in> set (db_softwares (w_db s))" "can_view_software w False" "is_slug (sw_slug w)"
    and "encodable (w_db s)"
  shows "\<exists>v. fst (software_page en (sw_slug w) False s) = Inr v \<and> sd_slug v = sw_slug w"
proof -
  have i: "w_db (interfere s) = w_db s" using assms(2) by (simp add: interfere_def quiet_def)
  have "by_slug sw_slug (en_unicode en) (sw_slug w) (db_softwares (w_db s)) = Some w"
    using find_by_unique [of sw_slug "db_softwares (w_db s)" w "\<lambda>_. True"] assms(3) w(1)
    by (simp add: by_slug_def is_slug_fixed [OF w(3)] unique_by_def)
  then show ?thesis
    using views_total(2) [OF assms(7), of en False w] assms(1) w(2)
    by (simp add: software_page_outcome page_outcome_def Let_def i no_db_faults_def)
qed

text \<open>
  C26: While nothing fails and the catalogue satisfies its invariant, every address of the
  site map leads to a page: a category to a catalogue page with at least one entry, a software
  to its own page, and its releases to the same; the other two are the fixed pages.
\<close>

theorem sitemap_links_resolve:
  assumes "no_db_faults s" and "quiet s" and "catalog_sound (w_db s)" and "encodable (w_db s)"
    and "1 \<le> pg_page p" and "1 \<le> pg_per_page p"
    and "fst (sitemap_entries en s) = Inr es" and "e \<in> set es"
  shows "se_path e \<in> {py ''/'', py ''/software''}
    \<or> (\<exists>slug v. se_path e = py ''/category/'' @ slug
         \<and> fst (catalog en p None (Some slug) None o1 s) = Inr v \<and> 0 < page_total (pc_page v))
    \<or> (\<exists>slug v. se_path e \<in> {py ''/software/'' @ slug, py ''/software/'' @ slug @ py ''/releases''}
         \<and> fst (software_page en slug False s) = Inr v \<and> sd_slug v = slug)"
proof -
  let ?d = "w_db s"
  have i: "no_db_faults (interfere s)" "w_db (interfere s) = ?d"
    using assms(1,2) by (simp_all add: interfere_def quiet_def)
  have cons: "unique_by cat_slug (db_categories ?d)" "distinct_keys cat_id (db_categories ?d)"
      "unique_by sw_slug (db_softwares ?d)"
    using assms(3) by (simp_all add: catalog_sound_def db_constraints_def categories_ok_def softwares_ok_def)
  have "es = [\<lparr>se_path = py ''/'', se_last_modified = None\<rparr>, \<lparr>se_path = py ''/software'', se_last_modified = None\<rparr>]
      @ map (\<lambda>c. \<lparr>se_path = py ''/category/'' @ fc_slug c, se_last_modified = None\<rparr>) (facet_categories 1000 ?d)
      @ concat (map (software_entries en) (sitemap_softwares 24000 ?d))"
    using assms(7) i
    by (simp add: sitemap_entries_def read_session_def list_sitemap_entries_def list_categories_def
        run_bind query_run run_simps)
  then consider "se_path e \<in> {py ''/'', py ''/software''}"
    | c where "c \<in> set (facet_categories 1000 ?d)" "se_path e = py ''/category/'' @ fc_slug c"
    | w where "w \<in> set (sitemap_softwares 24000 ?d)" "e \<in> set (software_entries en w)"
    using assms(8) by auto
  then show ?thesis
  proof cases
    case (2 f)
    then obtain c where c: "c \<in> set (db_categories ?d)" "cat_is_visible c" "0 < category_count ?d c"
        "fc_slug f = cat_slug c"
      by (auto simp: facet_categories_def category_facet_row_def dest!: in_set_takeD)
    have slug: "is_slug (cat_slug c)"
      using assms(3) c(1) by (auto simp: catalog_sound_def list_all_iff good_category_def)
    show ?thesis
      using catalog_category_run [OF assms(1,2,5,6) slug cons(1) c(1,2) assms(4), of en o1]
        category_rows_nonempty [OF c(1,2) slug cons(2) c(3) refl, of en o1] 2 c(4) by auto
  next
    case (3 w)
    then have w: "w \<in> set (db_softwares ?d)" "is_software_publicly_listed w"
      by (auto simp: sitemap_softwares_def listed_softwares_def dest!: in_set_takeD)
    have "is_slug (sw_slug w)" "can_view_software w False"
      using assms(3) w by (auto simp: catalog_sound_def list_all_iff good_software_def
          is_software_publicly_listed_def can_view_software_def)
    then obtain v where "fst (software_page en (sw_slug w) False s) = Inr v" "sd_slug v = sw_slug w"
      using software_page_found [OF assms(1,2) cons(3) w(1) _ _ assms(4), of en] by blast
    then show ?thesis
      using 3 by (intro disjI2 exI [of _ "sw_slug w"] exI [of _ v]) (auto simp: software_entries_def)
  qed blast
qed

section \<open>A small shop\<close>

definition demo_engine :: engine where
  "demo_engine = \<lparr>en_unicode = ascii_only, en_upper = (\<lambda>s. s), en_like = like_match,
     en_updated_at = (\<lambda>i. int i), en_tie = (\<lambda>i. i)\<rparr>"

definition shop_db :: database where
  "shop_db = (w_db public_world)\<lparr>
     db_categories := [\<lparr>cat_id = 1, cat_name = py ''Tools'', cat_slug = py ''tools'',
       cat_description = None, cat_sort_order = 0, cat_is_visible = True\<rparr>],
     db_softwares := [demo_software\<lparr>sw_category_id := Some 1\<rparr>]\<rparr>"

text \<open>The same shop with a private software, a hidden category, a draft release and notes.\<close>

definition secret_db :: database where
  "secret_db = shop_db\<lparr>db_users := [],
     db_categories := db_categories shop_db @ [\<lparr>cat_id = 2, cat_name = [120], cat_slug = [120],
       cat_description = None, cat_sort_order = 0, cat_is_visible = False\<rparr>],
     db_softwares := db_softwares shop_db @
       [demo_software\<lparr>sw_id := 2, sw_slug := [98], sw_visibility := VisPrivate\<rparr>],
     db_releases := db_releases shop_db @
       [demo_release\<lparr>rel_id := 2, rel_version := [50], rel_status := ReleaseDraft\<rparr>],
     db_files := map (\<lambda>f. f\<lparr>rf_admin_note := Some [120]\<rparr>) (db_files shop_db)\<rparr>"

definition shop_world :: world where
  "shop_world = public_world\<lparr>w_db := shop_db\<rparr>"

definition secret_world :: world where
  "secret_world = public_world\<lparr>w_db := secret_db\<rparr>"

lemma shop_interfere:
  "w_db (interfere shop_world) = shop_db" "w_db (interfere secret_world) = secret_db"
  "w_db_fault (interfere shop_world) = w_db_fault (interfere secret_world)"
  "w_db_tick (interfere shop_world) = w_db_tick (interfere secret_world)"
  by (simp_all add: interfere_def shop_world_def secret_world_def public_world_def demo_world_def)

lemma shop_parts:
  "part is_software_publicly_listed shop_db = part is_software_publicly_listed secret_db"
  "part (shown_at ascii_only [97]) shop_db = part (shown_at ascii_only [97]) secret_db"
  "keyed shop_db" "keyed secret_db"
  by code_simp+

lemma shop_page_run: "is_granted (software_page demo_engine [97] False shop_world)"
  by code_simp


lemma shop_sitemap_run: "is_granted (sitemap_entries demo_engine shop_world)"
  by code_simp

lemma shop_sound: "catalog_sound shop_db"
  by code_simp

lemma shop_encodable: "encodable shop_db"
  unfolding encodable_def by code_simp

lemma shop_row: "db_files shop_db = [DownloadProperties.public_file]"
  by (simp add: shop_db_def public_world_def)

lemma shop_in_service: "in_service [47] demo_paths shop_world"
proof -
  have rel: "safe_relative [102] [[102]]" "as_posix [102] = [102]" "quote [slash] [102] = Inr [102]"
    unfolding safe_relative_def by code_simp+
  have path: "rf_relative_storage_path DownloadProperties.public_file = [102]"
    "rf_file_size_bytes DownloadProperties.public_file = 4"
    by (simp_all add: DownloadProperties.public_file_def demo_file_def)
  have loc: "located shop_world demo_paths [102] (stored_of demo_paths [102] [[102]] AreaSoftware demo_bytes)"
    unfolding located_def rel(2)
    by (rule exI [of _ "[[102]]"], rule exI [of _ demo_bytes])
      (simp add: rel(1) stored_of_def area_root.simps shop_world_def public_world_def demo_fs_def demo_paths_def
        files_def file_at_def)
  have "served [47] demo_paths shop_world"
    using loc rel(3) unfolding served_def
    by (auto simp: shop_world_def shop_row path internal_redirect_uri_def stored_of_def demo_bytes_def
        intro!: exI [of _ "stored_of demo_paths [102] [[102]] AreaSoftware demo_bytes"])
  moreover have "store_ok demo_paths shop_world" using public_store_ok by (simp add: store_ok_def shop_world_def)
  moreover have "quiet shop_world" "no_os_faults shop_world" "no_db_faults shop_world"
    by (simp_all add: shop_world_def public_world_def demo_world_def quiet_def no_os_faults_def no_db_faults_def)
  moreover have "db_constraints (w_db shop_world)"
    using catalog_sound_constraints [OF shop_sound] by (simp add: shop_world_def)
  ultimately show ?thesis by (simp add: in_service_def)
qed

section \<open>The properties at the shop\<close>


theorem listings_reveal_only_listed_witness:
  "fst (home demo_engine shop_world) = fst (home demo_engine secret_world)
     \<and> fst (catalog demo_engine
         \<lparr>pg_page = 1, pg_per_page = 10, pg_max_per_page = 100\<rparr> (Some (py ''TOOL'')) (Some (py ''tools'')) None SortPopularity shop_world) = fst (catalog demo_engine
         \<lparr>pg_page = 1, pg_per_page = 10, pg_max_per_page = 100\<rparr> (Some (py ''TOOL'')) (Some (py ''tools'')) None SortPopularity secret_world)
     \<and> fst (sitemap_entries demo_engine shop_world) = fst (sitemap_entries demo_engine secret_world)"
  by (rule listings_reveal_only_listed) (simp add: same_part_def shop_interfere shop_parts)

theorem page_reveals_only_itself_witness:
  "fst (software_page demo_engine [97] False shop_world) = fst (software_page demo_engine [97] False secret_world)
     \<and> is_granted (software_page demo_engine [97] False shop_world)"
proof -
  have "en_unicode demo_engine = ascii_only" by (simp add: demo_engine_def)
  then have "same_part (shown_at (en_unicode demo_engine) [97]) (interfere shop_world) (interfere secret_world)"
    by (simp add: same_part_def shop_interfere shop_parts)
  then show ?thesis using page_reveals_only_itself shop_page_run by blast
qed


lemma shop_shows_file:
  "\<exists>v. fst (software_page demo_engine [97] False shop_world) = Inr v
     \<and> (\<exists>rv \<in> set (sd_releases v). \<exists>fv \<in> set (rv_files rv). fv_public_uuid fv = 7 \<and> fv_display_filename fv = [102])"
proof -
  have "case fst (software_page demo_engine [97] False shop_world) of
      Inr v \<Rightarrow> list_ex (\<lambda>rv. list_ex (\<lambda>fv. fv_public_uuid fv = 7 \<and> fv_display_filename fv = [102]) (rv_files rv))
        (sd_releases v)
    | Inl _ \<Rightarrow> False"
    by code_simp
  then show ?thesis by (auto simp: list_ex_iff split: sum.splits)
qed

theorem shown_links_download_witness:
  "\<exists>g t. authorize ascii_only [47] demo_paths 7 [102] False True shop_world = (Inr g, t)"
proof -
  obtain v rv fv where "fst (software_page demo_engine [97] False shop_world) = Inr v"
      "rv \<in> set (sd_releases v)" "fv \<in> set (rv_files rv)" "fv_public_uuid fv = 7" "fv_display_filename fv = [102]"
    using shop_shows_file by blast
  then show ?thesis
    using shown_links_download [OF shop_in_service, of demo_engine "[97]" v rv fv ascii_only True] by auto
qed

lemma shop_sitemap_entry:
  "\<exists>es e. fst (sitemap_entries demo_engine shop_world) = Inr es \<and> e \<in> set es \<and> se_path e = py ''/software/a''"
proof -
  have "case fst (sitemap_entries demo_engine shop_world) of
      Inr es \<Rightarrow> list_ex (\<lambda>e. se_path e = py ''/software/a'') es | Inl _ \<Rightarrow> False"
    by code_simp
  then show ?thesis by (auto simp: list_ex_iff split: sum.splits)
qed

theorem sitemap_links_resolve_witness:
  "\<exists>slug v. py ''/software/a'' \<in> {py ''/software/'' @ slug, py ''/software/'' @ slug @ py ''/releases''}
     \<and> fst (software_page demo_engine slug False shop_world) = Inr v \<and> sd_slug v = slug"
proof -
  obtain es e where e: "fst (sitemap_entries demo_engine shop_world) = Inr es" "e \<in> set es"
      "se_path e = py ''/software/a''"
    using shop_sitemap_entry by blast
  have w: "no_db_faults shop_world" "quiet shop_world" "w_db shop_world = shop_db"
    by (simp_all add: shop_world_def public_world_def demo_world_def quiet_def no_db_faults_def)
  have "py ''/software/a'' \<notin> {py ''/'', py ''/software''}" "\<And>slug. py ''/software/a'' \<noteq> py ''/category/'' @ slug"
    by (auto simp: py_def)
  then show ?thesis
    using sitemap_links_resolve [OF w(1,2), of "\<lparr>pg_page = 1, pg_per_page = 10, pg_max_per_page = 100\<rparr>"
        demo_engine es e SortName] e w(3) shop_sound shop_encodable by auto
qed

section \<open>Size labels\<close>

lemma format_small: "0 \<le> n \<Longrightarrow> n < 2 ^ 53 \<Longrightarrow> float_of_int n = n"
  by (simp add: float_of_int_def)

lemma near_abs: "2 * a - u \<le> 2 * b \<Longrightarrow> 2 * b \<le> 2 * a + u \<Longrightarrow> 2 * \<bar>a - b\<bar> \<le> u" for a b u :: int
  by (simp add: abs_if)

lemma pick_unit_sizes:
  assumes "0 \<le> v"
  shows "\<exists>k < 5. pick_unit v 0 byte_units = Some (k, byte_units ! k)
    \<and> (k < 4 \<longrightarrow> v < 1024 ^ Suc k) \<and> (0 < k \<longrightarrow> 1024 ^ k \<le> v)"
proof -
  consider "v < 1024" | "1024 \<le> v" "v < 1024 ^ 2" | "1024 ^ 2 \<le> v" "v < 1024 ^ 3"
    | "1024 ^ 3 \<le> v" "v < 1024 ^ 4" | "1024 ^ 4 \<le> v" by linarith
  then show ?thesis
  proof cases
    case 1 then show ?thesis by (intro exI [of _ 0]) (simp add: byte_units_def)
  next
    case 2 then show ?thesis by (intro exI [of _ 1]) (simp add: byte_units_def)
  next
    case 3 then show ?thesis by (intro exI [of _ 2]) (simp add: byte_units_def)
  next
    case 4 then show ?thesis by (intro exI [of _ 3]) (simp add: byte_units_def)
  next
    case 5 then show ?thesis by (intro exI [of _ 4]) (simp add: byte_units_def)
  qed
qed

text \<open>
  The size shown for a file is right to half a tenth of its unit: below 1024 bytes it is
  the exact number, else a number of tenths of the largest unit that fits (terabytes at most)
  that differs from the size by at most half a tenth.
\<close>

theorem size_label_accurate:
  assumes "0 \<le> n" and "n < 2 ^ 53"
  shows "if n < 1024 then format_bytes n = digits_of (nat n) @ [32] @ byte_units ! 0
    else \<exists>k m. 0 < k \<and> k < 5 \<and> 1024 ^ k \<le> n \<and> (k = 4 \<or> n < 1024 ^ Suc k)
      \<and> format_bytes n = digits_of (nat (m div 10)) @ [46] @ digits_of (nat (m mod 10)) @ [32] @ byte_units ! k
      \<and> 2 * \<bar>10 * n - m * 1024 ^ k\<bar> \<le> 1024 ^ k"
proof (cases "n < 1024")
  case True
  then show ?thesis
    unfolding if_P [OF True] using assms by (simp add: format_bytes_def format_small byte_units_def decimal_def)
next
  case False
  obtain k where k: "k < 5" "pick_unit n 0 byte_units = Some (k, byte_units ! k)"
      "k < 4 \<longrightarrow> n < 1024 ^ Suc k" "0 < k \<longrightarrow> 1024 ^ k \<le> n"
    using pick_unit_sizes [OF assms(1)] by (elim exE conjE) (rule that)
  have pos: "0 < k" using False k(3) by (cases k) auto
  define m where "m = round_half_even (10 * n) (1024 ^ k)"
  define unit :: int where "unit = 1024 ^ k"
  have "2 * (10 * n) - unit \<le> 2 * (unit * m)" "2 * (unit * m) \<le> 2 * (10 * n) + unit"
    using round_half_even_bounds [of "1024 ^ k" "10 * n"] unfolding m_def unit_def by simp_all
  then have "2 * \<bar>10 * n - unit * m\<bar> \<le> unit" by (rule near_abs)
  moreover have "format_bytes n
      = digits_of (nat (m div 10)) @ [46] @ digits_of (nat (m mod 10)) @ [32] @ byte_units ! k"
    using k(2) pos by (simp add: format_bytes_def format_small [OF assms] tenths_def m_def)
  moreover have "k = 4 \<or> n < 1024 ^ Suc k" using k(1,3) by linarith
  ultimately have "0 < k \<and> k < 5 \<and> 1024 ^ k \<le> n \<and> (k = 4 \<or> n < 1024 ^ Suc k)
      \<and> format_bytes n = digits_of (nat (m div 10)) @ [46] @ digits_of (nat (m mod 10)) @ [32] @ byte_units ! k
      \<and> 2 * \<bar>10 * n - m * 1024 ^ k\<bar> \<le> 1024 ^ k"
    using pos k(1,4) unfolding unit_def by (simp only: mult.commute [of m] simp_thms)
  then show ?thesis unfolding if_not_P [OF False] by blast
qed

theorem size_label_accurate_witness:
  "\<exists>m. format_bytes 1536 = digits_of (nat (m div 10)) @ [46] @ digits_of (nat (m mod 10)) @ [32] @ byte_units ! 1"
proof -
  have "k = 1" if "(1024::int) ^ k \<le> 1536" "0 < k" for k :: nat
  proof (rule ccontr)
    assume "k \<noteq> 1"
    then have "(1024::int) ^ 2 \<le> 1024 ^ k" using that(2) by (intro power_increasing) simp_all
    then show False using that(1) by simp
  qed
  then show ?thesis using size_label_accurate [of 1536] by auto
qed

section \<open>What the pages get wrong\<close>

text \<open>A size just below a unit is rounded up to 1024.0 of the smaller one.\<close>

lemma size_label_rounds_past_unit: "format_bytes 1048575 = py ''1024.0 '' @ byte_units ! 1"
  by code_simp

text \<open>With a tag filter the search looks only at the filtering tag: the software tagged
  \<open>foo\<close> and \<open>bar\<close> is found by the text \<open>foo\<close> and by the tag \<open>bar\<close>, but not by both.\<close>

definition tagged_db :: database where
  "tagged_db = shop_db\<lparr>db_tags := [\<lparr>tag_id = 1, tag_name = py ''foo'', tag_slug = py ''foo''\<rparr>,
     \<lparr>tag_id = 2, tag_name = py ''bar'', tag_slug = py ''bar''\<rparr>], db_software_tags := [(1, 1), (1, 2)]\<rparr>"

lemma tag_filter_hides_tag_match:
  "length (software_rows demo_engine (public_filters\<lparr>sf_query := Some (py ''foo'')\<rparr>) (Some (py ''foo'')) tagged_db) = 1
   \<and> length (software_rows demo_engine (public_filters\<lparr>sf_tag_slugs := [py ''bar'']\<rparr>) None tagged_db) = 1
   \<and> software_rows demo_engine (public_filters\<lparr>sf_query := Some (py ''foo''), sf_tag_slugs := [py ''bar'']\<rparr>)
       (Some (py ''foo'')) tagged_db = []"
  by code_simp

text \<open>An administrator is shown links on the page of a hidden software that are refused.\<close>

lemma hidden_page_links_refused:
  "sw_status w = SoftwareHidden \<Longrightarrow> can_view_software w True \<and> \<not> can_download_file f r w True"
  by (simp add: can_view_software_def can_download_file_def)

end
