(* ===== verification/Trees.thy ===== *)
theory Trees
  imports Uploads Reconciliation
begin

text \<open>
  What the standard library does to directory trees, as far as the maintenance code uses it:
  \<open>Path.mkdir\<close>, \<open>Path.replace\<close> of a whole tree, \<open>Path.walk\<close> with a loop body that prunes,
  \<open>shutil.rmtree\<close> and \<open>shutil.copytree\<close>. Every system call inside may fail, so each can stop
  half way; \<open>fuel\<close> bounds the depth of the descent.
\<close>

section \<open>Single calls\<close>

definition sys_listdir :: "listing \<Rightarrow> path \<Rightarrow> ('z os_scheme, str list) eff" where
  "sys_listdir ls p =
     bind syscall (\<lambda>_. bind (gets os_fs) (\<lambda>f.
       case f p of
         None \<Rightarrow> throw FileNotFoundError
       | Some (Dir _) \<Rightarrow> ret (ls f p)
       | Some _ \<Rightarrow> throw OSError))"

text \<open>\<open>os.mkdir\<close>\<close>

definition sys_mkdir_new :: "path \<Rightarrow> nat \<Rightarrow> ('z os_scheme, unit) eff" where
  "sys_mkdir_new p m =
     bind syscall (\<lambda>_. bind (gets os_fs) (\<lambda>f.
       if f p \<noteq> None then throw FileExistsError
       else
         (case f (butlast p) of
            None \<Rightarrow> throw FileNotFoundError
          | Some (Dir _) \<Rightarrow> modify (\<lambda>s. s\<lparr>os_fs := (os_fs s)(p \<mapsto> Dir m)\<rparr>)
          | Some _ \<Rightarrow> throw OSError)))"

definition default_directory_mode :: nat where
  "default_directory_mode = 493"

text \<open>
  \<open>Path.mkdir\<close>: a missing parent is made first when \<open>parents\<close> is set; any other failure is
  forgiven when \<open>exist_ok\<close> is set and a directory is there.
\<close>

function path_mkdir :: "bool \<Rightarrow> bool \<Rightarrow> nat \<Rightarrow> path \<Rightarrow> ('z os_scheme, unit) eff" where
  "path_mkdir parents exist_ok m p =
     try_catch (sys_mkdir_new p m) (\<lambda>e.
       if e = FileNotFoundError then
         (if \<not> parents \<or> p = [] then throw e
          else bind (path_mkdir True True default_directory_mode (butlast p)) (\<lambda>_.
            path_mkdir False exist_ok m p))
       else if is_os_error e then
         bind (gets os_fs) (\<lambda>f. if exist_ok \<and> is_dir f p then ret () else throw e)
       else throw e)"
  by pat_completeness auto
termination
  by (relation "measures [\<lambda>(parents, exist_ok, m, p). length p,
      \<lambda>(parents, exist_ok, m, p). if parents then 1 else 0]") auto

declare path_mkdir.simps [simp del]

text \<open>
  \<open>rename(2)\<close>: everything at or below the source moves. An existing destination is replaced
  when it is no directory and the source neither, or an empty directory and the source a
  directory; a directory cannot move below itself.
\<close>

definition move_tree :: "path \<Rightarrow> path \<Rightarrow> fs \<Rightarrow> fs" where
  "move_tree src dst f = (\<lambda>p.
     if starts_with dst p then f (src @ drop (length dst) p)
     else if starts_with src p then None else f p)"

definition replaceable :: "listing \<Rightarrow> fs \<Rightarrow> path \<Rightarrow> path \<Rightarrow> bool" where
  "replaceable ls f src dst =
     (case f dst of
        None \<Rightarrow> True
      | Some (Dir _) \<Rightarrow> is_real_dir f src \<and> ls f dst = []
      | Some _ \<Rightarrow> \<not> is_real_dir f src)"

definition sys_rename :: "listing \<Rightarrow> path \<Rightarrow> path \<Rightarrow> ('z os_scheme, unit) eff" where
  "sys_rename ls src dst =
     bind syscall (\<lambda>_. bind (gets os_fs) (\<lambda>f.
       if f src = None \<or> f (butlast dst) = None then throw FileNotFoundError
       else if src = dst then ret ()
       else if starts_with src dst \<or> \<not> is_real_dir f (butlast dst) \<or> \<not> replaceable ls f src dst
       then throw OSError
       else modify (\<lambda>s. s\<lparr>os_fs := move_tree src dst (os_fs s)\<rparr>)))"

definition sys_rmdir :: "listing \<Rightarrow> path \<Rightarrow> ('z os_scheme, unit) eff" where
  "sys_rmdir ls p =
     bind syscall (\<lambda>_. bind (gets os_fs) (\<lambda>f.
       case f p of
         None \<Rightarrow> throw FileNotFoundError
       | Some (Dir _) \<Rightarrow>
           if ls f p \<noteq> [] then throw OSError
           else modify (\<lambda>s. s\<lparr>os_fs := (os_fs s)(p := None)\<rparr>)
       | Some _ \<Rightarrow> throw OSError))"

section \<open>Removing a tree\<close>

text \<open>
  \<open>onexc\<close> of \<open>shutil.rmtree\<close>: with \<open>ignore_errors\<close> nothing is reported; an entry that is
  already gone is never reported, except the root.
\<close>

definition reported :: "bool \<Rightarrow> bool \<Rightarrow> 'a \<Rightarrow> ('s, 'a) eff \<Rightarrow> ('s, 'a) eff" where
  "reported ignore root otherwise m =
     try_catch m (\<lambda>e. if is_os_error e \<and> (ignore \<or> e = FileNotFoundError \<and> \<not> root)
       then ret otherwise else throw e)"

fun remove_tree :: "listing \<Rightarrow> bool \<Rightarrow> nat \<Rightarrow> bool \<Rightarrow> path \<Rightarrow> ('z os_scheme, unit) eff" where
  "remove_tree ls ignore 0 root p = ret ()"
| "remove_tree ls ignore (Suc fuel) root p =
     bind (reported ignore root False
             (bind (sys_lstat p) (\<lambda>node. case node of Dir _ \<Rightarrow> ret True | _ \<Rightarrow> throw OSError))) (\<lambda>opened.
     if \<not> opened then ret ()
     else
       bind (reported ignore root [] (sys_listdir ls p)) (\<lambda>names.
       bind (gets os_fs) (\<lambda>f.
       bind (for_each (filter (\<lambda>c. \<not> is_real_dir f (p @ [c])) names) (\<lambda>c.
               reported ignore False () (sys_unlink (p @ [c])))) (\<lambda>_.
       bind (for_each (rev (filter (\<lambda>c. is_real_dir f (p @ [c])) names)) (\<lambda>c.
               remove_tree ls ignore fuel False (p @ [c]))) (\<lambda>_.
       reported ignore root () (sys_rmdir ls p))))))"

definition rmtree :: "listing \<Rightarrow> nat \<Rightarrow> bool \<Rightarrow> path \<Rightarrow> ('z os_scheme, unit) eff" where
  "rmtree ls fuel ignore_errors p = remove_tree ls ignore_errors fuel True p"

section \<open>Copying a tree\<close>

definition set_mtime :: "int \<Rightarrow> node \<Rightarrow> node" where
  "set_mtime t n = (case n of File b m _ \<Rightarrow> File b m t | _ \<Rightarrow> n)"

fun node_mode :: "node \<Rightarrow> nat" where
  "node_mode (Dir m) = m"
| "node_mode (File _ m _) = m"
| "node_mode (Link _ _) = 511"

text \<open>\<open>shutil.copystat\<close>: the times, then the permission bits.\<close>

definition sys_utime :: "path \<Rightarrow> int \<Rightarrow> ('z os_scheme, unit) eff" where
  "sys_utime p t =
     bind syscall (\<lambda>_. bind (gets os_fs) (\<lambda>f.
       case f p of None \<Rightarrow> throw FileNotFoundError
       | Some n \<Rightarrow> modify (\<lambda>s. s\<lparr>os_fs := (os_fs s)(p \<mapsto> set_mtime t n)\<rparr>)))"

definition copystat :: "path \<Rightarrow> path \<Rightarrow> ('z os_scheme, unit) eff" where
  "copystat src dst =
     bind (sys_lstat src) (\<lambda>node.
     bind (sys_utime dst (case node of File _ _ t \<Rightarrow> t | _ \<Rightarrow> 0)) (\<lambda>_.
     sys_chmod dst (node_mode node)))"

text \<open>\<open>open(p, "wb")\<close>\<close>

definition sys_open_write :: "path \<Rightarrow> nat \<Rightarrow> ('z os_scheme, unit) eff" where
  "sys_open_write p m =
     bind syscall (\<lambda>_. bind (gets os_fs) (\<lambda>f.
       case f p of
         Some (File _ m' _) \<Rightarrow> modify (\<lambda>s. s\<lparr>os_fs := (os_fs s)(p \<mapsto> File [] m' (os_now s))\<rparr>)
       | Some _ \<Rightarrow> throw OSError
       | None \<Rightarrow>
           (case f (butlast p) of
              None \<Rightarrow> throw FileNotFoundError
            | Some (Dir _) \<Rightarrow> modify (\<lambda>s. s\<lparr>os_fs := (os_fs s)(p \<mapsto> File [] m (os_now s))\<rparr>)
            | Some _ \<Rightarrow> throw OSError)))"

definition default_file_mode :: nat where
  "default_file_mode = 420"

text \<open>\<open>shutil.copy2\<close> to a path that names no directory.\<close>

definition copy2 :: "(nat \<Rightarrow> nat \<Rightarrow> nat) \<Rightarrow> path \<Rightarrow> path \<Rightarrow> ('z os_scheme, unit) eff" where
  "copy2 wr src dst =
     bind (sys_read src) (\<lambda>content.
     bind (sys_open_write dst default_file_mode) (\<lambda>_.
     bind (write_all wr dst content) (\<lambda>_.
     copystat src dst)))"

text \<open>
  \<open>shutil.copytree(src, dst, symlinks=False)\<close>: links are followed; an \<open>OSError\<close> of one entry is
  remembered and raised at the end; the recursion limit raises a subclass of \<open>RuntimeError\<close>.
\<close>

definition remembered :: "bool \<Rightarrow> ('s, unit) eff \<Rightarrow> ('s, bool) eff" where
  "remembered errors m =
     try_catch (bind m (\<lambda>_. ret errors)) (\<lambda>e. if is_os_error e then ret True else throw e)"

fun copytree ::
  "listing \<Rightarrow> (nat \<Rightarrow> nat \<Rightarrow> nat) \<Rightarrow> nat \<Rightarrow> path \<Rightarrow> path \<Rightarrow> ('z os_scheme, unit) eff" where
  "copytree ls wr 0 src dst = throw RuntimeError"
| "copytree ls wr (Suc fuel) src dst =
     bind (sys_listdir ls src) (\<lambda>names.
     bind (path_mkdir True False default_directory_mode dst) (\<lambda>_.
     bind (fold_eff (\<lambda>name errors.
             bind (gets os_fs) (\<lambda>f.
               let entry = (if is_symlink f (src @ [name])
                            then resolve True f (src @ [name]) else Some (src @ [name])) in
               remembered errors
                 (case entry of
                    None \<Rightarrow> throw FileNotFoundError
                  | Some q \<Rightarrow> if is_real_dir f q then copytree ls wr fuel q (dst @ [name])
                              else copy2 wr q (dst @ [name])))) names False) (\<lambda>errors.
     bind (remembered errors (copystat src dst)) (\<lambda>errors.
     raise_if errors OSError))))"

section \<open>Walking with a loop body\<close>

text \<open>
  \<open>for current, directory_names, file_names in root.walk(follow_symlinks=False)\<close>: the body sees
  a directory before its subdirectories, may drop some of them, and may raise. A directory that
  cannot be listed is skipped without a word, as \<open>Path.walk\<close> does by default.
\<close>

fun walk_each ::
  "listing \<Rightarrow> nat \<Rightarrow> (path \<Rightarrow> str list \<Rightarrow> str list \<Rightarrow> 'a \<Rightarrow> (str list \<times> 'a) svc) \<Rightarrow> path \<Rightarrow> 'a \<Rightarrow> 'a svc" where
  "walk_each ls 0 body current acc = ret acc"
| "walk_each ls (Suc fuel) body current acc =
     bind (list_directory ls current) (\<lambda>listed.
       case listed of
         None \<Rightarrow> ret acc
       | Some (names, f) \<Rightarrow>
           bind (body current (filter (\<lambda>n. is_real_dir f (current @ [n])) names)
                   (filter (\<lambda>n. \<not> is_real_dir f (current @ [n])) names) acc) (\<lambda>(descend, acc).
             fold_eff (\<lambda>name. walk_each ls fuel body (current @ [name])) descend acc))"

end
