(* ===== verification/Maintenance.thy ===== *)
theory Maintenance
  imports Trees
begin

text \<open>
  \<open>app/storage/manager.py\<close>, \<open>app/storage/cleanup.py\<close> and \<open>ensure_private_directory\<close> of
  \<open>app/storage/paths.py\<close>: the creation and probing of the managed directories at start-up and
  the removal of stale temporary uploads. \<open>pid\<close> is the number of the process.
\<close>

section \<open>Private directories\<close>

definition probe_prefix :: str where
  "probe_prefix = py ''.software-hub-write-probe-''"

definition probe_writable :: "(nat \<Rightarrow> nat \<Rightarrow> nat) \<Rightarrow> nat \<Rightarrow> path \<Rightarrow> ('z os_scheme, unit) eff" where
  "probe_writable wr pid directory =
     bind fresh_uuid_hex (\<lambda>token.
       let probe = directory @ [probe_prefix @ digits_of pid @ [45] @ take 16 token] in
       finally_do
         (os_error_as StorageError
           (bind (sys_create probe 384) (\<lambda>_.
            bind (sys_write wr probe [0x6F, 0x6B]) (\<lambda>_.
            sys_fsync probe))))
         (safe_unlink probe))"

definition reject_symlink_components :: "path \<Rightarrow> ('z os_scheme, unit) eff" where
  "reject_symlink_components p =
     for_each (prefixes_from [] p) (\<lambda>current.
       bind (gets os_fs) (\<lambda>f. raise_if (is_symlink f current) StorageError))"

definition require_directory_node :: "node \<Rightarrow> ('z os_scheme, unit) eff" where
  "require_directory_node n = (case n of Dir _ \<Rightarrow> ret () | _ \<Rightarrow> throw StorageError)"

definition ensure_private_directory ::
  "(nat \<Rightarrow> nat \<Rightarrow> nat) \<Rightarrow> nat \<Rightarrow> path \<Rightarrow> ('z os_scheme, path) eff" where
  "ensure_private_directory wr pid p =
     bind (reject_symlink_components p) (\<lambda>_.
     bind (gets os_fs) (\<lambda>f.
     bind (if path_exists f p \<or> is_symlink f p
           then bind (os_error_as StorageError (sys_lstat p)) require_directory_node else ret ()) (\<lambda>_.
     bind (os_error_as StorageError
             (bind (path_mkdir True True storage_directory_mode p) (\<lambda>_. sys_lstat p))) (\<lambda>metadata.
     bind (require_directory_node metadata) (\<lambda>_.
     bind (os_error_as StorageError (sys_chmod p storage_directory_mode)) (\<lambda>_.
     bind (probe_writable wr pid p) (\<lambda>_.
     sys_resolve True p)))))))"

section \<open>The storage manager\<close>

definition storage_paths_of :: "path \<Rightarrow> path \<Rightarrow> path \<Rightarrow> path \<Rightarrow> path \<Rightarrow> storage_paths" where
  "storage_paths_of storage_root icons_root temporary_root quarantine_root backup_root =
     \<lparr>sp_root = storage_root, sp_software = storage_root @ [py ''software''], sp_icons = icons_root,
      sp_imports = storage_root @ [py ''import''], sp_temporary = temporary_root,
      sp_quarantine = quarantine_root, sp_backups = backup_root\<rparr>"

definition required_directories :: "storage_paths \<Rightarrow> path list" where
  "required_directories paths = [sp_root paths, sp_software paths, sp_icons paths, sp_imports paths,
     sp_temporary paths, sp_quarantine paths, sp_backups paths]"

definition initialize_storage ::
  "(nat \<Rightarrow> nat \<Rightarrow> nat) \<Rightarrow> nat \<Rightarrow> storage_paths \<Rightarrow> int \<Rightarrow> ('z os_scheme, disk_space) eff" where
  "initialize_storage wr pid paths minimum_free_bytes =
     bind (for_each (required_directories paths)
             (\<lambda>directory. discard (ensure_private_directory wr pid directory))) (\<lambda>_.
     ensure_free_space (sp_root paths) 0 minimum_free_bytes)"

section \<open>Stale temporary uploads\<close>

record cleanup_report =
  cl_examined :: nat
  cl_eligible :: nat
  cl_deleted :: nat
  cl_reclaimed_bytes :: int
  cl_skipped :: nat
  cl_errors :: nat

definition empty_cleanup :: cleanup_report where
  "empty_cleanup = \<lparr>cl_examined = 0, cl_eligible = 0, cl_deleted = 0, cl_reclaimed_bytes = 0,
     cl_skipped = 0, cl_errors = 0\<rparr>"

definition attempted :: "('s, 'a) eff \<Rightarrow> ('s, exn + 'a) eff" where
  "attempted m = try_catch (bind m (\<lambda>x. ret (Inr x)))
     (\<lambda>e. if is_os_error e then ret (Inl e) else throw e)"

definition cleanup_failed :: "exn \<Rightarrow> cleanup_report \<Rightarrow> cleanup_report" where
  "cleanup_failed e r =
     (if e = FileNotFoundError then r\<lparr>cl_skipped := cl_skipped r + 1\<rparr>
      else r\<lparr>cl_errors := cl_errors r + 1\<rparr>)"

definition stale_upload :: "int \<Rightarrow> str \<Rightarrow> node \<Rightarrow> bool" where
  "stale_upload cutoff name n =
     (case n of File _ _ t \<Rightarrow> is_temporary_filename name \<and> t \<le> cutoff | _ \<Rightarrow> False)"

definition cleanup_entry ::
  "bool \<Rightarrow> int \<Rightarrow> path \<Rightarrow> str \<Rightarrow> cleanup_report \<Rightarrow> ('z os_scheme, cleanup_report) eff" where
  "cleanup_entry dry_run cutoff current name r =
     (let r = r\<lparr>cl_examined := cl_examined r + 1\<rparr>; candidate = current @ [name] in
      bind (attempted (sys_lstat candidate)) (\<lambda>looked_up.
        case looked_up of
          Inl e \<Rightarrow> ret (cleanup_failed e r)
        | Inr metadata \<Rightarrow>
            if \<not> stale_upload cutoff name metadata then ret (r\<lparr>cl_skipped := cl_skipped r + 1\<rparr>)
            else
              let r = r\<lparr>cl_eligible := cl_eligible r + 1\<rparr> in
              if dry_run then ret r
              else
                bind (attempted (sys_unlink candidate)) (\<lambda>unlinked.
                  case unlinked of
                    Inl e \<Rightarrow> ret (cleanup_failed e r)
                  | Inr _ \<Rightarrow> ret (r\<lparr>cl_deleted := cl_deleted r + 1,
                      cl_reclaimed_bytes := cl_reclaimed_bytes r + node_size metadata\<rparr>))))"

definition cleanup_directory ::
  "bool \<Rightarrow> int \<Rightarrow> path \<Rightarrow> str list \<Rightarrow> str list \<Rightarrow> cleanup_report \<Rightarrow> (str list \<times> cleanup_report) svc" where
  "cleanup_directory dry_run cutoff current directory_names file_names r =
     bind (gets os_fs) (\<lambda>f.
     bind (fold_eff (cleanup_entry dry_run cutoff current) file_names r) (\<lambda>r.
       ret (filter (\<lambda>name. \<not> is_symlink f (current @ [name])) directory_names, r)))"

text \<open>Ages are compared in microseconds; \<open>max_age_seconds\<close> is an integer of the settings.\<close>

definition cleanup_temporary_files ::
  "listing \<Rightarrow> nat \<Rightarrow> path \<Rightarrow> int \<Rightarrow> bool \<Rightarrow> int option \<Rightarrow> cleanup_report svc" where
  "cleanup_temporary_files ls fuel temporary_root max_age_seconds dry_run now_timestamp =
     bind (raise_if (max_age_seconds \<le> 0) ValueError) (\<lambda>_.
     bind (gets os_fs) (\<lambda>f.
     bind (raise_if (is_symlink f temporary_root) StorageError) (\<lambda>_.
     bind (os_error_as StorageError (sys_resolve True temporary_root)) (\<lambda>root.
     bind (gets os_fs) (\<lambda>f.
     bind (raise_if (\<not> is_dir f root) StorageError) (\<lambda>_.
     bind utc_now (\<lambda>now.
       walk_each ls fuel
         (cleanup_directory dry_run
            ((case now_timestamp of Some t \<Rightarrow> t | None \<Rightarrow> now) - max_age_seconds * 1000000))
         root empty_cleanup)))))))"

definition cleanup_temporary ::
  "listing \<Rightarrow> nat \<Rightarrow> storage_paths \<Rightarrow> int \<Rightarrow> bool \<Rightarrow> cleanup_report svc" where
  "cleanup_temporary ls fuel paths temporary_file_max_age_seconds dry_run =
     cleanup_temporary_files ls fuel (sp_temporary paths) temporary_file_max_age_seconds dry_run None"

end
