(* ===== verification/TreeSpecs.thy ===== *)
theory TreeSpecs
  imports Maintenance UploadSpecs ReconciliationSpecs
begin

text \<open>
  What the tree operations do: a frame, \<open>confined\<close>, that holds whatever fails, and exact
  results while the operating system works. The locale \<open>effect_order\<close> carries a reflexive and
  transitive relation between the states before and after through every combinator.
\<close>

section \<open>Relations that effects respect\<close>

definition obeys :: "('s \<Rightarrow> 's \<Rightarrow> bool) \<Rightarrow> ('s, 'a) eff \<Rightarrow> bool" where
  "obeys R m \<longleftrightarrow> (\<forall>s. wp m (\<lambda>_. R s) (\<lambda>_. R s) s)"

lemma obeysI: "(\<And>s. wp m (\<lambda>_. R s) (\<lambda>_. R s) s) \<Longrightarrow> obeys R m"
  by (simp add: obeys_def)

lemma obeysD: "obeys R m \<Longrightarrow> wp m (\<lambda>_. R s) (\<lambda>_. R s) s"
  by (simp add: obeys_def)

lemma obeys_run: "obeys R m \<Longrightarrow> m s = (r, t) \<Longrightarrow> R s t"
  by (cases r) (auto dest!: obeysD [of R m s] simp: wp_iff_run)

lemma obeys_mono:
  assumes "obeys R m" and "\<And>s t. R s t \<Longrightarrow> R' s t"
  shows "obeys R' m"
  by (rule obeysI, rule wp_mono [OF obeysD [OF assms(1)]]) (rule assms(2), assumption)+

locale effect_order =
  fixes R :: "'s \<Rightarrow> 's \<Rightarrow> bool"
  assumes refl: "R s s" and trans: "R s t \<Longrightarrow> R t u \<Longrightarrow> R s u"
begin

lemma basic [intro, simp]:
  "obeys R (ret x)" "obeys R (throw e)" "obeys R (gets f)" "obeys R (lift_result r)"
  "obeys R (raise_if b e)"
  by (auto simp: obeys_def wp_simps refl split: sum.splits)

lemma after:
  assumes "obeys R m" and "R s t"
  shows "wp m (\<lambda>_. R s) (\<lambda>_. R s) t"
  by (rule wp_mono [OF obeysD [OF assms(1)]]) (auto intro: trans assms(2))

lemma bind [intro]:
  assumes "obeys R m" and "\<And>x. obeys R (f x)"
  shows "obeys R (bind m f)"
  by (rule obeysI, rule wp_bind_spec [OF obeysD [OF assms(1)]]) (auto intro: after assms(2))

lemma try_catch [intro]:
  assumes "obeys R m" and "\<And>e. obeys R (h e)"
  shows "obeys R (try_catch m h)"
  by (rule obeysI, rule wp_try_spec [OF obeysD [OF assms(1)]]) (auto intro: after assms(2))

lemma finally_do [intro]:
  assumes "obeys R m" and "obeys R f"
  shows "obeys R (finally_do m f)"
  by (rule obeysI, unfold wp_finally_do, rule wp_mono [OF obeysD [OF assms(1)]])
    (auto intro: after assms(2))

lemma os_error_as [intro]: "obeys R m \<Longrightarrow> obeys R (os_error_as e m)"
  by (rule obeysI, unfold wp_os_error_as, rule obeysD)

lemma discard [intro]: "obeys R m \<Longrightarrow> obeys R (discard m)"
  by (rule obeysI, unfold wp_discard, rule obeysD)

lemma for_each [intro]: "(\<And>x. obeys R (f x)) \<Longrightarrow> obeys R (for_each xs f)"
  by (induction xs) auto

lemma fold_eff [intro]: "(\<And>x acc. obeys R (f x acc)) \<Longrightarrow> obeys R (fold_eff f xs acc)"
  by (induction xs arbitrary: acc) auto

lemma attempted [intro]: "obeys R m \<Longrightarrow> obeys R (attempted m)"
  unfolding attempted_def by (auto intro!: try_catch bind)

lemma reported [intro]: "obeys R m \<Longrightarrow> obeys R (reported ignore root x m)"
  unfolding reported_def by (auto intro!: try_catch)

lemma remembered [intro]: "obeys R m \<Longrightarrow> obeys R (remembered errors m)"
  unfolding remembered_def by (auto intro!: try_catch bind)

lemma branches [intro]:
  "(b \<Longrightarrow> obeys R m) \<Longrightarrow> (\<not> b \<Longrightarrow> obeys R n) \<Longrightarrow> obeys R (if b then m else n)"
  "obeys R m \<Longrightarrow> (\<And>y. obeys R (g y)) \<Longrightarrow> obeys R (case x of None \<Rightarrow> m | Some y \<Rightarrow> g y)"
  "(\<And>e. obeys R (h e)) \<Longrightarrow> (\<And>y. obeys R (g y)) \<Longrightarrow> obeys R (case r of Inl e \<Rightarrow> h e | Inr y \<Rightarrow> g y)"
  "(\<And>a b. obeys R (k a b)) \<Longrightarrow> obeys R (case q of (a, b) \<Rightarrow> k a b)"
  by (simp_all split: option.splits sum.splits prod.splits)

text \<open>A statement keeps what it finds, and ends in its own postcondition as well.\<close>

lemma with_result:
  assumes "obeys R m" and "wp m Q E s"
  shows "wp m (\<lambda>x t. Q x t \<and> R s t) (\<lambda>e t. E e t \<and> R s t) s"
  using wp_conj [OF assms(2) obeysD [OF assms(1)]] .

end

interpretation lo: effect_order looked
  by unfold_locales (auto intro: looked_trans)

lemma obeys_looking:
  "obeys looked syscall" "obeys looked (sys_resolve strict p)" "obeys looked (sys_lstat p)"
  "obeys looked (sys_read p)" "obeys looked (sys_fsync p)" "obeys looked (sys_listdir ls p)"
  by (auto simp: obeys_def wp_simps sys_listdir_def sys_resolve_def sys_lstat_def sys_read_def
      sys_fsync_def split: option.splits node.splits)

section \<open>The frame\<close>

definition under :: "path set \<Rightarrow> path \<Rightarrow> bool" where
  "under A p \<longleftrightarrow> (\<exists>r \<in> A. starts_with r p)"

text \<open>
  Outside the trees \<open>A\<close> an entry stays, or a directory in \<open>C\<close> changes its mode, or a
  directory is made on the way to one of \<open>A\<close> or \<open>C\<close>.
\<close>

definition same_entry :: "path set \<Rightarrow> path set \<Rightarrow> fs \<Rightarrow> fs \<Rightarrow> path \<Rightarrow> bool" where
  "same_entry A C f g p \<longleftrightarrow> g p = f p
     \<or> is_real_dir g p \<and> (f p = None \<and> (\<exists>r \<in> A \<union> C. starts_with p r) \<or> is_real_dir f p \<and> p \<in> C)"

definition confined :: "path set \<Rightarrow> path set \<Rightarrow> 'z os_scheme \<Rightarrow> 'z os_scheme \<Rightarrow> bool" where
  "confined A C s t \<longleftrightarrow> fs_frame s t \<and> os_tick s \<le> os_tick t \<and> os_uuid_next s \<le> os_uuid_next t
     \<and> (\<forall>p. \<not> under A p \<longrightarrow> same_entry A C (os_fs s) (os_fs t) p)"

lemma same_entry_refl [simp]: "same_entry A C f f p"
  by (simp add: same_entry_def)

lemma same_entry_trans: "same_entry A C f g p \<Longrightarrow> same_entry A C g h p \<Longrightarrow> same_entry A C f h p"
  unfolding same_entry_def is_real_dir_def by (auto split: option.splits)

interpretation cf: effect_order "confined A C" for A C :: "path set"
  by unfold_locales (auto simp: confined_def intro: fs_frame_trans same_entry_trans)

lemma confined_tick [simp]: "confined A C s (s\<lparr>os_tick := Suc (os_tick s)\<rparr>)"
  by (simp add: confined_def)

lemma starts_with_linear: "starts_with p r \<Longrightarrow> starts_with b r \<Longrightarrow> starts_with p b \<or> starts_with b p"
  by (auto simp: starts_with_iff append_eq_append_conv2)

lemma confined_mono:
  assumes "confined A C s t" and "\<And>p. p \<in> A \<Longrightarrow> under B p"
  shows "confined B C s t"
proof -
  have "under B p" if "under A p" for p using that assms(2) unfolding under_def starts_with_iff by fastforce
  moreover have "under B p \<or> same_entry B C f g p" if "same_entry A C f g p" for f g p
  proof (cases "is_real_dir g p \<and> f p = None \<and> (\<exists>r \<in> A. starts_with p r)")
    case True
    then obtain r where "r \<in> A" "starts_with p r" by blast
    then obtain b where "b \<in> B" "starts_with b r" using assms(2) by (auto simp: under_def)
    then have "starts_with p b \<or> starts_with b p" using \<open>starts_with p r\<close> by (rule_tac starts_with_linear)
    then show ?thesis using \<open>b \<in> B\<close> True by (auto simp: under_def same_entry_def)
  next
    case False
    then show ?thesis using that by (auto simp: same_entry_def)
  qed
  ultimately show ?thesis using assms(1) unfolding confined_def by blast
qed

lemma cf_looking:
  "obeys (confined A C) syscall" "obeys (confined A C) (sys_resolve strict p)"
  "obeys (confined A C) (sys_lstat p)" "obeys (confined A C) (sys_read p)"
  "obeys (confined A C) (sys_fsync p)" "obeys (confined A C) (sys_listdir ls p)"
  "obeys (confined A C) fresh_uuid_hex" "obeys (confined A C) utc_now"
  by (auto simp: obeys_def wp_simps sys_listdir_def sys_resolve_def sys_lstat_def confined_def
      sys_read_def sys_fsync_def split: option.splits node.splits)

text \<open>One entry at a place the frame allows.\<close>

lemma confined_upd:
  assumes "under A p"
  shows "confined A C s (s\<lparr>os_tick := Suc (os_tick s), os_fs := (os_fs s)(p := n)\<rparr>)"
  using assms by (auto simp: confined_def same_entry_def)

lemma cf_changing:
  assumes "under A p"
  shows "obeys (confined A C) (sys_unlink p)" "obeys (confined A C) (sys_chmod p m)"
    "obeys (confined A C) (sys_create p m)" "obeys (confined A C) (sys_write wr p view)"
    "obeys (confined A C) (sys_open_write p m)" "obeys (confined A C) (sys_utime p time)"
    "obeys (confined A C) (sys_rmdir ls p)"
  using assms
  by (auto simp: obeys_def wp_simps sys_unlink_def sys_chmod_def sys_create_def sys_write_def Let_def
      sys_open_write_def sys_utime_def sys_rmdir_def confined_upd split: option.splits node.splits)

lemma under_mono: "under A p \<Longrightarrow> starts_with p q \<Longrightarrow> under A q"
  unfolding under_def starts_with_iff by fastforce

lemma under_root: "r \<in> A \<Longrightarrow> under A r"
  by (auto simp: under_def starts_with_iff)

lemma under_child: "under A p \<Longrightarrow> under A (p @ q)"
  by (erule under_mono) simp

lemma cf_write_all: "under A p \<Longrightarrow> obeys (confined A C) (write_all wr p view)"
proof (induction wr p view rule: write_all.induct)
  case (1 wr p view)
  show ?case
    using 1 by (subst write_all.simps) (intro cf.branches cf.bind cf_changing, auto)
qed

lemma cf_unlink_missing: "under A p \<Longrightarrow> obeys (confined A C) (unlink_missing_ok p)"
  unfolding unlink_missing_ok_def by (intro cf.try_catch cf_changing cf.branches cf.basic)

text \<open>Making a directory on the way to an allowed place, or there.\<close>

definition on_way :: "path set \<Rightarrow> path set \<Rightarrow> path \<Rightarrow> bool" where
  "on_way A C p \<longleftrightarrow> under A p \<or> (\<exists>r \<in> A \<union> C. starts_with p r)"

lemma starts_with_butlast: "starts_with p r \<Longrightarrow> starts_with (butlast p) r"
  by (cases p rule: rev_cases) (auto simp: starts_with_iff)

lemma on_way_butlast:
  assumes "on_way A C p"
  shows "on_way A C (butlast p)"
proof (cases "\<exists>r \<in> A \<union> C. starts_with p r")
  case True
  then show ?thesis using starts_with_butlast by (fastforce simp: on_way_def)
next
  case False
  then obtain r t where r: "r \<in> A" "p = r @ t"
    using assms by (auto simp: on_way_def under_def starts_with_iff)
  have "starts_with r r" by (simp add: starts_with_iff)
  then have "t \<noteq> []" using False r by auto
  then have "butlast p = r @ butlast t" using r(2) by (simp add: butlast_append)
  then show ?thesis using r(1) by (auto simp: on_way_def under_def intro!: bexI [of _ r])
qed

lemma on_way_self: "p \<in> A \<union> C \<Longrightarrow> on_way A C p"
  by (auto simp: on_way_def starts_with_iff)

lemma cf_mkdir_new: "on_way A C p \<Longrightarrow> obeys (confined A C) (sys_mkdir_new p m)"
  by (auto simp: obeys_def wp_simps sys_mkdir_new_def confined_def same_entry_def is_real_dir_def on_way_def
      split: option.splits node.splits)

lemma cf_path_mkdir: "on_way A C p \<Longrightarrow> obeys (confined A C) (path_mkdir parents exist_ok m p)"
proof (induction parents exist_ok m p rule: path_mkdir.induct)
  case (1 parents exist_ok m p)
  show ?case
    using 1 by (subst path_mkdir.simps)
      (intro cf.branches cf.bind cf.try_catch cf_mkdir_new cf.basic, auto dest: on_way_butlast)
qed

section \<open>Trees\<close>

lemma cf_rename:
  assumes "under A src" and "under A dst"
  shows "obeys (confined A C) (sys_rename ls src dst)"
proof -
  have "same_entry A C f (move_tree src dst f) p" if "\<not> under A p" for f p
  proof -
    have "\<not> starts_with src p" "\<not> starts_with dst p" using assms that by (auto dest: under_mono)
    then show ?thesis by (simp add: same_entry_def move_tree_def)
  qed
  then show ?thesis
    by (auto simp: obeys_def wp_simps sys_rename_def confined_def)
qed

lemma cf_remove_tree: "under A p \<Longrightarrow> obeys (confined A C) (remove_tree ls ignore n root p)"
proof (induction n arbitrary: root p)
  case (Suc n)
  have sub: "under A (p @ [c])" for c using Suc.prems by (rule under_child)
  show ?case
    unfolding remove_tree.simps
    by (intro cf.branches cf.bind cf.reported cf.for_each cf_looking cf.basic cf_changing Suc sub)
      (auto split: node.splits)
qed simp

lemma cf_copystat: "under A dst \<Longrightarrow> obeys (confined A C) (copystat src dst)"
  unfolding copystat_def by (intro cf.bind cf_looking cf_changing)

lemma cf_copy2: "under A dst \<Longrightarrow> obeys (confined A C) (copy2 wr src dst)"
  unfolding copy2_def by (intro cf.bind cf_looking cf_changing cf_write_all cf_copystat)

lemma cf_copytree: "under A dst \<Longrightarrow> obeys (confined A C) (copytree ls wr n src dst)"
proof (induction n arbitrary: src dst)
  case (Suc n)
  have sub: "under A (dst @ [c])" for c using Suc.prems by (rule under_child)
  have way: "on_way A C dst" using Suc.prems by (simp add: on_way_def)
  show ?case
    unfolding copytree.simps Let_def
    by (intro cf.branches cf.bind cf.remembered cf.fold_eff cf_looking cf.basic cf_path_mkdir way
        cf_copystat cf_copy2 Suc sub)
qed simp

section \<open>While the operating system works\<close>

definition calm :: "'z os_scheme \<Rightarrow> bool" where
  "calm s \<longleftrightarrow> (\<forall>n \<ge> os_tick s. \<not> os_fault s n)"

lemma calm_confined: "confined A C s t \<Longrightarrow> calm s \<Longrightarrow> calm t"
  by (auto simp: calm_def confined_def fs_frame_eqs)

lemma calm_tick: "calm s \<Longrightarrow> calm (s\<lparr>os_tick := Suc (os_tick s)\<rparr>)"
  by (simp add: calm_def)

lemma no_os_faults_calm: "no_os_faults s \<Longrightarrow> calm s"
  by (simp add: calm_def no_os_faults_def)

lemma wp_calm_syscall:
  "calm s \<Longrightarrow> wp syscall Q E s = Q () (s\<lparr>os_tick := Suc (os_tick s)\<rparr>)"
  by (simp add: wp_syscall calm_def)

text \<open>The entries of a directory, and a listing that is exact when every name is in \<open>N\<close>.\<close>

definition children :: "fs \<Rightarrow> path \<Rightarrow> str set" where
  "children f p = {c. f (p @ [c]) \<noteq> None}"

definition listing_ok :: "listing \<Rightarrow> str set \<Rightarrow> bool" where
  "listing_ok ls N \<longleftrightarrow> (\<forall>f p. children f p \<subseteq> N \<longrightarrow> distinct (ls f p) \<and> set (ls f p) = children f p)"

lemma listing_okD:
  "listing_ok ls N \<Longrightarrow> children f p \<subseteq> N \<Longrightarrow> set (ls f p) = children f p"
  "listing_ok ls N \<Longrightarrow> children f p \<subseteq> N \<Longrightarrow> distinct (ls f p)"
  by (simp_all add: listing_ok_def)

definition cut :: "path \<Rightarrow> fs \<Rightarrow> fs" where
  "cut p f = (\<lambda>q. if starts_with p q then None else f q)"

text \<open>A tree at \<open>p\<close> whose names are in \<open>N\<close> and which has at most \<open>n\<close> levels below.\<close>

definition sized :: "str set \<Rightarrow> nat \<Rightarrow> fs \<Rightarrow> path \<Rightarrow> bool" where
  "sized N n f p \<longleftrightarrow> (\<forall>q. f (p @ q) \<noteq> None \<longrightarrow> set q \<subseteq> N \<and> length q \<le> n)"

lemma sized_children: "sized N n f p \<Longrightarrow> children f p \<subseteq> N"
  unfolding sized_def children_def by (metis (mono_tags, lifting) list.set_intros(1) mem_Collect_eq subsetD subsetI)

lemma sized_child: "sized N (Suc n) f p \<Longrightarrow> sized N n f (p @ [c])"
  unfolding sized_def by (metis append.assoc append_Cons append_Nil length_Cons le_SucE insert_subset list.simps(15) Suc_le_mono)

lemma tree_ok_below:
  assumes "tree_ok f" and "f (p @ q) \<noteq> None" and "q \<noteq> []"
  shows "is_real_dir f p"
proof -
  obtain c q' where q: "q = c # q'" using assms(3) by (cases q) auto
  show ?thesis
  proof (cases q' rule: rev_cases)
    case Nil
    then show ?thesis using assms(1,2) q unfolding tree_ok_def is_real_dir_def by fastforce
  next
    case (snoc ys d)
    then have "p @ [c] \<in> set (prefixes_from p (butlast q))"
      using q by (auto simp: prefixes_from_iff butlast_append intro!: exI [of _ "[c]"])
    then obtain m where "f (p @ [c]) = Some (Dir m)" using parents_are_dirs [OF assms(1,2)] by blast
    then have "f (p @ [c]) \<noteq> None" by simp
    then show ?thesis using assms(1) unfolding tree_ok_def is_real_dir_def by fastforce
  qed
qed

lemma tree_ok_cut:
  assumes "tree_ok f" shows "tree_ok (cut p f)"
  unfolding tree_ok_def
proof (intro allI impI)
  fix q c assume q: "cut p f (q @ [c]) \<noteq> None"
  then have n: "\<not> starts_with p (q @ [c])" "f (q @ [c]) \<noteq> None" by (auto simp: cut_def split: if_splits)
  then have "\<not> starts_with p q" by (auto simp: starts_with_iff)
  then show "\<exists>m. cut p f q = Some (Dir m)" using n(2) assms unfolding tree_ok_def cut_def by auto
qed

lemma starts_with_not_child [simp]: "\<not> starts_with (p @ [c]) p"
  by (auto simp: starts_with_iff)

lemma is_real_dir_iff: "is_real_dir f p \<longleftrightarrow> (\<exists>m. f p = Some (Dir m))"
  by (auto simp: is_real_dir_def split: option.splits node.splits)

lemma wp_unlink_loop:
  assumes "calm s" and "\<And>c. c \<in> set cs \<Longrightarrow> \<not> is_real_dir (os_fs s) (p @ [c])"
  shows "wp (for_each cs (\<lambda>c. reported True False () (sys_unlink (p @ [c]))))
     (\<lambda>_ t. os_fs t = (\<lambda>q. if \<exists>c \<in> set cs. q = p @ [c] then None else os_fs s q) \<and> confined {p} {} s t)
     (\<lambda>_ _. False) s"
  using assms
proof (induction cs arbitrary: s)
  case Nil
  then show ?case by (simp add: wp_simps cf.refl)
next
  case (Cons c cs)
  have one: "wp (reported True False () (sys_unlink (p @ [c])))
      (\<lambda>_ t. os_fs t = (os_fs s)(p @ [c] := None)) (\<lambda>_ _. False) s"
    using Cons.prems(1) Cons.prems(2) [of c]
    by (auto simp: reported_def sys_unlink_def wp_simps calm_def is_real_dir_iff fun_upd_idem
        split: option.splits node.splits)
  have "under {p} (p @ [c])" by (simp add: under_def)
  then have "obeys (confined {p} {}) (reported True False () (sys_unlink (p @ [c])))"
    by (intro cf.reported cf_changing)
  note one = cf.with_result [OF this one]
  show ?case
    unfolding for_each.simps
  proof (rule wp_bind_spec [OF one], goal_cases)
    case (1 x t)
    have "calm t" using 1 Cons.prems(1) calm_confined by blast
    then show ?case
      by (rule wp_mono [OF Cons.IH]) (use 1 Cons.prems(2) cf.trans in \<open>auto simp: is_real_dir_def\<close>)
  qed simp
qed

text \<open>Subtrees that a loop may remove, one after the other.\<close>

definition removable :: "str set \<Rightarrow> nat \<Rightarrow> fs \<Rightarrow> path \<Rightarrow> bool" where
  "removable N n f p \<longleftrightarrow> sized N n f p \<and> (f p = None \<or> is_real_dir f p)"

text \<open>Removing entries, and what is left of a directory whose entries are gone.\<close>

definition thinned :: "fs \<Rightarrow> fs \<Rightarrow> bool" where
  "thinned f g \<longleftrightarrow> (\<forall>q. g q = None \<or> g q = f q)"

lemma removable_thinned: "removable N n f p \<Longrightarrow> thinned f g \<Longrightarrow> removable N n g p"
  unfolding removable_def sized_def thinned_def is_real_dir_iff by metis

lemma removable_cut: "removable N n f p \<Longrightarrow> removable N n (cut q f) p"
  by (erule removable_thinned) (simp add: thinned_def cut_def)

lemma tree_ok_without_files:
  assumes "tree_ok f" and "thinned f g" and "\<And>q. is_real_dir f q \<Longrightarrow> g q = f q"
  shows "tree_ok g"
  using assms unfolding tree_ok_def thinned_def is_real_dir_iff by metis

lemma removed_all:
  assumes "tree_ok f" and "\<And>c. f (p @ [c]) \<noteq> None \<Longrightarrow> c \<in> D \<or> c \<in> F"
    and "\<And>c. c \<in> F \<Longrightarrow> \<not> is_real_dir f (p @ [c])"
  shows "(\<lambda>q. if \<exists>c \<in> D. starts_with (p @ [c]) q then None
      else if \<exists>c \<in> F. q = p @ [c] then None else f q)(p := None) = cut p f"
proof
  fix q
  show "((\<lambda>q. if \<exists>c \<in> D. starts_with (p @ [c]) q then None
      else if \<exists>c \<in> F. q = p @ [c] then None else f q)(p := None)) q = cut p f q"
  proof (cases "\<exists>c r. q = p @ c # r")
    case True
    then obtain c r where q: "q = p @ c # r" by blast
    have "f q = None" if "c \<notin> D" and "r \<noteq> [] \<or> c \<notin> F"
    proof (rule ccontr)
      assume n: "f q \<noteq> None"
      have "f (p @ [c]) \<noteq> None"
        using n q tree_ok_below [OF assms(1), of "p @ [c]" r] by (cases "r = []") (auto simp: is_real_dir_iff)
      then have c: "c \<in> F" using assms(2) that(1) by blast
      then have "r \<noteq> []" using that(2) by simp
      then have "is_real_dir f (p @ [c])" using tree_ok_below [OF assms(1), of "p @ [c]" r] n q by simp
      then show False using assms(3) c by blast
    qed
    moreover have "starts_with (p @ [c]) q" "starts_with p q" "q \<noteq> p" using q by (auto simp: starts_with_iff)
    ultimately show ?thesis using q by (cases "r = []") (auto simp: cut_def)
  next
    case False
    then have "\<not> starts_with (p @ [c]) q" "q \<noteq> p @ [c]" for c by (auto simp: starts_with_iff)
    moreover have "starts_with p q \<longleftrightarrow> q = p" using False by (auto simp: starts_with_iff) (metis list.exhaust)
    ultimately show ?thesis by (auto simp: cut_def)
  qed
qed

lemma wp_remove_loop:
  assumes "\<And>c t. c \<in> set cs \<Longrightarrow> calm t \<Longrightarrow> tree_ok (os_fs t) \<Longrightarrow> removable N n (os_fs t) (p @ [c]) \<Longrightarrow>
      wp (m c) (\<lambda>_ u. os_fs u = cut (p @ [c]) (os_fs t) \<and> confined {p} {} t u) (\<lambda>_ _. False) t"
    and "calm s" and "tree_ok (os_fs s)" and "\<And>c. c \<in> set cs \<Longrightarrow> removable N n (os_fs s) (p @ [c])"
  shows "wp (for_each cs m)
     (\<lambda>_ t. os_fs t = (\<lambda>q. if \<exists>c \<in> set cs. starts_with (p @ [c]) q then None else os_fs s q)
        \<and> confined {p} {} s t)
     (\<lambda>_ _. False) s"
  using assms
proof (induction cs arbitrary: s)
  case Nil
  then show ?case by (simp add: wp_simps cf.refl)
next
  case (Cons c cs)
  have "wp (m c) (\<lambda>_ t. os_fs t = cut (p @ [c]) (os_fs s) \<and> confined {p} {} s t) (\<lambda>_ _. False) s"
    using Cons.prems by simp
  then show ?case
    unfolding for_each.simps
  proof (rule wp_bind_spec, goal_cases)
    case (1 x t)
    have t: "calm t" "tree_ok (os_fs t)"
      using 1 Cons.prems(2,3) calm_confined tree_ok_cut by auto
    have "wp (for_each cs m)
       (\<lambda>_ u. os_fs u = (\<lambda>q. if \<exists>c \<in> set cs. starts_with (p @ [c]) q then None else os_fs t q)
          \<and> confined {p} {} t u) (\<lambda>_ _. False) t"
      by (rule Cons.IH [OF _ t]) (use 1 Cons.prems(1,4) removable_cut in auto)
    then show ?case
      by (rule wp_mono) (use 1 cf.trans in \<open>auto simp: cut_def\<close>)
  qed simp
qed

lemma cut_absent:
  assumes "tree_ok f" and "f p = None"
  shows "cut p f = f"
proof
  fix q
  show "cut p f q = f q"
  proof (cases "starts_with p q")
    case True
    then obtain r where r: "q = p @ r" by (auto simp: starts_with_iff)
    have "\<not> is_real_dir f p" using assms(2) by (simp add: is_real_dir_iff)
    then have "f (p @ r) = None" if "r \<noteq> []" using tree_ok_below [OF assms(1) _ that] by blast
    then have "f q = None" using assms(2) r by (cases "r = []") auto
    then show ?thesis by (simp add: cut_def)
  qed (simp add: cut_def)
qed

declare remove_tree.simps(2) [simp del]

lemma wp_open_directory:
  assumes "calm s" and "os_fs s p = Some (Dir k)"
  shows "wp (reported ignore root False
      (bind (sys_lstat p) (\<lambda>node. case node of Dir _ \<Rightarrow> ret True | _ \<Rightarrow> throw OSError)))
     (\<lambda>x t. x \<and> os_fs t = os_fs s) (\<lambda>_ _. False) s"
  using assms by (auto simp: reported_def sys_lstat_def wp_simps calm_def split: option.splits)

lemma wp_remove_tree:
  fixes s :: "'z os_scheme"
  assumes "listing_ok ls N"
  shows "calm s \<Longrightarrow> tree_ok (os_fs s) \<Longrightarrow> removable N n (os_fs s) p \<Longrightarrow>
    wp (remove_tree ls True (Suc n) root p)
     (\<lambda>_ t. os_fs t = cut p (os_fs s) \<and> confined {p} {} s t) (\<lambda>_ _. False) s"
proof (induction n arbitrary: s p root rule: less_induct)
  case (less n)
  let ?f = "os_fs s"
  let ?goal = "wp (remove_tree ls True (Suc n) root p) (\<lambda>_ t. os_fs t = cut p ?f) (\<lambda>_ _. False) s"
  have under: "under {p} p" by (simp add: under_root)
  have ?goal
  proof (cases "?f p")
    case None
    then show ?thesis
      using less.prems(1) cut_absent [OF less.prems(2) None]
      by (simp add: remove_tree.simps reported_def sys_lstat_def wp_simps calm_def)
  next
    case (Some node)
    then obtain k where dir: "?f p = Some (Dir k)"
      using less.prems(3) by (auto simp: removable_def is_real_dir_iff)
    have sz: "sized N n ?f p" using less.prems(3) by (simp add: removable_def)
    have open': "wp (reported True root False
        (bind (sys_lstat p) (\<lambda>node. case node of Dir _ \<Rightarrow> ret True | _ \<Rightarrow> throw OSError)))
       (\<lambda>x t. (x \<and> os_fs t = ?f) \<and> confined {p} {} s t) (\<lambda>e t. False \<and> confined {p} {} s t) s"
      by (rule cf.with_result [OF _ wp_open_directory [OF less.prems(1) dir]])
        (intro cf.reported cf.bind cf_looking, auto split: node.splits)
    let ?names = "ls ?f p"
    have names: "set ?names = children ?f p" using listing_okD(1) [OF assms sized_children [OF sz]] .
    have list': "wp (reported True root [] (sys_listdir ls p))
        (\<lambda>x u. (x = ?names \<and> os_fs u = ?f) \<and> confined {p} {} t u) (\<lambda>e u. False \<and> confined {p} {} t u) t"
      if "os_fs t = ?f" "calm t" for t
      by (rule cf.with_result, intro cf.reported cf_looking)
        (use that dir in \<open>auto simp: reported_def sys_listdir_def wp_simps calm_def\<close>)
    let ?files = "filter (\<lambda>c. \<not> is_real_dir ?f (p @ [c])) ?names"
    let ?dirs = "rev (filter (\<lambda>c. is_real_dir ?f (p @ [c])) ?names)"
    show ?thesis
      unfolding remove_tree.simps
    proof (rule wp_bind_spec [OF open'], goal_cases)
      case (1 x t)
      then have t: "os_fs t = ?f" "calm t" using less.prems(1) calm_confined by auto
      have "wp (bind (reported True root [] (sys_listdir ls p)) (\<lambda>names. bind (gets os_fs) (\<lambda>f.
         bind (for_each (filter (\<lambda>c. \<not> is_real_dir f (p @ [c])) names)
                 (\<lambda>c. reported True False () (sys_unlink (p @ [c])))) (\<lambda>_.
         bind (for_each (rev (filter (\<lambda>c. is_real_dir f (p @ [c])) names)) (\<lambda>c. remove_tree ls True n False (p @ [c])))
           (\<lambda>_. reported True root () (sys_rmdir ls p)))))) (\<lambda>_ t. os_fs t = cut p ?f) (\<lambda>_ _. False) t"
      proof (rule wp_bind_spec [OF list' [OF t]], goal_cases)
        case (1 x u)
        then have u: "x = ?names" "os_fs u = ?f" "calm u" using t(2) calm_confined by auto
        show ?case
          unfolding u(1)
        proof (rule wp_bind_gets, unfold u(2), rule wp_bind_spec [OF wp_unlink_loop [OF u(3)]], goal_cases)
          case (2 y v)
          let ?g = "\<lambda>q. if \<exists>c \<in> set ?files. q = p @ [c] then None else ?f q"
          have v: "os_fs v = ?g" using conjunct1 [OF 2] unfolding u(2) .
          have cv: "calm v" using 2 u(3) calm_confined by blast
          have thin: "thinned ?f ?g" by (simp add: thinned_def)
          have ok: "tree_ok ?g" by (rule tree_ok_without_files [OF less.prems(2) thin]) auto
          have loop: "wp (for_each ?dirs (\<lambda>c. remove_tree ls True n False (p @ [c])))
             (\<lambda>_ w. os_fs w = (\<lambda>q. if \<exists>c \<in> set ?dirs. starts_with (p @ [c]) q then None else os_fs v q)
                \<and> confined {p} {} v w) (\<lambda>_ _. False) v"
          proof (cases n)
            case 0
            then have "?dirs = []"
              using sz names by (auto simp: sized_def children_def is_real_dir_iff filter_empty_conv)
            then show ?thesis by (simp add: wp_simps cf.refl)
          next
            case (Suc m)
            have sub: "removable N m ?g (p @ [c])" if "c \<in> set ?dirs" for c
              by (rule removable_thinned [OF _ thin])
                (use that sz Suc in \<open>auto simp: removable_def intro: sized_child\<close>)
            have one: "wp (remove_tree ls True (Suc m) False (p @ [c]))
               (\<lambda>_ w. os_fs w = cut (p @ [c]) (os_fs t) \<and> confined {p} {} t w) (\<lambda>_ _. False) t"
              if "calm t" "tree_ok (os_fs t)" "removable N m (os_fs t) (p @ [c])" for c and t :: "'z os_scheme"
              by (rule wp_mono [OF less.IH [OF _ that]])
                (use Suc in \<open>auto elim: confined_mono simp: under_def\<close>)
            show ?thesis
              unfolding Suc
              by (rule wp_remove_loop [where N = N and n = m, OF one]) (use v cv ok sub in auto)
          qed
          show ?case
          proof (rule wp_bind_spec [OF loop], goal_cases)
            case (1 z w)
            let ?h = "\<lambda>q. if \<exists>c \<in> set ?dirs. starts_with (p @ [c]) q then None else ?g q"
            have w: "os_fs w = ?h" using conjunct1 [OF 1] unfolding v .
            have cw: "calm w" using 1 cv calm_confined by blast
            have "?h (p @ [c]) = None" for c
              using names by (auto simp: children_def starts_with_iff)
            then have none: "children ?h p = {}" by (simp add: children_def)
            then have "ls ?h p = []" using listing_okD(1) [OF assms, of ?h p] by simp
            moreover have "?h p = Some (Dir k)" using dir by auto
            moreover have "?h(p := None) = cut p ?f"
              by (rule removed_all [OF less.prems(2)]) (use names in \<open>auto simp: children_def\<close>)
            ultimately show ?case
              using cw w by (simp add: reported_def sys_rmdir_def wp_simps calm_def)
          qed simp
        qed (use u in auto)
      qed simp
      then show ?case using 1 by simp
    qed simp
  qed
  then have "wp (remove_tree ls True (Suc n) root p)
     (\<lambda>_ t. os_fs t = cut p ?f \<and> confined {p} {} s t) (\<lambda>_ t. False \<and> confined {p} {} s t) s"
    by (rule cf.with_result [OF cf_remove_tree [OF under]])
  then show ?case by (rule wp_mono) auto
qed

end
