(* ===== verification/BackupManifest.thy ===== *)
theory BackupManifest
  imports Trees
begin

text \<open>
  \<open>app/services/backup_service.py\<close>, the pure part: identifiers, paths and the manifest with its
  parser. Parsing and printing of JSON and of ISO timestamps, the text of numbers and
  containers, and the decimal digits beyond ASCII are read from a record, a parameter of the
  model. \<open>json_loads\<close> answers \<open>None\<close> where the module raises its two decoding errors; an object
  is the list of its items, each key once.
\<close>

datatype document =
    DocNull | DocBool bool | DocInt int | DocFloat "64 word" | DocStr str
  | DocList "document list" | DocObject "(str \<times> document) list"

record text_codec =
  json_dumps :: "document \<Rightarrow> str"
  json_loads :: "bytes \<Rightarrow> document option"
  other_text :: "document \<Rightarrow> str"
  int_of_text :: "str \<Rightarrow> int option"
  int_of_float :: "64 word \<Rightarrow> exn + int"
  iso_parse :: "str \<Rightarrow> int option option"
  iso_format :: "int \<Rightarrow> str"
  stamp_of :: "int \<Rightarrow> str"
  other_digit :: "nat \<Rightarrow> bool"

section \<open>Constants\<close>

definition backup_prefix :: str where "backup_prefix = py ''software-hub-backup-''"
definition manifest_name :: str where "manifest_name = py ''manifest.json''"
definition manifest_checksum_name :: str where "manifest_checksum_name = py ''manifest.sha256''"
definition lock_name :: str where "lock_name = py ''.software-hub-backup.lock''"
definition max_manifest_bytes :: int where "max_manifest_bytes = 4 * 1024 * 1024"
definition manifest_version :: int where "manifest_version = 1"
definition database_directory :: str where "database_directory = py ''database''"
definition database_file_name :: str where "database_file_name = py ''software-hub.sqlite3''"

section \<open>Entries and manifests\<close>

record backup_entry =
  be_relative_path :: str
  be_size_bytes :: int
  be_sha256 :: str

record backup_manifest =
  bm_backup_id :: str
  bm_created_at :: int
  bm_app_version :: str
  bm_database_revision :: str
  bm_entries :: "backup_entry list"

definition total_bytes :: "backup_manifest \<Rightarrow> int" where
  "total_bytes m = sum_list (map be_size_bytes (bm_entries m))"

definition entry_to_dict :: "backup_entry \<Rightarrow> document" where
  "entry_to_dict e = DocObject
     [(py ''relative_path'', DocStr (be_relative_path e)), (py ''size_bytes'', DocInt (be_size_bytes e)),
      (py ''sha256'', DocStr (be_sha256 e))]"

definition manifest_to_dict :: "text_codec \<Rightarrow> backup_manifest \<Rightarrow> document" where
  "manifest_to_dict c m = DocObject
     [(py ''manifest_version'', DocInt manifest_version), (py ''backup_id'', DocStr (bm_backup_id m)),
      (py ''created_at'', DocStr (iso_format c (bm_created_at m))),
      (py ''app_version'', DocStr (bm_app_version m)),
      (py ''database_revision'', DocStr (bm_database_revision m)),
      (py ''total_bytes'', DocInt (total_bytes m)),
      (py ''file_count'', DocInt (int (length (bm_entries m)))),
      (py ''entries'', DocList (map entry_to_dict (bm_entries m)))]"

section \<open>Identifiers and paths\<close>

text \<open>\<open>\d\<close> in a pattern for text matches every decimal digit of Unicode.\<close>

definition pattern_digit :: "text_codec \<Rightarrow> nat \<Rightarrow> bool" where
  "pattern_digit c x = (is_digit x \<or> 128 \<le> x \<and> other_digit c x)"

definition matches_backup_id :: "text_codec \<Rightarrow> str \<Rightarrow> bool" where
  "matches_backup_id c s =
     (let n = length backup_prefix; r = drop n s in
      starts_with backup_prefix s \<and> length r = 31
        \<and> list_all (pattern_digit c) (take 8 r) \<and> r ! 8 = 84
        \<and> list_all (pattern_digit c) (take 12 (drop 9 r)) \<and> r ! 21 = 90 \<and> r ! 22 = 45
        \<and> list_all is_hex (drop 23 r))"

definition safe_backup_id :: "text_codec \<Rightarrow> str \<Rightarrow> exn + str" where
  "safe_backup_id c value =
     (let candidate = strip value in
      if matches_backup_id c candidate then Inr candidate else Inl ValidationError)"

definition revision_char :: "nat \<Rightarrow> bool" where
  "revision_char x = (is_lower x \<or> is_upper x \<or> is_digit x \<or> x = 95 \<or> x = 46 \<or> x = 45)"

definition matches_revision :: "str \<Rightarrow> bool" where
  "matches_revision s = (1 \<le> length s \<and> length s \<le> 128 \<and> list_all revision_char s)"

text \<open>The path is kept as its parts; \<open>posix_of\<close> is \<open>as_posix\<close> of a relative path.\<close>

definition safe_relative_path :: "str \<Rightarrow> exn + path" where
  "safe_relative_path value =
     (if value = [] \<or> 0 \<in> set value \<or> backslash \<in> set value then Inl ValidationError
      else if is_absolute value \<or> list_ex unsafe_part (pure_parts value) then Inl ValidationError
      else Inr (pure_parts value))"

definition posix_of :: "path \<Rightarrow> str" where
  "posix_of parts = (if parts = [] then dot else join_on slash parts)"

section \<open>Parsing a manifest\<close>

text \<open>\<open>str(value)\<close> and \<open>int(value)\<close>\<close>

definition doc_text :: "text_codec \<Rightarrow> document \<Rightarrow> str" where
  "doc_text c d =
     (case d of
        DocStr s \<Rightarrow> s
      | DocInt n \<Rightarrow> (if n < 0 then 45 # digits_of (nat (- n)) else digits_of (nat n))
      | DocBool b \<Rightarrow> (if b then py ''True'' else py ''False'')
      | DocNull \<Rightarrow> py ''None''
      | _ \<Rightarrow> other_text c d)"

definition doc_int :: "text_codec \<Rightarrow> document \<Rightarrow> exn + int" where
  "doc_int c d =
     (case d of
        DocInt n \<Rightarrow> Inr n
      | DocBool b \<Rightarrow> Inr (if b then 1 else 0)
      | DocFloat w \<Rightarrow> int_of_float c w
      | DocStr s \<Rightarrow> (case int_of_text c s of None \<Rightarrow> Inl ValueError | Some n \<Rightarrow> Inr n)
      | _ \<Rightarrow> Inl TypeError)"

text \<open>Python's \<open>==\<close> between a JSON value and the version number 1.\<close>

definition is_manifest_version :: "document option \<Rightarrow> bool" where
  "is_manifest_version d =
     (case d of
        Some (DocInt n) \<Rightarrow> n = manifest_version
      | Some (DocBool b) \<Rightarrow> b
      | Some (DocFloat w) \<Rightarrow> w = 0x3FF0000000000000
      | _ \<Rightarrow> False)"

definition text_of_field :: "text_codec \<Rightarrow> document option \<Rightarrow> str \<Rightarrow> str" where
  "text_of_field c d default_text = (case d of None \<Rightarrow> default_text | Some v \<Rightarrow> doc_text c v)"

definition valid_digest :: "str \<Rightarrow> bool" where
  "valid_digest s = (length s = 64 \<and> list_all is_hex s)"

definition entry_numbers :: "text_codec \<Rightarrow> (str \<times> document) list \<Rightarrow> exn + (int \<times> str)" where
  "entry_numbers c item =
     (case map_of item (py ''size_bytes'') of
        None \<Rightarrow> Inl ValidationError
      | Some d \<Rightarrow>
          (case doc_int c d of
             Inl e \<Rightarrow> Inl (if e \<in> {KeyError, TypeError, ValueError} then ValidationError else e)
           | Inr n \<Rightarrow>
               (case map_of item (py ''sha256'') of
                  None \<Rightarrow> Inl ValidationError
                | Some h \<Rightarrow> Inr (n, doc_text c h))))"

text \<open>One item of the loop over \<open>entries\<close>; the entries read so far carry the seen paths.\<close>

definition parse_entry ::
  "text_codec \<Rightarrow> document \<Rightarrow> backup_entry list \<Rightarrow> exn + backup_entry list" where
  "parse_entry c item entries =
     (case item of
        DocObject members \<Rightarrow>
          rbind (safe_relative_path (text_of_field c (map_of members (py ''relative_path'')) [])) (\<lambda>parts.
          let relative = posix_of parts in
          if relative \<in> set (map be_relative_path entries) then Inl ValidationError
          else
            rbind (entry_numbers c members) (\<lambda>(sz, digest).
              if sz < 0 \<or> \<not> valid_digest digest then Inl ValidationError
              else Inr (entries @ [\<lparr>be_relative_path = relative, be_size_bytes = sz, be_sha256 = digest\<rparr>])))
      | _ \<Rightarrow> Inl ValidationError)"

fun parse_entries ::
  "text_codec \<Rightarrow> document list \<Rightarrow> backup_entry list \<Rightarrow> exn + backup_entry list" where
  "parse_entries c [] entries = Inr entries"
| "parse_entries c (item # items) entries = rbind (parse_entry c item entries) (parse_entries c items)"

definition database_entry_path :: str where
  "database_entry_path = database_directory @ [slash] @ database_file_name"

definition parse_created_at :: "text_codec \<Rightarrow> document option \<Rightarrow> exn + int" where
  "parse_created_at c d =
     (case d of
        None \<Rightarrow> Inl ValidationError
      | Some v \<Rightarrow>
          (case iso_parse c (doc_text c v) of
             None \<Rightarrow> Inl ValidationError
           | Some None \<Rightarrow> Inl ValidationError
           | Some (Some instant) \<Rightarrow> Inr instant))"

definition parse_manifest :: "text_codec \<Rightarrow> bytes \<Rightarrow> exn + backup_manifest" where
  "parse_manifest c payload =
     (case json_loads c payload of
        Some (DocObject raw) \<Rightarrow>
          rbind (require (is_manifest_version (map_of raw (py ''manifest_version''))) ValidationError) (\<lambda>_.
          rbind (safe_backup_id c (text_of_field c (map_of raw (py ''backup_id'')) [])) (\<lambda>backup_id.
          rbind (parse_created_at c (map_of raw (py ''created_at''))) (\<lambda>created_at.
          let database_revision = text_of_field c (map_of raw (py ''database_revision'')) [] in
          rbind (require (matches_revision database_revision) ValidationError) (\<lambda>_.
          case map_of raw (py ''entries'') of
            Some (DocList raw_entries) \<Rightarrow>
              rbind (parse_entries c raw_entries []) (\<lambda>entries.
              rbind (require (database_entry_path \<in> set (map be_relative_path entries)) ValidationError) (\<lambda>_.
              Inr \<lparr>bm_backup_id = backup_id, bm_created_at = created_at,
                   bm_app_version =
                     take 64 (text_of_field c (map_of raw (py ''app_version'')) (py ''unknown'')),
                   bm_database_revision = database_revision, bm_entries = entries\<rparr>))
          | _ \<Rightarrow> Inl ValidationError))))
      | _ \<Rightarrow> Inl ValidationError)"

section \<open>Reports\<close>

record verification_report =
  vr_backup_id :: str
  vr_created_at :: int
  vr_file_count :: nat
  vr_total_bytes :: int
  vr_database_revision :: str
  vr_checksum_verified :: bool
  vr_database_integrity_verified :: bool

record creation_report =
  cr_backup_id :: str
  cr_file_count :: nat
  cr_total_bytes :: int
  cr_retention_deleted_count :: nat

record retention_report =
  re_discovered :: nat
  re_eligible :: "str list"
  re_deleted :: "str list"
  re_errors :: nat
  re_dry_run :: bool

record restore_report =
  rs_backup_id :: str
  rs_pre_restore_backup_id :: "str option"
  rs_file_count :: nat
  rs_total_bytes :: int

definition report_of :: "backup_manifest \<Rightarrow> verification_report" where
  "report_of m = \<lparr>vr_backup_id = bm_backup_id m, vr_created_at = bm_created_at m,
     vr_file_count = length (bm_entries m), vr_total_bytes = total_bytes m,
     vr_database_revision = bm_database_revision m, vr_checksum_verified = True,
     vr_database_integrity_verified = True\<rparr>"

end
