(* ===== verification/Backups.thy ===== *)
theory Backups
  imports Maintenance BackupManifest
begin

text \<open>
  \<open>app/services/backup_service.py\<close>: creating, verifying, listing, retaining and restoring
  backups. A backup is a directory below the backup root with a copy of the database, of the
  storage tree and of the configuration templates, and a manifest of all of them. SQLite and
  the migrations are the parameter \<open>sqlite_engine\<close>: functions of the bytes of the database
  file and of its write-ahead log. The record of the service also holds the other parameters
  of the model: the directory listing, the fuel of the descents, the short writes, SHA-256 and
  the text codec.
\<close>

record upgrade_outcome =
  uo_error :: "exn option"
  uo_main :: "bytes option"
  uo_wal :: "bytes option"
  uo_shm :: "bytes option"

text \<open>\<open>None\<close> stands for \<open>sqlite3.Error\<close>; a query answers its first row, if any.\<close>

record sqlite_engine =
  sq_integrity :: "bytes \<Rightarrow> bytes option \<Rightarrow> str option option"
  sq_version :: "bytes \<Rightarrow> bytes option \<Rightarrow> str option option"
  sq_snapshot :: "bytes \<Rightarrow> bytes option \<Rightarrow> bytes option"
  sq_upgrade :: "bytes \<Rightarrow> bytes option \<Rightarrow> upgrade_outcome"
  sq_rows :: "bytes \<Rightarrow> bytes option \<Rightarrow> database"

record backup_service =
  bk_paths :: storage_paths
  bk_database_path :: path
  bk_retention_count :: nat
  bk_min_free_bytes :: int
  bk_storage_min_free_bytes :: int
  bk_project_root :: path
  bk_app_version :: str
  bk_pid :: nat
  bk_ls :: listing
  bk_fuel :: nat
  bk_wr :: "nat \<Rightarrow> nat \<Rightarrow> nat"
  bk_sha :: "bytes \<Rightarrow> str"
  bk_codec :: text_codec
  bk_engine :: sqlite_engine
  bk_unicode :: unicode

abbreviation backup_root :: "backup_service \<Rightarrow> path" where
  "backup_root b \<equiv> sp_backups (bk_paths b)"

abbreviation storage_root :: "backup_service \<Rightarrow> path" where
  "storage_root b \<equiv> sp_root (bk_paths b)"

text \<open>\<open>_database_path\<close>; the name is what SQLAlchemy reads from the database URL.\<close>

definition database_path_of :: "path \<Rightarrow> fs \<Rightarrow> str option \<Rightarrow> exn + path" where
  "database_path_of cwd f database_name =
     (case database_name of
        None \<Rightarrow> Inl ValidationError
      | Some name \<Rightarrow>
          if name = [] \<or> name = py '':memory:'' then Inl ValidationError
          else
            (case resolve False f (if is_absolute name then pure_parts name else cwd @ pure_parts name) of
               None \<Rightarrow> Inl OSError
             | Some p \<Rightarrow> Inr p))"

text \<open>\<open>Path(f"{p}{suffix}")\<close>\<close>

definition with_suffix :: "path \<Rightarrow> str \<Rightarrow> path" where
  "with_suffix p suffix = butlast p @ [last p @ suffix]"

definition wal_suffix :: str where "wal_suffix = py ''-wal''"
definition shm_suffix :: str where "shm_suffix = py ''-shm''"

text \<open>\<open>p.relative_to(root)\<close> of two pure paths.\<close>

definition relative_parts :: "path \<Rightarrow> path \<Rightarrow> exn + path" where
  "relative_parts p root = (if starts_with root p then Inr (drop (length root) p) else Inl ValueError)"

section \<open>Files and SQLite\<close>

definition regular_file :: "path \<Rightarrow> ('z os_scheme, node) eff" where
  "regular_file p =
     bind (os_error_as StorageError (sys_lstat p)) (\<lambda>metadata.
       if is_regular metadata then ret metadata else throw StorageError)"

definition same_stat :: "node \<Rightarrow> node \<Rightarrow> bool" where
  "same_stat a b = (node_size a = node_size b \<and> file_mtime a = file_mtime b)"

definition copy_regular_file ::
  "(nat \<Rightarrow> nat \<Rightarrow> nat) \<Rightarrow> (bytes \<Rightarrow> str) \<Rightarrow> path \<Rightarrow> path \<Rightarrow> ('z os_scheme, backup_entry) eff" where
  "copy_regular_file wr sha source destination =
     bind (regular_file source) (\<lambda>metadata.
     bind (path_mkdir True True storage_directory_mode (butlast destination)) (\<lambda>_.
     bind (gets os_fs) (\<lambda>f.
     bind (raise_if (path_exists f destination \<or> is_symlink f destination) StorageError) (\<lambda>_.
     bind (os_error_as StorageError
             (bind (sys_read source) (\<lambda>content.
              bind (sys_create destination default_file_mode) (\<lambda>_.
              bind (write_all wr destination content) (\<lambda>_.
              bind (sys_fsync destination) (\<lambda>_.
              sys_chmod destination 384)))))) (\<lambda>_.
     bind (sha256_file sha destination) (\<lambda>(digest, sz).
     bind (regular_file source) (\<lambda>final_metadata.
       if sz \<noteq> node_size metadata \<or> \<not> same_stat final_metadata metadata then throw StorageError
       else ret \<lparr>be_relative_path = slash # join_on slash destination, be_size_bytes = sz,
                 be_sha256 = digest\<rparr>)))))))"

definition sqlite_query ::
  "(bytes \<Rightarrow> bytes option \<Rightarrow> str option option) \<Rightarrow> path \<Rightarrow> ('z os_scheme, str option) eff" where
  "sqlite_query q p =
     bind (discard (regular_file p)) (\<lambda>_.
     bind (os_error_as StorageError syscall) (\<lambda>_.
     bind (gets files) (\<lambda>F.
       case F p of
         None \<Rightarrow> throw StorageError
       | Some content \<Rightarrow>
           (case q content (F (with_suffix p wal_suffix)) of
              None \<Rightarrow> throw StorageError
            | Some row \<Rightarrow> ret row))))"

definition sqlite_integrity_check :: "sqlite_engine \<Rightarrow> path \<Rightarrow> ('z os_scheme, unit) eff" where
  "sqlite_integrity_check eng p =
     bind (sqlite_query (sq_integrity eng) p) (\<lambda>row. raise_if (row \<noteq> Some (py ''ok'')) ValidationError)"

definition sqlite_schema_revision :: "sqlite_engine \<Rightarrow> path \<Rightarrow> ('z os_scheme, str) eff" where
  "sqlite_schema_revision eng p =
     bind (sqlite_query (sq_version eng) p) (\<lambda>row.
       case row of
         None \<Rightarrow> throw ValidationError
       | Some revision \<Rightarrow> if matches_revision revision then ret revision else throw ValidationError)"

text \<open>The online backup: what SQLite writes to the destination while it closes both ends.\<close>

definition sqlite_online_backup ::
  "(nat \<Rightarrow> nat \<Rightarrow> nat) \<Rightarrow> sqlite_engine \<Rightarrow> path \<Rightarrow> path \<Rightarrow> ('z os_scheme, unit) eff" where
  "sqlite_online_backup wr eng source destination =
     bind syscall (\<lambda>_. bind (gets files) (\<lambda>F.
       case F source of
         None \<Rightarrow> throw OSError
       | Some content \<Rightarrow>
           (case sq_snapshot eng content (F (with_suffix source wal_suffix)) of
              None \<Rightarrow> throw OSError
            | Some snapshot \<Rightarrow>
                bind (sys_open_write destination default_file_mode) (\<lambda>_.
                write_all wr destination snapshot))))"

definition backup_sqlite :: "backup_service \<Rightarrow> path \<Rightarrow> unit svc" where
  "backup_sqlite b destination =
     bind (discard (regular_file (bk_database_path b))) (\<lambda>_.
     bind (path_mkdir True True storage_directory_mode (butlast destination)) (\<lambda>_.
     bind (os_error_as StorageError
             (sqlite_online_backup (bk_wr b) (bk_engine b) (bk_database_path b) destination)) (\<lambda>_.
     bind (for_each [wal_suffix, shm_suffix]
             (\<lambda>suffix. unlink_missing_ok (with_suffix destination suffix))) (\<lambda>_.
     bind (sys_chmod destination 384) (\<lambda>_.
     sqlite_integrity_check (bk_engine b) destination)))))"

section \<open>Collecting the files of a backup\<close>

definition excluded_storage_path :: "path \<Rightarrow> path \<Rightarrow> bool" where
  "excluded_storage_path p temporary_relative = starts_with temporary_relative p"

definition copy_as ::
  "backup_service \<Rightarrow> str \<Rightarrow> path \<Rightarrow> path \<Rightarrow> path \<Rightarrow> backup_entry list \<Rightarrow> backup_entry list svc" where
  "copy_as b area source destination relative entries =
     bind (copy_regular_file (bk_wr b) (bk_sha b) source (destination @ relative)) (\<lambda>entry.
       ret (entries @ [entry\<lparr>be_relative_path := area @ [slash] @ posix_of relative\<rparr>]))"

definition storage_area_name :: str where "storage_area_name = py ''storage''"
definition config_area_name :: str where "config_area_name = py ''config''"

definition copy_storage_directory ::
  "backup_service \<Rightarrow> path \<Rightarrow> path \<Rightarrow> path \<Rightarrow> str list \<Rightarrow> str list \<Rightarrow> backup_entry list \<Rightarrow>
   (str list \<times> backup_entry list) svc" where
  "copy_storage_directory b destination temporary_relative current directory_names file_names entries =
     (let relative_directory = drop (length (storage_root b)) current in
      bind (gets os_fs) (\<lambda>f.
      bind (raise_if (list_ex (\<lambda>name. is_symlink f (current @ [name])) directory_names) StorageError) (\<lambda>_.
      bind (fold_eff (\<lambda>name entries.
              let relative = relative_directory @ [name] in
              if excluded_storage_path relative temporary_relative then ret entries
              else copy_as b storage_area_name (current @ [name]) destination relative entries)
              file_names entries) (\<lambda>entries.
      ret (filter (\<lambda>name. \<not> excluded_storage_path (relative_directory @ [name]) temporary_relative)
             directory_names, entries)))))"

definition copy_storage :: "backup_service \<Rightarrow> path \<Rightarrow> backup_entry list svc" where
  "copy_storage b destination =
     bind (gets os_fs) (\<lambda>f.
     bind (raise_if (is_symlink f (storage_root b) \<or> \<not> is_dir f (storage_root b)) StorageError) (\<lambda>_.
     bind (path_mkdir True False storage_directory_mode destination) (\<lambda>_.
     bind (lift_result (relative_parts (sp_temporary (bk_paths b)) (storage_root b))) (\<lambda>temporary_relative.
     walk_each (bk_ls b) (bk_fuel b) (copy_storage_directory b destination temporary_relative)
       (storage_root b) []))))"

definition path_is_file :: "fs \<Rightarrow> path \<Rightarrow> bool" where
  "path_is_file f p =
     (case resolve True f p of
        None \<Rightarrow> False
      | Some q \<Rightarrow> (case f q of Some n \<Rightarrow> is_regular n | None \<Rightarrow> False))"

definition copy_template ::
  "backup_service \<Rightarrow> path \<Rightarrow> str \<Rightarrow> backup_entry list \<Rightarrow> backup_entry list svc" where
  "copy_template b destination name entries =
     (let source = bk_project_root b @ [name] in
      bind (gets os_fs) (\<lambda>f.
        if \<not> path_is_file f source \<or> is_symlink f source then ret entries
        else copy_as b config_area_name source destination [name] entries))"

definition copy_nginx_directory ::
  "backup_service \<Rightarrow> path \<Rightarrow> path \<Rightarrow> path \<Rightarrow> str list \<Rightarrow> str list \<Rightarrow> backup_entry list \<Rightarrow>
   (str list \<times> backup_entry list) svc" where
  "copy_nginx_directory b destination nginx current directory_names file_names entries =
     bind (gets os_fs) (\<lambda>f.
     bind (raise_if (list_ex (\<lambda>name. is_symlink f (current @ [name])) directory_names) StorageError) (\<lambda>_.
     bind (fold_eff (\<lambda>name.
             copy_as b config_area_name (current @ [name]) destination
               ([py ''nginx''] @ drop (length nginx) current @ [name])) file_names entries) (\<lambda>entries.
     ret (directory_names, entries))))"

definition template_names :: "str list" where
  "template_names = map py [''.env.example'', ''alembic.ini'', ''pyproject.toml'']"

definition copy_config_templates :: "backup_service \<Rightarrow> path \<Rightarrow> backup_entry list svc" where
  "copy_config_templates b destination =
     bind (fold_eff (copy_template b destination) template_names []) (\<lambda>entries.
     let nginx = bk_project_root b @ [py ''nginx''] in
     bind (gets os_fs) (\<lambda>f.
       if is_dir f nginx \<and> \<not> is_symlink f nginx
       then walk_each (bk_ls b) (bk_fuel b) (copy_nginx_directory b destination nginx) nginx entries
       else ret entries))"

definition populate_backup :: "backup_service \<Rightarrow> path \<Rightarrow> backup_entry list svc" where
  "populate_backup b destination =
     (let database_destination = destination @ [database_directory, database_file_name] in
      bind (backup_sqlite b database_destination) (\<lambda>_.
      bind (sha256_file (bk_sha b) database_destination) (\<lambda>(digest, sz).
      bind (copy_storage b (destination @ [storage_area_name])) (\<lambda>storage_entries.
      bind (copy_config_templates b (destination @ [config_area_name])) (\<lambda>config_entries.
      ret (\<lparr>be_relative_path = database_entry_path, be_size_bytes = sz, be_sha256 = digest\<rparr>
             # storage_entries @ config_entries))))))"

section \<open>The manifest on disk\<close>

definition encoded_utf8 :: "str \<Rightarrow> exn + bytes" where
  "encoded_utf8 s = (case utf8_encode s of None \<Rightarrow> Inl ValueError | Some bs \<Rightarrow> Inr (map of_nat bs))"

definition encoded_ascii :: "str \<Rightarrow> exn + bytes" where
  "encoded_ascii s = (if is_ascii s then Inr (map of_nat s) else Inl ValueError)"

definition decode_ascii :: "bytes \<Rightarrow> exn + str" where
  "decode_ascii bs = (if list_all (\<lambda>x. x < 128) bs then Inr (map unat bs) else Inl ValueError)"

definition write_file :: "(nat \<Rightarrow> nat \<Rightarrow> nat) \<Rightarrow> path \<Rightarrow> bytes \<Rightarrow> ('z os_scheme, unit) eff" where
  "write_file wr p content =
     bind (sys_open_write p default_file_mode) (\<lambda>_. bind (write_all wr p content) (\<lambda>_. sys_chmod p 384))"

definition checksum_text :: "str \<Rightarrow> str" where
  "checksum_text digest = digest @ [32, 32] @ manifest_name @ [10]"

definition write_manifest :: "backup_service \<Rightarrow> path \<Rightarrow> backup_manifest \<Rightarrow> unit svc" where
  "write_manifest b directory manifest =
     bind (lift_result (encoded_utf8 (json_dumps (bk_codec b) (manifest_to_dict (bk_codec b) manifest)))) (\<lambda>body.
     bind (write_file (bk_wr b) (directory @ [manifest_name]) (body @ [10])) (\<lambda>_.
     bind (sha256_file (bk_sha b) (directory @ [manifest_name])) (\<lambda>(digest, _).
     bind (lift_result (encoded_ascii (checksum_text digest))) (\<lambda>text.
     bind (write_file (bk_wr b) (directory @ [manifest_checksum_name]) text) (\<lambda>_.
     sys_fsync directory)))))"

section \<open>Verification\<close>

definition verify_entry ::
  "(bytes \<Rightarrow> str) \<Rightarrow> path \<Rightarrow> backup_entry \<Rightarrow> str list \<Rightarrow> ('z os_scheme, str list) eff" where
  "verify_entry sha directory entry expected_files =
     bind (lift_result (safe_relative_path (be_relative_path entry))) (\<lambda>relative.
     bind (regular_file (directory @ relative)) (\<lambda>metadata.
     bind (raise_if (node_size metadata \<noteq> be_size_bytes entry) ValidationError) (\<lambda>_.
     bind (sha256_file sha (directory @ relative)) (\<lambda>(digest, sz).
     bind (raise_if (sz \<noteq> be_size_bytes entry \<or> digest \<noteq> be_sha256 entry) ValidationError) (\<lambda>_.
     ret (posix_of relative # expected_files))))))"

definition collect_files ::
  "path \<Rightarrow> path \<Rightarrow> str list \<Rightarrow> str list \<Rightarrow> str list \<Rightarrow> (str list \<times> str list) svc" where
  "collect_files directory current directory_names file_names actual_files =
     bind (gets os_fs) (\<lambda>f.
     bind (raise_if (list_ex (\<lambda>name. is_symlink f (current @ [name])) directory_names) ValidationError) (\<lambda>_.
     bind (fold_eff (\<lambda>name actual_files.
             bind (discard (regular_file (current @ [name]))) (\<lambda>_.
               ret (relative_posix directory (current @ [name]) # actual_files))) file_names actual_files)
       (\<lambda>actual_files. ret (directory_names, actual_files))))"

definition read_manifest :: "backup_service \<Rightarrow> path \<Rightarrow> backup_manifest svc" where
  "read_manifest b directory =
     (let manifest_path = directory @ [manifest_name]; checksum_path = directory @ [manifest_checksum_name] in
      bind (regular_file manifest_path) (\<lambda>metadata.
      bind (raise_if (node_size metadata > max_manifest_bytes) ValidationError) (\<lambda>_.
      bind (discard (regular_file checksum_path)) (\<lambda>_.
      bind (sys_read checksum_path) (\<lambda>raw.
      bind (lift_result (decode_ascii raw)) (\<lambda>text.
        case split_words text of
          [expected_digest, name] \<Rightarrow>
            bind (raise_if (name \<noteq> manifest_name) ValidationError) (\<lambda>_.
            bind (sha256_file (bk_sha b) manifest_path) (\<lambda>(actual_digest, _).
            bind (raise_if (expected_digest \<noteq> actual_digest) ValidationError) (\<lambda>_.
            bind (sys_read manifest_path) (\<lambda>payload.
            lift_result (parse_manifest (bk_codec b) payload)))))
        | _ \<Rightarrow> throw ValidationError))))))"

definition verify_directory :: "backup_service \<Rightarrow> path \<Rightarrow> str \<Rightarrow> verification_report svc" where
  "verify_directory b directory expected_backup_id =
     bind (lift_result (safe_backup_id (bk_codec b) expected_backup_id)) (\<lambda>_.
     bind (gets os_fs) (\<lambda>f.
     bind (raise_if (is_symlink f directory \<or> \<not> is_dir f directory) StorageError) (\<lambda>_.
     bind (read_manifest b directory) (\<lambda>manifest.
     bind (raise_if (bm_backup_id manifest \<noteq> expected_backup_id) ValidationError) (\<lambda>_.
     bind (fold_eff (verify_entry (bk_sha b) directory) (bm_entries manifest)
             [manifest_name, manifest_checksum_name]) (\<lambda>expected_files.
     bind (walk_each (bk_ls b) (bk_fuel b) (collect_files directory) directory []) (\<lambda>actual_files.
     bind (raise_if (set actual_files \<noteq> set expected_files) ValidationError) (\<lambda>_.
     let database_path = directory @ [database_directory, database_file_name] in
     bind (sqlite_integrity_check (bk_engine b) database_path) (\<lambda>_.
     bind (sqlite_schema_revision (bk_engine b) database_path) (\<lambda>database_revision.
     bind (raise_if (database_revision \<noteq> bm_database_revision manifest) ValidationError) (\<lambda>_.
     ret (report_of manifest))))))))))))"

definition backup_directory :: "backup_service \<Rightarrow> str \<Rightarrow> path svc" where
  "backup_directory b backup_id =
     bind (lift_result (safe_backup_id (bk_codec b) backup_id)) (\<lambda>selected.
     bind (sys_resolve True (backup_root b)) (\<lambda>root.
     bind (gets os_fs) (\<lambda>f.
     bind (raise_if (is_symlink f (root @ [selected]) \<or> \<not> is_dir f (root @ [selected])) StorageError) (\<lambda>_.
     bind (sys_resolve True (root @ [selected])) (\<lambda>resolved.
     bind (raise_if (\<not> starts_with root resolved) StorageError) (\<lambda>_.
     ret resolved))))))"

definition verify_backup :: "backup_service \<Rightarrow> str \<Rightarrow> verification_report svc" where
  "verify_backup b backup_id =
     bind (backup_directory b backup_id) (\<lambda>directory. verify_directory b directory backup_id)"

section \<open>Listing and retention\<close>

definition recognized_backup_directories :: "backup_service \<Rightarrow> str list svc" where
  "recognized_backup_directories b =
     bind (discard (ensure_private_directory (bk_wr b) (bk_pid b) (backup_root b))) (\<lambda>_.
     bind (sys_listdir (bk_ls b) (backup_root b)) (\<lambda>names.
     bind (gets os_fs) (\<lambda>f.
     ret (filter (\<lambda>name. matches_backup_id (bk_codec b) name \<and> is_dir f (backup_root b @ [name])
            \<and> \<not> is_symlink f (backup_root b @ [name])) names))))"

definition list_entry ::
  "backup_service \<Rightarrow> str \<Rightarrow> verification_report list \<Rightarrow> verification_report list svc" where
  "list_entry b name reports =
     try_catch (bind (verify_directory b (backup_root b @ [name]) name) (\<lambda>report. ret (reports @ [report])))
       (\<lambda>e. if e = StorageError \<or> e = ValidationError then ret reports else throw e)"

text \<open>\<open>sorted(reports, key=created_at, reverse=True)\<close> keeps the order of equal keys.\<close>

definition newest_first :: "verification_report list \<Rightarrow> verification_report list" where
  "newest_first reports = rev (sort_key vr_created_at (rev reports))"

definition list_backups :: "backup_service \<Rightarrow> verification_report list svc" where
  "list_backups b =
     bind (recognized_backup_directories b) (\<lambda>names.
     bind (fold_eff (list_entry b) names []) (\<lambda>reports.
     ret (newest_first reports)))"

text \<open>\<open>_operation_lock\<close>: the lock file exists while the body runs.\<close>

definition operation_lock :: "backup_service \<Rightarrow> 'a svc \<Rightarrow> 'a svc" where
  "operation_lock b body =
     bind (discard (ensure_private_directory (bk_wr b) (bk_pid b) (backup_root b))) (\<lambda>_.
     let lock_path = backup_root b @ [lock_name] in
     try_catch
       (bind (sys_create lock_path 384) (\<lambda>_.
        finally_do
          (bind (sys_write (bk_wr b) lock_path (map of_nat (digits_of (bk_pid b) @ [10]))) (\<lambda>_.
           bind (sys_fsync lock_path) (\<lambda>_. body)))
          (unlink_missing_ok lock_path)))
       (\<lambda>e. if e = FileExistsError then throw StorageError else throw e))"

definition delete_backup :: "backup_service \<Rightarrow> str \<Rightarrow> str list \<times> nat \<Rightarrow> (str list \<times> nat) svc" where
  "delete_backup b backup_id counts = (case counts of (deleted, errors) \<Rightarrow>
     try_catch
       (bind (backup_directory b backup_id) (\<lambda>directory.
        bind (rmtree (bk_ls b) (bk_fuel b) False directory) (\<lambda>_.
        ret (deleted @ [backup_id], errors))))
       (\<lambda>e. if is_os_error e then ret (deleted, errors + 1) else throw e))"

definition retention_body :: "backup_service \<Rightarrow> bool \<Rightarrow> str list \<Rightarrow> retention_report svc" where
  "retention_body b dry_run protected =
     bind (list_backups b) (\<lambda>reports.
     let eligible = filter (\<lambda>i. i \<notin> set protected)
           (map vr_backup_id (drop (bk_retention_count b) reports)) in
     bind (if dry_run then ret ([], 0)
           else bind (fold_eff (delete_backup b) eligible ([], 0)) (\<lambda>counts.
             bind (sys_fsync (backup_root b)) (\<lambda>_. ret counts))) (\<lambda>(deleted, errors).
     ret \<lparr>re_discovered = length reports, re_eligible = eligible, re_deleted = deleted,
          re_errors = errors, re_dry_run = dry_run\<rparr>))"

definition apply_retention ::
  "backup_service \<Rightarrow> bool \<Rightarrow> str list \<Rightarrow> bool \<Rightarrow> retention_report svc" where
  "apply_retention b dry_run protected acquire_lock =
     (if acquire_lock then operation_lock b (retention_body b dry_run protected)
      else retention_body b dry_run protected)"

section \<open>Creating a backup\<close>

definition estimate_directory ::
  "backup_service \<Rightarrow> path \<Rightarrow> path \<Rightarrow> str list \<Rightarrow> str list \<Rightarrow> int \<Rightarrow> (str list \<times> int) svc" where
  "estimate_directory b temporary_relative current directory_names file_names amount =
     (let relative_directory = drop (length (storage_root b)) current in
      bind (gets os_fs) (\<lambda>f.
      bind (raise_if (list_ex (\<lambda>name. is_symlink f (current @ [name])) directory_names) StorageError) (\<lambda>_.
      bind (fold_eff (\<lambda>name amount.
              bind (regular_file (current @ [name])) (\<lambda>metadata. ret (amount + node_size metadata)))
              file_names amount) (\<lambda>amount.
      ret (filter (\<lambda>name. \<not> excluded_storage_path (relative_directory @ [name]) temporary_relative)
             directory_names, amount)))))"

definition estimate_source_bytes :: "backup_service \<Rightarrow> int svc" where
  "estimate_source_bytes b =
     bind (gets os_fs) (\<lambda>f.
     bind (if path_exists f (bk_database_path b)
           then bind (sys_lstat (bk_database_path b)) (\<lambda>metadata. ret (node_size metadata)) else ret 0) (\<lambda>amount.
     if is_dir f (storage_root b) \<and> \<not> is_symlink f (storage_root b)
     then
       bind (lift_result (relative_parts (sp_temporary (bk_paths b)) (storage_root b))) (\<lambda>temporary_relative.
       walk_each (bk_ls b) (bk_fuel b) (estimate_directory b temporary_relative) (storage_root b) amount)
     else ret amount))"

definition new_backup_id :: "backup_service \<Rightarrow> str svc" where
  "new_backup_id b =
     bind utc_now (\<lambda>now. bind fresh_uuid_hex (\<lambda>token.
       ret (backup_prefix @ stamp_of (bk_codec b) now @ [45] @ take 8 token)))"

text \<open>\<open>_audit\<close> swallows every failure.\<close>

definition audit_backup ::
  "backup_service \<Rightarrow> audit_action \<Rightarrow> audit_result \<Rightarrow> str \<Rightarrow> (str \<times> py_value) list \<Rightarrow> unit svc" where
  "audit_backup b action result backup_id metadata =
     try_catch
       (transaction (append_audit_event (bk_unicode b) action result None (Some (py ''backup''))
          (Some backup_id) (Some (py ''cli'')) None metadata))
       (\<lambda>_. ret ())"

definition create_locked ::
  "backup_service \<Rightarrow> bool \<Rightarrow> str \<Rightarrow> path \<Rightarrow> path \<Rightarrow> (backup_manifest \<times> nat) svc" where
  "create_locked b with_retention backup_id temporary destination =
     bind (estimate_source_bytes b) (\<lambda>required.
     bind (discard (ensure_free_space (backup_root b) required (bk_min_free_bytes b))) (\<lambda>_.
     bind (sys_mkdir_new temporary storage_directory_mode) (\<lambda>_.
     bind (populate_backup b temporary) (\<lambda>entries.
     bind utc_now (\<lambda>now.
     bind (sqlite_schema_revision (bk_engine b) (temporary @ [database_directory, database_file_name])) (\<lambda>revision.
     let manifest = \<lparr>bm_backup_id = backup_id, bm_created_at = now, bm_app_version = bk_app_version b,
           bm_database_revision = revision, bm_entries = sort_key be_relative_path entries\<rparr> in
     bind (write_manifest b temporary manifest) (\<lambda>_.
     bind (discard (verify_directory b temporary backup_id)) (\<lambda>_.
     bind (sys_rename (bk_ls b) temporary destination) (\<lambda>_.
     bind (sys_fsync (backup_root b)) (\<lambda>_.
     bind (if with_retention
           then bind (apply_retention b False [backup_id] False) (\<lambda>retention. ret (length (re_deleted retention)))
           else ret 0) (\<lambda>retention_deleted.
     ret (manifest, retention_deleted))))))))))))"

definition creation_report_of :: "backup_manifest \<Rightarrow> nat \<Rightarrow> creation_report" where
  "creation_report_of m deleted = \<lparr>cr_backup_id = bm_backup_id m, cr_file_count = length (bm_entries m),
     cr_total_bytes = total_bytes m, cr_retention_deleted_count = deleted\<rparr>"

definition audit_created :: "backup_service \<Rightarrow> creation_report \<Rightarrow> unit svc" where
  "audit_created b report =
     audit_backup b BACKUP_CREATED AuditSuccess (cr_backup_id report)
       [(py ''backup_id'', PStr (cr_backup_id report)), (py ''file_count'', PInt (int (cr_file_count report))),
        (py ''total_bytes'', PInt (cr_total_bytes report)),
        (py ''retention_deleted_count'', PInt (int (cr_retention_deleted_count report))),
        (py ''checksum_verified'', PBool True)]"

definition create_backup :: "backup_service \<Rightarrow> bool \<Rightarrow> bool \<Rightarrow> creation_report svc" where
  "create_backup b with_retention audit =
     bind (discard (ensure_private_directory (bk_wr b) (bk_pid b) (backup_root b))) (\<lambda>_.
     bind (discard (initialize_storage (bk_wr b) (bk_pid b) (bk_paths b) (bk_storage_min_free_bytes b))) (\<lambda>_.
     bind (new_backup_id b) (\<lambda>backup_id.
     bind fresh_uuid_hex (\<lambda>token.
     let temporary = backup_root b @ [[46] @ backup_id @ py ''.tmp-'' @ token];
         destination = backup_root b @ [backup_id] in
     try_catch
       (bind (operation_lock b (create_locked b with_retention backup_id temporary destination))
         (\<lambda>(manifest, retention_deleted).
          let report = creation_report_of manifest retention_deleted in
          bind (if audit then audit_created b report else ret ()) (\<lambda>_. ret report)))
       (\<lambda>exc.
          bind (rmtree (bk_ls b) (bk_fuel b) True temporary) (\<lambda>_.
          bind (if audit
                then audit_backup b BACKUP_FAILED AuditFailure backup_id
                       [(py ''backup_id'', PStr backup_id), (py ''reason'', PStr (exception_name exc))]
                else ret ()) (\<lambda>_.
          throw exc)))))))"

section \<open>Restoring a backup\<close>

record restore_plan =
  rp_storage_stage :: path
  rp_storage_rollback :: path
  rp_database_stage :: path
  rp_database_rollback :: path

definition restore_plan_of :: "backup_service \<Rightarrow> str \<Rightarrow> restore_plan" where
  "restore_plan_of b token =
     (let hidden = (\<lambda>p tag. butlast p @ [[46] @ last p @ tag @ token]) in
      \<lparr>rp_storage_stage = hidden (storage_root b) (py ''.restore-''),
       rp_storage_rollback = hidden (storage_root b) (py ''.rollback-''),
       rp_database_stage = hidden (bk_database_path b) (py ''.restore-''),
       rp_database_rollback = hidden (bk_database_path b) (py ''.rollback-'')\<rparr>)"

definition move_database_aside :: "backup_service \<Rightarrow> path \<Rightarrow> unit svc" where
  "move_database_aside b rollback =
     bind (path_mkdir True False 448 rollback) (\<lambda>_.
     for_each [[], wal_suffix, shm_suffix] (\<lambda>suffix.
       let source = with_suffix (bk_database_path b) suffix in
       bind (gets os_fs) (\<lambda>f.
         if path_exists f source \<or> is_symlink f source
         then sys_rename (bk_ls b) source (rollback @ [last source]) else ret ())))"

definition restore_database_rollback :: "backup_service \<Rightarrow> path \<Rightarrow> unit svc" where
  "restore_database_rollback b rollback =
     bind (sys_listdir (bk_ls b) rollback) (\<lambda>names.
     for_each names (\<lambda>name.
       sys_rename (bk_ls b) (rollback @ [name]) (butlast (bk_database_path b) @ [name])))"

text \<open>The migrations change the database file, its write-ahead log and its shared memory file.\<close>

definition put_file :: "path \<Rightarrow> bytes option \<Rightarrow> int \<Rightarrow> fs \<Rightarrow> fs" where
  "put_file p content now f =
     (case content of
        None \<Rightarrow> f(p := None)
      | Some c \<Rightarrow> f(p \<mapsto> File c (case f p of Some n \<Rightarrow> node_mode n | None \<Rightarrow> default_file_mode) now))"

definition upgrade_database :: "backup_service \<Rightarrow> unit svc" where
  "upgrade_database b =
     (let main = bk_database_path b; wal = with_suffix main wal_suffix; shm = with_suffix main shm_suffix in
      bind syscall (\<lambda>_. bind (gets files) (\<lambda>F.
      let outcome = sq_upgrade (bk_engine b) (case F main of Some c \<Rightarrow> c | None \<Rightarrow> []) (F wal) in
      bind (modify (\<lambda>s. s\<lparr>os_fs := put_file shm (uo_shm outcome) (os_now s)
              (put_file wal (uo_wal outcome) (os_now s)
              (put_file main (uo_main outcome) (os_now s) (os_fs s)))\<rparr>)) (\<lambda>_.
      case uo_error outcome of None \<Rightarrow> ret () | Some e \<Rightarrow> throw e))))"

definition restore_stage :: "backup_service \<Rightarrow> path \<Rightarrow> restore_plan \<Rightarrow> unit svc" where
  "restore_stage b backup plan =
     bind (copytree (bk_ls b) (bk_wr b) (bk_fuel b) (backup @ [storage_area_name]) (rp_storage_stage plan)) (\<lambda>_.
     bind (lift_result (relative_parts (sp_temporary (bk_paths b)) (storage_root b))) (\<lambda>temporary_relative.
     bind (path_mkdir True True storage_directory_mode (rp_storage_stage plan @ temporary_relative)) (\<lambda>_.
     bind (discard (copy_regular_file (bk_wr b) (bk_sha b)
             (backup @ [database_directory, database_file_name]) (rp_database_stage plan))) (\<lambda>_.
     bind (sqlite_integrity_check (bk_engine b) (rp_database_stage plan)) (\<lambda>_.
     bind (gets os_fs) (\<lambda>f.
     bind (if path_exists f (storage_root b)
           then sys_rename (bk_ls b) (storage_root b) (rp_storage_rollback plan) else ret ()) (\<lambda>_.
     sys_rename (bk_ls b) (rp_storage_stage plan) (storage_root b))))))))"

definition restore_database :: "backup_service \<Rightarrow> restore_plan \<Rightarrow> unit svc" where
  "restore_database b plan =
     bind (move_database_aside b (rp_database_rollback plan)) (\<lambda>_.
     sys_rename (bk_ls b) (rp_database_stage plan) (bk_database_path b))"

definition restore_finish :: "backup_service \<Rightarrow> restore_plan \<Rightarrow> unit svc" where
  "restore_finish b plan =
     bind (upgrade_database b) (\<lambda>_.
     bind (sqlite_integrity_check (bk_engine b) (bk_database_path b)) (\<lambda>_.
     bind (rmtree (bk_ls b) (bk_fuel b) True (rp_storage_rollback plan)) (\<lambda>_.
     rmtree (bk_ls b) (bk_fuel b) True (rp_database_rollback plan))))"

text \<open>
  The body of the \<open>try\<close> in three parts, between the assignments of the two flags
  \<open>storage_replaced\<close> and \<open>database_replaced\<close>; an exception is returned with their values.
\<close>

definition raising_with :: "bool \<times> bool \<Rightarrow> unit svc \<Rightarrow> ((bool \<times> bool) \<times> exn) option svc" where
  "raising_with flags m = try_catch (bind m (\<lambda>_. ret None)) (\<lambda>e. ret (Some (flags, e)))"

definition restore_steps ::
  "backup_service \<Rightarrow> path \<Rightarrow> restore_plan \<Rightarrow> ((bool \<times> bool) \<times> exn) option svc" where
  "restore_steps b backup plan =
     bind (raising_with (False, False) (restore_stage b backup plan)) (\<lambda>r1.
     if r1 \<noteq> None then ret r1
     else bind (raising_with (True, False) (restore_database b plan)) (\<lambda>r2.
       if r2 \<noteq> None then ret r2
       else raising_with (True, True) (restore_finish b plan)))"

definition undo_restore :: "backup_service \<Rightarrow> restore_plan \<Rightarrow> bool \<times> bool \<Rightarrow> unit svc" where
  "undo_restore b plan flags = (case flags of (storage_replaced, database_replaced) \<Rightarrow>
     bind (if database_replaced then unlink_missing_ok (bk_database_path b) else ret ()) (\<lambda>_.
     bind (gets os_fs) (\<lambda>f.
     bind (if path_exists f (rp_database_rollback plan)
           then restore_database_rollback b (rp_database_rollback plan) else ret ()) (\<lambda>_.
     bind (if storage_replaced then rmtree (bk_ls b) (bk_fuel b) True (storage_root b) else ret ()) (\<lambda>_.
     bind (gets os_fs) (\<lambda>f.
     if path_exists f (rp_storage_rollback plan)
     then sys_rename (bk_ls b) (rp_storage_rollback plan) (storage_root b) else ret ()))))))"

definition discard_stages :: "backup_service \<Rightarrow> restore_plan \<Rightarrow> unit svc" where
  "discard_stages b plan =
     bind (rmtree (bk_ls b) (bk_fuel b) True (rp_storage_stage plan)) (\<lambda>_.
     bind (unlink_missing_ok (rp_database_stage plan)) (\<lambda>_.
     rmtree (bk_ls b) (bk_fuel b) True (rp_database_rollback plan)))"

definition restore_with_plan :: "backup_service \<Rightarrow> path \<Rightarrow> restore_plan \<Rightarrow> unit svc" where
  "restore_with_plan b backup plan =
     finally_do
       (bind (restore_steps b backup plan) (\<lambda>raised.
          case raised of
            None \<Rightarrow> ret ()
          | Some (flags, e) \<Rightarrow> bind (undo_restore b plan flags) (\<lambda>_. throw e)))
       (discard_stages b plan)"

definition restore_verified_backup :: "backup_service \<Rightarrow> str \<Rightarrow> unit svc" where
  "restore_verified_backup b backup_id =
     bind (backup_directory b backup_id) (\<lambda>backup.
     bind fresh_uuid_hex (\<lambda>token.
     restore_with_plan b backup (restore_plan_of b token)))"

text \<open>From now on the rows are those of the restored database.\<close>

definition adopt_database :: "backup_service \<Rightarrow> unit svc" where
  "adopt_database b =
     bind (gets files) (\<lambda>F.
       case F (bk_database_path b) of
         None \<Rightarrow> ret ()
       | Some content \<Rightarrow> modify (\<lambda>s. s\<lparr>w_db := sq_rows (bk_engine b) content
           (F (with_suffix (bk_database_path b) wal_suffix))\<rparr>))"

definition restore_backup :: "backup_service \<Rightarrow> str \<Rightarrow> bool \<Rightarrow> restore_report svc" where
  "restore_backup b backup_id create_safety_backup =
     bind (lift_result (safe_backup_id (bk_codec b) backup_id)) (\<lambda>selected.
     bind (verify_backup b selected) (\<lambda>verification.
     bind (if create_safety_backup
           then bind (create_backup b False False) (\<lambda>report. ret (Some (cr_backup_id report)))
           else ret None) (\<lambda>safety_backup_id.
     bind (operation_lock b (restore_verified_backup b selected)) (\<lambda>_.
     bind (adopt_database b) (\<lambda>_.
     bind (audit_backup b BACKUP_RESTORED AuditSuccess selected
             [(py ''backup_id'', PStr selected), (py ''file_count'', PInt (int (vr_file_count verification))),
              (py ''total_bytes'', PInt (vr_total_bytes verification)),
              (py ''checksum_verified'', PBool True)]) (\<lambda>_.
     ret \<lparr>rs_backup_id = selected, rs_pre_restore_backup_id = safety_backup_id,
          rs_file_count = vr_file_count verification, rs_total_bytes = vr_total_bytes verification\<rparr>))))))"

end
