(* ===== verification/CopySpecs.thy ===== *)
theory CopySpecs
  imports TreeSpecs Backups
begin

text \<open>
  Copies: what \<open>mkdir\<close>, \<open>copy2\<close>, \<open>copytree\<close> and \<open>_copy_regular_file\<close> leave behind when they
  return, and what they may leave behind when they fail.
\<close>

section \<open>Entries stay in directories\<close>

abbreviation tree_kept :: "('z os_scheme, 'a) eff \<Rightarrow> bool" where
  "tree_kept m \<equiv> keeps (\<lambda>s. tree_ok (os_fs s)) m"

lemma tree_ok_file_again:
  "tree_ok f \<Longrightarrow> f p = Some (File b m t) \<Longrightarrow> tree_ok (f(p \<mapsto> File b' m' t'))"
  unfolding tree_ok_def by (metis fun_upd_apply node.distinct(1) option.distinct(1) option.inject)

lemma not_dir_nonempty: "f (butlast p) = Some (Dir k) \<Longrightarrow> f p = None \<Longrightarrow> p \<noteq> []"
  by auto

lemma kept_by_calls:
  "tree_kept syscall" "tree_kept (sys_lstat p)" "tree_kept (sys_read p)" "tree_kept (sys_fsync p)"
  "tree_kept (sys_listdir ls p)" "tree_kept (sys_resolve strict p)" "tree_kept (sys_chmod p m)"
  "tree_kept (sys_create p m)" "tree_kept (sys_write wr p view)" "tree_kept (sys_open_write p m)"
  "tree_kept (sys_mkdir_new p m)"
  by (auto simp: keeps_def wp_simps sys_lstat_def sys_read_def sys_fsync_def sys_listdir_def
      sys_resolve_def sys_chmod_def sys_create_def sys_write_def sys_open_write_def sys_mkdir_new_def
      Let_def tree_ok_chmod tree_ok_mkdir tree_ok_file_again
      intro!: tree_ok_create not_dir_nonempty split: option.splits node.splits)

lemma tree_ok_rekind:
  assumes "tree_ok f" and "f p = Some n" and "is_real_dir (f(p \<mapsto> n')) p = is_real_dir f p"
  shows "tree_ok (f(p \<mapsto> n'))"
  unfolding tree_ok_def
proof (intro allI impI)
  fix q c assume "(f(p \<mapsto> n')) (q @ [c]) \<noteq> None"
  then have "f (q @ [c]) \<noteq> None" using assms(2) by (auto split: if_splits)
  then have "is_real_dir f q" using assms(1) by (auto simp: tree_ok_def is_real_dir_iff)
  then show "\<exists>m. (f(p \<mapsto> n')) q = Some (Dir m)"
    using assms(3) by (auto simp: is_real_dir_iff split: if_splits)
qed

lemma kept_by_utime: "tree_kept (sys_utime p t)"
  by (auto simp: keeps_def wp_simps sys_utime_def set_mtime_def is_real_dir_def
      intro!: tree_ok_rekind split: option.splits node.splits)

lemma kept_os_error_as [intro]: "keeps P m \<Longrightarrow> keeps P (os_error_as e m)"
  by (simp add: keeps_def wp_os_error_as)

lemma kept_discard [intro]: "keeps P m \<Longrightarrow> keeps P (discard m)"
  by (simp add: keeps_def wp_discard)

lemma kept_remembered [intro]: "keeps P m \<Longrightarrow> keeps P (remembered errors m)"
  unfolding remembered_def by (intro keeps_try_catch keeps_bind) auto

lemma kept_branches [intro]:
  "(b \<Longrightarrow> keeps P m) \<Longrightarrow> (\<not> b \<Longrightarrow> keeps P n) \<Longrightarrow> keeps P (if b then m else n)"
  "keeps P m \<Longrightarrow> (\<And>y. keeps P (g y)) \<Longrightarrow> keeps P (case x of None \<Rightarrow> m | Some y \<Rightarrow> g y)"
  "(\<And>a b. keeps P (k a b)) \<Longrightarrow> keeps P (case q of (a, b) \<Rightarrow> k a b)"
  by (simp_all split: option.splits prod.splits)

lemma kept_by_write_all: "tree_kept (write_all wr p view)"
proof (induction wr p view rule: write_all.induct)
  case (1 wr p view)
  show ?case
    using 1 by (subst write_all.simps) (intro kept_branches keeps_bind kept_by_calls, auto)
qed

lemma kept_by_path_mkdir: "tree_kept (path_mkdir parents exist_ok m p)"
proof (induction parents exist_ok m p rule: path_mkdir.induct)
  case (1 parents exist_ok m p)
  show ?case
    using 1 by (subst path_mkdir.simps)
      (intro kept_branches keeps_bind keeps_try_catch kept_by_calls keeps_basic, auto)
qed

lemma kept_by_copy2: "tree_kept (copy2 wr src dst)"
  unfolding copy2_def copystat_def by (intro keeps_bind kept_by_calls kept_by_utime kept_by_write_all)

lemma kept_by_copytree: "tree_kept (copytree ls wr n src dst)"
proof (induction n arbitrary: src dst)
  case (Suc n)
  show ?case
    unfolding copytree.simps Let_def copystat_def
    by (intro kept_branches keeps_bind kept_remembered keeps_fold_eff kept_by_calls kept_by_utime
        keeps_basic kept_by_path_mkdir kept_by_copy2 Suc)
qed simp

section \<open>Making a directory\<close>

lemma wp_path_mkdir:
  "wp (path_mkdir parents exist_ok m p)
     (\<lambda>_ t. os_fs s p = None \<and> os_fs t p = Some (Dir m)
        \<or> exist_ok \<and> os_fs t p = os_fs s p \<and> is_dir (os_fs t) p)
     (\<lambda>_ t. os_fs t p = os_fs s p) s"
proof (induction parents exist_ok m p arbitrary: s rule: path_mkdir.induct)
  case (1 parents exist_ok m p)
  let ?Q = "\<lambda>_ t. os_fs s p = None \<and> os_fs t p = Some (Dir m)
        \<or> exist_ok \<and> os_fs t p = os_fs s p \<and> is_dir (os_fs t) p"
  let ?E = "\<lambda>_ t. os_fs t p = os_fs s p"
  have new: "wp (sys_mkdir_new p m) (\<lambda>_ t. os_fs s p = None \<and> os_fs t p = Some (Dir m)) (\<lambda>_ t. os_fs t = os_fs s) s"
    by (auto simp: sys_mkdir_new_def wp_simps split: option.splits node.splits)
  show ?case
    apply (subst path_mkdir.simps)
    apply (rule wp_try_spec [OF new])
     apply simp
    subgoal for e t
    proof (cases "e = FileNotFoundError")
      case True
      assume t: "os_fs t = os_fs s"
      show ?thesis
      proof (cases "parents \<and> p \<noteq> []")
        case False
        then show ?thesis using True t by (auto simp: wp_simps)
      next
        case parents: True
        have frame: "wp (path_mkdir True True default_directory_mode (butlast p))
            (\<lambda>_. confined {} {butlast p} t) (\<lambda>_. confined {} {butlast p} t) t"
          by (rule obeysD [OF cf_path_mkdir]) (simp add: on_way_self)
        have same: "os_fs v p = os_fs s p" if "confined {} {butlast p} t v" for v
        proof -
          have "\<not> starts_with p (butlast p)" using parents
            by (cases p rule: rev_cases) (auto simp: starts_with_iff)
          then show ?thesis using that t parents
            by (cases p rule: rev_cases) (auto simp: confined_def under_def same_entry_def)
        qed
        have "wp (bind (path_mkdir True True default_directory_mode (butlast p)) (\<lambda>_. path_mkdir False exist_ok m p)) ?Q ?E t"
          by (rule wp_bind_spec [OF frame]) (use parents same in \<open>auto intro!: wp_mono [OF 1(2)]\<close>)
        then show ?thesis using True parents by simp
      qed
    next
      case False
      assume "os_fs t = os_fs s"
      then show ?thesis using False by (auto simp: wp_simps)
    qed
    done
qed

text \<open>The frame of \<open>mkdir\<close> as a set of entries: below the new directory nothing changes.\<close>

lemma path_mkdir_below:
  "wp (path_mkdir parents exist_ok m p) (\<lambda>_ t. \<forall>q. q \<noteq> [] \<longrightarrow> os_fs t (p @ q) = os_fs s (p @ q))
     (\<lambda>_ t. \<forall>q. q \<noteq> [] \<longrightarrow> os_fs t (p @ q) = os_fs s (p @ q)) s"
proof -
  have "os_fs t (p @ q) = os_fs s (p @ q)" if "confined {} {p} s t" "q \<noteq> []" for t q
    using that by (auto simp: confined_def under_def same_entry_def starts_with_iff)
  then show ?thesis
    by (intro wp_mono [OF obeysD [OF cf_path_mkdir [of "{}" "{p}"]]]) (auto simp: on_way_self)
qed

section \<open>Copying one file\<close>

definition same_kind :: "node \<Rightarrow> node \<Rightarrow> bool" where
  "same_kind m n = (case m of
      Dir _ \<Rightarrow> (case n of Dir _ \<Rightarrow> True | _ \<Rightarrow> False)
    | File _ _ _ \<Rightarrow> is_regular n
    | Link _ _ \<Rightarrow> False)"

definition kind_at :: "fs \<Rightarrow> path \<Rightarrow> fs \<Rightarrow> path \<Rightarrow> bool" where
  "kind_at f p g q \<longleftrightarrow> (case g q of None \<Rightarrow> True
     | Some n \<Rightarrow> (case f p of None \<Rightarrow> False | Some m \<Rightarrow> same_kind m n))"

lemma wp_copystat:
  assumes "os_fs s src = Some (File b m t)" and "os_fs s dst = Some (File c k u)" and "src \<noteq> dst"
  shows "wp (copystat src dst) (\<lambda>_ v. os_fs v dst = Some (File c m t)) (\<lambda>_ v. \<exists>k u. os_fs v dst = Some (File c k u)) s"
  using assms
  by (auto simp: copystat_def sys_lstat_def sys_utime_def sys_chmod_def set_mtime_def wp_simps)

lemma wp_sys_open_write:
  "os_fs s p = None \<Longrightarrow> wp (sys_open_write p m) (\<lambda>_ t. writing s p m [] t) (\<lambda>_ t. os_fs t = os_fs s) s"
  by (auto simp: sys_open_write_def wp_simps writing_def split: option.splits node.splits)

lemma wp_copy2:
  assumes src: "os_fs s src = Some (File b m t)" and free: "os_fs s dst = None"
  shows "wp (copy2 wr src dst) (\<lambda>_ v. os_fs v dst = Some (File b m t))
     (\<lambda>_ v. kind_at (os_fs s) src (os_fs v) dst) s"
proof -
  have kind: "kind_at (os_fs s) src f dst" if "f dst = None \<or> (\<exists>c k u. f dst = Some (File c k u))" for f
    using that src by (auto simp: kind_at_def same_kind_def)
  have ne: "src \<noteq> dst" using src free by auto
  have rd: "wp (sys_read src) (\<lambda>x t. x = b \<and> os_fs t = os_fs s) (\<lambda>_ t. os_fs t = os_fs s) s"
    using src by (auto simp: sys_read_def wp_simps)
  show ?thesis
    unfolding copy2_def
  proof (rule wp_bind_spec [OF rd], goal_cases)
    case (1 x v)
    then have f: "os_fs v dst = None" using free by simp
    show ?case
    proof (rule wp_bind_spec [OF wp_sys_open_write [OF f]], goal_cases)
      case (1 y w)
      then have wr: "writing v dst default_file_mode [] w" .
      show ?case
      proof (rule wp_bind_spec [OF wp_write_all [OF wr]], goal_cases)
        case (1 z u)
        then obtain time where u: "os_fs u = (os_fs s)(dst \<mapsto> File b default_file_mode time)"
          using \<open>x = b \<and> os_fs v = os_fs s\<close> by (auto simp: writing_def)
        then have "os_fs u src = Some (File b m t)" "os_fs u dst = Some (File b default_file_mode time)"
          using src ne by auto
        then show ?case by (rule wp_mono [OF wp_copystat [OF _ _ ne]]) (auto intro: kind)
      qed (auto dest!: writing_content intro: kind)
    qed (use f in \<open>auto intro: kind\<close>)
  qed (use free in \<open>auto intro: kind\<close>)
qed

section \<open>Copying a tree\<close>

definition unrelated :: "path \<Rightarrow> path \<Rightarrow> bool" where
  "unrelated p q \<longleftrightarrow> \<not> starts_with p q \<and> \<not> starts_with q p"

definition partial_copy :: "fs \<Rightarrow> path \<Rightarrow> fs \<Rightarrow> path \<Rightarrow> bool" where
  "partial_copy f src g dst \<longleftrightarrow> (\<forall>q. kind_at f (src @ q) g (dst @ q))"

text \<open>A source tree without links whose names the listing shows.\<close>

definition plain_tree :: "str set \<Rightarrow> fs \<Rightarrow> path \<Rightarrow> bool" where
  "plain_tree N f p \<longleftrightarrow> (\<forall>q. \<not> is_symlink f (p @ q) \<and> (f (p @ q) \<noteq> None \<longrightarrow> set q \<subseteq> N))"

text \<open>After some of the names: what is copied, what is not there yet.\<close>

definition copy_progress :: "fs \<Rightarrow> path \<Rightarrow> str set \<Rightarrow> bool \<Rightarrow> fs \<Rightarrow> path \<Rightarrow> bool" where
  "copy_progress f src X errors g dst \<longleftrightarrow> is_real_dir g dst
     \<and> (\<forall>c q. kind_at f (src @ c # q) g (dst @ c # q))
     \<and> (\<forall>c q. c \<in> X \<and> \<not> errors \<longrightarrow> g (dst @ c # q) = f (src @ c # q))
     \<and> (\<forall>c q. c \<notin> X \<longrightarrow> g (dst @ c # q) = None)"

lemma tree_ok_none_below: "tree_ok f \<Longrightarrow> \<not> is_real_dir f p \<Longrightarrow> f (p @ c # q) = None"
  using tree_ok_below by blast

lemma confined_same:
  assumes "confined {r} {} s t" and "\<not> starts_with r p" and "\<not> starts_with p r \<or> os_fs s p \<noteq> None"
  shows "os_fs t p = os_fs s p"
  using assms by (auto simp: confined_def under_def same_entry_def)

lemma unrelated_below:
  assumes "unrelated p q" shows "\<not> starts_with q (p @ r)" and "\<not> starts_with (p @ r) q"
  using assms by (auto simp: unrelated_def starts_with_iff append_eq_append_conv2)

lemma same_below_unrelated:
  assumes "confined {dst} {} s t" and "unrelated src dst"
  shows "os_fs t (src @ q) = os_fs s (src @ q)"
  using confined_same [OF assms(1)] unrelated_below [OF assms(2)] by blast

definition copy_child ::
  "listing \<Rightarrow> (nat \<Rightarrow> nat \<Rightarrow> nat) \<Rightarrow> nat \<Rightarrow> path \<Rightarrow> path \<Rightarrow> ('z os_scheme, unit) eff" where
  "copy_child ls wr n src dst =
     bind (gets os_fs) (\<lambda>f. if is_real_dir f src then copytree ls wr n src dst else copy2 wr src dst)"

definition copies :: "('z os_scheme, unit) eff \<Rightarrow> path \<Rightarrow> path \<Rightarrow> 'z os_scheme \<Rightarrow> bool" where
  "copies m src dst s \<longleftrightarrow>
     wp m (\<lambda>_ t. (\<forall>q. os_fs t (dst @ q) = os_fs s (src @ q)) \<and> confined {dst} {} s t \<and> tree_ok (os_fs t))
       (\<lambda>_ t. partial_copy (os_fs s) src (os_fs t) dst \<and> confined {dst} {} s t \<and> tree_ok (os_fs t)) s"

lemma kind_at_same: "g q = f p \<Longrightarrow> \<not> is_symlink f p \<Longrightarrow> kind_at f p g q"
  by (auto simp: kind_at_def same_kind_def is_symlink_def split: option.splits node.splits)

lemma copies_child:
  assumes tree: "\<And>(t :: 'z os_scheme). tree_ok (os_fs t) \<Longrightarrow> plain_tree N (os_fs t) src \<Longrightarrow> os_fs t dst = None \<Longrightarrow>
      copies (copytree ls wr n src dst) src dst t"
    and ok: "tree_ok (os_fs (s :: 'z os_scheme))" and plain: "plain_tree N (os_fs s) src"
    and src: "os_fs s src \<noteq> None" and dst: "os_fs s dst = None" and un: "unrelated src dst"
  shows "copies (copy_child ls wr n src dst) src dst s"
proof (cases "is_real_dir (os_fs s) src")
  case True
  then show ?thesis using tree [OF ok plain dst] by (simp add: copies_def copy_child_def wp_simps)
next
  case False
  have "\<not> is_symlink (os_fs s) (src @ [])" using plain unfolding plain_tree_def by blast
  moreover obtain node where node: "os_fs s src = Some node" using src by blast
  ultimately obtain b m t where reg: "os_fs s src = Some (File b m t)"
    using False by (cases node) (auto simp: is_real_dir_iff is_symlink_def)
  have "obeys (confined {dst} {}) (copy2 wr src dst)" by (intro cf_copy2 under_root) simp
  note run = wp_conj [OF cf.with_result [OF this wp_copy2 [OF reg dst]] keepsD [OF kept_by_copy2 ok]]
  have below: "os_fs s (src @ c # q) = None" for c q by (rule tree_ok_none_below [OF ok False])
  have none: "os_fs u (dst @ c # q) = None" if "tree_ok (os_fs u)" "\<not> is_real_dir (os_fs u) dst" for u :: "'z os_scheme" and c q
    using tree_ok_none_below that by blast
  have nodir: "\<not> is_real_dir g dst" if "kind_at (os_fs s) src g dst" for g
    using that reg by (auto simp: kind_at_def same_kind_def is_real_dir_iff)
  have "copies (copy2 wr src dst) src dst s"
    unfolding copies_def
  proof (rule wp_mono [OF run], goal_cases)
    case (1 x u)
    then have "os_fs u (dst @ q) = os_fs s (src @ q)" for q
      using reg below none [of u] by (cases q) (auto simp: is_real_dir_iff)
    then show ?case using 1 by simp
  next
    case (2 e u)
    then have "kind_at (os_fs s) (src @ q) (os_fs u) (dst @ q)" for q
      using none [of u] nodir by (cases q) (auto simp: kind_at_def)
    then show ?case using 2 by (simp add: partial_copy_def)
  qed
  then show ?thesis using False by (simp add: copies_def copy_child_def wp_simps)
qed

lemma confined_child_elsewhere:
  assumes "confined {dst @ [c]} {} t u" and "is_real_dir (os_fs t) dst"
  shows "os_fs u dst = os_fs t dst" and "d \<noteq> c \<Longrightarrow> os_fs u (dst @ d # q) = os_fs t (dst @ d # q)"
    and "confined {dst} {} t u"
proof -
  show "os_fs u dst = os_fs t dst"
    by (rule confined_same [OF assms(1)]) (use assms(2) in \<open>auto simp: is_real_dir_iff\<close>)
  show "confined {dst} {} t u"
    by (rule confined_mono [OF assms(1)]) (auto simp: under_def)
  assume "d \<noteq> c"
  then have "\<not> starts_with (dst @ [c]) (dst @ d # q)" "\<not> starts_with (dst @ d # q) (dst @ [c])"
    by (auto simp: starts_with_iff)
  then show "os_fs u (dst @ d # q) = os_fs t (dst @ d # q)" using confined_same [OF assms(1)] by blast
qed

text \<open>One name of the loop.\<close>

definition copy_state :: "fs \<Rightarrow> path \<Rightarrow> str set \<Rightarrow> bool \<Rightarrow> path \<Rightarrow> 'z os_scheme \<Rightarrow> 'z os_scheme \<Rightarrow> bool" where
  "copy_state f src X errors dst s t \<longleftrightarrow>
     copy_progress f src X errors (os_fs t) dst \<and> confined {dst} {} s t \<and> tree_ok (os_fs t)"

lemma copy_progress_step:
  assumes "copy_progress f src X errors g dst" and "h dst = g dst"
    and "\<And>d q. d \<noteq> c \<Longrightarrow> h (dst @ d # q) = g (dst @ d # q)"
    and "\<And>q. kind_at f (src @ c # q) h (dst @ c # q)"
    and "\<not> errors' \<Longrightarrow> \<not> errors \<and> (\<forall>q. h (dst @ c # q) = f (src @ c # q))"
  shows "copy_progress f src (insert c X) errors' h dst"
  unfolding copy_progress_def
proof (intro conjI allI impI)
  show "is_real_dir h dst" using assms(1,2) by (simp add: copy_progress_def is_real_dir_def)
  fix d q
  show "kind_at f (src @ d # q) h (dst @ d # q)"
    using assms(1,3,4) by (cases "d = c") (auto simp: copy_progress_def kind_at_def)
  show "h (dst @ d # q) = f (src @ d # q)" if "d \<in> insert c X \<and> \<not> errors'"
    using that assms(1,3,5) by (cases "d = c") (auto simp: copy_progress_def)
  show "h (dst @ d # q) = None" if "d \<notin> insert c X"
    using that assms(1,3) by (auto simp: copy_progress_def)
qed

lemma partial_of_progress:
  assumes "copy_progress f src X errors g dst" and "is_real_dir f src"
  shows "partial_copy f src g dst"
  unfolding partial_copy_def
proof
  fix q
  show "kind_at f (src @ q) g (dst @ q)"
    using assms by (cases q) (auto simp: copy_progress_def kind_at_def same_kind_def is_real_dir_iff)
qed

lemma wp_copy_entry:
  assumes state: "copy_state (os_fs s) src X errors dst s t" and un: "unrelated src dst"
    and child: "copies m (src @ [c]) (dst @ [c]) t" and plain: "plain_tree N (os_fs s) src"
    and dir: "is_real_dir (os_fs s) src"
  shows "wp (remembered errors m) (\<lambda>errors'. copy_state (os_fs s) src (insert c X) errors' dst s)
     (\<lambda>_ u. partial_copy (os_fs s) src (os_fs u) dst \<and> is_real_dir (os_fs u) dst
        \<and> confined {dst} {} s u \<and> tree_ok (os_fs u)) t"
proof -
  let ?f = "os_fs s"
  note st = state [unfolded copy_state_def]
  have dst: "is_real_dir (os_fs t) dst" using st by (simp add: copy_progress_def)
  have src: "os_fs t (src @ c # q) = ?f (src @ c # q)" for q
    using same_below_unrelated un st by blast
  have link: "\<not> is_symlink ?f (src @ q)" for q using plain by (simp add: plain_tree_def)
  have kind: "kind_at (os_fs t) (src @ c # q) g p = kind_at ?f (src @ c # q) g p" for q g p
    unfolding kind_at_def src ..
  have after: "copy_state ?f src (insert c X) errors' dst s u"
    if u: "confined {dst @ [c]} {} t u" "tree_ok (os_fs u)"
      and "\<And>q. kind_at ?f (src @ c # q) (os_fs u) (dst @ c # q)"
      and "\<not> errors' \<Longrightarrow> \<not> errors \<and> (\<forall>q. os_fs u (dst @ c # q) = ?f (src @ c # q))" for u errors'
    using copy_progress_step [of ?f src X errors "os_fs t" dst "os_fs u" c errors'] st that
      confined_child_elsewhere [OF u(1) dst] cf.trans [of "{dst}" "{}" s t u]
    unfolding copy_state_def by blast
  have body: "wp (bind m (\<lambda>_. ret errors))
     (\<lambda>r u. r = errors \<and> (\<forall>q. os_fs u (dst @ c # q) = ?f (src @ c # q))
        \<and> confined {dst @ [c]} {} t u \<and> tree_ok (os_fs u))
     (\<lambda>_ u. (\<forall>q. kind_at ?f (src @ c # q) (os_fs u) (dst @ c # q))
        \<and> confined {dst @ [c]} {} t u \<and> tree_ok (os_fs u)) t"
    by (rule wp_bind_spec [OF child [unfolded copies_def]])
      (use src kind in \<open>auto simp: wp_simps partial_copy_def\<close>)
  show ?thesis
    unfolding remembered_def
  proof (rule wp_try_spec [OF body], goal_cases)
    case (1 x u)
    then show ?case using after [of u errors] link by (simp add: kind_at_same)
  next
    case (2 e u)
    then have "copy_state ?f src (insert c X) True dst s u" using after [of u True] by simp
    moreover from this have "partial_copy ?f src (os_fs u) dst"
      using partial_of_progress dir by (auto simp: copy_state_def)
    ultimately show ?case by (auto simp: wp_simps copy_state_def copy_progress_def)
  qed
qed

definition copy_step ::
  "listing \<Rightarrow> (nat \<Rightarrow> nat \<Rightarrow> nat) \<Rightarrow> nat \<Rightarrow> path \<Rightarrow> path \<Rightarrow> str \<Rightarrow> bool \<Rightarrow> ('z os_scheme, bool) eff" where
  "copy_step ls wr n src dst name errors =
     bind (gets os_fs) (\<lambda>f.
       let entry = (if is_symlink f (src @ [name])
                    then resolve True f (src @ [name]) else Some (src @ [name])) in
       remembered errors
         (case entry of
            None \<Rightarrow> throw FileNotFoundError
          | Some q \<Rightarrow> if is_real_dir f q then copytree ls wr n q (dst @ [name])
                      else copy2 wr q (dst @ [name])))"

lemma wp_copy_step:
  "\<not> is_symlink (os_fs t) (src @ [c]) \<Longrightarrow>
   wp (copy_step ls wr n src dst c errors) Q E t =
     wp (remembered errors (copy_child ls wr n (src @ [c]) (dst @ [c]))) Q E t"
  by (simp add: copy_step_def remembered_def copy_child_def wp_simps)

lemma wp_copy_loop:
  assumes child: "\<And>c t. c \<in> children (os_fs s) src \<Longrightarrow> confined {dst} {} s t \<Longrightarrow> tree_ok (os_fs t) \<Longrightarrow>
      os_fs t (dst @ [c]) = None \<Longrightarrow> copies (copy_child ls wr n (src @ [c]) (dst @ [c])) (src @ [c]) (dst @ [c]) t"
    and un: "unrelated src dst" and plain: "plain_tree N (os_fs s) src" and dir: "is_real_dir (os_fs s) src"
    and "copy_state (os_fs s) src X errors dst s t" and "distinct cs" and "set cs \<inter> X = {}"
    and "set cs \<subseteq> children (os_fs s) src"
  shows "wp (fold_eff (copy_step ls wr n src dst) cs errors)
     (\<lambda>errors'. copy_state (os_fs s) src (X \<union> set cs) errors' dst s)
     (\<lambda>_ u. partial_copy (os_fs s) src (os_fs u) dst \<and> is_real_dir (os_fs u) dst
        \<and> confined {dst} {} s u \<and> tree_ok (os_fs u)) t"
  using assms(5-)
proof (induction cs arbitrary: X errors t)
  case Nil
  then show ?case by (simp add: wp_simps)
next
  case (Cons c cs)
  note st = Cons.prems(1) [unfolded copy_state_def]
  have "os_fs t (dst @ [c]) = None"
    using st Cons.prems(3) by (auto simp: copy_progress_def)
  then have one: "copies (copy_child ls wr n (src @ [c]) (dst @ [c])) (src @ [c]) (dst @ [c]) t"
    using st Cons.prems(4) by (intro child) auto
  have "\<not> is_symlink (os_fs s) (src @ [c])" using plain by (simp add: plain_tree_def)
  moreover have "os_fs t (src @ [c]) = os_fs s (src @ [c])" using same_below_unrelated un st by blast
  ultimately have link: "\<not> is_symlink (os_fs t) (src @ [c])" by (simp add: is_symlink_def)
  show ?case
    unfolding fold_eff.simps wp_bind wp_copy_step [OF link]
  proof (rule wp_mono [OF wp_copy_entry [OF Cons.prems(1) un one plain dir]], goal_cases)
    case (1 errors' u)
    have "X \<union> set (c # cs) = insert c X \<union> set cs" by simp
    then show ?case using Cons.IH [OF 1] Cons.prems(2-4) by simp
  qed
qed

lemma copytree_Suc:
  "copytree ls wr (Suc n) src dst =
     bind (sys_listdir ls src) (\<lambda>names.
     bind (path_mkdir True False default_directory_mode dst) (\<lambda>_.
     bind (fold_eff (copy_step ls wr n src dst) names False) (\<lambda>errors.
     bind (remembered errors (copystat src dst)) (\<lambda>errors. raise_if errors OSError))))"
  unfolding copytree.simps copy_step_def [abs_def] ..

declare copytree.simps(2) [simp del]

lemma wp_copystat_dir:
  assumes "os_fs s src = Some (Dir k)" and "os_fs s dst = Some (Dir m)"
  shows "wp (copystat src dst) (\<lambda>_ t. os_fs t = (os_fs s)(dst \<mapsto> Dir k)) (\<lambda>_ t. os_fs t = os_fs s) s"
  using assms
  by (auto simp: copystat_def sys_lstat_def sys_utime_def sys_chmod_def set_mtime_def wp_simps fun_upd_idem)

lemma plain_tree_same:
  "plain_tree N f p \<Longrightarrow> (\<And>q. g (p @ q) = f (p @ q)) \<Longrightarrow> plain_tree N g p"
  by (simp add: plain_tree_def is_symlink_def)

lemma plain_tree_child:
  assumes "plain_tree N f p" shows "plain_tree N f (p @ [c])"
  unfolding plain_tree_def
proof (intro allI conjI impI)
  fix q
  have "\<not> is_symlink f (p @ (c # q))" "f (p @ (c # q)) \<noteq> None \<longrightarrow> set (c # q) \<subseteq> N"
    using assms unfolding plain_tree_def by blast+
  then show "\<not> is_symlink f ((p @ [c]) @ q)" "f ((p @ [c]) @ q) \<noteq> None \<Longrightarrow> set q \<subseteq> N" by auto
qed

lemma plain_tree_children: "plain_tree N f p \<Longrightarrow> children f p \<subseteq> N"
  unfolding plain_tree_def children_def by fastforce

lemma unrelated_children: "unrelated p q \<Longrightarrow> unrelated (p @ [c]) (q @ [d])"
  by (auto simp: unrelated_def starts_with_iff append_eq_append_conv2)

lemma copystat_finishes:
  assumes state: "copy_state (os_fs s) src (children (os_fs s) src) errors dst s t"
    and src: "os_fs t src = os_fs s src" and dir: "os_fs s src = Some (Dir k)" and ok: "tree_ok (os_fs s)"
  shows "wp (bind (remembered errors (copystat src dst)) (\<lambda>errors. raise_if errors OSError))
     (\<lambda>_ u. \<forall>q. os_fs u (dst @ q) = os_fs s (src @ q))
     (\<lambda>_ u. partial_copy (os_fs s) src (os_fs u) dst) t"
proof -
  let ?f = "os_fs s" and ?X = "children (os_fs s) src"
  have P: "copy_progress ?f src ?X errors (os_fs t) dst" using state by (simp add: copy_state_def)
  then obtain m where dst: "os_fs t dst = Some (Dir m)" by (auto simp: copy_progress_def is_real_dir_iff)
  have P': "copy_progress ?f src ?X errors ((os_fs t)(dst \<mapsto> Dir k)) dst"
    using P by (simp add: copy_progress_def is_real_dir_def kind_at_def)
  have dir': "is_real_dir ?f src" using dir by (simp add: is_real_dir_iff)
  have absent: "?f (src @ c # q) = None" if "c \<notin> ?X" for c q
  proof -
    have "?f (src @ [c]) = None" using that by (simp add: children_def)
    then show ?thesis
      using tree_ok_none_below [OF ok, of "src @ [c]"] by (cases q) (auto simp: is_real_dir_iff)
  qed
  have full: "((os_fs t)(dst \<mapsto> Dir k)) (dst @ q) = ?f (src @ q)" if "\<not> errors" for q
  proof (cases q)
    case (Cons c r)
    then show ?thesis using P that absent [of c r] by (cases "c \<in> ?X") (auto simp: copy_progress_def)
  qed (use dir in simp)
  have body: "wp (bind (copystat src dst) (\<lambda>_. ret errors))
      (\<lambda>r u. r = errors \<and> os_fs u = (os_fs t)(dst \<mapsto> Dir k)) (\<lambda>_ u. os_fs u = os_fs t) t"
    by (rule wp_bind_spec [OF wp_copystat_dir]) (use src dir dst in \<open>auto simp: wp_simps\<close>)
  have "wp (remembered errors (copystat src dst))
      (\<lambda>r u. r = errors \<and> os_fs u = (os_fs t)(dst \<mapsto> Dir k) \<or> r \<and> os_fs u = os_fs t)
      (\<lambda>_ u. os_fs u = os_fs t) t"
    unfolding remembered_def by (rule wp_try_spec [OF body]) (auto simp: wp_simps)
  then show ?thesis
  proof (rule wp_bind_spec, goal_cases)
    case (1 r u)
    then show ?case
      using full partial_of_progress [OF P dir'] partial_of_progress [OF P' dir']
      by (auto simp: wp_simps)
  qed (use partial_of_progress [OF P dir'] in auto)
qed

lemma wp_copytree:
  fixes s :: "'z os_scheme"
  assumes ls: "listing_ok ls N"
  shows "tree_ok (os_fs s) \<Longrightarrow> plain_tree N (os_fs s) src \<Longrightarrow> unrelated src dst \<Longrightarrow> os_fs s dst = None \<Longrightarrow>
    copies (copytree ls wr n src dst) src dst s"
proof (induction n arbitrary: s src dst)
  case 0
  have "os_fs s (dst @ q) = None" for q
    using tree_ok_none_below [OF 0(1), of dst] 0(4) by (cases q) (auto simp: is_real_dir_iff)
  then show ?case using 0 by (simp add: copies_def wp_simps partial_copy_def kind_at_def cf.refl)
next
  case (Suc n)
  note ok = Suc.prems(1) and plain = Suc.prems(2) and un = Suc.prems(3) and free = Suc.prems(4)
  let ?f = "os_fs s"
  let ?frame = "\<lambda>t. confined {dst} {} s t \<and> tree_ok (os_fs t)"
  have none: "?f (dst @ q) = None" for q
    using tree_ok_none_below [OF ok, of dst] free by (cases q) (auto simp: is_real_dir_iff)
  have untouched: "partial_copy ?f src (os_fs t) dst" if "\<And>q. os_fs t (dst @ q) = None" for t :: "'z os_scheme"
    using that by (simp add: partial_copy_def kind_at_def)
  have listed: "wp (sys_listdir ls src) (\<lambda>names t. (is_real_dir ?f src \<and> names = ls ?f src \<and> os_fs t = ?f) \<and> confined {dst} {} s t)
      (\<lambda>_ t. os_fs t = ?f \<and> confined {dst} {} s t) s"
    by (rule cf.with_result [OF cf_looking(6)])
      (auto simp: sys_listdir_def wp_simps is_real_dir_iff split: option.splits node.splits)
  have body: "wp (copytree ls wr (Suc n) src dst) (\<lambda>_ t. \<forall>q. os_fs t (dst @ q) = ?f (src @ q))
      (\<lambda>_ t. partial_copy ?f src (os_fs t) dst) s"
    unfolding copytree_Suc
  proof (rule wp_bind_spec [OF listed], goal_cases)
    case (1 names t)
    then have dir: "is_real_dir ?f src" and names: "names = ls ?f src" and t: "os_fs t = ?f" "confined {dst} {} s t"
      by auto
    have on: "on_way {dst} {} dst" by (simp add: on_way_self)
    have made: "wp (path_mkdir True False default_directory_mode dst)
        (\<lambda>_ u. copy_state ?f src {} False dst s u)
        (\<lambda>_ u. partial_copy ?f src (os_fs u) dst) t"
    proof (rule wp_mono [OF wp_conj [OF wp_conj [OF wp_path_mkdir path_mkdir_below]
            wp_conj [OF obeysD [OF cf_path_mkdir [OF on]] keepsD [OF kept_by_path_mkdir]]]], goal_cases)
      case 1
      then show ?case using t ok by simp
    next
      case (2 x u)
      then show ?case
        using t none cf.trans [of "{dst}" "{}" s t u]
        by (auto simp: copy_state_def copy_progress_def kind_at_def is_real_dir_iff)
    next
      case (3 e u)
      then have "os_fs u (dst @ q) = None" for q using t none free by (cases q) auto
      then show ?case by (rule untouched)
    qed
    have kids: "set names = children ?f src" "distinct names"
      using listing_okD [OF ls plain_tree_children [OF plain]] names by auto
    show ?case
    proof (rule wp_bind_spec [OF made], goal_cases)
      case (1 x u)
      have child: "copies (copy_child ls wr n (src @ [c]) (dst @ [c])) (src @ [c]) (dst @ [c]) v"
        if "c \<in> children ?f src" "confined {dst} {} s v" "tree_ok (os_fs v)" "os_fs v (dst @ [c]) = None" for c v
      proof -
        have same: "os_fs v (src @ q) = ?f (src @ q)" for q by (rule same_below_unrelated [OF that(2) un])
        have pc: "plain_tree N (os_fs v) (src @ [c])"
          using plain_tree_child [OF plain_tree_same [OF plain same]] .
        have "os_fs v (src @ [c]) \<noteq> None" using that(1) same by (simp add: children_def)
        then show ?thesis
          by (intro copies_child [where N = N] Suc.IH that pc unrelated_children un)
      qed
      have loop: "wp (fold_eff (copy_step ls wr n src dst) names False)
         (\<lambda>errors'. copy_state ?f src ({} \<union> set names) errors' dst s)
         (\<lambda>_ v. partial_copy ?f src (os_fs v) dst \<and> is_real_dir (os_fs v) dst
            \<and> confined {dst} {} s v \<and> tree_ok (os_fs v)) u"
        by (rule wp_copy_loop [OF _ un plain dir 1 kids(2)], rule child) (use kids in auto)
      show ?case
      proof (rule wp_bind_spec [OF loop], goal_cases)
        case (1 errors v)
        then have "copy_state ?f src (children ?f src) errors dst s v" using kids by simp
        moreover obtain k where "?f src = Some (Dir k)" using dir by (auto simp: is_real_dir_iff)
        moreover have "os_fs v (src @ []) = ?f (src @ [])"
          using 1 same_below_unrelated [OF _ un] unfolding copy_state_def by blast
        ultimately show ?case by (intro copystat_finishes ok) simp_all
      qed auto
    qed
  qed (use untouched none in auto)
  have frame: "obeys (confined {dst} {}) (copytree ls wr (Suc n) src dst)"
    by (intro cf_copytree under_root) simp
  show ?case
    unfolding copies_def
    by (rule wp_mono [OF wp_conj [OF cf.with_result [OF frame body] keepsD [OF kept_by_copytree ok]]]) auto
qed

section \<open>\<open>_copy_regular_file\<close> and SQLite\<close>

lemma wp_regular_file:
  "wp (regular_file p) (\<lambda>n t. os_fs t = os_fs s \<and> os_fs s p = Some n \<and> is_regular n)
     (\<lambda>_ t. os_fs t = os_fs s) s"
  by (auto simp: regular_file_def sys_lstat_def wp_simps split: option.splits)

lemma regular_node: "is_regular n \<Longrightarrow> \<exists>b m t. n = File b m t"
  by (cases n) auto

lemma cf_regular_file: "obeys (confined A C) (regular_file p)"
  unfolding regular_file_def by (intro cf.bind cf.os_error_as cf.branches cf_looking cf.basic)

lemma cf_sha256_file: "obeys (confined A C) (sha256_file sha p)"
  unfolding sha256_file_def by (intro cf.bind cf_looking cf.basic)

lemma on_way_parent: "under A p \<Longrightarrow> on_way A C (butlast p)"
  by (rule on_way_butlast) (simp add: on_way_def)

lemma cf_copy_regular_file: "under A dst \<Longrightarrow> obeys (confined A C) (copy_regular_file wr sha src dst)"
  unfolding copy_regular_file_def
  by (intro cf.bind cf.branches cf.os_error_as cf_regular_file cf_sha256_file cf_path_mkdir cf_looking
      cf_changing cf_write_all cf.basic on_way_parent)

lemma kept_by_regular_file: "tree_kept (regular_file p)"
  unfolding regular_file_def by (intro keeps_bind kept_os_error_as kept_branches kept_by_calls keeps_basic)

lemma kept_by_copy_regular_file: "tree_kept (copy_regular_file wr sha src dst)"
  unfolding copy_regular_file_def sha256_file_def
  by (intro keeps_bind kept_branches kept_os_error_as kept_by_regular_file kept_by_path_mkdir
      kept_by_calls kept_by_write_all keeps_basic)

lemma wp_sha256_at:
  assumes "os_fs s p = Some (File b m t)"
  shows "wp (sha256_file sha p) (\<lambda>r v. r = (sha b, int (length b)) \<and> os_fs v = os_fs s) (\<lambda>_ v. os_fs v = os_fs s) s"
  by (rule wp_mono [OF wp_sha256_file]) (use assms in \<open>auto simp: looked_eqs files_def file_at_def\<close>)

definition file_put :: "fs \<Rightarrow> path \<Rightarrow> fs \<Rightarrow> bool" where
  "file_put f p g \<longleftrightarrow> (\<exists>c k time. g = f(p \<mapsto> File c k time))"

lemma file_putI [simp, intro]: "file_put f p (f(p \<mapsto> File c k time))"
  by (auto simp: file_put_def)

lemma wp_write_new_file:
  assumes "os_fs s src = Some (File b m u)"
  shows "wp (bind (sys_read src) (\<lambda>content.
              bind (sys_create dst default_file_mode) (\<lambda>_.
              bind (write_all wr dst content) (\<lambda>_.
              bind (sys_fsync dst) (\<lambda>_.
              sys_chmod dst 384)))))
     (\<lambda>_ t. os_fs s dst = None \<and> (\<exists>time. os_fs t = (os_fs s)(dst \<mapsto> File b 384 time)))
     (\<lambda>_ t. os_fs t = os_fs s \<or> file_put (os_fs s) dst (os_fs t)) s"
proof -
  have rd: "wp (sys_read src) (\<lambda>x t. x = b \<and> os_fs t = os_fs s) (\<lambda>_ t. os_fs t = os_fs s) s"
    using assms by (auto simp: sys_read_def wp_simps)
  show ?thesis
  proof (rule wp_bind_spec [OF rd], goal_cases)
    case (1 x v)
    then have v: "x = b" "os_fs v = os_fs s" by auto
    show ?case
    proof (rule wp_bind_spec [OF wp_sys_create], goal_cases)
      case (1 y w)
      then have free: "os_fs s dst = None" and wr: "writing v dst default_file_mode [] w"
        using v by (auto simp: creatable_def)
      show ?case
      proof (rule wp_bind_spec [OF wp_write_all [OF wr]], goal_cases)
        case (1 z u)
        then obtain time where u: "os_fs u = (os_fs s)(dst \<mapsto> File b default_file_mode time)"
          using v by (auto simp: writing_def)
        show ?case
          by (rule wp_bind_spec [OF wp_sys_fsync])
            (use u free in \<open>auto simp: wp_simps sys_chmod_def looked_eqs\<close>)
      qed (use v in \<open>auto simp: writing_def\<close>)
    qed (use v in \<open>auto simp: looked_eqs\<close>)
  qed auto
qed

lemma wp_copy_regular_file:
  assumes "dst \<noteq> []"
  shows "wp (copy_regular_file wr sha src dst)
     (\<lambda>e t. \<exists>c m u time. os_fs s src = Some (File c m u) \<and> os_fs s dst = None
        \<and> os_fs t dst = Some (File c 384 time) \<and> be_size_bytes e = int (length c) \<and> be_sha256 e = sha c)
     (\<lambda>_ t. os_fs t dst = os_fs s dst \<or> \<not> is_real_dir (os_fs t) dst) s"
  unfolding copy_regular_file_def
proof (rule wp_bind_spec [OF wp_regular_file], goal_cases)
  case (1 n s1)
  then obtain c m u where src: "os_fs s src = Some (File c m u)" and n: "n = File c m u" and s1: "os_fs s1 = os_fs s"
    using regular_node by blast
  have ne: "\<not> starts_with dst (butlast dst)" "dst \<noteq> butlast dst" using assms
    by (cases dst rule: rev_cases; auto simp: starts_with_iff)+
  show ?case
  proof (rule wp_bind_spec [OF obeysD [OF cf_path_mkdir [of "{}" "{butlast dst}"]]], simp add: on_way_self, goal_cases)
    case (1 x t)
    have "same_entry {} {butlast dst} (os_fs s1) (os_fs t) p" for p
      using 1 by (simp add: confined_def under_def)
    from this [of dst] this [of src] have keep: "os_fs t dst = os_fs s dst" "os_fs t src = os_fs s src"
      using s1 ne src by (auto simp: same_entry_def is_real_dir_iff)
    have src': "os_fs t src = Some (File c m u)" using keep src by simp
    show ?case
    proof (rule wp_bind_gets, rule wp_bind_raise_if, goal_cases)
      case 2
      show ?case
      proof (rule wp_bind_spec [where ?Q0.0 = "\<lambda>_ t'. os_fs t dst = None \<and> (\<exists>time. os_fs t' = (os_fs t)(dst \<mapsto> File c 384 time))"
            and ?E0.0 = "\<lambda>_ t'. os_fs t' = os_fs t \<or> file_put (os_fs t) dst (os_fs t')"], goal_cases)
        case 1
        show ?case unfolding wp_os_error_as by (rule wp_mono [OF wp_write_new_file [OF src']]) auto
      next
        case (2 y v)
        then obtain time where none: "os_fs t dst = None" and vt: "os_fs v = (os_fs t)(dst \<mapsto> File c 384 time)"
          by blast
        then have "src \<noteq> dst" using src' by auto
        then have free: "os_fs s dst = None" and v: "os_fs v dst = Some (File c 384 time)"
          and v': "os_fs v src = Some (File c m u)" using keep(1) src' none vt by simp_all
        show ?case
        proof (rule wp_bind_spec [OF wp_sha256_at [OF v]], goal_cases)
          case (1 r w)
          show ?case
            unfolding conjunct1 [OF 1] prod.case
            by (rule wp_bind_spec [OF wp_regular_file])
              (use 1 src free v v' n in \<open>auto simp: wp_simps same_stat_def is_real_dir_iff\<close>)
        qed (use v in \<open>auto simp: is_real_dir_iff\<close>)
      qed (use keep in \<open>auto simp: is_real_dir_iff file_put_def\<close>)
    qed (use keep in auto)
  qed (use s1 ne in \<open>auto simp: confined_def under_def same_entry_def\<close>)
qed auto

lemma wp_sqlite_query: "wp (sqlite_query q p) (\<lambda>_ t. os_fs t = os_fs s) (\<lambda>_ t. os_fs t = os_fs s) s"
  unfolding sqlite_query_def
  by (rule wp_bind_spec [where ?Q0.0 = "\<lambda>_ t. os_fs t = os_fs s" and ?E0.0 = "\<lambda>_ t. os_fs t = os_fs s"])
    (auto simp: wp_simps intro: wp_mono [OF wp_regular_file] split: option.splits)

lemma cf_sqlite_query: "obeys (confined A C) (sqlite_query q p)"
  unfolding sqlite_query_def
  by (intro cf.bind cf.discard cf_regular_file cf.os_error_as cf_looking cf.basic cf.branches)

lemma cf_integrity: "obeys (confined A C) (sqlite_integrity_check eng p)"
  unfolding sqlite_integrity_check_def by (intro cf.bind cf_sqlite_query cf.basic)

lemma cf_revision: "obeys (confined A C) (sqlite_schema_revision eng p)"
  unfolding sqlite_schema_revision_def by (intro cf.bind cf_sqlite_query cf.basic cf.branches)

lemma wp_integrity: "wp (sqlite_integrity_check eng p) (\<lambda>_ t. os_fs t = os_fs s) (\<lambda>_ t. os_fs t = os_fs s) s"
  unfolding sqlite_integrity_check_def by (rule wp_bind_spec [OF wp_sqlite_query]) (auto simp: wp_simps)

end
