(* ===== verification/RestoreSpecs.thy ===== *)
theory RestoreSpecs
  imports CopySpecs
begin

text \<open>
  The restore: where the old and the new trees are at every point where it may fail, and that
  the compensation puts the old ones back.
\<close>

section \<open>Renaming trees\<close>

lemma move_tree_at:
  "move_tree src dst f (dst @ q) = f (src @ q)"
  "\<not> starts_with src p \<Longrightarrow> \<not> starts_with dst p \<Longrightarrow> move_tree src dst f p = f p"
  "starts_with src p \<Longrightarrow> \<not> starts_with dst p \<Longrightarrow> move_tree src dst f p = None"
  by (simp_all add: move_tree_def)

lemma unrelated_sym: "unrelated p q \<longleftrightarrow> unrelated q p"
  by (auto simp: unrelated_def)

lemma move_tree_source: "unrelated src dst \<Longrightarrow> move_tree src dst f (src @ q) = None"
  by (rule move_tree_at(3)) (auto dest: unrelated_below)

lemma move_tree_elsewhere:
  "unrelated r src \<Longrightarrow> unrelated r dst \<Longrightarrow> move_tree src dst f (r @ q) = f (r @ q)"
  by (rule move_tree_at(2)) (auto dest: unrelated_below)

lemma starts_with_self [simp]: "starts_with p p"
  by (simp add: starts_with_iff)

lemma starts_with_proper:
  assumes "starts_with q p" and "q \<noteq> p"
  shows "starts_with q (butlast p)"
proof -
  obtain r where "p = q @ r" using assms(1) by (auto simp: starts_with_iff)
  then show ?thesis using assms(2) by (cases r rule: rev_cases) (simp_all add: butlast_append)
qed

lemma not_below_butlast: "p \<noteq> [] \<Longrightarrow> \<not> starts_with p (butlast p)"
  by (cases p rule: rev_cases) simp_all

lemma tree_ok_move:
  assumes "tree_ok f" and "is_real_dir f (butlast dst)" and "\<not> starts_with src dst" and "dst \<noteq> []"
  shows "tree_ok (move_tree src dst f)"
  unfolding tree_ok_def
proof (intro allI impI)
  fix p c assume e: "move_tree src dst f (p @ [c]) \<noteq> None"
  show "\<exists>m. move_tree src dst f p = Some (Dir m)"
  proof (cases "starts_with dst (p @ [c])")
    case True
    then consider "p @ [c] = dst" | r where "p = dst @ r"
      by (auto simp: starts_with_iff) (metis append_butlast_last_id butlast_append butlast_snoc)
    then show ?thesis
    proof cases
      case 1
      then have p: "p = butlast dst" by auto
      have "\<not> starts_with dst p" using assms(4) p by (simp add: not_below_butlast)
      moreover have "\<not> starts_with src p"
        using assms(3) 1 by (auto simp: starts_with_iff)
      ultimately show ?thesis using assms(2) p by (auto simp: move_tree_at(2) is_real_dir_iff)
    next
      case 2
      then have "f ((src @ r) @ [c]) \<noteq> None" using e by (auto simp: move_tree_def starts_with_iff)
      then have "\<exists>m. f (src @ r) = Some (Dir m)" using assms(1) unfolding tree_ok_def by blast
      then show ?thesis using 2 by (simp add: move_tree_at(1))
    qed
  next
    case False
    then have n: "\<not> starts_with src (p @ [c])" "f (p @ [c]) \<noteq> None"
      using e by (auto simp: move_tree_def split: if_splits)
    then have "\<not> starts_with src p" "\<not> starts_with dst p" using False by (auto simp: starts_with_iff)
    then show ?thesis using n(2) assms(1) unfolding tree_ok_def by (auto simp: move_tree_at(2))
  qed
qed

lemma move_tree_file:
  assumes "tree_ok f" and "\<not> is_real_dir f src" and "\<not> is_real_dir f dst" and "src \<noteq> dst" and "\<not> starts_with src dst"
  shows "move_tree src dst f = f(src := None, dst := f src)"
proof
  fix p
  have below: "f (r @ q) = None" if "\<not> is_real_dir f r" "q \<noteq> []" for r q
    using tree_ok_below [OF assms(1)] that by blast
  show "move_tree src dst f p = (f(src := None, dst := f src)) p"
  proof (cases "starts_with dst p")
    case True
    then obtain q where q: "p = dst @ q" by (auto simp: starts_with_iff)
    have "p \<noteq> src \<or> f p = None" using assms(2,4) below [OF assms(3), of q] q by (cases "q = []") auto
    then show ?thesis
      using q below [OF assms(2), of q] below [OF assms(3), of q] move_tree_at(1) [of src dst f q]
      by (cases "q = []") auto
  next
    case False
    then have "p \<noteq> dst" by (auto simp: starts_with_iff)
    show ?thesis
    proof (cases "starts_with src p")
      case True
      then obtain q where "p = src @ q" by (auto simp: starts_with_iff)
      then show ?thesis using False \<open>p \<noteq> dst\<close> below [OF assms(2), of q] by (cases "q = []") (auto simp: move_tree_def)
    next
      case f: False
      then have "p \<noteq> src" by (auto simp: starts_with_iff)
      then show ?thesis using False f \<open>p \<noteq> dst\<close> by (simp add: move_tree_def)
    qed
  qed
qed

lemma wp_sys_rename:
  "src \<noteq> dst \<Longrightarrow> wp (sys_rename ls src dst)
     (\<lambda>_ t. os_fs t = move_tree src dst (os_fs s) \<and> os_fs s src \<noteq> None \<and> is_real_dir (os_fs s) (butlast dst)
        \<and> \<not> starts_with src dst)
     (\<lambda>_ t. os_fs t = os_fs s) s"
  by (auto simp: sys_rename_def wp_simps is_real_dir_iff)

lemma wp_calm_rename:
  "calm s \<Longrightarrow> src \<noteq> dst \<Longrightarrow> os_fs s src \<noteq> None \<Longrightarrow> is_real_dir (os_fs s) (butlast dst) \<Longrightarrow>
   \<not> starts_with src dst \<Longrightarrow> replaceable ls (os_fs s) src dst \<Longrightarrow>
   wp (sys_rename ls src dst) (\<lambda>_ t. os_fs t = move_tree src dst (os_fs s)) (\<lambda>_ _. False) s"
  by (auto simp: sys_rename_def wp_simps is_real_dir_iff calm_def)

section \<open>What exists\<close>

lemma dirs_above:
  assumes "tree_ok f" and "f p \<noteq> None" and "starts_with q p" and "q \<noteq> p"
  shows "is_real_dir f q"
proof -
  obtain r where r: "p = q @ r" using assms(3) by (auto simp: starts_with_iff)
  then have "r \<noteq> []" using assms(4) by auto
  then show ?thesis using tree_ok_below [OF assms(1), of q r] assms(2) r by simp
qed

lemma path_exists_in:
  assumes "tree_ok f" and "is_real_dir f (butlast p)" and "p \<noteq> []" and "list_all clean_part p"
    and "\<not> is_symlink f p"
  shows "path_exists f p \<longleftrightarrow> f p \<noteq> None"
proof -
  have dirs: "is_real_dir f q" if "q \<in> set (prefixes_from [] p)" "q \<noteq> p" for q
  proof -
    have "starts_with q p" using that(1) by (auto simp: prefixes_from_iff)
    then have pre: "starts_with q (butlast p)" using that(2) by (rule starts_with_proper)
    show ?thesis
    proof (cases "q = butlast p")
      case False
      have "f (butlast p) \<noteq> None" using assms(2) by (auto simp: is_real_dir_iff)
      then show ?thesis using dirs_above [OF assms(1)] pre False by blast
    qed (use assms(2) in simp)
  qed
  have "link_free f [] p"
    unfolding link_free_def list_all_iff
  proof
    fix q assume q: "q \<in> set (prefixes_from [] p)"
    show "\<not> is_symlink f q" using dirs [OF q] assms(5) real_dir_no_link by (cases "q = p") auto
  qed
  moreover have "all_present f [] p \<longleftrightarrow> f p \<noteq> None"
  proof -
    have "p \<in> set (prefixes_from [] p)" using assms(3) by (auto simp: prefixes_from_iff)
    then show ?thesis
      unfolding all_present_def list_all_iff using dirs by (auto simp: is_real_dir_iff)
  qed
  ultimately show ?thesis
    using real_from_link_free [of f "[]" p True max_links] assms(4)
    by (simp add: path_exists_def resolve_def)
qed

text \<open>A frame is exact when the places it allows lie in existing directories.\<close>

lemma confined_exact:
  assumes "confined A {} s t" and "tree_ok (os_fs s)" and "\<And>r. r \<in> A \<Longrightarrow> is_real_dir (os_fs s) (butlast r)"
    and "\<not> under A p"
  shows "os_fs t p = os_fs s p"
proof -
  have "os_fs s p \<noteq> None" if "r \<in> A" "starts_with p r" for r
  proof -
    have "p \<noteq> r" using assms(4) that(1) under_root by blast
    then have pre: "starts_with p (butlast r)" using that(2) by (intro starts_with_proper)
    have dir: "is_real_dir (os_fs s) (butlast r)" using assms(3) that(1) by blast
    show ?thesis
    proof (cases "p = butlast r")
      case False
      have "os_fs s (butlast r) \<noteq> None" using dir by (auto simp: is_real_dir_iff)
      then have "is_real_dir (os_fs s) p" using dirs_above [OF assms(2)] pre False by blast
      then show ?thesis by (auto simp: is_real_dir_iff)
    qed (use dir in \<open>auto simp: is_real_dir_iff\<close>)
  qed
  moreover have "same_entry A {} (os_fs s) (os_fs t) p" using assms(1,4) by (simp add: confined_def)
  ultimately show ?thesis unfolding same_entry_def by blast
qed

section \<open>Removal that ignores errors never raises\<close>

definition never_raises :: "('s, 'a) eff \<Rightarrow> bool" where
  "never_raises m \<longleftrightarrow> (\<forall>s. wp m (\<lambda>_ _. True) (\<lambda>_ _. False) s)"

lemma never_raises_bind: "never_raises m \<Longrightarrow> (\<And>x. never_raises (f x)) \<Longrightarrow> never_raises (bind m f)"
  unfolding never_raises_def by (auto intro: wp_bind_spec)

lemma never_raises_for_each: "(\<And>x. never_raises (f x)) \<Longrightarrow> never_raises (for_each xs f)"
proof (induction xs)
  case (Cons x xs)
  then show ?case unfolding for_each.simps by (intro never_raises_bind) auto
qed (simp add: never_raises_def wp_simps)

lemma never_raises_if: "never_raises m \<Longrightarrow> never_raises n \<Longrightarrow> never_raises (if b then m else n)"
  by simp

lemma never_raises_reported:
  "(\<And>s. wp m (\<lambda>_ _. True) (\<lambda>e _. is_os_error e) s) \<Longrightarrow> never_raises (reported True root x m)"
  unfolding never_raises_def reported_def
  by (auto intro!: wp_try_spec simp: wp_simps)

lemma remove_tree_never_raises: "never_raises (remove_tree ls True n root p)"
proof (induction n arbitrary: root p)
  case 0
  then show ?case by (simp add: never_raises_def wp_simps)
next
  case (Suc n)
  have "never_raises (ret ())" "never_raises (gets os_fs)" by (simp_all add: never_raises_def wp_simps)
  then show ?case
    unfolding remove_tree.simps
    by (intro never_raises_bind never_raises_if never_raises_for_each never_raises_reported Suc)
      (auto simp: never_raises_def wp_simps sys_lstat_def sys_listdir_def sys_unlink_def sys_rmdir_def
        split: option.splits node.splits)
qed

section \<open>Where a restore stands\<close>

definition family :: "backup_service \<Rightarrow> path list" where
  "family b = map (with_suffix (bk_database_path b)) [[], wal_suffix, shm_suffix]"

definition storage_places :: "backup_service \<Rightarrow> restore_plan \<Rightarrow> path list" where
  "storage_places b plan = [storage_root b, rp_storage_stage plan, rp_storage_rollback plan]"

definition database_places :: "backup_service \<Rightarrow> restore_plan \<Rightarrow> path list" where
  "database_places b plan = rp_database_stage plan # rp_database_rollback plan # family b"

fun apart :: "path list \<Rightarrow> bool" where
  "apart [] = True"
| "apart (p # ps) = (list_all (unrelated p) ps \<and> apart ps)"

definition placed :: "fs \<Rightarrow> path \<Rightarrow> bool" where
  "placed f p \<longleftrightarrow> p \<noteq> [] \<and> is_real_dir f (butlast p) \<and> list_all clean_part p"

abbreviation temporary_below :: "backup_service \<Rightarrow> path" where
  "temporary_below b \<equiv> drop (length (storage_root b)) (sp_temporary (bk_paths b))"

text \<open>
  What the restore relies on: the places it works with lie apart and in existing directories,
  the staging and rollback names are free, and the storage tree of the backup has no links,
  names in \<open>N\<close> only and at most \<open>n\<close> levels, fewer than the fuel.
\<close>

definition restorable :: "backup_service \<Rightarrow> restore_plan \<Rightarrow> path \<Rightarrow> str set \<Rightarrow> nat \<Rightarrow> fs \<Rightarrow> bool" where
  "restorable b plan backup N n f \<longleftrightarrow>
     tree_ok f \<and> bk_database_path b \<noteq> []
     \<and> apart (storage_places b plan @ database_places b plan)
     \<and> list_all (placed f) (storage_places b plan @ database_places b plan)
     \<and> f (rp_storage_stage plan) = None \<and> f (rp_storage_rollback plan) = None
     \<and> f (rp_database_stage plan) = None \<and> f (rp_database_rollback plan) = None
     \<and> (f (storage_root b) = None \<or> is_real_dir f (storage_root b))
     \<and> list_all (\<lambda>p. \<not> is_real_dir f p) (family b)
     \<and> list_all (unrelated backup) (storage_places b plan @ database_places b plan)
     \<and> plain_tree N f (backup @ [storage_area_name])
     \<and> removable N n f (backup @ [storage_area_name])
     \<and> starts_with (storage_root b) (sp_temporary (bk_paths b))
     \<and> set (temporary_below b) \<subseteq> N \<and> length (temporary_below b) \<le> n
     \<and> last ` set (family b) \<subseteq> N \<and> listing_ok (bk_ls b) N \<and> n < bk_fuel b"

datatype storage_phase = StorageKept | StorageAside | StorageSwapped
datatype database_phase = DatabaseKept | DatabaseAside "path set" | DatabaseSwapped | DatabaseBack

fun storage_in ::
  "backup_service \<Rightarrow> restore_plan \<Rightarrow> str set \<Rightarrow> nat \<Rightarrow> fs \<Rightarrow> storage_phase \<Rightarrow> fs \<Rightarrow> bool" where
  "storage_in b plan N n f StorageKept g \<longleftrightarrow>
     (\<forall>q. g (storage_root b @ q) = f (storage_root b @ q)) \<and> (\<forall>q. g (rp_storage_rollback plan @ q) = None)
     \<and> removable N n g (rp_storage_stage plan)"
| "storage_in b plan N n f StorageAside g \<longleftrightarrow>
     is_real_dir f (storage_root b) \<and> (\<forall>q. g (storage_root b @ q) = None)
     \<and> (\<forall>q. g (rp_storage_rollback plan @ q) = f (storage_root b @ q))
     \<and> removable N n g (rp_storage_stage plan)"
| "storage_in b plan N n f StorageSwapped g \<longleftrightarrow>
     (\<forall>q. g (rp_storage_stage plan @ q) = None)
     \<and> (\<forall>q. g (rp_storage_rollback plan @ q) = f (storage_root b @ q))
     \<and> removable N n g (storage_root b)"

text \<open>The database files \<open>M\<close> have been moved to the rollback directory \<open>r\<close>.\<close>

definition moved_aside :: "path \<Rightarrow> path set \<Rightarrow> fs \<Rightarrow> fs \<Rightarrow> bool" where
  "moved_aside r M f g \<longleftrightarrow> is_real_dir g r \<and> (\<forall>p \<in> M. g (r @ [last p]) = f p)
     \<and> (\<forall>c. c \<notin> last ` M \<longrightarrow> g (r @ [c]) = None)"

fun database_in :: "backup_service \<Rightarrow> restore_plan \<Rightarrow> fs \<Rightarrow> database_phase \<Rightarrow> fs \<Rightarrow> bool" where
  "database_in b plan f DatabaseKept g \<longleftrightarrow>
     (\<forall>p \<in> set (family b). g p = f p) \<and> g (rp_database_rollback plan) = None
     \<and> \<not> is_real_dir g (rp_database_stage plan)"
| "database_in b plan f (DatabaseAside M) g \<longleftrightarrow>
     M \<subseteq> set (family b) \<and> moved_aside (rp_database_rollback plan) M f g
     \<and> (\<forall>p \<in> M. f p \<noteq> None \<and> g p = None) \<and> (\<forall>p \<in> set (family b) - M. g p = f p)
     \<and> \<not> is_real_dir g (rp_database_stage plan)"
| "database_in b plan f DatabaseSwapped g \<longleftrightarrow>
     moved_aside (rp_database_rollback plan) {p \<in> set (family b). f p \<noteq> None} f g
     \<and> \<not> is_real_dir g (bk_database_path b)
     \<and> (\<forall>p \<in> set (family b). p \<noteq> bk_database_path b \<longrightarrow> g p = None)
     \<and> g (rp_database_stage plan) = None"
| "database_in b plan f DatabaseBack g \<longleftrightarrow>
     (\<forall>p \<in> set (family b). g p = f p)
     \<and> (g (rp_database_rollback plan) = None \<or> moved_aside (rp_database_rollback plan) {} f g)
     \<and> \<not> is_real_dir g (rp_database_stage plan)"

definition restore_in ::
  "backup_service \<Rightarrow> restore_plan \<Rightarrow> str set \<Rightarrow> nat \<Rightarrow> fs \<Rightarrow> storage_phase \<Rightarrow> database_phase \<Rightarrow> fs \<Rightarrow> bool" where
  "restore_in b plan N n f sp dp g \<longleftrightarrow> tree_ok g
     \<and> (\<forall>p. \<not> under (set (storage_places b plan) \<union> set (database_places b plan)) p \<longrightarrow> g p = f p)
     \<and> storage_in b plan N n f sp g \<and> database_in b plan f dp g"

subsection \<open>The places do not touch\<close>

lemma apart_pairs: "apart ps \<Longrightarrow> p \<in> set ps \<Longrightarrow> q \<in> set ps \<Longrightarrow> p \<noteq> q \<Longrightarrow> unrelated p q"
proof (induction ps)
  case (Cons x xs)
  then show ?case using unrelated_sym by (auto simp: list_all_iff)
qed simp

lemma apart_append:
  "apart (ps @ qs) \<longleftrightarrow> apart ps \<and> apart qs \<and> (\<forall>p \<in> set ps. \<forall>q \<in> set qs. unrelated p q)"
  by (induction ps) (auto simp: list_all_iff)

lemma not_under_others:
  assumes "starts_with r p" and "\<And>q. q \<in> A \<Longrightarrow> unrelated r q"
  shows "\<not> under A p"
proof
  assume "under A p"
  then obtain q where q: "q \<in> A" "starts_with q p" by (auto simp: under_def)
  then have "starts_with r q \<or> starts_with q r" using assms(1) starts_with_linear by blast
  then show False using assms(2) [OF q(1)] by (auto simp: unrelated_def)
qed

lemma parent_not_under:
  assumes "apart ps" and "r \<in> set ps" and "r \<noteq> []"
  shows "\<not> under (set ps) (butlast r)"
proof
  assume "under (set ps) (butlast r)"
  then obtain q where q: "q \<in> set ps" "starts_with q (butlast r)" by (auto simp: under_def)
  have "starts_with (butlast r) r" using assms(3) by (cases r rule: rev_cases) auto
  then have "starts_with q r" using q(2) by (auto simp: starts_with_iff)
  moreover have "q \<noteq> r" using q(2) assms(3) not_below_butlast by blast
  ultimately show False using apart_pairs [OF assms(1) q(1) assms(2)] by (simp add: unrelated_def)
qed

lemma storage_in_cong:
  assumes "storage_in b plan N n f sp g"
    and "\<And>p q. p \<in> set (storage_places b plan) \<Longrightarrow> h (p @ q) = g (p @ q)"
  shows "storage_in b plan N n f sp h"
proof -
  have "h (storage_root b @ q) = g (storage_root b @ q)"
    "h (rp_storage_stage plan @ q) = g (rp_storage_stage plan @ q)"
    "h (rp_storage_rollback plan @ q) = g (rp_storage_rollback plan @ q)" for q
    using assms(2) by (simp_all add: storage_places_def)
  note same = this this [of "[]", simplified]
  show ?thesis using assms(1)
    by (cases sp) (simp_all add: removable_def sized_def is_real_dir_def same)
qed

lemma database_in_cong:
  assumes "bk_database_path b \<noteq> []" and "database_in b plan f dp g"
    and "\<And>p q. p \<in> set (database_places b plan) \<Longrightarrow> h (p @ q) = g (p @ q)"
  shows "database_in b plan f dp h"
proof -
  have "h (rp_database_stage plan) = g (rp_database_stage plan)"
    "h (rp_database_rollback plan) = g (rp_database_rollback plan)"
    "\<And>c. h (rp_database_rollback plan @ [c]) = g (rp_database_rollback plan @ [c])"
    using assms(3) [of "rp_database_stage plan" "[]"] assms(3) [of "rp_database_rollback plan" "[]"]
      assms(3) [of "rp_database_rollback plan"] by (simp_all add: database_places_def)
  moreover have family: "h p = g p" if "p \<in> set (family b)" for p
    using assms(3) [of p "[]"] that by (simp add: database_places_def)
  moreover have "h (bk_database_path b) = g (bk_database_path b)"
    by (rule family) (use assms(1) in \<open>simp add: family_def with_suffix_def\<close>)
  ultimately show ?thesis using assms(2)
    by (cases dp) (auto simp: moved_aside_def is_real_dir_def)
qed

end
