(* ===== verification/RestoreSteps.thy ===== *)
theory RestoreSteps
  imports RestoreSpecs
begin

text \<open>
  The steps of a restore: each part of the \<open>try\<close> block leads from one stand to the next or
  raises in a known one, whatever fails; the compensation leads back while nothing fails.
\<close>

section \<open>Consequences of a stand\<close>

abbreviation places :: "backup_service \<Rightarrow> restore_plan \<Rightarrow> path set" where
  "places b plan \<equiv> set (storage_places b plan) \<union> set (database_places b plan)"

lemma apart_distinct: "apart ps \<Longrightarrow> distinct ps"
  by (induction ps) (auto simp: list_all_iff unrelated_def)

lemma ready_places:
  assumes "restorable b plan backup N n f" and "p \<in> places b plan"
  shows "placed f p" and "q \<in> places b plan \<Longrightarrow> p \<noteq> q \<Longrightarrow> unrelated p q"
    and "unrelated (backup @ r) p" and "\<not> under (places b plan) (butlast p)"
proof -
  let ?ps = "storage_places b plan @ database_places b plan"
  have a: "apart ?ps" and s: "set ?ps = places b plan" using assms(1) by (auto simp: restorable_def)
  have "unrelated backup p" using assms by (auto simp: restorable_def list_all_iff)
  then show "unrelated (backup @ r) p" using unrelated_below by (simp add: unrelated_def)
  show pl: "placed f p" using assms by (auto simp: restorable_def list_all_iff)
  show "q \<in> places b plan \<Longrightarrow> p \<noteq> q \<Longrightarrow> unrelated p q"
    using apart_pairs [OF a] assms(2) s by blast
  show "\<not> under (places b plan) (butlast p)"
    using parent_not_under [OF a, of p] assms(2) pl(1) s by (simp add: placed_def)
qed

lemma stand_placed:
  assumes "restorable b plan backup N n f" and "restore_in b plan N n f sp dp g" and "p \<in> places b plan"
  shows "placed g p"
proof -
  have "g (butlast p) = f (butlast p)"
    using assms(2) ready_places(4) [OF assms(1,3)] by (simp add: restore_in_def)
  then show ?thesis using ready_places(1) [OF assms(1,3)] by (simp add: placed_def is_real_dir_iff)
qed

lemma stand_frame:
  assumes "restorable b plan backup N n f" and "restore_in b plan N n f sp dp (os_fs s)"
    and "confined A {} s t" and "A \<subseteq> places b plan"
  shows "\<not> under A p \<Longrightarrow> os_fs t p = os_fs s p"
    and "r \<in> places b plan \<Longrightarrow> r \<notin> A \<Longrightarrow> os_fs t (r @ q) = os_fs s (r @ q)"
proof -
  have dirs: "is_real_dir (os_fs s) (butlast r)" if "r \<in> A" for r
    using stand_placed [OF assms(1,2)] that assms(4) by (auto simp: placed_def)
  show same: "os_fs t p = os_fs s p" if "\<not> under A p" for p
    using confined_exact [OF assms(3) _ dirs that] assms(2) by (simp add: restore_in_def)
  assume r: "r \<in> places b plan" "r \<notin> A"
  have "unrelated r q" if "q \<in> A" for q using ready_places(2) [OF assms(1) r(1)] that assms(4) r(2) by blast
  then have "\<not> under A (r @ q)" by (intro not_under_others [of r]) simp_all
  then show "os_fs t (r @ q) = os_fs s (r @ q)" by (rule same)
qed

lemma stand_step:
  assumes "restorable b plan backup N n f" and "restore_in b plan N n f sp dp (os_fs s)"
    and "confined A {} s t" and "A \<subseteq> places b plan" and "tree_ok (os_fs t)"
    and "storage_in b plan N n f sp' (os_fs t)" and "database_in b plan f dp' (os_fs t)"
  shows "restore_in b plan N n f sp' dp' (os_fs t)"
proof -
  have "os_fs t p = f p" if "\<not> under (places b plan) p" for p
  proof -
    have "\<not> under A p" using that assms(4) by (auto simp: under_def)
    then show ?thesis using stand_frame(1) [OF assms(1-4)] that assms(2) by (simp add: restore_in_def)
  qed
  then show ?thesis using assms by (simp add: restore_in_def)
qed

lemma ready_distinct:
  assumes "restorable b plan backup N n f"
  shows "distinct (storage_places b plan @ database_places b plan)"
  by (rule apart_distinct) (use assms in \<open>simp only: restorable_def\<close>)

text \<open>A step that touches storage places only keeps where the database stands, and conversely.\<close>

lemma stand_storage_step:
  assumes "restorable b plan backup N n f" and "restore_in b plan N n f sp dp (os_fs s)"
    and "confined A {} s t" and "A \<subseteq> set (storage_places b plan)" and "tree_ok (os_fs t)"
    and "storage_in b plan N n f sp' (os_fs t)"
  shows "restore_in b plan N n f sp' dp (os_fs t)"
proof (rule stand_step [OF assms(1-3) _ assms(5,6)])
  show "A \<subseteq> places b plan" using assms(4) by blast
  show "database_in b plan f dp (os_fs t)"
  proof (rule database_in_cong)
    show "bk_database_path b \<noteq> []" using assms(1) by (simp add: restorable_def)
    show "database_in b plan f dp (os_fs s)" using assms(2) by (simp add: restore_in_def)
    show "os_fs t (p @ q) = os_fs s (p @ q)" if "p \<in> set (database_places b plan)" for p q
      by (rule stand_frame(2) [OF assms(1-3)]) (use that assms(4) ready_distinct [OF assms(1)] in auto)
  qed
qed

lemma stand_database_step:
  assumes "restorable b plan backup N n f" and "restore_in b plan N n f sp dp (os_fs s)"
    and "confined A {} s t" and "A \<subseteq> set (database_places b plan)" and "tree_ok (os_fs t)"
    and "database_in b plan f dp' (os_fs t)"
  shows "restore_in b plan N n f sp dp' (os_fs t)"
proof (rule stand_step [OF assms(1-3) _ assms(5) _ assms(6)])
  show "A \<subseteq> places b plan" using assms(4) by blast
  show "storage_in b plan N n f sp (os_fs t)"
  proof (rule storage_in_cong)
    show "storage_in b plan N n f sp (os_fs s)" using assms(2) by (simp add: restore_in_def)
    show "os_fs t (p @ q) = os_fs s (p @ q)" if "p \<in> set (storage_places b plan)" for p q
      by (rule stand_frame(2) [OF assms(1-3)]) (use that assms(4) ready_distinct [OF assms(1)] in auto)
  qed
qed

lemma stand_exists:
  assumes "restorable b plan backup N n f" and "restore_in b plan N n f sp dp g"
    and "p \<in> places b plan" and "\<not> is_symlink g p"
  shows "path_exists g p \<longleftrightarrow> g p \<noteq> None"
  using path_exists_in [of g p] stand_placed [OF assms(1-3)] assms(2,4)
  by (simp add: placed_def restore_in_def)

lemma none_below: "tree_ok f \<Longrightarrow> f p = None \<Longrightarrow> f (p @ q) = None"
  using tree_ok_none_below [of f p] by (cases q) (auto simp: is_real_dir_iff)

lemma ready_stand:
  assumes "restorable b plan backup N n f"
  shows "restore_in b plan N n f StorageKept DatabaseKept f"
  using assms none_below [of f]
  by (auto simp: restore_in_def restorable_def removable_def sized_def is_real_dir_iff)

section \<open>Staging\<close>

lemma removable_partial:
  assumes "removable N n f p" and "partial_copy f p g r"
  shows "removable N n g r"
proof -
  have kind: "kind_at f (p @ q) g (r @ q)" for q using assms(2) by (simp add: partial_copy_def)
  have "f (p @ q) \<noteq> None" if "g (r @ q) \<noteq> None" for q
    using that kind [of q] by (auto simp: kind_at_def split: option.splits)
  moreover have "g r = None \<or> is_real_dir g r"
    using kind [of "[]"] assms(1)
    by (auto simp: kind_at_def removable_def is_real_dir_iff same_kind_def split: option.splits node.splits)
  ultimately show ?thesis using assms(1) by (auto simp: removable_def sized_def)
qed

lemma removable_same:
  assumes "removable N n f p" and "\<And>q. g (r @ q) = f (p @ q)"
  shows "removable N n g r"
  using assms(1) assms(2) [of "[]"] by (simp add: removable_def sized_def assms(2) is_real_dir_def)

abbreviation first_stand :: "backup_service \<Rightarrow> restore_plan \<Rightarrow> str set \<Rightarrow> nat \<Rightarrow> fs \<Rightarrow> fs \<Rightarrow> bool" where
  "first_stand b plan N n f \<equiv> restore_in b plan N n f StorageKept DatabaseKept"

text \<open>The storage tree and its rollback place stay while only the stage changes.\<close>

lemma stage_changes:
  assumes "restorable b plan backup N n f" and "first_stand b plan N n f (os_fs s)"
    and "confined {rp_storage_stage plan} {} s t" and "tree_ok (os_fs t)"
    and "removable N n (os_fs t) (rp_storage_stage plan)"
  shows "first_stand b plan N n f (os_fs t)"
proof (rule stand_storage_step [OF assms(1-3)])
  have same: "os_fs t (p @ q) = os_fs s (p @ q)" if "p \<in> {storage_root b, rp_storage_rollback plan}" for p q
    by (rule stand_frame(2) [OF assms(1-3)])
      (use that ready_distinct [OF assms(1)] in \<open>auto simp: storage_places_def\<close>)
  then show "storage_in b plan N n f StorageKept (os_fs t)"
    using assms(2,5) by (simp add: restore_in_def)
qed (use assms in \<open>auto simp: storage_places_def\<close>)

lemma step_copytree:
  assumes "restorable b plan backup N n (os_fs s)"
  shows "wp (copytree (bk_ls b) wr k (backup @ [storage_area_name]) (rp_storage_stage plan))
    (\<lambda>_ t. first_stand b plan N n (os_fs s) (os_fs t)) (\<lambda>_ t. first_stand b plan N n (os_fs s) (os_fs t)) s"
proof -
  let ?src = "backup @ [storage_area_name]"
  have r: "tree_ok (os_fs s)" "plain_tree N (os_fs s) ?src" "removable N n (os_fs s) ?src"
    "os_fs s (rp_storage_stage plan) = None" "listing_ok (bk_ls b) N"
    using assms by (auto simp: restorable_def)
  have "unrelated ?src (rp_storage_stage plan)"
    using ready_places(3) [OF assms] by (simp add: storage_places_def)
  from wp_copytree [OF r(5,1,2) this r(4)]
  have "wp (copytree (bk_ls b) wr k ?src (rp_storage_stage plan))
     (\<lambda>_ t. (\<forall>q. os_fs t (rp_storage_stage plan @ q) = os_fs s (?src @ q))
        \<and> confined {rp_storage_stage plan} {} s t \<and> tree_ok (os_fs t))
     (\<lambda>_ t. partial_copy (os_fs s) ?src (os_fs t) (rp_storage_stage plan)
        \<and> confined {rp_storage_stage plan} {} s t \<and> tree_ok (os_fs t)) s"
    by (simp add: copies_def)
  then show ?thesis
  proof (rule wp_mono, goal_cases)
    case (1 x t)
    then show ?case
      using removable_same [OF r(3), of "os_fs t"] by (intro stage_changes [OF assms ready_stand [OF assms]]) auto
  next
    case (2 e t)
    then show ?case
      using removable_partial [OF r(3), of "os_fs t"] by (intro stage_changes [OF assms ready_stand [OF assms]]) auto
  qed
qed

lemma step_mkdir:
  assumes "restorable b plan backup N n f" and "first_stand b plan N n f (os_fs s)"
  shows "wp (path_mkdir True True m (rp_storage_stage plan @ temporary_below b))
    (\<lambda>_ t. first_stand b plan N n f (os_fs t)) (\<lambda>_ t. first_stand b plan N n f (os_fs t)) s"
proof -
  let ?p = "rp_storage_stage plan @ temporary_below b"
  have names: "set (temporary_below b) \<subseteq> N" "length (temporary_below b) \<le> n"
    using assms(1) unfolding restorable_def by blast+
  have rem: "removable N n (os_fs s) (rp_storage_stage plan)"
    using assms(2) by (simp add: restore_in_def)
  have "first_stand b plan N n f (os_fs t)"
    if "confined {} {?p} s t" "confined {rp_storage_stage plan} {} s t" "tree_ok (os_fs t)" for t
  proof (rule stage_changes [OF assms that(2,3)])
    have same: "os_fs t q = os_fs s q \<or> is_real_dir (os_fs t) q \<and> (starts_with q ?p \<or> is_real_dir (os_fs s) q)" for q
      using that(1) by (auto simp: confined_def same_entry_def under_def)
    have "set q \<subseteq> N \<and> length q \<le> n" if "os_fs t (rp_storage_stage plan @ q) \<noteq> None" for q
    proof (cases "os_fs s (rp_storage_stage plan @ q) = None")
      case True
      then have "starts_with (rp_storage_stage plan @ q) ?p"
        using that same [of "rp_storage_stage plan @ q"] by (auto simp: is_real_dir_iff)
      then obtain q' where "temporary_below b = q @ q'" by (auto simp: starts_with_iff)
      then show ?thesis using names by auto
    qed (use rem in \<open>auto simp: removable_def sized_def\<close>)
    moreover have "os_fs t (rp_storage_stage plan) = None \<or> is_real_dir (os_fs t) (rp_storage_stage plan)"
      using same [of "rp_storage_stage plan"] rem by (auto simp: removable_def is_real_dir_iff)
    ultimately show "removable N n (os_fs t) (rp_storage_stage plan)" by (simp add: removable_def sized_def)
  qed
  moreover have "tree_ok (os_fs s)" using assms(2) by (simp add: restore_in_def)
  moreover have "on_way {} {?p} ?p" "on_way {rp_storage_stage plan} {} ?p"
    by (simp_all add: on_way_self) (simp add: on_way_def under_def)
  ultimately show ?thesis
    by (intro wp_mono [OF wp_conj [OF obeysD [OF cf_path_mkdir [of "{}" "{?p}"]]
            wp_conj [OF obeysD [OF cf_path_mkdir [of "{rp_storage_stage plan}" "{}"]] keepsD [OF kept_by_path_mkdir]]]]) auto
qed

lemma step_copy_database:
  assumes "restorable b plan backup N n f" and "first_stand b plan N n f (os_fs s)"
  shows "wp (copy_regular_file wr sha src (rp_database_stage plan))
    (\<lambda>_ t. first_stand b plan N n f (os_fs t)) (\<lambda>_ t. first_stand b plan N n f (os_fs t)) s"
proof -
  let ?A = "{rp_database_stage plan}"
  have at: "rp_database_stage plan \<in> set (database_places b plan)" by (simp add: database_places_def)
  have ne: "rp_database_stage plan \<noteq> []"
    using ready_places(1) [OF assms(1), of "rp_database_stage plan"] at by (simp add: placed_def)
  have st: "tree_ok (os_fs s)" "\<not> is_real_dir (os_fs s) (rp_database_stage plan)"
    using assms(2) by (auto simp: restore_in_def)
  have "first_stand b plan N n f (os_fs t)"
    if "confined ?A {} s t" "tree_ok (os_fs t)" "\<not> is_real_dir (os_fs t) (rp_database_stage plan)" for t
  proof (rule stand_database_step [OF assms that(1) _ that(2)])
    have same: "os_fs t p = os_fs s p" if "p \<in> places b plan" "p \<noteq> rp_database_stage plan" for p
      using stand_frame(2) [OF assms \<open>confined ?A {} s t\<close> _ that(1), of "[]"] at that(2) by simp
    have "os_fs t p = os_fs s p" if "p \<in> set (family b)" for p
      by (rule same) (use that ready_distinct [OF assms(1)] in \<open>auto simp: database_places_def\<close>)
    moreover have "os_fs t (rp_database_rollback plan) = os_fs s (rp_database_rollback plan)"
      by (rule same) (use ready_distinct [OF assms(1)] in \<open>auto simp: database_places_def\<close>)
    ultimately show "database_in b plan f DatabaseKept (os_fs t)"
      using assms(2) that(3) by (simp add: restore_in_def)
  qed (use at in simp)
  then show ?thesis
    using st by (intro wp_mono [OF wp_conj [OF wp_copy_regular_file [OF ne] wp_conj [OF
            obeysD [OF cf_copy_regular_file [of ?A _ "{}"]] keepsD [OF kept_by_copy_regular_file]]]])
      (auto simp: under_root is_real_dir_iff)
qed

section \<open>Swapping the storage\<close>

lemma wp_rename_in:
  assumes "tree_ok (os_fs s)" and "under A src" and "under A dst" and "src \<noteq> dst" and "dst \<noteq> []"
  shows "wp (sys_rename ls src dst)
     (\<lambda>_ t. os_fs t = move_tree src dst (os_fs s) \<and> os_fs s src \<noteq> None \<and> tree_ok (os_fs t) \<and> confined A {} s t)
     (\<lambda>_ t. os_fs t = os_fs s) s"
  by (rule wp_mono [OF cf.with_result [OF cf_rename [OF assms(2,3), of "{}"] wp_sys_rename [OF assms(4)]]])
    (use assms(1,5) in \<open>auto intro: tree_ok_move\<close>)

lemma storage_apart:
  assumes "restorable b plan backup N n f"
  shows "unrelated (storage_root b) (rp_storage_rollback plan)"
    "unrelated (storage_root b) (rp_storage_stage plan)"
    "unrelated (rp_storage_stage plan) (rp_storage_rollback plan)"
    "storage_root b \<noteq> []" "rp_storage_rollback plan \<noteq> []" "rp_storage_stage plan \<noteq> []"
  using assms by (auto simp: restorable_def storage_places_def placed_def)

lemma unrelated_neq: "unrelated p q \<Longrightarrow> p \<noteq> q"
  by (auto simp: unrelated_def)

lemma unrelated_neqs:
  assumes "unrelated p r"
  shows "p \<noteq> r @ q" "r @ q \<noteq> p" "r \<noteq> p @ q" "p @ q \<noteq> r" "p \<noteq> r" "r \<noteq> p"
  using assms by (auto simp: unrelated_def starts_with_iff)

lemma rename_removable: "removable N n f src \<Longrightarrow> removable N n (move_tree src dst f) dst"
  by (erule removable_same) (simp add: move_tree_at(1))

lemma step_aside:
  assumes "restorable b plan backup N n f" and "first_stand b plan N n f (os_fs s)"
  shows "wp (if path_exists (os_fs s) (storage_root b)
        then sys_rename ls (storage_root b) (rp_storage_rollback plan) else ret ())
    (\<lambda>_ t. \<exists>sp \<in> {StorageKept, StorageAside}. restore_in b plan N n f sp DatabaseKept (os_fs t)
        \<and> (\<forall>q. os_fs t (storage_root b @ q) = None)
        \<and> (\<forall>q. os_fs t (rp_storage_rollback plan @ q) = f (storage_root b @ q)))
    (\<lambda>_ t. first_stand b plan N n f (os_fs t)) s"
proof -
  note ap = storage_apart [OF assms(1)]
  have ok: "tree_ok (os_fs s)" and at: "os_fs s (storage_root b @ q) = f (storage_root b @ q)"
    and rb: "os_fs s (rp_storage_rollback plan @ q) = None"
    and rm: "removable N n (os_fs s) (rp_storage_stage plan)" for q
    using assms(2) by (auto simp: restore_in_def)
  have kind: "f (storage_root b) = None \<or> is_real_dir f (storage_root b)" and fok: "tree_ok f"
    using assms(1) by (auto simp: restorable_def)
  have "\<not> is_symlink (os_fs s) (storage_root b)"
    using kind at [of "[]"] by (auto simp: is_symlink_def is_real_dir_iff)
  then have ex: "path_exists (os_fs s) (storage_root b) \<longleftrightarrow> f (storage_root b) \<noteq> None"
    using stand_exists [OF assms, of "storage_root b"] at [of "[]"] by (simp add: storage_places_def)
  show ?thesis
  proof (cases "f (storage_root b) = None")
    case True
    then show ?thesis
      using ex assms(2) at rb none_below [OF fok True] by (auto simp: wp_simps)
  next
    case False
    with kind have dir: "is_real_dir f (storage_root b)" by blast
    have "wp (sys_rename ls (storage_root b) (rp_storage_rollback plan))
      (\<lambda>_ t. restore_in b plan N n f StorageAside DatabaseKept (os_fs t)
        \<and> (\<forall>q. os_fs t (storage_root b @ q) = None)
        \<and> (\<forall>q. os_fs t (rp_storage_rollback plan @ q) = f (storage_root b @ q)))
      (\<lambda>_ t. first_stand b plan N n f (os_fs t)) s"
    proof (rule wp_mono [OF wp_rename_in [where A = "{storage_root b, rp_storage_rollback plan}", OF ok]], goal_cases)
      case (5 x t)
      then have t: "os_fs t = move_tree (storage_root b) (rp_storage_rollback plan) (os_fs s)" "tree_ok (os_fs t)"
        and cf: "confined {storage_root b, rp_storage_rollback plan} {} s t" by auto
      have now: "os_fs t (storage_root b @ q) = None"
        "os_fs t (rp_storage_rollback plan @ q) = f (storage_root b @ q)" for q
        using move_tree_source [OF ap(1)] at by (simp_all add: t(1) move_tree_at(1))
      have "unrelated (rp_storage_stage plan) (storage_root b)" using ap(2) unrelated_sym by blast
      then have "removable N n (os_fs t) (rp_storage_stage plan)"
        using move_tree_elsewhere [OF _ ap(3)] by (intro removable_same [OF rm]) (simp add: t(1))
      then show ?case
        using now dir stand_storage_step [OF assms cf _ t(2), of StorageAside] by (simp add: storage_places_def)
    qed (use ap assms(2) unrelated_neq [OF ap(1)] in \<open>auto simp: under_root\<close>)
    then show ?thesis using ex False by (auto intro: wp_mono)
  qed
qed

lemma step_swap:
  assumes "restorable b plan backup N n f" and "restore_in b plan N n f sp DatabaseKept (os_fs s)"
    and "sp \<in> {StorageKept, StorageAside}" and "\<And>q. os_fs s (storage_root b @ q) = None"
    and "\<And>q. os_fs s (rp_storage_rollback plan @ q) = f (storage_root b @ q)"
  shows "wp (sys_rename ls (rp_storage_stage plan) (storage_root b))
    (\<lambda>_ t. restore_in b plan N n f StorageSwapped DatabaseKept (os_fs t)
       \<and> (\<forall>q. os_fs t (storage_root b @ q) = os_fs s (rp_storage_stage plan @ q)))
    (\<lambda>_ t. os_fs t = os_fs s) s"
proof -
  note ap = storage_apart [OF assms(1)]
  let ?A = "{storage_root b, rp_storage_stage plan}"
  have ok: "tree_ok (os_fs s)" and rm: "removable N n (os_fs s) (rp_storage_stage plan)"
    using assms(2,3) by (auto simp: restore_in_def)
  have un: "unrelated (rp_storage_stage plan) (storage_root b)"
    "unrelated (rp_storage_rollback plan) (storage_root b)"
    "unrelated (rp_storage_rollback plan) (rp_storage_stage plan)"
    using ap unrelated_sym by blast+
  show ?thesis
  proof (rule wp_mono [OF wp_rename_in [where A = ?A, OF ok]], goal_cases)
    case (5 x t)
    then have t: "os_fs t = move_tree (rp_storage_stage plan) (storage_root b) (os_fs s)" "tree_ok (os_fs t)"
      and cf: "confined ?A {} s t" by auto
    have "storage_in b plan N n f StorageSwapped (os_fs t)"
      using move_tree_source [OF un(1)] move_tree_elsewhere [OF un(3,2)] rename_removable [OF rm] assms(5)
      by (simp add: t(1))
    then show ?case
      using stand_storage_step [OF assms(1,2) cf _ t(2)]
      by (simp add: storage_places_def t(1) move_tree_at(1))
  qed (use ap unrelated_neq [OF un(1)] in \<open>auto simp: under_root\<close>)
qed

lemma wp_restore_stage:
  assumes "restorable b plan backup N n (os_fs s)"
  shows "wp (restore_stage b backup plan)
    (\<lambda>_ t. restore_in b plan N n (os_fs s) StorageSwapped DatabaseKept (os_fs t))
    (\<lambda>_ t. \<exists>sp \<in> {StorageKept, StorageAside}. restore_in b plan N n (os_fs s) sp DatabaseKept (os_fs t)) s"
proof -
  let ?I = "\<lambda>t. first_stand b plan N n (os_fs s) (os_fs t)"
  have rel: "relative_parts (sp_temporary (bk_paths b)) (storage_root b) = Inr (temporary_below b)"
    using assms by (simp add: restorable_def relative_parts_def)
  show ?thesis
    unfolding restore_stage_def rel
  proof (rule wp_bind_spec [OF step_copytree [OF assms]], rule wp_bind_lift, goal_cases)
    case (1 x t p)
    then have p: "p = temporary_below b" by simp
    show ?case
      unfolding p
    proof (rule wp_bind_spec [OF step_mkdir [OF assms 1(1)]], goal_cases)
      case (1 x t)
      have "wp (discard (copy_regular_file (bk_wr b) (bk_sha b) (backup @ [database_directory, database_file_name])
          (rp_database_stage plan))) (\<lambda>_. ?I) (\<lambda>_. ?I) t"
        unfolding wp_discard by (rule step_copy_database [OF assms 1])
      then show ?case
      proof (rule wp_bind_spec, goal_cases)
        case (1 x t)
        show ?case
        proof (rule wp_bind_spec [OF wp_integrity], rule wp_bind_gets, goal_cases)
          case (1 x u)
          then have "?I u" using \<open>?I t\<close> by simp
          show ?case
          proof (rule wp_bind_spec [OF step_aside [OF assms \<open>?I u\<close>]], goal_cases)
            case (1 x v)
            then obtain sp where sp: "sp \<in> {StorageKept, StorageAside}"
              "restore_in b plan N n (os_fs s) sp DatabaseKept (os_fs v)"
              and now: "\<And>q. os_fs v (storage_root b @ q) = None"
                "\<And>q. os_fs v (rp_storage_rollback plan @ q) = os_fs s (storage_root b @ q)" by blast
            show ?case by (rule wp_mono [OF step_swap [OF assms sp(2,1) now]]) (use sp in auto)
          qed blast
        qed (use \<open>?I t\<close> in auto)
      qed blast
    qed blast
  qed auto
qed

section \<open>Moving the database aside\<close>

lemma family_form: "p \<in> set (family b) \<Longrightarrow> p = butlast (bk_database_path b) @ [last p]"
  by (auto simp: family_def with_suffix_def)

lemma family_inj: "p \<in> set (family b) \<Longrightarrow> p' \<in> set (family b) \<Longrightarrow> last p = last p' \<Longrightarrow> p = p'"
  using family_form by metis

lemma database_apart:
  assumes "restorable b plan backup N n f" and "p \<in> set (family b)"
  shows "unrelated p (rp_database_rollback plan)" "unrelated p (rp_database_stage plan)"
    "p \<noteq> []" "last p \<in> N" "\<not> is_real_dir f p" "p \<in> places b plan"
proof -
  show pl: "p \<in> places b plan" using assms(2) by (simp add: database_places_def)
  have d: "rp_database_rollback plan \<in> places b plan" "rp_database_stage plan \<in> places b plan"
    by (simp_all add: database_places_def)
  have "p \<noteq> rp_database_rollback plan" "p \<noteq> rp_database_stage plan"
    using ready_distinct [OF assms(1)] assms(2) by (auto simp: database_places_def)
  then show "unrelated p (rp_database_rollback plan)" "unrelated p (rp_database_stage plan)"
    using ready_places(2) [OF assms(1) pl] d by blast+
  show "p \<noteq> []" using ready_places(1) [OF assms(1) pl] by (simp add: placed_def)
  show "last p \<in> N" "\<not> is_real_dir f p" using assms by (auto simp: restorable_def list_all_iff)
qed

lemma rollback_apart:
  assumes "restorable b plan backup N n f"
  shows "unrelated (rp_database_stage plan) (rp_database_rollback plan)"
    "rp_database_rollback plan \<noteq> []" "rp_database_stage plan \<noteq> []"
  using assms by (auto simp: restorable_def database_places_def placed_def apart_append)

lemma main_in_family:
  "restorable b plan backup N n f \<Longrightarrow> bk_database_path b \<in> set (family b)"
  by (auto simp: restorable_def family_def with_suffix_def)

text \<open>\<open>mkdir\<close> of the rollback directory.\<close>

lemma step_rollback_directory:
  assumes "restorable b plan backup N n f" and "restore_in b plan N n f sp DatabaseKept (os_fs s)"
  shows "wp (path_mkdir True False m (rp_database_rollback plan))
    (\<lambda>_ t. restore_in b plan N n f sp (DatabaseAside {}) (os_fs t))
    (\<lambda>_ t. restore_in b plan N n f sp DatabaseKept (os_fs t)) s"
proof -
  let ?r = "rp_database_rollback plan"
  have ok: "tree_ok (os_fs s)" and db: "database_in b plan f DatabaseKept (os_fs s)"
    using assms(2) by (auto simp: restore_in_def)
  have none: "os_fs s (?r @ q) = None" for q using none_below [OF ok] db by simp
  have at: "{?r} \<subseteq> set (database_places b plan)" by (simp add: database_places_def)
  have same: "os_fs t p = os_fs s p"
    if "confined {?r} {} s t" "p \<in> set (family b) \<or> p = rp_database_stage plan" for t p
  proof -
    have "p \<in> places b plan" "p \<noteq> ?r"
      using that(2) ready_distinct [OF assms(1)] by (auto simp: database_places_def)
    then show ?thesis using stand_frame(2) [OF assms that(1) _ _, of p "[]"] at by auto
  qed
  have "database_in b plan f (if made then DatabaseAside {} else DatabaseKept) (os_fs t)"
    if "confined {?r} {} s t" "if made then is_real_dir (os_fs t) ?r else os_fs t ?r = None"
      "\<forall>q. q \<noteq> [] \<longrightarrow> os_fs t (?r @ q) = os_fs s (?r @ q)" for t made
    using db that none same [OF that(1)] by (auto simp: moved_aside_def is_real_dir_def)
  then have final: "restore_in b plan N n f sp (if made then DatabaseAside {} else DatabaseKept) (os_fs t)"
    if "confined {?r} {} s t" "if made then is_real_dir (os_fs t) ?r else os_fs t ?r = None"
      "\<forall>q. q \<noteq> [] \<longrightarrow> os_fs t (?r @ q) = os_fs s (?r @ q)" "tree_ok (os_fs t)" for t made
    using that by (intro stand_database_step [OF assms that(1) at])
  have way: "on_way {?r} {} ?r" by (simp add: on_way_self)
  show ?thesis
  proof (rule wp_mono [OF wp_conj [OF wp_conj [OF wp_path_mkdir path_mkdir_below]
          wp_conj [OF obeysD [OF cf_path_mkdir [OF way]] keepsD [OF kept_by_path_mkdir ok]]]], goal_cases)
    case (1 x t)
    then show ?case using final [of t True] by (auto simp: is_real_dir_iff)
  next
    case (2 e t)
    then show ?case using final [of t False] none [of "[]"] by simp
  qed
qed

lemma step_database_aside:
  assumes "restorable b plan backup N n f" and "restore_in b plan N n f sp (DatabaseAside M) (os_fs s)"
    and "p \<in> set (family b)" and "p \<notin> M"
  shows "wp (if path_exists (os_fs s) p \<or> is_symlink (os_fs s) p
        then sys_rename ls p (rp_database_rollback plan @ [last p]) else ret ())
    (\<lambda>_ t. restore_in b plan N n f sp (DatabaseAside (if f p = None then M else insert p M)) (os_fs t))
    (\<lambda>_ t. os_fs t = os_fs s) s"
proof -
  let ?r = "rp_database_rollback plan" and ?d = "rp_database_rollback plan @ [last p]"
  note pa = database_apart [OF assms(1,3)]
  have ok: "tree_ok (os_fs s)" and db: "database_in b plan f (DatabaseAside M) (os_fs s)"
    using assms(2) by (auto simp: restore_in_def)
  then have M: "M \<subseteq> set (family b)" and aside: "moved_aside ?r M f (os_fs s)"
    and gp: "os_fs s p = f p" using assms(3,4) by auto
  have fresh: "last p \<notin> last ` M" using family_inj [OF assms(3)] M assms(4) by blast
  have free: "os_fs s ?d = None" using aside fresh by (simp add: moved_aside_def)
  have ex: "path_exists (os_fs s) p \<or> is_symlink (os_fs s) p \<longleftrightarrow> f p \<noteq> None"
  proof (cases "is_symlink (os_fs s) p")
    case True
    then show ?thesis using gp by (auto simp: is_symlink_def split: option.splits)
  next
    case False
    then show ?thesis using stand_exists [OF assms(1,2) pa(6)] gp by simp
  qed
  have nd: "\<not> starts_with p ?d" "p \<noteq> ?d"
    using unrelated_below [of ?r p "[last p]"] pa(1) unrelated_sym by (auto simp: starts_with_iff)
  show ?thesis
  proof (cases "f p = None")
    case True
    then show ?thesis using ex assms(2) by (simp add: wp_simps)
  next
    case False
    let ?A = "{p, ?r}"
    have "wp (sys_rename ls p ?d)
      (\<lambda>_ t. restore_in b plan N n f sp (DatabaseAside (insert p M)) (os_fs t)) (\<lambda>_ t. os_fs t = os_fs s) s"
    proof (rule wp_mono [OF wp_rename_in [where A = ?A, OF ok]], goal_cases)
      case (5 x t)
      then have t: "os_fs t = (os_fs s)(p := None, ?d := os_fs s p)" and ok': "tree_ok (os_fs t)"
        and cf: "confined ?A {} s t"
        using move_tree_file [OF ok, of p ?d] pa(5) gp free nd by (auto simp: is_real_dir_def)
      have away: "p' \<noteq> ?d" if "p' \<in> set (family b)" for p'
        using database_apart(1) [OF assms(1) that] by (auto simp: unrelated_def starts_with_iff)
      have "p \<noteq> ?r" "p \<noteq> ?r @ [c]" "rp_database_stage plan \<noteq> ?d" "p \<noteq> rp_database_stage plan" for c
        using pa(1,2) rollback_apart(1) [OF assms(1)] by (auto simp: unrelated_def starts_with_iff)
      moreover have "last p' \<noteq> last p" if "p' \<in> M" for p' using fresh that by (metis imageI)
      ultimately have "database_in b plan f (DatabaseAside (insert p M)) (os_fs t)"
        using db away M assms(3) gp False
        by (auto simp: t moved_aside_def is_real_dir_def)
      moreover have "?A \<subseteq> set (database_places b plan)" using assms(3) by (simp add: database_places_def)
      ultimately show ?case using stand_database_step [OF assms(1,2) cf _ ok'] by blast
    qed (use nd in \<open>auto simp: under_def\<close>)
    then show ?thesis using ex False by (simp only: if_True if_False simp_thms)
  qed
qed

lemma wp_move_database_loop:
  assumes "restorable b plan backup N n f"
    and "restore_in b plan N n f sp (DatabaseAside {p \<in> D. f p \<noteq> None}) (os_fs s)"
    and "distinct xs" and "\<And>x. x \<in> set xs \<Longrightarrow> with_suffix (bk_database_path b) x \<in> set (family b) - D"
    and "inj_on (with_suffix (bk_database_path b)) (set xs)"
  shows "wp (for_each xs (\<lambda>suffix.
       let source = with_suffix (bk_database_path b) suffix in
       bind (gets os_fs) (\<lambda>f.
         if path_exists f source \<or> is_symlink f source
         then sys_rename (bk_ls b) source (rp_database_rollback plan @ [last source]) else ret ())))
    (\<lambda>_ t. restore_in b plan N n f sp
       (DatabaseAside {p \<in> D \<union> with_suffix (bk_database_path b) ` set xs. f p \<noteq> None}) (os_fs t))
    (\<lambda>_ t. \<exists>M. restore_in b plan N n f sp (DatabaseAside M) (os_fs t)) s"
  using assms(2-)
proof (induction xs arbitrary: D s)
  case Nil
  then show ?case by (simp add: wp_simps)
next
  case (Cons x xs)
  let ?p = "with_suffix (bk_database_path b) x"
  have p: "?p \<in> set (family b)" "?p \<notin> {p \<in> D. f p \<noteq> None}" using Cons.prems(3) by auto
  have m: "(if f ?p = None then {p \<in> D. f p \<noteq> None} else insert ?p {p \<in> D. f p \<noteq> None})
    = {p \<in> insert ?p D. f p \<noteq> None}" by auto
  have one: "wp (bind (gets os_fs) (\<lambda>f.
         if path_exists f ?p \<or> is_symlink f ?p
         then sys_rename (bk_ls b) ?p (rp_database_rollback plan @ [last ?p]) else ret ()))
     (\<lambda>_ t. restore_in b plan N n f sp (DatabaseAside {p \<in> insert ?p D. f p \<noteq> None}) (os_fs t))
     (\<lambda>_ t. os_fs t = os_fs s) s"
    by (rule wp_bind_gets, rule step_database_aside [OF assms(1) Cons.prems(1) p, of "bk_ls b", unfolded m])
  show ?case
    unfolding for_each.simps Let_def
  proof (rule wp_bind_spec [OF one], goal_cases)
    case (1 y t)
    have e: "with_suffix (bk_database_path b) z \<in> set (family b) - insert ?p D" if "z \<in> set xs" for z
      using Cons.prems(2,3,4) that by (auto simp: inj_on_def)
    have i: "inj_on (with_suffix (bk_database_path b)) (set xs)" using Cons.prems(4) by simp
    have d: "distinct xs" using Cons.prems(2) by simp
    show ?case using Cons.IH [OF 1 d e i] by (simp add: Let_def)
  qed (use Cons.prems(1) in auto)
qed

lemma wp_move_database_aside:
  assumes "restorable b plan backup N n f" and "restore_in b plan N n f sp DatabaseKept (os_fs s)"
  shows "wp (move_database_aside b (rp_database_rollback plan))
    (\<lambda>_ t. restore_in b plan N n f sp (DatabaseAside {p \<in> set (family b). f p \<noteq> None}) (os_fs t))
    (\<lambda>_ t. \<exists>dp. (dp = DatabaseKept \<or> (\<exists>M. dp = DatabaseAside M)) \<and> restore_in b plan N n f sp dp (os_fs t)) s"
proof -
  let ?xs = "[[], wal_suffix, shm_suffix]"
  have d: "distinct (map (with_suffix (bk_database_path b)) ?xs)"
    using ready_distinct [OF assms(1)] by (simp add: database_places_def family_def)
  then have D: "distinct ?xs" "inj_on (with_suffix (bk_database_path b)) (set ?xs)"
    using distinct_map [of "with_suffix (bk_database_path b)" ?xs] by blast+
  have fam: "with_suffix (bk_database_path b) ` set ?xs = set (family b)" by (simp add: family_def)
  show ?thesis
    unfolding move_database_aside_def
  proof (rule wp_bind_spec [OF step_rollback_directory [OF assms]], goal_cases)
    case (1 x t)
    then have start: "restore_in b plan N n f sp (DatabaseAside {p \<in> {}. f p \<noteq> None}) (os_fs t)" by simp
    have e: "with_suffix (bk_database_path b) x \<in> set (family b) - {}" if "x \<in> set ?xs" for x
      using fam that by auto
    show ?case
      by (rule wp_mono [OF wp_move_database_loop [OF assms(1) start D(1) e D(2)]])
        (auto simp only: fam Un_empty_left)
  qed blast
qed

lemma wp_restore_database:
  assumes "restorable b plan backup N n f" and "restore_in b plan N n f sp DatabaseKept (os_fs s)"
  shows "wp (restore_database b plan)
    (\<lambda>_ t. restore_in b plan N n f sp DatabaseSwapped (os_fs t))
    (\<lambda>_ t. \<exists>dp. (dp = DatabaseKept \<or> (\<exists>M. dp = DatabaseAside M)) \<and> restore_in b plan N n f sp dp (os_fs t)) s"
  unfolding restore_database_def
proof (rule wp_bind_spec [OF wp_move_database_aside [OF assms]], goal_cases)
  case (1 x t)
  let ?main = "bk_database_path b" and ?st = "rp_database_stage plan" and ?M = "{p \<in> set (family b). f p \<noteq> None}"
  note main = main_in_family [OF assms(1)]
  note pa = database_apart [OF assms(1) main]
  have ok: "tree_ok (os_fs t)" and db: "database_in b plan f (DatabaseAside ?M) (os_fs t)"
    using 1 by (auto simp: restore_in_def)
  have none: "os_fs t p = None" if "p \<in> set (family b)" for p
    using db that by (cases "f p = None") auto
  let ?A = "{?st, ?main}"
  have un: "unrelated ?st ?main" using pa(2) unrelated_sym by blast
  show ?case
  proof (rule wp_mono [OF wp_rename_in [where A = ?A, OF ok]], goal_cases)
    case (5 x u)
    then have ok': "tree_ok (os_fs u)" and cf: "confined ?A {} t u"
      and mv: "os_fs u = move_tree ?st ?main (os_fs t)" by auto
    have "\<not> is_real_dir (os_fs t) ?st" "\<not> is_real_dir (os_fs t) ?main"
      using db none [OF main] by (simp_all add: is_real_dir_def)
    then have u: "os_fs u = (os_fs t)(?st := None, ?main := os_fs t ?st)"
      unfolding mv by (rule move_tree_file [OF ok]) (use un in \<open>auto simp: unrelated_def\<close>)
    have "?st \<noteq> ?main" "rp_database_rollback plan \<noteq> ?main" "rp_database_rollback plan @ [c] \<noteq> ?main"
      "rp_database_rollback plan \<noteq> ?st" "rp_database_rollback plan @ [c] \<noteq> ?st" for c
      using unrelated_neqs [OF pa(1)] unrelated_neqs [OF un] unrelated_neqs [OF rollback_apart(1) [OF assms(1)]] by simp_all
    moreover have "?st \<notin> set (family b)"
      using ready_distinct [OF assms(1)] by (auto simp: database_places_def)
    ultimately have "database_in b plan f DatabaseSwapped (os_fs u)"
      using db none by (auto simp: u moved_aside_def is_real_dir_def)
    then show ?case
      using stand_database_step [OF assms(1) 1 cf _ ok'] main by (simp add: database_places_def)
  next
    case (6 e u)
    then show ?case using 1 by auto
  qed (use pa un in \<open>auto simp: under_root unrelated_def\<close>)
qed

end
