(* ===== verification/RestoreUndo.thy ===== *)
theory RestoreUndo
  imports RestoreSteps
begin

text \<open>
  Where the steps of a restore may raise, and that the compensation leads from there back to
  the tree before the restore while no further call fails.
\<close>

section \<open>The migrations\<close>

text \<open>SQLite removes the log and the shared memory file when the last connection closes.\<close>

definition leaves_no_log :: "sqlite_engine \<Rightarrow> bool" where
  "leaves_no_log eng \<longleftrightarrow> (\<forall>m w. uo_wal (sq_upgrade eng m w) = None \<and> uo_shm (sq_upgrade eng m w) = None)"

lemma tree_ok_without:
  "tree_ok f \<Longrightarrow> \<not> is_real_dir f p \<Longrightarrow> tree_ok (f(p := None))"
  unfolding tree_ok_def is_real_dir_iff by (metis fun_upd_apply)

lemma tree_ok_put:
  assumes "tree_ok f" and "\<not> is_real_dir f p" and "is_real_dir f (butlast p)" and "p \<noteq> []"
  shows "tree_ok (put_file p c now f)"
proof (cases c)
  case None
  then show ?thesis using tree_ok_without [OF assms(1,2)] by (simp add: put_file_def)
next
  case (Some content)
  let ?n = "File content (case f p of Some n \<Rightarrow> node_mode n | None \<Rightarrow> default_file_mode) now"
  show ?thesis
  proof (cases "f p")
    case None
    then show ?thesis
      using Some assms tree_ok_create by (auto simp: put_file_def is_real_dir_iff)
  next
    case f: (Some n)
    have "tree_ok (f(p \<mapsto> ?n))"
      by (rule tree_ok_rekind [OF assms(1) f]) (use assms(2) in \<open>simp add: is_real_dir_def\<close>)
    then show ?thesis using Some by (simp add: put_file_def)
  qed
qed

lemma put_file_nodir: "\<not> is_real_dir (put_file p c now f) p"
  by (auto simp: put_file_def is_real_dir_def split: option.splits)

lemma put_file_other: "q \<noteq> p \<Longrightarrow> put_file p c now f q = f q"
  by (simp add: put_file_def split: option.splits)

lemma put_file_None: "put_file p None now f = f(p := None)"
  by (simp add: put_file_def)

lemma cf_put_files:
  assumes "under A p" and "under A q" and "under A r"
  shows "obeys (confined A C) (modify (\<lambda>s. s\<lparr>os_fs := put_file r (h s) (os_now s)
      (put_file q (g s) (os_now s) (put_file p (k s) (os_now s) (os_fs s)))\<rparr>))"
proof (rule obeysI)
  fix s :: "'a os_scheme"
  have "put_file r (h s) (os_now s) (put_file q (g s) (os_now s) (put_file p (k s) (os_now s) (os_fs s))) x = os_fs s x"
    if "\<not> under A x" for x
  proof -
    have "x \<noteq> p" "x \<noteq> q" "x \<noteq> r" using assms that by auto
    then show ?thesis by (simp add: put_file_other)
  qed
  then show "wp (modify (\<lambda>s. s\<lparr>os_fs := put_file r (h s) (os_now s)
      (put_file q (g s) (os_now s) (put_file p (k s) (os_now s) (os_fs s)))\<rparr>)) (\<lambda>_. confined A C s) (\<lambda>_. confined A C s) s"
    by (auto simp: wp_simps confined_def same_entry_def)
qed

lemma cf_upgrade:
  fixes A :: "path set"
  assumes "bk_database_path b \<noteq> []" and "set (family b) \<subseteq> A"
  shows "obeys (confined A C) (upgrade_database b)"
proof -
  have "under A p" if "p \<in> set (family b)" for p using that assms(2) by (auto intro: under_root)
  moreover have "with_suffix (bk_database_path b) [] = bk_database_path b"
    using assms(1) by (simp add: with_suffix_def)
  ultimately have u: "under A (bk_database_path b)" "under A (with_suffix (bk_database_path b) wal_suffix)"
    "under A (with_suffix (bk_database_path b) shm_suffix)" by (auto simp: family_def)
  show ?thesis
    unfolding upgrade_database_def Let_def by (intro cf.bind cf_looking cf.basic cf_put_files u cf.branches)
qed

lemma wp_upgrade:
  assumes "restorable b plan backup N n f" and "leaves_no_log (bk_engine b)"
    and "restore_in b plan N n f sp DatabaseSwapped (os_fs (s :: world))"
  shows "wp (upgrade_database b)
    (\<lambda>_ t. restore_in b plan N n f sp DatabaseSwapped (os_fs t))
    (\<lambda>_ t. restore_in b plan N n f sp DatabaseSwapped (os_fs t)) s"
proof -
  let ?main = "bk_database_path b"
  let ?wal = "with_suffix ?main wal_suffix" and ?shm = "with_suffix ?main shm_suffix"
  have ne: "?main \<noteq> []" using assms(1) by (simp add: restorable_def)
  then have m: "with_suffix ?main [] = ?main" by (simp add: with_suffix_def)
  then have fam: "family b = [?main, ?wal, ?shm]" by (simp add: family_def)
  note ap = database_apart [OF assms(1)]
  have d: "?main \<noteq> ?wal" "?main \<noteq> ?shm" "?wal \<noteq> ?shm"
    using ready_distinct [OF assms(1)] by (auto simp: database_places_def fam)
  have ok: "tree_ok (os_fs s)" and db: "database_in b plan f DatabaseSwapped (os_fs s)"
    using assms(3) by (auto simp: restore_in_def)
  have gone: "os_fs s ?wal = None" "os_fs s ?shm = None" using db d by (auto simp: fam)
  have par: "is_real_dir (os_fs s) (butlast ?main)"
    using stand_placed [OF assms(1,3), of ?main] by (simp add: placed_def database_places_def fam)
  have now: "restore_in b plan N n f sp DatabaseSwapped (os_fs t)"
    if t: "os_fs t = put_file ?main c k (os_fs s)" and cf: "confined (set (family b)) {} s t" for t :: world and c k
  proof (rule stand_database_step [OF assms(1,3) cf])
    show "tree_ok (os_fs t)" unfolding t by (rule tree_ok_put [OF ok _ par ne]) (use db in simp)
    have away: "rp_database_rollback plan \<noteq> ?main" "rp_database_rollback plan @ [c] \<noteq> ?main" for c
      using unrelated_neqs [OF ap(1)] by (simp_all add: fam)
    have "rp_database_stage plan \<noteq> ?main" using unrelated_neqs [OF ap(2)] by (simp add: fam)
    then show "database_in b plan f DatabaseSwapped (os_fs t)"
      using db away put_file_nodir [of ?main c k "os_fs s"]
      by (simp add: t put_file_other moved_aside_def is_real_dir_def)
  qed (auto simp: database_places_def)
  have run: "wp (upgrade_database b) (\<lambda>_ t. os_fs t = os_fs s \<or> (\<exists>c k. os_fs t = put_file ?main c k (os_fs s)))
      (\<lambda>_ t. os_fs t = os_fs s \<or> (\<exists>c k. os_fs t = put_file ?main c k (os_fs s))) s"
  proof -
    have same: "put_file ?shm None k (put_file ?wal None k (put_file ?main c k (os_fs s))) = put_file ?main c k (os_fs s)" for c k
      using d gone by (auto simp: put_file_None put_file_other fun_upd_idem)
    show ?thesis
      using assms(2) same
      by (auto simp: upgrade_database_def Let_def wp_simps leaves_no_log_def split: option.splits)
  qed
  show ?thesis
    by (rule wp_mono [OF cf.with_result [OF cf_upgrade [of b "set (family b)" "{}"] run]])
      (use ne now assms(3) in auto)
qed

section \<open>The whole \<open>try\<close> block\<close>

definition failed_in ::
  "backup_service \<Rightarrow> restore_plan \<Rightarrow> str set \<Rightarrow> nat \<Rightarrow> fs \<Rightarrow> bool \<times> bool \<Rightarrow> storage_phase \<Rightarrow> database_phase \<Rightarrow> fs \<Rightarrow> bool" where
  "failed_in b plan N n f flags sp dp g \<longleftrightarrow> restore_in b plan N n f sp dp g
     \<and> fst flags = (sp = StorageSwapped) \<and> snd flags = (dp = DatabaseSwapped)
     \<and> dp \<noteq> DatabaseBack"

lemma wp_raising_with:
  assumes "wp m (\<lambda>_. Q None) (\<lambda>e. Q (Some (flags, e))) s"
  shows "wp (raising_with flags m) Q E s"
  using assms by (auto simp: raising_with_def wp_def eff_simps split: prod.splits sum.splits)

lemma wp_restore_finish:
  assumes "restorable b plan backup N n f" and "leaves_no_log (bk_engine b)"
    and "restore_in b plan N n f sp DatabaseSwapped (os_fs s)"
  shows "wp (restore_finish b plan) (\<lambda>_ _. True) (\<lambda>_ t. restore_in b plan N n f sp DatabaseSwapped (os_fs t)) s"
  unfolding restore_finish_def
proof (rule wp_bind_spec [OF wp_upgrade [OF assms]], goal_cases)
  case (1 x t)
  show ?case
  proof (rule wp_bind_spec [OF wp_integrity], goal_cases)
    case (1 y u)
    have "never_raises (bind (rmtree (bk_ls b) (bk_fuel b) True (rp_storage_rollback plan))
        (\<lambda>_. rmtree (bk_ls b) (bk_fuel b) True (rp_database_rollback plan)) :: unit svc)"
      unfolding rmtree_def by (intro never_raises_bind remove_tree_never_raises)
    then have "wp (bind (rmtree (bk_ls b) (bk_fuel b) True (rp_storage_rollback plan))
        (\<lambda>_. rmtree (bk_ls b) (bk_fuel b) True (rp_database_rollback plan))) (\<lambda>_ _. True) (\<lambda>_ _. False) u"
      unfolding never_raises_def by blast
    then show ?case by (rule wp_mono) auto
  qed (use 1 in simp)
qed

lemma wp_restore_steps:
  assumes "restorable b plan backup N n (os_fs s)" and "leaves_no_log (bk_engine b)"
  shows "wp (restore_steps b backup plan)
    (\<lambda>r t. \<forall>flags e. r = Some (flags, e) \<longrightarrow> (\<exists>sp dp. failed_in b plan N n (os_fs s) flags sp dp (os_fs t)))
    (\<lambda>_ _. False) s"
  unfolding restore_steps_def
proof (rule wp_bind_spec [OF wp_raising_with [where
      Q = "\<lambda>r t. if r = None then restore_in b plan N n (os_fs s) StorageSwapped DatabaseKept (os_fs t)
        else \<exists>e sp dp. r = Some ((False, False), e) \<and> failed_in b plan N n (os_fs s) (False, False) sp dp (os_fs t)"]], goal_cases)
  case 1
  show ?case by (rule wp_mono [OF wp_restore_stage [OF assms(1)]]) (auto simp: failed_in_def)
next
  case (2 r t)
  show ?case
  proof (cases "r = None")
    case False
    then show ?thesis using 2 by (auto simp: wp_simps)
  next
    case True
    then have t: "restore_in b plan N n (os_fs s) StorageSwapped DatabaseKept (os_fs t)" using 2 by simp
    have "wp (bind (raising_with (True, False) (restore_database b plan)) (\<lambda>r2.
        if r2 \<noteq> None then ret r2 else raising_with (True, True) (restore_finish b plan)))
      (\<lambda>r t. \<forall>flags e. r = Some (flags, e) \<longrightarrow> (\<exists>sp dp. failed_in b plan N n (os_fs s) flags sp dp (os_fs t)))
      (\<lambda>_ _. False) t"
    proof (rule wp_bind_spec [OF wp_raising_with [where
          Q = "\<lambda>r t. if r = None then restore_in b plan N n (os_fs s) StorageSwapped DatabaseSwapped (os_fs t)
            else \<exists>e sp dp. r = Some ((True, False), e) \<and> failed_in b plan N n (os_fs s) (True, False) sp dp (os_fs t)"]], goal_cases)
      case 1
      show ?case by (rule wp_mono [OF wp_restore_database [OF assms(1) t]]) (auto simp: failed_in_def)
    next
      case (2 r u)
      show ?case
      proof (cases "r = None")
        case False
        then show ?thesis using 2 by (auto simp: wp_simps)
      next
        case True
        then have u: "restore_in b plan N n (os_fs s) StorageSwapped DatabaseSwapped (os_fs u)" using 2 by simp
        have "wp (raising_with (True, True) (restore_finish b plan))
          (\<lambda>r t. \<forall>flags e. r = Some (flags, e) \<longrightarrow> (\<exists>sp dp. failed_in b plan N n (os_fs s) flags sp dp (os_fs t)))
          (\<lambda>_ _. False) u"
          by (rule wp_raising_with, rule wp_mono [OF wp_restore_finish [OF assms u]]) (auto simp: failed_in_def)
        then show ?thesis using True by simp
      qed
    qed simp
    then show ?thesis using True by simp
  qed
qed simp

section \<open>Compensation\<close>

lemma wp_calm_rename_in:
  assumes "calm s" and "tree_ok (os_fs s)" and "under A src" and "under A dst" and "src \<noteq> dst"
    and "os_fs s src \<noteq> None" and "is_real_dir (os_fs s) (butlast dst)" and "\<not> starts_with src dst"
    and "os_fs s dst = None" and "dst \<noteq> []"
  shows "wp (sys_rename ls src dst)
     (\<lambda>_ t. os_fs t = move_tree src dst (os_fs s) \<and> tree_ok (os_fs t) \<and> confined A {} s t \<and> calm t)
     (\<lambda>_ _. False) s"
proof -
  have "replaceable ls (os_fs s) src dst" using assms(9) by (simp add: replaceable_def)
  note run = wp_calm_rename [OF assms(1,5,6,7,8) this]
  show ?thesis
    by (rule wp_mono [OF cf.with_result [OF cf_rename [OF assms(3,4), of "{}"] run]])
      (use assms in \<open>auto intro: tree_ok_move calm_confined\<close>)
qed

lemma step_database_return:
  assumes "restorable b plan backup N n f" and "restore_in b plan N n f sp (DatabaseAside M) (os_fs s)"
    and "calm s" and "p \<in> M"
  shows "wp (sys_rename ls (rp_database_rollback plan @ [last p]) (butlast (bk_database_path b) @ [last p]))
    (\<lambda>_ t. restore_in b plan N n f sp (DatabaseAside (M - {p})) (os_fs t) \<and> calm t) (\<lambda>_ _. False) s"
proof -
  let ?r = "rp_database_rollback plan" and ?src = "rp_database_rollback plan @ [last p]"
  have ok: "tree_ok (os_fs s)" and db: "database_in b plan f (DatabaseAside M) (os_fs s)"
    using assms(2) by (auto simp: restore_in_def)
  then have M: "M \<subseteq> set (family b)" and aside: "moved_aside ?r M f (os_fs s)"
    and at: "os_fs s ?src = f p" and fp: "f p \<noteq> None" and free: "os_fs s p = None"
    using assms(4) by (auto simp: moved_aside_def)
  have p: "p \<in> set (family b)" using M assms(4) by blast
  note pa = database_apart [OF assms(1) p]
  note ne = unrelated_neqs [OF pa(1)]
  have ur: "unrelated ?r p" using pa(1) unrelated_sym by blast
  let ?A = "{?r, p}"
  have dst: "butlast (bk_database_path b) @ [last p] = p" using family_form [OF p] by simp
  show ?thesis
    unfolding dst
  proof (rule wp_mono [OF wp_calm_rename_in [where A = ?A, OF assms(3) ok]], goal_cases)
    case (9 x t)
    then have ok': "tree_ok (os_fs t)" and cf: "confined ?A {} s t" and mv: "os_fs t = move_tree ?src p (os_fs s)"
      and c: "calm t" by auto
    have "\<not> is_real_dir (os_fs s) ?src" "\<not> is_real_dir (os_fs s) p"
      using at pa(5) free by (simp_all add: is_real_dir_def)
    then have u: "os_fs t = (os_fs s)(?src := None, p := f p)"
      unfolding mv at [symmetric] by (rule move_tree_file [OF ok]) (use ne unrelated_below [OF ur] in auto)
    have away: "p' \<noteq> ?src" if "p' \<in> set (family b)" for p'
      using unrelated_neqs [OF database_apart(1) [OF assms(1) that]] by blast
    have st: "rp_database_stage plan \<noteq> ?src" "rp_database_stage plan \<noteq> p"
      using unrelated_neqs [OF pa(2)] unrelated_neqs [OF rollback_apart(1) [OF assms(1)]] by blast+
    have inj: "last p' \<noteq> last p" if "p' \<in> M - {p}" for p'
      using family_inj [OF p, of p'] that M by auto
    have "moved_aside ?r (M - {p}) f (os_fs t)"
      using aside ne inj by (auto simp: moved_aside_def u is_real_dir_def)
    moreover have "os_fs t p' = None \<and> f p' \<noteq> None" if "p' \<in> M - {p}" for p'
      using db that by (simp add: u)
    moreover have "os_fs t p' = f p'" if "p' \<in> set (family b) - (M - {p})" for p'
      using db that away [of p'] by (cases "p' = p") (simp_all add: u)
    moreover have "\<not> is_real_dir (os_fs t) (rp_database_stage plan)"
      using db st by (simp add: u is_real_dir_def)
    ultimately have "database_in b plan f (DatabaseAside (M - {p})) (os_fs t)"
      unfolding database_in.simps using M by blast
    moreover have "?A \<subseteq> set (database_places b plan)" using p by (simp add: database_places_def)
    ultimately show ?case using stand_database_step [OF assms(1,2) cf _ ok'] c by blast
  qed (use at fp free pa ne stand_placed [OF assms(1,2) pa(6)] unrelated_below [OF ur]
      in \<open>auto simp: under_def placed_def\<close>)
qed

lemma wp_database_return_loop:
  assumes "restorable b plan backup N n f" and "restore_in b plan N n f sp (DatabaseAside M) (os_fs s)"
    and "calm s" and "distinct cs" and "set cs = last ` M"
  shows "wp (for_each cs (\<lambda>c. sys_rename ls (rp_database_rollback plan @ [c]) (butlast (bk_database_path b) @ [c])))
    (\<lambda>_ t. restore_in b plan N n f sp (DatabaseAside {}) (os_fs t) \<and> calm t) (\<lambda>_ _. False) s"
  using assms(2-)
proof (induction cs arbitrary: M s)
  case Nil
  then show ?case by (simp add: wp_simps)
next
  case (Cons c cs)
  have "c \<in> last ` M" using Cons.prems(4) by auto
  then obtain p where p: "p \<in> M" and c: "c = last p" by blast
  have M: "M \<subseteq> set (family b)" using Cons.prems(1) by (simp add: restore_in_def)
  have inj: "p' = p" if "p' \<in> M" "last p' = last p" for p'
    using family_inj [of p' b p] that p M by blast
  have "last ` (M - {p}) = last ` M - {c}" using inj c by auto
  then have rest: "set cs = last ` (M - {p})" using Cons.prems(3,4) by auto
  have d: "distinct cs" using Cons.prems(3) by simp
  show ?case
    unfolding for_each.simps c
    by (rule wp_bind_spec [OF step_database_return [OF assms(1) Cons.prems(1,2) p]])
      (use Cons.IH [OF _ _ d rest] in auto)
qed

lemma wp_database_back:
  assumes "restorable b plan backup N n f" and "restore_in b plan N n f sp (DatabaseAside M) (os_fs s)"
    and "calm s"
  shows "wp (restore_database_rollback b (rp_database_rollback plan))
    (\<lambda>_ t. restore_in b plan N n f sp DatabaseBack (os_fs t) \<and> calm t) (\<lambda>_ _. False) s"
proof -
  let ?r = "rp_database_rollback plan" and ?ls = "bk_ls b"
  have db: "database_in b plan f (DatabaseAside M) (os_fs s)" using assms(2) by (simp add: restore_in_def)
  have kids: "children (os_fs s) ?r = last ` M"
  proof (intro set_eqI)
    fix c
    show "c \<in> children (os_fs s) ?r \<longleftrightarrow> c \<in> last ` M"
    proof (cases "c \<in> last ` M")
      case True
      then obtain p where p: "p \<in> M" "c = last p" by blast
      then have "os_fs s (?r @ [c]) = f p" "f p \<noteq> None" using db by (auto simp: moved_aside_def)
      then show ?thesis using True by (simp add: children_def)
    next
      case False
      then show ?thesis using db by (simp add: children_def moved_aside_def)
    qed
  qed
  have "last ` M \<subseteq> N" using database_apart(4) [OF assms(1)] db by auto
  then have sub: "children (os_fs s) ?r \<subseteq> N" using kids by simp
  have ls: "listing_ok ?ls N" using assms(1) by (simp add: restorable_def)
  have names: "set (?ls (os_fs s) ?r) = last ` M" "distinct (?ls (os_fs s) ?r)"
    using listing_okD [OF ls sub] kids by simp_all
  obtain k where dir: "os_fs s ?r = Some (Dir k)" using db by (auto simp: moved_aside_def is_real_dir_iff)
  have listed: "wp (sys_listdir ?ls ?r) (\<lambda>cs t. cs = ?ls (os_fs s) ?r \<and> os_fs t = os_fs s \<and> calm t) (\<lambda>_ _. False) s"
    using assms(3) dir by (simp add: sys_listdir_def wp_simps calm_def)
  have settled: "restore_in b plan N n f sp DatabaseBack g" if "restore_in b plan N n f sp (DatabaseAside {}) g" for g
    using that by (simp add: restore_in_def)
  show ?thesis
    unfolding restore_database_rollback_def
  proof (rule wp_bind_spec [OF listed], goal_cases)
    case (1 cs t)
    then have "restore_in b plan N n f sp (DatabaseAside M) (os_fs t)" "calm t" using assms(2) by simp_all
    then show ?case
      by (rule wp_mono [OF wp_database_return_loop [OF assms(1)]]) (use 1 names settled in auto)
  qed simp
qed

lemma wp_calm_rmtree:
  assumes "restorable b plan backup N n f" and "calm s" and "tree_ok (os_fs s)"
    and "removable N n (os_fs s) p"
  shows "wp (rmtree (bk_ls b) (bk_fuel b) True p)
     (\<lambda>_ t. os_fs t = cut p (os_fs s) \<and> tree_ok (os_fs t) \<and> confined {p} {} s t \<and> calm t) (\<lambda>_ _. False) s"
proof -
  have "listing_ok (bk_ls b) N" "n < bk_fuel b" using assms(1) by (auto simp: restorable_def)
  then obtain k where k: "bk_fuel b = Suc k" "n \<le> k" by (cases "bk_fuel b") auto
  have "removable N k (os_fs s) p" using assms(4) k(2) by (fastforce simp: removable_def sized_def)
  then show ?thesis
    unfolding rmtree_def k(1)
    by (intro wp_mono [OF wp_remove_tree [OF \<open>listing_ok (bk_ls b) N\<close> assms(2,3)]])
      (use assms(2,3) tree_ok_cut calm_confined in auto)
qed

lemma cut_at: "cut p f (p @ q) = None" "unrelated p r \<Longrightarrow> cut p f (r @ q) = f (r @ q)"
  using unrelated_below [of r p q] unrelated_sym [of p r] by (auto simp: cut_def)

lemma step_storage_removed:
  assumes "restorable b plan backup N n f" and "restore_in b plan N n f StorageSwapped dp (os_fs s)"
    and "calm s"
  shows "wp (rmtree (bk_ls b) (bk_fuel b) True (storage_root b))
    (\<lambda>_ t. restore_in b plan N n f (if f (storage_root b) = None then StorageKept else StorageAside) dp (os_fs t) \<and> calm t)
    (\<lambda>_ _. False) s"
proof -
  note ap = storage_apart [OF assms(1)]
  have ok: "tree_ok (os_fs s)" and st: "storage_in b plan N n f StorageSwapped (os_fs s)"
    using assms(2) by (auto simp: restore_in_def)
  have fok: "tree_ok f" and kind: "f (storage_root b) = None \<or> is_real_dir f (storage_root b)"
    using assms(1) by (auto simp: restorable_def)
  have rm: "removable N n (os_fs s) (storage_root b)" using st by simp
  show ?thesis
  proof (rule wp_mono [OF wp_calm_rmtree [OF assms(1,3) ok rm]], goal_cases)
    case (1 x t)
    then have t: "os_fs t = cut (storage_root b) (os_fs s)" and ok': "tree_ok (os_fs t)"
      and cf: "confined {storage_root b} {} s t" and c: "calm t" by auto
    have at: "os_fs t (storage_root b @ q) = None" "os_fs t (rp_storage_rollback plan @ q) = f (storage_root b @ q)"
      "os_fs t (rp_storage_stage plan @ q) = None" for q
      using st ap by (simp_all add: t cut_at)
    then have "removable N n (os_fs t) (rp_storage_stage plan)"
      using at(3) [of "[]"] by (simp add: removable_def sized_def)
    then have "storage_in b plan N n f (if f (storage_root b) = None then StorageKept else StorageAside) (os_fs t)"
      using at kind none_below [OF fok, of "storage_root b"] by auto
    then show ?case
      using stand_storage_step [OF assms(1,2) cf _ ok'] c by (simp add: storage_places_def)
  qed
qed

lemma step_storage_return:
  assumes "restorable b plan backup N n f" and "restore_in b plan N n f StorageAside dp (os_fs s)"
    and "calm s"
  shows "wp (sys_rename ls (rp_storage_rollback plan) (storage_root b))
    (\<lambda>_ t. restore_in b plan N n f StorageKept dp (os_fs t) \<and> calm t) (\<lambda>_ _. False) s"
proof -
  note ap = storage_apart [OF assms(1)]
  let ?A = "{storage_root b, rp_storage_rollback plan}"
  have un: "unrelated (rp_storage_rollback plan) (storage_root b)" "unrelated (rp_storage_stage plan) (storage_root b)"
    using ap unrelated_sym by blast+
  have ok: "tree_ok (os_fs s)" and st: "storage_in b plan N n f StorageAside (os_fs s)"
    using assms(2) by (auto simp: restore_in_def)
  then have at: "os_fs s (storage_root b @ q) = None" "os_fs s (rp_storage_rollback plan @ q) = f (storage_root b @ q)"
    and rm: "removable N n (os_fs s) (rp_storage_stage plan)" and dir: "is_real_dir f (storage_root b)" for q
    by auto
  have place: "placed (os_fs s) (storage_root b)"
    by (rule stand_placed [OF assms(1,2)]) (simp add: storage_places_def)
  show ?thesis
  proof (rule wp_mono [OF wp_calm_rename_in [where A = ?A, OF assms(3) ok]], goal_cases)
    case (9 x t)
    then have t: "os_fs t = move_tree (rp_storage_rollback plan) (storage_root b) (os_fs s)"
      and ok': "tree_ok (os_fs t)" and cf: "confined ?A {} s t" and c: "calm t" by auto
    have "removable N n (os_fs t) (rp_storage_stage plan)"
      using move_tree_elsewhere [OF ap(3) un(2)] by (intro removable_same [OF rm]) (simp add: t)
    then have "storage_in b plan N n f StorageKept (os_fs t)"
      using at move_tree_source [OF un(1)] by (simp add: t move_tree_at(1))
    then show ?case
      using stand_storage_step [OF assms(1,2) cf _ ok'] c by (simp add: storage_places_def)
  qed (use at [of "[]"] dir place ap un unrelated_neqs [OF un(1)]
      in \<open>auto simp: under_root placed_def is_real_dir_iff unrelated_def\<close>)
qed

text \<open>The four parts of the handler.\<close>

abbreviation aside_or_kept :: "database_phase \<Rightarrow> bool" where
  "aside_or_kept dp \<equiv> dp = DatabaseKept \<or> (\<exists>M. dp = DatabaseAside M)"

lemma step_unlink_restored:
  assumes "restorable b plan backup N n f" and "restore_in b plan N n f sp DatabaseSwapped (os_fs s)"
    and "calm s"
  shows "wp (unlink_missing_ok (bk_database_path b))
    (\<lambda>_ t. restore_in b plan N n f sp (DatabaseAside {p \<in> set (family b). f p \<noteq> None}) (os_fs t) \<and> calm t)
    (\<lambda>_ _. False) s"
proof -
  let ?M = "{p \<in> set (family b). f p \<noteq> None}" and ?main = "bk_database_path b"
  have main: "?main \<in> set (family b)" by (rule main_in_family [OF assms(1)])
  have db: "database_in b plan f DatabaseSwapped (os_fs s)" and ok: "tree_ok (os_fs s)"
    using assms(2) by (auto simp: restore_in_def)
  have run: "wp (unlink_missing_ok ?main) (\<lambda>_ t. os_fs t = (os_fs s)(?main := None)) (\<lambda>_ _. False) s"
    using assms(3) db
    by (auto simp: unlink_missing_ok_def sys_unlink_def wp_simps calm_def is_real_dir_iff fun_upd_idem
        split: option.splits node.splits)
  show ?thesis
  proof (rule wp_mono [OF cf.with_result [OF cf_unlink_missing [of "{?main}" _ "{}"] run]], goal_cases)
    case (2 x t)
    then have t: "os_fs t = (os_fs s)(?main := None)" and cf: "confined {?main} {} s t" by auto
    note ap = database_apart [OF assms(1) main]
    have ok': "tree_ok (os_fs t)" unfolding t by (rule tree_ok_without [OF ok]) (use db in simp)
    have "rp_database_rollback plan \<noteq> ?main" "rp_database_rollback plan @ [c] \<noteq> ?main"
      "rp_database_stage plan \<noteq> ?main" for c
      using unrelated_neqs [OF ap(1)] unrelated_neqs [OF ap(2)] by simp_all
    then have "database_in b plan f (DatabaseAside ?M) (os_fs t)"
      using db by (auto simp: t moved_aside_def is_real_dir_def)
    then show ?case
      using stand_database_step [OF assms(1,2) cf _ ok'] main calm_confined [OF cf assms(3)]
      by (simp add: database_places_def)
  qed (simp_all add: under_root)
qed

lemma step_database_back:
  assumes "restorable b plan backup N n f" and "restore_in b plan N n f sp dp (os_fs s)"
    and "calm s" and "aside_or_kept dp"
  shows "wp (if path_exists (os_fs s) (rp_database_rollback plan)
        then restore_database_rollback b (rp_database_rollback plan) else ret ())
      (\<lambda>_ t. restore_in b plan N n f sp DatabaseBack (os_fs t) \<and> calm t) (\<lambda>_ _. False) s"
proof -
  have db: "database_in b plan f dp (os_fs s)" using assms(2) by (simp add: restore_in_def)
  have "\<not> is_symlink (os_fs s) (rp_database_rollback plan)"
    using assms(4) db by (auto simp: moved_aside_def is_real_dir_iff is_symlink_def)
  then have ex: "path_exists (os_fs s) (rp_database_rollback plan) \<longleftrightarrow> os_fs s (rp_database_rollback plan) \<noteq> None"
    using stand_exists [OF assms(1,2)] by (simp add: database_places_def)
  from assms(4) show ?thesis
  proof
    assume k: "dp = DatabaseKept"
    then have "restore_in b plan N n f sp DatabaseBack (os_fs s)" using assms(2) by (simp add: restore_in_def)
    then show ?thesis using ex db k assms(3) by (simp add: wp_simps)
  next
    assume "\<exists>M. dp = DatabaseAside M"
    then obtain M where M: "dp = DatabaseAside M" by blast
    then have "path_exists (os_fs s) (rp_database_rollback plan)"
      using ex db by (auto simp: moved_aside_def is_real_dir_iff)
    then show ?thesis using wp_database_back [OF assms(1,2) [unfolded M] assms(3)] by simp
  qed
qed

lemma step_storage_back:
  assumes "restorable b plan backup N n f" and "restore_in b plan N n f sp dp (os_fs s)"
    and "calm s" and "sp \<in> {StorageKept, StorageAside}"
  shows "wp (if path_exists (os_fs s) (rp_storage_rollback plan)
        then sys_rename (bk_ls b) (rp_storage_rollback plan) (storage_root b) else ret ())
      (\<lambda>_ t. restore_in b plan N n f StorageKept dp (os_fs t) \<and> calm t) (\<lambda>_ _. False) s"
proof -
  have st: "storage_in b plan N n f sp (os_fs s)" using assms(2) by (simp add: restore_in_def)
  have "os_fs s (rp_storage_rollback plan @ q) = (if sp = StorageKept then None else f (storage_root b @ q))" for q
    using st assms(4) by auto
  from this [of "[]"] have rb: "os_fs s (rp_storage_rollback plan) = (if sp = StorageKept then None else f (storage_root b))"
    by simp
  have dir: "sp = StorageAside \<Longrightarrow> is_real_dir f (storage_root b)" using st by auto
  have "\<not> is_symlink (os_fs s) (rp_storage_rollback plan)"
    using rb dir assms(4) by (auto simp: is_real_dir_iff is_symlink_def)
  then have ex: "path_exists (os_fs s) (rp_storage_rollback plan) \<longleftrightarrow> sp = StorageAside"
    using stand_exists [OF assms(1,2), of "rp_storage_rollback plan"] rb dir assms(4)
    by (auto simp: storage_places_def is_real_dir_iff)
  show ?thesis
  proof (cases "sp = StorageAside")
    case True
    then show ?thesis using ex step_storage_return [OF assms(1,2) [unfolded True] assms(3)] by simp
  next
    case False
    then show ?thesis using ex assms(2-) by (simp add: wp_simps)
  qed
qed

lemma wp_undo:
  assumes "restorable b plan backup N n f" and "failed_in b plan N n f flags sp dp (os_fs s)" and "calm s"
  shows "wp (undo_restore b plan flags)
    (\<lambda>_ t. restore_in b plan N n f StorageKept DatabaseBack (os_fs t) \<and> calm t) (\<lambda>_ _. False) s"
proof -
  obtain sr dr where flags: "flags = (sr, dr)" by (cases flags)
  have at: "restore_in b plan N n f sp dp (os_fs s)" and sr: "sr = (sp = StorageSwapped)"
    and dr: "dr = (dp = DatabaseSwapped)" and "dp \<noteq> DatabaseBack"
    using assms(2) by (auto simp: failed_in_def flags)
  then have dp: "dp = DatabaseSwapped \<or> aside_or_kept dp" by (cases dp) auto
  have unlinked: "wp (if dr then unlink_missing_ok (bk_database_path b) else ret ())
      (\<lambda>_ t. \<exists>dp'. aside_or_kept dp' \<and> restore_in b plan N n f sp dp' (os_fs t) \<and> calm t) (\<lambda>_ _. False) s"
  proof (cases dr)
    case True
    then have "restore_in b plan N n f sp DatabaseSwapped (os_fs s)" using at dr by simp
    from step_unlink_restored [OF assms(1) this assms(3)]
    have "wp (unlink_missing_ok (bk_database_path b))
      (\<lambda>_ t. \<exists>dp'. aside_or_kept dp' \<and> restore_in b plan N n f sp dp' (os_fs t) \<and> calm t) (\<lambda>_ _. False) s"
      by (rule wp_mono) blast+
    then show ?thesis using True by simp
  next
    case False
    then show ?thesis using dr dp at assms(3) by (auto simp: wp_simps)
  qed
  have removed: "wp (if sr then rmtree (bk_ls b) (bk_fuel b) True (storage_root b) else ret ())
      (\<lambda>_ u. \<exists>sp' \<in> {StorageKept, StorageAside}. restore_in b plan N n f sp' DatabaseBack (os_fs u) \<and> calm u)
      (\<lambda>_ _. False) t"
    if "restore_in b plan N n f sp DatabaseBack (os_fs t)" "calm t" for t
  proof (cases sr)
    case True
    then have "restore_in b plan N n f StorageSwapped DatabaseBack (os_fs t)" using that(1) sr by simp
    from step_storage_removed [OF assms(1) this that(2)]
    have "wp (rmtree (bk_ls b) (bk_fuel b) True (storage_root b))
      (\<lambda>_ u. \<exists>sp' \<in> {StorageKept, StorageAside}. restore_in b plan N n f sp' DatabaseBack (os_fs u) \<and> calm u)
      (\<lambda>_ _. False) t"
      by (rule wp_mono) (auto split: if_splits)
    then show ?thesis using True by simp
  next
    case False
    then have "sp \<in> {StorageKept, StorageAside}" using sr by (cases sp) auto
    then show ?thesis using that False by (auto simp: wp_simps)
  qed
  show ?thesis
    unfolding undo_restore_def flags prod.case
  proof (rule wp_bind_spec [OF unlinked], goal_cases)
    case (1 x t)
    then obtain dp' where t: "restore_in b plan N n f sp dp' (os_fs t)" "calm t" "aside_or_kept dp'" by blast
    show ?case
    proof (rule wp_bind_gets, rule wp_bind_spec [OF step_database_back [OF assms(1) t]], goal_cases)
      case (1 y u)
      show ?case
      proof (rule wp_bind_spec [OF removed], use 1 in blast, use 1 in blast, rule wp_bind_gets, goal_cases)
        case (1 z v)
        then show ?case using step_storage_back [OF assms(1)] by blast
      qed simp
    qed simp
  qed simp
qed

section \<open>Clearing the stage, and the whole block\<close>

lemma removable_empty:
  assumes "tree_ok g" and "g p = None \<or> is_real_dir g p" and "\<And>c. g (p @ [c]) = None"
  shows "removable N n g p"
proof -
  have "sized N n g p"
    unfolding sized_def
  proof (intro allI impI)
    fix q assume "g (p @ q) \<noteq> None"
    then have "q = []" using none_below [OF assms(1,3)] by (cases q) auto
    then show "set q \<subseteq> N \<and> length q \<le> n" by simp
  qed
  then show ?thesis using assms(2) by (simp add: removable_def)
qed

lemma restored_tree:
  assumes "restorable b plan backup N n f" and "restore_in b plan N n f StorageKept DatabaseBack g"
    and "tree_ok h" and "h (rp_storage_stage plan) = None" "h (rp_database_stage plan) = None"
    "h (rp_database_rollback plan) = None"
    and "\<And>p. \<not> under {rp_storage_stage plan, rp_database_stage plan, rp_database_rollback plan} p \<Longrightarrow> h p = g p"
  shows "h = f"
proof
  fix p
  let ?X = "{rp_storage_stage plan, rp_database_stage plan, rp_database_rollback plan}"
  have fok: "tree_ok f" and free: "f (rp_storage_rollback plan) = None" "r \<in> ?X \<Longrightarrow> f r = None" for r
    using assms(1) by (auto simp: restorable_def)
  have st: "storage_in b plan N n f StorageKept g" and db: "database_in b plan f DatabaseBack g"
    and ok: "tree_ok g" using assms(2) by (auto simp: restore_in_def)
  show "h p = f p"
  proof (cases "under ?X p")
    case True
    then obtain r q where r: "r \<in> ?X" "p = r @ q" by (auto simp: under_def starts_with_iff)
    then have "h r = None" using assms(4-6) by auto
    then show ?thesis using none_below [OF assms(3)] none_below [OF fok free(2) [OF r(1)]] r(2) by simp
  next
    case out: False
    then have same: "h p = g p" by (rule assms(7))
    show ?thesis
    proof (cases "under (places b plan) p")
      case False
      then show ?thesis using same assms(2) by (simp add: restore_in_def)
    next
      case True
      then obtain r q where r: "r \<in> places b plan" "p = r @ q" by (auto simp: under_def starts_with_iff)
      have "r \<notin> ?X" using out r(2) by (auto simp: under_def starts_with_iff)
      then consider "r = storage_root b" | "r = rp_storage_rollback plan" | "r \<in> set (family b)"
        using r(1) by (auto simp: storage_places_def database_places_def)
      then have "g p = f p"
      proof cases
        case 2
        then show ?thesis using st r(2) none_below [OF fok free(1)] by simp
      next
        case 3
        then have "g r = f r" "\<not> is_real_dir f r" using db database_apart(5) [OF assms(1)] by auto
        then show ?thesis
          using r(2) tree_ok_none_below [OF ok, of r] tree_ok_none_below [OF fok, of r]
          by (cases q) (auto simp: is_real_dir_def)
      qed (use st r(2) in simp)
      then show ?thesis using same by simp
    qed
  qed
qed

lemma wp_discard_stages:
  assumes "restorable b plan backup N n f" and "restore_in b plan N n f StorageKept DatabaseBack (os_fs s)"
    and "calm s"
  shows "wp (discard_stages b plan) (\<lambda>_ t. os_fs t = f) (\<lambda>_ _. False) s"
proof -
  let ?st = "rp_storage_stage plan" and ?ds = "rp_database_stage plan" and ?dr = "rp_database_rollback plan"
  have db: "database_in b plan f DatabaseBack (os_fs s)" and ok: "tree_ok (os_fs s)"
    and rm: "removable N n (os_fs s) ?st" using assms(2) by (auto simp: restore_in_def)
  have in_places: "?st \<in> places b plan" "?dr \<in> places b plan" "?st \<noteq> ?dr"
    using ready_distinct [OF assms(1)] by (auto simp: storage_places_def database_places_def)
  then have un: "unrelated ?st ?dr" using ready_places(2) [OF assms(1)] by blast
  show ?thesis
    unfolding discard_stages_def
  proof (rule wp_bind_spec [OF wp_calm_rmtree [OF assms(1,3) ok rm]], goal_cases)
    case (1 x t)
    then have t: "os_fs t = cut ?st (os_fs s)" and okt: "tree_ok (os_fs t)" and c: "calm t" by auto
    have nd: "\<not> is_real_dir (os_fs t) ?ds" using db by (simp add: t cut_def is_real_dir_def)
    have unlinked: "wp (unlink_missing_ok ?ds) (\<lambda>_ u. os_fs u = (os_fs t)(?ds := None)) (\<lambda>_ _. False) t"
      using c nd
      by (auto simp: unlink_missing_ok_def sys_unlink_def wp_simps calm_def is_real_dir_iff fun_upd_idem
          split: option.splits node.splits)
    have under: "under {?ds} ?ds" by (simp add: under_root)
    show ?case
    proof (rule wp_bind_spec [OF cf.with_result [OF cf_unlink_missing [OF under, of "{}"] unlinked]], goal_cases)
      case (1 y u)
      then have u: "os_fs u = (cut ?st (os_fs s))(?ds := None)" and cu: "calm u"
        using calm_confined [OF _ c] by (auto simp: t)
      have oku: "tree_ok (os_fs u)" unfolding u t [symmetric] by (rule tree_ok_without [OF okt nd])
      have "os_fs u (?dr @ q) = os_fs s (?dr @ q)" for q
        using unrelated_neqs [OF rollback_apart(1) [OF assms(1)]] by (simp add: u cut_at(2) [OF un])
      note dr = this this [of "[]", simplified]
      have "removable N n (os_fs u) ?dr"
        by (rule removable_empty [OF oku])
          (use db none_below [OF ok, of ?dr] in \<open>auto simp: dr moved_aside_def is_real_dir_def\<close>)
      then show ?case
      proof (rule wp_mono [OF wp_calm_rmtree [OF assms(1) cu oku]], goal_cases)
        case (1 z v)
        then have v: "os_fs v = cut ?dr ((cut ?st (os_fs s))(?ds := None))" and okv: "tree_ok (os_fs v)"
          by (auto simp: u)
        show ?case
          by (rule restored_tree [OF assms(1,2) okv]) (auto simp: v cut_def under_def)
      qed
    qed simp
  qed simp
qed

lemma cf_raising_with: "obeys (confined A C) m \<Longrightarrow> obeys (confined A C) (raising_with flags m)"
  unfolding raising_with_def by (intro cf.try_catch cf.bind cf.basic)

lemma failed_block_undone:
  assumes "restorable b plan backup N n (os_fs s)" and "leaves_no_log (bk_engine b)"
    and "restore_steps b backup plan s = (Inr (Some (flags, e)), t)" and "calm t"
  shows "wp (restore_with_plan b backup plan) (\<lambda>_ _. False) (\<lambda>x u. x = e \<and> os_fs u = os_fs s) s"
proof -
  obtain sp dp where at: "failed_in b plan N n (os_fs s) flags sp dp (os_fs t)"
    using wp_run_Inr [OF wp_restore_steps [OF assms(1,2)] assms(3)] by blast
  have undone: "wp (undo_restore b plan flags)
      (\<lambda>_ u. wp (discard_stages b plan) (\<lambda>_ v. os_fs v = os_fs s) (\<lambda>_ _. False) u) (\<lambda>_ _. False) t"
    by (rule wp_mono [OF wp_undo [OF assms(1) at assms(4)]]) (use wp_discard_stages [OF assms(1)] in auto)
  have handler: "wp (bind (undo_restore b plan flags) (\<lambda>_. throw e)) (\<lambda>(_ :: unit) _. False)
      (\<lambda>x u. x = e \<and> wp (discard_stages b plan) (\<lambda>_ v. os_fs v = os_fs s) (\<lambda>_ _. False) u) t"
    by (rule wp_bind_spec [OF undone]) (auto simp: wp_simps)
  have "wp (bind (restore_steps b backup plan) (\<lambda>raised. case raised of None \<Rightarrow> ret ()
        | Some (flags, e) \<Rightarrow> bind (undo_restore b plan flags) (\<lambda>_. throw e)))
      (\<lambda>_ _. False) (\<lambda>x u. x = e \<and> wp (discard_stages b plan) (\<lambda>_ v. os_fs v = os_fs s) (\<lambda>_ _. False) u) s"
    unfolding wp_bind [of "restore_steps b backup plan"] using handler
    by (simp add: wp_def [of "restore_steps b backup plan"] assms(3))
  then show ?thesis
    unfolding restore_with_plan_def wp_finally_do by (rule wp_mono) (auto elim: wp_mono)
qed

end
