(* ===== verification/RestoreContent.thy ===== *)
theory RestoreContent
  imports RestoreUndo
begin

text \<open>
  What a restore that returns has put in place: the storage tree and the migrated database of
  the backup, whatever failed on the way without stopping it.
\<close>

section \<open>The copied tree\<close>

text \<open>The tree at \<open>r\<close> is that of \<open>src\<close> with the directories down to \<open>tb\<close> added.\<close>

definition laid_out :: "path \<Rightarrow> fs \<Rightarrow> path \<Rightarrow> fs \<Rightarrow> path \<Rightarrow> bool" where
  "laid_out tb f src g r \<longleftrightarrow> (\<forall>q. g (r @ q) = f (src @ q)
     \<or> f (src @ q) = None \<and> is_real_dir g (r @ q) \<and> starts_with q tb)"

lemma laid_out_moved: "laid_out tb f src g r \<Longrightarrow> (\<And>q. h (r' @ q) = g (r @ q)) \<Longrightarrow> laid_out tb f src h r'"
  by (simp add: laid_out_def is_real_dir_def)

lemma laid_out_files: "laid_out tb f src g r \<Longrightarrow> file_at g (r @ q) = file_at f (src @ q)"
  unfolding laid_out_def file_at_def is_real_dir_iff by (metis (mono_tags, lifting) node.simps(10) option.simps(4) option.simps(5))

text \<open>A regular file that no place touches.\<close>

lemma untouched:
  assumes "restorable b plan backup N n f" and "confined A {} s t" and "A \<subseteq> places b plan"
  shows "os_fs t (backup @ r) = os_fs s (backup @ r)"
proof -
  have un: "unrelated (backup @ r) p" if "p \<in> A" for p
    using ready_places(3) [OF assms(1)] that assms(3) by blast
  have "\<not> under A (backup @ r)" using un by (auto simp: under_def unrelated_def)
  then have "same_entry A {} (os_fs s) (os_fs t) (backup @ r)" using assms(2) by (simp add: confined_def)
  then show ?thesis using un by (auto simp: same_entry_def unrelated_def)
qed

lemma apart_same:
  assumes "restorable b plan backup N n f" and "confined A {} s t" and "A \<subseteq> places b plan"
    and "r \<in> places b plan" and "r \<notin> A"
  shows "os_fs t (r @ q) = os_fs s (r @ q)"
proof -
  have un: "unrelated r p" if "p \<in> A" for p
    using ready_places(2) [OF assms(1,4)] that assms(3,5) by blast
  have "\<not> under A (r @ q)" by (rule not_under_others [of r]) (use un in auto)
  then have "same_entry A {} (os_fs s) (os_fs t) (r @ q)" using assms(2) by (simp add: confined_def)
  then show ?thesis using un unrelated_below by (auto simp: same_entry_def)
qed

section \<open>The stage\<close>

abbreviation saved_storage :: "path \<Rightarrow> path" where
  "saved_storage backup \<equiv> backup @ [storage_area_name]"

abbreviation saved_database :: "path \<Rightarrow> path" where
  "saved_database backup \<equiv> backup @ [database_directory, database_file_name]"

text \<open>The regular file at \<open>p\<close> has the bytes \<open>c\<close>.\<close>

definition holds_bytes :: "fs \<Rightarrow> path \<Rightarrow> bytes \<Rightarrow> bool" where
  "holds_bytes f p c \<longleftrightarrow> (\<exists>m k. f p = Some (File c m k))"

lemma holds_bytes_cong: "holds_bytes f p c \<Longrightarrow> g q = f p \<Longrightarrow> holds_bytes g q c"
  by (simp add: holds_bytes_def)

lemma copied_tree:
  assumes "restorable b plan backup N n (os_fs s)"
  shows "wp (copytree (bk_ls b) wr k (saved_storage backup) (rp_storage_stage plan))
    (\<lambda>_ t. first_stand b plan N n (os_fs s) (os_fs t)
       \<and> (\<forall>q. os_fs t (rp_storage_stage plan @ q) = os_fs s (saved_storage backup @ q))
       \<and> confined {rp_storage_stage plan} {} s t) (\<lambda>_ _. True) s"
proof -
  have r: "tree_ok (os_fs s)" "plain_tree N (os_fs s) (saved_storage backup)"
    "os_fs s (rp_storage_stage plan) = None" "listing_ok (bk_ls b) N"
    using assms by (auto simp: restorable_def)
  have "unrelated (saved_storage backup) (rp_storage_stage plan)"
    using ready_places(3) [OF assms] by (simp add: storage_places_def)
  from wp_copytree [OF r(4,1,2) this r(3)] have "wp (copytree (bk_ls b) wr k (saved_storage backup) (rp_storage_stage plan))
     (\<lambda>_ t. (\<forall>q. os_fs t (rp_storage_stage plan @ q) = os_fs s (saved_storage backup @ q))
        \<and> confined {rp_storage_stage plan} {} s t) (\<lambda>_ _. True) s"
    unfolding copies_def by (rule wp_mono) auto
  from wp_conj [OF step_copytree [OF assms] this] show ?thesis by (rule wp_mono) auto
qed

lemma staged_tree_mkdir:
  assumes "restorable b plan backup N n f" and "first_stand b plan N n f (os_fs s)"
    and "\<And>q. os_fs s (rp_storage_stage plan @ q) = h (src @ q)"
  shows "wp (path_mkdir True True m (rp_storage_stage plan @ temporary_below b))
    (\<lambda>_ t. first_stand b plan N n f (os_fs t)
       \<and> laid_out (temporary_below b) h src (os_fs t) (rp_storage_stage plan)
       \<and> confined {rp_storage_stage plan} {} s t) (\<lambda>_ _. True) s"
proof -
  let ?p = "rp_storage_stage plan @ temporary_below b"
  have way: "on_way {} {?p} ?p" "on_way {rp_storage_stage plan} {} ?p"
    by (simp_all add: on_way_self) (simp add: on_way_def under_def)
  have lay: "laid_out (temporary_below b) h src (os_fs t) (rp_storage_stage plan)"
    if "confined {} {?p} s t" "os_fs s ?p = None \<and> os_fs t ?p = Some (Dir m) \<or> os_fs t ?p = os_fs s ?p" for t
    unfolding laid_out_def assms(3) [symmetric]
  proof
    fix q
    let ?q = "rp_storage_stage plan @ q"
    show "os_fs t ?q = os_fs s ?q \<or> os_fs s ?q = None \<and> is_real_dir (os_fs t) ?q \<and> starts_with q (temporary_below b)"
    proof (cases "q = temporary_below b")
      case True
      then show ?thesis using that(2) by (auto simp: is_real_dir_iff)
    next
      case False
      have "same_entry {} {?p} (os_fs s) (os_fs t) ?q" using that(1) by (simp add: confined_def under_def)
      then show ?thesis using False by (auto simp: same_entry_def starts_with_iff)
    qed
  qed
  show ?thesis
    by (rule wp_mono [OF wp_conj [OF wp_conj [OF step_mkdir [OF assms(1,2)] wp_path_mkdir]
          wp_conj [OF obeysD [OF cf_path_mkdir [OF way(1)]] obeysD [OF cf_path_mkdir [OF way(2)]]]]]) (use lay in blast)+
qed

lemma copied_database:
  assumes "restorable b plan backup N n f" and "first_stand b plan N n f (os_fs s)"
    and "os_fs s (saved_database backup) = f (saved_database backup)"
  shows "wp (copy_regular_file wr sha (saved_database backup) (rp_database_stage plan))
    (\<lambda>_ t. first_stand b plan N n f (os_fs t)
       \<and> (\<exists>c. holds_bytes f (saved_database backup) c \<and> holds_bytes (os_fs t) (rp_database_stage plan) c)
       \<and> confined {rp_database_stage plan} {} s t) (\<lambda>_ _. True) s"
proof -
  have "obeys (confined {rp_database_stage plan} {}) (copy_regular_file wr sha (saved_database backup) (rp_database_stage plan))"
    by (rule cf_copy_regular_file) (simp add: under_root)
  note run = cf.with_result [OF this wp_copy_regular_file [OF rollback_apart(3) [OF assms(1)]]]
  show ?thesis
    by (rule wp_mono [OF wp_conj [OF step_copy_database [OF assms(1,2)] run]])
      (use assms(3) in \<open>auto simp: holds_bytes_def\<close>)
qed

text \<open>After the two renames of the storage the new tree is in place.\<close>

lemma swapped_tree:
  assumes "restorable b plan backup N n f" and "first_stand b plan N n f (os_fs s)"
    and "laid_out tb f src (os_fs s) (rp_storage_stage plan)" and "holds_bytes (os_fs s) (rp_database_stage plan) c"
  shows "wp (bind (if path_exists (os_fs s) (storage_root b)
           then sys_rename (bk_ls b) (storage_root b) (rp_storage_rollback plan) else ret ()) (\<lambda>_.
         sys_rename (bk_ls b) (rp_storage_stage plan) (storage_root b)))
    (\<lambda>_ t. restore_in b plan N n f StorageSwapped DatabaseKept (os_fs t)
       \<and> laid_out tb f src (os_fs t) (storage_root b) \<and> holds_bytes (os_fs t) (rp_database_stage plan) c)
    (\<lambda>_ _. True) s"
proof -
  let ?A = "{storage_root b, rp_storage_rollback plan}" and ?B = "{storage_root b, rp_storage_stage plan}"
  have A: "?A \<subseteq> places b plan" "?B \<subseteq> places b plan" by (auto simp: storage_places_def)
  have ds: "rp_database_stage plan \<in> places b plan" "rp_database_stage plan \<notin> ?A" "rp_database_stage plan \<notin> ?B"
    and st: "rp_storage_stage plan \<in> places b plan" "rp_storage_stage plan \<notin> ?A"
    using ready_distinct [OF assms(1)] by (auto simp: storage_places_def database_places_def)
  have aside: "obeys (confined ?A {}) (if path_exists (os_fs s) (storage_root b)
      then sys_rename (bk_ls b) (storage_root b) (rp_storage_rollback plan) else ret ())"
    by (intro cf.branches cf_rename cf.basic) (simp_all add: under_root)
  have swap: "obeys (confined ?B {}) (sys_rename (bk_ls b) (rp_storage_stage plan) (storage_root b))"
    by (intro cf_rename) (simp_all add: under_root)
  show ?thesis
  proof (rule wp_bind_spec [OF cf.with_result [OF aside step_aside [OF assms(1,2)]]], goal_cases)
    case (1 x t)
    then obtain sp where t: "restore_in b plan N n f sp DatabaseKept (os_fs t)" "sp \<in> {StorageKept, StorageAside}"
      "\<And>q. os_fs t (storage_root b @ q) = None" "\<And>q. os_fs t (rp_storage_rollback plan @ q) = f (storage_root b @ q)"
      and cf: "confined ?A {} s t" by blast
    have lay: "laid_out tb f src (os_fs t) (rp_storage_stage plan)"
      by (rule laid_out_moved [OF assms(3)]) (rule apart_same [OF assms(1) cf A(1) st])
    have hb: "holds_bytes (os_fs t) (rp_database_stage plan) c"
      using apart_same [OF assms(1) cf A(1) ds(1,2), of "[]"] by (intro holds_bytes_cong [OF assms(4)]) simp
    show ?case
    proof (rule wp_mono [OF cf.with_result [OF swap step_swap [OF assms(1) t]]], goal_cases)
      case (1 y u)
      then have u: "\<And>q. os_fs u (storage_root b @ q) = os_fs t (rp_storage_stage plan @ q)" and cf': "confined ?B {} t u"
        by auto
      have "holds_bytes (os_fs u) (rp_database_stage plan) c"
        using apart_same [OF assms(1) cf' A(2) ds(1,3), of "[]"] by (intro holds_bytes_cong [OF hb]) simp
      then show ?case using 1 laid_out_moved [OF lay u] by blast
    qed simp
  qed simp
qed

lemma wp_stage_content:
  assumes "restorable b plan backup N n (os_fs s)"
  shows "wp (restore_stage b backup plan)
    (\<lambda>_ t. restore_in b plan N n (os_fs s) StorageSwapped DatabaseKept (os_fs t)
       \<and> laid_out (temporary_below b) (os_fs s) (saved_storage backup) (os_fs t) (storage_root b)
       \<and> (\<exists>c. holds_bytes (os_fs s) (saved_database backup) c \<and> holds_bytes (os_fs t) (rp_database_stage plan) c))
    (\<lambda>_ _. True) s"
proof -
  let ?f = "os_fs s" and ?st = "rp_storage_stage plan" and ?ds = "rp_database_stage plan"
  have rel: "relative_parts (sp_temporary (bk_paths b)) (storage_root b) = Inr (temporary_below b)"
    using assms by (simp add: restorable_def relative_parts_def)
  have A: "{?st} \<subseteq> places b plan" "{?ds} \<subseteq> places b plan" "?st \<in> places b plan" "?st \<notin> {?ds}"
    using ready_distinct [OF assms] by (auto simp: storage_places_def database_places_def)
  show ?thesis
    unfolding restore_stage_def rel
  proof (rule wp_bind_spec [OF copied_tree [OF assms]], rule wp_bind_lift, goal_cases)
    case (1 x t p)
    then have p: "p = temporary_below b" and t: "first_stand b plan N n ?f (os_fs t)"
      "\<And>q. os_fs t (?st @ q) = ?f (saved_storage backup @ q)" "confined {?st} {} s t" by auto
    show ?case
      unfolding p
    proof (rule wp_bind_spec [OF staged_tree_mkdir [OF assms t(1,2)]], goal_cases)
      case (1 y u)
      then have u: "first_stand b plan N n ?f (os_fs u)"
        "laid_out (temporary_below b) ?f (saved_storage backup) (os_fs u) ?st" and "confined {?st} {} t u" by auto
      then have cf: "confined {?st} {} s u" using t(3) cf.trans by blast
      have src: "os_fs u (saved_database backup) = ?f (saved_database backup)" by (rule untouched [OF assms cf A(1)])
      have "wp (discard (copy_regular_file (bk_wr b) (bk_sha b) (saved_database backup) ?ds))
         (\<lambda>_ v. first_stand b plan N n ?f (os_fs v)
           \<and> (\<exists>c. holds_bytes ?f (saved_database backup) c \<and> holds_bytes (os_fs v) ?ds c) \<and> confined {?ds} {} u v) (\<lambda>_ _. True) u"
        unfolding wp_discard by (rule copied_database [OF assms u(1) src])
      then show ?case
      proof (rule wp_bind_spec, goal_cases)
        case (1 z v)
        then obtain c where v: "first_stand b plan N n ?f (os_fs v)" "holds_bytes ?f (saved_database backup) c"
          "holds_bytes (os_fs v) ?ds c" and cf': "confined {?ds} {} u v" by blast
        have lay: "laid_out (temporary_below b) ?f (saved_storage backup) (os_fs v) ?st"
          by (rule laid_out_moved [OF u(2)]) (rule apart_same [OF assms cf' A(2-4)])
        show ?case
        proof (rule wp_bind_spec [OF wp_integrity], rule wp_bind_gets, goal_cases)
          case (1 z w)
          then show ?case using v lay by (intro wp_mono [OF swapped_tree [OF assms]]) auto
        qed simp
      qed simp
    qed simp
  qed auto
qed

section \<open>The database\<close>

lemma swapped_database:
  assumes "restorable b plan backup N n f" and "restore_in b plan N n f StorageSwapped DatabaseKept (os_fs s)"
    and "laid_out tb f src (os_fs s) (storage_root b)" and "holds_bytes (os_fs s) (rp_database_stage plan) c"
  shows "wp (restore_database b plan)
    (\<lambda>_ t. restore_in b plan N n f StorageSwapped DatabaseSwapped (os_fs t)
       \<and> laid_out tb f src (os_fs t) (storage_root b) \<and> holds_bytes (os_fs t) (bk_database_path b) c) (\<lambda>_ _. True) s"
proof -
  let ?ds = "rp_database_stage plan" and ?main = "bk_database_path b"
  let ?A = "set (family b) \<union> {rp_database_rollback plan}" and ?B = "{?ds, ?main}"
  note main = main_in_family [OF assms(1)]
  have A: "?A \<subseteq> places b plan" "set (database_places b plan) \<subseteq> places b plan"
    by (auto simp: database_places_def)
  have ds: "?ds \<in> places b plan" "?ds \<notin> ?A" and root: "storage_root b \<in> places b plan"
      "storage_root b \<notin> set (database_places b plan)"
    using ready_distinct [OF assms(1)] by (auto simp: storage_places_def database_places_def)
  have fam: "with_suffix (bk_database_path b) x \<in> ?A" if "x \<in> set [[], wal_suffix, shm_suffix]" for x
    using that by (auto simp: family_def)
  have one: "obeys (confined ?A {}) (if path_exists g p \<or> is_symlink g p
      then sys_rename (bk_ls b) p (rp_database_rollback plan @ [last p]) else ret () :: unit svc)" if "p \<in> ?A" for g p
    by (intro cf.branches cf_rename cf.basic under_child) (use that in \<open>simp_all add: under_root\<close>)
  have loop: "obeys (confined ?A {}) (for_each xs (\<lambda>suffix. let source = with_suffix (bk_database_path b) suffix in
       bind (gets os_fs) (\<lambda>f. if path_exists f source \<or> is_symlink f source
         then sys_rename (bk_ls b) source (rp_database_rollback plan @ [last source]) else ret ())) :: unit svc)"
    if "set xs \<subseteq> set [[], wal_suffix, shm_suffix]" for xs
    using that
  proof (induction xs)
    case (Cons x xs)
    then have "with_suffix (bk_database_path b) x \<in> ?A" using fam by simp
    note first = one [OF this]
    have "set xs \<subseteq> set [[], wal_suffix, shm_suffix]" using Cons.prems by simp
    from Cons.IH [OF this] have rest: "obeys (confined ?A {}) (for_each xs (\<lambda>suffix.
        bind (gets os_fs) (\<lambda>f. if path_exists f (with_suffix ?main suffix) \<or> is_symlink f (with_suffix ?main suffix)
          then sys_rename (bk_ls b) (with_suffix ?main suffix)
            (rp_database_rollback plan @ [last (with_suffix ?main suffix)]) else ret ())) :: unit svc)"
      by (simp only: Let_def)
    show ?case unfolding for_each.simps Let_def by (intro cf.bind cf.basic first rest)
  qed simp
  have aside: "obeys (confined ?A {}) (move_database_aside b (rp_database_rollback plan))"
    unfolding move_database_aside_def by (intro cf.bind cf_path_mkdir loop) (simp_all add: on_way_def under_root)
  have swap: "obeys (confined ?B {}) (sys_rename (bk_ls b) ?ds ?main)"
    by (intro cf_rename) (simp_all add: under_root)
  have main_at: "wp (restore_database b plan)
      (\<lambda>_ t. holds_bytes (os_fs t) ?main c \<and> confined (set (database_places b plan)) {} s t) (\<lambda>_ _. True) s"
    unfolding restore_database_def
  proof (rule wp_bind_spec [OF obeysD [OF aside]], goal_cases)
    case (1 x t)
    have hb: "holds_bytes (os_fs t) ?ds c"
      using apart_same [OF assms(1) 1 A(1) ds, of "[]"] by (intro holds_bytes_cong [OF assms(4)]) simp
    have ne: "?ds \<noteq> ?main" using ds(2) main by auto
    show ?case
    proof (rule wp_mono [OF cf.with_result [OF swap wp_sys_rename [OF ne]]], goal_cases)
      case (1 y u)
      have "confined (set (database_places b plan)) {} s t"
        by (rule confined_mono [OF \<open>confined ?A {} s t\<close>]) (auto simp: database_places_def intro: under_root)
      moreover have "confined (set (database_places b plan)) {} t u"
        by (rule confined_mono [of ?B]) (use 1 main in \<open>auto simp: database_places_def intro: under_root\<close>)
      ultimately show ?case
        using 1 cf.trans move_tree_at(1) [of ?ds ?main "os_fs t" "[]"] by (auto intro: holds_bytes_cong [OF hb])
    qed simp
  qed simp
  have lay: "laid_out tb f src (os_fs t) (storage_root b)" if "confined (set (database_places b plan)) {} s t" for t
    by (rule laid_out_moved [OF assms(3)]) (rule apart_same [OF assms(1) that A(2) root])
  show ?thesis
    by (rule wp_mono [OF wp_conj [OF wp_restore_database [OF assms(1,2)] main_at]]) (use lay in auto)
qed

text \<open>The outcome of the migrations on the saved database, and the files below the storage root.\<close>

definition restored :: "backup_service \<Rightarrow> path \<Rightarrow> fs \<Rightarrow> fs \<Rightarrow> bool" where
  "restored b backup f g \<longleftrightarrow>
     laid_out (temporary_below b) f (saved_storage backup) g (storage_root b)
     \<and> (\<exists>c. holds_bytes f (saved_database backup) c \<and> uo_error (sq_upgrade (bk_engine b) c None) = None
          \<and> file_at g (bk_database_path b) = uo_main (sq_upgrade (bk_engine b) c None))"

lemma upgraded_database:
  assumes "holds_bytes (os_fs s) (bk_database_path b) c"
    and "os_fs s (with_suffix (bk_database_path b) wal_suffix) = None"
    and "bk_database_path b \<noteq> with_suffix (bk_database_path b) wal_suffix"
    and "bk_database_path b \<noteq> with_suffix (bk_database_path b) shm_suffix"
  shows "wp (upgrade_database b)
    (\<lambda>_ t. uo_error (sq_upgrade (bk_engine b) c None) = None
       \<and> file_at (os_fs t) (bk_database_path b) = uo_main (sq_upgrade (bk_engine b) c None)) (\<lambda>_ _. True) s"
proof -
  have "files s (bk_database_path b) = Some c" "files s (with_suffix (bk_database_path b) wal_suffix) = None"
    using assms(1,2) by (auto simp: files_def file_at_def holds_bytes_def)
  moreover have "file_at (put_file p x now g) p = x" for p x now g
    by (simp add: put_file_def file_at_def split: option.splits)
  ultimately show ?thesis
    using assms(3,4)
    by (auto simp: upgrade_database_def Let_def wp_simps file_at_def put_file_other split: option.splits)
qed

lemma finished_restore:
  assumes "restorable b plan backup N n f"
    and "restore_in b plan N n f StorageSwapped DatabaseSwapped (os_fs s)"
    and "laid_out (temporary_below b) f (saved_storage backup) (os_fs s) (storage_root b)"
    and "holds_bytes f (saved_database backup) c" and "holds_bytes (os_fs s) (bk_database_path b) c"
  shows "wp (restore_finish b plan) (\<lambda>_ t. restored b backup f (os_fs t)) (\<lambda>_ _. True) s"
proof -
  let ?main = "bk_database_path b" and ?wal = "with_suffix (bk_database_path b) wal_suffix"
  let ?A = "set (family b)" and ?B = "{rp_storage_rollback plan, rp_database_rollback plan}"
  note main = main_in_family [OF assms(1)]
  have ne: "?main \<noteq> []" using assms(1) by (simp add: restorable_def)
  then have "with_suffix ?main [] = ?main" by (simp add: with_suffix_def)
  then have d: "?main \<noteq> ?wal" "?main \<noteq> with_suffix ?main shm_suffix" and fam: "?wal \<in> set (family b)"
    using ready_distinct [OF assms(1)] by (auto simp: database_places_def family_def)
  have gone: "os_fs s ?wal = None" using assms(2) fam d by (auto simp: restore_in_def)
  have places: "?A \<subseteq> places b plan" "?B \<subseteq> places b plan" "storage_root b \<in> places b plan" "?main \<in> places b plan"
    "storage_root b \<notin> ?A" "storage_root b \<notin> ?B" "?main \<notin> ?B"
    using ready_distinct [OF assms(1)] main by (auto simp: storage_places_def database_places_def)
  have up: "obeys (confined ?A {}) (upgrade_database b)" by (rule cf_upgrade [OF ne]) simp
  have tidy: "obeys (confined ?B {}) (bind (rmtree (bk_ls b) (bk_fuel b) True (rp_storage_rollback plan))
      (\<lambda>_. rmtree (bk_ls b) (bk_fuel b) True (rp_database_rollback plan)))"
    unfolding rmtree_def by (intro cf.bind cf_remove_tree) (simp_all add: under_root)
  show ?thesis
    unfolding restore_finish_def
  proof (rule wp_bind_spec [OF cf.with_result [OF up upgraded_database [OF assms(5) gone d]]], goal_cases)
    case (1 x t)
    then have t: "uo_error (sq_upgrade (bk_engine b) c None) = None"
      "file_at (os_fs t) ?main = uo_main (sq_upgrade (bk_engine b) c None)" and cf: "confined ?A {} s t" by auto
    have lay: "laid_out (temporary_below b) f (saved_storage backup) (os_fs t) (storage_root b)"
      by (rule laid_out_moved [OF assms(3)]) (rule apart_same [OF assms(1) cf places(1,3,5)])
    show ?case
    proof (rule wp_bind_spec [OF wp_integrity], goal_cases)
      case (1 y u)
      show ?case
      proof (rule wp_mono [OF obeysD [OF tidy]], goal_cases)
        case (1 z v)
        have "laid_out (temporary_below b) f (saved_storage backup) (os_fs v) (storage_root b)"
          by (rule laid_out_moved [OF lay])
            (use apart_same [OF assms(1) 1 places(2,3,6)] \<open>os_fs u = os_fs t\<close> in simp)
        moreover have "os_fs v ?main = os_fs t ?main"
          using apart_same [OF assms(1) 1 places(2,4,7), of "[]"] \<open>os_fs u = os_fs t\<close> by simp
        ultimately show ?case using t assms(4) by (auto simp: restored_def file_at_def)
      qed simp
    qed simp
  qed simp
qed

section \<open>The whole restore\<close>

lemma kept_restored:
  assumes "restorable b plan backup N n f" and "restored b backup f (os_fs s)"
    and "confined {rp_storage_stage plan, rp_database_stage plan, rp_database_rollback plan} {} s t"
  shows "restored b backup f (os_fs t)"
proof -
  let ?A = "{rp_storage_stage plan, rp_database_stage plan, rp_database_rollback plan}"
  note main = main_in_family [OF assms(1)]
  have places: "?A \<subseteq> places b plan" "storage_root b \<in> places b plan" "bk_database_path b \<in> places b plan"
    "storage_root b \<notin> ?A" "bk_database_path b \<notin> ?A"
    using ready_distinct [OF assms(1)] main by (auto simp: storage_places_def database_places_def)
  have "os_fs t (bk_database_path b) = os_fs s (bk_database_path b)"
    using apart_same [OF assms(1,3) places(1,3,5), of "[]"] by simp
  moreover have "laid_out (temporary_below b) f (saved_storage backup) (os_fs t) (storage_root b)"
    by (rule laid_out_moved [where g = "os_fs s"])
      (use assms(2) apart_same [OF assms(1,3) places(1,2,4)] in \<open>auto simp: restored_def\<close>)
  ultimately show ?thesis using assms(2) by (auto simp: restored_def file_at_def)
qed

lemma wp_steps_content:
  assumes "restorable b plan backup N n (os_fs s)"
  shows "wp (restore_steps b backup plan)
    (\<lambda>r t. r = None \<longrightarrow> restored b backup (os_fs s) (os_fs t)) (\<lambda>_ _. True) s"
  unfolding restore_steps_def
proof (rule wp_bind_spec [OF wp_raising_with [where Q = "\<lambda>r t. r = None \<longrightarrow>
       restore_in b plan N n (os_fs s) StorageSwapped DatabaseKept (os_fs t)
       \<and> laid_out (temporary_below b) (os_fs s) (saved_storage backup) (os_fs t) (storage_root b)
       \<and> (\<exists>c. holds_bytes (os_fs s) (saved_database backup) c \<and> holds_bytes (os_fs t) (rp_database_stage plan) c)"]], goal_cases)
  case 1
  show ?case by (rule wp_mono [OF wp_stage_content [OF assms]]) auto
next
  case (2 r t)
  show ?case
  proof (cases "r = None")
    case False
    then show ?thesis by (auto simp: wp_simps)
  next
    case True
    then obtain c where t: "restore_in b plan N n (os_fs s) StorageSwapped DatabaseKept (os_fs t)"
      "laid_out (temporary_below b) (os_fs s) (saved_storage backup) (os_fs t) (storage_root b)"
      and c: "holds_bytes (os_fs s) (saved_database backup) c" "holds_bytes (os_fs t) (rp_database_stage plan) c"
      using 2 by blast
    have "wp (bind (raising_with (True, False) (restore_database b plan)) (\<lambda>r2.
        if r2 \<noteq> None then ret r2 else raising_with (True, True) (restore_finish b plan)))
      (\<lambda>r t. r = None \<longrightarrow> restored b backup (os_fs s) (os_fs t)) (\<lambda>_ _. True) t"
    proof (rule wp_bind_spec [OF wp_raising_with [where Q = "\<lambda>r t. r = None \<longrightarrow>
          restore_in b plan N n (os_fs s) StorageSwapped DatabaseSwapped (os_fs t)
          \<and> laid_out (temporary_below b) (os_fs s) (saved_storage backup) (os_fs t) (storage_root b)
          \<and> holds_bytes (os_fs t) (bk_database_path b) c"]], goal_cases)
      case 1
      show ?case by (rule wp_mono [OF swapped_database [OF assms t c(2)]]) auto
    next
      case (2 r u)
      show ?case
      proof (cases "r = None")
        case False
        then show ?thesis by (auto simp: wp_simps)
      next
        case True
        then have "wp (restore_finish b plan) (\<lambda>_ t. restored b backup (os_fs s) (os_fs t)) (\<lambda>_ _. True) u"
          using 2 finished_restore [OF assms _ _ c(1)] by blast
        then have "wp (raising_with (True, True) (restore_finish b plan))
            (\<lambda>r t. r = None \<longrightarrow> restored b backup (os_fs s) (os_fs t)) (\<lambda>_ _. True) u"
          by (intro wp_raising_with) (auto elim: wp_mono)
        then show ?thesis using True by simp
      qed
    qed simp
    then show ?thesis using True by simp
  qed
qed simp

lemma wp_restore_with_plan:
  assumes "restorable b plan backup N n (os_fs s)"
  shows "wp (restore_with_plan b backup plan) (\<lambda>_ t. restored b backup (os_fs s) (os_fs t)) (\<lambda>_ _. True) s"
proof -
  let ?A = "{rp_storage_stage plan, rp_database_stage plan, rp_database_rollback plan}"
  have disc: "obeys (confined ?A {}) (discard_stages b plan)"
    unfolding discard_stages_def rmtree_def
    by (intro cf.bind cf_remove_tree cf_unlink_missing) (simp_all add: under_root)
  have tidy: "wp (discard_stages b plan) (\<lambda>_ u. restored b backup (os_fs s) (os_fs u)) (\<lambda>_ _. True) t"
    if "restored b backup (os_fs s) (os_fs t)" for t
    by (rule wp_mono [OF obeysD [OF disc]]) (use kept_restored [OF assms that] in auto)
  have rest: "wp (case r of None \<Rightarrow> ret () | Some (flags, e) \<Rightarrow> bind (undo_restore b plan flags) (\<lambda>_. throw e))
      (\<lambda>_ u. restored b backup (os_fs s) (os_fs u)) (\<lambda>_ _. True) t"
    if "r = None \<longrightarrow> restored b backup (os_fs s) (os_fs t)" for r t
  proof (cases r)
    case (Some x)
    obtain flags e where x: "x = (flags, e)" by (cases x)
    show ?thesis
      unfolding Some x option.case prod.case
      by (rule wp_bind_spec [OF wp_trivial]) (simp_all add: wp_simps)
  qed (use that in \<open>simp add: wp_simps\<close>)
  have "wp (bind (restore_steps b backup plan) (\<lambda>raised. case raised of None \<Rightarrow> ret ()
        | Some (flags, e) \<Rightarrow> bind (undo_restore b plan flags) (\<lambda>_. throw e)))
      (\<lambda>_ t. restored b backup (os_fs s) (os_fs t)) (\<lambda>_ _. True) s"
    by (rule wp_bind_spec [OF wp_steps_content [OF assms] rest]) simp_all
  then show ?thesis
    unfolding restore_with_plan_def wp_finally_do
    by (rule wp_mono) (use tidy in \<open>auto elim: wp_mono\<close>)
qed

end
