(* ===== verification/BackupDemo.thy ===== *)
theory BackupDemo
  imports RestoreContent
begin

text \<open>
  A small installation with one backup, for the witnesses: the storage tree \<open>s\<close>, the database
  \<open>d/b\<close> and the backup root \<open>k\<close>. Whether a map satisfies the hypotheses of the restore is
  decided on the list of its entries.
\<close>

section \<open>Trees given by a list\<close>

lemma tree_ok_entries:
  assumes "list_all (\<lambda>(p, n). p = [] \<or> is_real_dir (map_of xs) (butlast p)) xs"
  shows "tree_ok (map_of xs)"
  unfolding tree_ok_def
proof (intro allI impI)
  fix p c assume "map_of xs (p @ [c]) \<noteq> None"
  then obtain n where "(p @ [c], n) \<in> set xs" by (auto dest: map_of_SomeD)
  then have "is_real_dir (map_of xs) (butlast (p @ [c]))"
    using assms by (fastforce simp: list_all_iff)
  then show "\<exists>m. map_of xs p = Some (Dir m)" by (simp add: is_real_dir_iff)
qed

definition entry_within :: "path \<Rightarrow> str list \<Rightarrow> nat \<Rightarrow> path \<times> node \<Rightarrow> bool" where
  "entry_within r names n e \<longleftrightarrow> \<not> starts_with r (fst e)
     \<or> (list_all (\<lambda>c. c \<in> set names) (drop (length r) (fst e)) \<and> length (fst e) \<le> length r + n
        \<and> (case snd e of Link _ _ \<Rightarrow> False | _ \<Rightarrow> True))"

lemma entries_within:
  assumes "list_all (entry_within r names n) xs"
  shows "sized (set names) n (map_of xs) r" "plain_tree (set names) (map_of xs) r"
proof -
  have e: "set q \<subseteq> set names \<and> length q \<le> n \<and> (case m of Link _ _ \<Rightarrow> False | _ \<Rightarrow> True)"
    if "map_of xs (r @ q) = Some m" for q m
  proof -
    have "entry_within r names n (r @ q, m)"
      using assms map_of_SomeD [OF that] by (auto simp: list_all_iff)
    then show ?thesis by (auto simp: entry_within_def list_all_iff)
  qed
  then show "sized (set names) n (map_of xs) r" by (auto simp: sized_def)
  show "plain_tree (set names) (map_of xs) r"
    using e by (fastforce simp: plain_tree_def is_symlink_def split: option.splits node.splits)
qed

definition listing_of :: "str list \<Rightarrow> listing" where
  "listing_of names f p = filter (\<lambda>c. f (p @ [c]) \<noteq> None) names"

lemma listing_of_ok: "distinct names \<Longrightarrow> listing_ok (listing_of names) (set names)"
  by (auto simp: listing_ok_def listing_of_def children_def)

section \<open>The installation\<close>

definition vault_id :: str where
  "vault_id = backup_prefix @ py ''20240101T000000000000Z-0a1b2c3d''"

definition vault_names :: "str list" where
  "vault_names = [[102], [116], [98], [98] @ wal_suffix, [98] @ shm_suffix, storage_area_name,
     database_directory, database_file_name, manifest_name, manifest_checksum_name]"

definition vault_backup :: path where
  "vault_backup = [[107], vault_id]"

text \<open>With or without a live storage tree and database: \<open>live\<close>.\<close>

definition vault_entries :: "bool \<Rightarrow> (path \<times> node) list" where
  "vault_entries live =
     (if live then [([[115]], Dir 488), ([[115], [116]], Dir 488), ([[115], [102]], File [9] 416 3),
        ([[100], [98]], File [1] 384 5)] else [])
     @ [([], Dir 493), ([[100]], Dir 488), ([[107]], Dir 488), (vault_backup, Dir 488),
      (saved_storage vault_backup, Dir 488), (saved_storage vault_backup @ [[102]], File [7, 7] 384 2),
      (vault_backup @ [database_directory], Dir 488),
      (saved_database vault_backup, File [1, 2, 3] 384 2),
      (vault_backup @ [manifest_name], File [0x7B] 384 2),
      (vault_backup @ [manifest_checksum_name],
        File (map of_nat (checksum_text (replicate 64 49))) 384 2)]"

text \<open>The migrations append a byte.\<close>

definition vault_engine :: sqlite_engine where
  "vault_engine = \<lparr>sq_integrity = (\<lambda>_ _. Some (Some (py ''ok''))), sq_version = (\<lambda>_ _. Some (Some [49])),
     sq_snapshot = (\<lambda>m _. Some m),
     sq_upgrade = (\<lambda>m _. \<lparr>uo_error = None, uo_main = Some (m @ [4]), uo_wal = None, uo_shm = None\<rparr>),
     sq_rows = (\<lambda>_ _. empty_database)\<rparr>"

definition vault_entry :: "str \<Rightarrow> int \<Rightarrow> nat \<Rightarrow> document" where
  "vault_entry p sz digit = DocObject [(py ''relative_path'', DocStr p), (py ''size_bytes'', DocInt sz),
     (py ''sha256'', DocStr (replicate 64 digit))]"

definition vault_manifest :: document where
  "vault_manifest = DocObject [(py ''manifest_version'', DocInt 1), (py ''backup_id'', DocStr vault_id),
     (py ''created_at'', DocStr [65]), (py ''database_revision'', DocStr [49]),
     (py ''entries'', DocList [vault_entry database_entry_path 3 51,
        vault_entry (storage_area_name @ [slash, 102]) 2 50])]"

definition vault_codec :: text_codec where
  "vault_codec = \<lparr>json_dumps = (\<lambda>_. []), json_loads = (\<lambda>_. Some vault_manifest), other_text = (\<lambda>_. []),
     int_of_text = (\<lambda>_. None), int_of_float = (\<lambda>_. Inl ValueError), iso_parse = (\<lambda>_. Some (Some 42)),
     iso_format = (\<lambda>_. [65]), stamp_of = (\<lambda>_. []), other_digit = (\<lambda>_. False)\<rparr>"

definition vault_paths :: storage_paths where
  "vault_paths = storage_paths_of [[115]] [[115], [105]] [[115], [116]] [[115], [113]] [[107]]"

definition vault :: backup_service where
  "vault = \<lparr>bk_paths = vault_paths, bk_database_path = [[100], [98]], bk_retention_count = 2,
     bk_min_free_bytes = 0, bk_storage_min_free_bytes = 0, bk_project_root = [[112]], bk_app_version = [49],
     bk_pid = 1, bk_ls = listing_of vault_names, bk_fuel = 4, bk_wr = (\<lambda>_ n. n),
     bk_sha = (\<lambda>b. replicate 64 (48 + length b)), bk_codec = vault_codec,
     bk_engine = vault_engine, bk_unicode = ascii_only\<rparr>"

text \<open>At most the call number \<open>failing\<close> fails.\<close>

definition vault_world :: "bool \<Rightarrow> nat option \<Rightarrow> world" where
  "vault_world live failing = \<lparr>os_fs = map_of (vault_entries live), os_device = (\<lambda>_. 1),
     os_disk = \<lparr>disk_total = 100, disk_used = 0, disk_free = 100\<rparr>, os_fault = (\<lambda>k. Some k = failing),
     os_tick = 0, os_uuid = (\<lambda>n. [97]), os_uuid_next = 0, os_now = 1000000,
     w_db = empty_database, w_db_fault = (\<lambda>_. False), w_db_tick = 0, w_env = (\<lambda>_ d. d)\<rparr>"

definition vault_plan :: restore_plan where
  "vault_plan = restore_plan_of vault [97]"

lemma vault_world_simps [simp]:
  "os_fs (vault_world live failing) = map_of (vault_entries live)"
  "os_fault (vault_world live failing) k \<longleftrightarrow> Some k = failing"
  by (simp_all add: vault_world_def)

lemma vault_plan_of:
  "vault_plan = restore_plan_of vault (os_uuid (vault_world live failing) (os_uuid_next (vault_world live failing)))"
  by (simp add: vault_plan_def vault_world_def)

lemma vault_ready:
  "restorable vault vault_plan vault_backup (set vault_names) 3 (os_fs (vault_world live failing))"
proof -
  let ?places = "storage_places vault vault_plan @ database_places vault vault_plan"
  have tree: "tree_ok (map_of (vault_entries live))" by (rule tree_ok_entries, induct live) code_simp+
  have within: "list_all (entry_within (saved_storage vault_backup) vault_names 3) (vault_entries live)"
    by (induct live) code_simp+
  have dir: "is_real_dir (map_of (vault_entries live)) (saved_storage vault_backup)"
    by (induct live) code_simp+
  have listing: "listing_ok (listing_of vault_names) (set vault_names)" by (rule listing_of_ok) code_simp
  have same: "storage_root vault = [[115]]" "sp_temporary (bk_paths vault) = [[115], [116]]" "bk_fuel vault = 4"
    "bk_database_path vault = [[100], [98]]" "bk_ls vault = listing_of vault_names"
    by (simp_all add: vault_def vault_paths_def storage_paths_of_def)
  have places: "apart ?places" "list_all (unrelated vault_backup) ?places"
    "list_all (\<lambda>p. last p \<in> set vault_names) (family vault)" "[116] \<in> set vault_names"
    by code_simp+
  have at: "list_all (placed (map_of (vault_entries live))) ?places
      \<and> list_all (\<lambda>p. \<not> is_real_dir (map_of (vault_entries live)) p) (family vault)
      \<and> map_of (vault_entries live) (rp_storage_stage vault_plan) = None
      \<and> map_of (vault_entries live) (rp_storage_rollback vault_plan) = None
      \<and> map_of (vault_entries live) (rp_database_stage vault_plan) = None
      \<and> map_of (vault_entries live) (rp_database_rollback vault_plan) = None
      \<and> (map_of (vault_entries live) [[115]] = None \<or> is_real_dir (map_of (vault_entries live)) [[115]])"
    by (induct live) code_simp+
  show ?thesis
    using tree entries_within [OF within] dir listing places at
    unfolding restorable_def same removable_def vault_world_simps
    by (auto simp: list_all_iff starts_with_iff)
qed

lemma vault_log: "leaves_no_log (bk_engine vault)"
  by (simp add: leaves_no_log_def vault_def vault_engine_def)

end
