(* ===== verification/VerifySpecs.thy ===== *)
theory VerifySpecs
  imports RestoreContent
begin

text \<open>What the verification of a backup has established when it returns; it only looks.\<close>

lemma lo_regular_file: "obeys looked (regular_file p)"
  unfolding regular_file_def by (intro lo.bind lo.os_error_as lo.branches obeys_looking lo.basic)

lemma lo_sha256_file: "obeys looked (sha256_file sha p)"
  unfolding sha256_file_def by (intro lo.bind obeys_looking lo.basic)

lemma lo_verify_entry: "obeys looked (verify_entry sha d e acc)"
  unfolding verify_entry_def by (intro lo.bind lo.basic lo_regular_file lo_sha256_file lo.branches)

lemma lo_walk_each:
  assumes "\<And>current ds fs acc. obeys looked (body current ds fs acc)"
  shows "obeys looked (walk_each ls n body current acc)"
proof (induction n arbitrary: current acc)
  case (Suc n)
  have "obeys looked (list_directory ls current)"
    unfolding list_directory_def by (intro lo.bind lo.try_catch lo.branches obeys_looking lo.basic)
  then show ?case unfolding walk_each.simps by (intro lo.bind lo.branches lo.fold_eff assms Suc lo.basic)
qed simp

lemma lo_collect_files: "obeys looked (collect_files d current ds fs acc)"
  unfolding collect_files_def by (intro lo.bind lo.fold_eff lo.discard lo_regular_file lo.basic)

lemma lo_read_manifest: "obeys looked (read_manifest b d)"
  unfolding read_manifest_def Let_def
  by (intro lo.bind lo.branches lo.discard lo_regular_file lo_sha256_file obeys_looking lo.basic)
    (auto split: list.splits intro!: lo.bind lo_sha256_file obeys_looking)

lemma lo_sqlite_query: "obeys looked (sqlite_query q p)"
  unfolding sqlite_query_def
  by (intro lo.bind lo.discard lo_regular_file lo.os_error_as obeys_looking lo.basic lo.branches)

lemma lo_verify_directory: "obeys looked (verify_directory b d i)"
  unfolding verify_directory_def sqlite_integrity_check_def sqlite_schema_revision_def Let_def
  by (intro lo.bind lo.basic lo_read_manifest lo.fold_eff lo_verify_entry lo_walk_each lo_collect_files
      lo_sqlite_query lo.branches)

section \<open>Entries\<close>

text \<open>The file of an entry is there with the recorded size and digest.\<close>

definition entry_intact :: "(bytes \<Rightarrow> str) \<Rightarrow> fs \<Rightarrow> path \<Rightarrow> backup_entry \<Rightarrow> bool" where
  "entry_intact sha f d e \<longleftrightarrow> (\<exists>relative c. safe_relative_path (be_relative_path e) = Inr relative
     \<and> file_at f (d @ relative) = Some c \<and> int (length c) = be_size_bytes e \<and> sha c = be_sha256 e)"

lemma wp_verify_entry:
  "wp (verify_entry sha d e acc) (\<lambda>_ t. entry_intact sha (os_fs s) d e \<and> looked s t) (\<lambda>_ _. True) s"
proof -
  have "wp (verify_entry sha d e acc) (\<lambda>_ _. entry_intact sha (os_fs s) d e) (\<lambda>_ _. True) s"
    unfolding verify_entry_def
  proof (rule wp_bind_lift, rule wp_bind_spec [OF lo.with_result [OF lo_regular_file wp_regular_file]], goal_cases)
    case (1 relative n t)
    then have t: "os_fs t = os_fs s" by simp
    show ?case
    proof (rule wp_bind_raise_if, simp, rule wp_bind_spec [OF wp_sha256_file], goal_cases)
      case (1 r u)
      obtain digest sz where r: "r = (digest, sz)" by (cases r)
      show ?case
        unfolding r prod.case
        by (rule wp_bind_raise_if)
          (use 1 t \<open>safe_relative_path _ = Inr relative\<close> in
            \<open>auto simp: r wp_simps entry_intact_def files_def looked_eqs\<close>)
    qed simp
  qed simp_all
  then show ?thesis by (rule wp_mono [OF lo.with_result [OF lo_verify_entry]]) auto
qed

lemma wp_verify_entries:
  "wp (fold_eff (verify_entry sha d) es acc)
     (\<lambda>_ t. (\<forall>e \<in> set es. entry_intact sha (os_fs s) d e) \<and> looked s t) (\<lambda>_ _. True) s"
proof (induction es arbitrary: acc s)
  case Nil
  then show ?case by (simp add: wp_simps)
next
  case (Cons e es)
  show ?case
    unfolding fold_eff.simps
  proof (rule wp_bind_spec [OF wp_verify_entry], goal_cases)
    case (1 x t)
    then show ?case
      by (intro wp_mono [OF Cons.IH]) (auto simp: looked_eqs intro: looked_trans)
  qed simp
qed

lemma wp_read_manifest:
  "wp (read_manifest b d)
     (\<lambda>m t. (\<exists>text payload. file_at (os_fs s) (d @ [manifest_checksum_name]) = Some text
        \<and> file_at (os_fs s) (d @ [manifest_name]) = Some payload
        \<and> split_words (map unat text) = [bk_sha b payload, manifest_name]
        \<and> parse_manifest (bk_codec b) payload = Inr m) \<and> looked s t) (\<lambda>_ _. True) s"
proof -
  let ?mp = "d @ [manifest_name]" and ?cp = "d @ [manifest_checksum_name]"
  let ?Q = "\<lambda>m _. \<exists>text payload. file_at (os_fs s) ?cp = Some text \<and> file_at (os_fs s) ?mp = Some payload
        \<and> split_words (map unat text) = [bk_sha b payload, manifest_name]
        \<and> parse_manifest (bk_codec b) payload = Inr m"
  note rf = lo.with_result [OF lo_regular_file wp_regular_file]
  have rest: "wp (bind (raise_if (name \<noteq> manifest_name) ValidationError) (\<lambda>_.
            bind (sha256_file (bk_sha b) ?mp) (\<lambda>(actual_digest, _).
            bind (raise_if (expected_digest \<noteq> actual_digest) ValidationError) (\<lambda>_.
            bind (sys_read ?mp) (\<lambda>payload.
            lift_result (parse_manifest (bk_codec b) payload)))))) ?Q (\<lambda>_ _. True) u"
    if "os_fs u = os_fs s" "file_at (os_fs s) ?cp = Some raw" "split_words (map unat raw) = [expected_digest, name]"
    for u raw expected_digest name
  proof (rule wp_bind_raise_if, simp, rule wp_bind_spec [OF wp_sha256_file], goal_cases)
    case (1 r v)
    then obtain payload where v: "looked u v" "files u ?mp = Some payload" "r = (bk_sha b payload, int (length payload))"
      by blast
    show ?case
      unfolding v(3) prod.case
      by (rule wp_bind_raise_if, simp, rule wp_bind_spec [OF wp_sys_read])
        (use v that \<open>\<not> name \<noteq> manifest_name\<close> in
          \<open>auto simp: wp_simps files_def looked_eqs split: sum.splits\<close>)
  qed simp
  have "wp (read_manifest b d) ?Q (\<lambda>_ _. True) s"
    unfolding read_manifest_def Let_def
  proof (rule wp_bind_spec [OF rf], rule wp_bind_raise_if, simp, unfold discard_def bind_assoc bind_ret,
      rule wp_bind_spec [OF rf], rule wp_bind_spec [OF wp_sys_read], rule wp_bind_lift, goal_cases)
    case (1 n t n' u raw v line)
    then have v: "os_fs v = os_fs s" "file_at (os_fs s) ?cp = Some raw" and line: "line = map unat raw"
      by (auto simp: looked_eqs files_def decode_ascii_def split: if_splits)
    show ?case
    proof (cases "split_words line")
      case Nil
      then show ?thesis by (simp add: wp_simps)
    next
      case (Cons w ws)
      then show ?thesis
        using rest [OF v, of w "hd ws"] line by (cases ws; cases "tl ws") (simp_all add: wp_simps)
    qed
  qed simp_all
  then show ?thesis by (rule wp_mono [OF lo.with_result [OF lo_read_manifest]]) auto
qed

text \<open>All that a returned verification has checked of the manifest and its entries.\<close>

definition backup_intact :: "backup_service \<Rightarrow> fs \<Rightarrow> path \<Rightarrow> str \<Rightarrow> backup_manifest \<Rightarrow> bool" where
  "backup_intact b f d i m \<longleftrightarrow> bm_backup_id m = i
     \<and> (\<exists>text payload. file_at f (d @ [manifest_checksum_name]) = Some text
          \<and> file_at f (d @ [manifest_name]) = Some payload
          \<and> split_words (map unat text) = [bk_sha b payload, manifest_name]
          \<and> parse_manifest (bk_codec b) payload = Inr m)
     \<and> (\<forall>e \<in> set (bm_entries m). entry_intact (bk_sha b) f d e)"

lemma wp_verify_directory:
  "wp (verify_directory b d i)
     (\<lambda>r t. (\<exists>m. r = report_of m \<and> backup_intact b (os_fs s) d i m) \<and> looked s t) (\<lambda>_ _. True) s"
proof -
  have "wp (verify_directory b d i) (\<lambda>r _. \<exists>m. r = report_of m \<and> backup_intact b (os_fs s) d i m) (\<lambda>_ _. True) s"
    unfolding verify_directory_def Let_def
  proof (rule wp_bind_lift, rule wp_bind_gets, rule wp_bind_raise_if, simp,
      rule wp_bind_spec [OF wp_read_manifest], rule wp_bind_raise_if, simp,
      rule wp_bind_spec [OF wp_verify_entries], goal_cases)
    case (1 x m t y u)
    then have "backup_intact b (os_fs s) d i m" by (auto simp: backup_intact_def looked_eqs)
    then have all: "wp k (\<lambda>r _. r = report_of m) (\<lambda>_ _. True) v \<Longrightarrow>
       wp k (\<lambda>r _. \<exists>m. r = report_of m \<and> backup_intact b (os_fs s) d i m) (\<lambda>_ _. True) v" for k v
      by (auto elim: wp_mono)
    show ?case
      by (rule all, rule wp_bind_spec [OF wp_trivial], rule wp_bind_raise_if, simp,
          rule wp_bind_spec [OF wp_trivial], rule wp_bind_spec [OF wp_trivial], rule wp_bind_raise_if)
        (simp_all add: wp_simps)
  qed simp_all
  then show ?thesis by (rule wp_mono [OF lo.with_result [OF lo_verify_directory]]) auto
qed

end
