(* ===== verification/BackupProperties.thy ===== *)
theory BackupProperties
  imports BackupDemo VerifySpecs
begin

text \<open>What holds of restoring a backup.\<close>

section \<open>Restoring\<close>

lemma looked_backup_directory: "obeys looked (backup_directory b i)"
  unfolding backup_directory_def by (intro lo.bind lo.basic obeys_looking)

lemma backup_found:
  assumes "case backup_directory b i s of (r, t) \<Rightarrow> r = Inr p \<and> os_tick t = k"
  shows "backup_directory b i s = (Inr p, s\<lparr>os_tick := k\<rparr>)"
proof -
  obtain r t where run: "backup_directory b i s = (r, t)" by (cases "backup_directory b i s")
  then have "r = Inr p" "os_tick t = k" using assms by auto
  then show ?thesis using run obeys_run [OF looked_backup_directory run] by (simp add: looked_def)
qed

lemma everywhere: "under UNIV p"
  by (auto simp: under_def intro: exI [of _ p])


lemma cf_restore_parts:
  "obeys (confined UNIV {}) (restore_stage b backup plan)"
  "obeys (confined UNIV {}) (restore_database b plan)"
proof -
  have way: "on_way UNIV {} p" for p by (simp add: on_way_def everywhere)
  have aside: "obeys (confined UNIV {}) (move_database_aside b r)" for r
    unfolding move_database_aside_def Let_def
    by (intro cf.bind cf.for_each cf.branches cf_path_mkdir way cf_rename cf.basic everywhere)
  show "obeys (confined UNIV {}) (restore_stage b backup plan)"
    unfolding restore_stage_def
    by (intro cf.bind cf.branches cf.discard cf_copytree cf_path_mkdir way cf_copy_regular_file cf_integrity
        cf_rename cf.basic everywhere)
  show "obeys (confined UNIV {}) (restore_database b plan)"
    unfolding restore_database_def by (intro cf.bind aside cf_rename everywhere)
qed



lemma frame_rows: "fs_frame s (t :: world) \<Longrightarrow> w_db t = w_db s"
  unfolding fs_frame_def by (cases s; cases t; simp)

text \<open>The plan of a restore from the state in which it starts.\<close>

lemma restore_run:
  assumes "backup_directory b i s = (Inr backup, s1)"
  shows "restore_verified_backup b i s = restore_with_plan b backup
      (restore_plan_of b (os_uuid s (os_uuid_next s))) (snd (fresh_uuid_hex s1))"
    and "os_fs (snd (fresh_uuid_hex s1)) = os_fs s" "files (snd (fresh_uuid_hex s1)) = files s"
    "w_db (snd (fresh_uuid_hex s1)) = w_db s"
proof -
  have l: "looked s s1" using obeys_run [OF looked_backup_directory assms] .
  then show "restore_verified_backup b i s = restore_with_plan b backup
      (restore_plan_of b (os_uuid s (os_uuid_next s))) (snd (fresh_uuid_hex s1))"
    by (simp add: restore_verified_backup_def eff_simps assms fresh_uuid_hex_def looked_eqs)
  show "os_fs (snd (fresh_uuid_hex s1)) = os_fs s" "files (snd (fresh_uuid_hex s1)) = files s"
    "w_db (snd (fresh_uuid_hex s1)) = w_db s"
    using looked_eqs [OF l] frame_rows [of s s1] by (simp_all add: fresh_uuid_hex_def files_def)
qed



text \<open>While nothing fails and the migrations succeed, the last part of a restore returns.\<close>

lemma calm_finish:
  assumes "restorable b plan backup N n f" and "leaves_no_log (bk_engine b)"
    and "restore_in b plan N n f StorageSwapped DatabaseSwapped (os_fs s)" and "calm s"
    and "holds_bytes (os_fs s) (bk_database_path b) c"
    and "sq_upgrade (bk_engine b) c None = \<lparr>uo_error = None, uo_main = Some c', uo_wal = None, uo_shm = None\<rparr>"
    and "sq_integrity (bk_engine b) c' None = Some (Some (py ''ok''))"
  shows "wp (restore_finish b plan) (\<lambda>_ t. os_fs t (rp_database_stage plan) = None \<and> calm t) (\<lambda>_ _. False) s"
proof -
  let ?main = "bk_database_path b" and ?wal = "with_suffix (bk_database_path b) wal_suffix"
  let ?shm = "with_suffix (bk_database_path b) shm_suffix" and ?ds = "rp_database_stage plan"
  let ?A = "set (family b)" and ?B = "{rp_storage_rollback plan, rp_database_rollback plan}"
  note main = main_in_family [OF assms(1)]
  have ne: "?main \<noteq> []" using assms(1) by (simp add: restorable_def)
  then have "with_suffix ?main [] = ?main" by (simp add: with_suffix_def)
  then have d: "?main \<noteq> ?wal" "?main \<noteq> ?shm" "?wal \<noteq> ?shm" and fam: "?wal \<in> ?A" "?shm \<in> ?A"
    using ready_distinct [OF assms(1)] by (auto simp: database_places_def family_def)
  have gone: "os_fs s ?wal = None" "os_fs s ?shm = None" "os_fs s ?ds = None"
    using assms(3) fam d by (auto simp: restore_in_def)
  have places: "?A \<subseteq> places b plan" "?B \<subseteq> places b plan" "?ds \<in> places b plan" "?ds \<notin> ?A" "?ds \<notin> ?B"
    using ready_distinct [OF assms(1)] by (auto simp: storage_places_def database_places_def)
  have at: "files s ?main = Some c" "files s ?wal = None"
    using assms(5) gone by (auto simp: holds_bytes_def files_def file_at_def)
  have up: "wp (upgrade_database b) (\<lambda>_ t. (\<exists>m k. os_fs t ?main = Some (File c' m k)) \<and> os_fs t ?wal = None) (\<lambda>_ _. False) s"
    using assms(4,6) at d gone
    by (auto simp: upgrade_database_def Let_def wp_simps calm_def put_file_def)
  have tidy: "obeys (confined ?B {}) (bind (rmtree (bk_ls b) (bk_fuel b) True (rp_storage_rollback plan))
      (\<lambda>_. rmtree (bk_ls b) (bk_fuel b) True (rp_database_rollback plan)) :: unit svc)"
    unfolding rmtree_def by (intro cf.bind cf_remove_tree) (simp_all add: under_root)
  have quiet: "never_raises (bind (rmtree (bk_ls b) (bk_fuel b) True (rp_storage_rollback plan))
      (\<lambda>_. rmtree (bk_ls b) (bk_fuel b) True (rp_database_rollback plan)) :: unit svc)"
    unfolding rmtree_def by (intro never_raises_bind remove_tree_never_raises)
  show ?thesis
    unfolding restore_finish_def
  proof (rule wp_bind_spec [OF cf.with_result [OF cf_upgrade [OF ne order_refl, of "{}"] up]], goal_cases)
    case (1 x t)
    then obtain m k where t: "os_fs t ?main = Some (File c' m k)" "os_fs t ?wal = None" and cf: "confined ?A {} s t"
      by blast
    have ct: "calm t" using calm_confined [OF cf assms(4)] .
    have ds: "os_fs t ?ds = None" using apart_same [OF assms(1) cf places(1,3,4), of "[]"] gone by simp
    have "wp (sqlite_integrity_check (bk_engine b) ?main) (\<lambda>_ u. os_fs u = os_fs t) (\<lambda>_ _. False) t"
      using t ct assms(7)
      by (simp add: sqlite_integrity_check_def sqlite_query_def regular_file_def sys_lstat_def wp_simps
          calm_def files_def file_at_def)
    from cf.with_result [OF cf_integrity [of "{}" "{}"] this] show ?case
    proof (rule wp_bind_spec, goal_cases)
      case (1 y u)
      then have cu: "calm u" "os_fs u ?ds = None" using calm_confined [OF _ ct] ds by auto
      have end': "wp (bind (rmtree (bk_ls b) (bk_fuel b) True (rp_storage_rollback plan))
          (\<lambda>_. rmtree (bk_ls b) (bk_fuel b) True (rp_database_rollback plan))) (\<lambda>_ _. True) (\<lambda>_ _. False) u"
        using quiet unfolding never_raises_def by blast
      show ?case
      proof (rule wp_mono [OF cf.with_result [OF tidy end']], goal_cases)
        case (1 z v)
        then show ?case
          using apart_same [OF assms(1) _ places(2,3,5), of u v "[]"] cu calm_confined by auto
      qed simp
    qed simp
  qed simp
qed

lemma calm_restore_returns:
  assumes "restorable b plan backup N n (os_fs s)" and "leaves_no_log (bk_engine b)" and "calm s"
    and "bind (restore_stage b backup plan) (\<lambda>_. restore_database b plan) s = (Inr (), t)"
    and "file_at (os_fs s) (saved_database backup) = Some c"
    and "sq_upgrade (bk_engine b) c None = \<lparr>uo_error = None, uo_main = Some c', uo_wal = None, uo_shm = None\<rparr>"
    and "sq_integrity (bk_engine b) c' None = Some (Some (py ''ok''))"
  shows "fst (restore_with_plan b backup plan s) = Inr ()"
proof -
  obtain s1 where s1: "restore_stage b backup plan s = (Inr (), s1)" "restore_database b plan s1 = (Inr (), t)"
    using assms(4) by (auto simp: eff_simps split: prod.splits sum.splits)
  obtain c0 where at1: "restore_in b plan N n (os_fs s) StorageSwapped DatabaseKept (os_fs s1)"
    "laid_out (temporary_below b) (os_fs s) (saved_storage backup) (os_fs s1) (storage_root b)"
    and c0: "holds_bytes (os_fs s) (saved_database backup) c0" "holds_bytes (os_fs s1) (rp_database_stage plan) c0"
    using wp_run_Inr [OF wp_stage_content [OF assms(1)] s1(1)] by blast
  have "c0 = c" using c0(1) assms(5) by (auto simp: holds_bytes_def file_at_def)
  with wp_run_Inr [OF swapped_database [OF assms(1) at1 c0(2)] s1(2)]
  have at: "restore_in b plan N n (os_fs s) StorageSwapped DatabaseSwapped (os_fs t)"
    "holds_bytes (os_fs t) (bk_database_path b) c" by auto
  have ne: "bk_database_path b \<noteq> []" using assms(1) by (simp add: restorable_def)
  have "calm s1" using obeys_run [OF cf_restore_parts(1) s1(1)] calm_confined assms(3) by blast
  then have ct: "calm t" using obeys_run [OF cf_restore_parts(2) s1(2)] calm_confined by blast
  have fin: "wp (restore_finish b plan) (\<lambda>_ u. os_fs u (rp_database_stage plan) = None \<and> calm u) (\<lambda>_ _. False) t"
    by (rule calm_finish [OF assms(1,2) at(1) ct at(2) assms(6,7)])
  have unlinked: "wp (discard_stages b plan) (\<lambda>_ _. True) (\<lambda>_ _. False) u"
    if "os_fs u (rp_database_stage plan) = None" "calm u" for u
  proof -
    have places: "{rp_storage_stage plan} \<subseteq> places b plan" "rp_database_stage plan \<in> places b plan"
      "rp_database_stage plan \<notin> {rp_storage_stage plan}"
      using ready_distinct [OF assms(1)] by (auto simp: storage_places_def database_places_def)
    have rm: "wp (rmtree (bk_ls b) (bk_fuel b) True p) (\<lambda>_ _. True) (\<lambda>_ _. False) v" for p and v :: world
      using remove_tree_never_raises unfolding rmtree_def never_raises_def by blast
    have "obeys (confined {rp_storage_stage plan} {}) (rmtree (bk_ls b) (bk_fuel b) True (rp_storage_stage plan))"
      unfolding rmtree_def by (intro cf_remove_tree) (simp add: under_root)
    note first = cf.with_result [OF this rm]
    have second: "wp (unlink_missing_ok (rp_database_stage plan)) (\<lambda>_ _. True) (\<lambda>_ _. False) v"
      if "os_fs v (rp_database_stage plan) = None" "calm v" for v :: world
      using that by (simp add: unlink_missing_ok_def sys_unlink_def wp_simps calm_def)
    show ?thesis
      unfolding discard_stages_def
    proof (rule wp_bind_spec [OF first], goal_cases)
      case (1 x v)
      then have "os_fs v (rp_database_stage plan) = None" "calm v"
        using apart_same [OF assms(1) _ places, of u v "[]"] that calm_confined by auto
      from second [OF this] show ?case by (rule wp_bind_spec) (simp_all add: rm)
    qed simp
  qed
  obtain u where u: "restore_finish b plan t = (Inr (), u)" "os_fs u (rp_database_stage plan) = None" "calm u"
    using fin by (cases "restore_finish b plan t") (auto simp: wp_def split: sum.splits)
  obtain v where v: "discard_stages b plan u = (Inr (), v)"
    using unlinked [OF u(2,3)] by (cases "discard_stages b plan u") (auto simp: wp_def split: sum.splits)
  have "restore_steps b backup plan s = (Inr None, u)"
    by (simp add: restore_steps_def raising_with_def eff_simps s1 u(1))
  then show ?thesis by (simp add: restore_with_plan_def eff_simps v)
qed

text \<open>
  C8: What a restore that returns has put in place, whatever failed on the way without
  stopping it: below the storage root exactly the files of the backup with their bytes, and as
  the database what the migrations, which succeeded, make of the saved one without any
  write-ahead log.
\<close>

theorem restore_returns_backup:
  assumes "backup_directory b backup_id s = (Inr backup, s1)"
    and "plan = restore_plan_of b (os_uuid s (os_uuid_next s))"
    and "restorable b plan backup N n (os_fs s)"
    and "restore_verified_backup b backup_id s = (Inr (), u)"
  shows "(\<forall>q. files u (storage_root b @ q) = files s (backup @ [storage_area_name] @ q))
    \<and> (\<exists>c. files s (backup @ [database_directory, database_file_name]) = Some c
       \<and> uo_error (sq_upgrade (bk_engine b) c None) = None
       \<and> files u (bk_database_path b) = uo_main (sq_upgrade (bk_engine b) c None))"
proof -
  note run = restore_run [OF assms(1)]
  let ?s = "snd (fresh_uuid_hex s1)"
  have ready: "restorable b plan backup N n (os_fs ?s)" using assms(3) run(2) by simp
  have "restored b backup (os_fs s) (os_fs u)"
    using wp_run_Inr [OF wp_restore_with_plan [OF ready]] assms(2,4) run by simp
  then have lay: "laid_out (temporary_below b) (os_fs s) (saved_storage backup) (os_fs u) (storage_root b)"
    and db: "\<exists>c. holds_bytes (os_fs s) (saved_database backup) c \<and> uo_error (sq_upgrade (bk_engine b) c None) = None
       \<and> file_at (os_fs u) (bk_database_path b) = uo_main (sq_upgrade (bk_engine b) c None)"
    by (auto simp: restored_def)
  have "files u (storage_root b @ q) = files s (backup @ [storage_area_name] @ q)" for q
    using laid_out_files [OF lay] by (simp add: files_def)
  moreover have "file_at (os_fs s) p = Some c" if "holds_bytes (os_fs s) p c" for p c
    using that by (auto simp: holds_bytes_def file_at_def)
  ultimately show ?thesis using db by (auto simp: files_def)
qed

text \<open>On a server without storage tree and database the saved ones are put in place.\<close>

lemma vault_facts:
  "storage_root vault = [[115]]" "bk_database_path vault = [[100], [98]]"
  "sq_upgrade (bk_engine vault) c None = \<lparr>uo_error = None, uo_main = Some (c @ [4]), uo_wal = None, uo_shm = None\<rparr>"
  "sq_integrity (bk_engine vault) c None = Some (Some (py ''ok''))" "bk_sha vault c = replicate 64 (48 + length c)"
  by (simp_all add: vault_def vault_paths_def storage_paths_of_def vault_engine_def)

lemma vault_files:
  "file_at (map_of (vault_entries False)) (vault_backup @ [storage_area_name] @ [[102]]) = Some [7, 7]"
  "file_at (map_of (vault_entries False)) (vault_backup @ [database_directory, database_file_name]) = Some [1, 2, 3]"
  by code_simp+

lemma vault_restore_returns:
  assumes "backup_directory vault vault_id s = (Inr vault_backup, s\<lparr>os_tick := k\<rparr>)" and "calm s"
    and "os_tick s \<le> k" and "os_uuid_next s = 0" and "os_uuid s = (\<lambda>_. [97])" and "os_fs s = map_of (vault_entries False)"
    and "case bind (restore_stage vault vault_backup vault_plan) (\<lambda>_. restore_database vault vault_plan)
      (s\<lparr>os_tick := k, os_uuid_next := 1\<rparr>) of (r, t) \<Rightarrow> r = Inr ()"
  shows "\<exists>u. restore_verified_backup vault vault_id s = (Inr (), u)"
proof -
  let ?t = "s\<lparr>os_tick := k, os_uuid_next := 1\<rparr>"
  have start: "snd (fresh_uuid_hex (s\<lparr>os_tick := k\<rparr>)) = ?t" using assms(4) by (simp add: fresh_uuid_hex_def)
  obtain t where parts: "bind (restore_stage vault vault_backup vault_plan)
      (\<lambda>_. restore_database vault vault_plan) ?t = (Inr (), t)" using assms(7) by auto
  have calm: "calm ?t" using assms(2,3) by (simp add: calm_def)
  have ready: "restorable vault vault_plan vault_backup (set vault_names) 3 (os_fs ?t)"
    using vault_ready [of False None] assms(6) by simp
  have saved: "file_at (os_fs ?t) (saved_database vault_backup) = Some [1, 2, 3]"
    using vault_files(2) assms(6) by simp
  have "fst (restore_with_plan vault vault_backup vault_plan ?t) = Inr ()"
    by (rule calm_restore_returns [OF ready vault_log calm parts saved vault_facts(3,4)])
  then have "fst (restore_verified_backup vault vault_id s) = Inr ()"
    using restore_run(1) [OF assms(1)] start assms(4,5) by (simp add: vault_plan_def)
  then show ?thesis by (cases "restore_verified_backup vault vault_id s") auto
qed

lemma restore_returns_backup_witness:
  "\<exists>u. restore_verified_backup vault vault_id (vault_world False None) = (Inr (), u)
     \<and> files u [[115], [102]] = Some [7, 7] \<and> files u [[100], [98]] = Some [1, 2, 3, 4]"
proof -
  let ?w = "vault_world False None"
  have found: "backup_directory vault vault_id ?w = (Inr vault_backup, ?w\<lparr>os_tick := 2\<rparr>)"
    by (rule backup_found) code_simp
  have parts: "case bind (restore_stage vault vault_backup vault_plan) (\<lambda>_. restore_database vault vault_plan)
      (?w\<lparr>os_tick := 2, os_uuid_next := 1\<rparr>) of (r, t) \<Rightarrow> r = Inr ()" by code_simp
  have "\<exists>u. restore_verified_backup vault vault_id ?w = (Inr (), u)"
    by (rule vault_restore_returns [OF found _ _ _ _ _ parts]) (simp_all add: calm_def vault_world_def)
  then obtain u where run: "restore_verified_backup vault vault_id ?w = (Inr (), u)" by blast
  note got = restore_returns_backup [OF found vault_plan_of vault_ready run]
  have "files u [[115], [102]] = Some [7, 7]" "files u [[100], [98]] = Some [1, 2, 3, 4]"
    using conjunct1 [OF got, rule_format, of "[[102]]"] conjunct2 [OF got] vault_files
    by (auto simp: vault_facts files_def)
  then show ?thesis using run by blast
qed

section \<open>Verification and restore together\<close>

lemma backup_directory_same:
  assumes "backup_directory b i s = (Inr d, t)" and "os_fs s' = os_fs s" and "backup_directory b i s' = (Inr d', t')"
  shows "d' = d"
proof -
  have "wp (backup_directory b i) (\<lambda>d _. \<exists>selected root. safe_backup_id (bk_codec b) i = Inr selected
      \<and> resolve True (os_fs s) (backup_root b) = Some root \<and> resolve True (os_fs s) (root @ [selected]) = Some d) (\<lambda>_ _. True) s"
    if "os_fs s = f" for s :: world and f
    unfolding backup_directory_def
  proof (rule wp_bind_lift, rule wp_bind_spec [OF wp_sys_resolve], rule wp_bind_gets, rule wp_bind_raise_if, simp,
      rule wp_bind_spec [OF wp_sys_resolve], rule wp_bind_raise_if, goal_cases)
    case (2 selected root t d u)
    then show ?case by (auto simp: wp_simps looked_eqs)
  qed simp_all
  note found = this
  from wp_run_Inr [OF found [OF refl] assms(1)] wp_run_Inr [OF found [OF assms(2)] assms(3)] show ?thesis
    by (auto simp: assms(2))
qed

text \<open>
  C9: The files a restore puts in place are those of the manifest. When a backup has passed
  its verification and is then restored, every entry of the manifest below \<open>storage/\<close> is a
  file below the storage root with the recorded size and SHA-256, and the migrations were
  applied to a database with the recorded size and SHA-256, whatever failed in between
  without stopping the two operations.
\<close>

theorem restored_files_match_manifest:
  assumes "verify_backup b backup_id s = (Inr report, s0)"
    and "backup_directory b backup_id s0 = (Inr backup, s1)"
    and "plan = restore_plan_of b (os_uuid s0 (os_uuid_next s0))"
    and "restorable b plan backup N n (os_fs s0)"
    and "restore_verified_backup b backup_id s0 = (Inr (), u)"
  shows "\<exists>m. report = report_of m \<and> bm_backup_id m = backup_id
    \<and> (\<forall>e \<in> set (bm_entries m). \<forall>relative.
         safe_relative_path (be_relative_path e) = Inr (storage_area_name # relative) \<longrightarrow>
         (\<exists>c. files u (storage_root b @ relative) = Some c \<and> int (length c) = be_size_bytes e
            \<and> bk_sha b c = be_sha256 e))
    \<and> (\<forall>e \<in> set (bm_entries m).
         safe_relative_path (be_relative_path e) = Inr [database_directory, database_file_name] \<longrightarrow>
         (\<exists>c. files u (bk_database_path b) = uo_main (sq_upgrade (bk_engine b) c None)
            \<and> int (length c) = be_size_bytes e \<and> bk_sha b c = be_sha256 e))"
proof -
  obtain d t where d: "backup_directory b backup_id s = (Inr d, t)" "verify_directory b d backup_id t = (Inr report, s0)"
    using assms(1) by (auto simp: verify_backup_def eff_simps split: prod.splits sum.splits)
  have t: "os_fs t = os_fs s" using obeys_run [OF looked_backup_directory d(1)] by (simp add: looked_eqs)
  obtain m where m: "report = report_of m" "backup_intact b (os_fs t) d backup_id m" and "looked t s0"
    using wp_run_Inr [OF wp_verify_directory d(2)] by blast
  then have s0: "os_fs s0 = os_fs s" using t by (simp add: looked_eqs)
  have "backup = d" by (rule backup_directory_same [OF d(1) s0 assms(2)])
  then have whole: "entry_intact (bk_sha b) (os_fs s0) backup e" if "e \<in> set (bm_entries m)" for e
    using m(2) that s0 t by (simp add: backup_intact_def)
  note run = restore_run [OF assms(2)]
  have "restorable b plan backup N n (os_fs (snd (fresh_uuid_hex s1)))" using assms(4) run(2) by simp
  from wp_run_Inr [OF wp_restore_with_plan [OF this]] have "restored b backup (os_fs s0) (os_fs u)"
    using assms(3,5) run by simp
  then have lay: "laid_out (temporary_below b) (os_fs s0) (saved_storage backup) (os_fs u) (storage_root b)"
    and db: "\<exists>c. holds_bytes (os_fs s0) (saved_database backup) c
       \<and> file_at (os_fs u) (bk_database_path b) = uo_main (sq_upgrade (bk_engine b) c None)"
    by (auto simp: restored_def)
  have "\<exists>c. files u (storage_root b @ relative) = Some c \<and> int (length c) = be_size_bytes e \<and> bk_sha b c = be_sha256 e"
    if "e \<in> set (bm_entries m)" "safe_relative_path (be_relative_path e) = Inr (storage_area_name # relative)" for e relative
    using whole [OF that(1)] that(2) laid_out_files [OF lay, of relative] by (auto simp: entry_intact_def files_def)
  moreover have "\<exists>c. files u (bk_database_path b) = uo_main (sq_upgrade (bk_engine b) c None)
      \<and> int (length c) = be_size_bytes e \<and> bk_sha b c = be_sha256 e"
    if "e \<in> set (bm_entries m)" "safe_relative_path (be_relative_path e) = Inr [database_directory, database_file_name]" for e
    using whole [OF that(1)] that(2) db by (auto simp: entry_intact_def files_def holds_bytes_def file_at_def)
  ultimately show ?thesis using m by (auto simp: backup_intact_def)
qed

lemma restored_files_match_manifest_witness:
  "\<exists>s0 report u. verify_backup vault vault_id (vault_world False None) = (Inr report, s0)
     \<and> vr_backup_id report = vault_id \<and> restore_verified_backup vault vault_id s0 = (Inr (), u)"
proof -
  let ?w = "vault_world False None"
  let ?s = "?w\<lparr>os_tick := 22\<rparr>"
  have e: "case verify_backup vault vault_id ?w of (r, t) \<Rightarrow>
      (case r of Inl _ \<Rightarrow> False | Inr _ \<Rightarrow> os_tick t = 22)" by code_simp
  obtain r t where rt: "verify_backup vault vault_id ?w = (r, t)" by (cases "verify_backup vault vault_id ?w")
  then obtain report where "r = Inr report" using e by (cases r) auto
  with rt e have ok: "verify_backup vault vault_id ?w = (Inr report, t)" "os_tick t = 22" by simp_all
  have "obeys looked (verify_backup vault vault_id)"
    unfolding verify_backup_def by (intro lo.bind looked_backup_directory lo_verify_directory)
  from obeys_run [OF this ok(1)] ok have verified: "verify_backup vault vault_id ?w = (Inr report, ?s)"
    by (simp add: looked_def)
  have found: "backup_directory vault vault_id ?s = (Inr vault_backup, ?s\<lparr>os_tick := 24\<rparr>)"
    by (rule backup_found) code_simp
  have parts: "case bind (restore_stage vault vault_backup vault_plan) (\<lambda>_. restore_database vault vault_plan)
      (?s\<lparr>os_tick := 24, os_uuid_next := 1\<rparr>) of (r, t) \<Rightarrow> r = Inr ()" by code_simp
  have "\<exists>u. restore_verified_backup vault vault_id ?s = (Inr (), u)"
    by (rule vault_restore_returns [OF found _ _ _ _ _ parts]) (simp_all add: calm_def vault_world_def)
  then obtain u where run: "restore_verified_backup vault vault_id ?s = (Inr (), u)" by blast
  have plan: "vault_plan = restore_plan_of vault (os_uuid ?s (os_uuid_next ?s))"
    using vault_plan_of [of False None] by simp
  have ready: "restorable vault vault_plan vault_backup (set vault_names) 3 (os_fs ?s)"
    using vault_ready [of False None] by simp
  from restored_files_match_manifest [OF verified found plan ready run]
  have "vr_backup_id report = vault_id" by (auto simp: report_of_def)
  then show ?thesis using verified run by blast
qed

end
