(* ===== verification/Spec2Isabelle.thy ===== *)
theory Spec2Isabelle
  imports FileProperties CatalogProperties AccountProperties SiteInvariant ReconciliationProperties PublicProperties BackupProperties
begin

text \<open>
  \<^bold>\<open>Software Hub: a model of its services and what holds of them.\<close>

  The program (\<open>src/app\<close>) is a web application that lets administrators keep a catalogue of
  software, its releases and their downloadable files. Routers (FastAPI) call services; a
  service validates its input, opens a short database transaction, and, for files, moves
  bytes between a quarantine and a public area of the file system. The development models
  the services, the storage layer, the policies and the security primitives; it follows the
  source function by function, with the names of the source.

  \<^bold>\<open>How Python is modelled.\<close> Text is the list of code points (theory \<open>PyText\<close>; the Unicode
  tables beyond ASCII are a parameter). A pure function that may raise returns a sum
  (\<open>Prelude\<close>); a function with effects is a state transformer that returns an exception or a
  value and keeps the state changes made before a raise (\<open>Effects\<close>, with try, finally and a
  weakest-precondition calculus). \<open>Errors\<close> is \<open>app/core/exceptions.py\<close>. An integer is
  unbounded, a byte is a word of eight bits, a time a number of microseconds.

  \<^bold>\<open>State and failure.\<close> \<open>FileSystem\<close> is a tree of directories, files and links in which the
  n-th system call fails when an oracle says so; links are followed at most 40 times, as the
  kernel does. \<open>Database\<close> holds one list of rows per table (\<open>Models\<close>, \<open>Table\<close>), the declared
  constraints, checked by every flush, statements that fail when an oracle says so, and the
  transaction of \<open>app/database/session.py\<close>, which rolls back on any exception. Other
  processes may commit between two sessions of one operation: an arbitrary function on the
  tables is applied whenever a session begins. Statements hold for every oracle and, where
  they do not say \<open>quiet\<close>, for every such function that keeps the invariant.

  \<^bold>\<open>Files.\<close> \<open>Policies\<close> is \<open>services/policies.py\<close>; \<open>Paths\<close>, \<open>Moves\<close>, \<open>Hashing\<close>, \<open>StoredFiles\<close>,
  \<open>Staging\<close> and \<open>Signatures\<close> are \<open>storage/paths.py\<close>, \<open>move.py\<close>, \<open>hashing.py\<close>,
  \<open>lifecycle.py\<close> and \<open>signatures.py\<close>; \<open>AuditTrail\<close> is \<open>services/audit_service.py\<close>; \<open>FileService\<close>
  and \<open>Reconciliation\<close> are the services of these names. \<open>FileLifecycle\<close> proves what each
  operation does under faults, \<open>AreaInvariant\<close> that bytes are where their row says,
  \<open>FileProperties\<close> states the results: publication, withdrawal and permanent deletion are all
  or nothing under database faults, published bytes have the recorded size and digest, and a
  directory fsync that fails after the rename breaks the promise.

  \<^bold>\<open>Uploads.\<close> \<open>Filenames\<close> is \<open>storage/filename.py\<close>, \<open>validation.py\<close> and \<open>disk.py\<close>; \<open>Uploads\<close> is
  \<open>storage/upload.py\<close>, \<open>scanner.py\<close> and \<open>services/upload_service.py\<close>: the kernel may take any
  part of a write, given by an oracle; random identifiers are drawn from a stream in the state.
  \<open>UploadSpecs\<close> proves that the copy writes exactly the source, \<open>UploadProperties\<close> that an
  upload is all or nothing, that what it lets in is vetted, and the grammar of names.

  \<^bold>\<open>Downloads.\<close> \<open>Downloads\<close> and \<open>DownloadProperties\<close> are \<open>services/download_service.py\<close> with
  the statistics: who may download, the headers of the internal redirect, the daily counters.
  \<open>SiteInvariant\<close> puts file actions, uploads and downloads into one state machine and shows
  that whatever they did before, a download serves bytes with the recorded digest.

  \<^bold>\<open>Reconciliation.\<close> \<open>ReconciliationSpecs\<close> and \<open>ReconciliationProperties\<close> show that the
  directory walk ends and is complete, that the cleanup of orphans deletes only unreferenced
  files while the operating system works, and a run in which it deletes a referenced file
  because one \<open>lstat\<close> failed.

  \<^bold>\<open>Catalogue.\<close> \<open>Normalization\<close> and \<open>Pagination\<close> are \<open>services/normalization.py\<close> and
  \<open>schemas/pagination.py\<close>; \<open>Catalog\<close> and \<open>Releases\<close> are the category, tag, software and release
  services with their repositories. \<open>Constraints\<close> has the frame rules of the constraints,
  \<open>CatalogSafety\<close> the invariant, with natural keys as a locale interpreted for slugs and
  release identities; \<open>CatalogSpecs\<close>, \<open>SoftwareSpecs\<close> and \<open>ReleaseSpecs\<close> specify every
  operation on success and failure; \<open>CatalogProperties\<close> composes them into a state machine.

  \<^bold>\<open>Public catalogue.\<close> \<open>Listings\<close> has the paged lists and the search of
  \<open>repositories/software_repository.py\<close> as rows of joined tables; \<open>PublicCatalog\<close> is
  \<open>services/public_catalog_service.py\<close> with its repository and view models. SQLite's \<open>LIKE\<close>,
  the column \<open>updated_at\<close>, Unicode upper case and the order a statement leaves open are fields
  of the parameter \<open>engine\<close>. \<open>PublicParts\<close> defines what is public of a database and shows
  that every query and view is a function of it; \<open>SearchSpecs\<close> that the escaped pattern finds
  text literally; \<open>PublicProperties\<close> has noninterference of the public pages, exactness of
  the search, and that the links of pages and site map lead to what they name.

  \<^bold>\<open>Maintenance and backups.\<close> \<open>Trees\<close> has what the standard library does to directory trees
  (\<open>mkdir\<close>, \<open>replace\<close>, \<open>walk\<close>, \<open>rmtree\<close>, \<open>copytree\<close>), each call inside able to fail.
  \<open>Maintenance\<close> is \<open>storage/manager.py\<close>, \<open>storage/cleanup.py\<close> and \<open>ensure_private_directory\<close>;
  \<open>BackupManifest\<close> and \<open>Backups\<close> are \<open>services/backup_service.py\<close>. JSON, ISO timestamps and the
  text of numbers are the parameter \<open>text_codec\<close>; SQLite and the migrations are the parameter
  \<open>sqlite_engine\<close>, functions of the bytes of the database and its write-ahead log. \<open>TreeSpecs\<close>
  has the frame \<open>confined\<close>, carried through every statement by the locale \<open>effect_order\<close>, and the
  exact removal of a tree while nothing fails; \<open>CopySpecs\<close> the exact or partial copy.
  \<open>RestoreSpecs\<close> says where the old and new trees are at each point of a restore, \<open>RestoreSteps\<close>
  that each step leads from one of these stands to the next or raises in a known one,
  \<open>RestoreUndo\<close> that the compensation leads back from all of them, \<open>RestoreContent\<close> what has been
  put in place, \<open>VerifySpecs\<close> what a verification has checked; \<open>BackupProperties\<close> states the results and \<open>BackupDemo\<close> is their installation.

  \<^bold>\<open>Authentication.\<close> \<open>Security\<close> and \<open>Csrf\<close> are \<open>core/security.py\<close> and \<open>core/csrf.py\<close>;
  \<open>Sessions\<close> and \<open>Auth\<close> are the session and authentication services with their repositories.
  SHA-256, HMAC, Argon2 and the random source are parameters; what a property needs of them
  (a digest of 32 bytes, a token of 43 URL-safe characters, no token drawn twice) is a named
  hypothesis. \<open>AuthSpecs\<close> says what each operation does to the tables, \<open>AuthInvariant\<close> states
  as a locale what a predicate must satisfy to survive every operation and interprets it for
  session lifetimes and lockout counters; \<open>AuthProperties\<close>, \<open>AccountProperties\<close> and
  \<open>CsrfProperties\<close> hold the results. \<open>Demo\<close> is the small installation the witnesses run on.

  \<^bold>\<open>Bounds and fuel.\<close> A directory walk carries the depth it may still descend; a tree of fewer
  levels is walked completely, and more depth changes nothing; the removal and the copy of a
  tree carry it in the same way, and a property that needs them to be complete bounds the
  levels of the tree by the fuel
  (\<open>walk_terminates_complete\<close>). Link resolution carries the kernel's limit. Every other
  recursion ends by a measure: hashing and copying by the rest of the stream, decimal notation
  by the number, the rounding of \<open>Page.pages\<close> by the distance to 53 bits.

  \<^bold>\<open>Not modelled.\<close> Interleaving inside one transaction: SQLite serialises writers, but the
  driver begins a transaction at the first change, so a check that precedes it may be stale;
  the model takes a transaction as one step. Autoincrement gaps, column lengths and
  timestamps of rows. The messages of errors. Cancellation of a request while a worker thread
  copies. The program \<open>clamscan\<close>, a parameter. Routers, templates, middleware, command line,
  migrations, dashboard and system status, and the loading of settings.
\<close>

end
